(* ===== verification/RM_Prelude.thy ===== *)
theory RM_Prelude
  imports Main "HOL-Library.Word" "HOL-Library.Monad_Syntax"
begin

text \<open>
  The prelude of the RadioMesh development: the machine types the C++ code uses, the
  conversions between bytes, characters and wider words, and the generic lemmas on lists,
  words and the option monad that the component theories share.

  Conventions used throughout:
    \<^item> \<open>byte\<close>, \<open>u16\<close>, \<open>u32\<close> are the C types \<open>uint8_t\<close>, \<open>uint16_t\<close>, \<open>uint32_t\<close> as
      fixed-width words, so arithmetic wraps as it does in the code; an \<open>int8_t\<close> is a
      \<open>byte\<close> read with \<open>sint\<close>;
    \<^item> \<open>std::vector<byte>\<close> is \<open>byte list\<close>, \<open>std::string\<close> is \<open>string\<close>, a
      \<open>std::array<byte, 4>\<close> is the datatype \<open>id4\<close>, whose values have four bytes by
      construction;
    \<^item> undefined behaviour of the C++ code (a null pointer that is followed, a read past
      the end of a buffer) is the value \<open>None\<close> of an option type; error codes that the
      code returns are ordinary values, so \<open>Some (rc, s)\<close> is a call that returned.
\<close>

unbundle bit_operations_syntax

type_synonym byte = "8 word"
type_synonym u16 = "16 word"
type_synonym u32 = "32 word"
type_synonym bytes = "8 word list"

section \<open>Shared proof collections\<close>

named_theorems wire_simps \<open>layout facts of encoded packets and storage images\<close>
named_theorems frame_simps \<open>facts that an operation leaves a part of the state alone\<close>

section \<open>Words as big-endian and little-endian bytes\<close>

text \<open>The byte of a 32-bit value selected by \<open>(value >> n) & 0xFF\<close>.\<close>

definition byte_of :: "nat \<Rightarrow> u32 \<Rightarrow> byte" where
  "byte_of n w = ucast (drop_bit n w AND 0xFF)"

text \<open>\<open>(b0 << 24) | (b1 << 16) | (b2 << 8) | b3\<close>, on 32 bits.\<close>

definition be32 :: "byte \<Rightarrow> byte \<Rightarrow> byte \<Rightarrow> byte \<Rightarrow> u32" where
  "be32 b0 b1 b2 b3 =
     push_bit 24 (ucast b0) OR push_bit 16 (ucast b1) OR push_bit 8 (ucast b2) OR ucast b3"

lemma mask_0xFF: "(0xFF :: 'a::len word) = mask 8"
  by (simp add: mask_eq_exp_minus_1)

lemma mask_0xFFFF: "(0xFFFF :: 'a::len word) = mask 16"
  by (simp add: mask_eq_exp_minus_1)

lemma byte_of_bit: "bit (byte_of n w) i \<longleftrightarrow> i < 8 \<and> bit w (n + i)"
  by (auto simp: byte_of_def mask_0xFF bit_simps dest: bit_imp_le_length)

lemma be32_byte_of [simp]: "be32 (byte_of 24 w) (byte_of 16 w) (byte_of 8 w) (byte_of 0 w) = w"
proof (rule bit_word_eqI)
  fix i assume i: "i < LENGTH(32)"
  consider "i < 8" | "8 \<le> i \<and> i < 16" | "16 \<le> i \<and> i < 24" | "24 \<le> i" by linarith
  then show "bit (be32 (byte_of 24 w) (byte_of 16 w) (byte_of 8 w) (byte_of 0 w)) i = bit w i"
    using i by cases (auto simp: be32_def bit_simps byte_of_bit)
qed

lemma byte_of_be32 [simp]:
  "byte_of 24 (be32 a b c d) = a" "byte_of 16 (be32 a b c d) = b"
  "byte_of 8 (be32 a b c d) = c" "byte_of 0 (be32 a b c d) = d"
  by (rule bit_word_eqI, auto simp: byte_of_bit be32_def bit_simps dest: bit_imp_le_length)+

lemma be32_inject [simp]: "be32 a b c d = be32 a' b' c' d' \<longleftrightarrow> a = a' \<and> b = b' \<and> c = c' \<and> d = d'"
  by (metis byte_of_be32)

text \<open>A 16-bit value as two bytes, least significant first: the in-memory layout of the
  little-endian targets, used by the storage image.\<close>

definition le16 :: "byte \<Rightarrow> byte \<Rightarrow> u16" where
  "le16 lo hi = push_bit 8 (ucast hi) OR ucast lo"

definition lo8 :: "u16 \<Rightarrow> byte" where
  "lo8 w = ucast w"

definition hi8 :: "u16 \<Rightarrow> byte" where
  "hi8 w = ucast (drop_bit 8 w)"

lemma le16_split [simp]: "le16 (lo8 w) (hi8 w) = w"
proof (rule bit_word_eqI)
  fix i assume i: "i < LENGTH(16)"
  consider "i < 8" | "8 \<le> i" by linarith
  then show "bit (le16 (lo8 w) (hi8 w)) i = bit w i"
    using i by cases (auto simp: le16_def lo8_def hi8_def bit_simps)
qed

lemma lo8_hi8_le16 [simp]: "lo8 (le16 a b) = a" "hi8 (le16 a b) = b"
  by (rule bit_word_eqI, auto simp: le16_def lo8_def hi8_def bit_simps dest: bit_imp_le_length)+

lemma xor_right_cancel [simp]: "(a :: 'a::len word) XOR c = b XOR c \<longleftrightarrow> a = b"
  by (metis xor.assoc xor.right_neutral xor_self_eq)

lemma xor_left_cancel [simp]: "c XOR (a :: 'a::len word) = c XOR b \<longleftrightarrow> a = b"
  by (metis xor.commute xor_right_cancel)

lemma funpow_funpow_add: "(f ^^ 8) ((f ^^ 8) x) = (f ^^ 16) x"
    "(f ^^ 8) ((f ^^ 16) x) = (f ^^ 24) x" "(f ^^ 8) ((f ^^ 24) x) = (f ^^ 32) x"
  using funpow_add [of 8 8 f] funpow_add [of 8 16 f] funpow_add [of 8 24 f] by simp_all

section \<open>Characters as bytes\<close>

definition byte_of_char :: "char \<Rightarrow> byte" where
  "byte_of_char c = word_of_nat (of_char c)"

definition char_of_byte :: "byte \<Rightarrow> char" where
  "char_of_byte b = char_of (unat b)"

lemma char_of_byte_of_char [simp]: "char_of_byte (byte_of_char c) = c"
proof -
  have "(of_char c :: nat) < 256" by simp
  then have "unat (word_of_nat (of_char c) :: byte) = of_char c"
    by (simp add: unat_of_nat take_bit_eq_mod)
  then show ?thesis by (simp add: char_of_byte_def byte_of_char_def)
qed

lemma byte_of_char_of_byte [simp]: "byte_of_char (char_of_byte b) = b"
proof -
  have "unat b < 256" using unsigned_less [of b] by simp
  then show ?thesis by (simp add: char_of_byte_def byte_of_char_def)
qed

lemma byte_of_char_inject [simp]: "byte_of_char c = byte_of_char d \<longleftrightarrow> c = d"
  by (metis char_of_byte_of_char)

lemma map_char_of_byte [simp]: "map char_of_byte (map byte_of_char s) = s"
  by (simp add: comp_def)

lemma map_byte_of_char_inject [simp]:
  "map byte_of_char s = map byte_of_char t \<longleftrightarrow> s = t"
  by (simp add: inj_def inj_map_eq_map)

section \<open>Fixed-size arrays\<close>

text \<open>\<open>std::array<byte, RM_ID_LENGTH>\<close> and \<open>std::array<byte, RESERVED_LENGTH>\<close>.\<close>

datatype id4 = Id4 byte byte byte byte

datatype rsv3 = Rsv3 byte byte byte

fun id4_bytes :: "id4 \<Rightarrow> bytes" where
  "id4_bytes (Id4 a b c d) = [a, b, c, d]"

fun rsv3_bytes :: "rsv3 \<Rightarrow> bytes" where
  "rsv3_bytes (Rsv3 a b c) = [a, b, c]"

lemma length_id4_bytes [simp]: "length (id4_bytes x) = 4"
  by (cases x) simp

lemma length_rsv3_bytes [simp]: "length (rsv3_bytes x) = 3"
  by (cases x) simp

lemma id4_bytes_inject [simp]: "id4_bytes x = id4_bytes y \<longleftrightarrow> x = y"
  by (cases x; cases y) simp

section \<open>Lists\<close>

lemma length_4_conv: "length xs = 4 \<longleftrightarrow> (\<exists>a b c d. xs = [a, b, c, d])"
  by (auto simp: length_Suc_conv numeral_eq_Suc)

lemma length_3_conv: "length xs = 3 \<longleftrightarrow> (\<exists>a b c. xs = [a, b, c])"
  by (auto simp: length_Suc_conv numeral_eq_Suc)

lemma take_length_append [simp]: "take (length xs) (xs @ ys) = xs"
  by simp

lemma map2_xor_self_inverse:
  "length xs = length ks \<Longrightarrow> map2 (XOR) (map2 (XOR) xs ks) ks = (xs :: bytes)"
  by (induction xs ks rule: list_induct2) (simp_all add: xor.assoc)

section \<open>The option monad, for undefined behaviour\<close>

text \<open>\<open>guard_ok b\<close> is undefined behaviour unless \<open>b\<close> holds.\<close>

definition guard_ok :: "bool \<Rightarrow> unit option" where
  "guard_ok b = (if b then Some () else None)"

lemma guard_ok_simps [simp]: "guard_ok True = Some ()" "guard_ok False = None"
  by (simp_all add: guard_ok_def)

lemma guard_ok_Some [simp]: "guard_ok b = Some u \<longleftrightarrow> b"
  by (simp add: guard_ok_def)

lemma guard_ok_bind_Some [simp]:
  "Option.bind (guard_ok b) f = Some x \<longleftrightarrow> b \<and> f () = Some x"
  by (simp add: guard_ok_def)

end
