(* ===== verification/RM_Types.thy ===== *)
theory RM_Types
  imports RM_Prelude
begin

text \<open>
  The shared definitions of the library: the error codes of
  \<open>src/src/common/inc/Errors.h\<close> and the enumerations, constants, parameter structures
  and topic predicates of \<open>src/src/common/inc/Definitions.h\<close> and
  \<open>src/src/core/protocol/inc/packet/Topics.h\<close>. A topic stays the \<open>uint8_t\<close> it is on the
  wire, so that unknown topics are values of the model too; the \<open>enum class\<close> types, which
  the code only compares, are datatypes with their numeric codes as functions.
\<close>

section \<open>Error codes\<close>

datatype rc =
    RM_E_NONE
  | RM_E_UNKNOWN
  | RM_E_INVALID_PARAM
  | RM_E_PACKET_TOO_LONG
  | RM_E_INVALID_LENGTH
  | RM_E_NOT_IMPLEMENTED
  | RM_E_NOT_SUPPORTED
  | RM_E_PACKET_CORRUPTED
  | RM_E_MAX_HOPS
  | RM_E_INVALID_DEVICE_TYPE
  | RM_E_DEVICE_INITIALIZATION_FAILED
  | RM_E_RADIO_SETUP
  | RM_E_RADIO_TX
  | RM_E_RADIO_RX
  | RM_E_RADIO_TX_TIMEOUT
  | RM_E_RADIO_RX_TIMEOUT
  | RM_E_RADIO_NOT_INITIALIZED
  | RM_E_RADIO_ALREADY_SETUP
  | RM_E_RADIO_CRC_MISMATCH
  | RM_E_RADIO_FAILURE
  | RM_E_INVALID_RADIO_PARAMS
  | RM_E_RADIO_HEADER_CRC_MISMATCH
  | RM_E_DISPLAY_SETUP
  | RM_E_DISPLAY_FAILURE
  | RM_E_DISPLAY_NOT_SETUP
  | RM_E_DISPLAY_INVALID_FONT
  | RM_E_DISPLAY_DRAW_STRING
  | RM_E_DISPLAY_DRAW_NUMBER
  | RM_E_DISPLAY_INVALID_COORDS
  | RM_E_DISPLAY_INVALID_ROTATION
  | RM_E_DISPLAY_INVALID_BRIGHTNESS
  | RM_E_WIFI_SSID_NOT_AVAILABLE
  | RM_E_WIFI_CONNECTION_FAILED
  | RM_E_WIFI_DISCONNECT_FAILED
  | RM_E_WIFI_SSID_NOT_SET
  | RM_E_WIFI_AP_ALREADY_STARTED
  | RM_E_WIFI_AP_START_FAILED
  | RM_E_WIFI_AP_STOP_FAILED
  | RM_E_WIFI_AP_SETUP
  | RM_E_INVALID_WIFI_PARAMS
  | RM_E_INVALID_AP_PARAMS
  | RM_E_CRYPTO_SETUP
  | RM_E_INVALID_CRYPTO_PARAMS
  | RM_E_AUTH_FAILED
  | RM_E_STORAGE_SETUP
  | RM_E_STORAGE_NOT_INIT
  | RM_E_STORAGE_KEY_NOT_FOUND
  | RM_E_STORAGE_READ_FAILED
  | RM_E_STORAGE_WRITE_FAILED
  | RM_E_STORAGE_NOT_ENOUGH_SPACE
  | RM_E_STORAGE_INVALID_SIZE
  | RM_E_INVALID_STATE
  | RM_E_INCLUSION_FAILED
  | RM_E_DEVICE_NOT_INCLUDED

fun rc_code :: "rc \<Rightarrow> int" where
    "rc_code RM_E_NONE = 0"
  | "rc_code RM_E_UNKNOWN = - 1"
  | "rc_code RM_E_INVALID_PARAM = - 2"
  | "rc_code RM_E_PACKET_TOO_LONG = - 3"
  | "rc_code RM_E_INVALID_LENGTH = - 4"
  | "rc_code RM_E_NOT_IMPLEMENTED = - 5"
  | "rc_code RM_E_NOT_SUPPORTED = - 6"
  | "rc_code RM_E_PACKET_CORRUPTED = - 7"
  | "rc_code RM_E_MAX_HOPS = - 8"
  | "rc_code RM_E_INVALID_DEVICE_TYPE = - 9"
  | "rc_code RM_E_DEVICE_INITIALIZATION_FAILED = - 10"
  | "rc_code RM_E_RADIO_SETUP = - 101"
  | "rc_code RM_E_RADIO_TX = - 102"
  | "rc_code RM_E_RADIO_RX = - 103"
  | "rc_code RM_E_RADIO_TX_TIMEOUT = - 104"
  | "rc_code RM_E_RADIO_RX_TIMEOUT = - 105"
  | "rc_code RM_E_RADIO_NOT_INITIALIZED = - 106"
  | "rc_code RM_E_RADIO_ALREADY_SETUP = - 107"
  | "rc_code RM_E_RADIO_CRC_MISMATCH = - 108"
  | "rc_code RM_E_RADIO_FAILURE = - 109"
  | "rc_code RM_E_INVALID_RADIO_PARAMS = - 110"
  | "rc_code RM_E_RADIO_HEADER_CRC_MISMATCH = - 111"
  | "rc_code RM_E_DISPLAY_SETUP = - 201"
  | "rc_code RM_E_DISPLAY_FAILURE = - 202"
  | "rc_code RM_E_DISPLAY_NOT_SETUP = - 203"
  | "rc_code RM_E_DISPLAY_INVALID_FONT = - 204"
  | "rc_code RM_E_DISPLAY_DRAW_STRING = - 205"
  | "rc_code RM_E_DISPLAY_DRAW_NUMBER = - 206"
  | "rc_code RM_E_DISPLAY_INVALID_COORDS = - 207"
  | "rc_code RM_E_DISPLAY_INVALID_ROTATION = - 208"
  | "rc_code RM_E_DISPLAY_INVALID_BRIGHTNESS = - 209"
  | "rc_code RM_E_WIFI_SSID_NOT_AVAILABLE = - 301"
  | "rc_code RM_E_WIFI_CONNECTION_FAILED = - 302"
  | "rc_code RM_E_WIFI_DISCONNECT_FAILED = - 303"
  | "rc_code RM_E_WIFI_SSID_NOT_SET = - 304"
  | "rc_code RM_E_WIFI_AP_ALREADY_STARTED = - 305"
  | "rc_code RM_E_WIFI_AP_START_FAILED = - 306"
  | "rc_code RM_E_WIFI_AP_STOP_FAILED = - 307"
  | "rc_code RM_E_WIFI_AP_SETUP = - 308"
  | "rc_code RM_E_INVALID_WIFI_PARAMS = - 309"
  | "rc_code RM_E_INVALID_AP_PARAMS = - 310"
  | "rc_code RM_E_CRYPTO_SETUP = - 401"
  | "rc_code RM_E_INVALID_CRYPTO_PARAMS = - 402"
  | "rc_code RM_E_AUTH_FAILED = - 403"
  | "rc_code RM_E_STORAGE_SETUP = - 501"
  | "rc_code RM_E_STORAGE_NOT_INIT = - 502"
  | "rc_code RM_E_STORAGE_KEY_NOT_FOUND = - 503"
  | "rc_code RM_E_STORAGE_READ_FAILED = - 504"
  | "rc_code RM_E_STORAGE_WRITE_FAILED = - 505"
  | "rc_code RM_E_STORAGE_NOT_ENOUGH_SPACE = - 506"
  | "rc_code RM_E_STORAGE_INVALID_SIZE = - 507"
  | "rc_code RM_E_INVALID_STATE = - 601"
  | "rc_code RM_E_INCLUSION_FAILED = - 602"
  | "rc_code RM_E_DEVICE_NOT_INCLUDED = - 603"

text \<open>\<open>RM_E_NONE\<close> is the only code that is not negative, so the tests \<open>rc != RM_E_NONE\<close>
  and \<open>rc < 0\<close> agree.\<close>

lemma rc_code_negative: "rc_code a < 0 \<longleftrightarrow> a \<noteq> RM_E_NONE"
  by (cases a) simp_all

section \<open>Topics\<close>

abbreviation (input) T_UNUSED :: byte where "T_UNUSED \<equiv> 0x00"
abbreviation (input) T_PING :: byte where "T_PING \<equiv> 0x01"
abbreviation (input) T_PONG :: byte where "T_PONG \<equiv> 0x02"
abbreviation (input) T_ACK :: byte where "T_ACK \<equiv> 0x03"
abbreviation (input) T_CMD :: byte where "T_CMD \<equiv> 0x04"
abbreviation (input) T_BYE :: byte where "T_BYE \<equiv> 0x05"
abbreviation (input) T_INCLUDE_REQUEST :: byte where "T_INCLUDE_REQUEST \<equiv> 0x06"
abbreviation (input) T_INCLUDE_RESPONSE :: byte where "T_INCLUDE_RESPONSE \<equiv> 0x07"
abbreviation (input) T_INCLUDE_OPEN :: byte where "T_INCLUDE_OPEN \<equiv> 0x08"
abbreviation (input) T_INCLUDE_CONFIRM :: byte where "T_INCLUDE_CONFIRM \<equiv> 0x09"
abbreviation (input) T_INCLUDE_SUCCESS :: byte where "T_INCLUDE_SUCCESS \<equiv> 0x0A"
abbreviation (input) T_MAX_RESERVED :: byte where "T_MAX_RESERVED \<equiv> 0x0F"

definition isTopicReverved :: "byte \<Rightarrow> bool" where
  "isTopicReverved topic \<longleftrightarrow> topic > T_MAX_RESERVED"

definition isPing :: "byte \<Rightarrow> bool" where "isPing topic \<longleftrightarrow> topic = T_PING"
definition isPong :: "byte \<Rightarrow> bool" where "isPong topic \<longleftrightarrow> topic = T_PONG"
definition isAck :: "byte \<Rightarrow> bool" where "isAck topic \<longleftrightarrow> topic = T_ACK"
definition isCmd :: "byte \<Rightarrow> bool" where "isCmd topic \<longleftrightarrow> topic = T_CMD"
definition isBye :: "byte \<Rightarrow> bool" where "isBye topic \<longleftrightarrow> topic = T_BYE"

definition isIncludeRequest :: "byte \<Rightarrow> bool" where
  "isIncludeRequest topic \<longleftrightarrow> topic = T_INCLUDE_REQUEST"
definition isIncludeResponse :: "byte \<Rightarrow> bool" where
  "isIncludeResponse topic \<longleftrightarrow> topic = T_INCLUDE_RESPONSE"
definition isIncludeOpen :: "byte \<Rightarrow> bool" where
  "isIncludeOpen topic \<longleftrightarrow> topic = T_INCLUDE_OPEN"
definition isIncludeConfirm :: "byte \<Rightarrow> bool" where
  "isIncludeConfirm topic \<longleftrightarrow> topic = T_INCLUDE_CONFIRM"

definition isInclusionTopic :: "byte \<Rightarrow> bool" where
  "isInclusionTopic topic \<longleftrightarrow>
     isIncludeRequest topic \<or> isIncludeResponse topic \<or> isIncludeOpen topic \<or>
     isIncludeConfirm topic"

lemma isInclusionTopic_iff:
  "isInclusionTopic t \<longleftrightarrow> t = 6 \<or> t = 7 \<or> t = 8 \<or> t = 9"
  by (auto simp: isInclusionTopic_def isIncludeRequest_def isIncludeResponse_def
      isIncludeOpen_def isIncludeConfirm_def)

text \<open>Decimal digits, as \<open>std::to_string\<close> of an unsigned value writes them.\<close>

fun dec_string :: "nat \<Rightarrow> string" where
  "dec_string n =
     (if n < 10 then [char_of (48 + n)] else dec_string (n div 10) @ [char_of (48 + n mod 10)])"

declare dec_string.simps [simp del]

text \<open>The default branch writes \<open>"0x" + std::to_string(topic)\<close>: a decimal number behind
  a hexadecimal prefix.\<close>

definition topicToString :: "byte \<Rightarrow> string" where
  "topicToString topic =
     (if topic = T_PING then ''PING''
      else if topic = T_PONG then ''PONG''
      else if topic = T_ACK then ''ACK''
      else if topic = T_CMD then ''CMD''
      else if topic = T_BYE then ''BYE''
      else if topic = T_INCLUDE_REQUEST then ''INCLUDE_REQUEST''
      else if topic = T_INCLUDE_RESPONSE then ''INCLUDE_RESPONSE''
      else if topic = T_INCLUDE_OPEN then ''INCLUDE_OPEN''
      else if topic = T_INCLUDE_CONFIRM then ''INCLUDE_CONFIRM''
      else if topic = T_INCLUDE_SUCCESS then ''INCLUDE_SUCCESS''
      else ''0x'' @ dec_string (unat topic))"

text \<open>\<open>radiomesh::isProtocolTopic\<close> of Topics.h: the reserved range, with the right sense.\<close>

definition isProtocolTopic :: "byte \<Rightarrow> bool" where
  "isProtocolTopic topic \<longleftrightarrow> topic \<le> T_MAX_RESERVED"

lemma isTopicReverved_negates: "isTopicReverved t \<longleftrightarrow> \<not> isProtocolTopic t"
  by (simp add: isTopicReverved_def isProtocolTopic_def not_le)

section \<open>Device types, inclusion states, parameters\<close>

datatype device_type = UNKNOWN | STANDARD | HUB

fun device_type_code :: "device_type \<Rightarrow> byte" where
  "device_type_code UNKNOWN = 0x01"
| "device_type_code STANDARD = 0x02"
| "device_type_code HUB = 0x03"

text \<open>\<open>DeviceInclusionState\<close> is loaded from storage by a \<open>static_cast\<close> of a byte, so a
  fourth constructor holds the values that no enumerator names.\<close>

datatype inclusion_state = NOT_INCLUDED | INCLUSION_PENDING | INCLUDED | BAD_STATE byte

fun inclusion_state_code :: "inclusion_state \<Rightarrow> byte" where
  "inclusion_state_code NOT_INCLUDED = 0x01"
| "inclusion_state_code INCLUSION_PENDING = 0x02"
| "inclusion_state_code INCLUDED = 0x03"
| "inclusion_state_code (BAD_STATE b) = b"

definition inclusion_state_of_byte :: "byte \<Rightarrow> inclusion_state" where
  "inclusion_state_of_byte b =
     (if b = 0x01 then NOT_INCLUDED else if b = 0x02 then INCLUSION_PENDING
      else if b = 0x03 then INCLUDED else BAD_STATE b)"

definition named_state :: "inclusion_state \<Rightarrow> bool" where
  "named_state s \<longleftrightarrow> s \<in> {NOT_INCLUDED, INCLUSION_PENDING, INCLUDED}"

lemma inclusion_state_of_byte_code:
  "named_state s \<Longrightarrow> inclusion_state_of_byte (inclusion_state_code s) = s"
  by (auto simp: named_state_def inclusion_state_of_byte_def)

datatype security_method = SEC_NONE | SEC_AES | SEC_CUSTOM

record security_params =
  sp_key :: bytes
  sp_iv :: bytes
  sp_method :: security_method

definition default_security_params :: security_params where
  "default_security_params = \<lparr>sp_key = [], sp_iv = [], sp_method = SEC_NONE\<rparr>"

definition BROADCAST_ADDR :: id4 where
  "BROADCAST_ADDR = Id4 0xFF 0xFF 0xFF 0xFF"

record device_blueprint =
  hasRadio :: bool
  canRelay :: bool
  hasDisplay :: bool
  usesCrypto :: bool
  hasRxCallback :: bool
  hasTxCallback :: bool
  hasWifi :: bool
  hasWifiAccessPoint :: bool
  hasDevicePortal :: bool

datatype signal_indicator = NO_SIGNAL | WEAK | FAIR | GOOD | EXCELLENT

fun signal_code :: "signal_indicator \<Rightarrow> nat" where
  "signal_code NO_SIGNAL = 0"
| "signal_code WEAK = 1"
| "signal_code FAIR = 2"
| "signal_code GOOD = 3"
| "signal_code EXCELLENT = 4"

lemma signal_code_inject [simp]: "signal_code a = signal_code b \<longleftrightarrow> a = b"
  by (cases a; cases b) simp_all

text \<open>The C enumeration is ordered by its codes.\<close>

instantiation signal_indicator :: linorder
begin

definition less_eq_signal_indicator :: "signal_indicator \<Rightarrow> signal_indicator \<Rightarrow> bool" where
  "less_eq_signal_indicator a b \<longleftrightarrow> signal_code a \<le> signal_code b"

definition less_signal_indicator :: "signal_indicator \<Rightarrow> signal_indicator \<Rightarrow> bool" where
  "less_signal_indicator a b \<longleftrightarrow> signal_code a < signal_code b"

instance
  by standard (auto simp: less_eq_signal_indicator_def less_signal_indicator_def)

end

end
