(* ===== verification/RM_Utils.thy ===== *)
theory RM_Utils
  imports RM_Types
begin

text \<open>
  The helper functions of \<open>src/src/common/utils/Utils.h\<close> and \<open>Utils.cpp\<close>: conversions
  between identifiers, numbers and bytes, the textual dumps, and the two random sources.
  The platform calls they make are parameters: \<open>random(n)\<close> is a function of the last seed (none
  before the first \<open>randomSeed\<close>), the number of draws since, and the bound; \<open>analogRead\<close> is a
  stream of samples, \<open>millis()\<close> a value.
\<close>

type_synonym rnd = "byte option \<Rightarrow> nat \<Rightarrow> nat \<Rightarrow> nat"

text \<open>The position of the random source: the last seed and the draws since.\<close>

type_synonym rng = "byte option \<times> nat"

definition random_draw :: "rnd \<Rightarrow> nat \<Rightarrow> rng \<Rightarrow> nat \<times> rng" where
  "random_draw r bound g = (r (fst g) (snd g) bound, (fst g, snd g + 1))"

definition randomSeed :: "byte \<Rightarrow> rng" where
  "randomSeed seed = (Some seed, 0)"

text \<open>Arduino's \<open>random(howbig)\<close> returns a value below its positive bound.\<close>

definition rnd_laws :: "rnd \<Rightarrow> bool" where
  "rnd_laws r \<longleftrightarrow> (\<forall>s i n. 0 < n \<longrightarrow> r s i n < n)"

section \<open>Identifiers and numbers\<close>

definition toUint32 :: "bytes \<Rightarrow> u32 option" where
  "toUint32 data = do {
     guard_ok (4 \<le> length data);
     Some (be32 (data ! 0) (data ! 1) (data ! 2) (data ! 3)) }"

fun deviceIdToUint32 :: "id4 \<Rightarrow> u32" where
  "deviceIdToUint32 (Id4 a b c d) = be32 a b c d"

definition uint32ToDeviceId :: "u32 \<Rightarrow> id4" where
  "uint32ToDeviceId value =
     Id4 (byte_of 24 value) (byte_of 16 value) (byte_of 8 value) (byte_of 0 value)"

definition isBroadcastAddress :: "id4 \<Rightarrow> bool" where
  "isBroadcastAddress address = (if address = BROADCAST_ADDR then True else False)"

definition areDeviceIdsEqual :: "id4 \<Rightarrow> id4 \<Rightarrow> bool" where
  "areDeviceIdsEqual id1 id2 \<longleftrightarrow> id1 = id2"

lemma toUint32_id4 [simp]: "toUint32 (id4_bytes x) = Some (deviceIdToUint32 x)"
  by (cases x) (simp add: toUint32_def)

lemma uint32ToDeviceId_inverse [simp]: "uint32ToDeviceId (deviceIdToUint32 x) = x"
  by (cases x) (simp add: uint32ToDeviceId_def)

lemma deviceIdToUint32_inverse [simp]: "deviceIdToUint32 (uint32ToDeviceId v) = v"
  by (simp add: uint32ToDeviceId_def)

lemma deviceIdToUint32_inject [simp]: "deviceIdToUint32 x = deviceIdToUint32 y \<longleftrightarrow> x = y"
  by (metis uint32ToDeviceId_inverse)

text \<open>\<open>numberToBytes<T>\<close> and \<open>bytesToNumber<T>\<close>; \<open>sizeof(T)\<close> is the word length in
  bytes.\<close>

definition numberToBytes :: "'n::len word \<Rightarrow> bytes" where
  "numberToBytes number =
     (let sz = LENGTH('n) div 8
      in map (\<lambda>i. ucast (drop_bit (8 * (sz - 1 - i)) number AND 0xFF)) [0..<sz])"

definition bytesToNumber :: "bytes \<Rightarrow> 'n::len word" where
  "bytesToNumber bs =
     (let limit = min (length bs) (LENGTH('n) div 8)
      in foldl (\<lambda>number b. push_bit 8 number OR ucast b) 0 (take limit bs))"

lemma upt_4: "[0..<4] = [0, 1, 2, 3 :: nat]"
  by (simp add: upt_rec)

lemma numberToBytes_u32:
  "numberToBytes (n :: u32) = [byte_of 24 n, byte_of 16 n, byte_of 8 n, byte_of 0 n]"
  by (simp add: numberToBytes_def upt_4 byte_of_def)

lemma bytesToNumber_u32:
  "bytesToNumber (a # b # c # d # rest) = (be32 a b c d :: u32)"
proof -
  have "push_bit 8 (push_bit 8 (push_bit 8 (ucast a) OR ucast b) OR ucast c) OR ucast d
      = (be32 a b c d :: u32)"
    by (simp add: be32_def push_bit_or or.assoc)
  then show ?thesis by (simp add: bytesToNumber_def)
qed

lemma bytesToNumber_Nil [simp]: "bytesToNumber [] = 0"
  by (simp add: bytesToNumber_def)

lemma length_numberToBytes_u32 [simp]: "length (numberToBytes (n :: u32)) = 4"
  by (simp add: numberToBytes_u32)

lemma bytesToNumber_numberToBytes [simp]: "bytesToNumber (numberToBytes n) = (n :: u32)"
  by (simp add: numberToBytes_u32 bytesToNumber_u32)

lemma numberToBytes_bytesToNumber:
  "length bs = 4 \<Longrightarrow> numberToBytes (bytesToNumber bs :: u32) = bs"
  by (auto simp: length_4_conv numberToBytes_u32 bytesToNumber_u32)

section \<open>Text\<close>

definition hex_digits :: string where
  "hex_digits = ''0123456789ABCDEF''"

definition hex2 :: "byte \<Rightarrow> string" where
  "hex2 val = [hex_digits ! unat (drop_bit 4 val AND 0x0F), hex_digits ! unat (val AND 0x0F)]"

text \<open>The loop reads \<open>size\<close> bytes from \<open>data\<close>; every caller passes the vector's own
  size. A larger \<open>size\<close> would read past the buffer.\<close>

definition convertToHex :: "bytes \<Rightarrow> nat \<Rightarrow> string option" where
  "convertToHex data sz = do {
     guard_ok (sz \<le> length data);
     Some (concat (map hex2 (take sz data))) }"

text \<open>Decimal numbers: their length, their digits, and that they are read back.\<close>

lemma length_dec_string: "length (dec_string n) \<le> Suc k \<longleftrightarrow> n < 10 ^ Suc k"
proof (induction k arbitrary: n)
  case 0
  then show ?case by (subst dec_string.simps) (auto simp: dec_string.simps [of "n div 10"] Let_def)
next
  case (Suc k)
  show ?case
  proof (cases "n < 10")
    case True
    then have "n < 10 ^ Suc (Suc k)" by (rule less_le_trans) simp
    then show ?thesis using True by (simp add: dec_string.simps [of n])
  next
    case False
    then have "length (dec_string n) \<le> Suc (Suc k) \<longleftrightarrow> length (dec_string (n div 10)) \<le> Suc k"
      by (simp add: dec_string.simps [of n])
    also have "\<dots> \<longleftrightarrow> n div 10 < 10 ^ Suc k" by (rule Suc.IH)
    also have "\<dots> \<longleftrightarrow> n < 10 ^ Suc (Suc k)" by (simp add: div_less_iff_less_mult mult.commute)
    finally show ?thesis .
  qed
qed

lemma dec_string_digits: "c \<in> set (dec_string n) \<Longrightarrow> 48 \<le> (of_char c :: nat) \<and> (of_char c :: nat) < 58"
proof (induction n rule: dec_string.induct)
  case (1 n)
  show ?case
  proof (cases "n < 10")
    case True
    then show ?thesis using "1.prems" by (auto simp: dec_string.simps [of n])
  next
    case False
    then have "c \<in> set (dec_string (n div 10)) \<or> c = char_of (48 + n mod 10)"
      using "1.prems" by (auto simp: dec_string.simps [of n])
    moreover have "n mod 10 < 10" by simp
    ultimately show ?thesis using "1.IH" [OF False] by auto
  qed
qed

lemma dec_string_value: "foldl (\<lambda>v c. 10 * v + (of_char c - 48)) 0 (dec_string n) = n"
proof (induction n rule: dec_string.induct)
  case (1 n)
  have m: "n mod 10 < 10" by simp
  show ?case
  proof (cases "n < 10")
    case True
    then show ?thesis by (simp add: dec_string.simps [of n])
  next
    case False
    then show ?thesis using "1.IH" m by (simp add: dec_string.simps [of n])
  qed
qed

lemma dec_string_inject [simp]: "dec_string a = dec_string b \<longleftrightarrow> a = b"
  by (metis dec_string_value)

lemma dec_string_no_char:
  "CHR ''-'' \<notin> set (dec_string n)" "CHR 0x00 \<notin> set (dec_string n)"
  using dec_string_digits [of "CHR ''-''" n] dec_string_digits [of "CHR 0x00" n] by auto

datatype data_format = DECIMAL | HEXD | HEXD_SPACED | ASCII

text \<open>\<open>if (!result.empty()) result += " "; result += item\<close>\<close>

definition spaced :: "string \<Rightarrow> string \<Rightarrow> string" where
  "spaced result item = (if result \<noteq> [] then result @ '' '' @ item else result @ item)"

definition isprint :: "byte \<Rightarrow> bool" where
  "isprint v \<longleftrightarrow> 32 \<le> unat v \<and> unat v < 127"

fun toString :: "bytes \<Rightarrow> data_format \<Rightarrow> string" where
  "toString vec format =
     (if vec = [] then ''<<Empty>>''
      else (case format of
          DECIMAL \<Rightarrow> foldl (\<lambda>r b. spaced r (dec_string (unat b))) [] vec
        | HEXD \<Rightarrow> foldl (\<lambda>r b. r @ hex2 b) [] vec
        | HEXD_SPACED \<Rightarrow> foldl (\<lambda>r b. spaced r (hex2 b)) [] vec
        | ASCII \<Rightarrow> foldl (\<lambda>r b. r @ [if isprint b then char_of_byte b else CHR ''.'']) [] vec))"

fun wifiSignalToString :: "signal_indicator \<Rightarrow> string" where
  "wifiSignalToString NO_SIGNAL = ''no signal''"
| "wifiSignalToString WEAK = ''[|   ]''"
| "wifiSignalToString FAIR = ''[||  ]''"
| "wifiSignalToString GOOD = ''[||| ]''"
| "wifiSignalToString EXCELLENT = ''[||||]''"

definition toupper_char :: "char \<Rightarrow> char" where
  "toupper_char c =
     (if 97 \<le> (of_char c :: nat) \<and> (of_char c :: nat) \<le> 122
      then char_of ((of_char c :: nat) - 32) else c)"

definition toUpperCase :: "string \<Rightarrow> string" where
  "toUpperCase str = foldl (\<lambda>upper c. upper @ [toupper_char c]) [] str"

lemma foldl_snoc_map: "foldl (\<lambda>r b. r @ f b) acc xs = acc @ concat (map f xs)"
  by (induction xs arbitrary: acc) auto

lemma length_hex2 [simp]: "length (hex2 b) = 2"
  by (simp add: hex2_def)

lemma nibble_less: "unat ((v :: byte) AND 0x0F) < 16"
proof -
  have "v AND 0x0F = take_bit 4 v"
    by (simp add: take_bit_eq_mask mask_eq_exp_minus_1)
  then show ?thesis
    using take_bit_nat_less_exp [of 4 "unat v"] by (simp add: unsigned_take_bit_eq)
qed

lemma hex_digits_inj:
  "i < 16 \<Longrightarrow> j < 16 \<Longrightarrow> hex_digits ! i = hex_digits ! j \<longleftrightarrow> i = j"
proof -
  assume "i < 16" "j < 16"
  moreover have "distinct hex_digits" and "length hex_digits = 16"
    by (simp_all add: hex_digits_def)
  ultimately show ?thesis by (simp add: nth_eq_iff_index_eq)
qed

lemma hex2_inject [simp]: "hex2 a = hex2 b \<longleftrightarrow> a = b"
proof
  assume eq: "hex2 a = hex2 b"
  have hi: "drop_bit 4 a AND 0x0F = drop_bit 4 b AND 0x0F" and lo: "a AND 0x0F = b AND 0x0F"
    using eq nibble_less by (auto simp: hex2_def hex_digits_inj word_unat_eq_iff [symmetric])
  have m: "(0x0F :: byte) = mask 4" by (simp add: mask_eq_exp_minus_1)
  have hi': "bit (drop_bit 4 a AND mask 4) i = bit (drop_bit 4 b AND mask 4) i"
    and lo': "bit (a AND mask 4) i = bit (b AND mask 4) i" for i
    using hi lo unfolding m by simp_all
  show "a = b"
  proof (rule bit_word_eqI)
    fix i assume "i < LENGTH(8)"
    then show "bit a i = bit b i"
      using hi' [of "i - 4"] lo' [of i] by (cases "i < 4") (auto simp: bit_simps)
  qed
qed simp

lemma concat_hex2_inject: "concat (map hex2 xs) = concat (map hex2 ys) \<longleftrightarrow> xs = ys"
proof
  assume "concat (map hex2 xs) = concat (map hex2 ys)"
  then show "xs = ys"
  proof (induction xs arbitrary: ys)
    case Nil
    then show ?case by (cases ys) (auto simp: hex2_def)
  next
    case (Cons x xs)
    then obtain y ys' where ys: "ys = y # ys'"
      by (cases ys) (auto simp: hex2_def)
    with Cons.prems have "hex2 x = hex2 y \<and> concat (map hex2 xs) = concat (map hex2 ys')"
      by (simp add: append_eq_append_conv)
    with Cons.IH ys show ?case by simp
  qed
qed simp

section \<open>Random sources\<close>

text \<open>One round of the inner loop of \<open>simpleRNG\<close>: eight pairs of samples.\<close>

fun simpleRNG_bits :: "(nat \<Rightarrow> int) \<Rightarrow> nat \<Rightarrow> nat \<Rightarrow> byte \<Rightarrow> byte" where
  "simpleRNG_bits sample pos 0 val = val"
| "simpleRNG_bits sample pos (Suc n) val =
     (let diff = \<bar>sample (pos + 1) - sample pos\<bar>
      in simpleRNG_bits sample (pos + 2) n (push_bit 1 val OR word_of_int (diff mod 2)))"

fun simpleRNG_loop :: "(nat \<Rightarrow> int) \<Rightarrow> nat \<Rightarrow> nat \<Rightarrow> byte \<Rightarrow> byte" where
  "simpleRNG_loop sample pos 0 val = val"
| "simpleRNG_loop sample pos (Suc sz) val =
     simpleRNG_loop sample (pos + 16) sz (simpleRNG_bits sample pos 8 val + 1)"

definition simpleRNG :: "(nat \<Rightarrow> int) \<Rightarrow> u32 \<Rightarrow> nat \<Rightarrow> byte" where
  "simpleRNG sample millis sz =
     (let val = simpleRNG_loop sample 0 sz 0
      in if val = 0 then ucast ((millis AND 0xFF) + 1) else val)"

definition alnum_digits :: string where
  "alnum_digits = ''0123456789ABCDEFGHIJKLMNOPQRSTUVWXYZ''"

definition random_digit :: "rnd \<Rightarrow> rng \<Rightarrow> byte \<times> rng" where
  "random_digit r g = (let (v, g') = random_draw r 36 g in (byte_of_char (alnum_digits ! v), g'))"

text \<open>\<open>getRandomBytesArray<4>\<close>: it reseeds the source from \<open>simpleRNG(4)\<close> and draws four
  digits.\<close>

definition getRandomBytesArray :: "rnd \<Rightarrow> (nat \<Rightarrow> int) \<Rightarrow> u32 \<Rightarrow> id4 \<times> rng" where
  "getRandomBytesArray r sample millis =
     (let g0 = randomSeed (simpleRNG sample millis 4);
          (b0, g1) = random_digit r g0;
          (b1, g2) = random_digit r g1;
          (b2, g3) = random_digit r g2;
          (b3, g4) = random_digit r g3
      in (Id4 b0 b1 b2 b3, g4))"

fun createUuid :: "rnd \<Rightarrow> nat \<Rightarrow> rng \<Rightarrow> string \<times> rng" where
  "createUuid r 0 g = ([], g)"
| "createUuid r (Suc n) g =
     (let (v, g1) = random_draw r 36 g;
          (cs, g2) = createUuid r n g1
      in ((if v < 26 then char_of (v + 97) else char_of (v - 26 + 48)) # cs, g2))"

lemma alnum_digits_nonzero: "k < 36 \<Longrightarrow> byte_of_char (alnum_digits ! k) \<noteq> 0"
proof -
  assume "k < 36"
  moreover have "length alnum_digits = 36" by (simp add: alnum_digits_def)
  ultimately have "alnum_digits ! k \<in> set alnum_digits"
    by (metis nth_mem)
  moreover have "\<forall>c \<in> set alnum_digits. byte_of_char c \<noteq> 0"
    by (simp add: alnum_digits_def byte_of_char_def)
  ultimately show ?thesis by blast
qed

lemma getRandomBytesArray_nonzero:
  "rnd_laws r \<Longrightarrow> fst (getRandomBytesArray r sample millis) \<noteq> Id4 0 0 0 0"
  by (simp add: getRandomBytesArray_def random_digit_def random_draw_def Let_def rnd_laws_def alnum_digits_nonzero)

text \<open>Packet identifiers carry at most eight bits of randomness: the source is reseeded with one
  byte for every identifier, so whatever the noise samples and the clock, at most 256 different
  four-byte identifiers can occur. The position of the source afterwards, from which session
  nonces are drawn, is one of the same 256.\<close>

theorem packet_ids_at_most_256:
  "card (range (\<lambda>(sample, millis). getRandomBytesArray r sample millis)) \<le> 256 \<and>
   finite (range (\<lambda>(sample, millis). getRandomBytesArray r sample millis))"
proof -
  define f where "f = (\<lambda>seed. let g0 = randomSeed seed;
          (b0, g1) = random_digit r g0;
          (b1, g2) = random_digit r g1;
          (b2, g3) = random_digit r g2;
          (b3, g4) = random_digit r g3
      in (Id4 b0 b1 b2 b3, g4))"
  have "range (\<lambda>(sample, millis). getRandomBytesArray r sample millis) \<subseteq> f ` UNIV"
    by (auto simp: getRandomBytesArray_def f_def Let_def)
  moreover have "card (f ` UNIV) \<le> 256"
    using card_image_le [of "UNIV :: byte set" f] by (simp add: card_word)
  moreover have "finite (f ` (UNIV :: byte set))" by simp
  ultimately show ?thesis by (meson card_mono finite_subset le_trans)
qed

end
