(* ===== verification/RM_Crc32.thy ===== *)
theory RM_Crc32
  imports RM_Utils
begin

text \<open>
  The checksum of \<open>src/src/common/utils/RadioMeshCrc32.h\<close>: a table-less, reflected
  32-bit CRC. The class's state is the word \<open>crc\<close>; every \<open>update\<close> overload is a function
  on it. The lemmas establish that one byte step is a bijection of the state and that four
  consecutive bytes enter it injectively; the locale \<open>burst_checksum\<close> turns that into the
  error-detection guarantee the packet router and the receive path rely on.
\<close>

section \<open>The class CRC32\<close>

definition crc_poly :: u32 where
  "crc_poly = 0xEDB88320"

text \<open>\<open>reset()\<close>: \<open>crc = ~0L\<close>.\<close>

definition crc_reset :: u32 where
  "crc_reset = NOT 0"

definition reflectByte :: "byte \<Rightarrow> byte" where
  "reflectByte b =
     fold (\<lambda>i reflection. if b AND push_bit i 1 \<noteq> 0 then reflection OR push_bit (7 - i) 1
                           else reflection) [0..<8] 0"

definition reflect32 :: "u32 \<Rightarrow> u32" where
  "reflect32 d =
     fold (\<lambda>i reflection. if d AND push_bit i 1 \<noteq> 0 then reflection OR push_bit (31 - i) 1
                           else reflection) [0..<32] 0"

text \<open>One iteration of the inner loop, and the loop.\<close>

definition crc_shift :: "u32 \<Rightarrow> u32" where
  "crc_shift crc = (if crc AND 1 \<noteq> 0 then drop_bit 1 crc XOR crc_poly else drop_bit 1 crc)"

definition update8 :: "u32 \<Rightarrow> byte \<Rightarrow> u32" where
  "update8 crc val = (crc_shift ^^ 8) (crc XOR ucast (reflectByte val))"

definition update16 :: "u32 \<Rightarrow> u16 \<Rightarrow> u32" where
  "update16 crc val = update8 (update8 crc (ucast (val AND 0xFF))) (ucast (drop_bit 8 val AND 0xFF))"

definition update32 :: "u32 \<Rightarrow> u32 \<Rightarrow> u32" where
  "update32 crc val =
     update16 (update16 crc (ucast (val AND 0xFFFF))) (ucast (drop_bit 16 val AND 0xFFFF))"

definition updateBytes :: "u32 \<Rightarrow> bytes \<Rightarrow> u32" where
  "updateBytes crc data = foldl update8 crc data"

definition crc_finalize :: "u32 \<Rightarrow> u32" where
  "crc_finalize crc = reflect32 crc XOR NOT 0"

text \<open>The packet checksum: the frame counter, then the payload when there is one. This is
  the sequence of calls of \<open>PacketRouter::calculatePacketCrc\<close> and of
  \<open>RadioMeshDevice::isReceivedDataCrcValid\<close>.\<close>

definition packet_crc :: "u32 \<Rightarrow> bytes \<Rightarrow> u32" where
  "packet_crc fcounter data =
     (let crc = update32 crc_reset fcounter;
          crc = (if data \<noteq> [] then updateBytes crc data else crc)
      in crc_finalize crc)"

section \<open>Bits of the building blocks\<close>

lemma and_push_bit_1: "((w :: 'a::len word) AND push_bit i 1 \<noteq> 0) \<longleftrightarrow> bit w i"
  by (metis and.commute bit_iff_and_push_bit_not_eq_0)

lemma bit_fold_reflect:
  "bit (fold (\<lambda>i r. if bit w i then r OR push_bit (m - i) 1 else r) is (r0 :: 'a::len word)) j
     \<longleftrightarrow> bit r0 j \<or> (j < LENGTH('a) \<and> (\<exists>i \<in> set is. bit w i \<and> j = m - i))"
  by (induction "is" arbitrary: r0) (auto simp: bit_simps)

lemma bit_reflectByte: "bit (reflectByte b) j \<longleftrightarrow> j < 8 \<and> bit b (7 - j)"
  unfolding reflectByte_def and_push_bit_1 bit_fold_reflect set_upt
  by (auto intro: bexI [of _ "7 - j"])

lemma bit_reflect32: "bit (reflect32 d) j \<longleftrightarrow> j < 32 \<and> bit d (31 - j)"
  unfolding reflect32_def and_push_bit_1 bit_fold_reflect set_upt
  by (auto intro: bexI [of _ "31 - j"])

lemma reflectByte_involutive [simp]: "reflectByte (reflectByte b) = b"
  by (rule bit_word_eqI) (auto simp: bit_reflectByte)

lemma reflect32_involutive [simp]: "reflect32 (reflect32 d) = d"
  by (rule bit_word_eqI) (auto simp: bit_reflect32)

lemma reflectByte_inject [simp]: "reflectByte a = reflectByte b \<longleftrightarrow> a = b"
  by (metis reflectByte_involutive)

lemma crc_finalize_inject [simp]: "crc_finalize a = crc_finalize b \<longleftrightarrow> a = b"
  unfolding crc_finalize_def xor_right_cancel by (metis reflect32_involutive)

lemma bit_crc_shift:
  "bit (crc_shift c) i \<longleftrightarrow> i < 32 \<and> (bit c (Suc i) \<noteq> (bit c 0 \<and> bit crc_poly i))"
proof -
  have "(c AND 1 \<noteq> 0) \<longleftrightarrow> bit c 0"
    using and_push_bit_1 [of c 0] by simp
  then show ?thesis
    by (auto simp: crc_shift_def bit_simps dest: bit_imp_le_length)
qed

lemma crc_shift_xor: "crc_shift (x XOR y) = crc_shift x XOR crc_shift y"
  by (rule bit_word_eqI) (auto simp: bit_crc_shift bit_simps)

lemma bit_crc_poly_31 [simp]: "bit crc_poly 31"
  by (simp add: crc_poly_def)

lemma crc_shift_inject [simp]: "crc_shift x = crc_shift y \<longleftrightarrow> x = y"
proof
  assume eq: "crc_shift x = crc_shift y"
  have b: "bit (crc_shift x) i = bit (crc_shift y) i" for i
    using eq by simp
  have zero: "bit x 0 = bit y 0"
    using b [of 31] bit_imp_le_length [of x 32] bit_imp_le_length [of y 32]
    by (auto simp: bit_crc_shift)
  show "x = y"
  proof (rule bit_word_eqI)
    fix i assume "i < LENGTH(32)"
    then show "bit x i = bit y i"
      using zero b [of "i - 1"] by (cases i) (auto simp: bit_crc_shift)
  qed
qed simp

lemma not_bit_32: "\<not> bit (w :: u32) 32"
  using bit_imp_le_length [of w 32] by auto

lemma crc_shift_even:
  assumes "\<And>j. bit z (Suc j) \<longleftrightarrow> j < 31 \<and> bit y j" and "\<not> bit z 0" and "\<not> bit y 31"
  shows "crc_shift z = y"
proof (rule bit_word_eqI)
  fix i assume "i < LENGTH(32)"
  then have "i < 31 \<or> i = 31" by auto
  then show "bit (crc_shift z) i = bit y i"
    by (elim disjE) (simp_all add: bit_crc_shift assms not_bit_32)
qed

lemma crc_shift_push: "\<not> bit y 31 \<Longrightarrow> crc_shift (push_bit (Suc 0) y) = y"
  by (rule crc_shift_even) (auto simp only: bit_push_bit_iff possible_bit_word, auto)

lemma crc_shifts_xor: "(crc_shift ^^ n) (x XOR y) = (crc_shift ^^ n) x XOR (crc_shift ^^ n) y"
  by (induction n) (simp_all add: crc_shift_xor)

lemma crc_shifts_inject [simp]: "(crc_shift ^^ n) x = (crc_shift ^^ n) y \<longleftrightarrow> x = y"
  by (induction n) simp_all

lemma crc_shifts_push:
  "n + k \<le> 32 \<Longrightarrow> y AND mask k = y \<Longrightarrow> (crc_shift ^^ n) (push_bit n y) = y"
proof (induction n)
  case (Suc n)
  have "\<not> bit (push_bit n y) 31"
    using Suc.prems bit_and_iff [of y "mask k" "31 - n"] by (auto simp: bit_simps)
  then have "crc_shift (push_bit (Suc n) y) = push_bit n y"
    using crc_shift_push [of "push_bit n y"] unfolding push_bit_push_bit by simp
  then have "(crc_shift ^^ Suc n) (push_bit (Suc n) y) = (crc_shift ^^ n) (push_bit n y)"
    by (simp add: funpow_swap1)
  with Suc show ?case by simp
qed simp

section \<open>One byte, four bytes\<close>

lemma update8_inject_state: "update8 s b = update8 t b \<longleftrightarrow> s = t"
  by (simp add: update8_def)

text \<open>A byte, placed below the bits already in the register, passes through \<open>n\<close> shifts
  unchanged; this is what lets four byte steps be read as 32 shifts of one word.\<close>

lemma crc_byte_lift:
  assumes "n \<le> 24"
  shows "ucast (b :: byte) = (crc_shift ^^ n) (push_bit n (ucast b) :: u32)"
proof -
  have "(ucast b :: u32) AND mask 8 = ucast b"
    by (rule bit_word_eqI) (auto simp: bit_simps dest: bit_imp_le_length)
  with assms show ?thesis by (simp add: crc_shifts_push [where k = 8])
qed

lemma crc_four_bytes:
  "foldl update8 s [a, b, c, d] =
     (crc_shift ^^ 32) (s XOR be32 (reflectByte d) (reflectByte c) (reflectByte b) (reflectByte a))"
proof -
  let ?r = "\<lambda>x. ucast (reflectByte x) :: u32" and ?T = "\<lambda>n. crc_shift ^^ n"
  have 1: "foldl update8 s [a, b, c, d] =
      ?T 8 (?T 8 (?T 8 (?T 8 (s XOR ?r a) XOR ?r b) XOR ?r c) XOR ?r d)"
    by (simp add: update8_def)
  have 2: "?T 8 (s XOR ?r a) XOR ?r b = ?T 8 (s XOR ?r a XOR push_bit 8 (?r b))"
    by (subst crc_byte_lift [of 8 "reflectByte b"]) (simp, simp only: crc_shifts_xor xor.assoc)
  have 3: "?T 8 (?T 8 (s XOR ?r a) XOR ?r b) XOR ?r c
      = ?T 16 (s XOR ?r a XOR push_bit 8 (?r b) XOR push_bit 16 (?r c))"
    unfolding 2 by (subst crc_byte_lift [of 16 "reflectByte c"])
      (simp, simp only: crc_shifts_xor funpow_funpow_add xor.assoc)
  have 4: "?T 8 (?T 8 (?T 8 (s XOR ?r a) XOR ?r b) XOR ?r c) XOR ?r d
      = ?T 24 (s XOR ?r a XOR push_bit 8 (?r b) XOR push_bit 16 (?r c) XOR push_bit 24 (?r d))"
    unfolding 3 by (subst crc_byte_lift [of 24 "reflectByte d"])
      (simp, simp only: crc_shifts_xor funpow_funpow_add xor.assoc)
  have "be32 (reflectByte d) (reflectByte c) (reflectByte b) (reflectByte a) =
      ?r a XOR push_bit 8 (?r b) XOR push_bit 16 (?r c) XOR push_bit 24 (?r d)"
    unfolding be32_def by (rule bit_word_eqI) (auto simp: bit_simps dest: bit_imp_le_length)
  with 1 4 show ?thesis
    by (simp only: xor.assoc funpow_funpow_add)
qed

section \<open>The error-detection contract\<close>

text \<open>
  What the router and the receive path need of a checksum: absorbing a byte loses nothing of
  the state, four bytes in a row are absorbed without loss, and finishing loses nothing.
\<close>

locale burst_checksum =
  fixes upd :: "'s \<Rightarrow> byte \<Rightarrow> 's" and fin :: "'s \<Rightarrow> 'o"
  assumes upd_inject: "upd s b = upd t b \<Longrightarrow> s = t"
    and block_inject: "length xs = 4 \<Longrightarrow> length ys = 4 \<Longrightarrow>
      foldl upd s xs = foldl upd s ys \<Longrightarrow> xs = ys"
    and fin_inject: "fin s = fin t \<Longrightarrow> s = t"
begin

lemma foldl_inject_state: "foldl upd s xs = foldl upd t xs \<Longrightarrow> s = t"
  by (induction xs arbitrary: s t) (auto dest: upd_inject)

lemma short_block_inject:
  assumes "length xs = length ys" and "length xs \<le> 4" and "foldl upd s xs = foldl upd s ys"
  shows "xs = ys"
proof -
  let ?pad = "replicate (4 - length xs) 0"
  have "foldl upd s (xs @ ?pad) = foldl upd s (ys @ ?pad)"
    using assms by simp
  then have "xs @ ?pad = ys @ ?pad"
    using assms by (intro block_inject [of _ _ s]) auto
  then show ?thesis by simp
qed

lemma burst_detected:
  assumes "length xs = length ys" and "length xs \<le> 4" and "xs \<noteq> ys"
  shows "fin (foldl upd s (pre @ xs @ post)) \<noteq> fin (foldl upd s (pre @ ys @ post))"
proof
  assume "fin (foldl upd s (pre @ xs @ post)) = fin (foldl upd s (pre @ ys @ post))"
  then have "foldl upd (foldl upd s pre) xs = foldl upd (foldl upd s pre) ys"
    by (auto dest!: fin_inject foldl_inject_state)
  with assms show False by (blast dest: short_block_inject)
qed

end

interpretation crc: burst_checksum update8 crc_finalize
proof
  show "s = t" if "update8 s b = update8 t b" for s t b
    using that by (simp add: update8_inject_state)
  show "xs = ys" if "length xs = 4" "length ys = 4" "foldl update8 s xs = foldl update8 s ys"
    for xs ys s
    using that unfolding length_4_conv by (auto simp only: crc_four_bytes crc_shifts_inject
      xor_left_cancel be32_inject reflectByte_inject)
  show "s = t" if "crc_finalize s = crc_finalize t" for s t
    using that by simp
qed

section \<open>The packet checksum\<close>

lemma update32_bytes:
  "update32 s w = foldl update8 s [byte_of 0 w, byte_of 8 w, byte_of 16 w, byte_of 24 w]"
proof -
  have "ucast ((ucast (w AND 0xFFFF) :: u16) AND 0xFF) = byte_of 0 w"
    and "ucast (drop_bit 8 (ucast (w AND 0xFFFF) :: u16) AND 0xFF) = byte_of 8 w"
    and "ucast ((ucast (drop_bit 16 w AND 0xFFFF) :: u16) AND 0xFF) = byte_of 16 w"
    and "ucast (drop_bit 8 (ucast (drop_bit 16 w AND 0xFFFF) :: u16) AND 0xFF) = byte_of 24 w"
    unfolding mask_0xFF mask_0xFFFF
    by (rule bit_word_eqI, auto simp: byte_of_bit bit_simps ac_simps)+
  then show ?thesis by (simp only: update32_def update16_def foldl.simps)
qed

lemma packet_crc_foldl:
  "packet_crc fc data = crc_finalize (foldl update8 crc_reset
     ([byte_of 0 fc, byte_of 8 fc, byte_of 16 fc, byte_of 24 fc] @ data))"
  by (simp add: packet_crc_def Let_def update32_bytes updateBytes_def)

text \<open>C34: A transmission error confined to four consecutive bytes of the payload is always
  detected: two payloads that differ only inside such a window have different packet
  checksums, whatever precedes and follows the window and whatever the frame counter.\<close>

theorem packet_crc_detects_burst:
  assumes "length xs = length ys" and "length xs \<le> 4" and "xs \<noteq> ys"
  shows "packet_crc fc (pre @ xs @ post) \<noteq> packet_crc fc (pre @ ys @ post)"
  using crc.burst_detected [OF assms, of crc_reset
      "[byte_of 0 fc, byte_of 8 fc, byte_of 16 fc, byte_of 24 fc] @ pre" post]
  by (simp only: packet_crc_foldl append_assoc not_False_eq_True)

theorem packet_crc_detects_burst_witness:
  "packet_crc 7 ([1, 2] @ [3, 4] @ [5]) \<noteq> packet_crc 7 ([1, 2] @ [4, 3] @ [5])"
  by (rule packet_crc_detects_burst) simp_all

text \<open>The checksum binds the frame counter: with the same payload, a packet replayed
  under any other frame counter has a different checksum.\<close>

theorem packet_crc_detects_counter:
  assumes "fc \<noteq> fc'"
  shows "packet_crc fc data \<noteq> packet_crc fc' data"
proof -
  let ?b = "\<lambda>w. [byte_of 0 w, byte_of 8 w, byte_of 16 w, byte_of 24 w]"
  have "?b fc \<noteq> ?b fc'"
    using assms be32_byte_of by (metis list.inject)
  then show ?thesis
    using crc.burst_detected [of "?b fc" "?b fc'" crc_reset "[]" data]
    by (simp add: packet_crc_foldl)
qed

theorem packet_crc_detects_counter_witness: "packet_crc 1 [9] \<noteq> packet_crc 2 [9]"
  by (rule packet_crc_detects_counter) simp

end
