(* ===== verification/RM_Packet.thy ===== *)
theory RM_Packet
  imports RM_Crc32
begin

text \<open>
  The packet class of \<open>src/src/core/protocol/inc/packet/Packet.h\<close>: its fields, its two
  conversions to and from the bytes on the air, and the accessors of the message integrity
  code (MIC) that is carried behind the payload. The constructor from a buffer indexes the
  buffer without testing its size, so \<open>fromByteBuffer\<close> is \<open>None\<close> (undefined behaviour) on
  fewer than \<open>HEADER_LENGTH\<close> bytes. The locale \<open>codec\<close> is the interface of a two-way byte
  format; the packet format is interpreted in it here, the storage headers in \<open>RM_Eeprom\<close>.
\<close>

section \<open>Layout\<close>

definition RM_PROTOCOL_VERSION :: byte where "RM_PROTOCOL_VERSION = 4"
definition PACKET_LENGTH :: nat where "PACKET_LENGTH = 256"
definition MAX_HOPS :: byte where "MAX_HOPS = 7"
definition DEV_ID_LENGTH :: nat where "DEV_ID_LENGTH = 4"

definition VERSION_POS :: nat where "VERSION_POS = 0"
definition SDEV_ID_POS :: nat where "SDEV_ID_POS = VERSION_POS + 1"
definition DDEV_ID_POS :: nat where "DDEV_ID_POS = SDEV_ID_POS + DEV_ID_LENGTH"
definition PKT_ID_POS :: nat where "PKT_ID_POS = DDEV_ID_POS + DEV_ID_LENGTH"
definition TOPIC_POS :: nat where "TOPIC_POS = PKT_ID_POS + DEV_ID_LENGTH"
definition DEVICE_TYPE_POS :: nat where "DEVICE_TYPE_POS = TOPIC_POS + 1"
definition HOP_COUNT_POS :: nat where "HOP_COUNT_POS = DEVICE_TYPE_POS + 1"
definition DATA_CRC_POS :: nat where "DATA_CRC_POS = HOP_COUNT_POS + 1"
definition FCOUNTER_POS :: nat where "FCOUNTER_POS = DATA_CRC_POS + 4"
definition LAST_HOP_ID_POS :: nat where "LAST_HOP_ID_POS = FCOUNTER_POS + 4"
definition NEXT_HOP_POS :: nat where "NEXT_HOP_POS = LAST_HOP_ID_POS + DEV_ID_LENGTH"
definition RESERVED_POS :: nat where "RESERVED_POS = NEXT_HOP_POS + DEV_ID_LENGTH"
definition DATA_POS :: nat where "DATA_POS = RESERVED_POS + 3"
definition HEADER_LENGTH :: nat where "HEADER_LENGTH = DATA_POS"
definition MIC_SIZE :: nat where "MIC_SIZE = 4"
definition MAX_DATA_LENGTH :: nat where
  "MAX_DATA_LENGTH = PACKET_LENGTH - HEADER_LENGTH - MIC_SIZE"

lemmas layout_defs = PACKET_LENGTH_def DEV_ID_LENGTH_def VERSION_POS_def SDEV_ID_POS_def
  DDEV_ID_POS_def PKT_ID_POS_def TOPIC_POS_def DEVICE_TYPE_POS_def HOP_COUNT_POS_def
  DATA_CRC_POS_def FCOUNTER_POS_def LAST_HOP_ID_POS_def NEXT_HOP_POS_def RESERVED_POS_def
  DATA_POS_def HEADER_LENGTH_def MIC_SIZE_def MAX_DATA_LENGTH_def

lemma layout_values [simp]: "HEADER_LENGTH = 35" "MIC_SIZE = 4" "MAX_DATA_LENGTH = 217"
    "PACKET_LENGTH = 256"
  by (simp_all add: layout_defs)

section \<open>The class RadioMeshPacket\<close>

record packet =
  p_version :: byte
  p_source :: id4
  p_dest :: id4
  p_id :: id4
  p_topic :: byte
  p_devtype :: byte
  p_hops :: byte
  p_crc :: u32
  p_fcounter :: u32
  p_lastHop :: id4
  p_nextHop :: id4
  p_reserved :: rsv3
  p_data :: bytes

definition zero_id :: id4 where "zero_id = Id4 0 0 0 0"

definition default_packet :: packet where
  "default_packet = \<lparr>
     p_version = RM_PROTOCOL_VERSION, p_source = zero_id, p_dest = zero_id, p_id = zero_id,
     p_topic = T_UNUSED, p_devtype = device_type_code UNKNOWN, p_hops = 0, p_crc = 0,
     p_fcounter = 0, p_lastHop = zero_id, p_nextHop = zero_id, p_reserved = Rsv3 0 0 0,
     p_data = []\<rparr>"

definition packet_reset :: "packet \<Rightarrow> packet" where
  "packet_reset p = p\<lparr>
     p_version := RM_PROTOCOL_VERSION, p_source := zero_id, p_dest := zero_id, p_id := zero_id,
     p_lastHop := zero_id, p_nextHop := zero_id, p_reserved := Rsv3 0 0 0, p_data := [],
     p_topic := T_UNUSED, p_devtype := device_type_code UNKNOWN, p_hops := 0, p_crc := 0,
     p_fcounter := 0\<rparr>"

text \<open>\<open>operator=\<close>: every field but the protocol version.\<close>

definition packet_assign :: "packet \<Rightarrow> packet \<Rightarrow> packet" where
  "packet_assign this other = other\<lparr>p_version := p_version this\<rparr>"

text \<open>\<open>std::copy_n(buffer.begin() + pos, 4, ...)\<close>\<close>

definition id4_at :: "bytes \<Rightarrow> nat \<Rightarrow> id4" where
  "id4_at b pos = Id4 (b ! pos) (b ! (pos + 1)) (b ! (pos + 2)) (b ! (pos + 3))"

definition be32_at :: "bytes \<Rightarrow> nat \<Rightarrow> u32" where
  "be32_at b pos = be32 (b ! pos) (b ! (pos + 1)) (b ! (pos + 2)) (b ! (pos + 3))"

definition fromByteBuffer :: "bytes \<Rightarrow> packet option" where
  "fromByteBuffer buffer = do {
     guard_ok (HEADER_LENGTH \<le> length buffer);
     Some \<lparr>
       p_version = buffer ! VERSION_POS,
       p_source = id4_at buffer SDEV_ID_POS,
       p_dest = id4_at buffer DDEV_ID_POS,
       p_id = id4_at buffer PKT_ID_POS,
       p_topic = buffer ! TOPIC_POS,
       p_devtype = buffer ! DEVICE_TYPE_POS,
       p_hops = buffer ! HOP_COUNT_POS,
       p_crc = be32_at buffer DATA_CRC_POS,
       p_fcounter = be32_at buffer FCOUNTER_POS,
       p_lastHop = id4_at buffer LAST_HOP_ID_POS,
       p_nextHop = id4_at buffer NEXT_HOP_POS,
       p_reserved = Rsv3 (buffer ! RESERVED_POS) (buffer ! (RESERVED_POS + 1))
                         (buffer ! (RESERVED_POS + 2)),
       p_data = drop DATA_POS buffer\<rparr> }"

definition be32_bytes :: "u32 \<Rightarrow> bytes" where
  "be32_bytes w = [byte_of 24 w, byte_of 16 w, byte_of 8 w, byte_of 0 w]"

definition getHeaderBytes :: "packet \<Rightarrow> bytes" where
  "getHeaderBytes p =
     [p_version p] @ id4_bytes (p_source p) @ id4_bytes (p_dest p) @ id4_bytes (p_id p)
     @ [p_topic p] @ [p_devtype p] @ [p_hops p]
     @ be32_bytes (p_crc p) @ be32_bytes (p_fcounter p)
     @ id4_bytes (p_lastHop p) @ id4_bytes (p_nextHop p) @ rsv3_bytes (p_reserved p)"

definition toByteBuffer :: "packet \<Rightarrow> bytes" where
  "toByteBuffer p =
     [p_version p] @ id4_bytes (p_source p) @ id4_bytes (p_dest p) @ id4_bytes (p_id p)
     @ [p_topic p] @ [p_devtype p] @ [p_hops p]
     @ be32_bytes (p_crc p) @ be32_bytes (p_fcounter p)
     @ id4_bytes (p_lastHop p) @ id4_bytes (p_nextHop p) @ rsv3_bytes (p_reserved p)
     @ p_data p"

definition getMaxDataLength :: nat where
  "getMaxDataLength = MAX_DATA_LENGTH"

definition packet_isInclusionTopic :: "byte \<Rightarrow> bool" where
  "packet_isInclusionTopic t \<longleftrightarrow>
     t = T_INCLUDE_REQUEST \<or> t = T_INCLUDE_RESPONSE \<or> t = T_INCLUDE_OPEN \<or>
     t = T_INCLUDE_CONFIRM"

section \<open>The integrity code behind the payload\<close>

definition hasMIC :: "packet \<Rightarrow> bool" where
  "hasMIC p \<longleftrightarrow>
     (p_topic p \<noteq> T_INCLUDE_OPEN \<and> p_topic p \<noteq> T_INCLUDE_REQUEST) \<and>
     MIC_SIZE \<le> length (p_data p)"

definition packet_extractMIC :: "packet \<Rightarrow> bytes" where
  "packet_extractMIC p =
     (if \<not> hasMIC p then [] else drop (length (p_data p) - MIC_SIZE) (p_data p))"

definition getDataWithoutMIC :: "packet \<Rightarrow> bytes" where
  "getDataWithoutMIC p =
     (if \<not> hasMIC p then p_data p else take (length (p_data p) - MIC_SIZE) (p_data p))"

definition packet_appendMIC :: "packet \<Rightarrow> bytes \<Rightarrow> packet" where
  "packet_appendMIC p mic =
     (if length mic \<noteq> MIC_SIZE then p
      else if length (p_data p) + MIC_SIZE > getMaxDataLength + MIC_SIZE then p
      else p\<lparr>p_data := p_data p @ mic\<rparr>)"

section \<open>Interface of a byte format\<close>

locale codec =
  fixes enc :: "'p \<Rightarrow> bytes" and dec :: "bytes \<Rightarrow> 'p option"
  assumes dec_enc: "dec (enc p) = Some p"
    and enc_dec: "dec b = Some p \<Longrightarrow> enc p = b"
begin

lemma enc_inject: "enc p = enc q \<longleftrightarrow> p = q"
  by (metis dec_enc option.inject)

lemma dec_iff: "dec b = Some p \<longleftrightarrow> b = enc p"
  using dec_enc enc_dec by blast

lemma dec_inject: "dec b = Some p \<Longrightarrow> dec c = Some p \<Longrightarrow> b = c"
  by (simp add: dec_iff)

end

lemma toByteBuffer_header: "toByteBuffer p = getHeaderBytes p @ p_data p"
  by (simp add: toByteBuffer_def getHeaderBytes_def)

lemma length_be32_bytes [simp]: "length (be32_bytes w) = 4"
  by (simp add: be32_bytes_def)

lemma length_getHeaderBytes [simp]: "length (getHeaderBytes p) = 35"
  by (simp add: getHeaderBytes_def)

lemma length_toByteBuffer [simp]: "length (toByteBuffer p) = 35 + length (p_data p)"
  by (simp add: toByteBuffer_header)

lemma fromByteBuffer_toByteBuffer: "fromByteBuffer (toByteBuffer p) = Some p"
proof -
  obtain s0 s1 s2 s3 d0 d1 d2 d3 i0 i1 i2 i3 l0 l1 l2 l3 n0 n1 n2 n3 r0 r1 r2 where
    f: "p_source p = Id4 s0 s1 s2 s3" "p_dest p = Id4 d0 d1 d2 d3" "p_id p = Id4 i0 i1 i2 i3"
      "p_lastHop p = Id4 l0 l1 l2 l3" "p_nextHop p = Id4 n0 n1 n2 n3" "p_reserved p = Rsv3 r0 r1 r2"
    by (metis id4.exhaust rsv3.exhaust)
  show ?thesis
    by (simp add: fromByteBuffer_def toByteBuffer_def be32_bytes_def id4_at_def be32_at_def
        layout_defs f nth_Cons' packet.equality)
qed

lemma list_of_prefix:
  "n \<le> length xs \<Longrightarrow> xs = map (\<lambda>i. xs ! i) [0..<n] @ drop n xs"
  by (metis append_take_drop_id map_nth take_map take_upt add_0 length_map)

lemma upt_35: "[0..<35] = [0, 1, 2, 3, 4, 5, 6, 7, 8, 9, 10, 11, 12, 13, 14, 15, 16, 17,
    18, 19, 20, 21, 22, 23, 24, 25, 26, 27, 28, 29, 30, 31, 32, 33, 34 :: nat]"
  by code_simp

lemma toByteBuffer_fromByteBuffer:
  assumes "fromByteBuffer b = Some p"
  shows "toByteBuffer p = b"
proof -
  from assms have len: "35 \<le> length b"
    by (simp add: fromByteBuffer_def)
  have "toByteBuffer p = map (\<lambda>i. b ! i) [0..<35] @ drop 35 b"
    using assms by (auto simp: fromByteBuffer_def toByteBuffer_def be32_bytes_def id4_at_def
        be32_at_def layout_defs upt_35) (simp_all add: numeral_2_eq_2 numeral_3_eq_3)
  with list_of_prefix [OF len] show ?thesis by simp
qed

interpretation wire: codec toByteBuffer fromByteBuffer
  by unfold_locales (rule fromByteBuffer_toByteBuffer, rule toByteBuffer_fromByteBuffer)

lemma fromByteBuffer_None: "fromByteBuffer b = None \<longleftrightarrow> length b < 35"
  by (auto simp: fromByteBuffer_def guard_ok_def)

lemma packet_data_of_buffer: "fromByteBuffer b = Some p \<Longrightarrow> p_data p = drop 35 b"
  by (auto simp: fromByteBuffer_def layout_defs)

section \<open>Properties\<close>

text \<open>C30: The wire format is a two-way, lossless encoding: a buffer parses to a packet exactly
  when it is that packet's serialisation, and every buffer of at least the header length
  parses. So no header field is dropped, reordered or misread between sender and receiver.\<close>

theorem packet_wire_roundtrip:
  "(fromByteBuffer b = Some p \<longleftrightarrow> b = toByteBuffer p) \<and>
   ((\<exists>q. fromByteBuffer b = Some q) \<longleftrightarrow> HEADER_LENGTH \<le> length b)"
  using fromByteBuffer_None [of b] by (auto simp: wire.dec_iff not_less)

lemma packet_appendMIC_data:
  "length mic = 4 \<Longrightarrow> length (p_data p) \<le> 217 \<Longrightarrow>
     packet_appendMIC p mic = p\<lparr>p_data := p_data p @ mic\<rparr>"
  by (simp add: packet_appendMIC_def getMaxDataLength_def)

lemma getHeaderBytes_data [simp]: "getHeaderBytes (p\<lparr>p_data := d\<rparr>) = getHeaderBytes p"
  by (simp add: getHeaderBytes_def)

text \<open>Appending a four-byte MIC within the payload limit and taking it off again are
  inverse for every topic that carries one; the header bytes the MIC was computed over are
  untouched, and the frame stays within \<open>PACKET_LENGTH\<close>.\<close>

theorem packet_mic_roundtrip:
  assumes "length mic = MIC_SIZE" and "length (p_data p) \<le> MAX_DATA_LENGTH"
    and "p_topic p \<noteq> T_INCLUDE_OPEN" and "p_topic p \<noteq> T_INCLUDE_REQUEST"
  shows "packet_extractMIC (packet_appendMIC p mic) = mic \<and>
         getDataWithoutMIC (packet_appendMIC p mic) = p_data p \<and>
         getHeaderBytes (packet_appendMIC p mic) = getHeaderBytes p \<and>
         length (toByteBuffer (packet_appendMIC p mic)) \<le> PACKET_LENGTH"
  using assms
  by (simp add: packet_appendMIC_data packet_extractMIC_def getDataWithoutMIC_def hasMIC_def)

theorem packet_mic_roundtrip_witness:
  "packet_extractMIC (packet_appendMIC (default_packet\<lparr>p_data := [1, 2]\<rparr>) [9, 8, 7, 6]) = [9, 8, 7, 6]"
  by (rule packet_mic_roundtrip [THEN conjunct1]) (simp_all add: default_packet_def)

lemma packet_isInclusionTopic_eq: "packet_isInclusionTopic = isInclusionTopic"
  by (auto simp: packet_isInclusionTopic_def isInclusionTopic_iff fun_eq_iff)

lemma packet_reset_eq: "packet_reset p = default_packet"
  by (simp add: packet_reset_def default_packet_def)

end
