(* ===== verification/RM_Eeprom.thy ===== *)
theory RM_Eeprom
  imports RM_Packet
begin

text \<open>
  The storage of keys and values in EEPROM: \<open>src/src/hardware/inc/storage/eeprom/EEPROMStorage.h\<close>
  and \<open>src/src/hardware/src/storage/eeprom/EEPROMStorage.cpp\<close>, at the level of the bytes it reads
  and writes. The EEPROM object of the platform is a record of functions over a state of any type
  \<open>'e\<close>; \<open>eeprom_laws\<close> states that an opened EEPROM of a size is a byte array of that size. The
  headers are C structs copied byte by byte on a little-endian target; \<open>EntryHeader\<close> has one byte
  of padding, so it takes six bytes, and the padding of a new header is whatever was on the stack
  (\<open>ee_pad\<close>). Addresses are natural numbers; only \<open>available()\<close>, which can underflow, is kept at
  32 bits.

  What the operations do to the stored entries is proved in \<open>RM_EepromList\<close>.
\<close>

section \<open>The platform's EEPROM\<close>

record 'e eeprom_lib =
  ee_begin :: "nat \<Rightarrow> 'e \<Rightarrow> bool \<times> 'e"
  ee_end :: "'e \<Rightarrow> 'e"
  ee_read :: "'e \<Rightarrow> nat \<Rightarrow> byte"
  ee_write :: "nat \<Rightarrow> byte \<Rightarrow> 'e \<Rightarrow> 'e"
  ee_commit :: "'e \<Rightarrow> bool \<times> 'e"
  ee_pad :: byte

definition eeprom_laws :: "'e eeprom_lib \<Rightarrow> ('e \<Rightarrow> nat \<Rightarrow> bool) \<Rightarrow> bool" where
  "eeprom_laws L opened \<longleftrightarrow>
     (\<forall>m n m'. ee_begin L n m = (True, m') \<longrightarrow> opened m' n) \<and>
     (\<forall>m n a b. opened m n \<longrightarrow> a < n \<longrightarrow> opened (ee_write L a b m) n) \<and>
     (\<forall>m n a b a'. opened m n \<longrightarrow> a < n \<longrightarrow> a' < n \<longrightarrow>
        ee_read L (ee_write L a b m) a' = (if a' = a then b else ee_read L m a')) \<and>
     (\<forall>m n. opened m n \<longrightarrow> opened (snd (ee_commit L m)) n) \<and>
     (\<forall>m n a. opened m n \<longrightarrow> a < n \<longrightarrow> ee_read L (snd (ee_commit L m)) a = ee_read L m a)"

section \<open>Headers\<close>

definition EEPROM_STORAGE_MAX_SIZE :: nat where "EEPROM_STORAGE_MAX_SIZE = 1024"
definition STORAGE_MAGIC :: u32 where "STORAGE_MAGIC = 0x524D5354"
definition STORAGE_VERSION :: u16 where "STORAGE_VERSION = 1"
definition ENTRY_VALID_FLAG :: byte where "ENTRY_VALID_FLAG = 0x01"

record storage_header =
  sh_magic :: u32
  sh_version :: u16
  sh_numEntries :: u16

record entry_header =
  eh_keyLength :: u16
  eh_dataLength :: u16
  eh_flags :: byte
  eh_pad :: byte

definition SH_SIZE :: nat where "SH_SIZE = 8"
definition EH_SIZE :: nat where "EH_SIZE = 6"

text \<open>The bytes of the structs in memory.\<close>

definition storage_header_bytes :: "storage_header \<Rightarrow> bytes" where
  "storage_header_bytes h =
     [byte_of 0 (sh_magic h), byte_of 8 (sh_magic h), byte_of 16 (sh_magic h), byte_of 24 (sh_magic h),
      lo8 (sh_version h), hi8 (sh_version h), lo8 (sh_numEntries h), hi8 (sh_numEntries h)]"

definition storage_header_of :: "bytes \<Rightarrow> storage_header option" where
  "storage_header_of b =
     (if length b = SH_SIZE then
        Some \<lparr>sh_magic = be32 (b ! 3) (b ! 2) (b ! 1) (b ! 0), sh_version = le16 (b ! 4) (b ! 5),
              sh_numEntries = le16 (b ! 6) (b ! 7)\<rparr>
      else None)"

definition entry_header_bytes :: "entry_header \<Rightarrow> bytes" where
  "entry_header_bytes h =
     [lo8 (eh_keyLength h), hi8 (eh_keyLength h), lo8 (eh_dataLength h), hi8 (eh_dataLength h),
      eh_flags h, eh_pad h]"

definition entry_header_of :: "bytes \<Rightarrow> entry_header option" where
  "entry_header_of b =
     (if length b = EH_SIZE then
        Some \<lparr>eh_keyLength = le16 (b ! 0) (b ! 1), eh_dataLength = le16 (b ! 2) (b ! 3),
              eh_flags = b ! 4, eh_pad = b ! 5\<rparr>
      else None)"

lemma length_6_conv: "length xs = 6 \<longleftrightarrow> (\<exists>a b c d e f. xs = [a, b, c, d, e, f])"
  by (auto simp: length_Suc_conv numeral_eq_Suc)

lemma length_8_conv: "length xs = 8 \<longleftrightarrow> (\<exists>a b c d e f g h. xs = [a, b, c, d, e, f, g, h])"
  by (auto simp: length_Suc_conv numeral_eq_Suc)

interpretation sh: codec storage_header_bytes storage_header_of
proof unfold_locales
  show "storage_header_of (storage_header_bytes h) = Some h" for h
    by (simp add: storage_header_of_def storage_header_bytes_def SH_SIZE_def)
  show "storage_header_bytes h = b" if "storage_header_of b = Some h" for b h
    using that by (auto simp: storage_header_of_def storage_header_bytes_def SH_SIZE_def length_8_conv split: if_splits)
qed

interpretation eh: codec entry_header_bytes entry_header_of
proof unfold_locales
  show "entry_header_of (entry_header_bytes h) = Some h" for h
    by (simp add: entry_header_of_def entry_header_bytes_def EH_SIZE_def)
  show "entry_header_bytes h = b" if "entry_header_of b = Some h" for b h
    using that by (auto simp: entry_header_of_def entry_header_bytes_def EH_SIZE_def length_6_conv split: if_splits)
qed

lemma length_header_bytes [simp]: "length (storage_header_bytes h) = 8" "length (entry_header_bytes e) = 6"
  by (simp_all add: storage_header_bytes_def entry_header_bytes_def)

section \<open>State and byte access\<close>

record 'e storage =
  st_mem :: 'e
  st_initialized :: bool
  st_size :: nat

definition EEPROMStorage :: "'e \<Rightarrow> 'e storage" where
  "EEPROMStorage m = \<lparr>st_mem = m, st_initialized = False, st_size = 0\<rparr>"

text \<open>The loops over consecutive addresses.\<close>

definition read_bytes :: "'e eeprom_lib \<Rightarrow> 'e \<Rightarrow> nat \<Rightarrow> nat \<Rightarrow> bytes" where
  "read_bytes L m addr n = map (\<lambda>j. ee_read L m (addr + j)) [0..<n]"

fun write_bytes :: "'e eeprom_lib \<Rightarrow> nat \<Rightarrow> bytes \<Rightarrow> 'e \<Rightarrow> 'e" where
  "write_bytes L addr [] m = m"
| "write_bytes L addr (b # bs) m = write_bytes L (addr + 1) bs (ee_write L addr b m)"

definition the_entry_header :: "'e eeprom_lib \<Rightarrow> 'e \<Rightarrow> nat \<Rightarrow> entry_header" where
  "the_entry_header L m addr =
     (case entry_header_of (read_bytes L m addr EH_SIZE) of Some h \<Rightarrow> h
      | None \<Rightarrow> \<lparr>eh_keyLength = 0, eh_dataLength = 0, eh_flags = 0, eh_pad = 0\<rparr>)"

definition read_key :: "'e eeprom_lib \<Rightarrow> 'e \<Rightarrow> nat \<Rightarrow> u16 \<Rightarrow> string" where
  "read_key L m addr n = map char_of_byte (read_bytes L m addr (unat n))"

definition entry_valid :: "entry_header \<Rightarrow> bool" where
  "entry_valid h \<longleftrightarrow> eh_flags h AND ENTRY_VALID_FLAG \<noteq> 0"

definition entry_size :: "entry_header \<Rightarrow> nat" where
  "entry_size h = EH_SIZE + unat (eh_keyLength h) + unat (eh_dataLength h)"

section \<open>Operations\<close>

definition st_setParams :: "nat \<Rightarrow> 'e storage \<Rightarrow> rc \<times> 'e storage" where
  "st_setParams sz s =
     (if sz = 0 \<or> sz > EEPROM_STORAGE_MAX_SIZE then (RM_E_STORAGE_INVALID_SIZE, s)
      else (RM_E_NONE, s\<lparr>st_size := sz\<rparr>))"

definition initializeStorageHeader :: "'e eeprom_lib \<Rightarrow> 'e storage \<Rightarrow> 'e storage" where
  "initializeStorageHeader L s =
     s\<lparr>st_mem := write_bytes L 0 (storage_header_bytes
         \<lparr>sh_magic = STORAGE_MAGIC, sh_version = STORAGE_VERSION, sh_numEntries = 0\<rparr>) (st_mem s)\<rparr>"

text \<open>The header, or \<open>None\<close> when the storage is not initialised.\<close>

definition readStorageHeader :: "'e eeprom_lib \<Rightarrow> 'e storage \<Rightarrow> storage_header option" where
  "readStorageHeader L s =
     (if \<not> st_initialized s then None else storage_header_of (read_bytes L (st_mem s) 0 SH_SIZE))"

definition writeStorageHeader :: "'e eeprom_lib \<Rightarrow> storage_header \<Rightarrow> 'e storage \<Rightarrow> rc \<times> 'e storage" where
  "writeStorageHeader L h s =
     (if \<not> st_initialized s then (RM_E_STORAGE_NOT_INIT, s)
      else (RM_E_NONE, s\<lparr>st_mem := write_bytes L 0 (storage_header_bytes h) (st_mem s)\<rparr>))"

definition isStorageValid :: "'e eeprom_lib \<Rightarrow> 'e storage \<Rightarrow> bool" where
  "isStorageValid L s =
     (case readStorageHeader L s of
        None \<Rightarrow> False
      | Some h \<Rightarrow> sh_magic h = STORAGE_MAGIC \<and> sh_version h = STORAGE_VERSION)"

definition st_commit :: "'e eeprom_lib \<Rightarrow> 'e storage \<Rightarrow> rc \<times> 'e storage" where
  "st_commit L s =
     (if \<not> st_initialized s then (RM_E_STORAGE_NOT_INIT, s)
      else case ee_commit L (st_mem s) of
             (ok, m) \<Rightarrow> (if \<not> ok then RM_E_STORAGE_WRITE_FAILED else RM_E_NONE, s\<lparr>st_mem := m\<rparr>))"

text \<open>The test \<open>if (!commit())\<close> takes the error code for a success flag: \<open>!rc\<close> holds exactly when
  the code is 0, that is \<open>RM_E_NONE\<close>.\<close>

definition st_begin :: "'e eeprom_lib \<Rightarrow> 'e storage \<Rightarrow> rc \<times> 'e storage" where
  "st_begin L s =
     (if st_initialized s then (RM_E_STORAGE_SETUP, s)
      else if st_size s = 0 then (RM_E_INVALID_PARAM, s)
      else case ee_begin L (st_size s) (st_mem s) of
             (ok, m) \<Rightarrow>
               (if \<not> ok then (RM_E_STORAGE_SETUP, s\<lparr>st_mem := m\<rparr>)
                else
                  let s1 = s\<lparr>st_mem := m, st_initialized := True\<rparr> in
                  if \<not> isStorageValid L s1 then
                    (case st_commit L (initializeStorageHeader L s1) of
                       (rc, s2) \<Rightarrow> (if rc_code rc = 0 then (RM_E_STORAGE_SETUP, s2) else (RM_E_NONE, s2)))
                  else (RM_E_NONE, s1)))"

definition st_end :: "'e eeprom_lib \<Rightarrow> 'e storage \<Rightarrow> rc \<times> 'e storage" where
  "st_end L s =
     (if \<not> st_initialized s then (RM_E_STORAGE_NOT_INIT, s)
      else (RM_E_NONE, s\<lparr>st_mem := ee_end L (st_mem s), st_initialized := False\<rparr>))"

text \<open>The loop that adds up the entries.\<close>

fun used_loop :: "'e eeprom_lib \<Rightarrow> 'e \<Rightarrow> nat \<Rightarrow> nat \<Rightarrow> nat" where
  "used_loop L m 0 addr = addr"
| "used_loop L m (Suc n) addr = used_loop L m n (addr + entry_size (the_entry_header L m addr))"

definition available :: "'e eeprom_lib \<Rightarrow> 'e storage \<Rightarrow> u32" where
  "available L s =
     (case readStorageHeader L s of
        None \<Rightarrow> 0
      | Some h \<Rightarrow> word_of_nat (st_size s) - word_of_nat (used_loop L (st_mem s) (unat (sh_numEntries h)) SH_SIZE))"

definition isFull :: "'e eeprom_lib \<Rightarrow> 'e storage \<Rightarrow> bool" where
  "isFull L s = (if \<not> st_initialized s then True else available L s = 0)"

text \<open>The search of \<open>write\<close>, \<open>exists\<close> and \<open>remove\<close>: the header of the first valid entry with the
  key and its address, or no header and the address behind the last entry.\<close>

fun scan :: "'e eeprom_lib \<Rightarrow> 'e \<Rightarrow> string \<Rightarrow> nat \<Rightarrow> nat \<Rightarrow> entry_header option \<times> nat" where
  "scan L m key 0 addr = (None, addr)"
| "scan L m key (Suc n) addr =
     (let h = the_entry_header L m addr in
      if entry_valid h \<and> read_key L m (addr + EH_SIZE) (eh_keyLength h) = key then (Some h, addr)
      else scan L m key n (addr + entry_size h))"

definition invalidate :: "entry_header \<Rightarrow> entry_header" where
  "invalidate h = h\<lparr>eh_flags := eh_flags h AND NOT ENTRY_VALID_FLAG\<rparr>"

definition st_write :: "'e eeprom_lib \<Rightarrow> string \<Rightarrow> bytes \<Rightarrow> 'e storage \<Rightarrow> rc \<times> 'e storage" where
  "st_write L key data s =
     (if \<not> st_initialized s then (RM_E_STORAGE_NOT_INIT, s)
      else if key = [] then (RM_E_INVALID_PARAM, s)
      else if data = [] then (RM_E_INVALID_PARAM, s)
      else if length key > 255 then (RM_E_INVALID_LENGTH, s)
      else if available L s < word_of_nat (length key + length data + EH_SIZE)
        then (RM_E_STORAGE_NOT_ENOUGH_SPACE, s)
      else case readStorageHeader L s of
        None \<Rightarrow> (RM_E_STORAGE_READ_FAILED, s)
      | Some sh \<Rightarrow>
          (case scan L (st_mem s) key (unat (sh_numEntries sh)) SH_SIZE of
             (found, writeAddr) \<Rightarrow>
               let (sh1, s1) =
                 (case found of
                    None \<Rightarrow> (sh, s)
                  | Some h \<Rightarrow>
                      let sh' = sh\<lparr>sh_numEntries := sh_numEntries sh - 1\<rparr>;
                          s' = s\<lparr>st_mem := write_bytes L writeAddr (entry_header_bytes (invalidate h)) (st_mem s)\<rparr>
                      in (sh', snd (writeStorageHeader L sh' s')));
                   newEntry = \<lparr>eh_keyLength = word_of_nat (length key), eh_dataLength = word_of_nat (length data),
                               eh_flags = ENTRY_VALID_FLAG, eh_pad = ee_pad L\<rparr>;
                   m1 = write_bytes L writeAddr (entry_header_bytes newEntry) (st_mem s1);
                   m2 = write_bytes L (writeAddr + EH_SIZE) (map byte_of_char key) m1;
                   m3 = write_bytes L (writeAddr + EH_SIZE + length key) data m2;
                   sh2 = sh1\<lparr>sh_numEntries := sh_numEntries sh1 + 1\<rparr>
               in (RM_E_NONE, snd (writeStorageHeader L sh2 (s1\<lparr>st_mem := m3\<rparr>)))))"

definition st_writeAndCommit :: "'e eeprom_lib \<Rightarrow> string \<Rightarrow> bytes \<Rightarrow> 'e storage \<Rightarrow> rc \<times> 'e storage" where
  "st_writeAndCommit L key data s =
     (case st_write L key data s of
        (rc, s1) \<Rightarrow> if rc \<noteq> RM_E_NONE then (rc, s1)
                    else (case st_commit L s1 of
                            (rc1, s2) \<Rightarrow> if rc1 \<noteq> RM_E_NONE then (rc1, s2) else (RM_E_NONE, s2)))"

definition st_exists :: "'e eeprom_lib \<Rightarrow> string \<Rightarrow> 'e storage \<Rightarrow> bool" where
  "st_exists L key s =
     (if \<not> st_initialized s then False
      else if key = [] then False
      else case readStorageHeader L s of
        None \<Rightarrow> False
      | Some sh \<Rightarrow> fst (scan L (st_mem s) key (unat (sh_numEntries sh)) SH_SIZE) \<noteq> None)"

fun read_loop :: "'e eeprom_lib \<Rightarrow> 'e \<Rightarrow> string \<Rightarrow> nat \<Rightarrow> nat \<Rightarrow> bytes option" where
  "read_loop L m key 0 addr = None"
| "read_loop L m key (Suc n) addr =
     (let h = the_entry_header L m addr;
          addr1 = addr + EH_SIZE
      in if read_key L m addr1 (eh_keyLength h) = key \<and> entry_valid h
         then Some (read_bytes L m (addr1 + unat (eh_keyLength h)) (unat (eh_dataLength h)))
         else read_loop L m key n (addr1 + (unat (eh_keyLength h) + unat (eh_dataLength h))))"

text \<open>\<open>data\<close> is an output argument, unchanged unless the key is found.\<close>

definition st_read :: "'e eeprom_lib \<Rightarrow> string \<Rightarrow> bytes \<Rightarrow> 'e storage \<Rightarrow> rc \<times> bytes" where
  "st_read L key data s =
     (if \<not> st_initialized s then (RM_E_STORAGE_NOT_INIT, data)
      else if key = [] then (RM_E_INVALID_PARAM, data)
      else case readStorageHeader L s of
        None \<Rightarrow> (RM_E_STORAGE_READ_FAILED, data)
      | Some sh \<Rightarrow>
          (case read_loop L (st_mem s) key (unat (sh_numEntries sh)) SH_SIZE of
             Some d \<Rightarrow> (RM_E_NONE, d)
           | None \<Rightarrow> (RM_E_STORAGE_KEY_NOT_FOUND, data)))"

definition st_remove :: "'e eeprom_lib \<Rightarrow> string \<Rightarrow> 'e storage \<Rightarrow> rc \<times> 'e storage" where
  "st_remove L key s =
     (if \<not> st_initialized s then (RM_E_STORAGE_NOT_INIT, s)
      else if key = [] then (RM_E_INVALID_PARAM, s)
      else case readStorageHeader L s of
        None \<Rightarrow> (RM_E_STORAGE_READ_FAILED, s)
      | Some sh \<Rightarrow>
          (case scan L (st_mem s) key (unat (sh_numEntries sh)) SH_SIZE of
             (Some h, addr) \<Rightarrow>
               (RM_E_NONE, s\<lparr>st_mem := write_bytes L addr (entry_header_bytes (invalidate h)) (st_mem s)\<rparr>)
           | (None, _) \<Rightarrow> (RM_E_STORAGE_KEY_NOT_FOUND, s)))"

text \<open>The byte-wise move of \<open>defragment\<close>, each byte read just before it is written.\<close>

fun move_bytes :: "'e eeprom_lib \<Rightarrow> nat \<Rightarrow> nat \<Rightarrow> nat \<Rightarrow> 'e \<Rightarrow> 'e" where
  "move_bytes L to_addr from_addr 0 m = m"
| "move_bytes L to_addr from_addr (Suc n) m =
     move_bytes L (to_addr + 1) (from_addr + 1) n (ee_write L to_addr (ee_read L m from_addr) m)"

fun defrag_loop :: "'e eeprom_lib \<Rightarrow> nat \<Rightarrow> nat \<Rightarrow> nat \<Rightarrow> u16 \<Rightarrow> 'e \<Rightarrow> u16 \<times> 'e" where
  "defrag_loop L 0 readAddr writeAddr validEntries m = (validEntries, m)"
| "defrag_loop L (Suc n) readAddr writeAddr validEntries m =
     (let h = the_entry_header L m readAddr in
      if entry_valid h then
        let m1 = (if readAddr \<noteq> writeAddr then
                    move_bytes L (writeAddr + EH_SIZE) (readAddr + EH_SIZE)
                      (unat (eh_keyLength h) + unat (eh_dataLength h))
                      (write_bytes L writeAddr (entry_header_bytes h) m)
                  else m)
        in defrag_loop L n (readAddr + entry_size h) (writeAddr + entry_size h) (validEntries + 1) m1
      else defrag_loop L n (readAddr + entry_size h) writeAddr validEntries m)"

definition st_defragment :: "'e eeprom_lib \<Rightarrow> 'e storage \<Rightarrow> rc \<times> 'e storage" where
  "st_defragment L s =
     (if \<not> st_initialized s then (RM_E_STORAGE_NOT_INIT, s)
      else case readStorageHeader L s of
        None \<Rightarrow> (RM_E_STORAGE_READ_FAILED, s)
      | Some sh \<Rightarrow>
          (case defrag_loop L (unat (sh_numEntries sh)) SH_SIZE SH_SIZE 0 (st_mem s) of
             (validEntries, m) \<Rightarrow>
               (RM_E_NONE, snd (writeStorageHeader L (sh\<lparr>sh_numEntries := validEntries\<rparr>) (s\<lparr>st_mem := m\<rparr>)))))"

definition st_clear :: "'e eeprom_lib \<Rightarrow> 'e storage \<Rightarrow> rc \<times> 'e storage" where
  "st_clear L s =
     (if \<not> st_initialized s then (RM_E_STORAGE_NOT_INIT, s)
      else st_commit L (initializeStorageHeader L
             (s\<lparr>st_mem := write_bytes L 0 (replicate (st_size s) 0xFF) (st_mem s)\<rparr>)))"

text \<open>The number of entries, or an error code.\<close>

definition getEntryCount :: "'e eeprom_lib \<Rightarrow> 'e storage \<Rightarrow> rc + nat" where
  "getEntryCount L s =
     (if \<not> st_initialized s then Inl RM_E_STORAGE_NOT_INIT
      else case readStorageHeader L s of
        None \<Rightarrow> Inl RM_E_STORAGE_READ_FAILED
      | Some h \<Rightarrow> Inr (unat (sh_numEntries h)))"

end
