(* ===== verification/RM_EepromList.thy ===== *)
theory RM_EepromList
  imports RM_Eeprom
begin

text \<open>
  What the operations of \<open>RM_Eeprom\<close> do: \<open>repr\<close> relates the bytes of the EEPROM to a list of
  entries, and each operation of the code is proved to act on that list. The list gives the map
  from keys to values that the clients rely on.
\<close>

section \<open>Bytes at addresses\<close>

text \<open>The bytes at an address.\<close>

definition stored :: "'e eeprom_lib \<Rightarrow> 'e \<Rightarrow> nat \<Rightarrow> bytes \<Rightarrow> bool" where
  "stored L m a bs \<longleftrightarrow> (\<forall>i < length bs. ee_read L m (a + i) = bs ! i)"

lemma stored_read: "stored L m a bs \<longleftrightarrow> read_bytes L m a (length bs) = bs"
proof
  show "read_bytes L m a (length bs) = bs" if "stored L m a bs"
    using that by (intro nth_equalityI) (simp_all add: stored_def read_bytes_def)
  show "stored L m a bs" if "read_bytes L m a (length bs) = bs"
  proof -
    have "ee_read L m (a + i) = read_bytes L m a (length bs) ! i" if "i < length bs" for i
      using that by (simp add: read_bytes_def)
    with that show ?thesis by (simp add: stored_def)
  qed
qed

lemma stored_Nil [simp]: "stored L m a []"
  by (simp add: stored_def)

lemma stored_append: "stored L m a (xs @ ys) \<longleftrightarrow> stored L m a xs \<and> stored L m (a + length xs) ys"
proof
  assume h: "stored L m a (xs @ ys)"
  have "ee_read L m (a + length xs + i) = ys ! i" if "i < length ys" for i
    using h [unfolded stored_def, rule_format, of "length xs + i"] that by (simp add: nth_append add.assoc)
  moreover have "ee_read L m (a + i) = xs ! i" if "i < length xs" for i
    using h [unfolded stored_def, rule_format, of i] that by (simp add: nth_append)
  ultimately show "stored L m a xs \<and> stored L m (a + length xs) ys" by (simp add: stored_def)
next
  assume h: "stored L m a xs \<and> stored L m (a + length xs) ys"
  show "stored L m a (xs @ ys)"
    unfolding stored_def
  proof (intro allI impI)
    fix i assume i: "i < length (xs @ ys)"
    show "ee_read L m (a + i) = (xs @ ys) ! i"
    proof (cases "i < length xs")
      case True
      then show ?thesis using h by (simp add: stored_def nth_append)
    next
      case False
      then obtain j where j: "i = length xs + j" by (metis le_add_diff_inverse not_less)
      then have "ee_read L m (a + length xs + j) = ys ! j" using h i by (simp add: stored_def)
      with j show ?thesis by (simp add: nth_append add.assoc)
    qed
  qed
qed

lemma write_bytes_append: "write_bytes L a (xs @ ys) m = write_bytes L (a + length xs) ys (write_bytes L a xs m)"
  by (induction xs arbitrary: a m) simp_all

lemma write_bytes_law:
  assumes laws: "eeprom_laws L opened" and "opened m n" and "a + length bs \<le> n"
  shows "opened (write_bytes L a bs m) n \<and>
    (\<forall>x < n. ee_read L (write_bytes L a bs m) x =
       (if a \<le> x \<and> x < a + length bs then bs ! (x - a) else ee_read L m x))"
  using assms(2,3)
proof (induction bs arbitrary: a m)
  case Nil
  then show ?case by auto
next
  case (Cons b bs)
  have o: "opened (ee_write L a b m) n"
    and r: "\<And>x. x < n \<Longrightarrow> ee_read L (ee_write L a b m) x = (if x = a then b else ee_read L m x)"
    using laws Cons.prems by (auto simp: eeprom_laws_def)
  have ih: "opened (write_bytes L (a + 1) bs (ee_write L a b m)) n \<and>
    (\<forall>x < n. ee_read L (write_bytes L (a + 1) bs (ee_write L a b m)) x =
       (if a + 1 \<le> x \<and> x < a + 1 + length bs then bs ! (x - (a + 1)) else ee_read L (ee_write L a b m) x))"
    using Cons.IH [OF o] Cons.prems by simp
  have "ee_read L (write_bytes L a (b # bs) m) x =
       (if a \<le> x \<and> x < a + length (b # bs) then (b # bs) ! (x - a) else ee_read L m x)" if x: "x < n" for x
  proof (cases "x = a")
    case True
    then show ?thesis using ih r x by simp
  next
    case False
    then show ?thesis using ih r x by (cases "a \<le> x") (auto simp: nth_Cons' not_le)
  qed
  then show ?case using ih by simp
qed

lemma read_written:
  assumes "eeprom_laws L opened" and "opened m n" and "a + length bs \<le> n" and "x < n"
  shows "a \<le> x \<Longrightarrow> x < a + length bs \<Longrightarrow> ee_read L (write_bytes L a bs m) x = bs ! (x - a)"
    and "x < a \<or> a + length bs \<le> x \<Longrightarrow> ee_read L (write_bytes L a bs m) x = ee_read L m x"
  using conjunct2 [OF write_bytes_law [OF assms(1-3)]] assms(4) by auto

lemma stored_write:
  assumes "eeprom_laws L opened" and "opened m n" and "a + length bs \<le> n"
  shows "stored L (write_bytes L a bs m) a bs"
  unfolding stored_def
proof (intro allI impI)
  fix i assume "i < length bs"
  then show "ee_read L (write_bytes L a bs m) (a + i) = bs ! i"
    using read_written(1) [OF assms, of "a + i"] assms(3) by simp
qed

lemma stored_write_disjoint:
  assumes "eeprom_laws L opened" and "opened m n" and "a + length bs \<le> n" and "a' + length bs' \<le> n"
    and "a + length bs \<le> a' \<or> a' + length bs' \<le> a" and "stored L m a' bs'"
  shows "stored L (write_bytes L a bs m) a' bs'"
  unfolding stored_def
proof (intro allI impI)
  fix i assume i: "i < length bs'"
  have "a' + i < n" using i assms(4) by linarith
  moreover have "a' + i < a \<or> a + length bs \<le> a' + i" using i assms(5) by linarith
  ultimately have "ee_read L (write_bytes L a bs m) (a' + i) = ee_read L m (a' + i)"
    by (rule read_written(2) [OF assms(1-3)])
  then show "ee_read L (write_bytes L a bs m) (a' + i) = bs' ! i" using assms(6) i by (simp add: stored_def)
qed

lemma opened_write:
  "eeprom_laws L opened \<Longrightarrow> opened m n \<Longrightarrow> a + length bs \<le> n \<Longrightarrow> opened (write_bytes L a bs m) n"
  by (rule conjunct1 [OF write_bytes_law])

section \<open>The list of entries\<close>

record sentry =
  se_key :: string
  se_data :: bytes
  se_flags :: byte
  se_pad :: byte

definition header_of_entry :: "sentry \<Rightarrow> entry_header" where
  "header_of_entry e = \<lparr>eh_keyLength = word_of_nat (length (se_key e)),
     eh_dataLength = word_of_nat (length (se_data e)), eh_flags = se_flags e, eh_pad = se_pad e\<rparr>"

definition entry_bytes :: "sentry \<Rightarrow> bytes" where
  "entry_bytes e = entry_header_bytes (header_of_entry e) @ map byte_of_char (se_key e) @ se_data e"

definition image_bytes :: "sentry list \<Rightarrow> bytes" where
  "image_bytes es = concat (map entry_bytes es)"

definition live :: "sentry \<Rightarrow> bool" where
  "live e \<longleftrightarrow> se_flags e AND ENTRY_VALID_FLAG \<noteq> 0"

definition entry_ok :: "sentry \<Rightarrow> bool" where
  "entry_ok e \<longleftrightarrow> length (se_key e) < 65536 \<and> length (se_data e) < 65536"

definition live_key :: "string \<Rightarrow> sentry \<Rightarrow> bool" where
  "live_key key e \<longleftrightarrow> live e \<and> se_key e = key"

definition good_header :: "nat \<Rightarrow> storage_header" where
  "good_header n = \<lparr>sh_magic = STORAGE_MAGIC, sh_version = STORAGE_VERSION, sh_numEntries = word_of_nat n\<rparr>"

definition repr :: "'e eeprom_lib \<Rightarrow> ('e \<Rightarrow> nat \<Rightarrow> bool) \<Rightarrow> 'e storage \<Rightarrow> sentry list \<Rightarrow> bool" where
  "repr L opened s es \<longleftrightarrow>
     st_initialized s \<and> opened (st_mem s) (st_size s) \<and> st_size s \<le> EEPROM_STORAGE_MAX_SIZE \<and>
     SH_SIZE + length (image_bytes es) \<le> st_size s \<and>
     stored L (st_mem s) 0 (storage_header_bytes (good_header (length es))) \<and>
     stored L (st_mem s) SH_SIZE (image_bytes es) \<and> (\<forall>e \<in> set es. entry_ok e)"

lemma image_bytes_simps [simp]:
  "image_bytes [] = []" "image_bytes (e # es) = entry_bytes e @ image_bytes es"
  "image_bytes (es @ fs) = image_bytes es @ image_bytes fs"
  by (simp_all add: image_bytes_def)

lemma length_entry_bytes: "length (entry_bytes e) = 6 + length (se_key e) + length (se_data e)"
  by (simp add: entry_bytes_def)

lemma length_image_ge: "6 * length es \<le> length (image_bytes es)"
  by (induction es) (simp_all add: length_entry_bytes)

lemma unat_u16: "n < 65536 \<Longrightarrow> unat (word_of_nat n :: u16) = n"
  by (simp add: unat_of_nat take_bit_eq_mod)

lemma header_of_entry_simps [simp]:
  "entry_ok e \<Longrightarrow> unat (eh_keyLength (header_of_entry e)) = length (se_key e)"
  "entry_ok e \<Longrightarrow> unat (eh_dataLength (header_of_entry e)) = length (se_data e)"
  "entry_valid (header_of_entry e) = live e"
  by (simp_all add: header_of_entry_def entry_ok_def unat_u16 entry_valid_def live_def)

lemma entry_size_header: "entry_ok e \<Longrightarrow> entry_size (header_of_entry e) = length (entry_bytes e)"
  by (simp add: entry_size_def length_entry_bytes EH_SIZE_def)

lemma stored_entry:
  assumes st: "stored L m a (entry_bytes e)" and ok: "entry_ok e"
  shows "the_entry_header L m a = header_of_entry e"
    and "read_key L m (a + EH_SIZE) (eh_keyLength (header_of_entry e)) = se_key e"
    and "read_bytes L m (a + EH_SIZE + length (se_key e)) (length (se_data e)) = se_data e"
proof -
  have h: "stored L m a (entry_header_bytes (header_of_entry e))"
    and k: "stored L m (a + 6) (map byte_of_char (se_key e))"
    and d: "stored L m (a + 6 + length (se_key e)) (se_data e)"
    using st by (simp_all add: entry_bytes_def stored_append add.assoc)
  have "read_bytes L m a EH_SIZE = entry_header_bytes (header_of_entry e)"
    using h by (simp add: stored_read EH_SIZE_def)
  then show "the_entry_header L m a = header_of_entry e" by (simp add: the_entry_header_def eh.dec_enc)
  show "read_key L m (a + EH_SIZE) (eh_keyLength (header_of_entry e)) = se_key e"
    using k ok by (simp add: read_key_def stored_read EH_SIZE_def comp_def)
  show "read_bytes L m (a + EH_SIZE + length (se_key e)) (length (se_data e)) = se_data e"
    using d by (simp add: stored_read EH_SIZE_def)
qed

lemma used_loop_image:
  "stored L m a (image_bytes es) \<Longrightarrow> \<forall>e \<in> set es. entry_ok e \<Longrightarrow>
   used_loop L m (length es) a = a + length (image_bytes es)"
proof (induction es arbitrary: a)
  case (Cons e es)
  have "stored L m a (entry_bytes e)" and "stored L m (a + length (entry_bytes e)) (image_bytes es)"
    using Cons.prems by (simp_all add: stored_append)
  then show ?case using Cons by (simp add: stored_entry(1) entry_size_header)
qed simp

lemma scan_image:
  "stored L m a (image_bytes es) \<Longrightarrow> \<forall>e \<in> set es. entry_ok e \<Longrightarrow>
   scan L m key (length es) a =
     (case dropWhile (\<lambda>e. \<not> live_key key e) es of [] \<Rightarrow> None | e # _ \<Rightarrow> Some (header_of_entry e),
      a + length (image_bytes (takeWhile (\<lambda>e. \<not> live_key key e) es)))"
proof (induction es arbitrary: a)
  case (Cons e es)
  have st: "stored L m a (entry_bytes e)" "stored L m (a + length (entry_bytes e)) (image_bytes es)"
    and ok: "entry_ok e" using Cons.prems by (simp_all add: stored_append)
  note f = stored_entry [OF st(1) ok]
  show ?case
  proof (cases "live_key key e")
    case True
    then show ?thesis using f by (simp add: live_key_def)
  next
    case False
    then show ?thesis
      using f Cons.IH [OF st(2)] Cons.prems ok by (auto simp: live_key_def entry_size_header add.assoc)
  qed
qed simp

lemma read_loop_image:
  "stored L m a (image_bytes es) \<Longrightarrow> \<forall>e \<in> set es. entry_ok e \<Longrightarrow>
   read_loop L m key (length es) a =
     (case dropWhile (\<lambda>e. \<not> live_key key e) es of [] \<Rightarrow> None | e # _ \<Rightarrow> Some (se_data e))"
proof (induction es arbitrary: a)
  case (Cons e es)
  have st: "stored L m a (entry_bytes e)" "stored L m (a + length (entry_bytes e)) (image_bytes es)"
    and ok: "entry_ok e" using Cons.prems by (simp_all add: stored_append)
  note f = stored_entry [OF st(1) ok]
  show ?case
  proof (cases "live_key key e")
    case True
    then show ?thesis using f ok by (auto simp: live_key_def)
  next
    case False
    have "a + EH_SIZE + (unat (eh_keyLength (header_of_entry e)) + unat (eh_dataLength (header_of_entry e))) =
        a + length (entry_bytes e)"
      using ok by (simp add: EH_SIZE_def length_entry_bytes)
    moreover have "\<not> (se_key e = key \<and> live e)" using False by (auto simp: live_key_def)
    ultimately show ?thesis
      using False f Cons.IH [OF st(2)] Cons.prems ok
      by (simp add: Let_def add.assoc del: de_Morgan_conj header_of_entry_simps(1,2))
  qed
qed simp

section \<open>The operations on the list\<close>

lemma repr_count:
  assumes "repr L opened s es"
  shows "length es < 65536"
  using assms length_image_ge [of es] by (simp add: repr_def EEPROM_STORAGE_MAX_SIZE_def SH_SIZE_def)

lemma readStorageHeader_repr:
  assumes "repr L opened s es"
  shows "readStorageHeader L s = Some (good_header (length es))"
proof -
  have "read_bytes L (st_mem s) 0 SH_SIZE = storage_header_bytes (good_header (length es))"
    using assms by (simp add: repr_def stored_read SH_SIZE_def)
  then show ?thesis using assms by (simp add: readStorageHeader_def repr_def sh.dec_enc)
qed

lemma numEntries_repr: "repr L opened s es \<Longrightarrow> unat (sh_numEntries (good_header (length es))) = length es"
  using repr_count [of L opened s es] by (simp add: good_header_def unat_u16)

lemma unat_u32_small: "n < 2 ^ 32 \<Longrightarrow> unat (word_of_nat n :: u32) = n"
  by (simp add: unat_of_nat take_bit_eq_mod)

lemma available_repr:
  assumes r: "repr L opened s es"
  shows "unat (available L s) = st_size s - (SH_SIZE + length (image_bytes es))"
proof -
  have used: "used_loop L (st_mem s) (length es) SH_SIZE = SH_SIZE + length (image_bytes es)"
    using r by (intro used_loop_image) (simp_all add: repr_def)
  have le: "SH_SIZE + length (image_bytes es) \<le> st_size s" and sz: "st_size s \<le> 1024"
    using r by (simp_all add: repr_def EEPROM_STORAGE_MAX_SIZE_def)
  then have "available L s = word_of_nat (st_size s - (SH_SIZE + length (image_bytes es)))"
    by (simp add: available_def readStorageHeader_repr [OF r] numEntries_repr [OF r] used of_nat_diff)
  then show ?thesis using sz unat_u32_small [of "st_size s - (SH_SIZE + length (image_bytes es))"] by simp
qed

lemma st_read_repr:
  assumes r: "repr L opened s es" and key: "key \<noteq> []"
  shows "st_read L key d s = (case dropWhile (\<lambda>e. \<not> live_key key e) es of
      [] \<Rightarrow> (RM_E_STORAGE_KEY_NOT_FOUND, d) | e # _ \<Rightarrow> (RM_E_NONE, se_data e))"
proof -
  have "read_loop L (st_mem s) key (length es) SH_SIZE =
      (case dropWhile (\<lambda>e. \<not> live_key key e) es of [] \<Rightarrow> None | e # _ \<Rightarrow> Some (se_data e))"
    using r by (intro read_loop_image) (simp_all add: repr_def)
  moreover have "st_initialized s" using r by (simp add: repr_def)
  ultimately show ?thesis
    using key
    by (cases "dropWhile (\<lambda>e. \<not> live_key key e) es")
      (simp_all add: st_read_def readStorageHeader_repr [OF r] numEntries_repr [OF r] del: dropWhile_eq_Nil_conv)
qed

lemma scan_repr:
  assumes r: "repr L opened s es"
  shows "scan L (st_mem s) key (length es) SH_SIZE =
     (case dropWhile (\<lambda>e. \<not> live_key key e) es of [] \<Rightarrow> None | e # _ \<Rightarrow> Some (header_of_entry e),
      SH_SIZE + length (image_bytes (takeWhile (\<lambda>e. \<not> live_key key e) es)))"
  using r by (intro scan_image) (simp_all add: repr_def)

text \<open>Writing an entry between two runs of entries, and a header for the new count.\<close>

lemma repr_write_entry:
  assumes laws: "eeprom_laws L opened" and init: "st_initialized s" and op: "opened m n" and n: "n = st_size s" "n \<le> 1024"
    and pre: "stored L m SH_SIZE (image_bytes pre)"
    and post: "stored L m (SH_SIZE + length (image_bytes (pre @ [e]))) (image_bytes post)"
    and ok: "\<forall>x \<in> set (pre @ e # post). entry_ok x" and fits: "SH_SIZE + length (image_bytes (pre @ e # post)) \<le> n"
  shows "repr L opened (s\<lparr>st_mem := write_bytes L 0 (storage_header_bytes (good_header (length (pre @ e # post))))
      (write_bytes L (SH_SIZE + length (image_bytes pre)) (entry_bytes e) m)\<rparr>) (pre @ e # post)"
proof -
  let ?w = "SH_SIZE + length (image_bytes pre)"
  let ?m1 = "write_bytes L ?w (entry_bytes e) m"
  let ?h = "storage_header_bytes (good_header (length (pre @ e # post)))"
  have w: "?w + length (entry_bytes e) \<le> n" using fits by simp
  have op1: "opened ?m1 n" by (rule opened_write [OF laws op w])
  have h8: "0 + length ?h \<le> n" using fits by (simp add: SH_SIZE_def)
  have "stored L ?m1 SH_SIZE (image_bytes pre)"
    by (rule stored_write_disjoint [OF laws op w _ _ pre]) (use fits in simp_all)
  moreover have "stored L ?m1 ?w (entry_bytes e)" by (rule stored_write [OF laws op w])
  moreover have "stored L ?m1 (?w + length (entry_bytes e)) (image_bytes post)"
    by (rule stored_write_disjoint [OF laws op w]) (use fits post in \<open>simp_all add: add.assoc\<close>)
  ultimately have "stored L ?m1 SH_SIZE (image_bytes (pre @ e # post))"
    by (simp add: stored_append add.assoc)
  then have "stored L (write_bytes L 0 ?h ?m1) SH_SIZE (image_bytes (pre @ e # post))"
    by (rule stored_write_disjoint [OF laws op1 h8, rotated 2]) (use fits in \<open>simp_all add: SH_SIZE_def\<close>)
  moreover have "stored L (write_bytes L 0 ?h ?m1) 0 ?h" by (rule stored_write [OF laws op1 h8])
  moreover have "opened (write_bytes L 0 ?h ?m1) n" by (rule opened_write [OF laws op1 h8])
  ultimately show ?thesis
    using n fits ok init by (simp add: repr_def EEPROM_STORAGE_MAX_SIZE_def)
qed

definition new_entry :: "string \<Rightarrow> bytes \<Rightarrow> byte \<Rightarrow> sentry" where
  "new_entry key data pad = \<lparr>se_key = key, se_data = data, se_flags = ENTRY_VALID_FLAG, se_pad = pad\<rparr>"

definition put_entry :: "sentry \<Rightarrow> sentry list \<Rightarrow> sentry list" where
  "put_entry new es =
     (case dropWhile (\<lambda>e. \<not> live_key (se_key new) e) es of
        [] \<Rightarrow> es @ [new]
      | _ # post \<Rightarrow> takeWhile (\<lambda>e. \<not> live_key (se_key new) e) es @ new # post)"

text \<open>The write replaces an entry of the same length, the last entry, or none.\<close>

definition keeps_slot :: "string \<Rightarrow> bytes \<Rightarrow> sentry list \<Rightarrow> bool" where
  "keeps_slot key data es \<longleftrightarrow>
     (case dropWhile (\<lambda>e. \<not> live_key key e) es of
        [] \<Rightarrow> True | e # post \<Rightarrow> post = [] \<or> length (se_data e) = length data)"

lemma write_entry_bytes:
  "write_bytes L (a + EH_SIZE + length key) data
     (write_bytes L (a + EH_SIZE) (map byte_of_char key)
       (write_bytes L a (entry_header_bytes (header_of_entry (new_entry key data pad))) m)) =
   write_bytes L a (entry_bytes (new_entry key data pad)) m"
  by (simp add: entry_bytes_def write_bytes_append EH_SIZE_def new_entry_def add.assoc)

lemma st_write_short:
  assumes r: "repr L opened s es" and key: "key \<noteq> []" "data \<noteq> []" "length key \<le> 255"
    and short: "st_size s < SH_SIZE + length (image_bytes es) + EH_SIZE + length key + length data"
    and len: "length data < 65536"
  shows "st_write L key data s = (RM_E_STORAGE_NOT_ENOUGH_SPACE, s)"
proof -
  have "unat (word_of_nat (length key + length data + EH_SIZE) :: u32) = length key + length data + EH_SIZE"
    using key(3) len by (intro unat_u32_small) (simp add: EH_SIZE_def)
  moreover have "SH_SIZE + length (image_bytes es) \<le> st_size s" using r by (simp add: repr_def)
  ultimately have "available L s < word_of_nat (length key + length data + EH_SIZE)"
    unfolding word_less_nat_alt using available_repr [OF r] short by linarith
  then show ?thesis using r key by (simp add: st_write_def repr_def)
qed

lemma good_header_entries: "(good_header n)\<lparr>sh_numEntries := sh_numEntries (good_header n) + 1\<rparr> = good_header (Suc n)"
    "0 < n \<Longrightarrow> (good_header n)\<lparr>sh_numEntries := sh_numEntries (good_header n) - 1\<rparr> = good_header (n - 1)"
    "(good_header n)\<lparr>sh_numEntries := word_of_nat k\<rparr> = good_header k"
  by (simp_all add: good_header_def of_nat_diff)

text \<open>What \<open>write\<close> does to an entry of the same key before the new one takes its place: the header of the entry
  and the count of the storage change, the other entries stay.\<close>

lemma entry_invalidated:
  assumes laws: "eeprom_laws L opened" and op: "opened m n" and st: "stored L m SH_SIZE (image_bytes (pre @ e # post))"
    and fits: "SH_SIZE + length (image_bytes (pre @ e # post)) \<le> n"
    and m1: "m1 = write_bytes L 0 (storage_header_bytes h) (write_bytes L (SH_SIZE + length (image_bytes pre))
      (entry_header_bytes (invalidate (header_of_entry e))) m)"
  shows "opened m1 n" "stored L m1 SH_SIZE (image_bytes pre)"
    "stored L m1 (SH_SIZE + length (image_bytes pre) + length (entry_bytes e)) (image_bytes post)"
proof -
  let ?w = "SH_SIZE + length (image_bytes pre)" and ?inv = "entry_header_bytes (invalidate (header_of_entry e))"
  have parts: "stored L m SH_SIZE (image_bytes pre)" "stored L m (?w + length (entry_bytes e)) (image_bytes post)"
    using st by (simp_all add: stored_append add.assoc)
  have w6: "?w + length ?inv \<le> n" using fits by (simp add: EH_SIZE_def length_entry_bytes)
  have h8: "0 + length (storage_header_bytes h) \<le> n" using fits by (simp add: SH_SIZE_def)
  have opa: "opened (write_bytes L ?w ?inv m) n" by (rule opened_write [OF laws op w6])
  then show "opened m1 n" unfolding m1 by (rule opened_write [OF laws _ h8])
  have keep: "stored L m1 a bs" if "stored L m a bs" "SH_SIZE \<le> a" "a + length bs \<le> n" "?w + length ?inv \<le> a \<or> a + length bs \<le> ?w" for a bs
    unfolding m1 by (rule stored_write_disjoint [OF laws opa h8 that(3)], use that in \<open>simp add: SH_SIZE_def\<close>,
        rule stored_write_disjoint [OF laws op w6 that(3) that(4) that(1)])
  show "stored L m1 SH_SIZE (image_bytes pre)" by (rule keep [OF parts(1)]) (use fits in simp_all)
  show "stored L m1 (?w + length (entry_bytes e)) (image_bytes post)"
    by (rule keep [OF parts(2)]) (use fits in \<open>simp_all add: length_entry_bytes\<close>)
qed

lemma st_write_repr:
  assumes laws: "eeprom_laws L opened" and r: "repr L opened s es" and key: "key \<noteq> []" "data \<noteq> []" "length key \<le> 255"
    and room: "SH_SIZE + length (image_bytes es) + EH_SIZE + length key + length data \<le> st_size s"
    and slot: "keeps_slot key data es"
  shows "\<exists>s'. st_write L key data s = (RM_E_NONE, s') \<and> repr L opened s' (put_entry (new_entry key data (ee_pad L)) es) \<and>
    st_size s' = st_size s"
proof -
  let ?P = "\<lambda>e. \<not> live_key key e"
  let ?new = "new_entry key data (ee_pad L)"
  let ?pre = "takeWhile ?P es"
  let ?w = "SH_SIZE + length (image_bytes ?pre)"
  have init: "st_initialized s" and op: "opened (st_mem s) (st_size s)" and sz: "st_size s \<le> 1024"
    and st: "stored L (st_mem s) SH_SIZE (image_bytes es)" and oks: "\<forall>e \<in> set es. entry_ok e"
    using r by (simp_all add: repr_def EEPROM_STORAGE_MAX_SIZE_def)
  have new: "entry_ok ?new" "length (entry_bytes ?new) = EH_SIZE + length key + length data"
    using key(3) room sz by (simp_all add: entry_ok_def new_entry_def length_entry_bytes EH_SIZE_def)
  have "unat (word_of_nat (length key + length data + EH_SIZE) :: u32) = length key + length data + EH_SIZE"
    using room sz by (intro unat_u32_small) simp
  then have av: "\<not> available L s < word_of_nat (length key + length data + EH_SIZE)"
    unfolding word_less_nat_alt using available_repr [OF r] room by linarith
  have hd: "header_of_entry ?new = \<lparr>eh_keyLength = word_of_nat (length key), eh_dataLength = word_of_nat (length data),
      eh_flags = ENTRY_VALID_FLAG, eh_pad = ee_pad L\<rparr>"
    by (simp add: header_of_entry_def new_entry_def)
  note start = st_write_def readStorageHeader_repr [OF r] numEntries_repr [OF r] scan_repr [OF r]
  show ?thesis
  proof (cases "dropWhile ?P es")
    case Nil
    then have all: "takeWhile ?P es = es" by (metis append_Nil2 takeWhile_dropWhile_id)
    have "repr L opened (s\<lparr>st_mem := write_bytes L 0 (storage_header_bytes (good_header (length (es @ [?new]))))
        (write_bytes L (SH_SIZE + length (image_bytes es)) (entry_bytes ?new) (st_mem s))\<rparr>) (es @ [?new])"
    proof (rule repr_write_entry [OF laws init op refl sz st])
      show "stored L (st_mem s) (SH_SIZE + length (image_bytes (es @ [?new]))) (image_bytes [])" by simp
      show "\<forall>x \<in> set (es @ [?new]). entry_ok x" using oks new(1) by auto
      show "SH_SIZE + length (image_bytes (es @ [?new])) \<le> st_size s" using new(2) room by simp
    qed
    moreover have "st_write L key data s = (RM_E_NONE, s\<lparr>st_mem := write_bytes L 0
        (storage_header_bytes (good_header (length (es @ [?new]))))
        (write_bytes L (SH_SIZE + length (image_bytes es)) (entry_bytes ?new) (st_mem s))\<rparr>)"
      using init key av Nil all
      by (simp add: start Let_def writeStorageHeader_def good_header_entries write_entry_bytes [symmetric] hd
          del: dropWhile_eq_Nil_conv takeWhile_eq_all_conv)
    ultimately show ?thesis by (simp add: put_entry_def new_entry_def Nil del: dropWhile_eq_Nil_conv)
  next
    case (Cons e post)
    then have es: "es = ?pre @ e # post" and e: "live_key key e"
      by (metis takeWhile_dropWhile_id) (metis Cons dropWhile_eq_Cons_conv)
    let ?m1 = "write_bytes L 0 (storage_header_bytes (good_header (length es - 1)))
      (write_bytes L ?w (entry_header_bytes (invalidate (header_of_entry e))) (st_mem s))"
    have len: "length (image_bytes es) = length (image_bytes ?pre) + length (entry_bytes e) + length (image_bytes post)"
      by (subst es) simp
    have st': "stored L (st_mem s) SH_SIZE (image_bytes (?pre @ e # post))" using st by (subst (asm) es)
    have "SH_SIZE + length (image_bytes (?pre @ e # post)) \<le> st_size s" using room len by simp
    note inval = entry_invalidated [OF laws op st' this refl, of "good_header (length es - 1)"]
    have post1: "stored L ?m1 (SH_SIZE + length (image_bytes (?pre @ [?new]))) (image_bytes post)"
    proof (cases "post = []")
      case False
      then have "length (se_data e) = length data" using slot Cons by (simp add: keeps_slot_def)
      moreover have "se_key e = key" using e by (simp add: live_key_def)
      ultimately have same: "length (entry_bytes e) = length (entry_bytes ?new)"
        using new(2) by (simp add: length_entry_bytes EH_SIZE_def)
      show ?thesis using inval(3) by (simp add: same add.assoc)
    qed simp
    have fits: "SH_SIZE + length (image_bytes (?pre @ ?new # post)) \<le> st_size s"
      using room len new(2) by simp
    have oks': "\<forall>x \<in> set (?pre @ ?new # post). entry_ok x"
      using oks new(1) by (subst (asm) es) auto
    have "0 < length es" by (subst es) simp
    then have cnt: "length (?pre @ ?new # post) = Suc (length es - 1)"
      using arg_cong [OF es, of length] by simp
    have rep: "repr L opened (s\<lparr>st_mem := write_bytes L 0 (storage_header_bytes (good_header (length (?pre @ ?new # post))))
        (write_bytes L ?w (entry_bytes ?new) ?m1)\<rparr>) (?pre @ ?new # post)"
      by (rule repr_write_entry [OF laws init inval(1) refl sz inval(2) post1 oks' fits])
    have "st_write L key data s = (RM_E_NONE, s\<lparr>st_mem := write_bytes L 0 (storage_header_bytes (good_header (Suc (length es - 1))))
        (write_bytes L ?w (entry_bytes ?new) ?m1)\<rparr>)"
      using init key av Cons \<open>0 < length es\<close>
      by (simp add: start Let_def writeStorageHeader_def good_header_entries(1) good_header_entries(2) [OF \<open>0 < length es\<close>, simplified]
          write_entry_bytes [symmetric] hd del: length_greater_0_conv)
    with rep cnt show ?thesis by (simp add: put_entry_def new_entry_def Cons)
  qed
qed

subsection \<open>Searching, removing and compacting\<close>

text \<open>The map from keys to values that a list of entries stands for.\<close>

definition view :: "sentry list \<Rightarrow> string \<Rightarrow> bytes option" where
  "view es key = map_option se_data (find (live_key key) es)"

lemma dropWhile_find: "find P xs = (case dropWhile (\<lambda>x. \<not> P x) xs of [] \<Rightarrow> None | x # _ \<Rightarrow> Some x)"
  by (induction xs) auto

lemma st_read_view:
  assumes r: "repr L opened s es" and key: "key \<noteq> []"
  shows "st_read L key d s = (case view es key of None \<Rightarrow> (RM_E_STORAGE_KEY_NOT_FOUND, d) | Some v \<Rightarrow> (RM_E_NONE, v))"
  by (cases "dropWhile (\<lambda>e. \<not> live_key key e) es")
    (simp_all add: st_read_repr [OF r key] view_def dropWhile_find del: dropWhile_eq_Nil_conv)

lemma st_exists_view:
  assumes r: "repr L opened s es" and key: "key \<noteq> []"
  shows "st_exists L key s \<longleftrightarrow> view es key \<noteq> None"
proof -
  have "st_initialized s" using r by (simp add: repr_def)
  then show ?thesis
    using key
    by (cases "dropWhile (\<lambda>e. \<not> live_key key e) es")
      (simp_all add: st_exists_def readStorageHeader_repr [OF r] numEntries_repr [OF r] scan_repr [OF r]
        view_def dropWhile_find del: dropWhile_eq_Nil_conv)
qed

lemma find_append: "find P (xs @ ys) = (case find P xs of None \<Rightarrow> find P ys | Some x \<Rightarrow> Some x)"
  by (induction xs) simp_all

lemma find_takeWhile [simp]: "find P (takeWhile (\<lambda>x. \<not> P x) xs) = None"
  by (induction xs) simp_all

lemma find_middle: "find P (xs @ y # ys) = (if P y \<and> find P xs = None then Some y else find P (xs @ ys))"
  by (induction xs) auto

lemma live_new [simp]: "live (new_entry key data pad)" "se_key (new_entry key data pad) = key"
    "se_data (new_entry key data pad) = data"
  by (simp_all add: new_entry_def live_def ENTRY_VALID_FLAG_def)

lemma live_key_new [simp]: "live_key k (new_entry key data pad) \<longleftrightarrow> k = key"
  by (auto simp: live_key_def)

lemma view_put_entry: "view (put_entry (new_entry key data pad) es) = (view es)(key \<mapsto> data)"
proof
  fix k
  let ?P = "\<lambda>e. \<not> live_key key e"
  have es: "takeWhile ?P es @ dropWhile ?P es = es" by simp
  show "view (put_entry (new_entry key data pad) es) k = ((view es)(key \<mapsto> data)) k"
  proof (cases "dropWhile ?P es")
    case Nil
    then have "takeWhile ?P es = es" using es by (simp del: dropWhile_eq_Nil_conv takeWhile_eq_all_conv)
    then have "find (live_key key) es = None" by (metis find_takeWhile)
    moreover have "put_entry (new_entry key data pad) es = es @ [new_entry key data pad]"
      by (simp add: put_entry_def Nil del: dropWhile_eq_Nil_conv)
    ultimately show ?thesis by (auto simp: view_def find_append split: option.splits)
  next
    case (Cons e post)
    then have "live_key key e" by (metis dropWhile_eq_Cons_conv)
    then have k: "live_key k e \<longleftrightarrow> k = key" by (auto simp: live_key_def)
    have "view (put_entry (new_entry key data pad) es) k = view (takeWhile ?P es @ new_entry key data pad # post) k"
      by (simp add: put_entry_def Cons)
    moreover have "view es k = view (takeWhile ?P es @ e # post) k" using es Cons by simp
    ultimately show ?thesis
      using k by (auto simp: view_def find_middle)
  qed
qed

text \<open>Removing marks the entry dead and keeps its bytes.\<close>

definition kill :: "sentry \<Rightarrow> sentry" where
  "kill e = e\<lparr>se_flags := se_flags e AND NOT ENTRY_VALID_FLAG\<rparr>"

definition kill_first :: "string \<Rightarrow> sentry list \<Rightarrow> sentry list" where
  "kill_first key es =
     (case dropWhile (\<lambda>e. \<not> live_key key e) es of
        [] \<Rightarrow> es | e # post \<Rightarrow> takeWhile (\<lambda>e. \<not> live_key key e) es @ kill e # post)"

lemma flag_bits: "(x AND NOT ENTRY_VALID_FLAG) AND ENTRY_VALID_FLAG = (0::byte)"
  by (simp add: bit_eq_iff bit_simps)

lemma kill_simps [simp]: "\<not> live (kill e)" "se_key (kill e) = se_key e" "se_data (kill e) = se_data e"
    "length (entry_bytes (kill e)) = length (entry_bytes e)" "entry_ok (kill e) = entry_ok e"
  by (simp_all add: kill_def live_def flag_bits length_entry_bytes entry_ok_def)

lemma entry_bytes_kill:
  "entry_bytes (kill e) = entry_header_bytes (invalidate (header_of_entry e)) @ map byte_of_char (se_key e) @ se_data e"
  by (simp add: entry_bytes_def kill_def header_of_entry_def invalidate_def)

definition uniq :: "sentry list \<Rightarrow> bool" where
  "uniq es \<longleftrightarrow> distinct (map se_key (filter live es))"

lemma live_key_kill [simp]: "\<not> live_key k (kill e)"
  by (simp add: live_key_def)

lemma view_kill_first:
  assumes "uniq es"
  shows "view (kill_first key es) = (view es)(key := None)"
proof
  fix k
  let ?P = "\<lambda>e. \<not> live_key key e"
  have es: "takeWhile ?P es @ dropWhile ?P es = es" by simp
  show "view (kill_first key es) k = ((view es)(key := None)) k"
  proof (cases "dropWhile ?P es")
    case Nil
    then have "find (live_key key) es = None" by (simp add: dropWhile_find del: dropWhile_eq_Nil_conv)
    then show ?thesis by (simp add: kill_first_def Nil view_def)
  next
    case (Cons e post)
    then have e: "live_key key e" by (metis dropWhile_eq_Cons_conv)
    then have k: "live_key k e \<longleftrightarrow> k = key" for k by (auto simp: live_key_def)
    have "uniq (takeWhile ?P es @ e # post)" using assms es Cons by simp
    then have "key \<notin> se_key ` {x \<in> set post. live x}" using e by (auto simp: uniq_def live_key_def)
    then have "find (live_key key) post = None" by (auto simp: find_None_iff live_key_def)
    then have "find (live_key key) (takeWhile ?P es @ post) = None" by (simp add: find_append)
    moreover have "view (kill_first key es) k = view (takeWhile ?P es @ kill e # post) k"
      by (simp add: kill_first_def Cons)
    moreover have "view es k = view (takeWhile ?P es @ e # post) k" using es Cons by simp
    ultimately show ?thesis using k by (auto simp: view_def find_middle)
  qed
qed

lemma uniq_put_entry:
  assumes "uniq es"
  shows "uniq (put_entry (new_entry key data pad) es)"
proof -
  let ?P = "\<lambda>e. \<not> live_key key e"
  have es: "takeWhile ?P es @ dropWhile ?P es = es" by simp
  show ?thesis
  proof (cases "dropWhile ?P es")
    case Nil
    then have "find (live_key key) es = None" by (simp add: dropWhile_find del: dropWhile_eq_Nil_conv)
    then have "key \<notin> se_key ` {x \<in> set es. live x}" by (auto simp: find_None_iff live_key_def)
    moreover have "put_entry (new_entry key data pad) es = es @ [new_entry key data pad]"
      by (simp add: put_entry_def Nil del: dropWhile_eq_Nil_conv)
    ultimately show ?thesis using assms by (simp add: uniq_def)
  next
    case (Cons e post)
    then have e: "live e" "se_key e = key" using dropWhile_eq_Cons_conv [of ?P es e post] by (auto simp: live_key_def)
    have "uniq (takeWhile ?P es @ e # post)" using assms es Cons by simp
    moreover have "put_entry (new_entry key data pad) es = takeWhile ?P es @ new_entry key data pad # post"
      by (simp add: put_entry_def Cons)
    ultimately show ?thesis using e by (simp add: uniq_def)
  qed
qed

lemma uniq_kill_first:
  assumes "uniq es"
  shows "uniq (kill_first key es)"
proof -
  let ?P = "\<lambda>e. \<not> live_key key e"
  have es: "takeWhile ?P es @ dropWhile ?P es = es" by simp
  show ?thesis
  proof (cases "dropWhile ?P es")
    case Nil
    then show ?thesis using assms by (simp add: kill_first_def del: dropWhile_eq_Nil_conv)
  next
    case (Cons e post)
    then have "uniq (takeWhile ?P es @ e # post)" using assms es by simp
    then show ?thesis by (auto simp: kill_first_def Cons uniq_def split: if_splits)
  qed
qed

lemma st_remove_repr:
  assumes laws: "eeprom_laws L opened" and r: "repr L opened s es" and key: "key \<noteq> []"
  shows "\<exists>s'. st_remove L key s = (if view es key = None then RM_E_STORAGE_KEY_NOT_FOUND else RM_E_NONE, s') \<and>
    repr L opened s' (kill_first key es) \<and> st_size s' = st_size s"
proof -
  let ?P = "\<lambda>e. \<not> live_key key e"
  let ?pre = "takeWhile ?P es"
  let ?w = "SH_SIZE + length (image_bytes ?pre)"
  have init: "st_initialized s" and op: "opened (st_mem s) (st_size s)" and sz: "st_size s \<le> 1024"
    and st: "stored L (st_mem s) SH_SIZE (image_bytes es)" and oks: "\<forall>e \<in> set es. entry_ok e"
    and hdr: "stored L (st_mem s) 0 (storage_header_bytes (good_header (length es)))"
    and fits: "SH_SIZE + length (image_bytes es) \<le> st_size s"
    using r by (simp_all add: repr_def EEPROM_STORAGE_MAX_SIZE_def)
  show ?thesis
  proof (cases "dropWhile ?P es")
    case Nil
    then have "view es key = None" by (simp add: view_def dropWhile_find del: dropWhile_eq_Nil_conv)
    moreover have "kill_first key es = es" by (simp add: kill_first_def Nil del: dropWhile_eq_Nil_conv)
    moreover have "st_remove L key s = (RM_E_STORAGE_KEY_NOT_FOUND, s)"
      using init key Nil
      by (simp add: st_remove_def readStorageHeader_repr [OF r] numEntries_repr [OF r] scan_repr [OF r]
          del: dropWhile_eq_Nil_conv)
    ultimately show ?thesis using r by simp
  next
    case (Cons e post)
    then have es: "es = ?pre @ e # post" by (metis takeWhile_dropWhile_id)
    let ?inv = "entry_header_bytes (invalidate (header_of_entry e))"
    let ?m = "write_bytes L ?w ?inv (st_mem s)"
    have len: "length (image_bytes es) = length (image_bytes ?pre) + length (entry_bytes e) + length (image_bytes post)"
      by (subst es) simp
    have parts: "stored L (st_mem s) SH_SIZE (image_bytes ?pre)"
        "stored L (st_mem s) (?w + 6) (map byte_of_char (se_key e) @ se_data e @ image_bytes post)"
      using st by (subst (asm) es, simp add: stored_append add.assoc entry_bytes_def)+
    have w6: "?w + length ?inv \<le> st_size s" using fits len by (simp add: length_entry_bytes)
    note disj = stored_write_disjoint [OF laws op w6]
    have "stored L ?m SH_SIZE (image_bytes ?pre)"
      by (rule disj [OF _ _ parts(1)]) (use fits len in simp_all)
    moreover have "stored L ?m (?w + 6) (map byte_of_char (se_key e) @ se_data e @ image_bytes post)"
      by (rule disj [OF _ _ parts(2)]) (use fits len in \<open>simp_all add: length_entry_bytes\<close>)
    moreover have "stored L ?m ?w ?inv" by (rule stored_write [OF laws op w6])
    ultimately have "stored L ?m SH_SIZE (image_bytes (?pre @ kill e # post))"
      by (simp add: stored_append add.assoc entry_bytes_kill)
    moreover have "stored L ?m 0 (storage_header_bytes (good_header (length es)))"
      by (rule disj [OF _ _ hdr]) (use fits in \<open>simp_all add: SH_SIZE_def\<close>)
    moreover have "length (?pre @ kill e # post) = length es" using arg_cong [OF es, of length] by simp
    moreover have "opened ?m (st_size s)" by (rule opened_write [OF laws op w6])
    moreover have "\<forall>x \<in> set (?pre @ kill e # post). entry_ok x"
      using oks by (subst (asm) es) auto
    ultimately have "repr L opened (s\<lparr>st_mem := ?m\<rparr>) (?pre @ kill e # post)"
      using init sz fits len by (simp add: repr_def EEPROM_STORAGE_MAX_SIZE_def)
    moreover have "kill_first key es = ?pre @ kill e # post" by (simp add: kill_first_def Cons)
    moreover have "view es key \<noteq> None" by (simp add: view_def dropWhile_find Cons)
    moreover have "st_remove L key s = (RM_E_NONE, s\<lparr>st_mem := ?m\<rparr>)"
      using init key Cons
      by (simp add: st_remove_def readStorageHeader_repr [OF r] numEntries_repr [OF r] scan_repr [OF r])
    ultimately show ?thesis by simp
  qed
qed

text \<open>The move of \<open>defragment\<close> goes downwards, so it never overwrites a byte it has yet to read.\<close>

lemma move_stored:
  assumes laws: "eeprom_laws L opened" and "to_addr < from_addr"
  shows "opened m n \<Longrightarrow> from_addr + length bs \<le> n \<Longrightarrow> stored L m from_addr bs \<Longrightarrow>
    move_bytes L to_addr from_addr (length bs) m = write_bytes L to_addr bs m"
  using assms(2)
proof (induction bs arbitrary: m to_addr from_addr)
  case (Cons b bs)
  have b: "ee_read L m from_addr = b" and bs: "stored L m (from_addr + 1) bs"
    using Cons.prems(3) stored_append [of L m from_addr "[b]" bs] by (simp_all add: stored_def)
  have t: "to_addr + length [b] \<le> n" using Cons.prems by simp
  have "opened (write_bytes L to_addr [b] m) n" by (rule opened_write [OF laws Cons.prems(1) t])
  moreover have "stored L (write_bytes L to_addr [b] m) (from_addr + 1) bs"
    by (rule stored_write_disjoint [OF laws Cons.prems(1) t _ _ bs]) (use Cons.prems in auto)
  ultimately show ?case
    using Cons.IH [of "ee_write L to_addr b m" "from_addr + 1" "to_addr + 1"] Cons.prems b by simp
qed simp

lemma entry_bytes_split:
  "entry_ok e \<Longrightarrow> unat (eh_keyLength (header_of_entry e)) + unat (eh_dataLength (header_of_entry e)) =
     length (map byte_of_char (se_key e) @ se_data e)"
  by simp

lemma entry_moved:
  assumes laws: "eeprom_laws L opened" and op: "opened m n" and st: "stored L m a (entry_bytes e)" and ok: "entry_ok e"
    and a: "w < a" "a + length (entry_bytes e) \<le> n"
  shows "move_bytes L (w + EH_SIZE) (a + EH_SIZE) (unat (eh_keyLength (header_of_entry e)) + unat (eh_dataLength (header_of_entry e)))
    (write_bytes L w (entry_header_bytes (header_of_entry e)) m) = write_bytes L w (entry_bytes e) m"
proof -
  let ?b = "map byte_of_char (se_key e) @ se_data e" and ?h = "entry_header_bytes (header_of_entry e)"
  have h: "w + length ?h \<le> n" using a by (simp add: length_entry_bytes)
  have bn: "a + EH_SIZE + length ?b \<le> n"
    using a(2) unfolding length_entry_bytes EH_SIZE_def length_append length_map by linarith
  have body: "stored L m (a + EH_SIZE) ?b" using st by (simp add: entry_bytes_def stored_append EH_SIZE_def)
  have "stored L (write_bytes L w ?h m) (a + EH_SIZE) ?b"
    by (rule stored_write_disjoint [OF laws op h _ _ body]) (use a in \<open>simp_all add: length_entry_bytes EH_SIZE_def\<close>)
  moreover have "opened (write_bytes L w ?h m) n" by (rule opened_write [OF laws op h])
  ultimately have "move_bytes L (w + EH_SIZE) (a + EH_SIZE) (length ?b) (write_bytes L w ?h m) =
      write_bytes L (w + EH_SIZE) ?b (write_bytes L w ?h m)"
    using bn a(1) by (intro move_stored [OF laws]) simp_all
  then show ?thesis by (simp add: entry_bytes_split [OF ok, simplified] entry_bytes_def write_bytes_append EH_SIZE_def ok)
qed

lemma defrag_loop_image:
  assumes laws: "eeprom_laws L opened"
  shows "opened m n \<Longrightarrow> n \<le> 1024 \<Longrightarrow> stored L m SH_SIZE (image_bytes done_es) \<Longrightarrow> stored L m a (image_bytes es) \<Longrightarrow>
    SH_SIZE + length (image_bytes done_es) \<le> a \<Longrightarrow> a + length (image_bytes es) \<le> n \<Longrightarrow> \<forall>e \<in> set es. entry_ok e \<Longrightarrow>
    \<exists>m'. defrag_loop L (length es) a (SH_SIZE + length (image_bytes done_es)) (word_of_nat (length done_es)) m =
        (word_of_nat (length (done_es @ filter live es)), m') \<and>
      opened m' n \<and> stored L m' SH_SIZE (image_bytes (done_es @ filter live es))"
proof (induction es arbitrary: m a done_es)
  case Nil
  then show ?case by simp
next
  case (Cons e es)
  let ?w = "SH_SIZE + length (image_bytes done_es)"
  have st: "stored L m a (entry_bytes e)" "stored L m (a + length (entry_bytes e)) (image_bytes es)"
    and ok: "entry_ok e" using Cons.prems by (simp_all add: stored_append)
  note hd = stored_entry(1) [OF st(1) ok]
  show ?case
  proof (cases "live e")
    case False
    then show ?thesis
      using Cons.IH [of m done_es "a + length (entry_bytes e)"] Cons.prems st
      by (simp add: hd entry_size_header [OF ok] Let_def add.assoc)
  next
    case True
    define m1 where "m1 = (if a \<noteq> ?w then write_bytes L ?w (entry_bytes e) m else m)"
    have a: "a + length (entry_bytes e) + length (image_bytes es) \<le> n" using Cons.prems(6) by simp
    have w: "?w + length (entry_bytes e) \<le> n" using a Cons.prems(5) by linarith
    have "a \<noteq> ?w \<longrightarrow> move_bytes L (?w + EH_SIZE) (a + EH_SIZE)
        (unat (eh_keyLength (header_of_entry e)) + unat (eh_dataLength (header_of_entry e)))
        (write_bytes L ?w (entry_header_bytes (header_of_entry e)) m) = write_bytes L ?w (entry_bytes e) m"
      using entry_moved [OF laws Cons.prems(1) st(1) ok, of ?w] Cons.prems(5) a by simp
    then have step: "defrag_loop L (length (e # es)) a ?w (word_of_nat (length done_es)) m =
        defrag_loop L (length es) (a + length (entry_bytes e)) (SH_SIZE + length (image_bytes (done_es @ [e])))
          (word_of_nat (length (done_es @ [e]))) m1"
      using True by (simp add: hd entry_size_header [OF ok] Let_def add.assoc m1_def ac_simps)
    have "opened m1 n" using opened_write [OF laws Cons.prems(1) w] Cons.prems(1) by (simp add: m1_def)
    moreover have "stored L m1 SH_SIZE (image_bytes (done_es @ [e]))"
    proof -
      have "stored L (write_bytes L ?w (entry_bytes e) m) SH_SIZE (image_bytes done_es)"
        by (rule stored_write_disjoint [OF laws Cons.prems(1) w _ _ Cons.prems(3)]) (use w in simp_all)
      then show ?thesis
        using stored_write [OF laws Cons.prems(1) w] Cons.prems(3) st(1) by (auto simp: m1_def stored_append)
    qed
    moreover have "stored L m1 (a + length (entry_bytes e)) (image_bytes es)"
    proof -
      have "stored L (write_bytes L ?w (entry_bytes e) m) (a + length (entry_bytes e)) (image_bytes es)"
        by (rule stored_write_disjoint [OF laws Cons.prems(1) w _ _ st(2)]) (use a Cons.prems(5) in simp_all)
      then show ?thesis using st(2) by (auto simp: m1_def)
    qed
    ultimately show ?thesis
      using Cons.IH [of m1 "done_es @ [e]" "a + length (entry_bytes e)"] Cons.prems a step True by simp
  qed
qed

lemma sum_filter_le: "length (image_bytes (filter P es)) \<le> length (image_bytes es)"
  by (induction es) simp_all

lemma st_defragment_repr:
  assumes laws: "eeprom_laws L opened" and r: "repr L opened s es"
  shows "\<exists>s'. st_defragment L s = (RM_E_NONE, s') \<and> repr L opened s' (filter live es) \<and> st_size s' = st_size s"
proof -
  let ?h = "storage_header_bytes (good_header (length (filter live es)))"
  have init: "st_initialized s" and op: "opened (st_mem s) (st_size s)" and sz: "st_size s \<le> 1024"
    and st: "stored L (st_mem s) SH_SIZE (image_bytes es)" and oks: "\<forall>e \<in> set es. entry_ok e"
    and fits: "SH_SIZE + length (image_bytes es) \<le> st_size s"
    using r by (simp_all add: repr_def EEPROM_STORAGE_MAX_SIZE_def)
  obtain m where m: "defrag_loop L (length es) SH_SIZE SH_SIZE 0 (st_mem s) = (word_of_nat (length (filter live es)), m)"
      and opm: "opened m (st_size s)" and stm: "stored L m SH_SIZE (image_bytes (filter live es))"
    using defrag_loop_image [OF laws op sz, of "[]" SH_SIZE es] st fits oks by auto
  let ?s = "s\<lparr>st_mem := write_bytes L 0 ?h m\<rparr>"
  have h8: "0 + length ?h \<le> st_size s" using fits by (simp add: SH_SIZE_def)
  have le: "SH_SIZE + length (image_bytes (filter live es)) \<le> st_size s"
    using fits sum_filter_le [of live es] by linarith
  have "st_defragment L s = (RM_E_NONE, ?s)"
    using init m
    by (simp add: st_defragment_def readStorageHeader_repr [OF r] numEntries_repr [OF r] writeStorageHeader_def
        good_header_entries(3))
  moreover have "stored L (write_bytes L 0 ?h m) SH_SIZE (image_bytes (filter live es))"
    by (rule stored_write_disjoint [OF laws opm h8 le _ stm]) (simp add: SH_SIZE_def)
  moreover have "stored L (write_bytes L 0 ?h m) 0 ?h" by (rule stored_write [OF laws opm h8])
  moreover have "opened (write_bytes L 0 ?h m) (st_size s)" by (rule opened_write [OF laws opm h8])
  ultimately show ?thesis
    using init sz le oks by (intro exI [of _ ?s]) (simp add: repr_def EEPROM_STORAGE_MAX_SIZE_def)
qed

lemma view_filter_live [simp]: "view (filter live es) = view es"
proof
  show "view (filter live es) k = view es k" for k
    by (induction es) (auto simp: view_def live_key_def)
qed

lemma uniq_filter_live [simp]: "uniq (filter live es) = uniq es"
  by (simp add: uniq_def)

subsection \<open>Starting, clearing and committing\<close>

lemma repr_empty:
  assumes laws: "eeprom_laws L opened" and "opened m (st_size s)" and "SH_SIZE \<le> st_size s" "st_size s \<le> 1024" "st_initialized s"
  shows "repr L opened (s\<lparr>st_mem := write_bytes L 0 (storage_header_bytes (good_header 0)) m\<rparr>) []"
proof -
  have h8: "0 + length (storage_header_bytes (good_header 0)) \<le> st_size s" using assms by (simp add: SH_SIZE_def)
  show ?thesis
    using assms stored_write [OF laws assms(2) h8] opened_write [OF laws assms(2) h8]
    by (simp add: repr_def EEPROM_STORAGE_MAX_SIZE_def)
qed

lemma repr_commit:
  assumes laws: "eeprom_laws L opened" and r: "repr L opened s es"
  shows "repr L opened (s\<lparr>st_mem := snd (ee_commit L (st_mem s))\<rparr>) es"
proof -
  have op: "opened (st_mem s) (st_size s)" and fits: "SH_SIZE + length (image_bytes es) \<le> st_size s"
    using r by (simp_all add: repr_def)
  have same: "stored L (snd (ee_commit L (st_mem s))) a bs" if "stored L (st_mem s) a bs" "a + length bs \<le> st_size s" for a bs
    using laws op that by (simp add: eeprom_laws_def stored_def)
  have "opened (snd (ee_commit L (st_mem s))) (st_size s)" using laws op by (simp add: eeprom_laws_def)
  then show ?thesis using r fits same by (simp add: repr_def SH_SIZE_def)
qed

lemma st_commit_cases:
  "st_initialized s \<Longrightarrow> st_commit L s =
     (if fst (ee_commit L (st_mem s)) then RM_E_NONE else RM_E_STORAGE_WRITE_FAILED,
      s\<lparr>st_mem := snd (ee_commit L (st_mem s))\<rparr>)"
  by (simp add: st_commit_def split: prod.split)

lemma initializeStorageHeader_good:
  "initializeStorageHeader L s = s\<lparr>st_mem := write_bytes L 0 (storage_header_bytes (good_header 0)) (st_mem s)\<rparr>"
  by (simp add: initializeStorageHeader_def good_header_def)

lemma st_clear_opened:
  assumes laws: "eeprom_laws L opened" and s: "st_initialized s" "opened (st_mem s) (st_size s)" "st_size s \<le> 1024" "SH_SIZE \<le> st_size s"
  shows "\<exists>s'. st_clear L s = (if fst (ee_commit L (st_mem (initializeStorageHeader L
          (s\<lparr>st_mem := write_bytes L 0 (replicate (st_size s) 0xFF) (st_mem s)\<rparr>))))
        then RM_E_NONE else RM_E_STORAGE_WRITE_FAILED, s') \<and> repr L opened s' [] \<and> st_size s' = st_size s"
proof -
  let ?m = "write_bytes L 0 (replicate (st_size s) 0xFF) (st_mem s)"
  let ?s = "initializeStorageHeader L (s\<lparr>st_mem := ?m\<rparr>)"
  have "opened ?m (st_size s)" by (rule opened_write [OF laws s(2)]) simp
  from repr_empty [OF laws this s(4,3,1)] have "repr L opened ?s []"
    by (simp add: initializeStorageHeader_good)
  then have "repr L opened (?s\<lparr>st_mem := snd (ee_commit L (st_mem ?s))\<rparr>) []" by (rule repr_commit [OF laws])
  moreover have "st_initialized ?s" using s(1) by (simp add: initializeStorageHeader_good)
  ultimately show ?thesis using s(1) by (simp add: st_clear_def st_commit_cases initializeStorageHeader_good)
qed

lemma st_clear_repr:
  assumes laws: "eeprom_laws L opened" and r: "repr L opened s es"
  shows "\<exists>s'. st_clear L s = (if fst (ee_commit L (st_mem (initializeStorageHeader L
          (s\<lparr>st_mem := write_bytes L 0 (replicate (st_size s) 0xFF) (st_mem s)\<rparr>))))
        then RM_E_NONE else RM_E_STORAGE_WRITE_FAILED, s') \<and> repr L opened s' [] \<and> st_size s' = st_size s"
  using st_clear_opened [OF laws, of s] r by (simp add: repr_def EEPROM_STORAGE_MAX_SIZE_def)

lemma st_begin_fresh:
  assumes laws: "eeprom_laws L opened" and s: "\<not> st_initialized s" "SH_SIZE \<le> st_size s" "st_size s \<le> EEPROM_STORAGE_MAX_SIZE"
    and b: "ee_begin L (st_size s) (st_mem s) = (True, m)"
    and bad: "\<not> isStorageValid L (s\<lparr>st_mem := m, st_initialized := True\<rparr>)"
  shows "\<exists>s'. st_begin L s =
      (if fst (ee_commit L (write_bytes L 0 (storage_header_bytes (good_header 0)) m)) then RM_E_STORAGE_SETUP
       else RM_E_NONE, s') \<and> repr L opened s' [] \<and> st_size s' = st_size s"
proof -
  let ?s1 = "s\<lparr>st_mem := m, st_initialized := True\<rparr>"
  let ?m2 = "write_bytes L 0 (storage_header_bytes (good_header 0)) m"
  let ?s2 = "s\<lparr>st_initialized := True, st_mem := snd (ee_commit L ?m2)\<rparr>"
  have "opened m (st_size s)" using laws b by (auto simp: eeprom_laws_def)
  then have "repr L opened (?s1\<lparr>st_mem := ?m2\<rparr>) []"
    using repr_empty [OF laws, of m ?s1] s by (simp add: EEPROM_STORAGE_MAX_SIZE_def)
  from repr_commit [OF laws this] have "repr L opened ?s2 []" by simp
  moreover have "st_begin L s = (if fst (ee_commit L ?m2) then RM_E_STORAGE_SETUP else RM_E_NONE, ?s2)"
    using s b bad
    by (simp add: st_begin_def SH_SIZE_def initializeStorageHeader_good st_commit_cases Let_def)
  ultimately show ?thesis by simp
qed

section \<open>An instance\<close>

text \<open>An EEPROM kept in memory: it starts erased and every commit succeeds.\<close>

definition ram_eeprom :: "bytes eeprom_lib" where
  "ram_eeprom = \<lparr>ee_begin = (\<lambda>n m. (True, take n (m @ replicate (n - length m) 0xFF))), ee_end = (\<lambda>m. m),
     ee_read = (\<lambda>m a. if a < length m then m ! a else 0), ee_write = (\<lambda>a b m. m[a := b]),
     ee_commit = (\<lambda>m. (True, m)), ee_pad = 0\<rparr>"

definition ram_opened :: "bytes \<Rightarrow> nat \<Rightarrow> bool" where
  "ram_opened m n \<longleftrightarrow> length m = n"

lemma ram_laws: "eeprom_laws ram_eeprom ram_opened"
  by (auto simp: eeprom_laws_def ram_eeprom_def ram_opened_def nth_list_update)

definition ram_storage :: "nat \<Rightarrow> bytes storage" where
  "ram_storage n = \<lparr>st_mem = write_bytes ram_eeprom 0 (storage_header_bytes (good_header 0)) (replicate n 0xFF),
     st_initialized = True, st_size = n\<rparr>"

lemma ram_storage_repr: "SH_SIZE \<le> n \<Longrightarrow> n \<le> 1024 \<Longrightarrow> repr ram_eeprom ram_opened (ram_storage n) []"
  using repr_empty [OF ram_laws, of "replicate n 0xFF" "\<lparr>st_mem = [], st_initialized = True, st_size = n\<rparr>"]
  by (simp add: ram_storage_def ram_opened_def)

section \<open>The storage is a map\<close>

text \<open>C40: Writing to the EEPROM storage updates the map of keys to values: when there is room, the key
  is not empty and at most 255 long, the data is not empty, and an entry that is overwritten either
  has data of the same length or is the last one, \<open>write\<close> returns \<open>RM_E_NONE\<close>, and afterwards
  \<open>read\<close> and \<open>exists\<close> find the new data under the key and the old data under every other key.\<close>

theorem storage_write_updates_map:
  assumes "eeprom_laws L opened" and "repr L opened s es" and "key \<noteq> []" "data \<noteq> []" "length key \<le> 255"
    and "SH_SIZE + length (image_bytes es) + EH_SIZE + length key + length data \<le> st_size s"
    and "keeps_slot key data es"
  shows "\<exists>s' es'. st_write L key data s = (RM_E_NONE, s') \<and> repr L opened s' es' \<and> view es' = (view es)(key \<mapsto> data) \<and>
    (\<forall>k d. k \<noteq> [] \<longrightarrow>
      st_exists L k s' = (((view es)(key \<mapsto> data)) k \<noteq> None) \<and>
      st_read L k d s' = (case ((view es)(key \<mapsto> data)) k of
        None \<Rightarrow> (RM_E_STORAGE_KEY_NOT_FOUND, d) | Some v \<Rightarrow> (RM_E_NONE, v)))"
proof -
  obtain s' where s': "st_write L key data s = (RM_E_NONE, s')"
      "repr L opened s' (put_entry (new_entry key data (ee_pad L)) es)"
    using st_write_repr [OF assms] by blast
  show ?thesis
    using s' st_read_view [OF s'(2)] st_exists_view [OF s'(2)]
    by (intro exI [of _ s'] exI [of _ "put_entry (new_entry key data (ee_pad L)) es"]) (simp add: view_put_entry)
qed

theorem storage_write_updates_map_witness:
  "\<exists>s'. st_write ram_eeprom ''mc'' [1, 2, 3, 4] (ram_storage 64) = (RM_E_NONE, s') \<and>
     st_read ram_eeprom ''mc'' [] s' = (RM_E_NONE, [1, 2, 3, 4])"
proof -
  have r: "repr ram_eeprom ram_opened (ram_storage 64) []" by (rule ram_storage_repr) (simp_all add: SH_SIZE_def)
  have room: "SH_SIZE + length (image_bytes []) + EH_SIZE + length ''mc'' + length [1, 2, 3, 4 :: byte] \<le>
      st_size (ram_storage 64)" by (simp add: SH_SIZE_def EH_SIZE_def ram_storage_def)
  have slot: "keeps_slot ''mc'' [1, 2, 3, 4] []" by (simp add: keeps_slot_def)
  from storage_write_updates_map [OF ram_laws r _ _ _ room slot]
  obtain s' where "st_write ram_eeprom ''mc'' [1, 2, 3, 4] (ram_storage 64) = (RM_E_NONE, s')"
      "\<forall>k d. k \<noteq> [] \<longrightarrow> st_read ram_eeprom k d s' = (case ((view [])(''mc'' \<mapsto> [1, 2, 3, 4])) k of
        None \<Rightarrow> (RM_E_STORAGE_KEY_NOT_FOUND, d) | Some v \<Rightarrow> (RM_E_NONE, v))" by auto
  then show ?thesis by auto
qed

text \<open>Defragmenting keeps the map and frees exactly the dead entries: after \<open>defragment\<close> every key
  reads as before, and \<open>available()\<close> is the size of the storage less its header and the bytes of the
  live entries, however many entries were removed and wherever they lay.\<close>

theorem storage_defragment_compacts:
  assumes "eeprom_laws L opened" and "repr L opened s es"
  shows "\<exists>s'. st_defragment L s = (RM_E_NONE, s') \<and> repr L opened s' (filter live es) \<and>
    (\<forall>k d. k \<noteq> [] \<longrightarrow> st_read L k d s' = st_read L k d s) \<and>
    unat (available L s') = st_size s - (SH_SIZE + sum_list (map (length \<circ> entry_bytes) (filter live es)))"
proof -
  obtain s' where s': "st_defragment L s = (RM_E_NONE, s')" "repr L opened s' (filter live es)" "st_size s' = st_size s"
    using st_defragment_repr [OF assms] by blast
  have "length (image_bytes (filter live es)) = sum_list (map (length \<circ> entry_bytes) (filter live es))"
    by (simp add: image_bytes_def length_concat)
  then show ?thesis
    using s' st_read_view [OF s'(2)] st_read_view [OF assms(2)] available_repr [OF s'(2)]
    by (intro exI [of _ s']) simp
qed

theorem storage_defragment_compacts_witness:
  "\<exists>s'. st_defragment ram_eeprom (ram_storage 64) = (RM_E_NONE, s') \<and> unat (available ram_eeprom s') = 56"
proof -
  have r: "repr ram_eeprom ram_opened (ram_storage 64) []" by (rule ram_storage_repr) (simp_all add: SH_SIZE_def)
  show ?thesis
    using storage_defragment_compacts [OF ram_laws r] by (auto simp: SH_SIZE_def ram_storage_def)
qed

text \<open>The first start of a storage reports the opposite of what happened: on an EEPROM without a
  valid header, \<open>begin\<close> writes the header and commits it, and then returns \<open>RM_E_STORAGE_SETUP\<close> when
  the commit succeeded and \<open>RM_E_NONE\<close> when it failed, because \<open>!commit()\<close> takes the error code for
  a success flag. The storage is left initialised and empty either way, so beginning again fails with
  \<open>RM_E_STORAGE_SETUP\<close> too.\<close>

theorem first_begin_inverts_result:
  assumes "eeprom_laws L opened" and "\<not> st_initialized s" and "SH_SIZE \<le> st_size s" "st_size s \<le> EEPROM_STORAGE_MAX_SIZE"
    and "ee_begin L (st_size s) (st_mem s) = (True, m)"
    and "\<not> isStorageValid L (s\<lparr>st_mem := m, st_initialized := True\<rparr>)"
  shows "\<exists>s'. st_begin L s =
      (if fst (ee_commit L (write_bytes L 0 (storage_header_bytes (good_header 0)) m)) then RM_E_STORAGE_SETUP
       else RM_E_NONE, s') \<and>
    (\<forall>k d. k \<noteq> [] \<longrightarrow> st_read L k d s' = (RM_E_STORAGE_KEY_NOT_FOUND, d)) \<and>
    fst (st_begin L s') = RM_E_STORAGE_SETUP"
proof -
  obtain s' where s': "st_begin L s =
      (if fst (ee_commit L (write_bytes L 0 (storage_header_bytes (good_header 0)) m)) then RM_E_STORAGE_SETUP
       else RM_E_NONE, s')" "repr L opened s' []"
    using st_begin_fresh [OF assms] by blast
  have "st_initialized s'" using s'(2) by (simp add: repr_def)
  then show ?thesis using s' st_read_view [OF s'(2)] by (intro exI [of _ s']) (simp add: view_def st_begin_def)
qed

theorem first_begin_inverts_result_witness:
  "\<exists>s'. st_begin ram_eeprom (EEPROMStorage []\<lparr>st_size := 64\<rparr>) = (RM_E_STORAGE_SETUP, s')"
proof -
  have v: "\<not> isStorageValid ram_eeprom (EEPROMStorage []\<lparr>st_size := 64, st_mem := replicate 64 0xFF, st_initialized := True\<rparr>)"
    by code_simp
  have b: "ee_begin ram_eeprom (st_size (EEPROMStorage []\<lparr>st_size := 64\<rparr>)) (st_mem (EEPROMStorage []\<lparr>st_size := 64\<rparr>)) =
      (True, replicate 64 0xFF)" by (simp add: ram_eeprom_def EEPROMStorage_def)
  have c: "fst (ee_commit ram_eeprom m)" for m by (simp add: ram_eeprom_def)
  show ?thesis
    using first_begin_inverts_result [OF ram_laws _ _ _ b] v
    by (auto simp: SH_SIZE_def EEPROM_STORAGE_MAX_SIZE_def EEPROMStorage_def c)
qed

text \<open>A rewrite with data of another length writes over the entry behind it: the key \<open>b\<close> is lost, and
  the call reports success.\<close>

lemma longer_rewrite_loses_next_entry:
  "let s1 = snd (st_write ram_eeprom ''a'' [1, 2] (ram_storage 64));
       s2 = snd (st_write ram_eeprom ''b'' [3] s1);
       (rc, s3) = st_write ram_eeprom ''a'' [1, 2, 3] s2
   in st_read ram_eeprom ''b'' [] s2 = (RM_E_NONE, [3]) \<and> rc = RM_E_NONE \<and>
      st_read ram_eeprom ''b'' [] s3 = (RM_E_STORAGE_KEY_NOT_FOUND, [])"
  by code_simp

end
