(* ===== verification/RM_DeviceStorage.thy ===== *)
theory RM_DeviceStorage
  imports RM_EepromList RM_Utils
begin

text \<open>
  The storage interface \<open>src/src/framework/interfaces/IByteStorage.h\<close> and the typed storage of
  \<open>src/src/framework/device/inc/DeviceStorage.h\<close>. The virtual functions are the record
  \<open>byte_storage\<close>; \<open>eeprom_ops\<close> is the table of the EEPROM storage. The locale \<open>key_store\<close> is what
  the device relies on: reading is a lookup, writing a value of the length that belongs to its key
  is an update, clearing empties the store. It is interpreted on the EEPROM operations under the
  layout that the device writes (\<open>eeprom_inv\<close>), where every key has one length of data and
  no entry is ever removed.
\<close>

section \<open>The interface\<close>

record 's byte_storage =
  bs_read :: "string \<Rightarrow> bytes \<Rightarrow> 's \<Rightarrow> rc \<times> bytes"
  bs_write :: "string \<Rightarrow> bytes \<Rightarrow> 's \<Rightarrow> rc \<times> 's"
  bs_writeAndCommit :: "string \<Rightarrow> bytes \<Rightarrow> 's \<Rightarrow> rc \<times> 's"
  bs_commit :: "'s \<Rightarrow> rc \<times> 's"
  bs_remove :: "string \<Rightarrow> 's \<Rightarrow> rc \<times> 's"
  bs_exists :: "string \<Rightarrow> 's \<Rightarrow> bool"
  bs_defragment :: "'s \<Rightarrow> rc \<times> 's"
  bs_begin :: "'s \<Rightarrow> rc \<times> 's"
  bs_end :: "'s \<Rightarrow> rc \<times> 's"
  bs_clear :: "'s \<Rightarrow> rc \<times> 's"
  bs_available :: "'s \<Rightarrow> u32"
  bs_isFull :: "'s \<Rightarrow> bool"

definition eeprom_ops :: "'e eeprom_lib \<Rightarrow> 'e storage byte_storage" where
  "eeprom_ops L = \<lparr>bs_read = st_read L, bs_write = st_write L, bs_writeAndCommit = st_writeAndCommit L,
     bs_commit = st_commit L, bs_remove = st_remove L, bs_exists = st_exists L, bs_defragment = st_defragment L,
     bs_begin = st_begin L, bs_end = st_end L, bs_clear = st_clear L, bs_available = available L,
     bs_isFull = isFull L\<rparr>"

section \<open>Typed values\<close>

definition STATE_KEY :: string where "STATE_KEY = ''is''"
definition CTR_KEY :: string where "CTR_KEY = ''mc''"
definition NKEY :: string where "NKEY = ''nk''"
definition PRIV_KEY :: string where "PRIV_KEY = ''pk''"
definition HUB_KEY :: string where "HUB_KEY = ''hk''"

definition persistState :: "'s byte_storage \<Rightarrow> inclusion_state \<Rightarrow> 's \<Rightarrow> rc \<times> 's" where
  "persistState ops st s = bs_writeAndCommit ops STATE_KEY [inclusion_state_code st] s"

text \<open>The argument \<open>state\<close> is an output, left alone on a failure or an empty value.\<close>

definition loadState :: "'s byte_storage \<Rightarrow> inclusion_state \<Rightarrow> 's \<Rightarrow> rc \<times> inclusion_state" where
  "loadState ops state s =
     (case bs_read ops STATE_KEY [] s of
        (rc, stateData) \<Rightarrow>
          if rc = RM_E_NONE \<and> stateData \<noteq> [] then (rc, inclusion_state_of_byte (hd stateData))
          else if rc = RM_E_STORAGE_KEY_NOT_FOUND then (RM_E_NONE, NOT_INCLUDED)
          else (rc, state))"

definition persistMessageCounter :: "'s byte_storage \<Rightarrow> u32 \<Rightarrow> 's \<Rightarrow> rc \<times> 's" where
  "persistMessageCounter ops counter s = bs_writeAndCommit ops CTR_KEY (numberToBytes counter) s"

definition loadMessageCounter :: "'s byte_storage \<Rightarrow> u32 \<Rightarrow> 's \<Rightarrow> rc \<times> u32" where
  "loadMessageCounter ops counter s =
     (case bs_read ops CTR_KEY [] s of
        (rc, counterData) \<Rightarrow>
          (rc, if rc = RM_E_NONE \<and> length counterData = 4 then bytesToNumber counterData else counter))"

definition persistPrivateKey :: "'s byte_storage \<Rightarrow> bytes \<Rightarrow> 's \<Rightarrow> rc \<times> 's" where
  "persistPrivateKey ops key s = bs_writeAndCommit ops PRIV_KEY key s"

definition loadPrivateKey :: "'s byte_storage \<Rightarrow> bytes \<Rightarrow> 's \<Rightarrow> rc \<times> bytes" where
  "loadPrivateKey ops key s = bs_read ops PRIV_KEY key s"

definition persistHubKey :: "'s byte_storage \<Rightarrow> bytes \<Rightarrow> 's \<Rightarrow> rc \<times> 's" where
  "persistHubKey ops key s = bs_writeAndCommit ops HUB_KEY key s"

definition loadHubKey :: "'s byte_storage \<Rightarrow> bytes \<Rightarrow> 's \<Rightarrow> rc \<times> bytes" where
  "loadHubKey ops key s = bs_read ops HUB_KEY key s"

definition persistNetworkKey :: "'s byte_storage \<Rightarrow> bytes \<Rightarrow> 's \<Rightarrow> rc \<times> 's" where
  "persistNetworkKey ops key s = bs_writeAndCommit ops NKEY key s"

definition loadNetworkKey :: "'s byte_storage \<Rightarrow> bytes \<Rightarrow> 's \<Rightarrow> rc \<times> bytes" where
  "loadNetworkKey ops key s = bs_read ops NKEY key s"

lemmas device_keys = STATE_KEY_def CTR_KEY_def NKEY_def PRIV_KEY_def HUB_KEY_def

section \<open>The contract\<close>

text \<open>The length of the data that the device keeps under each of its keys.\<close>

definition slot_length :: "string \<Rightarrow> nat option" where
  "slot_length = [STATE_KEY \<mapsto> 1, CTR_KEY \<mapsto> 4, NKEY \<mapsto> 32, PRIV_KEY \<mapsto> 32, HUB_KEY \<mapsto> 32]"

lemma slot_length_simps [simp]:
  "slot_length STATE_KEY = Some 1" "slot_length CTR_KEY = Some 4" "slot_length NKEY = Some 32"
  "slot_length PRIV_KEY = Some 32" "slot_length HUB_KEY = Some 32" "slot_length [] = None"
  by (simp_all add: slot_length_def device_keys)

locale key_store =
  fixes ops :: "'s byte_storage"
    and inv :: "'s \<Rightarrow> bool"
    and slot :: "string \<Rightarrow> nat option"
    and contents :: "'s \<Rightarrow> string \<Rightarrow> bytes option"
  assumes slot_Nil: "slot [] = None"
    and read_law: "inv s \<Longrightarrow> k \<noteq> [] \<Longrightarrow> bs_read ops k d s =
      (case contents s k of None \<Rightarrow> (RM_E_STORAGE_KEY_NOT_FOUND, d) | Some v \<Rightarrow> (RM_E_NONE, v))"
    and slot_law: "inv s \<Longrightarrow> contents s k = Some v \<Longrightarrow> slot k = Some (length v)"
    and write_law: "inv s \<Longrightarrow> slot k = Some (length v) \<Longrightarrow> \<exists>rc s'. bs_writeAndCommit ops k v s = (rc, s') \<and>
      rc \<in> {RM_E_NONE, RM_E_STORAGE_WRITE_FAILED} \<and> inv s' \<and> contents s' = (contents s)(k \<mapsto> v)"
    and clear_law: "inv s \<Longrightarrow> inv (snd (bs_clear ops s)) \<and> contents (snd (bs_clear ops s)) = (\<lambda>_. None)"
begin

lemma write_then_read:
  assumes "inv s" "slot k = Some (length v)" "bs_writeAndCommit ops k v s = (rc, s')"
  shows "inv s'" "contents s' = (contents s)(k \<mapsto> v)" "bs_read ops k d s' = (RM_E_NONE, v)"
    "k' \<noteq> k \<Longrightarrow> k' \<noteq> [] \<Longrightarrow> bs_read ops k' d s' = bs_read ops k' d s"
proof -
  have k: "k \<noteq> []" using assms(2) slot_Nil by auto
  show w: "inv s'" "contents s' = (contents s)(k \<mapsto> v)"
    using write_law [OF assms(1,2)] assms(3) by auto
  show "bs_read ops k d s' = (RM_E_NONE, v)" by (simp add: read_law [OF w(1) k] w(2))
  show "bs_read ops k' d s' = bs_read ops k' d s" if "k' \<noteq> k" "k' \<noteq> []"
    using that by (simp add: read_law [OF w(1)] read_law [OF assms(1)] w(2))
qed

lemma read_length: "inv s \<Longrightarrow> k \<noteq> [] \<Longrightarrow> bs_read ops k d s = (RM_E_NONE, v) \<Longrightarrow> slot k = Some (length v)"
  using slot_law [of s k] by (auto simp: read_law split: option.splits)

lemma read_codes: "inv s \<Longrightarrow> k \<noteq> [] \<Longrightarrow> fst (bs_read ops k d s) \<in> {RM_E_NONE, RM_E_STORAGE_KEY_NOT_FOUND}"
  by (simp add: read_law split: option.splits)

end

section \<open>The EEPROM storage keeps the contract\<close>

definition eeprom_layout :: "sentry list \<Rightarrow> bool" where
  "eeprom_layout es \<longleftrightarrow> distinct (map se_key es) \<and>
     (\<forall>e \<in> set es. live e \<and> slot_length (se_key e) = Some (length (se_data e)))"

definition eeprom_inv :: "'e eeprom_lib \<Rightarrow> ('e \<Rightarrow> nat \<Rightarrow> bool) \<Rightarrow> 'e storage \<Rightarrow> bool" where
  "eeprom_inv L opened s \<longleftrightarrow> eeprom_laws L opened \<and> st_size s = EEPROM_STORAGE_MAX_SIZE \<and>
     (\<exists>es. repr L opened s es \<and> eeprom_layout es)"

definition eeprom_contents :: "'e eeprom_lib \<Rightarrow> 'e storage \<Rightarrow> string \<Rightarrow> bytes option" where
  "eeprom_contents L s k =
     (case st_read L k [] s of (rc, v) \<Rightarrow> if rc = RM_E_NONE then Some v else None)"

lemma slot_keys: "slot_length k = Some n \<Longrightarrow> k \<in> {STATE_KEY, CTR_KEY, NKEY, PRIV_KEY, HUB_KEY} \<and> n \<le> 32 \<and> length k = 2 \<and> 0 < n"
  by (auto simp: slot_length_def device_keys split: if_splits)

lemma layout_bound:
  assumes "eeprom_layout es"
  shows "length (image_bytes es) \<le> 200"
proof -
  have "se_key ` set es \<subseteq> {STATE_KEY, CTR_KEY, NKEY, PRIV_KEY, HUB_KEY}"
    using assms slot_keys by (fastforce simp: eeprom_layout_def)
  then have "card (se_key ` set es) \<le> card {STATE_KEY, CTR_KEY, NKEY, PRIV_KEY, HUB_KEY}" by (simp add: card_mono)
  also have "\<dots> \<le> 5" by (simp add: device_keys)
  finally have "length es \<le> 5" using assms by (metis eeprom_layout_def distinct_card length_map set_map)
  moreover have "length (image_bytes es) \<le> 40 * length es"
    using assms slot_keys by (induction es) (fastforce simp: eeprom_layout_def length_entry_bytes)+
  ultimately show ?thesis by linarith
qed

lemma layout_slot:
  assumes "eeprom_layout es" and "slot_length key = Some (length data)"
  shows "keeps_slot key data es"
proof (cases "dropWhile (\<lambda>e. \<not> live_key key e) es")
  case (Cons e post)
  then have "live_key key e" by (metis dropWhile_eq_Cons_conv)
  moreover have "e \<in> set es" by (metis Cons list.set_intros(1) set_dropWhileD)
  ultimately have "length (se_data e) = length data" using assms by (auto simp: eeprom_layout_def live_key_def)
  then show ?thesis by (simp add: keeps_slot_def Cons)
qed (simp add: keeps_slot_def del: dropWhile_eq_Nil_conv)

lemma layout_uniq: "eeprom_layout es \<Longrightarrow> uniq es"
  by (simp add: eeprom_layout_def uniq_def)

lemma layout_put:
  assumes lay: "eeprom_layout es" and slot: "slot_length key = Some (length data)"
  shows "eeprom_layout (put_entry (new_entry key data pad) es)"
proof -
  let ?es = "put_entry (new_entry key data pad) es"
  have "set ?es \<subseteq> insert (new_entry key data pad) (set es)"
    by (cases "dropWhile (\<lambda>e. \<not> live_key key e) es")
      (auto simp: put_entry_def dest: set_takeWhileD set_dropWhileD simp del: dropWhile_eq_Nil_conv,
       metis list.set_intros(2) set_dropWhileD)
  then have all: "\<forall>e \<in> set ?es. live e \<and> slot_length (se_key e) = Some (length (se_data e))"
    using lay slot by (auto simp: eeprom_layout_def)
  then have "filter live ?es = ?es" by (auto intro: filter_True)
  then have "distinct (map se_key ?es)"
    using uniq_put_entry [OF layout_uniq [OF lay], of key data pad] by (simp add: uniq_def)
  with all show ?thesis by (simp add: eeprom_layout_def)
qed

lemma layout_view:
  "eeprom_layout es \<Longrightarrow> view es k = Some v \<Longrightarrow> slot_length k = Some (length v)"
  by (auto simp: view_def eeprom_layout_def live_key_def dest!: find_Some_iff [THEN iffD1])

lemma contents_view:
  assumes "repr L opened s es" and "eeprom_layout es"
  shows "eeprom_contents L s = view es"
proof
  fix k
  show "eeprom_contents L s k = view es k"
  proof (cases "k = []")
    case True
    then have "view es k = None" using layout_view [OF assms(2), of k] by (cases "view es k") simp_all
    then show ?thesis using True assms(1) by (simp add: eeprom_contents_def st_read_def repr_def)
  next
    case False
    then show ?thesis by (simp add: eeprom_contents_def st_read_view [OF assms(1)] split: option.splits)
  qed
qed

lemma eeprom_write:
  assumes inv: "eeprom_inv L opened s" and slot: "slot_length k = Some (length v)"
  shows "\<exists>rc s'. st_writeAndCommit L k v s = (rc, s') \<and> rc \<in> {RM_E_NONE, RM_E_STORAGE_WRITE_FAILED} \<and>
    eeprom_inv L opened s' \<and> eeprom_contents L s' = (eeprom_contents L s)(k \<mapsto> v) \<and>
    (rc = RM_E_NONE \<or> (\<exists>m. \<not> fst (ee_commit L m)))"
proof -
  obtain es where laws: "eeprom_laws L opened" and sz: "st_size s = 1024" and r: "repr L opened s es" and lay: "eeprom_layout es"
    using inv by (auto simp: eeprom_inv_def EEPROM_STORAGE_MAX_SIZE_def)
  have k: "k \<noteq> []" "v \<noteq> []" "length k \<le> 255" using slot_keys [OF slot] slot by (auto simp: device_keys)
  have room: "SH_SIZE + length (image_bytes es) + EH_SIZE + length k + length v \<le> st_size s"
    using layout_bound [OF lay] slot_keys [OF slot] sz by (simp add: SH_SIZE_def EH_SIZE_def)
  let ?es = "put_entry (new_entry k v (ee_pad L)) es"
  obtain s1 where s1: "st_write L k v s = (RM_E_NONE, s1)" "repr L opened s1 ?es" "st_size s1 = st_size s"
    using st_write_repr [OF laws r k room layout_slot [OF lay slot]] by blast
  let ?s2 = "s1\<lparr>st_mem := snd (ee_commit L (st_mem s1))\<rparr>"
  have r2: "repr L opened ?s2 ?es" by (rule repr_commit [OF laws s1(2)])
  have "st_initialized s1" using s1(2) by (simp add: repr_def)
  then have "st_writeAndCommit L k v s =
      (if fst (ee_commit L (st_mem s1)) then RM_E_NONE else RM_E_STORAGE_WRITE_FAILED, ?s2)"
    by (simp add: st_writeAndCommit_def s1(1) st_commit_cases)
  moreover have "eeprom_contents L ?s2 = (eeprom_contents L s)(k \<mapsto> v)"
    by (simp add: contents_view [OF r2 layout_put [OF lay slot]] contents_view [OF r lay] view_put_entry)
  moreover have "eeprom_inv L opened ?s2"
    using r2 layout_put [OF lay slot] laws sz s1(3) by (auto simp: eeprom_inv_def EEPROM_STORAGE_MAX_SIZE_def)
  ultimately show ?thesis by auto
qed

lemma eeprom_clear:
  assumes "eeprom_inv L opened s"
  shows "eeprom_inv L opened (snd (st_clear L s)) \<and> eeprom_contents L (snd (st_clear L s)) = (\<lambda>_. None)"
proof -
  obtain es where laws: "eeprom_laws L opened" and sz: "st_size s = EEPROM_STORAGE_MAX_SIZE" and r: "repr L opened s es"
    using assms by (auto simp: eeprom_inv_def)
  have lay: "eeprom_layout []" by (simp add: eeprom_layout_def)
  obtain s' where "snd (st_clear L s) = s'" "repr L opened s' []" "st_size s' = st_size s"
    using st_clear_repr [OF laws r] by auto
  then show ?thesis using laws sz lay contents_view [OF _ lay] by (auto simp: eeprom_inv_def view_def fun_eq_iff)
qed

interpretation eeprom: key_store "eeprom_ops L" "eeprom_inv L opened" slot_length "eeprom_contents L" for L opened
proof unfold_locales
  show "slot_length [] = None" by simp
  show "bs_read (eeprom_ops L) k d s =
      (case eeprom_contents L s k of None \<Rightarrow> (RM_E_STORAGE_KEY_NOT_FOUND, d) | Some v \<Rightarrow> (RM_E_NONE, v))"
    if h: "eeprom_inv L opened s" "k \<noteq> []" for s k d
  proof -
    obtain es where "repr L opened s es" "eeprom_layout es" using h(1) by (auto simp: eeprom_inv_def)
    then show ?thesis by (simp add: eeprom_ops_def contents_view st_read_view [OF _ h(2)])
  qed
  show "slot_length k = Some (length v)" if h: "eeprom_inv L opened s" "eeprom_contents L s k = Some v" for s k v
  proof -
    obtain es where "repr L opened s es" "eeprom_layout es" using h(1) by (auto simp: eeprom_inv_def)
    then show ?thesis using h(2) by (simp add: contents_view layout_view)
  qed
  show "\<exists>rc s'. bs_writeAndCommit (eeprom_ops L) k v s = (rc, s') \<and> rc \<in> {RM_E_NONE, RM_E_STORAGE_WRITE_FAILED} \<and>
      eeprom_inv L opened s' \<and> eeprom_contents L s' = (eeprom_contents L s)(k \<mapsto> v)"
    if "eeprom_inv L opened s" "slot_length k = Some (length v)" for s k v
    using eeprom_write [OF that] by (auto simp: eeprom_ops_def)
  show "eeprom_inv L opened (snd (bs_clear (eeprom_ops L) s)) \<and>
      eeprom_contents L (snd (bs_clear (eeprom_ops L) s)) = (\<lambda>_. None)" if "eeprom_inv L opened s" for s
    using eeprom_clear [OF that] by (simp add: eeprom_ops_def)
qed

text \<open>A store with the slots of a device.\<close>

locale device_store = key_store ops inv slot_length contents
  for ops :: "'s byte_storage" and inv :: "'s \<Rightarrow> bool" and contents :: "'s \<Rightarrow> string \<Rightarrow> bytes option"

interpretation node: device_store "eeprom_ops L" "eeprom_inv L opened" "eeprom_contents L" for L opened ..

text \<open>A store whose commits succeed.\<close>

definition commits :: "'s byte_storage \<Rightarrow> ('s \<Rightarrow> bool) \<Rightarrow> bool" where
  "commits ops keeps \<longleftrightarrow>
     (\<forall>s k v. keeps s \<longrightarrow> slot_length k = Some (length v) \<longrightarrow> fst (bs_writeAndCommit ops k v s) = RM_E_NONE)"

lemma eeprom_commits:
  fixes L :: "'e eeprom_lib"
  assumes "\<And>m. fst (ee_commit L m)"
  shows "commits (eeprom_ops L) (eeprom_inv L opened)"
  unfolding commits_def
proof (intro allI impI)
  fix s :: "'e storage" and k :: string and v :: bytes
  assume h: "eeprom_inv L opened s" "slot_length k = Some (length v)"
  from eeprom_write [OF h] assms show "fst (bs_writeAndCommit (eeprom_ops L) k v s) = RM_E_NONE"
    by (auto simp: eeprom_ops_def)
qed

section \<open>Typed values round-trip\<close>

context key_store
begin

lemma bs_keep:
  assumes "inv s" "slot k = Some (length v)"
  shows "inv (snd (bs_writeAndCommit ops k v s))"
    "contents (snd (bs_writeAndCommit ops k v s)) = (contents s)(k \<mapsto> v)"
  using write_law [OF assms] by auto

lemma load_after:
  "inv s \<Longrightarrow> k \<noteq> [] \<Longrightarrow> contents s k = Some v \<Longrightarrow> bs_read ops k d s = (RM_E_NONE, v)"
  by (simp add: read_law)

end

lemmas typed_ops = persistState_def loadState_def persistMessageCounter_def loadMessageCounter_def
  persistPrivateKey_def loadPrivateKey_def persistHubKey_def loadHubKey_def persistNetworkKey_def loadNetworkKey_def

lemma device_keys_distinct [simp]:
  "STATE_KEY \<noteq> []" "CTR_KEY \<noteq> []" "NKEY \<noteq> []" "PRIV_KEY \<noteq> []" "HUB_KEY \<noteq> []"
  "distinct [STATE_KEY, CTR_KEY, NKEY, PRIV_KEY, HUB_KEY]"
  by (simp_all add: device_keys)

text \<open>C37: The device's persistent values never lose each other: on an EEPROM of 1024 bytes in the
  device's layout, after an inclusion state, a message counter, a network key, a private key and a
  hub key of 32 bytes were persisted, in this order and whether or not the commits succeeded, each of
  the five loads returns exactly what was persisted, however often the values had been rewritten
  before; the storage never runs out of room.\<close>

theorem device_storage_roundtrip:
  fixes L :: "'e eeprom_lib" and s :: "'e storage"
  defines "ops \<equiv> eeprom_ops L"
  assumes "eeprom_inv L opened s" and "named_state st" and "length nk = 32" "length pk = 32" "length hk = 32"
  shows "let s' = snd (persistHubKey ops hk (snd (persistPrivateKey ops pk (snd (persistNetworkKey ops nk
        (snd (persistMessageCounter ops c (snd (persistState ops st s)))))))))
    in loadState ops st0 s' = (RM_E_NONE, st) \<and> loadMessageCounter ops c0 s' = (RM_E_NONE, c) \<and>
       loadNetworkKey ops [] s' = (RM_E_NONE, nk) \<and> loadPrivateKey ops [] s' = (RM_E_NONE, pk) \<and>
       loadHubKey ops [] s' = (RM_E_NONE, hk) \<and> eeprom_inv L opened s' \<and> unat (available L s') \<ge> 816"
proof -
  note keep = eeprom.bs_keep [of L opened]
  define s1 where "s1 = snd (persistState ops st s)"
  define s2 where "s2 = snd (persistMessageCounter ops c s1)"
  define s3 where "s3 = snd (persistNetworkKey ops nk s2)"
  define s4 where "s4 = snd (persistPrivateKey ops pk s3)"
  define s5 where "s5 = snd (persistHubKey ops hk s4)"
  have 1: "eeprom_inv L opened s1" "eeprom_contents L s1 = (eeprom_contents L s)(STATE_KEY \<mapsto> [inclusion_state_code st])"
    using keep [of s STATE_KEY "[inclusion_state_code st]"] assms(2) by (simp_all add: s1_def persistState_def ops_def)
  have 2: "eeprom_inv L opened s2" "eeprom_contents L s2 = (eeprom_contents L s1)(CTR_KEY \<mapsto> numberToBytes c)"
    using keep [of s1 CTR_KEY "numberToBytes c"] 1 by (simp_all add: s2_def persistMessageCounter_def ops_def)
  have 3: "eeprom_inv L opened s3" "eeprom_contents L s3 = (eeprom_contents L s2)(NKEY \<mapsto> nk)"
    using keep [of s2 NKEY nk] 2 assms(4) by (simp_all add: s3_def persistNetworkKey_def ops_def)
  have 4: "eeprom_inv L opened s4" "eeprom_contents L s4 = (eeprom_contents L s3)(PRIV_KEY \<mapsto> pk)"
    using keep [of s3 PRIV_KEY pk] 3 assms(5) by (simp_all add: s4_def persistPrivateKey_def ops_def)
  have 5: "eeprom_inv L opened s5" "eeprom_contents L s5 = (eeprom_contents L s4)(HUB_KEY \<mapsto> hk)"
    using keep [of s4 HUB_KEY hk] 4 assms(6) by (simp_all add: s5_def persistHubKey_def ops_def)
  have vals: "eeprom_contents L s5 STATE_KEY = Some [inclusion_state_code st]"
      "eeprom_contents L s5 CTR_KEY = Some (numberToBytes c)" "eeprom_contents L s5 NKEY = Some nk"
      "eeprom_contents L s5 PRIV_KEY = Some pk" "eeprom_contents L s5 HUB_KEY = Some hk"
    using device_keys_distinct(6) by (auto simp: 5(2) 4(2) 3(2) 2(2) 1(2))
  note rd = eeprom.load_after [OF 5(1)]
  have "loadState ops st0 s5 = (RM_E_NONE, st)"
    using assms(3) by (simp add: loadState_def ops_def rd [OF _ vals(1)] inclusion_state_of_byte_code)
  moreover have "loadMessageCounter ops c0 s5 = (RM_E_NONE, c)"
    by (simp add: loadMessageCounter_def ops_def rd [OF _ vals(2)])
  moreover have "loadNetworkKey ops [] s5 = (RM_E_NONE, nk)" "loadPrivateKey ops [] s5 = (RM_E_NONE, pk)"
      "loadHubKey ops [] s5 = (RM_E_NONE, hk)"
    by (simp_all add: loadNetworkKey_def loadPrivateKey_def loadHubKey_def ops_def rd [OF _ vals(3)] rd [OF _ vals(4)]
        rd [OF _ vals(5)])
  moreover have "816 \<le> unat (available L s5)"
  proof -
    obtain es where "repr L opened s5 es" "eeprom_layout es" "st_size s5 = 1024"
      using 5(1) by (auto simp: eeprom_inv_def EEPROM_STORAGE_MAX_SIZE_def)
    then show ?thesis using layout_bound [of es] by (simp add: available_repr SH_SIZE_def)
  qed
  ultimately show ?thesis
    using 5(1) unfolding Let_def s5_def s4_def s3_def s2_def s1_def by simp
qed

lemma ram_device_inv: "eeprom_inv ram_eeprom ram_opened (ram_storage 1024)"
proof -
  have "repr ram_eeprom ram_opened (ram_storage 1024) []" by (rule ram_storage_repr) (simp_all add: SH_SIZE_def)
  then show ?thesis
    by (auto simp: eeprom_inv_def ram_laws eeprom_layout_def ram_storage_def EEPROM_STORAGE_MAX_SIZE_def
        intro!: exI [of _ "[]"])
qed

theorem device_storage_roundtrip_witness:
  "let ops = eeprom_ops ram_eeprom;
       s' = snd (persistHubKey ops (replicate 32 3) (snd (persistPrivateKey ops (replicate 32 2) (snd (persistNetworkKey ops
        (replicate 32 1) (snd (persistMessageCounter ops 7 (snd (persistState ops INCLUDED (ram_storage 1024))))))))))
   in loadState ops NOT_INCLUDED s' = (RM_E_NONE, INCLUDED) \<and> loadMessageCounter ops 0 s' = (RM_E_NONE, 7)"
  using device_storage_roundtrip [OF ram_device_inv, of INCLUDED "replicate 32 1" "replicate 32 2" "replicate 32 3" 7 NOT_INCLUDED 0]
  by (simp add: Let_def named_state_def)

end
