(* ===== verification/RM_AesCmac.thy ===== *)
theory RM_AesCmac
  imports RM_Prelude
begin

text \<open>
  The AES-CMAC code of \<open>src/src/core/protocol/inc/crypto/cmac/AesCmac.h\<close> and
  \<open>src/src/core/protocol/src/crypto/cmac/AesCmac.cpp\<close>. The block cipher itself is a third-party
  library and an argument \<open>E\<close> of the definitions: \<open>E key block\<close> is what \<open>setKey\<close> and
  \<open>encryptBlock\<close> of the AES class for the key's length compute; \<open>cipher_laws\<close> says it maps
  blocks to blocks. The reference \<open>cmac_rfc\<close> is RFC 4493 over 128-bit words. A vector that is
  indexed out of its bounds is \<open>None\<close>. The locale \<open>mac_alg\<close> is what the MIC service needs of a
  tag algorithm.
\<close>

type_synonym cipher = "bytes \<Rightarrow> bytes \<Rightarrow> bytes"

definition AES_BLOCK_SIZE :: nat where "AES_BLOCK_SIZE = 16"
definition CMAC_MIC_SIZE :: nat where "CMAC_MIC_SIZE = 4"

definition cipher_laws :: "cipher \<Rightarrow> bool" where
  "cipher_laws E \<longleftrightarrow> (\<forall>key block. length block = 16 \<longrightarrow> length (E key block) = 16)"

section \<open>The code\<close>

definition aesEncryptBlock :: "cipher \<Rightarrow> bytes \<Rightarrow> bytes \<Rightarrow> bytes" where
  "aesEncryptBlock E key block =
     (if length block \<noteq> AES_BLOCK_SIZE then []
      else if length key = 16 then E key block
      else if length key = 32 then E key block
      else [])"

definition padData :: "bytes \<Rightarrow> nat \<Rightarrow> bytes" where
  "padData data blockSize = (data @ [0x80]) @ replicate (blockSize - length (data @ [0x80])) 0x00"

definition xorVectors :: "bytes \<Rightarrow> bytes \<Rightarrow> bytes" where
  "xorVectors a b = (if length a \<noteq> length b then [] else map2 (XOR) a b)"

definition leftShift :: "bytes \<Rightarrow> bytes" where
  "leftShift input =
     map (\<lambda>i. if i + 1 < length input \<and> input ! (i + 1) AND 0x80 \<noteq> 0
              then push_bit 1 (input ! i) OR 0x01
              else push_bit 1 (input ! i)) [0..<length input]"

text \<open>\<open>leftShift\<close> and the conditional XOR of the last byte with Rb: the step from L to K1 and from
  K1 to K2. Indexing byte 15 of a shorter block is undefined.\<close>

definition next_subkey :: "bytes \<Rightarrow> bytes option" where
  "next_subkey l = do {
     guard_ok (AES_BLOCK_SIZE \<le> length l);
     let k = leftShift l;
     Some (if l ! 0 AND 0x80 \<noteq> 0
           then k[AES_BLOCK_SIZE - 1 := k ! (AES_BLOCK_SIZE - 1) XOR 0x87] else k) }"

definition generateSubkeys :: "cipher \<Rightarrow> bytes \<Rightarrow> (bytes \<times> bytes) option" where
  "generateSubkeys E key = do {
     let L = aesEncryptBlock E key (replicate AES_BLOCK_SIZE 0);
     k1 \<leftarrow> next_subkey L;
     k2 \<leftarrow> next_subkey k1;
     Some (k1, k2) }"

text \<open>The loop that splits the data into blocks, the last one possibly shorter.\<close>

function cmac_blocks :: "bytes \<Rightarrow> bytes list" where
  "cmac_blocks data =
     (if data = [] then [] else take AES_BLOCK_SIZE data # cmac_blocks (drop AES_BLOCK_SIZE data))"
  by pat_completeness auto
termination
  by (relation "measure length") (auto simp: AES_BLOCK_SIZE_def)

declare cmac_blocks.simps [simp del]

definition cmac_chain :: "cipher \<Rightarrow> bytes \<Rightarrow> bytes list \<Rightarrow> bytes" where
  "cmac_chain E key blocks =
     foldl (\<lambda>y b. aesEncryptBlock E key (xorVectors y b)) (replicate AES_BLOCK_SIZE 0) blocks"

definition computeCMAC :: "cipher \<Rightarrow> bytes \<Rightarrow> bytes \<Rightarrow> bytes option" where
  "computeCMAC E key data =
     (if key = [] \<or> length key \<noteq> 16 \<and> length key \<noteq> 24 \<and> length key \<noteq> 32 then Some []
      else do {
        (k1, k2) \<leftarrow> generateSubkeys E key;
        let bs = cmac_blocks data;
        let blocks = (if bs = [] then [0x80 # replicate (AES_BLOCK_SIZE - 1) 0x00] else bs);
        let y = cmac_chain E key (butlast blocks);
        let lastBlock = (if length (last blocks) = AES_BLOCK_SIZE
                         then xorVectors (last blocks) k1
                         else xorVectors (padData (last blocks) AES_BLOCK_SIZE) k2);
        Some (aesEncryptBlock E key (xorVectors y lastBlock)) })"

definition computeMIC :: "cipher \<Rightarrow> bytes \<Rightarrow> bytes \<Rightarrow> bytes option" where
  "computeMIC E key data = do {
     fullCmac \<leftarrow> computeCMAC E key data;
     Some (if length fullCmac < CMAC_MIC_SIZE then [] else take CMAC_MIC_SIZE fullCmac) }"

definition verifyMIC :: "cipher \<Rightarrow> bytes \<Rightarrow> bytes \<Rightarrow> bytes \<Rightarrow> bool option" where
  "verifyMIC E key data receivedMic =
     (if length receivedMic \<noteq> CMAC_MIC_SIZE then Some False
      else do {
        computedMic \<leftarrow> computeMIC E key data;
        Some (if length computedMic \<noteq> CMAC_MIC_SIZE then False
              else foldl (\<lambda>isValid i. isValid \<and> computedMic ! i = receivedMic ! i) True
                     [0..<CMAC_MIC_SIZE]) })"

section \<open>The reference: RFC 4493\<close>

text \<open>A block as a 128-bit number, most significant byte first, and back.\<close>

definition be128 :: "bytes \<Rightarrow> 128 word" where
  "be128 bs = foldl (\<lambda>w b. push_bit 8 w OR ucast b) 0 bs"

definition bytes128 :: "128 word \<Rightarrow> bytes" where
  "bytes128 w = map (\<lambda>i. ucast (drop_bit (8 * (15 - i)) w)) [0..<16]"

text \<open>Doubling in the field of 2 to the 128 elements.\<close>

definition dbl :: "128 word \<Rightarrow> 128 word" where
  "dbl w = (if bit w 127 then push_bit 1 w XOR 0x87 else push_bit 1 w)"

definition rfc_block :: "bytes \<Rightarrow> nat \<Rightarrow> bytes" where
  "rfc_block M i = take 16 (drop (16 * i) M)"

definition cmac_rfc :: "(bytes \<Rightarrow> bytes) \<Rightarrow> bytes \<Rightarrow> bytes" where
  "cmac_rfc e M =
     (let L = be128 (e (replicate 16 0));
          K1 = bytes128 (dbl L);
          K2 = bytes128 (dbl (dbl L));
          n = (if M = [] then 1 else (length M + 15) div 16);
          complete = (M \<noteq> [] \<and> length M mod 16 = 0);
          lastb = rfc_block M (n - 1);
          M_last = (if complete then map2 (XOR) lastb K1
                    else map2 (XOR) (lastb @ [0x80] @ replicate (15 - length lastb) 0) K2);
          X = fold (\<lambda>i x. e (map2 (XOR) x (rfc_block M i))) [0..<n - 1] (replicate 16 0)
      in e (map2 (XOR) X M_last))"

section \<open>The subkeys\<close>

lemma and_0x80: "(b :: byte) AND 0x80 \<noteq> 0 \<longleftrightarrow> bit b 7"
proof -
  have "b AND 2 ^ 7 = 0 \<longleftrightarrow> \<not> bit b 7" by (rule and_exp_eq_0_iff_not_bit)
  then show ?thesis by simp
qed

lemma bit_times2: "bit (w * 2 :: 'a::len word) j \<longleftrightarrow> 0 < j \<and> j < LENGTH('a) \<and> bit w (j - 1)"
proof -
  have "w * 2 = push_bit 1 w" by (simp add: push_bit_eq_mult)
  then show ?thesis by (auto simp: bit_push_bit_iff simp del: push_bit_Suc)
qed

lemma bit_be128:
  "length bs \<le> 16 \<Longrightarrow> bit (be128 bs) n \<longleftrightarrow> n < 8 * length bs \<and> bit (bs ! (length bs - 1 - n div 8)) (n mod 8)"
proof (induction bs arbitrary: n rule: rev_induct)
  case Nil
  then show ?case by (simp add: be128_def)
next
  case (snoc b bs)
  have step: "be128 (bs @ [b]) = push_bit 8 (be128 bs) OR ucast b" by (simp add: be128_def)
  show ?case
  proof (cases "n < 8")
    case True
    then show ?thesis using snoc.prems
      by (simp add: step bit_or_iff bit_push_bit_iff bit_ucast_iff nth_append)
  next
    case False
    then obtain m where m: "n = m + 8" by (metis le_add_diff_inverse2 not_less)
    have b: "\<not> bit b n" using False bit_imp_le_length [of b n] by auto
    have "bit (be128 (bs @ [b])) n \<longleftrightarrow> n < 128 \<and> bit (be128 bs) m"
      using b by (auto simp: step bit_or_iff bit_push_bit_iff bit_ucast_iff m)
    also have "\<dots> \<longleftrightarrow> m < 8 * length bs \<and> bit (bs ! (length bs - 1 - m div 8)) (m mod 8)"
      using snoc.IH [of m] snoc.prems by (auto simp: m)
    finally have main: "bit (be128 (bs @ [b])) n \<longleftrightarrow>
        m < 8 * length bs \<and> bit (bs ! (length bs - 1 - m div 8)) (m mod 8)" .
    have "n div 8 = Suc (m div 8)" and "n mod 8 = m mod 8" by (simp_all add: m)
    then have idx: "(bs @ [b]) ! (length (bs @ [b]) - 1 - n div 8) = bs ! (length bs - 1 - m div 8)"
      if "m < 8 * length bs"
      using that by (simp add: nth_append) linarith
    show ?thesis unfolding main using idx \<open>n mod 8 = m mod 8\<close> by (auto simp: m)
  qed
qed

lemma bit_bytes128: "i < 16 \<Longrightarrow> bit (bytes128 w ! i) j \<longleftrightarrow> j < 8 \<and> bit w (8 * (15 - i) + j)"
  by (auto simp: bytes128_def bit_ucast_iff bit_drop_bit_eq dest: bit_imp_le_length)

lemma length_bytes128 [simp]: "length (bytes128 w) = 16"
  by (simp add: bytes128_def)

lemma length_leftShift [simp]: "length (leftShift bs) = length bs"
  by (simp add: leftShift_def)

lemma bytes128_eqI:
  assumes "length bs = 16" and "\<And>i j. i < 16 \<Longrightarrow> j < 8 \<Longrightarrow> bit (bs ! i) j = bit w (8 * (15 - i) + j)"
  shows "bs = bytes128 w"
proof (rule nth_equalityI)
  show "length bs = length (bytes128 w)" using assms by simp
  fix i assume "i < length bs"
  then show "bs ! i = bytes128 w ! i"
    by (intro bit_word_eqI) (simp add: bit_bytes128 assms)
qed

lemma bytes128_be128: "length bs = 16 \<Longrightarrow> bytes128 (be128 bs) = bs"
  by (rule bytes128_eqI [symmetric]) (auto simp: bit_be128)

lemma leftShift_be128:
  assumes "length bs = 16"
  shows "leftShift bs = bytes128 (push_bit 1 (be128 bs))"
proof (rule bytes128_eqI)
  show "length (leftShift bs) = 16" using assms by simp
  fix i j :: nat assume i: "i < 16" and j: "j < 8"
  have ls: "bit (leftShift bs ! i) j \<longleftrightarrow>
      (if j = 0 then i + 1 < 16 \<and> bit (bs ! (i + 1)) 7 else bit (bs ! i) (j - 1))"
    using i j assms by (auto simp: leftShift_def and_0x80 bit_or_iff bit_times2 bit_1_iff)
  show "bit (leftShift bs ! i) j = bit (push_bit 1 (be128 bs)) (8 * (15 - i) + j)"
  proof (cases j)
    case 0
    show ?thesis
    proof (cases "i = 15")
      case True
      then show ?thesis using ls 0 by (simp add: bit_times2)
    next
      case False
      then obtain k where k: "15 - i = Suc k" "i + 1 = 15 - k" "k < 15" using i
        by (intro that [of "14 - i"]) auto
      have "bit (push_bit 1 (be128 bs)) (8 * (15 - i) + j) \<longleftrightarrow> bit (be128 bs) (8 * k + 7)"
        using k 0 by (simp add: bit_times2 add.commute)
      also have "\<dots> \<longleftrightarrow> bit (bs ! (15 - k)) 7"
        using k assms by (simp add: bit_be128)
      finally show ?thesis using ls 0 k False i by simp
    qed
  next
    case (Suc j')
    then show ?thesis using i j assms ls by (auto simp: bit_times2 bit_be128)
  qed
qed

lemma bit_0x87_word: "bit (0x87 :: 128 word) n \<longleftrightarrow> n < 8 \<and> bit (0x87 :: byte) n"
proof -
  have "(0x87 :: 128 word) = ucast (0x87 :: byte)" by simp
  then show ?thesis by (simp only: bit_ucast_iff) (auto dest: bit_imp_le_length)
qed

lemma bytes128_xor_0x87:
  "(bytes128 w)[15 := bytes128 w ! 15 XOR 0x87] = bytes128 (w XOR 0x87)"
proof (rule bytes128_eqI)
  fix i j :: nat assume "i < 16" "j < 8"
  then show "bit ((bytes128 w)[15 := bytes128 w ! 15 XOR 0x87] ! i) j = bit (w XOR 0x87) (8 * (15 - i) + j)"
  proof (cases "i = 15")
    case True
    then show ?thesis using \<open>j < 8\<close> by (auto simp: bit_bytes128 bit_xor_iff bit_0x87_word)
  next
    case False
    with \<open>i < 16\<close> have "\<not> 8 * (15 - i) + j < 8" by simp
    with False \<open>i < 16\<close> \<open>j < 8\<close> show ?thesis
      by (simp add: bit_bytes128 bit_xor_iff bit_0x87_word del: bit_numeral_word_iff)
  qed
qed simp

lemma next_subkey_dbl:
  assumes "length l = 16"
  shows "next_subkey l = Some (bytes128 (dbl (be128 l)))"
proof -
  have "bit (l ! 0) 7 \<longleftrightarrow> bit (be128 l) 127" using assms by (simp add: bit_be128)
  then show ?thesis
    using assms by (simp add: next_subkey_def and_0x80 AES_BLOCK_SIZE_def leftShift_be128 dbl_def bytes128_xor_0x87)
qed

lemma be128_bytes128: "be128 (bytes128 w) = w"
proof (rule bit_word_eqI)
  fix n assume n: "n < LENGTH(128)"
  then have "15 - n div 8 < 16" and "n = 8 * (15 - (15 - n div 8)) + n mod 8" by simp_all
  then show "bit (be128 (bytes128 w)) n = bit w n"
    using n by (simp add: bit_be128 bit_bytes128)
qed

lemma aesEncryptBlock_ok:
  "length key = 16 \<or> length key = 32 \<Longrightarrow> length block = 16 \<Longrightarrow> aesEncryptBlock E key block = E key block"
  by (auto simp: aesEncryptBlock_def AES_BLOCK_SIZE_def)

lemma generateSubkeys_rfc:
  assumes E: "cipher_laws E" and key: "length key = 16 \<or> length key = 32"
  shows "generateSubkeys E key =
    Some (bytes128 (dbl (be128 (E key (replicate 16 0)))), bytes128 (dbl (dbl (be128 (E key (replicate 16 0))))))"
  using E aesEncryptBlock_ok [OF key, of "replicate 16 0"]
  by (simp add: generateSubkeys_def AES_BLOCK_SIZE_def next_subkey_dbl cipher_laws_def be128_bytes128)

section \<open>The blocks\<close>

lemma cmac_blocks_eq:
  "cmac_blocks data = map (rfc_block data) [0..<(length data + 15) div 16]"
proof (induction data rule: cmac_blocks.induct)
  case (1 data)
  show ?case
  proof (cases "data = []")
    case True
    then show ?thesis by (simp add: cmac_blocks.simps)
  next
    case False
    have n: "(length data + 15) div 16 = Suc ((length data - 16 + 15) div 16)"
    proof (cases "length data \<le> 16")
      case True
      then have "length data + 15 < 2 * 16" and "16 \<le> length data + 15"
        using False by (simp_all add: Suc_le_eq)
      then have "(length data + 15) div 16 = 1" by linarith
      with True show ?thesis by simp
    next
      case False
      then have "length data + 15 = (length data - 16 + 15) + 16" by simp
      then show ?thesis by (metis Suc_eq_plus1 div_add_self2 zero_neq_numeral)
    qed
    have "rfc_block (drop 16 data) i = rfc_block data (Suc i)" for i
      by (simp add: rfc_block_def add.commute)
    then show ?thesis
      using "1.IH" [OF False] False
      by (subst cmac_blocks.simps)
        (simp add: n AES_BLOCK_SIZE_def map_upt_Suc rfc_block_def del: upt_Suc)
  qed
qed

lemma rfc_block_length: "16 * (i + 1) \<le> length M \<Longrightarrow> length (rfc_block M i) = 16"
  by (simp add: rfc_block_def)

lemma xorVectors_ok: "length a = length b \<Longrightarrow> xorVectors a b = map2 (XOR) a b"
  by (simp add: xorVectors_def)

lemma cmac_chain_fold:
  assumes E: "cipher_laws E" and key: "length key = 16 \<or> length key = 32"
    and bs: "\<forall>b \<in> set bs. length b = 16" and y: "length y = 16"
  shows "foldl (\<lambda>y b. aesEncryptBlock E key (xorVectors y b)) y bs =
      fold (\<lambda>b x. E key (map2 (XOR) x b)) bs y \<and>
    length (fold (\<lambda>b x. E key (map2 (XOR) x b)) bs y) = 16"
  using bs y
proof (induction bs arbitrary: y)
  case (Cons b bs)
  then have "aesEncryptBlock E key (xorVectors y b) = E key (map2 (XOR) y b)"
    by (simp add: xorVectors_ok aesEncryptBlock_ok [OF key])
  moreover have "length (E key (map2 (XOR) y b)) = 16"
    using E Cons.prems by (simp add: cipher_laws_def)
  ultimately show ?case using Cons by simp
qed simp

text \<open>What \<open>computeCMAC\<close> computes from its list of blocks, when all but the last are full.\<close>

lemma computeCMAC_blocks:
  assumes E: "cipher_laws E" and key: "length key = 16 \<or> length key = 32"
    and blocks: "blocks = (if data = [] then [0x80 # replicate 15 0] else cmac_blocks data)"
    and full: "\<forall>b \<in> set (butlast blocks). length b = 16" and last: "length (last blocks) \<le> 16"
  defines "L \<equiv> be128 (E key (replicate 16 0))"
  shows "computeCMAC E key data = Some (E key (map2 (XOR)
     (fold (\<lambda>b x. E key (map2 (XOR) x b)) (butlast blocks) (replicate 16 0))
     (if length (last blocks) = 16 then map2 (XOR) (last blocks) (bytes128 (dbl L))
      else map2 (XOR) (last blocks @ [0x80] @ replicate (15 - length (last blocks)) 0) (bytes128 (dbl (dbl L))))))"
proof -
  let ?y = "fold (\<lambda>b x. E key (map2 (XOR) x b)) (butlast blocks) (replicate 16 0)"
  let ?last = "if length (last blocks) = 16 then xorVectors (last blocks) (bytes128 (dbl L))
      else xorVectors (padData (last blocks) 16) (bytes128 (dbl (dbl L)))"
  have y: "cmac_chain E key (butlast blocks) = ?y" and leny: "length ?y = 16"
    using cmac_chain_fold [OF E key full, of "replicate 16 0"] by (simp_all add: cmac_chain_def AES_BLOCK_SIZE_def)
  have "cmac_blocks data = [] \<longleftrightarrow> data = []" by (subst cmac_blocks.simps) simp
  then have blocks': "(if cmac_blocks data = [] then [0x80 # replicate (AES_BLOCK_SIZE - 1) 0x00] else cmac_blocks data) = blocks"
    by (simp add: blocks AES_BLOCK_SIZE_def)
  have ok: "(key = [] \<or> length key \<noteq> 16 \<and> length key \<noteq> 24 \<and> length key \<noteq> 32) = False"
    using key by auto
  have c: "computeCMAC E key data = Some (aesEncryptBlock E key (xorVectors ?y ?last))"
    unfolding computeCMAC_def ok generateSubkeys_rfc [OF E key] L_def [symmetric]
    by (simp add: Let_def blocks' y) (simp add: AES_BLOCK_SIZE_def)
  have pad: "padData (last blocks) 16 = last blocks @ [0x80] @ replicate (15 - length (last blocks)) 0"
    by (simp add: padData_def)
  have l: "?last = (if length (last blocks) = 16 then map2 (XOR) (last blocks) (bytes128 (dbl L))
      else map2 (XOR) (last blocks @ [0x80] @ replicate (15 - length (last blocks)) 0) (bytes128 (dbl (dbl L))))"
    using last by (simp add: xorVectors_ok pad)
  have "length ?last = 16" unfolding l using last by simp
  then have "xorVectors ?y ?last = map2 (XOR) ?y ?last" and "length (map2 (XOR) ?y ?last) = 16"
    using leny by (simp_all add: xorVectors_ok)
  with c show ?thesis by (simp only: l aesEncryptBlock_ok [OF key])
qed

section \<open>The code computes RFC 4493\<close>

lemma block_count:
  assumes "M \<noteq> []" and n: "n = (length M + 15) div 16"
  shows "0 < n" and "16 * (n - 1) < length M" and "length M \<le> 16 * n"
proof -
  have "16 * n \<le> length M + 15" and "length M + 15 < 16 * n + 16"
    unfolding n by simp_all
  moreover have "0 < length M" using assms(1) by simp
  ultimately show "0 < n" "16 * (n - 1) < length M" "length M \<le> 16 * n" by linarith+
qed

lemma computeCMAC_rfc:
  assumes E: "cipher_laws E" and key: "length key = 16 \<or> length key = 32" and M: "M \<noteq> []"
  shows "computeCMAC E key M = Some (cmac_rfc (E key) M)"
proof -
  define n where "n = (length M + 15) div 16"
  note n = block_count [OF M n_def]
  then obtain m where m: "n = Suc m" by (cases n) auto
  have blocks: "cmac_blocks M = map (rfc_block M) [0..<m] @ [rfc_block M m]"
    by (simp add: cmac_blocks_eq n_def [symmetric] m)
  have len: "length (rfc_block M m) = length M - 16 * m" using n m by (simp add: rfc_block_def)
  then have last: "length (rfc_block M m) \<le> 16" using n m by simp
  have full: "length (rfc_block M m) = 16 \<longleftrightarrow> length M mod 16 = 0"
  proof
    assume "length (rfc_block M m) = 16"
    then have "length M = 16 * (m + 1)" using len n m by simp
    then show "length M mod 16 = 0" by simp
  next
    assume "length M mod 16 = 0"
    then obtain q where q: "length M = 16 * q" by (auto simp: mod_eq_0_iff_dvd dvd_def)
    have "q = m + 1" using n m q by simp
    with len q show "length (rfc_block M m) = 16" by simp
  qed
  have bl: "\<forall>b \<in> set (butlast (cmac_blocks M)). length b = 16"
    using n m by (auto simp: blocks rfc_block_length)
  have n': "(if M = [] then 1 else (length M + 15) div 16) = Suc m" using M m n_def by simp
  show ?thesis
    unfolding cmac_rfc_def Let_def n'
    using computeCMAC_blocks [OF E key, of "cmac_blocks M" M] bl last M full
    by (simp add: blocks fold_map comp_def)
qed

lemma butlast_upt0: "butlast [0..<n] = [0..<n - 1]"
  by (cases n) simp_all

lemma length_computeCMAC:
  assumes E: "cipher_laws E" and key: "length key = 16 \<or> length key = 32"
  shows "\<exists>c. computeCMAC E key M = Some c \<and> length c = 16"
proof -
  let ?blocks = "if M = [] then [0x80 # replicate 15 0] else cmac_blocks M"
  have full: "\<forall>b \<in> set (butlast ?blocks). length b = 16" and last: "length (last ?blocks) \<le> 16"
  proof -
    have a: "length (rfc_block M i) = 16" if "i < (length M + 15) div 16 - 1" for i
    proof (rule rfc_block_length)
      define n where "n = (length M + 15) div 16"
      have "16 * n \<le> length M + 15" unfolding n_def by simp
      moreover have "i + 2 \<le> n" using that by (simp add: n_def)
      ultimately show "16 * (i + 1) \<le> length M" by simp
    qed
    then show "\<forall>b \<in> set (butlast ?blocks). length b = 16"
      by (auto simp: cmac_blocks_eq butlast_upt0 map_butlast [symmetric])
    show "length (last ?blocks) \<le> 16"
      using block_count(1) [of M] by (auto simp: cmac_blocks_eq last_map rfc_block_def)
  qed
  have "length (fold (\<lambda>b x. E key (map2 (XOR) x b)) (butlast ?blocks) (replicate 16 0)) = 16"
    using cmac_chain_fold [OF E key full, of "replicate 16 0"] by simp
  then show ?thesis
    using computeCMAC_blocks [OF E key refl full last] E last
    by (simp add: cipher_laws_def)
qed

text \<open>C31: For a 16- or 32-byte key and non-empty data, the code computes AES-CMAC as RFC 4493
  defines it over 128-bit blocks, for any block cipher: the subkeys, the padding, the choice of
  K1 or K2 and the chaining all agree, and no vector is indexed out of bounds.\<close>

theorem computeCMAC_correct:
  assumes "cipher_laws E" and "length key = 16 \<or> length key = 32" and "data \<noteq> []"
  shows "computeCMAC E key data = Some (cmac_rfc (E key) data)"
  using assms by (rule computeCMAC_rfc)

definition toy_cipher :: cipher where
  "toy_cipher key block = map (\<lambda>b. b XOR 0x5A) (rotate1 block)"

lemma toy_cipher_laws: "cipher_laws toy_cipher"
  by (simp add: cipher_laws_def toy_cipher_def)

lemma computeCMAC_correct_witness:
  "computeCMAC toy_cipher (replicate 32 7) (replicate 40 1) =
     Some (cmac_rfc (toy_cipher (replicate 32 7)) (replicate 40 1))"
  by (rule computeCMAC_correct [OF toy_cipher_laws]) simp_all

text \<open>On empty data the code does not compute RFC 4493: it pads the block in advance, takes it
  for a complete one and combines it with K1 where the RFC requires K2. The two results come from
  different cipher inputs, so for an injective cipher they differ unless K1 and K2 are equal.\<close>

theorem computeCMAC_empty_uses_K1:
  assumes E: "cipher_laws E" and key: "length key = 16 \<or> length key = 32"
  shows "computeCMAC E key [] = Some (E key (map2 (XOR) (0x80 # replicate 15 0)
      (bytes128 (dbl (be128 (E key (replicate 16 0))))))) \<and>
    cmac_rfc (E key) [] = E key (map2 (XOR) (0x80 # replicate 15 0)
      (bytes128 (dbl (dbl (be128 (E key (replicate 16 0)))))))"
proof -
  have z: "map2 (XOR) (replicate 16 0) xs = xs" if "length xs = 16" for xs :: bytes
    using that by (simp add: list_eq_iff_nth_eq)
  show ?thesis
    using computeCMAC_blocks [OF E key, of "[0x80 # replicate 15 0]" "[]"]
    by (simp add: cmac_rfc_def Let_def rfc_block_def z)
qed

lemma computeCMAC_empty_uses_K1_witness:
  "computeCMAC toy_cipher (replicate 16 7) [] \<noteq> Some (cmac_rfc (toy_cipher (replicate 16 7)) [])"
proof -
  have "length (replicate 16 (7 :: byte)) = 16 \<or> length (replicate 16 (7 :: byte)) = 32" by simp
  note computeCMAC_empty_uses_K1 [OF toy_cipher_laws this]
  moreover have "toy_cipher (replicate 16 7) (map2 (XOR) (0x80 # replicate 15 0)
      (bytes128 (dbl (be128 (toy_cipher (replicate 16 7) (replicate 16 0)))))) \<noteq>
    toy_cipher (replicate 16 7) (map2 (XOR) (0x80 # replicate 15 0)
      (bytes128 (dbl (dbl (be128 (toy_cipher (replicate 16 7) (replicate 16 0)))))))"
    by code_simp
  ultimately show ?thesis by simp
qed

section \<open>Tags\<close>

text \<open>The interface the MIC service relies on: a tag of four bytes is computed for every input
  under an admissible key, and verification accepts exactly the computed tag.\<close>

locale mac_alg =
  fixes good_key :: "'k \<Rightarrow> bool"
    and mac :: "'k \<Rightarrow> bytes \<Rightarrow> bytes option"
    and verify :: "'k \<Rightarrow> bytes \<Rightarrow> bytes \<Rightarrow> bool option"
  assumes mac_total: "good_key k \<Longrightarrow> \<exists>t. mac k m = Some t \<and> length t = 4"
    and verify_law: "good_key k \<Longrightarrow> verify k m t = Some (mac k m = Some t)"
begin

lemma verify_total: "good_key k \<Longrightarrow> verify k m t \<noteq> None"
  by (simp add: verify_law)

lemma verify_own: "good_key k \<Longrightarrow> mac k m = Some t \<Longrightarrow> verify k m t = Some True"
  by (simp add: verify_law)

lemma verify_length: "good_key k \<Longrightarrow> verify k m t = Some True \<Longrightarrow> length t = 4"
  using mac_total [of k m] by (auto simp: verify_law)

lemma verify_unique: "good_key k \<Longrightarrow> verify k m t = Some True \<Longrightarrow> verify k m t' = Some True \<Longrightarrow> t = t'"
  by (auto simp: verify_law)

end

lemma computeMIC_total:
  assumes "cipher_laws E" and "length key = 16 \<or> length key = 32"
  shows "\<exists>t. computeMIC E key m = Some t \<and> length t = 4"
  using length_computeCMAC [OF assms, of m] by (auto simp: computeMIC_def CMAC_MIC_SIZE_def)

lemma foldl_conj: "foldl (\<lambda>v i. v \<and> P i) b xs \<longleftrightarrow> b \<and> (\<forall>i \<in> set xs. P i)"
  by (induction xs arbitrary: b) auto

lemma verifyMIC_eq:
  assumes "cipher_laws E" and "length key = 16 \<or> length key = 32"
  shows "verifyMIC E key m t = Some (computeMIC E key m = Some t)"
proof -
  obtain c where c: "computeMIC E key m = Some c" "length c = 4"
    using computeMIC_total [OF assms] by blast
  have "c = t \<longleftrightarrow> length t = 4 \<and> (\<forall>i \<in> set [0..<4]. c ! i = t ! i)"
    using c(2) by (auto simp: list_eq_iff_nth_eq)
  with c show ?thesis
    by (simp add: verifyMIC_def CMAC_MIC_SIZE_def foldl_conj del: upt_rec_numeral)
qed

interpretation cmac: mac_alg "\<lambda>(E, key). cipher_laws E \<and> (length key = 16 \<or> length key = 32)"
    "\<lambda>(E, key). computeMIC E key" "\<lambda>(E, key). verifyMIC E key"
proof unfold_locales
  show "\<exists>t. (case k of (E, key) \<Rightarrow> computeMIC E key) m = Some t \<and> length t = 4"
    if "case k of (E, key) \<Rightarrow> cipher_laws E \<and> (length key = 16 \<or> length key = 32)" for k m
    using that computeMIC_total by (cases k) simp
  show "(case k of (E, key) \<Rightarrow> verifyMIC E key) m t = Some ((case k of (E, key) \<Rightarrow> computeMIC E key) m = Some t)"
    if "case k of (E, key) \<Rightarrow> cipher_laws E \<and> (length key = 16 \<or> length key = 32)" for k m t
    using that verifyMIC_eq by (cases k) simp
qed

text \<open>A key of 24 bytes passes the size test and is then refused by the block function: the
  code indexes an empty vector.\<close>

lemma computeCMAC_24: "length key = 24 \<Longrightarrow> computeCMAC E key data = None"
  by (auto simp: computeCMAC_def generateSubkeys_def aesEncryptBlock_def next_subkey_def AES_BLOCK_SIZE_def)

text \<open>Verification accepts a received code exactly when it is the code computed for the same
  key and data: 4 bytes long and equal to the first 4 bytes of the RFC 4493 tag. A key of 24
  bytes, which the documentation of the function admits, leads to an access outside a vector.\<close>

theorem verifyMIC_iff:
  assumes E: "cipher_laws E" and data: "data \<noteq> []"
  shows "(length key = 16 \<or> length key = 32 \<longrightarrow>
      verifyMIC E key data mic = Some (mic = take 4 (cmac_rfc (E key) data) \<and> length mic = 4)) \<and>
    (length key = 24 \<longrightarrow> length mic = 4 \<longrightarrow> verifyMIC E key data mic = None)"
proof (intro conjI impI)
  assume key: "length key = 16 \<or> length key = 32"
  have c: "computeCMAC E key data = Some (cmac_rfc (E key) data)" by (rule computeCMAC_rfc [OF E key data])
  then have l: "length (cmac_rfc (E key) data) = 16" using length_computeCMAC [OF E key, of data] by simp
  then have "computeMIC E key data = Some (take 4 (cmac_rfc (E key) data))"
    by (simp add: computeMIC_def c CMAC_MIC_SIZE_def)
  then show "verifyMIC E key data mic = Some (mic = take 4 (cmac_rfc (E key) data) \<and> length mic = 4)"
    using cmac.verify_law [of "(E, key)" data mic] E key l by auto
next
  assume "length key = 24" and "length mic = 4"
  then show "verifyMIC E key data mic = None"
    by (simp add: verifyMIC_def computeMIC_def computeCMAC_24 CMAC_MIC_SIZE_def)
qed

lemma verifyMIC_iff_witness:
  "verifyMIC toy_cipher (replicate 32 7) [1, 2, 3] (take 4 (cmac_rfc (toy_cipher (replicate 32 7)) [1, 2, 3])) =
      Some (length (take 4 (cmac_rfc (toy_cipher (replicate 32 7)) [1, 2, 3])) = 4) \<and>
   verifyMIC toy_cipher (replicate 24 7) [1, 2, 3] [0, 0, 0, 0] = None"
  using conjunct1 [OF verifyMIC_iff [OF toy_cipher_laws, of "[1, 2, 3]" "replicate 32 7"]]
    conjunct2 [OF verifyMIC_iff [OF toy_cipher_laws, of "[1, 2, 3]" "replicate 24 7"]]
  by simp

end
