(* ===== verification/RM_AesCrypto.thy ===== *)
theory RM_AesCrypto
  imports RM_Types RM_AesCmac
begin

text \<open>
  The AES component of \<open>src/src/core/protocol/inc/crypto/aes/AesCrypto.h\<close> and
  \<open>src/src/core/protocol/src/crypto/aes/AesCrypto.cpp\<close>, which implements the interface
  \<open>src/src/framework/interfaces/ICrypto.h\<close>. The cryptographic library is a record of functions:
    \<^item> \<open>cl_ctr encrypting key iv counterSize history chunk\<close> is what the CTR object returns for a
      chunk, given the chunks it was given since its IV was set;
    \<^item> \<open>cl_aes\<close> is the block cipher, \<open>cl_curve private public\<close> is \<open>Curve25519::eval\<close>
      (\<open>None\<close> where it returns false), \<open>cl_curve_base private\<close> the same call with a null point,
      which stands for the base point, and \<open>cl_sha256\<close> the digest.
  \<open>ctr_laws\<close> states what the documentation of a CTR mode says: the output is as long as the
  input, and decrypting in the same position inverts encryption. The locale \<open>crypto_box\<close> is the
  contract of the interface.
\<close>

record crypto_lib =
  cl_ctr :: "bool \<Rightarrow> bytes \<Rightarrow> bytes \<Rightarrow> nat \<Rightarrow> bytes list \<Rightarrow> bytes \<Rightarrow> bytes"
  cl_aes :: cipher
  cl_curve :: "bytes \<Rightarrow> bytes \<Rightarrow> bytes option"
  cl_curve_base :: "bytes \<Rightarrow> bytes option"
  cl_sha256 :: "bytes \<Rightarrow> bytes"

definition ctr_laws :: "crypto_lib \<Rightarrow> bool" where
  "ctr_laws lib \<longleftrightarrow>
     (\<forall>dir key iv n h x. length (cl_ctr lib dir key iv n h x) = length x) \<and>
     (\<forall>key iv n h h' x. map length h = map length h' \<longrightarrow>
        cl_ctr lib False key iv n h' (cl_ctr lib True key iv n h x) = x)"

section \<open>State and operations\<close>

definition AES_KEY_SIZE :: nat where "AES_KEY_SIZE = 32"
definition AES_IV_SIZE :: nat where "AES_IV_SIZE = 16"
definition AES_COUNTER_SIZE :: nat where "AES_COUNTER_SIZE = 4"

record aes_crypto =
  aes_params :: security_params

definition AesCrypto :: aes_crypto where
  "AesCrypto = \<lparr>aes_params = default_security_params\<rparr>"

definition setParams :: "security_params \<Rightarrow> aes_crypto \<Rightarrow> rc \<times> aes_crypto" where
  "setParams p s =
     (if length (sp_key p) \<noteq> AES_KEY_SIZE then (RM_E_INVALID_PARAM, s)
      else if length (sp_iv p) \<noteq> AES_IV_SIZE then (RM_E_INVALID_PARAM, s)
      else (RM_E_NONE, s\<lparr>aes_params := (aes_params s)\<lparr>sp_key := sp_key p, sp_iv := sp_iv p\<rparr>\<rparr>))"

definition resetSecurityParams :: "security_params \<Rightarrow> aes_crypto \<Rightarrow> rc \<times> aes_crypto" where
  "resetSecurityParams p s = setParams p s"

text \<open>The loop over the chunks of at most a block.\<close>

function ctr_loop :: "crypto_lib \<Rightarrow> bool \<Rightarrow> bytes \<Rightarrow> bytes \<Rightarrow> bytes list \<Rightarrow> bytes \<Rightarrow> bytes" where
  "ctr_loop lib encrypting key iv h data =
     (if data = [] then []
      else cl_ctr lib encrypting key iv AES_COUNTER_SIZE h (take AES_BLOCK_SIZE data) @
           ctr_loop lib encrypting key iv (h @ [take AES_BLOCK_SIZE data]) (drop AES_BLOCK_SIZE data))"
  by pat_completeness auto
termination
  by (relation "measure (\<lambda>(_, _, _, _, _, data). length data)") (auto simp: AES_BLOCK_SIZE_def)

declare ctr_loop.simps [simp del]

text \<open>\<open>setKey\<close> and \<open>setIV\<close> read 32 and 16 bytes from the stored vectors, whatever their
  size.\<close>

definition aes_encrypt :: "crypto_lib \<Rightarrow> bytes \<Rightarrow> aes_crypto \<Rightarrow> bytes option" where
  "aes_encrypt lib clearData s = do {
     guard_ok (AES_KEY_SIZE \<le> length (sp_key (aes_params s)));
     guard_ok (AES_IV_SIZE \<le> length (sp_iv (aes_params s)));
     Some (ctr_loop lib True (take AES_KEY_SIZE (sp_key (aes_params s)))
             (take AES_IV_SIZE (sp_iv (aes_params s))) [] clearData) }"

definition aes_decrypt :: "crypto_lib \<Rightarrow> bytes \<Rightarrow> aes_crypto \<Rightarrow> bytes option" where
  "aes_decrypt lib encryptedData s = do {
     guard_ok (AES_KEY_SIZE \<le> length (sp_key (aes_params s)));
     guard_ok (AES_IV_SIZE \<le> length (sp_iv (aes_params s)));
     Some (ctr_loop lib False (take AES_KEY_SIZE (sp_key (aes_params s)))
             (take AES_IV_SIZE (sp_iv (aes_params s))) [] encryptedData) }"

section \<open>Round trip\<close>

lemma ctr_length: "ctr_laws lib \<Longrightarrow> length (cl_ctr lib dir key iv n h x) = length x"
  by (simp add: ctr_laws_def)

lemma ctr_inverse:
  "ctr_laws lib \<Longrightarrow> map length h = map length h' \<Longrightarrow>
   cl_ctr lib False key iv n h' (cl_ctr lib True key iv n h x) = x"
  by (simp add: ctr_laws_def)

lemma length_ctr_loop:
  assumes lib: "ctr_laws lib"
  shows "length (ctr_loop lib dir key iv h data) = length data"
proof (induction data arbitrary: h rule: length_induct)
  case (1 data)
  show ?case
  proof (cases "data = []")
    case False
    then have "length (drop AES_BLOCK_SIZE data) < length data" by (simp add: AES_BLOCK_SIZE_def)
    then show ?thesis using 1
      by (subst ctr_loop.simps) (simp add: ctr_length [OF lib] min_def)
  qed (simp add: ctr_loop.simps)
qed

lemma ctr_loop_inverse:
  assumes lib: "ctr_laws lib" and "map length h = map length h'"
  shows "ctr_loop lib False key iv h' (ctr_loop lib True key iv h data) = data"
  using assms(2)
proof (induction data arbitrary: h h' rule: length_induct)
  case (1 data)
  show ?case
  proof (cases "data = []")
    case False
    let ?x = "take AES_BLOCK_SIZE data" and ?y = "drop AES_BLOCK_SIZE data"
    let ?cx = "cl_ctr lib True key iv AES_COUNTER_SIZE h ?x"
    let ?cy = "ctr_loop lib True key iv (h @ [?x]) ?y"
    have e: "ctr_loop lib True key iv h data = ?cx @ ?cy"
      using False by (subst ctr_loop.simps) simp
    have lx: "length ?cx = length ?x" and ly: "length ?cy = length ?y"
      by (simp_all add: ctr_length [OF lib] length_ctr_loop [OF lib])
    have ne: "?cx @ ?cy \<noteq> []"
      using False lx by (metis append_is_Nil_conv length_0_conv take_eq_Nil AES_BLOCK_SIZE_def zero_neq_numeral)
    have tk: "take AES_BLOCK_SIZE (?cx @ ?cy) = ?cx" and dr: "drop AES_BLOCK_SIZE (?cx @ ?cy) = ?cy"
      using lx ly by (cases "length data \<le> AES_BLOCK_SIZE"; simp add: min_def)+
    have "length ?y < length data" using False by (simp add: AES_BLOCK_SIZE_def)
    moreover have "map length (h @ [?x]) = map length (h' @ [?cx])" using lx 1 by simp
    ultimately have "ctr_loop lib False key iv (h' @ [?cx]) ?cy = ?y" using 1 by blast
    moreover have "cl_ctr lib False key iv AES_COUNTER_SIZE h' ?cx = ?x"
      using ctr_inverse [OF lib] 1 by blast
    ultimately show ?thesis
      unfolding e by (subst ctr_loop.simps) (simp only: ne if_False tk dr append_take_drop_id)
  qed (simp add: ctr_loop.simps)
qed

definition aes_ready :: "aes_crypto \<Rightarrow> bool" where
  "aes_ready s \<longleftrightarrow> length (sp_key (aes_params s)) = AES_KEY_SIZE \<and>
     length (sp_iv (aes_params s)) = AES_IV_SIZE"

lemma setParams_cases:
  "setParams p s = (if length (sp_key p) = 32 \<and> length (sp_iv p) = 16
     then (RM_E_NONE, s\<lparr>aes_params := (aes_params s)\<lparr>sp_key := sp_key p, sp_iv := sp_iv p\<rparr>\<rparr>)
     else (RM_E_INVALID_PARAM, s))"
  by (simp add: setParams_def AES_KEY_SIZE_def AES_IV_SIZE_def)

lemma setParams_ready: "setParams p s = (RM_E_NONE, s') \<Longrightarrow> aes_ready s'"
  by (auto simp: setParams_cases aes_ready_def AES_KEY_SIZE_def AES_IV_SIZE_def split: if_splits)

lemma aes_encrypt_ready:
  "aes_ready s \<Longrightarrow> aes_encrypt lib x s = Some (ctr_loop lib True (sp_key (aes_params s)) (sp_iv (aes_params s)) [] x)"
  by (simp add: aes_encrypt_def aes_ready_def)

lemma aes_decrypt_ready:
  "aes_ready s \<Longrightarrow> aes_decrypt lib x s = Some (ctr_loop lib False (sp_key (aes_params s)) (sp_iv (aes_params s)) [] x)"
  by (simp add: aes_decrypt_def aes_ready_def)

section \<open>The contract of the interface\<close>

locale crypto_box =
  fixes lawful :: "'l \<Rightarrow> bool"
    and ready :: "'s \<Rightarrow> bool"
    and reset_params :: "security_params \<Rightarrow> 's \<Rightarrow> rc \<times> 's"
    and enc :: "'l \<Rightarrow> bytes \<Rightarrow> 's \<Rightarrow> bytes option"
    and dec :: "'l \<Rightarrow> bytes \<Rightarrow> 's \<Rightarrow> bytes option"
  assumes reset_law: "reset_params p s = (r, s') \<Longrightarrow> r = RM_E_NONE \<and> ready s' \<or> r \<noteq> RM_E_NONE \<and> s' = s"
    and enc_law: "lawful l \<Longrightarrow> ready s \<Longrightarrow> \<exists>c. enc l x s = Some c \<and> length c = length x \<and> dec l c s = Some x"
begin

lemma enc_total: "lawful l \<Longrightarrow> ready s \<Longrightarrow> enc l x s \<noteq> None"
  using enc_law by fastforce

lemma enc_injective:
  "lawful l \<Longrightarrow> ready s \<Longrightarrow> enc l x s = enc l y s \<Longrightarrow> x = y"
  using enc_law [of l s x] enc_law [of l s y] by auto

lemma ready_stays: "ready s \<Longrightarrow> ready (snd (reset_params p s))"
  using reset_law [of p s "fst (reset_params p s)" "snd (reset_params p s)"] by auto

end

interpretation aes: crypto_box ctr_laws aes_ready resetSecurityParams aes_encrypt aes_decrypt
proof unfold_locales
  fix p s r s'
  assume "resetSecurityParams p s = (r, s')"
  then show "r = RM_E_NONE \<and> aes_ready s' \<or> r \<noteq> RM_E_NONE \<and> s' = s"
    using setParams_ready [of p s s'] by (auto simp: resetSecurityParams_def setParams_cases split: if_splits)
next
  fix lib s x
  assume "ctr_laws lib" and "aes_ready s"
  then show "\<exists>c. aes_encrypt lib x s = Some c \<and> length c = length x \<and> aes_decrypt lib c s = Some x"
    by (simp add: aes_encrypt_ready aes_decrypt_ready length_ctr_loop ctr_loop_inverse)
qed

text \<open>Once the parameters are accepted, encryption is total, keeps the length, and is undone by
  decryption under the same parameters; parameters with a key other than 32 bytes or a vector
  other than 16 bytes are refused and leave the stored ones in force; and with no parameters ever
  accepted, both operations read outside the stored vectors.\<close>

theorem aes_roundtrip:
  assumes lib: "ctr_laws lib"
  shows "(fst (setParams p s) = RM_E_NONE \<longleftrightarrow> length (sp_key p) = 32 \<and> length (sp_iv p) = 16) \<and>
    (fst (setParams p s) = RM_E_NONE \<longrightarrow>
       (\<exists>c. aes_encrypt lib x (snd (setParams p s)) = Some c \<and> length c = length x \<and>
            aes_decrypt lib c (snd (setParams p s)) = Some x)) \<and>
    (fst (setParams p s) \<noteq> RM_E_NONE \<longrightarrow> snd (setParams p s) = s) \<and>
    aes_encrypt lib x AesCrypto = None \<and> aes_decrypt lib x AesCrypto = None"
proof (intro conjI impI)
  show "fst (setParams p s) = RM_E_NONE \<longleftrightarrow> length (sp_key p) = 32 \<and> length (sp_iv p) = 16"
    by (simp add: setParams_cases)
next
  assume "fst (setParams p s) = RM_E_NONE"
  then have "aes_ready (snd (setParams p s))" using setParams_ready [of p s] by (metis prod.collapse)
  then show "\<exists>c. aes_encrypt lib x (snd (setParams p s)) = Some c \<and> length c = length x \<and>
      aes_decrypt lib c (snd (setParams p s)) = Some x"
    by (rule aes.enc_law [OF lib])
next
  assume "fst (setParams p s) \<noteq> RM_E_NONE"
  then show "snd (setParams p s) = s" by (auto simp: setParams_cases split: if_splits)
next
  show "aes_encrypt lib x AesCrypto = None" and "aes_decrypt lib x AesCrypto = None"
    by (simp_all add: aes_encrypt_def aes_decrypt_def AesCrypto_def default_security_params_def AES_KEY_SIZE_def)
qed

text \<open>A concrete library for the witnesses: a keystream that depends on the key and on the number
  of bytes before the chunk, a commutative key agreement, and a digest of 32 bytes.\<close>

definition toy_lib :: crypto_lib where
  "toy_lib = \<lparr>
     cl_ctr = (\<lambda>dir key iv n h x. map (\<lambda>b. b XOR of_nat (sum_list (map unat key) + sum_list (map length h))) x),
     cl_aes = toy_cipher,
     cl_curve = (\<lambda>priv pub. Some (map2 (XOR) priv pub)),
     cl_curve_base = Some,
     cl_sha256 = (\<lambda>x. take 32 (x @ replicate 32 0))\<rparr>"

lemma toy_ctr_laws: "ctr_laws toy_lib"
  by (simp add: ctr_laws_def toy_lib_def comp_def xor.assoc)

lemma aes_roundtrip_witness:
  "\<exists>c. aes_encrypt toy_lib [1, 2, 3] (snd (setParams \<lparr>sp_key = replicate 32 9, sp_iv = replicate 16 0,
       sp_method = SEC_AES\<rparr> AesCrypto)) = Some c \<and> length c = 3"
  using aes_roundtrip [OF toy_ctr_laws, of "\<lparr>sp_key = replicate 32 9, sp_iv = replicate 16 0, sp_method = SEC_AES\<rparr>"
      AesCrypto "[1, 2, 3]"]
  by auto

end
