(* ===== verification/RM_EncryptionService.thy ===== *)
theory RM_EncryptionService
  imports RM_AesCrypto
begin

text \<open>
  The encryption service: \<open>src/src/core/protocol/inc/crypto/EncryptionService.h\<close> and
  \<open>src/src/core/protocol/src/crypto/EncryptionService.cpp\<close>. Its state is five keys; the AES
  component is a singleton that it reconfigures for every call, so its state is passed through.
  The method and the key are chosen by topic, device type and inclusion state. Key agreement and
  digest come from the library record; \<open>ecdh_laws\<close> states that two key pairs of the library
  agree on a secret, and \<open>sha_laws\<close> that a digest has 32 bytes.
\<close>

definition sha_laws :: "crypto_lib \<Rightarrow> bool" where
  "sha_laws lib \<longleftrightarrow> (\<forall>x. length (cl_sha256 lib x) = 32)"

definition ecdh_laws :: "crypto_lib \<Rightarrow> (bytes \<Rightarrow> bytes \<Rightarrow> bool) \<Rightarrow> bool" where
  "ecdh_laws lib keypair \<longleftrightarrow>
     (\<forall>a A. keypair a A \<longrightarrow> length a = 32 \<and> length A = 32) \<and>
     (\<forall>a A b B. keypair a A \<longrightarrow> keypair b B \<longrightarrow>
        cl_curve lib a B = cl_curve lib b A \<and> cl_curve lib a B \<noteq> None)"

section \<open>State\<close>

record encryption_service =
  networkKey :: bytes
  devicePrivateKey :: bytes
  devicePublicKey :: bytes
  hubPublicKey :: bytes
  tempDevicePublicKey :: bytes

definition EncryptionService :: encryption_service where
  "EncryptionService = \<lparr>networkKey = [], devicePrivateKey = [], devicePublicKey = [],
     hubPublicKey = [], tempDevicePublicKey = []\<rparr>"

datatype encryption_method = M_NONE | M_DIRECT_ECC | M_AES

section \<open>Keys\<close>

definition setNetworkKey :: "bytes \<Rightarrow> encryption_service \<Rightarrow> encryption_service" where
  "setNetworkKey key es = es\<lparr>networkKey := key\<rparr>"

definition setDeviceKeys :: "bytes \<Rightarrow> bytes \<Rightarrow> encryption_service \<Rightarrow> encryption_service" where
  "setDeviceKeys privateKey publicKey es =
     (if length privateKey \<noteq> 32 then es
      else if length publicKey \<noteq> 32 then es
      else es\<lparr>devicePrivateKey := privateKey, devicePublicKey := publicKey\<rparr>)"

definition setHubPublicKey :: "bytes \<Rightarrow> encryption_service \<Rightarrow> encryption_service" where
  "setHubPublicKey hubKey es = (if length hubKey \<noteq> 32 then es else es\<lparr>hubPublicKey := hubKey\<rparr>)"

definition setTempDevicePublicKey :: "bytes \<Rightarrow> encryption_service \<Rightarrow> encryption_service" where
  "setTempDevicePublicKey deviceKey es =
     (if length deviceKey \<noteq> 32 then es else es\<lparr>tempDevicePublicKey := deviceKey\<rparr>)"

definition determineCryptoMethod :: "byte \<Rightarrow> device_type \<Rightarrow> inclusion_state \<Rightarrow> encryption_method" where
  "determineCryptoMethod topic dt st =
     (if topic = T_INCLUDE_OPEN then M_NONE
      else if topic = T_INCLUDE_REQUEST then M_NONE
      else if topic = T_INCLUDE_RESPONSE then M_DIRECT_ECC
      else if topic = T_INCLUDE_CONFIRM then M_AES
      else if topic = T_INCLUDE_SUCCESS then M_AES
      else if st = INCLUDED \<or> dt = HUB then M_AES
      else M_NONE)"

definition getEncryptionKey :: "encryption_service \<Rightarrow> encryption_method \<Rightarrow> byte \<Rightarrow> device_type \<Rightarrow> bytes" where
  "getEncryptionKey es meth topic dt =
     (case meth of
        M_DIRECT_ECC \<Rightarrow>
          (if topic = T_INCLUDE_REQUEST then hubPublicKey es
           else if topic = T_INCLUDE_RESPONSE then tempDevicePublicKey es
           else [])
      | M_AES \<Rightarrow> networkKey es
      | M_NONE \<Rightarrow> [])"

definition getDecryptionKey :: "encryption_service \<Rightarrow> encryption_method \<Rightarrow> byte \<Rightarrow> device_type \<Rightarrow> bytes" where
  "getDecryptionKey es meth topic dt =
     (case meth of
        M_DIRECT_ECC \<Rightarrow>
          (if topic = T_INCLUDE_REQUEST then (if dt = HUB then devicePrivateKey es else [])
           else if topic = T_INCLUDE_RESPONSE then (if dt = STANDARD then devicePrivateKey es else [])
           else [])
      | M_AES \<Rightarrow> networkKey es
      | M_NONE \<Rightarrow> [])"

section \<open>Encryption and decryption\<close>

definition aes_call_params :: "bytes \<Rightarrow> security_params" where
  "aes_call_params key = \<lparr>sp_key = key, sp_iv = replicate 16 0, sp_method = SEC_AES\<rparr>"

text \<open>The return code of \<open>setParams\<close> is not looked at.\<close>

definition encryptAES :: "crypto_lib \<Rightarrow> bytes \<Rightarrow> bytes \<Rightarrow> aes_crypto \<Rightarrow> (bytes \<times> aes_crypto) option" where
  "encryptAES lib data key aes = do {
     let aes1 = snd (setParams (aes_call_params key) aes);
     r \<leftarrow> aes_encrypt lib data aes1;
     Some (r, aes1) }"

definition decryptAES :: "crypto_lib \<Rightarrow> bytes \<Rightarrow> bytes \<Rightarrow> aes_crypto \<Rightarrow> (bytes \<times> aes_crypto) option" where
  "decryptAES lib data key aes = do {
     let aes1 = snd (setParams (aes_call_params key) aes);
     r \<leftarrow> aes_decrypt lib data aes1;
     Some (r, aes1) }"

definition encryptDirectECC ::
  "crypto_lib \<Rightarrow> encryption_service \<Rightarrow> bytes \<Rightarrow> bytes \<Rightarrow> aes_crypto \<Rightarrow> (bytes \<times> aes_crypto) option" where
  "encryptDirectECC lib es data publicKey aes =
     (if length publicKey \<noteq> 32 then Some (data, aes)
      else if length (devicePrivateKey es) \<noteq> 32 then Some (data, aes)
      else case cl_curve lib (devicePrivateKey es) publicKey of
             None \<Rightarrow> Some (data, aes)
           | Some sharedSecret \<Rightarrow> do {
               (encryptedData, aes1) \<leftarrow> encryptAES lib data (cl_sha256 lib sharedSecret) aes;
               Some (if encryptedData = [] then data else encryptedData, aes1) })"

definition sender_public_key :: "encryption_service \<Rightarrow> bytes" where
  "sender_public_key es =
     (if hubPublicKey es \<noteq> [] then hubPublicKey es
      else if tempDevicePublicKey es \<noteq> [] then tempDevicePublicKey es
      else [])"

definition decryptDirectECC ::
  "crypto_lib \<Rightarrow> encryption_service \<Rightarrow> bytes \<Rightarrow> bytes \<Rightarrow> aes_crypto \<Rightarrow> (bytes \<times> aes_crypto) option" where
  "decryptDirectECC lib es data privateKey aes =
     (if data = [] then Some (data, aes)
      else if length privateKey \<noteq> 32 then Some (data, aes)
      else if sender_public_key es = [] then Some (data, aes)
      else if length (sender_public_key es) \<noteq> 32 then Some (data, aes)
      else case cl_curve lib privateKey (sender_public_key es) of
             None \<Rightarrow> Some (data, aes)
           | Some sharedSecret \<Rightarrow> decryptAES lib data (cl_sha256 lib sharedSecret) aes)"

definition es_encrypt ::
  "crypto_lib \<Rightarrow> encryption_service \<Rightarrow> bytes \<Rightarrow> byte \<Rightarrow> device_type \<Rightarrow> inclusion_state \<Rightarrow> aes_crypto \<Rightarrow>
   (bytes \<times> aes_crypto) option" where
  "es_encrypt lib es data topic dt st aes =
     (let meth = determineCryptoMethod topic dt st in
      if meth = M_NONE \<and> data = [] then Some (data, aes)
      else case meth of
        M_NONE \<Rightarrow> Some (data, aes)
      | M_DIRECT_ECC \<Rightarrow>
          (let key = getEncryptionKey es meth topic dt in
           if key = [] then Some (data, aes) else encryptDirectECC lib es data key aes)
      | M_AES \<Rightarrow>
          (let key = getEncryptionKey es meth topic dt in
           if key = [] then Some (data, aes) else encryptAES lib data key aes))"

definition es_decrypt ::
  "crypto_lib \<Rightarrow> encryption_service \<Rightarrow> bytes \<Rightarrow> byte \<Rightarrow> device_type \<Rightarrow> inclusion_state \<Rightarrow> aes_crypto \<Rightarrow>
   (bytes \<times> aes_crypto) option" where
  "es_decrypt lib es data topic dt st aes =
     (if data = [] then Some (data, aes)
      else let meth = determineCryptoMethod topic dt st in
      case meth of
        M_NONE \<Rightarrow> Some (data, aes)
      | M_DIRECT_ECC \<Rightarrow>
          (let key = getDecryptionKey es meth topic dt in
           if key = [] then Some (data, aes) else decryptDirectECC lib es data key aes)
      | M_AES \<Rightarrow>
          (let key = getDecryptionKey es meth topic dt in
           if key = [] then Some (data, aes) else decryptAES lib data key aes))"

section \<open>AES calls\<close>

text \<open>The keystream cipher of an AES call under a 32-byte key: what every message under that key
  is encrypted with, independent of the state of the AES component.\<close>

definition box :: "crypto_lib \<Rightarrow> bytes \<Rightarrow> bytes \<Rightarrow> bytes" where
  "box lib key data = ctr_loop lib True key (replicate 16 0) [] data"

definition unbox :: "crypto_lib \<Rightarrow> bytes \<Rightarrow> bytes \<Rightarrow> bytes" where
  "unbox lib key data = ctr_loop lib False key (replicate 16 0) [] data"

definition aes_with :: "bytes \<Rightarrow> aes_crypto \<Rightarrow> aes_crypto" where
  "aes_with key aes = aes\<lparr>aes_params := (aes_params aes)\<lparr>sp_key := key, sp_iv := replicate 16 0\<rparr>\<rparr>"

lemma setParams_call: "length key = 32 \<Longrightarrow> setParams (aes_call_params key) aes = (RM_E_NONE, aes_with key aes)"
  by (simp add: setParams_cases aes_call_params_def aes_with_def)

lemma aes_with_ready: "length key = 32 \<Longrightarrow> aes_ready (aes_with key aes)"
  by (simp add: aes_ready_def aes_with_def AES_KEY_SIZE_def AES_IV_SIZE_def)

lemma encryptAES_ok: "length key = 32 \<Longrightarrow> encryptAES lib data key aes = Some (box lib key data, aes_with key aes)"
  by (simp add: encryptAES_def setParams_call aes_encrypt_ready aes_with_ready) (simp add: aes_with_def box_def)

lemma decryptAES_ok: "length key = 32 \<Longrightarrow> decryptAES lib data key aes = Some (unbox lib key data, aes_with key aes)"
  by (simp add: decryptAES_def setParams_call aes_decrypt_ready aes_with_ready) (simp add: aes_with_def unbox_def)

lemma unbox_box [simp]: "ctr_laws lib \<Longrightarrow> unbox lib key (box lib key data) = data"
  by (simp add: unbox_def box_def ctr_loop_inverse)

lemma length_box: "ctr_laws lib \<Longrightarrow> length (box lib key data) = length data"
  by (simp add: box_def length_ctr_loop)

lemma box_Nil_iff: "ctr_laws lib \<Longrightarrow> box lib key data = [] \<longleftrightarrow> data = []"
  using length_box [of lib key data] by auto

section \<open>Messages under the network key\<close>

text \<open>The topics that are encrypted with the network key by a device in the given role.\<close>

lemma method_AES_iff:
  "determineCryptoMethod topic dt st = M_AES \<longleftrightarrow>
     topic \<in> {T_INCLUDE_CONFIRM, T_INCLUDE_SUCCESS} \<or>
     topic \<notin> {T_INCLUDE_OPEN, T_INCLUDE_REQUEST, T_INCLUDE_RESPONSE} \<and> (st = INCLUDED \<or> dt = HUB)"
  by (simp add: determineCryptoMethod_def)

lemma method_ECC_iff: "determineCryptoMethod topic dt st = M_DIRECT_ECC \<longleftrightarrow> topic = T_INCLUDE_RESPONSE"
  by (simp add: determineCryptoMethod_def)

lemma method_NONE_iff:
  "determineCryptoMethod topic dt st = M_NONE \<longleftrightarrow>
     topic \<in> {T_INCLUDE_OPEN, T_INCLUDE_REQUEST} \<or>
     topic \<notin> {T_INCLUDE_RESPONSE, T_INCLUDE_CONFIRM, T_INCLUDE_SUCCESS} \<and> st \<noteq> INCLUDED \<and> dt \<noteq> HUB"
  by (simp add: determineCryptoMethod_def)

lemma es_encrypt_AES:
  assumes "determineCryptoMethod topic dt st = M_AES" and "length (networkKey es) = 32"
  shows "es_encrypt lib es data topic dt st aes =
    Some (box lib (networkKey es) data, aes_with (networkKey es) aes)"
  using assms by (auto simp: es_encrypt_def Let_def getEncryptionKey_def encryptAES_ok)

lemma es_decrypt_AES:
  assumes "determineCryptoMethod topic dt st = M_AES" and "length (networkKey es) = 32" and "data \<noteq> []"
  shows "es_decrypt lib es data topic dt st aes =
    Some (unbox lib (networkKey es) data, aes_with (networkKey es) aes)"
  using assms by (auto simp: es_decrypt_def Let_def getDecryptionKey_def decryptAES_ok)

lemma es_encrypt_NONE:
  "determineCryptoMethod topic dt st = M_NONE \<Longrightarrow> es_encrypt lib es data topic dt st aes = Some (data, aes)"
  by (simp add: es_encrypt_def Let_def)

lemma es_decrypt_NONE:
  "determineCryptoMethod topic dt st = M_NONE \<Longrightarrow> es_decrypt lib es data topic dt st aes = Some (data, aes)"
  by (simp add: es_decrypt_def Let_def)

text \<open>A message that sender and receiver both treat under the network key is recovered exactly:
  whatever the AES component was last used for on either side, encryption succeeds, keeps the
  length, and the receiver's decryption returns the sender's data.\<close>

theorem network_message_roundtrip:
  assumes lib: "ctr_laws lib" and key: "length (networkKey es1) = 32" "networkKey es2 = networkKey es1"
    and m1: "determineCryptoMethod topic dt1 st1 = M_AES"
    and m2: "determineCryptoMethod topic dt2 st2 = M_AES"
  shows "\<exists>c a1 a2. es_encrypt lib es1 data topic dt1 st1 aes1 = Some (c, a1) \<and> length c = length data \<and>
    es_decrypt lib es2 c topic dt2 st2 aes2 = Some (data, a2)"
proof (cases "data = []")
  case True
  then show ?thesis using es_encrypt_AES [OF m1 key(1)] box_Nil_iff [OF lib] by (simp add: es_decrypt_def Let_def)
next
  case False
  then show ?thesis
    using es_encrypt_AES [OF m1 key(1)] es_decrypt_AES [OF m2] key lib
    by (simp add: length_box box_Nil_iff)
qed

definition toy_hub :: encryption_service where
  "toy_hub = EncryptionService\<lparr>networkKey := replicate 32 5, devicePrivateKey := replicate 32 1,
     devicePublicKey := replicate 32 1, tempDevicePublicKey := replicate 32 2\<rparr>"

definition toy_device :: encryption_service where
  "toy_device = EncryptionService\<lparr>networkKey := replicate 32 5, devicePrivateKey := replicate 32 2,
     devicePublicKey := replicate 32 2, hubPublicKey := replicate 32 1\<rparr>"

lemma network_message_roundtrip_witness:
  "\<exists>c a1 a2. es_encrypt toy_lib toy_device [1, 2, 3] 0x20 STANDARD INCLUDED AesCrypto = Some (c, a1) \<and>
    length c = length [1, 2, 3 :: byte] \<and> es_decrypt toy_lib toy_hub c 0x20 HUB NOT_INCLUDED AesCrypto = Some ([1, 2, 3], a2)"
  by (rule network_message_roundtrip [OF toy_ctr_laws])
    (simp_all add: toy_hub_def toy_device_def determineCryptoMethod_def)

section \<open>The inclusion response\<close>

lemma encryptDirectECC_ok:
  assumes lib: "ctr_laws lib" "sha_laws lib" and len: "length pub = 32" "length (devicePrivateKey es) = 32"
    and sh: "cl_curve lib (devicePrivateKey es) pub = Some sec" and ne: "data \<noteq> []"
  shows "encryptDirectECC lib es data pub aes =
    Some (box lib (cl_sha256 lib sec) data, aes_with (cl_sha256 lib sec) aes)"
  using assms by (simp add: encryptDirectECC_def encryptAES_ok box_Nil_iff sha_laws_def)

lemma decryptDirectECC_ok:
  assumes lib: "sha_laws lib" and len: "length priv = 32" "length (sender_public_key es) = 32"
    and sh: "cl_curve lib priv (sender_public_key es) = Some sec" and ne: "data \<noteq> []"
  shows "decryptDirectECC lib es data priv aes =
    Some (unbox lib (cl_sha256 lib sec) data, aes_with (cl_sha256 lib sec) aes)"
  using assms by (auto simp: decryptDirectECC_def decryptAES_ok sha_laws_def)

lemma es_encrypt_response:
  assumes lib: "ctr_laws lib" "sha_laws lib" and len: "length (tempDevicePublicKey es) = 32" "length (devicePrivateKey es) = 32"
    and sh: "cl_curve lib (devicePrivateKey es) (tempDevicePublicKey es) = Some sec" and ne: "data \<noteq> []"
  shows "es_encrypt lib es data T_INCLUDE_RESPONSE dt st aes =
    Some (box lib (cl_sha256 lib sec) data, aes_with (cl_sha256 lib sec) aes)"
  using assms encryptDirectECC_ok [OF lib len sh ne]
  by (auto simp: es_encrypt_def Let_def determineCryptoMethod_def getEncryptionKey_def)

lemma es_decrypt_response:
  assumes lib: "sha_laws lib" and len: "length (devicePrivateKey es) = 32" "length (hubPublicKey es) = 32"
    and sh: "cl_curve lib (devicePrivateKey es) (hubPublicKey es) = Some sec" and ne: "data \<noteq> []"
  shows "es_decrypt lib es data T_INCLUDE_RESPONSE STANDARD st aes =
    Some (unbox lib (cl_sha256 lib sec) data, aes_with (cl_sha256 lib sec) aes)"
proof -
  have "sender_public_key es = hubPublicKey es" using len by (auto simp: sender_public_key_def)
  then show ?thesis
    using assms decryptDirectECC_ok [OF lib len(1), of es sec data aes]
    by (auto simp: es_decrypt_def Let_def determineCryptoMethod_def getDecryptionKey_def)
qed

text \<open>The inclusion response reaches exactly the device it is for: when the hub holds the
  device's public key and the device holds the hub's, both taken from key pairs of the key
  agreement, what the hub encrypts for the response topic is what the device decrypts.\<close>

theorem response_roundtrip:
  assumes lib: "ctr_laws lib" "sha_laws lib" "ecdh_laws lib keypair"
    and hub: "keypair (devicePrivateKey hub) hubPub" and dev: "keypair (devicePrivateKey dev) devPub"
    and known: "tempDevicePublicKey hub = devPub" "hubPublicKey dev = hubPub" and ne: "data \<noteq> []"
  shows "\<exists>c a1 a2. es_encrypt lib hub data T_INCLUDE_RESPONSE HUB st1 aes1 = Some (c, a1) \<and>
    length c = length data \<and>
    es_decrypt lib dev c T_INCLUDE_RESPONSE STANDARD st2 aes2 = Some (data, a2)"
proof -
  have len: "length (devicePrivateKey hub) = 32" "length hubPub = 32" "length (devicePrivateKey dev) = 32"
      "length devPub = 32"
    using lib(3) hub dev by (auto simp: ecdh_laws_def)
  obtain sec where sec: "cl_curve lib (devicePrivateKey hub) devPub = Some sec"
      "cl_curve lib (devicePrivateKey dev) hubPub = Some sec"
    using lib(3) hub dev unfolding ecdh_laws_def by (metis option.exhaust)
  have enc: "es_encrypt lib hub data T_INCLUDE_RESPONSE HUB st1 aes1 =
      Some (box lib (cl_sha256 lib sec) data, aes_with (cl_sha256 lib sec) aes1)"
    by (rule es_encrypt_response [OF lib(1,2)]) (use known len sec ne in simp_all)
  have "es_decrypt lib dev (box lib (cl_sha256 lib sec) data) T_INCLUDE_RESPONSE STANDARD st2 aes2 =
      Some (unbox lib (cl_sha256 lib sec) (box lib (cl_sha256 lib sec) data), aes_with (cl_sha256 lib sec) aes2)"
    by (rule es_decrypt_response [OF lib(2)]) (use known len sec ne box_Nil_iff [OF lib(1)] in simp_all)
  with enc lib(1) show ?thesis by (simp add: length_box)
qed

definition toy_keypair :: "bytes \<Rightarrow> bytes \<Rightarrow> bool" where
  "toy_keypair a A \<longleftrightarrow> length a = 32 \<and> A = a"

lemma toy_sha_laws: "sha_laws toy_lib"
  by (simp add: sha_laws_def toy_lib_def min_def)

lemma toy_ecdh_laws: "ecdh_laws toy_lib toy_keypair"
  by (auto simp: ecdh_laws_def toy_keypair_def toy_lib_def list_eq_iff_nth_eq xor.commute)

lemma response_roundtrip_witness:
  "\<exists>c a1 a2. es_encrypt toy_lib toy_hub [7, 8] T_INCLUDE_RESPONSE HUB NOT_INCLUDED AesCrypto = Some (c, a1) \<and>
    length c = length [7, 8 :: byte] \<and>
    es_decrypt toy_lib toy_device c T_INCLUDE_RESPONSE STANDARD INCLUSION_PENDING AesCrypto = Some ([7, 8], a2)"
  by (rule response_roundtrip [OF toy_ctr_laws toy_sha_laws toy_ecdh_laws])
    (simp_all add: toy_hub_def toy_device_def toy_keypair_def)

section \<open>Where the service fails open\<close>

text \<open>The service never reports a failure: with no key for the chosen method the data go out in
  clear, and so does an inclusion response when the key agreement fails. With a network key of a
  wrong length (the setter takes any) the refusal of the parameters is not noticed, and the data
  are encrypted under the parameters of some earlier call, whatever key that was for.\<close>

theorem encrypt_fails_open:
  "(networkKey es = [] \<longrightarrow> determineCryptoMethod topic dt st = M_AES \<longrightarrow>
      es_encrypt lib es data topic dt st aes = Some (data, aes)) \<and>
   (tempDevicePublicKey es = [] \<or> length (devicePrivateKey es) \<noteq> 32 \<or>
      cl_curve lib (devicePrivateKey es) (tempDevicePublicKey es) = None \<longrightarrow>
      es_encrypt lib es data T_INCLUDE_RESPONSE dt st aes = Some (data, aes)) \<and>
   (length (networkKey es) \<notin> {0, 32} \<longrightarrow> determineCryptoMethod topic dt st = M_AES \<longrightarrow> aes_ready aes \<longrightarrow>
      es_encrypt lib es data topic dt st aes =
        Some (ctr_loop lib True (sp_key (aes_params aes)) (sp_iv (aes_params aes)) [] data, aes))"
proof (intro conjI impI)
  assume "networkKey es = []" and "determineCryptoMethod topic dt st = M_AES"
  then show "es_encrypt lib es data topic dt st aes = Some (data, aes)"
    by (simp add: es_encrypt_def Let_def getEncryptionKey_def)
next
  assume "tempDevicePublicKey es = [] \<or> length (devicePrivateKey es) \<noteq> 32 \<or>
      cl_curve lib (devicePrivateKey es) (tempDevicePublicKey es) = None"
  then show "es_encrypt lib es data T_INCLUDE_RESPONSE dt st aes = Some (data, aes)"
    by (auto simp: es_encrypt_def Let_def determineCryptoMethod_def getEncryptionKey_def encryptDirectECC_def)
next
  assume len: "length (networkKey es) \<notin> {0, 32}" and m: "determineCryptoMethod topic dt st = M_AES"
    and r: "aes_ready aes"
  have "setParams (aes_call_params (networkKey es)) aes = (RM_E_INVALID_PARAM, aes)"
    using len by (simp add: setParams_cases aes_call_params_def)
  with len m r show "es_encrypt lib es data topic dt st aes =
        Some (ctr_loop lib True (sp_key (aes_params aes)) (sp_iv (aes_params aes)) [] data, aes)"
    by (auto simp: es_encrypt_def Let_def getEncryptionKey_def encryptAES_def aes_encrypt_ready)
qed

lemma encrypt_fails_open_witness:
  "es_encrypt toy_lib EncryptionService [1, 2] T_INCLUDE_CONFIRM STANDARD INCLUSION_PENDING AesCrypto =
     Some ([1, 2], AesCrypto)"
  using conjunct1 [OF encrypt_fails_open [of EncryptionService T_INCLUDE_CONFIRM STANDARD INCLUSION_PENDING
      toy_lib "[1, 2]" AesCrypto]]
  by (simp add: EncryptionService_def determineCryptoMethod_def)

section \<open>Key storage\<close>

text \<open>The keys that are stored have the size Curve25519 requires.\<close>

definition es_inv :: "encryption_service \<Rightarrow> bool" where
  "es_inv es \<longleftrightarrow> length (devicePrivateKey es) \<in> {0, 32} \<and> length (devicePublicKey es) = length (devicePrivateKey es) \<and>
     length (hubPublicKey es) \<in> {0, 32} \<and> length (tempDevicePublicKey es) \<in> {0, 32}"

lemma es_inv_init: "es_inv EncryptionService"
  by (simp add: es_inv_def EncryptionService_def)

lemma es_inv_setters:
  assumes "es_inv es"
  shows "es_inv (setNetworkKey k es)" "es_inv (setDeviceKeys priv pub es)"
    "es_inv (setHubPublicKey k es)" "es_inv (setTempDevicePublicKey k es)"
  using assms by (simp_all add: es_inv_def setNetworkKey_def setDeviceKeys_def setHubPublicKey_def
      setTempDevicePublicKey_def)

end
