(* ===== verification/RM_KeyManager.thy ===== *)
theory RM_KeyManager
  imports RM_DeviceStorage RM_EncryptionService
begin

text \<open>
  The key manager: \<open>src/src/framework/device/inc/KeyManager.h\<close> and
  \<open>src/src/framework/device/src/KeyManager.cpp\<close>. It holds no state of its own that is used: the
  keys live in the device storage (\<open>RM_DeviceStorage\<close>). The chip identifier is a parameter, \<open>None\<close>
  on a platform other than the ESP32; the random source is that of \<open>RM_Utils\<close>. Key generation and
  derivation return the error code or the keys; the contents of the output vectors after a
  failure are not modelled, no caller reads them.
\<close>

definition PUBLIC_KEY_SIZE :: nat where "PUBLIC_KEY_SIZE = 32"
definition PRIVATE_KEY_SIZE :: nat where "PRIVATE_KEY_SIZE = 32"
definition NETWORK_KEY_SIZE :: nat where "NETWORK_KEY_SIZE = 32"

section \<open>Generating keys\<close>

definition key_seed :: "64 word option \<Rightarrow> u32" where
  "key_seed chip = (case chip of Some chipId \<Rightarrow> ucast (chipId XOR drop_bit 32 chipId) | None \<Rightarrow> 12345)"

fun lcg_bytes :: "nat \<Rightarrow> u32 \<Rightarrow> bytes" where
  "lcg_bytes 0 seed = []"
| "lcg_bytes (Suc n) seed =
     (let seed1 = seed * 1103515245 + 12345 in byte_of 16 seed1 # lcg_bytes n seed1)"

definition clamp_key :: "bytes \<Rightarrow> bytes" where
  "clamp_key key = (key[0 := key ! 0 AND 0xF8])[31 := (key ! 31 AND 0x7F) OR 0x40]"

definition generateDeterministicKey :: "64 word option \<Rightarrow> nat \<Rightarrow> bytes" where
  "generateDeterministicKey chip keySize =
     (let key = lcg_bytes keySize (key_seed chip) in if keySize = 32 then clamp_key key else key)"

text \<open>The pair is the public and the private key.\<close>

definition generateKeyPair :: "crypto_lib \<Rightarrow> 64 word option \<Rightarrow> rc + bytes \<times> bytes" where
  "generateKeyPair lib chip =
     (let privateKey = generateDeterministicKey chip 32 in
      case cl_curve_base lib privateKey of
        None \<Rightarrow> Inl RM_E_CRYPTO_SETUP
      | Some publicKey \<Rightarrow> Inr (publicKey, privateKey))"

definition derivePublicKey :: "crypto_lib \<Rightarrow> bytes \<Rightarrow> rc + bytes" where
  "derivePublicKey lib privateKey =
     (if length privateKey \<noteq> 32 then Inl RM_E_INVALID_PARAM
      else case cl_curve_base lib privateKey of
        None \<Rightarrow> Inl RM_E_CRYPTO_SETUP
      | Some publicKey \<Rightarrow> Inr publicKey)"

text \<open>A number of bytes from the random source, each \<open>random(256)\<close>.\<close>

fun random_bytes :: "rnd \<Rightarrow> nat \<Rightarrow> rng \<Rightarrow> bytes \<times> rng" where
  "random_bytes r 0 g = ([], g)"
| "random_bytes r (Suc n) g =
     (let (v, g1) = random_draw r 256 g; (bs, g2) = random_bytes r n g1 in (of_nat v # bs, g2))"

definition generateNetworkKey :: "rnd \<Rightarrow> rng \<Rightarrow> rc \<times> bytes \<times> rng" where
  "generateNetworkKey r g = (case random_bytes r NETWORK_KEY_SIZE g of (k, g1) \<Rightarrow> (RM_E_NONE, k, g1))"

section \<open>Validation and storage\<close>

definition validatePublicKey :: "bytes \<Rightarrow> bool" where
  "validatePublicKey publicKey \<longleftrightarrow> length publicKey = 32"

definition validatePrivateKey :: "bytes \<Rightarrow> bool" where
  "validatePrivateKey privateKey \<longleftrightarrow> length privateKey = PRIVATE_KEY_SIZE"

definition validateNetworkKey :: "bytes \<Rightarrow> bool" where
  "validateNetworkKey nk \<longleftrightarrow> length nk = NETWORK_KEY_SIZE"

definition km_loadPrivateKey :: "'s byte_storage \<Rightarrow> bytes \<Rightarrow> 's \<Rightarrow> rc \<times> bytes" where
  "km_loadPrivateKey ops key s = loadPrivateKey ops key s"

definition km_persistPrivateKey :: "'s byte_storage \<Rightarrow> bytes \<Rightarrow> 's \<Rightarrow> rc \<times> 's" where
  "km_persistPrivateKey ops key s =
     (if \<not> validatePrivateKey key then (RM_E_INVALID_PARAM, s) else persistPrivateKey ops key s)"

definition km_loadHubKey :: "'s byte_storage \<Rightarrow> bytes \<Rightarrow> 's \<Rightarrow> rc \<times> bytes" where
  "km_loadHubKey ops key s = loadHubKey ops key s"

definition km_persistHubKey :: "'s byte_storage \<Rightarrow> bytes \<Rightarrow> 's \<Rightarrow> rc \<times> 's" where
  "km_persistHubKey ops key s =
     (if \<not> validatePublicKey key then (RM_E_INVALID_PARAM, s) else persistHubKey ops key s)"

definition km_loadNetworkKey :: "'s byte_storage \<Rightarrow> bytes \<Rightarrow> 's \<Rightarrow> rc \<times> bytes" where
  "km_loadNetworkKey ops key s = loadNetworkKey ops key s"

definition km_persistNetworkKey :: "'s byte_storage \<Rightarrow> bytes \<Rightarrow> 's \<Rightarrow> rc \<times> 's" where
  "km_persistNetworkKey ops key s =
     (if \<not> validateNetworkKey key then (RM_E_INVALID_PARAM, s) else persistNetworkKey ops key s)"

definition getCurrentNetworkKey :: "'s byte_storage \<Rightarrow> bytes \<Rightarrow> 's \<Rightarrow> rc \<times> bytes" where
  "getCurrentNetworkKey ops key s = loadNetworkKey ops key s"

definition km_setNetworkKey :: "'s byte_storage \<Rightarrow> bytes \<Rightarrow> 's \<Rightarrow> rc \<times> 's" where
  "km_setNetworkKey ops key s =
     (if \<not> validateNetworkKey key then (RM_E_INVALID_PARAM, s)
      else case km_persistNetworkKey ops key s of
             (rc, s1) \<Rightarrow> if rc \<noteq> RM_E_NONE then (rc, s1) else (RM_E_NONE, s1))"

definition hasNetworkKey :: "'s byte_storage \<Rightarrow> 's \<Rightarrow> bool" where
  "hasNetworkKey ops s =
     (case km_loadNetworkKey ops [] s of (rc, nk) \<Rightarrow> rc = RM_E_NONE \<and> validateNetworkKey nk)"

definition initializeForHub :: "rnd \<Rightarrow> 's byte_storage \<Rightarrow> rng \<Rightarrow> 's \<Rightarrow> rc \<times> rng \<times> 's" where
  "initializeForHub r ops g s =
     (if hasNetworkKey ops s then (RM_E_NONE, g, s)
      else case generateNetworkKey r g of
        (rc, nk, g1) \<Rightarrow>
          if rc \<noteq> RM_E_NONE then (rc, g1, s)
          else case km_setNetworkKey ops nk s of
                 (rc1, s1) \<Rightarrow> if rc1 \<noteq> RM_E_NONE then (rc1, g1, s1) else (RM_E_NONE, g1, s1))"

section \<open>Transporting the network key\<close>

text \<open>\<open>encryptedKey\<close> and \<open>networkKey\<close> are output arguments, unchanged on an early return. Both
  operations make a fresh encryption service for the call.\<close>

definition encryptNetworkKey ::
  "crypto_lib \<Rightarrow> 's byte_storage \<Rightarrow> bytes \<Rightarrow> bytes \<Rightarrow> bytes \<Rightarrow> 's \<Rightarrow> aes_crypto \<Rightarrow> (rc \<times> bytes \<times> aes_crypto) option" where
  "encryptNetworkKey lib ops nk recipientPubKey encryptedKey s aes =
     (if length recipientPubKey \<noteq> 32 \<or> \<not> validateNetworkKey nk
      then Some (RM_E_INVALID_PARAM, encryptedKey, aes)
      else case km_loadPrivateKey ops [] s of
        (rc, privateKey) \<Rightarrow>
          if rc \<noteq> RM_E_NONE then Some (rc, encryptedKey, aes)
          else case derivePublicKey lib privateKey of
            Inl rc1 \<Rightarrow> Some (rc1, encryptedKey, aes)
          | Inr publicKey \<Rightarrow> do {
              (enc, aes1) \<leftarrow> encryptDirectECC lib (setDeviceKeys privateKey publicKey EncryptionService)
                nk recipientPubKey aes;
              Some (if length enc \<noteq> length nk then RM_E_CRYPTO_SETUP else RM_E_NONE, enc, aes1) })"

definition decryptNetworkKey ::
  "crypto_lib \<Rightarrow> bytes \<Rightarrow> bytes \<Rightarrow> bytes \<Rightarrow> aes_crypto \<Rightarrow> (rc \<times> bytes \<times> aes_crypto) option" where
  "decryptNetworkKey lib encryptedKey privateKey nk aes =
     (if \<not> validatePrivateKey privateKey then Some (RM_E_INVALID_PARAM, nk, aes)
      else do {
        (nk1, aes1) \<leftarrow> decryptDirectECC lib EncryptionService encryptedKey privateKey aes;
        Some (if \<not> validateNetworkKey nk1 then RM_E_CRYPTO_SETUP else RM_E_NONE, nk1, aes1) })"

section \<open>Keys that are generated\<close>

lemma length_lcg_bytes [simp]: "length (lcg_bytes n seed) = n"
  by (induction n arbitrary: seed) (simp_all add: Let_def)

lemma length_generateDeterministicKey [simp]: "length (generateDeterministicKey chip n) = n"
  by (simp add: generateDeterministicKey_def clamp_key_def Let_def)

lemma length_random_bytes [simp]: "length (fst (random_bytes r n g)) = n"
  by (induction n arbitrary: g) (simp_all add: case_prod_beta Let_def)

lemma generateNetworkKey_ok: "generateNetworkKey r g = (RM_E_NONE, random_bytes r 32 g)"
  by (simp add: generateNetworkKey_def NETWORK_KEY_SIZE_def split: prod.split)

lemma byte_of_low24:
  fixes v w :: u32
  assumes "take_bit 24 v = take_bit 24 w"
  shows "byte_of 16 v = byte_of 16 w"
proof (rule bit_word_eqI)
  fix i assume "i < LENGTH(8)"
  then have "bit v (16 + i) = bit (take_bit 24 v) (16 + i)" "bit w (16 + i) = bit (take_bit 24 w) (16 + i)"
    by (simp_all add: bit_take_bit_iff)
  then show "bit (byte_of 16 v) i = bit (byte_of 16 w) i" using assms by (simp add: byte_of_bit)
qed

lemma lcg_step_low24_int:
  "take_bit 24 v = take_bit 24 w \<Longrightarrow> take_bit 24 (v * a + c) = take_bit 24 (w * a + (c :: int))"
  unfolding take_bit_eq_mod by (intro mod_add_cong mod_mult_cong refl)

lemma lcg_step_low24:
  fixes v w a c :: u32
  shows "take_bit 24 v = take_bit 24 w \<Longrightarrow> take_bit 24 (v * a + c) = take_bit 24 (w * a + c)"
  by transfer (simp only: take_bit_take_bit, simp, rule lcg_step_low24_int)

lemma lcg_bytes_low24: "take_bit 24 v = take_bit 24 w \<Longrightarrow> lcg_bytes n v = lcg_bytes n w"
proof (induction n arbitrary: v w)
  case (Suc n)
  have "take_bit 24 (v * 1103515245 + 12345) = take_bit 24 (w * 1103515245 + 12345)"
    by (rule lcg_step_low24 [OF Suc.prems])
  then show ?case using Suc.IH byte_of_low24 unfolding lcg_bytes.simps Let_def by blast
qed simp

text \<open>C38: A device's private key has at most 24 bits of entropy: it is computed from the chip
  identifier by a linear congruence of which only the low 24 bits ever reach the output, so over all
  chips at most \<open>2 ^ 24\<close> private keys occur, and two chips whose identifiers, folded to 32 bits,
  agree in the low 24 bits have the same key pair.\<close>

theorem private_key_24_bits:
  "card (range (\<lambda>chip. generateDeterministicKey (Some chip) 32)) \<le> 2 ^ 24 \<and>
   (take_bit 24 (key_seed c1) = take_bit 24 (key_seed c2) \<longrightarrow>
      generateKeyPair lib c1 = generateKeyPair lib c2)"
proof
  define f where "f = (\<lambda>w :: 24 word. clamp_key (lcg_bytes 32 (ucast w)))"
  have "generateDeterministicKey (Some chip) 32 = f (ucast (key_seed (Some chip)))" for chip
  proof -
    have "take_bit 24 (ucast (ucast (key_seed (Some chip)) :: 24 word) :: u32) = take_bit 24 (key_seed (Some chip))"
      by (rule bit_word_eqI) (auto simp: bit_take_bit_iff bit_ucast_iff)
    from lcg_bytes_low24 [OF this] show ?thesis by (simp add: f_def generateDeterministicKey_def Let_def)
  qed
  then have "range (\<lambda>chip. generateDeterministicKey (Some chip) 32) \<subseteq> f ` UNIV" by auto
  then have "card (range (\<lambda>chip. generateDeterministicKey (Some chip) 32)) \<le> card (f ` UNIV)"
    by (rule card_mono [rotated]) simp
  also have "\<dots> \<le> card (UNIV :: 24 word set)" by (rule card_image_le) simp
  finally show "card (range (\<lambda>chip. generateDeterministicKey (Some chip) 32)) \<le> 2 ^ 24" by (simp add: card_word)
  show "take_bit 24 (key_seed c1) = take_bit 24 (key_seed c2) \<longrightarrow> generateKeyPair lib c1 = generateKeyPair lib c2"
  proof
    assume "take_bit 24 (key_seed c1) = take_bit 24 (key_seed c2)"
    then have "lcg_bytes 32 (key_seed c1) = lcg_bytes 32 (key_seed c2)" by (rule lcg_bytes_low24)
    then show "generateKeyPair lib c1 = generateKeyPair lib c2"
      by (simp add: generateKeyPair_def generateDeterministicKey_def)
  qed
qed

theorem private_key_24_bits_witness:
  "generateKeyPair toy_lib (Some 0x0000000001000007) = generateKeyPair toy_lib (Some 0x0000000002000007)"
proof -
  have "take_bit 24 (key_seed (Some 0x0000000001000007)) = take_bit 24 (key_seed (Some 0x0000000002000007))"
    by (simp add: key_seed_def drop_bit_eq_div)
  then show ?thesis
    using private_key_24_bits [of "Some 0x0000000001000007" "Some 0x0000000002000007" toy_lib] by simp
qed

section \<open>The network key\<close>

text \<open>The hub's key in any store that keeps the contract.\<close>

context key_store
begin

lemma hasNetworkKey_iff:
  assumes "inv s" and "slot NKEY = Some 32"
  shows "hasNetworkKey ops s \<longleftrightarrow> contents s NKEY \<noteq> None"
  using read_law [OF assms(1), of NKEY "[]"] slot_law [OF assms(1), of NKEY] assms(2)
  by (auto simp: hasNetworkKey_def km_loadNetworkKey_def loadNetworkKey_def validateNetworkKey_def NETWORK_KEY_SIZE_def
      split: option.splits)

lemma km_setNetworkKey_law:
  assumes "inv s" and "slot NKEY = Some 32" and "km_setNetworkKey ops k s = (rc, s')"
  shows "inv s'" and "length k = 32 \<Longrightarrow> contents s' = (contents s)(NKEY \<mapsto> k) \<and> rc \<in> {RM_E_NONE, RM_E_STORAGE_WRITE_FAILED}"
    and "length k \<noteq> 32 \<Longrightarrow> rc = RM_E_INVALID_PARAM \<and> s' = s"
  using write_law [OF assms(1), of NKEY k] assms
  by (auto simp: km_setNetworkKey_def km_persistNetworkKey_def persistNetworkKey_def validateNetworkKey_def
      NETWORK_KEY_SIZE_def split: if_splits prod.splits)

lemma initializeForHub_law:
  assumes "inv s" and "slot NKEY = Some 32" and "initializeForHub r ops g s = (rc, g', s')"
  shows "inv s'" and "contents s NKEY \<noteq> None \<Longrightarrow> rc = RM_E_NONE \<and> g' = g \<and> s' = s"
    and "contents s NKEY = None \<Longrightarrow> contents s' = (contents s)(NKEY \<mapsto> fst (random_bytes r 32 g)) \<and>
      rc \<in> {RM_E_NONE, RM_E_STORAGE_WRITE_FAILED}"
proof -
  obtain rc1 s1 where set: "km_setNetworkKey ops (fst (random_bytes r 32 g)) s = (rc1, s1)" by fastforce
  note laws = km_setNetworkKey_law [OF assms(1,2) set]
  note ih = assms(3) [unfolded initializeForHub_def hasNetworkKey_iff [OF assms(1,2)] generateNetworkKey_ok]
  show "inv s'" using ih set laws(1) assms(1) by (auto split: if_splits prod.splits)
  show "rc = RM_E_NONE \<and> g' = g \<and> s' = s" if "contents s NKEY \<noteq> None" using ih that by simp
  show "contents s' = (contents s)(NKEY \<mapsto> fst (random_bytes r 32 g)) \<and> rc \<in> {RM_E_NONE, RM_E_STORAGE_WRITE_FAILED}"
    if "contents s NKEY = None"
    using ih that set laws(2) by (auto split: if_splits prod.splits)
qed

end

text \<open>A hub makes one network key and keeps it: \<open>initializeForHub\<close> leaves a stored key and the
  random source untouched; without one it stores 32 fresh random bytes. Afterwards the current key is
  the stored one, so running it again, as every restart of the hub does, changes nothing, and no key
  of another length can replace it through \<open>setNetworkKey\<close>.\<close>

theorem hub_network_key_stable:
  fixes L :: "'e eeprom_lib" and s :: "'e storage"
  defines "ops \<equiv> eeprom_ops L"
  assumes "eeprom_inv L opened s" and "initializeForHub r ops g s = (rc, g', s')"
  shows "\<exists>k. length k = 32 \<and> getCurrentNetworkKey ops [] s' = (RM_E_NONE, k) \<and>
    (case getCurrentNetworkKey ops [] s of
       (RM_E_NONE, old) \<Rightarrow> k = old \<and> s' = s \<and> g' = g
     | _ \<Rightarrow> k = fst (random_bytes r 32 g)) \<and>
    initializeForHub r ops g'' s' = (RM_E_NONE, g'', s') \<and>
    (\<forall>bad. length bad \<noteq> 32 \<longrightarrow> km_setNetworkKey ops bad s' = (RM_E_INVALID_PARAM, s'))"
proof -
  note law = eeprom.initializeForHub_law [OF assms(2) slot_length_simps(3) assms(3) [unfolded ops_def]]
  have some: "eeprom_contents L s' NKEY = (case eeprom_contents L s NKEY of None \<Rightarrow> Some (fst (random_bytes r 32 g)) | Some k \<Rightarrow> Some k)"
    using law(2,3) by (auto split: option.splits)
  then obtain k where k: "eeprom_contents L s' NKEY = Some k" by (auto split: option.splits)
  have "length k = 32" using eeprom.slot_law [OF law(1) k] by simp
  moreover have "getCurrentNetworkKey ops [] s' = (RM_E_NONE, k)"
    using eeprom.read_law [OF law(1), of NKEY "[]"] k
    by (simp add: getCurrentNetworkKey_def loadNetworkKey_def ops_def)
  moreover have "case getCurrentNetworkKey ops [] s of
      (RM_E_NONE, old) \<Rightarrow> k = old \<and> s' = s \<and> g' = g | _ \<Rightarrow> k = fst (random_bytes r 32 g)"
    using eeprom.read_law [OF assms(2), of NKEY "[]"] k some law(2)
    by (simp add: getCurrentNetworkKey_def loadNetworkKey_def ops_def split: option.splits)
  moreover have "initializeForHub r ops g'' s' = (RM_E_NONE, g'', s')"
    using eeprom.hasNetworkKey_iff [OF law(1)] k by (simp add: initializeForHub_def ops_def)
  moreover have "km_setNetworkKey ops bad s' = (RM_E_INVALID_PARAM, s')" if "length bad \<noteq> 32" for bad
    using that by (simp add: km_setNetworkKey_def validateNetworkKey_def NETWORK_KEY_SIZE_def)
  ultimately show ?thesis by (intro exI [of _ k] conjI allI impI)
qed

definition toy_rnd :: rnd where
  "toy_rnd seed i bound = (i + (case seed of None \<Rightarrow> 1 | Some b \<Rightarrow> unat b)) mod bound"

theorem hub_network_key_stable_witness:
  "\<exists>rc g' s' k. initializeForHub toy_rnd (eeprom_ops ram_eeprom) (None, 0) (ram_storage 1024) = (rc, g', s') \<and>
     length k = 32 \<and> getCurrentNetworkKey (eeprom_ops ram_eeprom) [] s' = (RM_E_NONE, k)"
proof -
  obtain rc g' s' where i: "initializeForHub toy_rnd (eeprom_ops ram_eeprom) (None, 0) (ram_storage 1024) = (rc, g', s')"
    by (metis prod.collapse)
  from hub_network_key_stable [OF ram_device_inv i] i show ?thesis by blast
qed

text \<open>\<open>decryptNetworkKey\<close> never decrypts: it asks a new encryption service, which knows no sender, and
  that returns the data as it is. So for a private key of 32 bytes and a ciphertext of 32 bytes the
  result is \<open>RM_E_NONE\<close> with the ciphertext as the network key, whatever the library computes, and
  what \<open>encryptNetworkKey\<close> produced does not come back.\<close>

theorem decryptNetworkKey_returns_input:
  assumes "length privateKey = 32"
  shows "decryptNetworkKey lib enc privateKey nk aes =
    Some (if length enc = 32 then RM_E_NONE else RM_E_CRYPTO_SETUP, enc, aes)"
  using assms
  by (simp add: decryptNetworkKey_def decryptDirectECC_def EncryptionService_def sender_public_key_def
      validatePrivateKey_def validateNetworkKey_def PRIVATE_KEY_SIZE_def NETWORK_KEY_SIZE_def)

theorem decryptNetworkKey_returns_input_witness:
  "decryptNetworkKey toy_lib (replicate 32 7) (replicate 32 1) [] AesCrypto = Some (RM_E_NONE, replicate 32 7, AesCrypto)"
  using decryptNetworkKey_returns_input [of "replicate 32 1" toy_lib "replicate 32 7" "[]" AesCrypto] by simp

end
