(* ===== verification/RM_PacketTracker.thy ===== *)
theory RM_PacketTracker
  imports RM_Prelude
begin

text \<open>
  The packet tracker of \<open>src/src/core/protocol/inc/routing/PacketTracker.h\<close>: a least
  recently used cache from packet keys to checksums. The code keeps a doubly linked list and
  a hash map from keys to list iterators. The model keeps both: the list holds cells that
  carry the node's identity, and the map sends a key to the identity of a node, so an erase
  through an iterator is the removal of the node with that identity. The invariant says that
  the map and the list agree, and the abstract view is the list of key-value pairs.
\<close>

section \<open>State\<close>

text \<open>A list node: its identity (what an iterator denotes), its key and its value.\<close>

type_synonym node = "nat \<times> u32 \<times> u32"

record tracker =
  lruList :: "node list"
  tr_map :: "u32 \<rightharpoonup> nat"
  capacity :: nat
  next_node :: nat

definition PacketTracker :: "nat \<Rightarrow> tracker" where
  "PacketTracker cap = \<lparr>lruList = [], tr_map = Map.empty, capacity = cap, next_node = 0\<rparr>"

section \<open>Operations\<close>

text \<open>\<open>lruList.erase(it)\<close>: undefined unless the iterator denotes a node of the list.\<close>

definition erase_node :: "nat \<Rightarrow> node list \<Rightarrow> node list option" where
  "erase_node it xs = do {
     guard_ok (it \<in> fst ` set xs);
     Some (filter (\<lambda>c. fst c \<noteq> it) xs) }"

definition push_front :: "u32 \<Rightarrow> u32 \<Rightarrow> tracker \<Rightarrow> tracker" where
  "push_front key val t =
     t\<lparr>lruList := (next_node t, key, val) # lruList t,
       tr_map := (tr_map t)(key \<mapsto> next_node t), next_node := next_node t + 1\<rparr>"

text \<open>\<open>map[key]\<close> would insert a singular iterator for an absent key; erasing through it is
  undefined.\<close>

definition moveToFront :: "u32 \<Rightarrow> u32 \<Rightarrow> tracker \<Rightarrow> tracker option" where
  "moveToFront key val t = do {
     it \<leftarrow> tr_map t key;
     xs \<leftarrow> erase_node it (lruList t);
     Some (push_front key val (t\<lparr>lruList := xs\<rparr>)) }"

definition tracker_size :: "tracker \<Rightarrow> nat" where
  "tracker_size t = card (dom (tr_map t))"

text \<open>At capacity the last node goes; \<open>back()\<close> of an empty list (capacity 0) is
  undefined.\<close>

definition evict_last :: "tracker \<Rightarrow> tracker option" where
  "evict_last t = do {
     guard_ok (lruList t \<noteq> []);
     Some (t\<lparr>tr_map := (tr_map t)(fst (snd (last (lruList t))) := None),
             lruList := butlast (lruList t)\<rparr>) }"

definition addEntry :: "u32 \<Rightarrow> u32 \<Rightarrow> tracker \<Rightarrow> tracker option" where
  "addEntry key val t =
     (if tr_map t key \<noteq> None then moveToFront key val t
      else do {
        t1 \<leftarrow> (if length (lruList t) = capacity t then evict_last t else Some t);
        Some (push_front key val t1) })"

definition removeEntry :: "u32 \<Rightarrow> tracker \<Rightarrow> tracker option" where
  "removeEntry key t =
     (case tr_map t key of
        None \<Rightarrow> Some t
      | Some it \<Rightarrow> do {
          xs \<leftarrow> erase_node it (lruList t);
          Some (t\<lparr>lruList := xs, tr_map := (tr_map t)(key := None)\<rparr>) })"

definition clearMap :: "tracker \<Rightarrow> tracker" where
  "clearMap t = t\<lparr>lruList := [], tr_map := Map.empty\<rparr>"

definition keyExists :: "u32 \<Rightarrow> tracker \<Rightarrow> bool" where
  "keyExists key t \<longleftrightarrow> tr_map t key \<noteq> None"

text \<open>\<open>it->second->second\<close>: the value of the node the iterator denotes.\<close>

definition node_value :: "nat \<Rightarrow> node list \<Rightarrow> u32 option" where
  "node_value it xs = map_option snd (map_of xs it)"

definition findOrDefault :: "u32 \<Rightarrow> u32 \<Rightarrow> tracker \<Rightarrow> (u32 \<times> tracker) option" where
  "findOrDefault key defaultValue t =
     (case tr_map t key of
        Some it \<Rightarrow> do {
          v \<leftarrow> node_value it (lruList t);
          t1 \<leftarrow> moveToFront key v t;
          it1 \<leftarrow> tr_map t1 key;
          r \<leftarrow> node_value it1 (lruList t1);
          Some (r, t1) }
      | None \<Rightarrow> Some (defaultValue, t))"

section \<open>Abstract view and invariant\<close>

text \<open>The contents, most recently used first.\<close>

definition entries :: "tracker \<Rightarrow> (u32 \<times> u32) list" where
  "entries t = map snd (lruList t)"

definition tracker_inv :: "tracker \<Rightarrow> bool" where
  "tracker_inv t \<longleftrightarrow>
     distinct (map fst (lruList t)) \<and>
     distinct (map fst (entries t)) \<and>
     (\<forall>c \<in> set (lruList t). fst c < next_node t) \<and>
     (\<forall>k it. tr_map t k = Some it \<longleftrightarrow> (\<exists>v. (it, k, v) \<in> set (lruList t))) \<and>
     length (lruList t) \<le> capacity t \<and> 0 < capacity t"

section \<open>The abstract cache\<close>

definition drop_key :: "u32 \<Rightarrow> (u32 \<times> u32) list \<Rightarrow> (u32 \<times> u32) list" where
  "drop_key k es = filter (\<lambda>e. fst e \<noteq> k) es"

definition lru_add :: "nat \<Rightarrow> u32 \<Rightarrow> u32 \<Rightarrow> (u32 \<times> u32) list \<Rightarrow> (u32 \<times> u32) list" where
  "lru_add cap k v es =
     (k, v) # (if k \<in> fst ` set es then drop_key k es
               else if length es = cap then butlast es else es)"

definition lru_touch :: "u32 \<Rightarrow> (u32 \<times> u32) list \<Rightarrow> (u32 \<times> u32) list" where
  "lru_touch k es = (case map_of es k of None \<Rightarrow> es | Some v \<Rightarrow> (k, v) # drop_key k es)"

lemma tr_map_entries:
  assumes "tracker_inv t"
  shows "tr_map t k = None \<longleftrightarrow> k \<notin> fst ` set (entries t)"
proof -
  have "tr_map t k = None \<longleftrightarrow> (\<forall>it v. (it, k, v) \<notin> set (lruList t))"
    using assms by (metis not_None_eq option.distinct(1) tracker_inv_def)
  also have "\<dots> \<longleftrightarrow> k \<notin> fst ` set (entries t)"
    by (force simp: entries_def)
  finally show ?thesis .
qed

lemma node_key_unique:
  assumes "tracker_inv t" and "tr_map t k = Some it" and "c \<in> set (lruList t)"
  shows "fst c = it \<longleftrightarrow> fst (snd c) = k"
proof -
  obtain v where v: "(it, k, v) \<in> set (lruList t)"
    using assms by (auto simp: tracker_inv_def)
  have "inj_on fst (set (lruList t))" and "inj_on (fst \<circ> snd) (set (lruList t))"
    using assms(1) by (simp_all add: tracker_inv_def entries_def distinct_map)
  then have "fst c = it \<longleftrightarrow> c = (it, k, v)" and "fst (snd c) = k \<longleftrightarrow> c = (it, k, v)"
    using inj_onD [of fst _ c "(it, k, v)"] inj_onD [of "fst \<circ> snd" _ c "(it, k, v)"] v assms(3)
    by auto
  then show ?thesis by simp
qed

lemma erase_node_ok:
  assumes "tracker_inv t" and "tr_map t k = Some it"
  shows "\<exists>xs. erase_node it (lruList t) = Some xs \<and> map snd xs = drop_key k (entries t) \<and>
     xs = filter (\<lambda>c. fst c \<noteq> it) (lruList t)"
proof -
  have "it \<in> fst ` set (lruList t)"
    using assms by (force simp: tracker_inv_def)
  moreover have "filter (\<lambda>c. fst c \<noteq> it) (lruList t) = filter (\<lambda>c. fst (snd c) \<noteq> k) (lruList t)"
    by (rule filter_cong [OF refl]) (simp add: node_key_unique [OF assms])
  ultimately show ?thesis
    by (simp add: erase_node_def drop_key_def entries_def filter_map comp_def)
qed

lemma node_value_ok:
  assumes "tracker_inv t" and "tr_map t k = Some it"
  shows "node_value it (lruList t) = map_of (entries t) k"
proof -
  obtain v where v: "(it, k, v) \<in> set (lruList t)"
    using assms by (auto simp: tracker_inv_def)
  then have "map_of (lruList t) it = Some (k, v)"
    using assms by (simp add: tracker_inv_def)
  moreover have "(k, v) \<in> set (entries t)" using v by (force simp: entries_def)
  ultimately show ?thesis
    using assms by (simp add: node_value_def tracker_inv_def)
qed

text \<open>Pushing a new node keeps the invariant, when the rest of the state is that of a tracker
  from which the key was removed.\<close>

definition tracker_core :: "u32 \<Rightarrow> tracker \<Rightarrow> bool" where
  "tracker_core key t \<longleftrightarrow>
     distinct (map fst (lruList t)) \<and> distinct (map fst (entries t)) \<and>
     (\<forall>c \<in> set (lruList t). fst c < next_node t) \<and>
     (\<forall>k it. k \<noteq> key \<longrightarrow> (tr_map t k = Some it \<longleftrightarrow> (\<exists>v. (it, k, v) \<in> set (lruList t)))) \<and>
     key \<notin> fst ` set (entries t) \<and> length (lruList t) < capacity t"

lemma push_front_inv:
  assumes core: "tracker_core key t"
  shows "tracker_inv (push_front key val t)"
proof -
  let ?t = "push_front key val t"
  from core have "key \<notin> fst ` set (entries t)" by (simp add: tracker_core_def)
  then have key: "(it, key, v) \<notin> set (lruList t)" for it v
    by (force simp: entries_def)
  have "tr_map ?t k = Some it \<longleftrightarrow> (\<exists>v. (it, k, v) \<in> set (lruList ?t))" for k it
  proof (cases "k = key")
    case True
    have "(\<exists>v. (it, key, v) \<in> set (lruList ?t)) \<longleftrightarrow> next_node t = it"
      by (simp add: push_front_def key) (rule eq_commute)
    then show ?thesis unfolding True by (simp add: push_front_def)
  next
    case False
    then have "tr_map t k = Some it \<longleftrightarrow> (\<exists>v. (it, k, v) \<in> set (lruList t))"
      using core by (simp add: tracker_core_def)
    with False show ?thesis by (simp add: push_front_def)
  qed
  moreover have "next_node t \<notin> fst ` set (lruList t)"
    using core by (auto simp: tracker_core_def)
  ultimately show ?thesis
    using core by (simp add: tracker_core_def tracker_inv_def push_front_def entries_def less_Suc_eq
        comp_def image_image)
qed

lemma entries_push_front [simp]: "entries (push_front key val t) = (key, val) # entries t"
  by (simp add: push_front_def entries_def)

lemma capacity_push_front [simp]: "capacity (push_front key val t) = capacity t"
  by (simp add: push_front_def)

lemma erased_core:
  assumes inv: "tracker_inv t" and k: "tr_map t k = Some it"
  shows "tracker_core k (t\<lparr>lruList := filter (\<lambda>c. fst c \<noteq> it) (lruList t)\<rparr>)"
proof -
  let ?xs = "filter (\<lambda>c. fst c \<noteq> it) (lruList t)"
  have ent: "map snd ?xs = drop_key k (entries t)"
    using erase_node_ok [OF inv k] by auto
  have "it \<in> fst ` set (lruList t)"
    using inv k by (force simp: tracker_inv_def)
  then have "length ?xs < length (lruList t)"
    using length_filter_less [of _ "lruList t" "\<lambda>c. fst c \<noteq> it"] by blast
  then have len: "length ?xs < capacity t"
    using inv by (simp add: tracker_inv_def)
  have mem: "tr_map t k' = Some it' \<longleftrightarrow> (\<exists>v. (it', k', v) \<in> set ?xs)" if "k' \<noteq> k" for k' it'
    using node_key_unique [OF inv k] that inv by (fastforce simp: tracker_inv_def)
  have "distinct (map fst (map snd ?xs))"
    using inv unfolding ent drop_key_def by (simp add: tracker_inv_def distinct_map_filter)
  moreover have "k \<notin> fst ` set (map snd ?xs)"
    unfolding ent by (auto simp: drop_key_def)
  ultimately show ?thesis
    using inv len mem by (simp add: tracker_core_def tracker_inv_def entries_def distinct_map_filter)
qed

lemma moveToFront_ok:
  assumes "tracker_inv t" and "tr_map t k = Some it"
  shows "\<exists>t'. moveToFront k v t = Some t' \<and> tracker_inv t' \<and> capacity t' = capacity t \<and>
     entries t' = (k, v) # drop_key k (entries t) \<and> (\<exists>it'. tr_map t' k = Some it')"
  using erase_node_ok [OF assms] push_front_inv [OF erased_core [OF assms], of v] assms(2)
  by (auto simp: moveToFront_def) (simp_all add: entries_def push_front_def)

lemma evict_core:
  assumes inv: "tracker_inv t" and full: "length (lruList t) = capacity t"
    and new: "tr_map t key = None"
  shows "\<exists>t'. evict_last t = Some t' \<and> tracker_core key t' \<and> capacity t' = capacity t \<and>
     entries t' = butlast (entries t)"
proof -
  have ne: "lruList t \<noteq> []" using assms by (auto simp: tracker_inv_def)
  then obtain xs it k v where xs: "lruList t = xs @ [(it, k, v)]"
    by (metis append_butlast_last_id prod.exhaust)
  let ?t = "t\<lparr>tr_map := (tr_map t)(k := None), lruList := xs\<rparr>"
  have ev: "evict_last t = Some ?t"
    by (simp add: evict_last_def xs)
  have "k \<notin> fst ` set (map snd xs)"
    using inv by (simp add: tracker_inv_def entries_def xs image_image)
  then have "(tr_map ?t k' = Some it' \<longleftrightarrow> (\<exists>v. (it', k', v) \<in> set xs))" for k' it'
    using inv by (force simp: tracker_inv_def xs)
  then have "tracker_core key ?t"
    using inv full tr_map_entries [OF inv, of key] new
    by (simp add: tracker_core_def tracker_inv_def entries_def xs)
  with ev show ?thesis by (simp add: entries_def xs)
qed

lemma addEntry_core:
  assumes inv: "tracker_inv t"
  shows "\<exists>t'. addEntry k v t = Some t' \<and> tracker_inv t' \<and> capacity t' = capacity t \<and>
     entries t' = lru_add (capacity t) k v (entries t)"
proof (cases "tr_map t k")
  case None
  then have new: "k \<notin> fst ` set (entries t)" using tr_map_entries [OF inv] by simp
  show ?thesis
  proof (cases "length (lruList t) = capacity t")
    case True
    obtain t1 where "evict_last t = Some t1" "tracker_core k t1" "capacity t1 = capacity t"
        "entries t1 = butlast (entries t)"
      using evict_core [OF inv True None] by blast
    with True None new show ?thesis
      using push_front_inv [of k t1 v]
      by (simp add: addEntry_def lru_add_def) (simp add: entries_def)
  next
    case False
    then have "tracker_core k t"
      using inv new by (simp add: tracker_core_def tracker_inv_def)
    with False None new show ?thesis
      using push_front_inv [of k t v]
      by (simp add: addEntry_def lru_add_def) (simp add: entries_def)
  qed
next
  case (Some it)
  then have "k \<in> fst ` set (entries t)" using tr_map_entries [OF inv, of k] by auto
  then show ?thesis
    using moveToFront_ok [OF inv Some, of v] Some by (auto simp: addEntry_def lru_add_def)
qed

lemma findOrDefault_core:
  assumes inv: "tracker_inv t"
  shows "\<exists>t'. findOrDefault k d t = Some (case map_of (entries t) k of None \<Rightarrow> d | Some v \<Rightarrow> v, t') \<and>
     tracker_inv t' \<and> capacity t' = capacity t \<and> entries t' = lru_touch k (entries t)"
proof (cases "tr_map t k")
  case None
  then have "map_of (entries t) k = None"
    using tr_map_entries [OF inv] by (simp add: map_of_eq_None_iff)
  with None inv show ?thesis by (simp add: findOrDefault_def lru_touch_def)
next
  case (Some it)
  then obtain v where v: "map_of (entries t) k = Some v" and nv: "node_value it (lruList t) = Some v"
    using tr_map_entries [OF inv, of k] node_value_ok [OF inv Some]
    by (metis map_of_eq_None_iff option.exhaust option.distinct(1))
  obtain t' it' where t': "moveToFront k v t = Some t'" "tracker_inv t'" "capacity t' = capacity t"
      "entries t' = (k, v) # drop_key k (entries t)" "tr_map t' k = Some it'"
    using moveToFront_ok [OF inv Some] by blast
  then have "node_value it' (lruList t') = Some v"
    using node_value_ok [OF t'(2) t'(5)] by simp
  with Some v nv t' show ?thesis by (simp add: findOrDefault_def lru_touch_def)
qed

lemma removeEntry_core:
  assumes inv: "tracker_inv t"
  shows "\<exists>t'. removeEntry k t = Some t' \<and> tracker_inv t' \<and> capacity t' = capacity t \<and>
     entries t' = drop_key k (entries t)"
proof (cases "tr_map t k")
  case None
  then have "drop_key k (entries t) = entries t"
    using tr_map_entries [OF inv] by (force simp: drop_key_def filter_id_conv)
  with None inv show ?thesis by (simp add: removeEntry_def)
next
  case (Some it)
  let ?xs = "filter (\<lambda>c. fst c \<noteq> it) (lruList t)"
  let ?t = "t\<lparr>lruList := ?xs, tr_map := (tr_map t)(k := None)\<rparr>"
  have core: "tracker_core k (t\<lparr>lruList := ?xs\<rparr>)" by (rule erased_core [OF inv Some])
  have "(it', k, v) \<notin> set ?xs" for it' v
    using node_key_unique [OF inv Some] by auto
  then have "tracker_inv ?t"
    using core by (auto simp: tracker_core_def tracker_inv_def entries_def)
  moreover have "removeEntry k t = Some ?t" and "map snd ?xs = drop_key k (entries t)"
    using erase_node_ok [OF inv Some] Some by (auto simp: removeEntry_def)
  ultimately show ?thesis by (simp add: entries_def)
qed

lemma PacketTracker_inv: "0 < cap \<Longrightarrow> tracker_inv (PacketTracker cap)"
  by (simp add: tracker_inv_def PacketTracker_def entries_def)

lemma clearMap_inv: "tracker_inv t \<Longrightarrow> tracker_inv (clearMap t)"
  by (simp add: tracker_inv_def clearMap_def entries_def)

lemma keyExists_entries: "tracker_inv t \<Longrightarrow> keyExists k t \<longleftrightarrow> k \<in> fst ` set (entries t)"
  using tr_map_entries [of t k] by (auto simp: keyExists_def)

lemma tracker_size_entries: "tracker_inv t \<Longrightarrow> tracker_size t = length (entries t)"
proof -
  assume inv: "tracker_inv t"
  then have "dom (tr_map t) = set (map fst (entries t))"
    using tr_map_entries [OF inv] by (auto simp: dom_def)
  then show ?thesis
    using inv distinct_card [of "map fst (entries t)"] by (simp add: tracker_size_def tracker_inv_def)
qed

section \<open>The interface the router relies on\<close>

text \<open>
  A duplicate cache: every operation succeeds on a well-formed state, an addition makes its key
  found with its value, and neither operation changes what another key that is still present
  maps to.
\<close>

locale dedup_cache =
  fixes inv :: "'c \<Rightarrow> bool"
    and lookup :: "'c \<Rightarrow> u32 \<Rightarrow> u32 option"
    and add :: "u32 \<Rightarrow> u32 \<Rightarrow> 'c \<Rightarrow> 'c option"
    and find :: "u32 \<Rightarrow> u32 \<Rightarrow> 'c \<Rightarrow> (u32 \<times> 'c) option"
  assumes add_law: "inv c \<Longrightarrow> \<exists>c'. add k v c = Some c' \<and> inv c' \<and> lookup c' k = Some v \<and>
      (\<forall>k'. k' \<noteq> k \<longrightarrow> lookup c' k' = lookup c k' \<or> lookup c' k' = None)"
    and find_law: "inv c \<Longrightarrow> \<exists>c'. find k d c = Some (case lookup c k of None \<Rightarrow> d | Some v \<Rightarrow> v, c') \<and>
      inv c' \<and> (\<forall>k'. lookup c' k' = lookup c k')"
begin

lemma add_total: "inv c \<Longrightarrow> add k v c \<noteq> None"
  using add_law [of c k v] by auto

lemma find_total: "inv c \<Longrightarrow> find k d c \<noteq> None"
  using find_law [of c k d] by auto

lemma found_after_add:
  assumes "inv c" and "add k v c = Some c'"
  shows "\<exists>c''. find k d c' = Some (v, c'') \<and> inv c''"
  using add_law [OF assms(1), of k v] find_law [of c' k d] assms(2) by auto

lemma find_default_iff:
  assumes "inv c" and "find k d c = Some (r, c')"
  shows "r = d \<longleftrightarrow> lookup c k = None \<or> lookup c k = Some d"
  using find_law [OF assms(1), of k d] assms(2) by (auto split: option.splits)

lemma add_other:
  assumes "inv c" and "add k v c = Some c'" and "k' \<noteq> k" and "lookup c' k' = Some w"
  shows "lookup c k' = Some w"
proof -
  have "lookup c' k' = lookup c k' \<or> lookup c' k' = None"
    using add_law [OF assms(1), of k v] assms(2,3) by auto
  with assms(4) show ?thesis by auto
qed

end

lemma map_of_drop_key: "map_of (drop_key k es) k' = (if k' = k then None else map_of es k')"
  by (induction es) (auto simp: drop_key_def)

lemma map_of_butlast: "distinct (map fst es) \<Longrightarrow>
    map_of (butlast es) k = map_of es k \<or> map_of (butlast es) k = None"
  by (induction es) auto

lemma map_of_lru_touch: "map_of (lru_touch k es) k' = map_of es k'"
  by (auto simp: lru_touch_def map_of_drop_key split: option.splits)

lemma map_of_lru_add:
  assumes "distinct (map fst es)" and "k' \<noteq> k"
  shows "map_of (lru_add cap k v es) k' = map_of es k' \<or> map_of (lru_add cap k v es) k' = None"
  using map_of_butlast [OF assms(1), of k'] assms(2) by (auto simp: lru_add_def map_of_drop_key)

interpretation cache: dedup_cache tracker_inv "\<lambda>t. map_of (entries t)" addEntry findOrDefault
proof unfold_locales
  fix c k v
  assume inv: "tracker_inv c"
  obtain c' where c': "addEntry k v c = Some c'" "tracker_inv c'"
      "entries c' = lru_add (capacity c) k v (entries c)"
    using addEntry_core [OF inv] by blast
  have "distinct (map fst (entries c))" using inv by (simp add: tracker_inv_def)
  then have "map_of (entries c') k' = map_of (entries c) k' \<or> map_of (entries c') k' = None"
    if "k' \<noteq> k" for k'
    unfolding c'(3) using that by (rule map_of_lru_add)
  moreover have "map_of (entries c') k = Some v" by (simp add: c'(3) lru_add_def)
  ultimately show "\<exists>c'. addEntry k v c = Some c' \<and> tracker_inv c' \<and> map_of (entries c') k = Some v \<and>
      (\<forall>k'. k' \<noteq> k \<longrightarrow> map_of (entries c') k' = map_of (entries c) k' \<or> map_of (entries c') k' = None)"
    using c'(1,2) by blast
next
  fix c k d
  assume "tracker_inv c"
  then show "\<exists>c'. findOrDefault k d c =
        Some (case map_of (entries c) k of None \<Rightarrow> d | Some v \<Rightarrow> v, c') \<and>
      tracker_inv c' \<and> (\<forall>k'. map_of (entries c') k' = map_of (entries c) k')"
    using findOrDefault_core [of c k d] by (auto simp: map_of_lru_touch)
qed

section \<open>How long an entry survives\<close>

text \<open>A sequence of uses of the tracker.\<close>

datatype tracker_op = Add u32 u32 | Find u32 u32 | Remove u32

fun op_key :: "tracker_op \<Rightarrow> u32" where
  "op_key (Add k v) = k"
| "op_key (Find k d) = k"
| "op_key (Remove k) = k"

fun tracker_step :: "tracker_op \<Rightarrow> tracker \<Rightarrow> tracker option" where
  "tracker_step (Add k v) t = addEntry k v t"
| "tracker_step (Find k d) t = map_option snd (findOrDefault k d t)"
| "tracker_step (Remove k) t = removeEntry k t"

fun tracker_run :: "tracker_op list \<Rightarrow> tracker \<Rightarrow> tracker option" where
  "tracker_run [] t = Some t"
| "tracker_run (x # xs) t = Option.bind (tracker_step x t) (tracker_run xs)"

fun lru_step :: "nat \<Rightarrow> tracker_op \<Rightarrow> (u32 \<times> u32) list \<Rightarrow> (u32 \<times> u32) list" where
  "lru_step cap (Add k v) es = lru_add cap k v es"
| "lru_step cap (Find k d) es = lru_touch k es"
| "lru_step cap (Remove k) es = drop_key k es"

lemma tracker_step_core:
  assumes inv: "tracker_inv t"
  shows "\<exists>t'. tracker_step x t = Some t' \<and> tracker_inv t' \<and> capacity t' = capacity t \<and>
     entries t' = lru_step (capacity t) x (entries t)"
proof (cases x)
  case (Add k v)
  then show ?thesis using addEntry_core [OF inv] by simp
next
  case (Find k d)
  then show ?thesis using findOrDefault_core [OF inv, of k d] by auto
next
  case (Remove k)
  then show ?thesis using removeEntry_core [OF inv] by simp
qed

lemma tracker_run_core:
  assumes "tracker_inv t"
  shows "\<exists>t'. tracker_run xs t = Some t' \<and> tracker_inv t' \<and> capacity t' = capacity t \<and>
     entries t' = fold (lru_step (capacity t)) xs (entries t)"
  using assms
proof (induction xs arbitrary: t)
  case Nil
  then show ?case by simp
next
  case (Cons x xs)
  obtain t1 where t1: "tracker_step x t = Some t1" "tracker_inv t1" "capacity t1 = capacity t"
      "entries t1 = lru_step (capacity t) x (entries t)"
    using tracker_step_core [OF Cons.prems] by blast
  show ?case using Cons.IH [OF t1(2)] t1 by simp
qed

text \<open>
  The entries in front of an entry were used after it. So an entry whose predecessors all have
  keys of a set of fewer elements than the capacity is not the one that is evicted by the
  addition of a key of that set.
\<close>

definition shielded :: "nat \<Rightarrow> u32 set \<Rightarrow> u32 \<Rightarrow> u32 \<Rightarrow> (u32 \<times> u32) list \<Rightarrow> bool" where
  "shielded cap S k v es \<longleftrightarrow>
     (\<exists>xs ys. es = xs @ (k, v) # ys \<and> fst ` set xs \<subseteq> S) \<and>
     distinct (map fst es) \<and> length es \<le> cap"

lemma shielded_front:
  "distinct (map fst es) \<Longrightarrow> k \<notin> fst ` set es \<Longrightarrow> length es < cap \<Longrightarrow> shielded cap {} k v ((k, v) # es)"
  by (force simp: shielded_def)

lemma drop_key_length: "k \<in> fst ` set es \<Longrightarrow> length (drop_key k es) < length es"
  by (auto simp: drop_key_def intro!: length_filter_less)

lemma shielded_drop:
  assumes "shielded cap S k v es" and "k' \<noteq> k"
  shows "shielded cap S k v (drop_key k' es)"
proof -
  obtain xs ys where es: "es = xs @ (k, v) # ys" and xs: "fst ` set xs \<subseteq> S"
    using assms by (auto simp: shielded_def)
  have "drop_key k' es = drop_key k' xs @ (k, v) # drop_key k' ys"
    using assms(2) by (simp add: es drop_key_def)
  moreover have "fst ` set (drop_key k' xs) \<subseteq> S" using xs by (auto simp: drop_key_def)
  moreover have "length (drop_key k' es) \<le> length es" by (simp add: drop_key_def)
  then have "length (drop_key k' es) \<le> cap" using assms(1) by (simp add: shielded_def)
  moreover have "distinct (map fst (drop_key k' es))"
    using assms(1) by (simp add: shielded_def distinct_map_filter drop_key_def)
  ultimately show ?thesis unfolding shielded_def by blast
qed

lemma shielded_Cons:
  assumes "shielded cap S k v es" and "k' \<in> S" and "k' \<notin> fst ` set es" and "length es < cap"
  shows "shielded cap S k v ((k', w) # es)"
proof -
  obtain xs ys where "es = xs @ (k, v) # ys" and "fst ` set xs \<subseteq> S"
    using assms by (auto simp: shielded_def)
  then have "(k', w) # es = ((k', w) # xs) @ (k, v) # ys" and "fst ` set ((k', w) # xs) \<subseteq> S"
    using assms(2) by auto
  moreover have "distinct (map fst ((k', w) # es))" and "length ((k', w) # es) \<le> cap"
    using assms by (simp_all add: shielded_def)
  ultimately show ?thesis unfolding shielded_def by blast
qed

lemma shielded_butlast:
  assumes sh: "shielded cap S k v es" and S: "finite S" "card S < cap" and k': "k' \<in> S"
    and new: "k' \<notin> fst ` set es" and full: "length es = cap"
  shows "shielded cap S k v (butlast es)"
proof -
  obtain xs ys where es: "es = xs @ (k, v) # ys" and xs: "fst ` set xs \<subseteq> S"
    and d: "distinct (map fst es)"
    using sh by (auto simp: shielded_def)
  have "distinct (map fst xs)" using d by (simp add: es)
  then have "length xs = card (fst ` set xs)"
    using distinct_card [of "map fst xs"] by simp
  also have "\<dots> \<le> card (S - {k'})"
    using xs new es by (intro card_mono) (use S in auto)
  also have "\<dots> = card S - 1" using S k' by (simp add: card_Diff_singleton)
  finally have "length xs \<le> card S - 1" .
  moreover have "0 < card S" using S(1) k' by (auto simp: card_gt_0_iff)
  ultimately have "length xs + 1 < cap" using S(2) by linarith
  then have "ys \<noteq> []" using full es by auto
  then have "butlast es = xs @ (k, v) # butlast ys" by (simp add: es butlast_append)
  moreover have "distinct (map fst (butlast es))"
    using d by (simp add: map_butlast distinct_butlast)
  moreover have "length (butlast es) \<le> cap" using full by simp
  ultimately show ?thesis using xs unfolding shielded_def by blast
qed

lemma lru_step_shielded:
  assumes sh: "shielded cap S k v es" and S: "finite S" "card S < cap"
    and x: "op_key x \<in> S" "op_key x \<noteq> k"
  shows "shielded cap S k v (lru_step cap x es)"
proof -
  have drop: "shielded cap S k v ((k', w) # drop_key k' es)"
    if "k' \<in> S" "k' \<noteq> k" "k' \<in> fst ` set es" for k' w
    using shielded_Cons [OF shielded_drop [OF sh that(2)] that(1), of w] drop_key_length [OF that(3)] sh
    by (auto simp: drop_key_def shielded_def)
  show ?thesis
  proof (cases x)
    case (Add k' w)
    show ?thesis
    proof (cases "k' \<in> fst ` set es")
      case True
      with Add x drop show ?thesis by (simp add: lru_add_def)
    next
      case new: False
      show ?thesis
      proof (cases "length es = cap")
        case True
        then have "shielded cap S k v (butlast es)"
          using shielded_butlast [OF sh S _ new] Add x by simp
        moreover have "k' \<notin> fst ` set (butlast es)" using new by (auto dest: in_set_butlastD)
        moreover have "length (butlast es) < cap" using True S by auto
        ultimately show ?thesis using shielded_Cons [of cap S k v "butlast es" k' w] Add x new True
          by (simp add: lru_add_def)
      next
        case False
        then have "length es < cap" using sh by (auto simp: shielded_def)
        then show ?thesis using shielded_Cons [OF sh _ new, of w] Add x new False
          by (simp add: lru_add_def)
      qed
    qed
  next
    case (Find k' d)
    show ?thesis
    proof (cases "map_of es k'")
      case None
      then show ?thesis using sh by (simp add: Find lru_touch_def)
    next
      case (Some w)
      then have "k' \<in> fst ` set es" by (metis map_of_eq_None_iff option.distinct(1))
      then show ?thesis using drop [of k' w] x Some by (simp add: Find lru_touch_def)
    qed
  next
    case (Remove k')
    then show ?thesis using shielded_drop [OF sh] x by simp
  qed
qed

lemma lru_run_shielded:
  assumes "shielded cap S k v es" and "finite S" "card S < cap"
    and "\<forall>x \<in> set ops. op_key x \<in> S \<and> op_key x \<noteq> k"
  shows "shielded cap S k v (fold (lru_step cap) ops es)"
  using assms by (induction ops arbitrary: es) (simp_all add: lru_step_shielded)

lemma shielded_lookup: "shielded cap S k v es \<Longrightarrow> map_of es k = Some v"
  unfolding shielded_def by (metis (no_types) in_set_conv_decomp map_of_is_SomeI)

text \<open>C32: A packet key that was recorded in the tracker is still found, with the checksum it was
  recorded with, after any sequence of additions, lookups and removals of other keys, as long as
  these touch fewer distinct keys than the tracker's capacity: the least recently used entry is
  the one that goes. No operation of the sequence fails.\<close>

theorem tracker_entry_survives:
  assumes inv: "tracker_inv t" and add: "addEntry k v t = Some t1"
    and others: "k \<notin> op_key ` set ops" and few: "card (op_key ` set ops) < capacity t"
  shows "\<exists>t2 t3. tracker_run ops t1 = Some t2 \<and> findOrDefault k d t2 = Some (v, t3) \<and> tracker_inv t3"
proof -
  let ?S = "op_key ` set ops"
  have t1: "tracker_inv t1" "capacity t1 = capacity t" "entries t1 = lru_add (capacity t) k v (entries t)"
    using addEntry_core [OF inv, of k v] add by auto
  have len: "length (entries t1) \<le> capacity t"
    using t1(1,2) by (simp add: tracker_inv_def entries_def)
  obtain rest where "entries t1 = (k, v) # rest" using t1(3) by (simp add: lru_add_def)
  then have "shielded (capacity t) ?S k v (entries t1)"
    using t1(1) len unfolding shielded_def tracker_inv_def
    by (metis append_Nil empty_subsetI image_empty list.set(1))
  then have sh: "shielded (capacity t) ?S k v (fold (lru_step (capacity t)) ops (entries t1))"
    by (rule lru_run_shielded) (use few others in auto)
  obtain t2 where t2: "tracker_run ops t1 = Some t2" "tracker_inv t2"
      "entries t2 = fold (lru_step (capacity t)) ops (entries t1)"
    using tracker_run_core [OF t1(1), of ops] t1(2) by auto
  show ?thesis
    using findOrDefault_core [OF t2(2), of k d] shielded_lookup [OF sh] t2 by auto
qed

lemma tracker_entry_survives_witness:
  "\<exists>t1 t2 t3. addEntry 7 99 (PacketTracker 3) = Some t1 \<and>
     tracker_run [Add 1 10, Find 1 0, Add 2 20, Remove 1, Add 1 11] t1 = Some t2 \<and>
     findOrDefault 7 0 t2 = Some (99, t3) \<and> tracker_inv t3"
proof -
  have inv: "tracker_inv (PacketTracker 3)" by (rule PacketTracker_inv) simp
  obtain t1 where t1: "addEntry 7 99 (PacketTracker 3) = Some t1"
    using addEntry_core [OF inv] by blast
  show ?thesis
    using tracker_entry_survives [OF inv t1, of "[Add 1 10, Find 1 0, Add 2 20, Remove 1, Add 1 11]" 0] t1
    by (simp add: PacketTracker_def card_insert_if)
qed

end
