(* ===== verification/RM_RoutingTable.thy ===== *)
theory RM_RoutingTable
  imports RM_Packet
begin

text \<open>
  The routing table: \<open>src/src/core/protocol/inc/routing/RoutingTable.h\<close>,
  \<open>RoutingTypes.h\<close> and \<open>src/src/core/protocol/src/routing/RoutingTable.cpp\<close>. The table has ten
  entries; the constructor only clears their \<open>active\<close> flags, so the rest of a fresh entry is
  whatever the memory held, an argument of \<open>RoutingTable_init\<close>. The clock (\<open>millis()\<close>) is a
  32-bit argument that wraps around.
\<close>

section \<open>Data\<close>

definition MAX_ROUTES :: nat where "MAX_ROUTES = 10"
definition ROUTE_TIMEOUT :: u32 where "ROUTE_TIMEOUT = 300000"
definition RSSI_UPPER_THRESHOLD :: int where "RSSI_UPPER_THRESHOLD = 12"
definition RSSI_LOWER_THRESHOLD :: int where "RSSI_LOWER_THRESHOLD = 6"

record route_entry =
  re_destId :: id4
  re_nextHopId :: id4
  re_hops :: byte
  re_rssi :: byte
  re_lastSeen :: u32
  re_active :: bool

type_synonym routing_table = "route_entry list"

definition RoutingTable_init :: "routing_table \<Rightarrow> routing_table" where
  "RoutingTable_init memory = map (\<lambda>r. r\<lparr>re_active := False\<rparr>) memory"

section \<open>Operations\<close>

text \<open>The index of the first entry that passes a test: the two scanning loops.\<close>

fun first_index :: "('a \<Rightarrow> bool) \<Rightarrow> 'a list \<Rightarrow> nat option" where
  "first_index P [] = None"
| "first_index P (x # xs) = (if P x then Some 0 else map_option Suc (first_index P xs))"

definition findRoute :: "id4 \<Rightarrow> routing_table \<Rightarrow> nat option" where
  "findRoute dest routes = first_index (\<lambda>r. re_destId r = dest) routes"

text \<open>The loop for the oldest entry, from entry \<open>i\<close> on.\<close>

fun oldest_loop :: "nat \<Rightarrow> routing_table \<Rightarrow> u32 \<Rightarrow> nat \<Rightarrow> nat" where
  "oldest_loop i [] oldestTime oldestIndex = oldestIndex"
| "oldest_loop i (r # rs) oldestTime oldestIndex =
     (if re_lastSeen r < oldestTime then oldest_loop (Suc i) rs (re_lastSeen r) i
      else oldest_loop (Suc i) rs oldestTime oldestIndex)"

definition findEmptySlot :: "u32 \<Rightarrow> routing_table \<Rightarrow> nat" where
  "findEmptySlot now routes =
     (case first_index (\<lambda>r. \<not> re_active r) routes of
        Some i \<Rightarrow> i
      | None \<Rightarrow> oldest_loop 0 routes now 0)"

definition isBetterRoute :: "route_entry \<Rightarrow> route_entry \<Rightarrow> bool" where
  "isBetterRoute newRoute existingRoute =
     (if sint (re_rssi newRoute) > sint (re_rssi existingRoute) + RSSI_UPPER_THRESHOLD then True
      else if sint (re_rssi newRoute) < sint (re_rssi existingRoute) - RSSI_LOWER_THRESHOLD then False
      else re_hops newRoute < re_hops existingRoute)"

definition new_route :: "packet \<Rightarrow> byte \<Rightarrow> u32 \<Rightarrow> route_entry" where
  "new_route p rssi now =
     \<lparr>re_destId = p_source p, re_nextHopId = p_lastHop p, re_hops = p_hops p, re_rssi = rssi,
      re_lastSeen = now, re_active = True\<rparr>"

definition updateRoute :: "packet \<Rightarrow> byte \<Rightarrow> u32 \<Rightarrow> routing_table \<Rightarrow> routing_table" where
  "updateRoute p rssi now routes =
     (if p_hops p \<ge> MAX_HOPS - 1 then routes
      else case findRoute (p_source p) routes of
             Some index \<Rightarrow>
               (if isBetterRoute (new_route p rssi now) (routes ! index)
                then routes[index := new_route p rssi now] else routes)
           | None \<Rightarrow> routes[findEmptySlot now routes := new_route p rssi now])"

text \<open>The result is the next hop, \<open>None\<close> where the code returns false, and the table, where an
  expired route is marked inactive.\<close>

definition findNextHop :: "id4 \<Rightarrow> u32 \<Rightarrow> routing_table \<Rightarrow> id4 option \<times> routing_table" where
  "findNextHop dest now routes =
     (case findRoute dest routes of
        Some index \<Rightarrow>
          (if re_active (routes ! index) then
             if now - re_lastSeen (routes ! index) < ROUTE_TIMEOUT
             then (Some (re_nextHopId (routes ! index)), routes)
             else (None, routes[index := (routes ! index)\<lparr>re_active := False\<rparr>])
           else (None, routes))
      | None \<Rightarrow> (None, routes))"

section \<open>Scanning\<close>

lemma first_index_Some:
  "first_index P xs = Some i \<longleftrightarrow> i < length xs \<and> P (xs ! i) \<and> (\<forall>j < i. \<not> P (xs ! j))"
proof (induction xs arbitrary: i)
  case Nil
  then show ?case by simp
next
  case (Cons x xs)
  show ?case
  proof (cases i)
    case 0
    then show ?thesis by auto
  next
    case (Suc k)
    then show ?thesis using Cons.IH [of k] by (auto simp: less_Suc_eq_0_disj)
  qed
qed

lemma first_index_None: "first_index P xs = None \<longleftrightarrow> (\<forall>x \<in> set xs. \<not> P x)"
  by (induction xs) auto

lemma first_index_bound: "first_index P xs = Some i \<Longrightarrow> i < length xs"
  by (simp add: first_index_Some)

lemma oldest_loop_bound:
  "k < i + length rs \<Longrightarrow> oldest_loop i rs t k < i + length rs"
proof (induction i rs t k rule: oldest_loop.induct)
  case (2 i r rs t k)
  then show ?case by simp
qed simp

lemma findEmptySlot_bound: "routes \<noteq> [] \<Longrightarrow> findEmptySlot now routes < length routes"
  using oldest_loop_bound [of 0 0 routes now]
  by (auto simp: findEmptySlot_def first_index_bound split: option.splits)

text \<open>The loop returns an entry whose time is the minimum.\<close>

lemma oldest_loop_min:
  assumes "\<forall>r \<in> set pre. t \<le> re_lastSeen r" and "re_lastSeen ((pre @ rs) ! k) \<le> t"
    and "r \<in> set (pre @ rs)"
  shows "re_lastSeen ((pre @ rs) ! oldest_loop (length pre) rs t k) \<le> re_lastSeen r"
  using assms
proof (induction rs arbitrary: pre t k)
  case Nil
  then show ?case by (auto intro: order_trans)
next
  case (Cons x rs)
  show ?case
  proof (cases "re_lastSeen x < t")
    case True
    then have "\<forall>r \<in> set (pre @ [x]). re_lastSeen x \<le> re_lastSeen r"
      using Cons.prems(1) by (auto intro: less_imp_le less_le_trans)
    then show ?thesis
      using Cons.IH [of "pre @ [x]" "re_lastSeen x" "length pre"] Cons.prems(3) True by simp
  next
    case False
    then have "\<forall>r \<in> set (pre @ [x]). t \<le> re_lastSeen r" using Cons.prems(1) by simp
    then show ?thesis
      using Cons.IH [of "pre @ [x]" t k] Cons.prems(2,3) False by simp
  qed
qed

section \<open>The table invariant\<close>

text \<open>Ten entries; an active entry has fewer hops than the relay limit and is the entry the scan
  for its destination finds, so no two active entries share a destination.\<close>

definition table_inv :: "routing_table \<Rightarrow> bool" where
  "table_inv routes \<longleftrightarrow> length routes = MAX_ROUTES \<and>
     (\<forall>i < length routes. re_active (routes ! i) \<longrightarrow>
        re_hops (routes ! i) < MAX_HOPS - 1 \<and> findRoute (re_destId (routes ! i)) routes = Some i)"

lemma RoutingTable_init_inv: "length memory = MAX_ROUTES \<Longrightarrow> table_inv (RoutingTable_init memory)"
  by (simp add: table_inv_def RoutingTable_init_def)

lemma findRoute_Some:
  "findRoute dest routes = Some i \<longleftrightarrow>
     i < length routes \<and> re_destId (routes ! i) = dest \<and> (\<forall>j < i. re_destId (routes ! j) \<noteq> dest)"
  by (simp add: findRoute_def first_index_Some)

lemma findRoute_None: "findRoute dest routes = None \<longleftrightarrow> (\<forall>j < length routes. re_destId (routes ! j) \<noteq> dest)"
  by (simp add: findRoute_def first_index_None all_set_conv_all_nth)

text \<open>Writing an entry keeps the invariant when its destination is where the scan finds it: at
  the entry's own index, or nowhere.\<close>

lemma table_inv_write:
  assumes inv: "table_inv routes" and i: "i < length routes"
    and hops: "re_active r \<Longrightarrow> re_hops r < MAX_HOPS - 1"
    and place: "findRoute (re_destId r) routes = Some i \<or> findRoute (re_destId r) routes = None \<or>
      \<not> re_active r \<and> re_destId r = re_destId (routes ! i)"
  shows "table_inv (routes[i := r])"
proof -
  have "findRoute (re_destId (routes[i := r] ! j)) (routes[i := r]) = Some j"
    if j: "j < length routes" "re_active (routes[i := r] ! j)" for j
  proof (cases "j = i")
    case True
    with place j i have "findRoute (re_destId r) routes = Some i \<or> findRoute (re_destId r) routes = None"
      by auto
    with True i show ?thesis
      by (auto simp: findRoute_Some findRoute_None)
  next
    case False
    with j inv have a: "findRoute (re_destId (routes ! j)) routes = Some j"
      by (simp add: table_inv_def)
    have "re_destId r \<noteq> re_destId (routes ! j)" if "i < j"
      using place that a i j by (auto simp: findRoute_Some findRoute_None)
    with False a i j show ?thesis
      by (auto simp: findRoute_Some nth_list_update)
  qed
  moreover have "re_hops (routes[i := r] ! j) < MAX_HOPS - 1"
    if "j < length routes" "re_active (routes[i := r] ! j)" for j
    using that inv hops by (cases "j = i") (simp_all add: table_inv_def)
  ultimately show ?thesis using inv by (simp add: table_inv_def)
qed

lemma table_inv_not_Nil: "table_inv routes \<Longrightarrow> routes \<noteq> []"
  by (auto simp: table_inv_def MAX_ROUTES_def)

lemma updateRoute_inv:
  assumes inv: "table_inv routes"
  shows "table_inv (updateRoute p rssi now routes)"
proof -
  let ?r = "new_route p rssi now"
  have r: "re_destId ?r = p_source p" "re_hops ?r = p_hops p" by (simp_all add: new_route_def)
  note ne = table_inv_not_Nil [OF inv]
  show ?thesis
    using inv table_inv_write [OF inv, of _ ?r] findEmptySlot_bound [OF ne] r
    by (auto simp: updateRoute_def findRoute_Some not_le split: option.splits)
qed

lemma findNextHop_inv:
  assumes inv: "table_inv routes"
  shows "table_inv (snd (findNextHop dest now routes))"
proof (cases "findRoute dest routes")
  case None
  with inv show ?thesis by (simp add: findNextHop_def)
next
  case (Some i)
  then have "i < length routes" by (simp add: findRoute_Some)
  with Some inv show ?thesis
    using table_inv_write [OF inv, of i "(routes ! i)\<lparr>re_active := False\<rparr>"]
    by (simp add: findNextHop_def)
qed

section \<open>Sequences of use\<close>

datatype table_event = Learn packet byte u32 | Lookup id4 u32

fun table_step :: "table_event \<Rightarrow> routing_table \<Rightarrow> routing_table" where
  "table_step (Learn p rssi now) routes = updateRoute p rssi now routes"
| "table_step (Lookup dest now) routes = snd (findNextHop dest now routes)"

lemma table_step_inv: "table_inv routes \<Longrightarrow> table_inv (table_step e routes)"
  by (cases e) (simp_all add: updateRoute_inv findNextHop_inv)

lemma table_run_inv: "table_inv routes \<Longrightarrow> table_inv (fold table_step es routes)"
  by (induction es arbitrary: routes) (simp_all add: table_step_inv)

lemma table_inv_unique:
  assumes inv: "table_inv routes" and i: "i < length routes" "re_active (routes ! i)"
    and j: "j < length routes" "re_active (routes ! j)"
    and same: "re_destId (routes ! i) = re_destId (routes ! j)"
  shows "i = j"
proof -
  have "findRoute (re_destId (routes ! i)) routes = Some i" using inv i by (simp add: table_inv_def)
  moreover have "findRoute (re_destId (routes ! i)) routes = Some j"
    using inv j same by (simp add: table_inv_def)
  ultimately show ?thesis by simp
qed

text \<open>C33: After any sequence of received packets and route lookups on a fresh table, whatever the
  memory of its entries held, the table still has ten entries, no two active entries have the
  same destination, and no active route is one of a packet at the hop limit.\<close>

theorem routing_table_consistent:
  assumes "length memory = MAX_ROUTES" and "routes = fold table_step es (RoutingTable_init memory)"
  shows "length routes = 10 \<and>
    (\<forall>i j. i < 10 \<and> j < 10 \<and> re_active (routes ! i) \<and> re_active (routes ! j) \<and>
       re_destId (routes ! i) = re_destId (routes ! j) \<longrightarrow> i = j) \<and>
    (\<forall>i < 10. re_active (routes ! i) \<longrightarrow> re_hops (routes ! i) < 6)"
proof -
  have inv: "table_inv routes"
    unfolding assms(2) by (rule table_run_inv [OF RoutingTable_init_inv [OF assms(1)]])
  then have "length routes = 10" by (simp add: table_inv_def MAX_ROUTES_def)
  moreover have "re_hops (routes ! i) < 6" if "i < 10" "re_active (routes ! i)" for i
    using inv that by (simp add: table_inv_def MAX_HOPS_def MAX_ROUTES_def)
  ultimately show ?thesis using table_inv_unique [OF inv] by simp
qed

definition garbage_entry :: route_entry where
  "garbage_entry = \<lparr>re_destId = Id4 0xCD 0xCD 0xCD 0xCD, re_nextHopId = Id4 0xCD 0xCD 0xCD 0xCD,
     re_hops = 0xCD, re_rssi = 0xCD, re_lastSeen = 0xCDCDCDCD, re_active = True\<rparr>"

definition sample_packet :: packet where
  "sample_packet = default_packet\<lparr>p_source := Id4 1 2 3 4, p_lastHop := Id4 5 6 7 8, p_hops := 2\<rparr>"

lemma routing_table_consistent_witness:
  "\<exists>routes. routes = fold table_step [Learn sample_packet 0xA6 1000, Lookup (Id4 1 2 3 4) 400000]
       (RoutingTable_init (replicate MAX_ROUTES garbage_entry)) \<and>
     length routes = 10"
  using routing_table_consistent
    [of "replicate MAX_ROUTES garbage_entry" _ "[Learn sample_packet 0xA6 1000, Lookup (Id4 1 2 3 4) 400000]"]
  by simp

section \<open>Lookup\<close>

text \<open>A lookup answers with a next hop exactly when some active entry for the destination was
  stored less than five minutes ago. The age is computed modulo 2 to the 32, so the answer does
  not depend on the clock having wrapped around in between; an entry found too old is marked
  inactive, and nothing else in the table changes.\<close>

theorem findNextHop_exact:
  assumes inv: "table_inv routes" 
    and age: "\<forall>i < length routes. now = re_lastSeen (routes ! i) + of_nat (age i) \<and> age i < 2 ^ 32"
  shows "(fst (findNextHop dest now routes) = Some nh \<longleftrightarrow>
      (\<exists>i < length routes. re_active (routes ! i) \<and> re_destId (routes ! i) = dest \<and>
         re_nextHopId (routes ! i) = nh \<and> age i < 300000)) \<and>
    (\<forall>j < length routes. snd (findNextHop dest now routes) ! j =
       (if re_active (routes ! j) \<and> re_destId (routes ! j) = dest \<and> 300000 \<le> age j
        then (routes ! j)\<lparr>re_active := False\<rparr> else routes ! j))"
proof -
  have fresh: "now - re_lastSeen (routes ! i) < ROUTE_TIMEOUT \<longleftrightarrow> age i < 300000"
    if "i < length routes" for i
  proof -
    have "now = re_lastSeen (routes ! i) + of_nat (age i)" and "age i < 2 ^ 32" using age that by auto
    then have "now - re_lastSeen (routes ! i) = of_nat (age i)" and "unat (of_nat (age i) :: u32) = age i"
      by (simp_all add: unat_of_nat take_bit_eq_mod)
    then show ?thesis by (simp add: ROUTE_TIMEOUT_def word_less_nat_alt)
  qed
  have first: "findRoute dest routes = Some i"
    if "i < length routes" "re_active (routes ! i)" "re_destId (routes ! i) = dest" for i
    using inv that by (auto simp: table_inv_def)
  show ?thesis
  proof (cases "findRoute dest routes")
    case None
    moreover have "\<forall>j < length routes. re_destId (routes ! j) \<noteq> dest"
      using None by (simp add: findRoute_None)
    ultimately show ?thesis using None by (auto simp: findNextHop_def)
  next
    case (Some i)
    then have i: "i < length routes" "re_destId (routes ! i) = dest" by (simp_all add: findRoute_Some)
    have only: "j = i" if "j < length routes" "re_active (routes ! j)" "re_destId (routes ! j) = dest" for j
      using first [OF that] Some by simp
    note found = fresh [OF i(1)]
    show ?thesis
    proof (cases "re_active (routes ! i)")
      case True
      then have "(\<exists>j < length routes. re_active (routes ! j) \<and> re_destId (routes ! j) = dest \<and>
          re_nextHopId (routes ! j) = nh \<and> age j < 300000) \<longleftrightarrow>
          re_nextHopId (routes ! i) = nh \<and> age i < 300000"
        using only i by blast
      with True Some i found show ?thesis
        by (simp add: findNextHop_def) (metis not_less nth_list_update only)
    next
      case False
      with Some i found show ?thesis
        by (simp add: findNextHop_def) (metis only)
    qed
  qed
qed

definition sample_table :: routing_table where
  "sample_table = (RoutingTable_init (replicate MAX_ROUTES garbage_entry))
     [0 := new_route sample_packet 0xA6 0xFFFFFFFF]"

lemma sample_table_nth: "i < 10 \<Longrightarrow> sample_table ! i =
    (if i = 0 then new_route sample_packet 0xA6 0xFFFFFFFF else garbage_entry\<lparr>re_active := False\<rparr>)"
  by (simp add: sample_table_def RoutingTable_init_def MAX_ROUTES_def nth_list_update)

lemma sample_table_inv: "table_inv sample_table"
  unfolding sample_table_def
proof (rule table_inv_write)
  show "table_inv (RoutingTable_init (replicate MAX_ROUTES garbage_entry))"
    by (rule RoutingTable_init_inv) simp
qed (simp_all add: RoutingTable_init_def MAX_ROUTES_def MAX_HOPS_def new_route_def sample_packet_def findRoute_None
       garbage_entry_def)

lemma findNextHop_exact_witness:
  "fst (findNextHop (Id4 1 2 3 4) 5 sample_table) = Some (Id4 5 6 7 8)"
proof -
  let ?age = "\<lambda>i::nat. if i = 0 then 6 else 842150456 :: nat"
  have len: "length sample_table = 10" by (simp add: sample_table_def RoutingTable_init_def MAX_ROUTES_def)
  have "\<forall>i < length sample_table. 5 = re_lastSeen (sample_table ! i) + of_nat (?age i) \<and> ?age i < 2 ^ 32"
    unfolding len by (simp add: sample_table_nth new_route_def garbage_entry_def)
  from conjunct1 [OF findNextHop_exact [OF sample_table_inv this, of "Id4 1 2 3 4" "Id4 5 6 7 8"]]
  have "fst (findNextHop (Id4 1 2 3 4) 5 sample_table) = Some (Id4 5 6 7 8) \<longleftrightarrow>
    (\<exists>i < 10. re_active (sample_table ! i) \<and> re_destId (sample_table ! i) = Id4 1 2 3 4 \<and>
       re_nextHopId (sample_table ! i) = Id4 5 6 7 8 \<and> ?age i < 300000)"
    unfolding len .
  moreover have "re_active (sample_table ! 0) \<and> re_destId (sample_table ! 0) = Id4 1 2 3 4 \<and>
       re_nextHopId (sample_table ! 0) = Id4 5 6 7 8"
    by (simp add: sample_table_nth new_route_def sample_packet_def)
  ultimately show ?thesis by (auto intro!: exI [of _ 0])
qed

section \<open>Learning\<close>

lemma findRoute_update_hit:
  assumes "findRoute dest routes = Some i" and "re_destId r = dest"
  shows "findRoute dest (routes[i := r]) = Some i"
  using assms by (auto simp: findRoute_Some)

lemma findRoute_update_new:
  assumes "findRoute dest routes = None" and "re_destId r = dest" and "i < length routes"
  shows "findRoute dest (routes[i := r]) = Some i"
  using assms by (auto simp: findRoute_Some findRoute_None)

text \<open>A packet from a source with no entry in the table is learned at once: for exactly five
  minutes after it, on a clock that may wrap around, a lookup for the source answers with the
  packet's last hop.\<close>

theorem new_route_is_used:
  assumes inv: "table_inv routes" and new: "findRoute (p_source p) routes = None"
    and hops: "p_hops p < 6"
  shows "fst (findNextHop (p_source p) (now + of_nat d) (updateRoute p rssi now routes)) =
    (if d mod 2 ^ 32 < 300000 then Some (p_lastHop p) else None)"
proof -
  let ?i = "findEmptySlot now routes" and ?r = "new_route p rssi now"
  have i: "?i < length routes"
    using findEmptySlot_bound [OF table_inv_not_Nil [OF inv]] .
  have "\<not> p_hops p \<ge> MAX_HOPS - 1" using hops by (simp add: MAX_HOPS_def not_le)
  then have upd: "updateRoute p rssi now routes = routes[?i := ?r]"
    using new by (simp add: updateRoute_def)
  have "findRoute (p_source p) (routes[?i := ?r]) = Some ?i"
    by (rule findRoute_update_new [OF new _ i]) (simp add: new_route_def)
  then show ?thesis
    using i unfolding upd
    by (simp add: findNextHop_def ROUTE_TIMEOUT_def new_route_def word_less_nat_alt unat_of_nat take_bit_eq_mod)
qed

lemma new_route_is_used_witness:
  "fst (findNextHop (Id4 1 2 3 4) (0xFFFFFFF0 + of_nat 299999)
      (updateRoute sample_packet 0xA6 0xFFFFFFF0 (RoutingTable_init (replicate MAX_ROUTES garbage_entry)))) =
    Some (Id4 5 6 7 8)"
proof -
  let ?t = "RoutingTable_init (replicate MAX_ROUTES garbage_entry)"
  have "table_inv ?t" by (rule RoutingTable_init_inv) simp
  moreover have "findRoute (p_source sample_packet) ?t = None" by code_simp
  moreover have "p_hops sample_packet < 6" by (simp add: sample_packet_def)
  ultimately show ?thesis
    using new_route_is_used [of ?t sample_packet "0xFFFFFFF0" 299999 "0xA6"]
    by (simp add: sample_packet_def)
qed

text \<open>When every entry is active and the clock has not wrapped around since any of them was
  stored, a new source replaces an entry that was stored the longest time ago, and only that
  entry.\<close>

theorem full_table_evicts_oldest:
  assumes inv: "table_inv routes" and full: "\<forall>r \<in> set routes. re_active r"
    and past: "\<forall>r \<in> set routes. re_lastSeen r \<le> now"
    and new: "findRoute (p_source p) routes = None" and hops: "p_hops p < 6"
  shows "\<exists>i < 10. updateRoute p rssi now routes = routes[i := new_route p rssi now] \<and>
    (\<forall>r \<in> set routes. re_lastSeen (routes ! i) \<le> re_lastSeen r)"
proof (intro exI conjI)
  let ?i = "findEmptySlot now routes"
  have len: "length routes = 10" using inv by (simp add: table_inv_def MAX_ROUTES_def)
  then show i: "?i < 10" using findEmptySlot_bound [of routes now] by (cases routes) simp_all
  show "updateRoute p rssi now routes = routes[?i := new_route p rssi now]"
    using new hops by (simp add: updateRoute_def MAX_HOPS_def not_le [symmetric])
  have "first_index (\<lambda>r. \<not> re_active r) routes = None" using full by (simp add: first_index_None)
  then have "?i = oldest_loop 0 routes now 0" by (simp add: findEmptySlot_def)
  moreover have "re_lastSeen (routes ! 0) \<le> now" using past len by simp
  ultimately show "\<forall>r \<in> set routes. re_lastSeen (routes ! ?i) \<le> re_lastSeen r"
    using oldest_loop_min [of "[]" now routes 0] by simp
qed

definition full_entry :: "nat \<Rightarrow> route_entry" where
  "full_entry n = garbage_entry\<lparr>re_destId := Id4 0 0 0 (of_nat n), re_hops := 1,
     re_lastSeen := (if n = 6 then 500 else 1000)\<rparr>"

lemma of_nat_byte_inject: "m < 256 \<Longrightarrow> n < 256 \<Longrightarrow> (of_nat m :: byte) = of_nat n \<longleftrightarrow> m = n"
  by (simp add: word_unat_eq_iff unat_of_nat take_bit_eq_mod)

lemma full_table_inv: "table_inv (map full_entry [0..<10])"
proof -
  have "findRoute (Id4 0 0 0 (of_nat i)) (map full_entry [0..<10]) = Some i" if "i < 10" for i
    using that by (auto simp: findRoute_Some full_entry_def of_nat_byte_inject)
  then show ?thesis
    by (simp add: table_inv_def MAX_ROUTES_def MAX_HOPS_def full_entry_def)
qed

lemma full_table_evicts_oldest_witness:
  "\<exists>i < 10. updateRoute sample_packet 0xA6 2000 (map full_entry [0..<10]) =
     (map full_entry [0..<10])[i := new_route sample_packet 0xA6 2000] \<and>
     (\<forall>r \<in> set (map full_entry [0..<10]). re_lastSeen (map full_entry [0..<10] ! i) \<le> re_lastSeen r)"
proof (rule full_table_evicts_oldest [OF full_table_inv])
  show "\<forall>r \<in> set (map full_entry [0..<10]). re_active r"
    and "\<forall>r \<in> set (map full_entry [0..<10]). re_lastSeen r \<le> 2000"
    by (auto simp: full_entry_def garbage_entry_def)
  show "findRoute (p_source sample_packet) (map full_entry [0..<10]) = None"
    by (simp add: findRoute_None sample_packet_def full_entry_def)
  show "p_hops sample_packet < 6" by (simp add: sample_packet_def)
qed

section \<open>Hysteresis and ageing\<close>

text \<open>The comparison of routes does not flap between two or three relays with steady readings:
  no two routes are each better than the other, and no three are better than one another in a
  circle.\<close>

theorem isBetterRoute_no_flapping:
  "\<not> (isBetterRoute a b \<and> isBetterRoute b a) \<and>
   \<not> (isBetterRoute a b \<and> isBetterRoute b c \<and> isBetterRoute c a)"
  by (auto simp: isBetterRoute_def RSSI_UPPER_THRESHOLD_def RSSI_LOWER_THRESHOLD_def split: if_splits)

text \<open>A packet is a repeat of what the table holds when its route is not better than the entry for
  its source.\<close>

definition repeats :: "routing_table \<Rightarrow> nat \<Rightarrow> table_event \<Rightarrow> bool" where
  "repeats routes i e \<longleftrightarrow> (case e of
     Learn p rssi now \<Rightarrow> p_source p = re_destId (routes ! i) \<and>
       \<not> isBetterRoute (new_route p rssi now) (routes ! i)
   | Lookup dest now \<Rightarrow> False)"

lemma repeat_ignored:
  assumes "findRoute (re_destId (routes ! i)) routes = Some i" and "repeats routes i e"
  shows "table_step e routes = routes"
  using assms by (auto simp: repeats_def updateRoute_def split: table_event.splits)

lemma repeats_ignored:
  assumes "findRoute (re_destId (routes ! i)) routes = Some i" and "\<forall>e \<in> set es. repeats routes i e"
  shows "fold table_step es routes = routes"
  using assms(2) by (induction es) (simp_all add: repeat_ignored [OF assms(1)])

text \<open>An entry ages from the packet that created it. Packets that keep arriving over a route
  that is not better (a neighbour with steady signal and hop count) do not refresh it, so five
  minutes after it was stored the lookup fails; and they do not revive it either, so the lookup
  keeps failing for as long as nothing better arrives.\<close>

theorem steady_neighbour_expires:
  assumes inv: "table_inv routes" and i: "i < 10" "re_active (routes ! i)"
    and steady: "\<forall>e \<in> set es. repeats routes i e" "\<forall>e \<in> set es'. repeats routes i e"
    and age: "300000 \<le> d" "d < 2 ^ 32"
  shows "\<exists>routes1. findNextHop (re_destId (routes ! i)) (re_lastSeen (routes ! i) + of_nat d)
        (fold table_step es routes) = (None, routes1) \<and>
      (\<forall>now. fst (findNextHop (re_destId (routes ! i)) now (fold table_step es' routes1)) = None)"
proof -
  let ?dest = "re_destId (routes ! i)"
  let ?routes1 = "routes[i := (routes ! i)\<lparr>re_active := False\<rparr>]"
  have len: "length routes = 10" using inv by (simp add: table_inv_def MAX_ROUTES_def)
  have fnd: "findRoute ?dest routes = Some i" using inv i by (simp add: table_inv_def MAX_ROUTES_def)
  have "\<not> (of_nat d :: u32) < ROUTE_TIMEOUT"
    using age by (simp add: ROUTE_TIMEOUT_def word_less_nat_alt unat_of_nat take_bit_eq_mod)
  then have "findNextHop ?dest (re_lastSeen (routes ! i) + of_nat d) (fold table_step es routes) = (None, ?routes1)"
    using fnd i by (simp add: findNextHop_def repeats_ignored [OF fnd steady(1)])
  moreover have "fold table_step es' ?routes1 = ?routes1"
  proof (rule repeats_ignored [of ?routes1 i])
    show "findRoute (re_destId (?routes1 ! i)) ?routes1 = Some i"
      using findRoute_update_hit [OF fnd, of "(routes ! i)\<lparr>re_active := False\<rparr>"] i len by simp
    show "\<forall>e \<in> set es'. repeats ?routes1 i e"
      using steady(2) i len by (auto simp: repeats_def isBetterRoute_def split: table_event.splits)
  qed
  moreover have "fst (findNextHop ?dest now ?routes1) = None" for now
    using findRoute_update_hit [OF fnd, of "(routes ! i)\<lparr>re_active := False\<rparr>"] i len
    by (simp add: findNextHop_def)
  ultimately show ?thesis by auto
qed

lemma steady_neighbour_expires_witness:
  "\<exists>routes1. findNextHop (Id4 1 2 3 4) (0xFFFFFFFF + of_nat 300000)
        (fold table_step [Learn sample_packet 0xA6 5000] sample_table) = (None, routes1) \<and>
      (\<forall>now. fst (findNextHop (Id4 1 2 3 4) now (fold table_step [Learn sample_packet 0xA6 400000] routes1)) = None)"
proof -
  have r: "sample_table ! 0 = new_route sample_packet 0xA6 0xFFFFFFFF" by (simp add: sample_table_nth)
  have rep: "repeats sample_table 0 (Learn sample_packet 0xA6 now)" for now
    unfolding repeats_def r
    by (simp add: new_route_def isBetterRoute_def RSSI_UPPER_THRESHOLD_def RSSI_LOWER_THRESHOLD_def)
  have f: "re_active (sample_table ! 0)" "re_destId (sample_table ! 0) = Id4 1 2 3 4"
      "re_lastSeen (sample_table ! 0) = 0xFFFFFFFF"
    unfolding r by (simp_all add: new_route_def sample_packet_def)
  show ?thesis
    using steady_neighbour_expires [OF sample_table_inv _ f(1), of "[Learn sample_packet 0xA6 5000]"
        "[Learn sample_packet 0xA6 400000]" 300000] rep f
    by simp
qed

end
