(* ===== verification/RM_MicService.thy ===== *)
theory RM_MicService
  imports RM_EncryptionService
begin

text \<open>
  The message integrity service: \<open>src/src/core/protocol/inc/crypto/MicService.h\<close> and
  \<open>src/src/core/protocol/src/crypto/MicService.cpp\<close>. The service holds a pointer to the encryption
  service, \<open>None\<close> where it is null, and chooses the key of the AES-CMAC by topic. A result
  \<open>None\<close> is undefined behaviour (a 24-byte network key, see \<open>RM_AesCmac\<close>).
\<close>

section \<open>Payload and code\<close>

definition extractMIC :: "bytes \<Rightarrow> bytes" where
  "extractMIC payloadWithMic =
     (if length payloadWithMic < 4 then [] else drop (length payloadWithMic - 4) payloadWithMic)"

definition getPayloadWithoutMIC :: "bytes \<Rightarrow> bytes" where
  "getPayloadWithoutMIC payloadWithMic =
     (if length payloadWithMic < 4 then payloadWithMic
      else take (length payloadWithMic - 4) payloadWithMic)"

definition mic_appendMIC :: "bytes \<Rightarrow> bytes \<Rightarrow> bytes" where
  "mic_appendMIC payload mic = (if length mic \<noteq> 4 then payload else payload @ mic)"

definition requiresMIC :: "byte \<Rightarrow> bool" where
  "requiresMIC topic \<longleftrightarrow> topic \<noteq> T_INCLUDE_OPEN \<and> topic \<noteq> T_INCLUDE_REQUEST"

section \<open>Keys\<close>

definition ecies_pair :: "encryption_service \<Rightarrow> byte \<Rightarrow> device_type \<Rightarrow> (bytes \<times> bytes) option" where
  "ecies_pair es topic dt =
     (if topic = T_INCLUDE_REQUEST then Some (devicePrivateKey es, hubPublicKey es)
      else if topic = T_INCLUDE_RESPONSE then
        (if dt = HUB then Some (devicePrivateKey es, tempDevicePublicKey es)
         else Some (devicePrivateKey es, hubPublicKey es))
      else None)"

definition getECIESMacKey :: "crypto_lib \<Rightarrow> encryption_service option \<Rightarrow> byte \<Rightarrow> device_type \<Rightarrow> bytes" where
  "getECIESMacKey lib esp topic dt =
     (case esp of
        None \<Rightarrow> []
      | Some es \<Rightarrow>
          (case ecies_pair es topic dt of
             None \<Rightarrow> []
           | Some (privateKey, publicKey) \<Rightarrow>
               (if privateKey = [] \<or> publicKey = [] then []
                else if length privateKey \<noteq> 32 \<or> length publicKey \<noteq> 32 then []
                else case cl_curve lib privateKey publicKey of
                       None \<Rightarrow> []
                     | Some sharedSecret \<Rightarrow> cl_sha256 lib sharedSecret)))"

definition getMICKey ::
  "crypto_lib \<Rightarrow> encryption_service option \<Rightarrow> byte \<Rightarrow> device_type \<Rightarrow> inclusion_state \<Rightarrow> bytes" where
  "getMICKey lib esp topic dt st =
     (case esp of
        None \<Rightarrow> []
      | Some es \<Rightarrow>
          (if topic = T_INCLUDE_OPEN \<or> topic = T_INCLUDE_REQUEST then []
           else if topic = T_INCLUDE_RESPONSE then getECIESMacKey lib esp topic dt
           else if topic = T_INCLUDE_CONFIRM \<or> topic = T_INCLUDE_SUCCESS then networkKey es
           else if st = INCLUDED \<or> dt = HUB then networkKey es
           else []))"

section \<open>Computation and verification\<close>

definition computePacketMIC ::
  "crypto_lib \<Rightarrow> encryption_service option \<Rightarrow> bytes \<Rightarrow> bytes \<Rightarrow> byte \<Rightarrow> device_type \<Rightarrow> inclusion_state \<Rightarrow>
   bytes option" where
  "computePacketMIC lib esp header payload topic dt st =
     (if \<not> requiresMIC topic then Some []
      else let micKey = getMICKey lib esp topic dt st in
      if micKey = [] then Some []
      else do {
        mic \<leftarrow> computeMIC (cl_aes lib) micKey (header @ payload);
        Some (if length mic \<noteq> 4 then [] else mic) })"

definition verifyPacketMIC ::
  "crypto_lib \<Rightarrow> encryption_service option \<Rightarrow> bytes \<Rightarrow> bytes \<Rightarrow> bytes \<Rightarrow> byte \<Rightarrow> device_type \<Rightarrow>
   inclusion_state \<Rightarrow> bool option" where
  "verifyPacketMIC lib esp header payload receivedMic topic dt st =
     (if \<not> requiresMIC topic then Some True
      else if length receivedMic \<noteq> 4 then Some False
      else let micKey = getMICKey lib esp topic dt st in
      if micKey = [] then Some False
      else verifyMIC (cl_aes lib) micKey (header @ payload) receivedMic)"

section \<open>Facts on payloads\<close>

lemma mic_split_append:
  "length mic = 4 \<Longrightarrow> extractMIC (mic_appendMIC payload mic) = mic \<and>
     getPayloadWithoutMIC (mic_appendMIC payload mic) = payload"
  by (simp add: extractMIC_def getPayloadWithoutMIC_def mic_appendMIC_def)

lemma mic_append_split:
  "4 \<le> length p \<Longrightarrow> mic_appendMIC (getPayloadWithoutMIC p) (extractMIC p) = p"
  by (simp add: extractMIC_def getPayloadWithoutMIC_def mic_appendMIC_def)

section \<open>Keys on both sides\<close>

lemma micKey_network:
  assumes "determineCryptoMethod topic dt st = M_AES"
  shows "getMICKey lib (Some es) topic dt st = networkKey es"
  using assms by (auto simp: method_AES_iff getMICKey_def)

lemma requiresMIC_AES: "determineCryptoMethod topic dt st = M_AES \<Longrightarrow> requiresMIC topic"
  by (auto simp: method_AES_iff requiresMIC_def)

lemma micKey_response_hub:
  assumes "length (devicePrivateKey es) = 32" "length (tempDevicePublicKey es) = 32"
    and "cl_curve lib (devicePrivateKey es) (tempDevicePublicKey es) = Some sec"
  shows "getMICKey lib (Some es) T_INCLUDE_RESPONSE HUB st = cl_sha256 lib sec"
  using assms by (auto simp: getMICKey_def getECIESMacKey_def ecies_pair_def)

lemma micKey_response_device:
  assumes "length (devicePrivateKey es) = 32" "length (hubPublicKey es) = 32"
    and "cl_curve lib (devicePrivateKey es) (hubPublicKey es) = Some sec" and "dt \<noteq> HUB"
  shows "getMICKey lib (Some es) T_INCLUDE_RESPONSE dt st = cl_sha256 lib sec"
  using assms by (auto simp: getMICKey_def getECIESMacKey_def ecies_pair_def)

lemma good_key_32: "cipher_laws (cl_aes lib) \<Longrightarrow> length key = 32 \<Longrightarrow>
    (case (cl_aes lib, key) of (E, key) \<Rightarrow> cipher_laws E \<and> (length key = 16 \<or> length key = 32))"
  by simp

lemma computePacketMIC_key:
  assumes "cipher_laws (cl_aes lib)" and "requiresMIC topic"
    and "getMICKey lib esp topic dt st = key" and "length key = 32"
  shows "\<exists>mic. computePacketMIC lib esp header payload topic dt st = Some mic \<and> length mic = 4 \<and>
    computeMIC (cl_aes lib) key (header @ payload) = Some mic"
  using assms computeMIC_total [of "cl_aes lib" key "header @ payload"]
  by (auto simp: computePacketMIC_def)

lemma verifyPacketMIC_key:
  assumes "cipher_laws (cl_aes lib)" and "requiresMIC topic"
    and "getMICKey lib esp topic dt st = key" and "length key = 32"
  shows "verifyPacketMIC lib esp header payload mic topic dt st =
    Some (computeMIC (cl_aes lib) key (header @ payload) = Some mic)"
proof (cases "length mic = 4")
  case True
  then show ?thesis
    using assms cmac.verify_law [OF good_key_32 [OF assms(1,4)], of "header @ payload" mic]
    by (auto simp: verifyPacketMIC_def)
next
  case False
  then show ?thesis
    using assms computeMIC_total [of "cl_aes lib" key "header @ payload"]
    by (auto simp: verifyPacketMIC_def)
qed

lemma verifyPacketMIC_computed:
  assumes lib: "cipher_laws (cl_aes lib)" and topic: "requiresMIC topic"
    and k1: "getMICKey lib esp1 topic dt1 st1 = key" and k2: "getMICKey lib esp2 topic dt2 st2 = key"
    and len: "length key = 32"
  shows "\<exists>mic. computePacketMIC lib esp1 header payload topic dt1 st1 = Some mic \<and> length mic = 4 \<and>
    (\<forall>m. verifyPacketMIC lib esp2 header payload m topic dt2 st2 = Some (m = mic))"
  using computePacketMIC_key [OF lib topic k1 len, of header payload]
    verifyPacketMIC_key [OF lib topic k2 len, of header payload]
  by auto

text \<open>For a message under the network key, the sender's code is four bytes, and the receiver
  with the same network key accepts this code and no other for the header and payload as sent.\<close>

theorem mic_network_agreement:
  assumes lib: "cipher_laws (cl_aes lib)" and key: "length (networkKey es1) = 32" "networkKey es2 = networkKey es1"
    and m1: "determineCryptoMethod topic dt1 st1 = M_AES"
    and m2: "determineCryptoMethod topic dt2 st2 = M_AES"
  shows "\<exists>mic. computePacketMIC lib (Some es1) header payload topic dt1 st1 = Some mic \<and> length mic = 4 \<and>
    (\<forall>m. verifyPacketMIC lib (Some es2) header payload m topic dt2 st2 = Some (m = mic))"
  by (rule verifyPacketMIC_computed [OF lib requiresMIC_AES [OF m1] micKey_network [OF m1]])
    (simp_all add: micKey_network [OF m2] key)

lemma toy_cl_aes: "cipher_laws (cl_aes toy_lib)"
  by (simp add: toy_lib_def toy_cipher_laws)

lemma mic_network_agreement_witness:
  "\<exists>mic. computePacketMIC toy_lib (Some toy_device) [1] [2, 3] 0x20 STANDARD INCLUDED = Some mic \<and> length mic = 4 \<and>
    (\<forall>m. verifyPacketMIC toy_lib (Some toy_hub) [1] [2, 3] m 0x20 HUB NOT_INCLUDED = Some (m = mic))"
  by (rule mic_network_agreement [OF toy_cl_aes])
    (simp_all add: toy_hub_def toy_device_def determineCryptoMethod_def)

text \<open>The inclusion response is authenticated by the key agreement: the hub computes its code
  with its private key and the device's public key, the device verifies with its own private key
  and the hub's public key, and accepts exactly the hub's code.\<close>

theorem mic_response_agreement:
  assumes lib: "cipher_laws (cl_aes lib)" "sha_laws lib" "ecdh_laws lib keypair"
    and hub: "keypair (devicePrivateKey hub) hubPub" and dev: "keypair (devicePrivateKey dev) devPub"
    and known: "tempDevicePublicKey hub = devPub" "hubPublicKey dev = hubPub" and role: "dt \<noteq> HUB"
  shows "\<exists>mic. computePacketMIC lib (Some hub) header payload T_INCLUDE_RESPONSE HUB st1 = Some mic \<and>
    length mic = 4 \<and>
    (\<forall>m. verifyPacketMIC lib (Some dev) header payload m T_INCLUDE_RESPONSE dt st2 = Some (m = mic))"
proof -
  have len: "length (devicePrivateKey hub) = 32" "length hubPub = 32" "length (devicePrivateKey dev) = 32"
      "length devPub = 32"
    using lib(3) hub dev by (auto simp: ecdh_laws_def)
  obtain sec where sec: "cl_curve lib (devicePrivateKey hub) devPub = Some sec"
      "cl_curve lib (devicePrivateKey dev) hubPub = Some sec"
    using lib(3) hub dev unfolding ecdh_laws_def by (metis option.exhaust)
  have k1: "getMICKey lib (Some hub) T_INCLUDE_RESPONSE HUB st1 = cl_sha256 lib sec"
    by (rule micKey_response_hub) (use known len sec in simp_all)
  have k2: "getMICKey lib (Some dev) T_INCLUDE_RESPONSE dt st2 = cl_sha256 lib sec"
    by (rule micKey_response_device) (use known len sec role in simp_all)
  have k: "length (cl_sha256 lib sec) = 32" using lib(2) by (simp add: sha_laws_def)
  show ?thesis by (rule verifyPacketMIC_computed [OF lib(1) _ k1 k2 k]) (simp add: requiresMIC_def)
qed

lemma mic_response_agreement_witness:
  "\<exists>mic. computePacketMIC toy_lib (Some toy_hub) [1] [2] T_INCLUDE_RESPONSE HUB NOT_INCLUDED = Some mic \<and>
    length mic = 4 \<and>
    (\<forall>m. verifyPacketMIC toy_lib (Some toy_device) [1] [2] m T_INCLUDE_RESPONSE STANDARD INCLUSION_PENDING =
       Some (m = mic))"
  by (rule mic_response_agreement [OF toy_cl_aes toy_sha_laws toy_ecdh_laws])
    (simp_all add: toy_hub_def toy_device_def toy_keypair_def)

text \<open>Verification fails closed: with no encryption service, or with no key for the topic (a
  device that is not included and not a hub, for an application message; a device that has no
  network key yet; a device that lacks a key of the agreement), every code is rejected, for every
  topic but the two that carry public keys, which are always accepted.\<close>

theorem verify_fails_closed:
  "(topic \<in> {T_INCLUDE_OPEN, T_INCLUDE_REQUEST} \<longrightarrow>
      verifyPacketMIC lib esp header payload mic topic dt st = Some True) \<and>
   (topic \<notin> {T_INCLUDE_OPEN, T_INCLUDE_REQUEST} \<longrightarrow>
      (esp = None \<or>
       (\<exists>es. esp = Some es \<and> topic \<noteq> T_INCLUDE_RESPONSE \<and> networkKey es = []) \<or>
       determineCryptoMethod topic dt st = M_NONE \<or>
       (\<exists>es. esp = Some es \<and> topic = T_INCLUDE_RESPONSE \<and>
          (devicePrivateKey es = [] \<or> (if dt = HUB then tempDevicePublicKey es else hubPublicKey es) = []))) \<longrightarrow>
      verifyPacketMIC lib esp header payload mic topic dt st = Some False)"
proof (intro conjI impI)
  assume "topic \<in> {T_INCLUDE_OPEN, T_INCLUDE_REQUEST}"
  then show "verifyPacketMIC lib esp header payload mic topic dt st = Some True"
    by (auto simp: verifyPacketMIC_def requiresMIC_def)
next
  assume topic: "topic \<notin> {T_INCLUDE_OPEN, T_INCLUDE_REQUEST}"
    and bad: "esp = None \<or>
       (\<exists>es. esp = Some es \<and> topic \<noteq> T_INCLUDE_RESPONSE \<and> networkKey es = []) \<or>
       determineCryptoMethod topic dt st = M_NONE \<or>
       (\<exists>es. esp = Some es \<and> topic = T_INCLUDE_RESPONSE \<and>
          (devicePrivateKey es = [] \<or> (if dt = HUB then tempDevicePublicKey es else hubPublicKey es) = []))"
  have "getMICKey lib esp topic dt st = []"
  proof (cases esp)
    case None
    then show ?thesis by (simp add: getMICKey_def)
  next
    case (Some es)
    have "topic \<noteq> T_INCLUDE_RESPONSE \<and> networkKey es = [] \<or> determineCryptoMethod topic dt st = M_NONE \<or>
        topic = T_INCLUDE_RESPONSE \<and>
          (devicePrivateKey es = [] \<or> (if dt = HUB then tempDevicePublicKey es else hubPublicKey es) = [])"
      using bad Some by auto
    then consider "topic \<noteq> T_INCLUDE_RESPONSE" "networkKey es = []"
      | "determineCryptoMethod topic dt st = M_NONE"
      | "topic = T_INCLUDE_RESPONSE" "devicePrivateKey es = [] \<or> (if dt = HUB then tempDevicePublicKey es else hubPublicKey es) = []"
      by blast
    then show ?thesis
    proof cases
      case 1
      with Some topic show ?thesis by (simp add: getMICKey_def)
    next
      case 2
      with Some topic show ?thesis by (simp add: getMICKey_def method_NONE_iff)
    next
      case 3
      with Some show ?thesis by (auto simp: getMICKey_def getECIESMacKey_def ecies_pair_def)
    qed
  qed
  then show "verifyPacketMIC lib esp header payload mic topic dt st = Some False"
    using topic by (simp add: verifyPacketMIC_def requiresMIC_def)
qed

lemma verify_fails_closed_witness:
  "verifyPacketMIC toy_lib (Some toy_hub) [1] [2] [0, 0, 0, 0] 0x20 STANDARD NOT_INCLUDED = Some False"
  using conjunct2 [OF verify_fails_closed [where topic = "0x20" and lib = toy_lib and esp = "Some toy_hub" and
      header = "[1]" and payload = "[2]" and mic = "[0, 0, 0, 0]" and dt = STANDARD and st = NOT_INCLUDED]]
  by (simp add: determineCryptoMethod_def)

end
