(* ===== verification/RM_Radio.thy ===== *)
theory RM_Radio
  imports RM_Types Complex_Main
begin

text \<open>
  The LoRa radio: \<open>src/src/hardware/inc/radio/LoraRadio.h\<close>,
  \<open>src/src/hardware/src/radio/LoraRadio.cpp\<close>, the interface
  \<open>src/src/framework/interfaces/IRadio.h\<close> and the parameters of
  \<open>src/src/common/inc/RadioConfigs.h\<close>. The driver (RadioLib) is a record of functions of the
  number of driver calls made before, so every call may answer differently; its error codes are
  the cases the code distinguishes. The state counts the driver calls and logs the frames the
  driver accepted. A \<open>float\<close> is the real number it stands for (not-a-number is left out). The
  interrupt handler runs as one step between the other operations.
\<close>

section \<open>The driver\<close>

datatype radiolib_err = ERR_NONE | ERR_PACKET_TOO_LONG | ERR_TX_TIMEOUT | ERR_INVALID_FREQUENCY
  | ERR_INVALID_BANDWIDTH | ERR_INVALID_SPREADING_FACTOR | ERR_INVALID_OUTPUT_POWER | ERR_OTHER int

record radiolib =
  rl_begin :: "nat \<Rightarrow> radiolib_err"
  rl_setFrequency :: "nat \<Rightarrow> real \<Rightarrow> radiolib_err"
  rl_setBandwidth :: "nat \<Rightarrow> real \<Rightarrow> radiolib_err"
  rl_setSpreadingFactor :: "nat \<Rightarrow> byte \<Rightarrow> radiolib_err"
  rl_setOutputPower :: "nat \<Rightarrow> byte \<Rightarrow> radiolib_err"
  rl_setSyncWord :: "nat \<Rightarrow> byte \<Rightarrow> radiolib_err"
  rl_startReceive :: "nat \<Rightarrow> radiolib_err"
  rl_startTransmit :: "nat \<Rightarrow> bytes \<Rightarrow> radiolib_err"
  rl_standby :: "nat \<Rightarrow> radiolib_err"
  rl_sleep :: "nat \<Rightarrow> radiolib_err"
  rl_getPacketLength :: "nat \<Rightarrow> int"
  rl_readData :: "nat \<Rightarrow> nat \<Rightarrow> bytes \<times> radiolib_err"
  rl_getRSSI :: "nat \<Rightarrow> int"
  rl_getSNR :: "nat \<Rightarrow> real"

text \<open>The interrupt status bits that are looked at.\<close>

record irq_flags =
  IRQ_RX_DONE :: bool
  IRQ_TX_DONE :: bool
  IRQ_TIMEOUT :: bool
  IRQ_CRC_ERR :: bool
  IRQ_HEADER_ERR :: bool

section \<open>Parameters\<close>

record lora_params =
  lp_ss :: int
  lp_rst :: int
  lp_di0 :: int
  lp_di1 :: int
  lp_band :: real
  lp_txPower :: byte
  lp_bw :: real
  lp_sf :: byte
  lp_gain :: byte
  lp_privateNetwork :: bool

definition PIN_UNDEFINED :: int where "PIN_UNDEFINED = 0"

definition LoraRadioParams :: lora_params where
  "LoraRadioParams = \<lparr>lp_ss = 10, lp_rst = 9, lp_di0 = 2, lp_di1 = 3, lp_band = 915, lp_txPower = 14,
     lp_bw = 125, lp_sf = 7, lp_gain = 0, lp_privateNetwork = True\<rparr>"

definition lora_validate :: "lora_params \<Rightarrow> bool" where
  "lora_validate p = (if sint (lp_txPower p) < 2 \<or> sint (lp_txPower p) > 20 then False else True)"

definition lora_isInitialized :: "lora_params \<Rightarrow> bool" where
  "lora_isInitialized p \<longleftrightarrow>
     lp_ss p \<noteq> lp_ss LoraRadioParams \<and> lp_rst p \<noteq> lp_rst LoraRadioParams \<and>
     lp_di0 p \<noteq> lp_di0 LoraRadioParams \<and> lp_di1 p \<noteq> lp_di1 LoraRadioParams"

definition checkLoraParameters :: "lora_params \<Rightarrow> rc" where
  "checkLoraParameters p =
     (if lp_sf p < 6 \<or> lp_sf p > 12 then RM_E_INVALID_PARAM
      else if lp_band p < 150 \<or> lp_band p > 960 then RM_E_INVALID_PARAM
      else if sint (lp_txPower p) < -9 \<or> sint (lp_txPower p) > 22 then RM_E_INVALID_PARAM
      else if lp_bw p < 7.8 \<or> lp_bw p > 500 then RM_E_INVALID_PARAM
      else if lp_gain p < 0 \<or> lp_gain p > 3 then RM_E_INVALID_PARAM
      else RM_E_NONE)"

text \<open>The setters of the parameters, and the presets of the supported boards.\<close>

definition setPinConfig :: "int \<Rightarrow> int \<Rightarrow> int \<Rightarrow> int \<Rightarrow> lora_params \<Rightarrow> lora_params" where
  "setPinConfig ss rst di0 di1 p = p\<lparr>lp_ss := ss, lp_rst := rst, lp_di0 := di0, lp_di1 := di1\<rparr>"

definition setBand :: "real \<Rightarrow> lora_params \<Rightarrow> lora_params" where
  "setBand band p = p\<lparr>lp_band := band\<rparr>"

definition setTxPower :: "byte \<Rightarrow> lora_params \<Rightarrow> lora_params" where
  "setTxPower txPower p = p\<lparr>lp_txPower := txPower\<rparr>"

definition setBW :: "real \<Rightarrow> lora_params \<Rightarrow> lora_params" where
  "setBW bw p = p\<lparr>lp_bw := bw\<rparr>"

definition setSF :: "byte \<Rightarrow> lora_params \<Rightarrow> lora_params" where
  "setSF sf p = p\<lparr>lp_sf := sf\<rparr>"

definition setGain :: "byte \<Rightarrow> lora_params \<Rightarrow> lora_params" where
  "setGain gain p = p\<lparr>lp_gain := gain\<rparr>"

definition setPrivateNetwork :: "bool \<Rightarrow> lora_params \<Rightarrow> lora_params" where
  "setPrivateNetwork privateNetwork p = p\<lparr>lp_privateNetwork := privateNetwork\<rparr>"

definition HELTEC_WIFI_LORA_32_V3 :: lora_params where
  "HELTEC_WIFI_LORA_32_V3 = \<lparr>lp_ss = 8, lp_rst = 12, lp_di0 = 13, lp_di1 = 14, lp_band = 915, lp_txPower = 20,
     lp_bw = 125, lp_sf = 8, lp_gain = 0, lp_privateNetwork = True\<rparr>"

definition HELTEC_CUBECELL :: lora_params where
  "HELTEC_CUBECELL = \<lparr>lp_ss = 35, lp_rst = 47, lp_di0 = 39, lp_di1 = 38, lp_band = 915, lp_txPower = 20,
     lp_bw = 125, lp_sf = 8, lp_gain = 0, lp_privateNetwork = True\<rparr>"

definition XIAO_ESP32S3_WIO_SX1262 :: lora_params where
  "XIAO_ESP32S3_WIO_SX1262 = \<lparr>lp_ss = 41, lp_rst = 42, lp_di0 = 40, lp_di1 = 39, lp_band = 915, lp_txPower = 20,
     lp_bw = 125, lp_sf = 8, lp_gain = 0, lp_privateNetwork = True\<rparr>"

text \<open>Every preset is accepted by \<open>setup\<close> and has its slave select pin; two boards of different
  makes hear each other, since the presets differ in the pins only.\<close>

lemma presets_ok:
  "\<forall>p \<in> {HELTEC_WIFI_LORA_32_V3, HELTEC_CUBECELL, XIAO_ESP32S3_WIO_SX1262}.
     checkLoraParameters p = RM_E_NONE \<and> lora_validate p \<and> lora_isInitialized p \<and> lp_ss p \<noteq> PIN_UNDEFINED \<and>
     setPinConfig 10 9 2 3 p = setTxPower 20 (setSF 8 LoraRadioParams)"
  by (simp add: HELTEC_WIFI_LORA_32_V3_def HELTEC_CUBECELL_def XIAO_ESP32S3_WIO_SX1262_def checkLoraParameters_def
      lora_validate_def lora_isInitialized_def PIN_UNDEFINED_def setPinConfig_def setTxPower_def setSF_def LoraRadioParams_def)

section \<open>State\<close>

text \<open>\<open>ra_module\<close> says that the \<open>radio\<close> pointer is not null; \<open>ra_calls\<close> and \<open>ra_sent\<close> are the
  number of driver calls and the frames accepted for transmission.\<close>

record radio =
  ra_module :: bool
  rxDone :: bool
  txDone :: bool
  isSetup :: bool
  radioStateError :: rc
  radioParams :: lora_params
  ra_calls :: nat
  ra_sent :: "bytes list"

definition LoraRadio :: radio where
  "LoraRadio = \<lparr>ra_module = False, rxDone = False, txDone = False, isSetup = False,
     radioStateError = RM_E_NONE, radioParams = LoraRadioParams, ra_calls = 0, ra_sent = []\<rparr>"

definition tick :: "radio \<Rightarrow> radio" where
  "tick r = r\<lparr>ra_calls := ra_calls r + 1\<rparr>"

section \<open>Operations\<close>

datatype radio_flag = RX_TX_STATE | RX_STATE | TX_STATE

definition resetRadioState :: "radio_flag \<Rightarrow> radio \<Rightarrow> radio" where
  "resetRadioState flag r =
     (case flag of
        RX_TX_STATE \<Rightarrow> r\<lparr>rxDone := False, txDone := False\<rparr>
      | RX_STATE \<Rightarrow> r\<lparr>rxDone := False\<rparr>
      | TX_STATE \<Rightarrow> r\<lparr>txDone := False\<rparr>)\<lparr>radioStateError := RM_E_NONE\<rparr>"

definition radio_setParams :: "lora_params \<Rightarrow> radio \<Rightarrow> rc \<times> radio" where
  "radio_setParams p r =
     (if checkLoraParameters p \<noteq> RM_E_NONE then (RM_E_INVALID_RADIO_PARAMS, r)
      else (RM_E_NONE, r\<lparr>radioParams := p\<rparr>))"

definition createModule :: "lora_params \<Rightarrow> radio \<Rightarrow> rc \<times> radio" where
  "createModule p r =
     (if lp_ss p = PIN_UNDEFINED then (RM_E_INVALID_RADIO_PARAMS, r)
      else (RM_E_NONE, r\<lparr>ra_module := True, radioParams := p\<rparr>))"

definition startReceive :: "radiolib \<Rightarrow> radio \<Rightarrow> (rc \<times> radio) option" where
  "startReceive rl r =
     (if \<not> isSetup r then Some (RM_E_RADIO_NOT_INITIALIZED, r)
      else do {
        guard_ok (ra_module r);
        let state = rl_startReceive rl (ra_calls r);
        Some (if state \<noteq> ERR_NONE then RM_E_RADIO_NOT_INITIALIZED else RM_E_NONE, tick r) })"

text \<open>A configuration call: the whole setup stops when \<open>bad\<close> holds of the driver's answer.\<close>

definition config_call ::
  "(nat \<Rightarrow> radiolib_err) \<Rightarrow> (radiolib_err \<Rightarrow> bool) \<Rightarrow> (radio \<Rightarrow> (rc \<times> radio) option) \<Rightarrow> radio \<Rightarrow>
   (rc \<times> radio) option" where
  "config_call f bad cont r =
     (if bad (f (ra_calls r)) then Some (RM_E_RADIO_SETUP, tick r) else cont (tick r))"

definition radio_setup :: "radiolib \<Rightarrow> lora_params \<Rightarrow> radio \<Rightarrow> (rc \<times> radio) option" where
  "radio_setup rl p r0 =
     (case createModule p r0 of (rc, r) \<Rightarrow>
      if rc \<noteq> RM_E_NONE then Some (rc, r)
      else if checkLoraParameters p \<noteq> RM_E_NONE then Some (checkLoraParameters p, r)
      else
        config_call (rl_begin rl) (\<lambda>e. e \<noteq> ERR_NONE) (
        config_call (\<lambda>n. rl_setFrequency rl n (lp_band p)) (\<lambda>e. e = ERR_INVALID_FREQUENCY) (
        config_call (\<lambda>n. rl_setBandwidth rl n (lp_bw p)) (\<lambda>e. e = ERR_INVALID_BANDWIDTH) (
        config_call (\<lambda>n. rl_setSpreadingFactor rl n (lp_sf p)) (\<lambda>e. e = ERR_INVALID_SPREADING_FACTOR) (
        config_call (\<lambda>n. rl_setOutputPower rl n (lp_txPower p)) (\<lambda>e. e = ERR_INVALID_OUTPUT_POWER) (
        config_call (\<lambda>n. rl_setSyncWord rl n (if lp_privateNetwork p then 0x12 else 0x34)) (\<lambda>e. e \<noteq> ERR_NONE) (
        \<lambda>r1. do {
          (rc1, r2) \<leftarrow> startReceive rl (r1\<lparr>isSetup := True\<rparr>);
          Some (if rc1 \<noteq> RM_E_NONE then (rc1, r2) else (RM_E_NONE, r2\<lparr>radioParams := p\<rparr>)) }
        )))))) r)"

definition radio_setup_stored :: "radiolib \<Rightarrow> radio \<Rightarrow> (rc \<times> radio) option" where
  "radio_setup_stored rl r = radio_setup rl (radioParams r) r"

definition startTransmitPacket :: "radiolib \<Rightarrow> bytes \<Rightarrow> radio \<Rightarrow> (rc \<times> radio) option" where
  "startTransmitPacket rl data r = do {
     let r1 = resetRadioState TX_STATE r;
     guard_ok (ra_module r1);
     Some (case rl_startTransmit rl (ra_calls r1) data of
         ERR_NONE \<Rightarrow> (RM_E_NONE, (tick r1)\<lparr>ra_sent := ra_sent r1 @ [data]\<rparr>)
       | ERR_PACKET_TOO_LONG \<Rightarrow> (RM_E_PACKET_TOO_LONG, tick r1)
       | ERR_TX_TIMEOUT \<Rightarrow> (RM_E_RADIO_TX_TIMEOUT, tick r1)
       | _ \<Rightarrow> (RM_E_RADIO_TX, tick r1)) }"

definition radio_sendPacket :: "radiolib \<Rightarrow> bytes \<Rightarrow> radio \<Rightarrow> (rc \<times> radio) option" where
  "radio_sendPacket rl data r = startTransmitPacket rl data r"

definition radio_standBy :: "radiolib \<Rightarrow> radio \<Rightarrow> (rc \<times> radio) option" where
  "radio_standBy rl r = do {
     guard_ok (ra_module r);
     Some (if rl_standby rl (ra_calls r) \<noteq> ERR_NONE then RM_E_RADIO_FAILURE else RM_E_NONE, tick r) }"

definition radio_sleep :: "radiolib \<Rightarrow> radio \<Rightarrow> (rc \<times> radio) option" where
  "radio_sleep rl r = do {
     guard_ok (ra_module r);
     Some (if rl_sleep rl (ra_calls r) \<noteq> ERR_NONE then RM_E_RADIO_FAILURE else RM_E_NONE, tick r) }"

definition radio_getRSSI :: "radiolib \<Rightarrow> radio \<Rightarrow> (int \<times> radio) option" where
  "radio_getRSSI rl r = do { guard_ok (ra_module r); Some (rl_getRSSI rl (ra_calls r), tick r) }"

definition radio_getSNR :: "radiolib \<Rightarrow> radio \<Rightarrow> (real \<times> radio) option" where
  "radio_getSNR rl r = do { guard_ok (ra_module r); Some (rl_getSNR rl (ra_calls r), tick r) }"

text \<open>The buffer is an output argument: it is given back unchanged on the early returns.\<close>

definition readReceivedData :: "radiolib \<Rightarrow> bytes \<Rightarrow> radio \<Rightarrow> (rc \<times> bytes \<times> radio) option" where
  "readReceivedData rl packetBytes r =
     (if \<not> isSetup r then Some (RM_E_RADIO_NOT_INITIALIZED, packetBytes, r)
      else do {
        guard_ok (ra_module r);
        let packet_length = rl_getPacketLength rl (ra_calls r);
        let r1 = tick r;
        if packet_length < 0 then Some (RM_E_RADIO_FAILURE, packetBytes, r1)
        else do {
          let (content, err) = rl_readData rl (ra_calls r1) (nat packet_length);
          let r2 = tick r1;
          Some (if err \<noteq> ERR_NONE then (RM_E_RADIO_FAILURE, content, r2)
                else (RM_E_NONE, content, resetRadioState RX_TX_STATE r2)) } })"

text \<open>The interrupt handler, with the status word it reads.\<close>

definition onInterrupt :: "irq_flags \<Rightarrow> radio \<Rightarrow> radio option" where
  "onInterrupt irq r = do {
     guard_ok (ra_module r);
     let r1 = (if IRQ_RX_DONE irq then r\<lparr>rxDone := True\<rparr> else r);
     let r2 = (if IRQ_TX_DONE irq then r1\<lparr>txDone := True\<rparr> else r1);
     let r3 = (if IRQ_TIMEOUT irq then
                 (let ra = (if rxDone r2 then r2\<lparr>radioStateError := RM_E_RADIO_RX_TIMEOUT\<rparr> else r2)
                  in if txDone ra then ra\<lparr>radioStateError := RM_E_RADIO_TX_TIMEOUT\<rparr> else ra)
               else r2);
     let r4 = (if IRQ_CRC_ERR irq then r3\<lparr>radioStateError := RM_E_RADIO_CRC_MISMATCH\<rparr> else r3);
     let r5 = (if IRQ_HEADER_ERR irq then r4\<lparr>radioStateError := RM_E_RADIO_HEADER_CRC_MISMATCH\<rparr> else r4);
     Some r5 }"

definition checkAndClearRxFlag :: "radio \<Rightarrow> bool \<times> radio" where
  "checkAndClearRxFlag r = (if rxDone r then (True, r\<lparr>rxDone := False\<rparr>) else (False, r))"

definition checkAndClearTxFlag :: "radio \<Rightarrow> bool \<times> radio" where
  "checkAndClearTxFlag r = (if txDone r then (True, r\<lparr>txDone := False\<rparr>) else (False, r))"

definition switchToReceiveMode :: "radiolib \<Rightarrow> radio \<Rightarrow> (rc \<times> radio) option" where
  "switchToReceiveMode rl r =
     (if \<not> isSetup r then Some (RM_E_RADIO_NOT_INITIALIZED, r)
      else startReceive rl (resetRadioState RX_TX_STATE r))"

definition getRadioStateError :: "radiolib \<Rightarrow> radio \<Rightarrow> (rc \<times> radio) option" where
  "getRadioStateError rl r = do {
     r1 \<leftarrow> (if radioStateError r \<noteq> RM_E_NONE
            then map_option snd (switchToReceiveMode rl (resetRadioState RX_TX_STATE r))
            else Some r);
     Some (radioStateError r1, r1) }"

section \<open>Invariant\<close>

text \<open>A radio that is set up has a driver object.\<close>

definition radio_inv :: "radio \<Rightarrow> bool" where
  "radio_inv r \<longleftrightarrow> (isSetup r \<longrightarrow> ra_module r)"

lemma radio_inv_init: "radio_inv LoraRadio"
  by (simp add: radio_inv_def LoraRadio_def)

lemma tick_simps [simp, frame_simps]:
  "ra_module (tick r) = ra_module r" "rxDone (tick r) = rxDone r" "txDone (tick r) = txDone r"
  "isSetup (tick r) = isSetup r" "radioStateError (tick r) = radioStateError r"
  "radioParams (tick r) = radioParams r" "ra_sent (tick r) = ra_sent r" "ra_calls (tick r) = Suc (ra_calls r)"
  by (simp_all add: tick_def)

lemma resetRadioState_frame [simp, frame_simps]:
  "ra_module (resetRadioState f r) = ra_module r" "isSetup (resetRadioState f r) = isSetup r"
  "radioParams (resetRadioState f r) = radioParams r" "ra_sent (resetRadioState f r) = ra_sent r"
  "ra_calls (resetRadioState f r) = ra_calls r" "radioStateError (resetRadioState f r) = RM_E_NONE"
  by (simp_all add: resetRadioState_def split: radio_flag.splits)

lemma startReceive_frame:
  assumes "startReceive rl r = Some (rc, r')"
  shows "r' = r \<or> r' = tick r"
  using assms by (auto simp: startReceive_def split: if_splits)

lemma startReceive_total: "radio_inv r \<Longrightarrow> \<exists>rc r'. startReceive rl r = Some (rc, r')"
  by (simp add: startReceive_def radio_inv_def)

lemma config_call_Some:
  assumes "config_call f bad cont r = Some (RM_E_NONE, r')"
  shows "\<not> bad (f (ra_calls r)) \<and> cont (tick r) = Some (RM_E_NONE, r')"
  using assms by (auto simp: config_call_def split: if_splits)

lemma config_call_inv:
  assumes "config_call f bad cont r = Some (rc, r')" and "P (tick r)"
    and "\<And>r1. cont (tick r) = Some (rc, r1) \<Longrightarrow> P r1"
  shows "P r'"
  using assms by (auto simp: config_call_def split: if_splits)

section \<open>Frames\<close>

text \<open>What the router needs of a radio: sending appends the frame to those on the air exactly when
  it reports success, and otherwise leaves them alone.\<close>

locale frame_sink =
  fixes ready :: "'s \<Rightarrow> bool"
    and frames :: "'s \<Rightarrow> bytes list"
    and send :: "'d \<Rightarrow> bytes \<Rightarrow> 's \<Rightarrow> (rc \<times> 's) option"
  assumes send_total: "ready s \<Longrightarrow> \<exists>r s'. send d x s = Some (r, s')"
    and send_law: "send d x s = Some (r, s') \<Longrightarrow>
      ready s' \<and> frames s' = (if r = RM_E_NONE then frames s @ [x] else frames s)"
begin

lemma send_ok_iff: "send d x s = Some (r, s') \<Longrightarrow> frames s' \<noteq> frames s \<longleftrightarrow> r = RM_E_NONE"
  by (drule send_law) simp

lemma send_prefix: "send d x s = Some (r, s') \<Longrightarrow> \<exists>ys. frames s' = frames s @ ys \<and> set ys \<subseteq> {x}"
  by (drule send_law) simp

end

lemma startTransmit_cases:
  assumes "startTransmitPacket rl data r = Some (rc, r')"
  shows "ra_module r \<and> isSetup r' = isSetup r \<and> ra_module r' \<and> rxDone r' = rxDone r \<and> \<not> txDone r' \<and>
    radioParams r' = radioParams r \<and>
    ra_sent r' = (if rc = RM_E_NONE then ra_sent r @ [data] else ra_sent r) \<and>
    (rc = RM_E_NONE \<longleftrightarrow> rl_startTransmit rl (ra_calls r) data = ERR_NONE)"
  using assms
  by (cases "rl_startTransmit rl (ra_calls r) data")
    (auto simp: startTransmitPacket_def Let_def resetRadioState_def tick_def)

interpretation air: frame_sink ra_module ra_sent radio_sendPacket
proof unfold_locales
  show "\<exists>rc s'. radio_sendPacket d x s = Some (rc, s')" if "ra_module s" for s d x
    using that by (cases "rl_startTransmit d (ra_calls s) x") (auto simp: radio_sendPacket_def startTransmitPacket_def)
  show "ra_module s' \<and> ra_sent s' = (if rc = RM_E_NONE then ra_sent s @ [x] else ra_sent s)"
    if "radio_sendPacket d x s = Some (rc, s')" for d x s rc s'
    using startTransmit_cases [of d x s rc s'] that by (simp add: radio_sendPacket_def)
qed

section \<open>Setup\<close>

lemma createModule_cases:
  "createModule p r = (if lp_ss p = 0 then (RM_E_INVALID_RADIO_PARAMS, r)
     else (RM_E_NONE, r\<lparr>ra_module := True, radioParams := p\<rparr>))"
  by (simp add: createModule_def PIN_UNDEFINED_def)

lemma radio_setup_done:
  assumes "radio_setup rl p r = Some (RM_E_NONE, r')"
  shows "isSetup r' \<and> ra_module r' \<and> radioParams r' = p \<and> checkLoraParameters p = RM_E_NONE \<and> lp_ss p \<noteq> 0 \<and>
    ra_sent r' = ra_sent r"
proof -
  have ss: "lp_ss p \<noteq> 0" and chk: "checkLoraParameters p = RM_E_NONE"
    using assms by (auto simp: radio_setup_def createModule_cases split: if_splits)
  then obtain r1 where "ra_sent r1 = ra_sent r" "ra_module r1"
      "(do { (rc1, r2) \<leftarrow> startReceive rl (r1\<lparr>isSetup := True\<rparr>);
          Some (if rc1 \<noteq> RM_E_NONE then (rc1, r2) else (RM_E_NONE, r2\<lparr>radioParams := p\<rparr>)) }) = Some (RM_E_NONE, r')"
    using assms by (fastforce simp: radio_setup_def createModule_cases dest!: config_call_Some)
  then show ?thesis
    using ss chk
    by (cases "startReceive rl (r1\<lparr>isSetup := True\<rparr>)") (auto split: if_splits dest!: startReceive_frame)
qed

text \<open>The parameter check of the radio accepts exactly the documented ranges of spreading
  factor, band, power, bandwidth and gain, and setup succeeds only with accepted parameters and a
  defined select pin, leaving a radio that is set up with these parameters. A setup that is
  rejected has already replaced the stored parameters and the driver object, while a radio set up
  earlier still counts as set up.\<close>

theorem radio_setup_correct:
  shows "(checkLoraParameters p = RM_E_NONE \<longleftrightarrow>
      6 \<le> unat (lp_sf p) \<and> unat (lp_sf p) \<le> 12 \<and> 150 \<le> lp_band p \<and> lp_band p \<le> 960 \<and>
      -9 \<le> sint (lp_txPower p) \<and> sint (lp_txPower p) \<le> 22 \<and> 7.8 \<le> lp_bw p \<and> lp_bw p \<le> 500 \<and>
      unat (lp_gain p) \<le> 3) \<and>
    (radio_setup rl p r = Some (RM_E_NONE, r') \<longrightarrow>
      checkLoraParameters p = RM_E_NONE \<and> lp_ss p \<noteq> 0 \<and> isSetup r' \<and> radioParams r' = p) \<and>
    (lp_ss p \<noteq> 0 \<and> checkLoraParameters p \<noteq> RM_E_NONE \<longrightarrow>
      radio_setup rl p r = Some (RM_E_INVALID_PARAM, r\<lparr>ra_module := True, radioParams := p\<rparr>))"
proof (intro conjI impI)
  show "checkLoraParameters p = RM_E_NONE \<longleftrightarrow>
      6 \<le> unat (lp_sf p) \<and> unat (lp_sf p) \<le> 12 \<and> 150 \<le> lp_band p \<and> lp_band p \<le> 960 \<and>
      -9 \<le> sint (lp_txPower p) \<and> sint (lp_txPower p) \<le> 22 \<and> 7.8 \<le> lp_bw p \<and> lp_bw p \<le> 500 \<and>
      unat (lp_gain p) \<le> 3"
    by (auto simp: checkLoraParameters_def word_less_nat_alt not_less word_le_nat_alt)
next
  assume "lp_ss p \<noteq> 0 \<and> checkLoraParameters p \<noteq> RM_E_NONE"
  moreover from this have "checkLoraParameters p = RM_E_INVALID_PARAM"
    by (auto simp: checkLoraParameters_def split: if_splits)
  ultimately show "radio_setup rl p r = Some (RM_E_INVALID_PARAM, r\<lparr>ra_module := True, radioParams := p\<rparr>)"
    by (simp add: radio_setup_def createModule_cases)
qed (auto dest: radio_setup_done)

definition quiet_driver :: radiolib where
  "quiet_driver = \<lparr>rl_begin = (\<lambda>_. ERR_NONE), rl_setFrequency = (\<lambda>_ _. ERR_NONE), rl_setBandwidth = (\<lambda>_ _. ERR_NONE),
     rl_setSpreadingFactor = (\<lambda>_ _. ERR_NONE), rl_setOutputPower = (\<lambda>_ _. ERR_NONE), rl_setSyncWord = (\<lambda>_ _. ERR_NONE),
     rl_startReceive = (\<lambda>_. ERR_NONE), rl_startTransmit = (\<lambda>_ _. ERR_NONE), rl_standby = (\<lambda>_. ERR_NONE),
     rl_sleep = (\<lambda>_. ERR_NONE), rl_getPacketLength = (\<lambda>_. 0), rl_readData = (\<lambda>_ n. (replicate n 0, ERR_NONE)),
     rl_getRSSI = (\<lambda>_. -80), rl_getSNR = (\<lambda>_. 7)\<rparr>"

lemma radio_setup_correct_witness:
  "radio_setup quiet_driver (LoraRadioParams\<lparr>lp_sf := 13\<rparr>) (LoraRadio\<lparr>isSetup := True, ra_module := True\<rparr>) =
     Some (RM_E_INVALID_PARAM, LoraRadio\<lparr>isSetup := True, ra_module := True, radioParams := LoraRadioParams\<lparr>lp_sf := 13\<rparr>\<rparr>)"
  using conjunct2 [OF conjunct2 [OF radio_setup_correct [of "LoraRadioParams\<lparr>lp_sf := 13\<rparr>" quiet_driver
      "LoraRadio\<lparr>isSetup := True, ra_module := True\<rparr>"]]]
  by (simp add: LoraRadioParams_def LoraRadio_def checkLoraParameters_def)

section \<open>Errors and interrupts\<close>

lemma getRadioStateError_reset:
  assumes "getRadioStateError rl r = Some (e, r')"
  shows "e = RM_E_NONE \<and> (radioStateError r = RM_E_NONE \<longrightarrow> r' = r) \<and>
    (radioStateError r \<noteq> RM_E_NONE \<longrightarrow> \<not> rxDone r' \<and> \<not> txDone r')"
proof (cases "radioStateError r = RM_E_NONE")
  case True
  then show ?thesis using assms by (simp add: getRadioStateError_def)
next
  case False
  then have g: "map_option snd (switchToReceiveMode rl (resetRadioState RX_TX_STATE r)) = Some r'"
      and e': "e = radioStateError r'"
    using assms by (simp_all add: getRadioStateError_def bind_eq_Some_conv)
  from g obtain x where x: "switchToReceiveMode rl (resetRadioState RX_TX_STATE r) = Some x" and x': "r' = snd x"
    by (auto simp: map_option_eq_Some)
  note e = e' [unfolded x'] x'
  have "snd x = resetRadioState RX_TX_STATE r \<or>
      snd x = resetRadioState RX_TX_STATE (resetRadioState RX_TX_STATE r) \<or>
      snd x = tick (resetRadioState RX_TX_STATE (resetRadioState RX_TX_STATE r))"
    using startReceive_frame [of rl "resetRadioState RX_TX_STATE (resetRadioState RX_TX_STATE r)" "fst x" "snd x"] x
    by (auto simp: switchToReceiveMode_def split: if_splits)
  then have "radioStateError (snd x) = RM_E_NONE \<and> \<not> rxDone (snd x) \<and> \<not> txDone (snd x)"
    by (auto simp: resetRadioState_def)
  with False e show ?thesis by simp
qed

text \<open>An error the interrupt handler recorded is never reported: the query resets the error
  before it reads it, so it always answers that there is none, and it clears the flags of a
  packet that was received or sent meanwhile.\<close>

theorem radio_error_never_reported:
  assumes "onInterrupt irq r = Some r1" and "getRadioStateError rl r1 = Some (e, r2)"
  shows "e = RM_E_NONE \<and> (IRQ_CRC_ERR irq \<or> IRQ_HEADER_ERR irq \<longrightarrow> \<not> fst (checkAndClearRxFlag r2))"
proof -
  have "radioStateError r1 \<noteq> RM_E_NONE" if "IRQ_CRC_ERR irq \<or> IRQ_HEADER_ERR irq"
    using that assms(1) by (auto simp: onInterrupt_def Let_def split: if_splits)
  then show ?thesis
    using getRadioStateError_reset [OF assms(2)] by (auto simp: checkAndClearRxFlag_def)
qed

lemma radio_error_never_reported_witness:
  "\<exists>r1 e r2. onInterrupt \<lparr>IRQ_RX_DONE = True, IRQ_TX_DONE = False, IRQ_TIMEOUT = False, IRQ_CRC_ERR = True,
      IRQ_HEADER_ERR = False\<rparr> (LoraRadio\<lparr>ra_module := True, isSetup := True\<rparr>) = Some r1 \<and>
    radioStateError r1 = RM_E_RADIO_CRC_MISMATCH \<and>
    getRadioStateError quiet_driver r1 = Some (e, r2) \<and> e = RM_E_NONE"
proof -
  let ?irq = "\<lparr>IRQ_RX_DONE = True, IRQ_TX_DONE = False, IRQ_TIMEOUT = False, IRQ_CRC_ERR = True, IRQ_HEADER_ERR = False\<rparr>"
  let ?r = "LoraRadio\<lparr>ra_module := True, isSetup := True\<rparr>"
  let ?r1 = "?r\<lparr>rxDone := True, radioStateError := RM_E_RADIO_CRC_MISMATCH\<rparr>"
  have a: "onInterrupt ?irq ?r = Some ?r1" by (simp add: onInterrupt_def)
  obtain e r2 where b: "getRadioStateError quiet_driver ?r1 = Some (e, r2)"
    by (simp add: getRadioStateError_def switchToReceiveMode_def startReceive_def)
  from a b conjunct1 [OF radio_error_never_reported [OF a b]] show ?thesis by auto
qed

end
