(* ===== verification/RM_PacketRouter.thy ===== *)
theory RM_PacketRouter
  imports RM_Utils RM_Packet RM_PacketTracker RM_RoutingTable RM_MicService RM_Radio
begin

text \<open>
  The packet router: \<open>src/src/core/protocol/inc/routing/PacketRouter.h\<close> and
  \<open>src/src/core/protocol/src/routing/PacketRouter.cpp\<close>. A packet that is sent or relayed goes
  through hop limit, last hop, route lookup, encryption, checksum, integrity code, radio and
  tracker, in this order. The record \<open>net\<close> holds the singletons these steps share: the tracker
  and the two service pointers of the router, the routing table, the device's encryption service,
  the AES component and the radio. The MIC service the router is given points to the device's
  encryption service. The fixed inputs of a step (libraries, clock) are a record too.
\<close>

section \<open>State\<close>

record net =
  packetTracker :: tracker
  n_esPtr :: bool
  n_micPtr :: bool
  n_routes :: routing_table
  n_es :: encryption_service
  n_aes :: aes_crypto
  n_radio :: radio

record world =
  w_lib :: crypto_lib
  w_rl :: radiolib
  w_now :: u32

definition PacketRouter_tracker :: tracker where
  "PacketRouter_tracker = PacketTracker 50"

definition setEncryptionService :: "net \<Rightarrow> net" where
  "setEncryptionService n = n\<lparr>n_esPtr := True\<rparr>"

definition setMicService :: "net \<Rightarrow> net" where
  "setMicService n = n\<lparr>n_micPtr := True\<rparr>"

section \<open>The steps\<close>

definition checkMaxHops :: "packet \<Rightarrow> bool" where
  "checkMaxHops p = (if p_hops p \<ge> MAX_HOPS then True else False)"

definition updateLastHopId :: "id4 \<Rightarrow> packet \<Rightarrow> packet" where
  "updateLastHopId ourDeviceId p = p\<lparr>p_lastHop := ourDeviceId, p_hops := p_hops p + 1\<rparr>"

definition routeToNextHop :: "u32 \<Rightarrow> packet \<Rightarrow> net \<Rightarrow> packet \<times> net" where
  "routeToNextHop now p n =
     (if \<not> isBroadcastAddress (p_dest p) then
        (case findNextHop (p_dest p) now (n_routes n) of
           (Some nextHop, routes) \<Rightarrow> (p\<lparr>p_nextHop := nextHop\<rparr>, n\<lparr>n_routes := routes\<rparr>)
         | (None, routes) \<Rightarrow> (p\<lparr>p_nextHop := zero_id\<rparr>, n\<lparr>n_routes := routes\<rparr>))
      else (p, n))"

definition encryptPacketData ::
  "crypto_lib \<Rightarrow> device_type \<Rightarrow> inclusion_state \<Rightarrow> packet \<Rightarrow> net \<Rightarrow> (packet \<times> net) option" where
  "encryptPacketData lib dt st p n =
     (if length (p_data p) = 0 then Some (p, n)
      else if \<not> n_esPtr n then Some (p, n)
      else do {
        (d, aes) \<leftarrow> es_encrypt lib (n_es n) (p_data p) (p_topic p) dt st (n_aes n);
        Some (p\<lparr>p_data := d\<rparr>, n\<lparr>n_aes := aes\<rparr>) })"

definition calculatePacketCrc :: "packet \<Rightarrow> packet" where
  "calculatePacketCrc p = p\<lparr>p_crc := packet_crc (p_fcounter p) (p_data p)\<rparr>"

definition computeAndAppendMIC ::
  "crypto_lib \<Rightarrow> device_type \<Rightarrow> inclusion_state \<Rightarrow> packet \<Rightarrow> net \<Rightarrow> (rc \<times> packet) option" where
  "computeAndAppendMIC lib dt st p n =
     (if \<not> n_micPtr n then Some (RM_E_DEVICE_INITIALIZATION_FAILED, p)
      else if p_topic p = T_INCLUDE_OPEN \<or> p_topic p = T_INCLUDE_REQUEST then Some (RM_E_NONE, p)
      else do {
        mic \<leftarrow> computePacketMIC lib (Some (n_es n)) (getHeaderBytes p) (p_data p) (p_topic p) dt st;
        Some (if mic = [] then (RM_E_AUTH_FAILED, p) else (RM_E_NONE, packet_appendMIC p mic)) })"

definition router_sendPacket :: "radiolib \<Rightarrow> packet \<Rightarrow> net \<Rightarrow> (rc \<times> net) option" where
  "router_sendPacket rl p n = do {
     (rc, r) \<leftarrow> radio_sendPacket rl (toByteBuffer p) (n_radio n);
     Some (rc, n\<lparr>n_radio := r\<rparr>) }"

definition trackPacket :: "u32 \<Rightarrow> packet \<Rightarrow> net \<Rightarrow> net option" where
  "trackPacket key p n = do {
     t \<leftarrow> addEntry key (p_crc p) (packetTracker n);
     Some (n\<lparr>packetTracker := t\<rparr>) }"

text \<open>Everything that is done to a packet before the integrity code.\<close>

definition prepare_packet ::
  "world \<Rightarrow> id4 \<Rightarrow> device_type \<Rightarrow> inclusion_state \<Rightarrow> packet \<Rightarrow> net \<Rightarrow> (packet \<times> net) option" where
  "prepare_packet w ourDeviceId dt st p n = do {
     let p1 = updateLastHopId ourDeviceId p;
     let (p2, n1) = routeToNextHop (w_now w) p1 n;
     let p3 = p2\<lparr>p_reserved := Rsv3 0 0 0\<rparr>;
     (p4, n2) \<leftarrow> (if p_topic p3 \<noteq> T_INCLUDE_OPEN
                  then encryptPacketData (w_lib w) dt st p3 n1 else Some (p3, n1));
     Some (calculatePacketCrc p4, n2) }"

definition routePacket ::
  "world \<Rightarrow> packet \<Rightarrow> id4 \<Rightarrow> device_type \<Rightarrow> inclusion_state \<Rightarrow> net \<Rightarrow> (rc \<times> net) option" where
  "routePacket w packetCopy ourDeviceId dt st n = do {
     key \<leftarrow> toUint32 (id4_bytes (p_id packetCopy));
     if checkMaxHops packetCopy then Some (RM_E_MAX_HOPS, n)
     else do {
       (p, n1) \<leftarrow> prepare_packet w ourDeviceId dt st packetCopy n;
       (micResult, q) \<leftarrow> computeAndAppendMIC (w_lib w) dt st p n1;
       if micResult \<noteq> RM_E_NONE then Some (micResult, n1)
       else do {
         (rc, n2) \<leftarrow> router_sendPacket (w_rl w) q n1;
         if rc \<noteq> RM_E_NONE then Some (rc, n2)
         else do {
           n3 \<leftarrow> trackPacket key q n2;
           Some (RM_E_NONE, n3) } } } }"

definition isPacketFoundInTracker :: "packet \<Rightarrow> net \<Rightarrow> (bool \<times> net) option" where
  "isPacketFoundInTracker p n = do {
     key \<leftarrow> toUint32 (id4_bytes (p_id p));
     (foundValue, t) \<leftarrow> findOrDefault key 0 (packetTracker n);
     Some (if foundValue = p_crc p then True else False, n\<lparr>packetTracker := t\<rparr>) }"

section \<open>Invariant\<close>

definition net_inv :: "net \<Rightarrow> bool" where
  "net_inv n \<longleftrightarrow> tracker_inv (packetTracker n) \<and> table_inv (n_routes n) \<and> radio_inv (n_radio n) \<and> es_inv (n_es n)"

text \<open>What the steps leave alone. Two packets with the same identity agree in every field that
  relaying keeps; two states with the same core agree in all but routes and AES component.\<close>

definition same_identity :: "packet \<Rightarrow> packet \<Rightarrow> bool" where
  "same_identity p q \<longleftrightarrow> p_version q = p_version p \<and> p_source q = p_source p \<and> p_dest q = p_dest p \<and>
     p_id q = p_id p \<and> p_topic q = p_topic p \<and> p_devtype q = p_devtype p \<and> p_fcounter q = p_fcounter p"

definition same_core :: "net \<Rightarrow> net \<Rightarrow> bool" where
  "same_core m n \<longleftrightarrow> packetTracker n = packetTracker m \<and> n_esPtr n = n_esPtr m \<and> n_micPtr n = n_micPtr m \<and>
     n_es n = n_es m \<and> n_radio n = n_radio m \<and> (table_inv (n_routes m) \<longrightarrow> table_inv (n_routes n))"

lemma routeToNextHop_frame:
  assumes "routeToNextHop now p n = (p', n')"
  shows "same_core n n' \<and> n_aes n' = n_aes n \<and> same_identity p p' \<and> p_hops p' = p_hops p \<and>
    p_lastHop p' = p_lastHop p \<and> p_data p' = p_data p"
  using assms findNextHop_inv [of "n_routes n" "p_dest p" now]
  by (auto simp: routeToNextHop_def same_core_def same_identity_def split: if_splits prod.splits option.splits)

lemma encryptPacketData_frame:
  assumes "encryptPacketData lib dt st p n = Some (p', n')"
  shows "same_core n n' \<and> same_identity p p' \<and> p_hops p' = p_hops p \<and> p_lastHop p' = p_lastHop p \<and>
    p_reserved p' = p_reserved p"
  using assms
  by (auto simp: encryptPacketData_def same_core_def same_identity_def bind_eq_Some_conv split: if_splits)

lemma prepare_packet_frame:
  assumes "prepare_packet w our dt st p n = Some (q, n')"
  shows "same_core n n' \<and> same_identity p q \<and> p_hops q = p_hops p + 1 \<and> p_lastHop q = our \<and>
    p_reserved q = Rsv3 0 0 0 \<and> p_crc q = packet_crc (p_fcounter q) (p_data q)"
proof -
  obtain p2 n1 where r: "routeToNextHop (w_now w) (updateLastHopId our p) n = (p2, n1)"
    by (metis surj_pair)
  let ?p3 = "p2\<lparr>p_reserved := Rsv3 0 0 0\<rparr>"
  obtain p4 where e: "(if p_topic ?p3 \<noteq> T_INCLUDE_OPEN then encryptPacketData (w_lib w) dt st ?p3 n1
        else Some (?p3, n1)) = Some (p4, n')" and q: "q = calculatePacketCrc p4"
    using assms unfolding prepare_packet_def Let_def r by (auto simp: bind_eq_Some_conv)
  have "same_core n1 n' \<and> same_identity ?p3 p4 \<and> p_hops p4 = p_hops ?p3 \<and> p_lastHop p4 = p_lastHop ?p3 \<and>
      p_reserved p4 = p_reserved ?p3"
    using e encryptPacketData_frame [of "w_lib w" dt st ?p3 n1 p4 n']
    by (auto simp: same_core_def same_identity_def split: if_splits)
  then show ?thesis
    using routeToNextHop_frame [OF r] q
    by (simp add: same_core_def same_identity_def updateLastHopId_def calculatePacketCrc_def)
qed

text \<open>How the payload is encrypted, and that it succeeds.\<close>

lemma prepare_packet_data:
  assumes enc: "p_data p \<noteq> [] \<Longrightarrow> p_topic p \<noteq> T_INCLUDE_OPEN \<Longrightarrow> n_esPtr n \<and>
      (\<exists>a. es_encrypt (w_lib w) (n_es n) (p_data p) (p_topic p) dt st (n_aes n) = Some (d, a))"
    and no: "p_data p = [] \<or> p_topic p = T_INCLUDE_OPEN \<Longrightarrow> d = p_data p"
  shows "\<exists>q n'. prepare_packet w our dt st p n = Some (q, n') \<and> p_data q = d"
proof -
  obtain p2 n1 where r: "routeToNextHop (w_now w) (updateLastHopId our p) n = (p2, n1)"
    by (metis surj_pair)
  have f: "p_data p2 = p_data p" "p_topic p2 = p_topic p" "n_esPtr n1 = n_esPtr n" "n_es n1 = n_es n" "n_aes n1 = n_aes n"
    using routeToNextHop_frame [OF r] by (simp_all add: same_core_def same_identity_def updateLastHopId_def)
  show ?thesis
  proof (cases "p_data p = [] \<or> p_topic p = T_INCLUDE_OPEN")
    case True
    then show ?thesis using no
      by (auto simp: prepare_packet_def Let_def r f encryptPacketData_def calculatePacketCrc_def)
  next
    case False
    then obtain a where "n_esPtr n" "es_encrypt (w_lib w) (n_es n) (p_data p) (p_topic p) dt st (n_aes n) = Some (d, a)"
      using enc by blast
    with False show ?thesis
      by (simp add: prepare_packet_def Let_def r f encryptPacketData_def calculatePacketCrc_def)
  qed
qed

section \<open>What a step can do to the state\<close>

lemma radio_inv_send:
  assumes "radio_sendPacket rl x r = Some (rc, r')"
  shows "radio_inv r'"
  using startTransmit_cases [of rl x r rc r'] assms by (simp add: radio_sendPacket_def radio_inv_def)

lemma router_sendPacket_frame:
  assumes "router_sendPacket rl p n = Some (rc, n')"
  shows "packetTracker n' = packetTracker n \<and> n_esPtr n' = n_esPtr n \<and> n_micPtr n' = n_micPtr n \<and>
    n_es n' = n_es n \<and> n_routes n' = n_routes n \<and> n_aes n' = n_aes n \<and> radio_inv (n_radio n') \<and>
    ra_module (n_radio n') \<and> isSetup (n_radio n') = isSetup (n_radio n) \<and>
    ra_sent (n_radio n') = (if rc = RM_E_NONE then ra_sent (n_radio n) @ [toByteBuffer p] else ra_sent (n_radio n))"
proof -
  obtain r where r: "radio_sendPacket rl (toByteBuffer p) (n_radio n) = Some (rc, r)" "n' = n\<lparr>n_radio := r\<rparr>"
    using assms by (auto simp: router_sendPacket_def bind_eq_Some_conv)
  then show ?thesis using radio_inv_send [OF r(1)] startTransmit_cases [of rl "toByteBuffer p" "n_radio n" rc r]
    by (simp add: radio_sendPacket_def)
qed

text \<open>The three outcomes of routing a packet below the hop limit.\<close>

lemma routePacket_cases:
  assumes rp: "routePacket w p our dt st n = Some (rc, n')"
  obtains (hops) "MAX_HOPS \<le> p_hops p" "rc = RM_E_MAX_HOPS" "n' = n"
  | (mic) q n1 q' where "\<not> MAX_HOPS \<le> p_hops p" "prepare_packet w our dt st p n = Some (q, n1)"
      "computeAndAppendMIC (w_lib w) dt st q n1 = Some (rc, q')" "rc \<noteq> RM_E_NONE" "n' = n1"
  | (radio) q n1 q' where "\<not> MAX_HOPS \<le> p_hops p" "prepare_packet w our dt st p n = Some (q, n1)"
      "computeAndAppendMIC (w_lib w) dt st q n1 = Some (RM_E_NONE, q')"
      "router_sendPacket (w_rl w) q' n1 = Some (rc, n')" "rc \<noteq> RM_E_NONE"
  | (sent) q n1 q' n2 where "\<not> MAX_HOPS \<le> p_hops p" "prepare_packet w our dt st p n = Some (q, n1)"
      "computeAndAppendMIC (w_lib w) dt st q n1 = Some (RM_E_NONE, q')"
      "router_sendPacket (w_rl w) q' n1 = Some (RM_E_NONE, n2)" "rc = RM_E_NONE"
      "trackPacket (deviceIdToUint32 (p_id p)) q' n2 = Some n'"
proof (cases "MAX_HOPS \<le> p_hops p")
  case True
  then show ?thesis using rp hops by (simp add: routePacket_def checkMaxHops_def)
next
  case False
  then obtain q n1 mr q' where a: "prepare_packet w our dt st p n = Some (q, n1)"
      "computeAndAppendMIC (w_lib w) dt st q n1 = Some (mr, q')"
    using rp by (auto simp: routePacket_def checkMaxHops_def bind_eq_Some_conv)
  show ?thesis
  proof (cases "mr = RM_E_NONE")
    case True
    with rp a False obtain r n2 where "router_sendPacket (w_rl w) q' n1 = Some (r, n2)"
      by (auto simp: routePacket_def checkMaxHops_def bind_eq_Some_conv)
    then show ?thesis
      using rp a False True radio sent
      by (cases "r = RM_E_NONE") (auto simp: routePacket_def checkMaxHops_def bind_eq_Some_conv)
  next
    case F: False
    then show ?thesis using rp a False mic by (simp add: routePacket_def checkMaxHops_def)
  qed
qed

lemma computeAndAppendMIC_same:
  assumes "computeAndAppendMIC lib dt st p n = Some (rc, q)"
  shows "q = p \<or> (\<exists>mic. q = packet_appendMIC p mic)"
  using assms by (auto simp: computeAndAppendMIC_def bind_eq_Some_conv split: if_splits)

lemma packet_appendMIC_same: "same_identity p (packet_appendMIC p mic) \<and> p_crc (packet_appendMIC p mic) = p_crc p \<and>
    p_hops (packet_appendMIC p mic) = p_hops p \<and> p_lastHop (packet_appendMIC p mic) = p_lastHop p \<and>
    getHeaderBytes (packet_appendMIC p mic) = getHeaderBytes p"
  by (simp add: packet_appendMIC_def same_identity_def)

lemma routePacket_inv:
  assumes inv: "net_inv n" and rp: "routePacket w p our dt st n = Some (rc, n')"
  shows "net_inv n' \<and> n_esPtr n' = n_esPtr n \<and> n_micPtr n' = n_micPtr n \<and> n_es n' = n_es n"
  using rp
proof (cases rule: routePacket_cases)
  case hops
  then show ?thesis using inv by simp
next
  case (mic q n1 q')
  then show ?thesis using prepare_packet_frame [OF mic(2)] inv by (simp add: net_inv_def same_core_def)
next
  case (radio q n1 q')
  then show ?thesis
    using prepare_packet_frame [OF radio(2)] router_sendPacket_frame [OF radio(4)] inv
    by (simp add: net_inv_def same_core_def)
next
  case (sent q n1 q' n2)
  then obtain t where t: "addEntry (deviceIdToUint32 (p_id p)) (p_crc q') (packetTracker n2) = Some t" "n' = n2\<lparr>packetTracker := t\<rparr>"
    by (auto simp: trackPacket_def bind_eq_Some_conv)
  have "tracker_inv (packetTracker n2)"
    using prepare_packet_frame [OF sent(2)] router_sendPacket_frame [OF sent(4)] inv
    by (simp add: net_inv_def same_core_def)
  then have "tracker_inv t" using t(1) addEntry_core [of "packetTracker n2"] by (metis option.inject)
  then show ?thesis
    using prepare_packet_frame [OF sent(2)] router_sendPacket_frame [OF sent(4)] inv t(2)
    by (simp add: net_inv_def same_core_def)
qed

section \<open>Success\<close>

text \<open>A driver that accepts every frame of at most 256 bytes.\<close>

definition accepting :: "radiolib \<Rightarrow> bool" where
  "accepting rl \<longleftrightarrow> (\<forall>i x. length x \<le> PACKET_LENGTH \<longrightarrow> rl_startTransmit rl i x = ERR_NONE)"

lemma routePacket_success:
  assumes inv: "net_inv n" and hops: "p_hops p < 7" and prep: "prepare_packet w our dt st p n = Some (q, n1)"
    and mic: "computeAndAppendMIC (w_lib w) dt st q n1 = Some (RM_E_NONE, q')"
    and radio: "ra_module (n_radio n)" "accepting (w_rl w)" and len: "length (p_data q') \<le> 221"
  shows "\<exists>n'. routePacket w p our dt st n = Some (RM_E_NONE, n') \<and>
    ra_sent (n_radio n') = ra_sent (n_radio n) @ [toByteBuffer q'] \<and>
    map_of (entries (packetTracker n')) (deviceIdToUint32 (p_id p)) = Some (p_crc q')"
proof -
  note f = prepare_packet_frame [OF prep]
  have m: "ra_module (n_radio n1)" using radio f by (simp add: same_core_def)
  obtain rc r where r: "radio_sendPacket (w_rl w) (toByteBuffer q') (n_radio n1) = Some (rc, r)"
    using air.send_total [OF m] by blast
  have "rc = RM_E_NONE"
    using startTransmit_cases [OF r [unfolded radio_sendPacket_def]] radio(2) len by (simp add: accepting_def)
  then have s: "router_sendPacket (w_rl w) q' n1 = Some (RM_E_NONE, n1\<lparr>n_radio := r\<rparr>)"
    by (simp add: router_sendPacket_def r)
  have t: "tracker_inv (packetTracker n1)" using inv f by (simp add: net_inv_def same_core_def)
  obtain t' where t': "addEntry (deviceIdToUint32 (p_id p)) (p_crc q') (packetTracker n1) = Some t'"
      "map_of (entries t') (deviceIdToUint32 (p_id p)) = Some (p_crc q')"
    using cache.add_law [OF t] by blast
  have "\<not> checkMaxHops p" using hops by (simp add: checkMaxHops_def MAX_HOPS_def not_le)
  then show ?thesis
    using prep mic s t' router_sendPacket_frame [OF s] f
    by (simp add: routePacket_def trackPacket_def same_core_def)
qed

text \<open>A packet on a topic with an integrity code leaves as ciphertext and code.\<close>

lemma routePacket_sealed:
  assumes inv: "net_inv n" and hops: "p_hops p < 7" and ptrs: "n_esPtr n" "n_micPtr n"
    and radio: "ra_module (n_radio n)" "accepting (w_rl w)" and lib: "cipher_laws (cl_aes (w_lib w))"
    and topic: "requiresMIC (p_topic p)"
    and enc: "p_data p \<noteq> [] \<Longrightarrow> \<exists>a. es_encrypt (w_lib w) (n_es n) (p_data p) (p_topic p) dt st (n_aes n) = Some (c, a)"
    and none: "p_data p = [] \<Longrightarrow> c = []"
    and key: "getMICKey (w_lib w) (Some (n_es n)) (p_topic p) dt st = key" "length key = 32" and len: "length c \<le> 217"
  shows "\<exists>n' q mic. routePacket w p our dt st n = Some (RM_E_NONE, n') \<and>
    ra_sent (n_radio n') = ra_sent (n_radio n) @ [toByteBuffer q] \<and> same_identity p q \<and> p_lastHop q = our \<and>
    p_hops q = p_hops p + 1 \<and>
    p_data q = c @ mic \<and> length mic = 4 \<and> p_crc q = packet_crc (p_fcounter p) c \<and>
    computeMIC (cl_aes (w_lib w)) key (getHeaderBytes q @ c) = Some mic \<and>
    map_of (entries (packetTracker n')) (deviceIdToUint32 (p_id p)) = Some (p_crc q)"
proof -
  have "\<exists>q n'. prepare_packet w our dt st p n = Some (q, n') \<and> p_data q = c"
    by (rule prepare_packet_data) (use enc none ptrs topic in \<open>auto simp: requiresMIC_def\<close>)
  then obtain q n1 where prep: "prepare_packet w our dt st p n = Some (q, n1)" and data: "p_data q = c" by blast
  note f = prepare_packet_frame [OF prep]
  then have f': "n_es n1 = n_es n" "n_micPtr n1" "p_topic q = p_topic p"
    using ptrs by (simp_all add: same_core_def same_identity_def)
  obtain mic where mic: "computePacketMIC (w_lib w) (Some (n_es n)) (getHeaderBytes q) c (p_topic p) dt st = Some mic"
      "length mic = 4" "computeMIC (cl_aes (w_lib w)) key (getHeaderBytes q @ c) = Some mic"
    using computePacketMIC_key [OF lib topic key] by blast
  let ?q = "q\<lparr>p_data := c @ mic\<rparr>"
  have "mic \<noteq> []" using mic(2) by auto
  then have m: "computeAndAppendMIC (w_lib w) dt st q n1 = Some (RM_E_NONE, ?q)"
    using topic mic f' data len by (simp add: computeAndAppendMIC_def requiresMIC_def packet_appendMIC_data)
  have "length (p_data ?q) \<le> 221" using mic(2) len by simp
  note routePacket_success [OF inv hops prep m radio this]
  then show ?thesis
    using f data mic by (fastforce simp: same_identity_def)
qed

text \<open>A packet on one of the two clear topics leaves as it is.\<close>

lemma routePacket_clear:
  assumes inv: "net_inv n" and hops: "p_hops p < 7" and ptrs: "n_micPtr n" "n_esPtr n"
    and radio: "ra_module (n_radio n)" "accepting (w_rl w)"
    and topic: "p_topic p = T_INCLUDE_OPEN \<or> p_topic p = T_INCLUDE_REQUEST" and len: "length (p_data p) \<le> 217"
  shows "\<exists>n' q. routePacket w p our dt st n = Some (RM_E_NONE, n') \<and>
    ra_sent (n_radio n') = ra_sent (n_radio n) @ [toByteBuffer q] \<and> same_identity p q \<and> p_lastHop q = our \<and>
    p_hops q = p_hops p + 1 \<and> p_data q = p_data p \<and> p_crc q = packet_crc (p_fcounter p) (p_data p)"
proof -
  have "\<exists>q n'. prepare_packet w our dt st p n = Some (q, n') \<and> p_data q = p_data p"
    by (rule prepare_packet_data) (use ptrs topic in \<open>auto simp: es_encrypt_NONE determineCryptoMethod_def\<close>)
  then obtain q n1 where prep: "prepare_packet w our dt st p n = Some (q, n1)" and data: "p_data q = p_data p" by blast
  note f = prepare_packet_frame [OF prep]
  have m: "computeAndAppendMIC (w_lib w) dt st q n1 = Some (RM_E_NONE, q)"
    using f topic ptrs by (auto simp: computeAndAppendMIC_def same_core_def same_identity_def)
  have "length (p_data q) \<le> 221" using data len by simp
  note routePacket_success [OF inv hops prep m radio this]
  then show ?thesis using f data by (fastforce simp: same_identity_def)
qed

text \<open>A concrete state and packet for the witnesses.\<close>

definition toy_world :: world where
  "toy_world = \<lparr>w_lib = toy_lib, w_rl = quiet_driver, w_now = 1000\<rparr>"

definition toy_net :: net where
  "toy_net = \<lparr>packetTracker = PacketRouter_tracker, n_esPtr = True, n_micPtr = True,
     n_routes = RoutingTable_init (replicate MAX_ROUTES garbage_entry), n_es = toy_device, n_aes = AesCrypto,
     n_radio = LoraRadio\<lparr>ra_module := True, isSetup := True\<rparr>\<rparr>"

lemma toy_net_inv: "net_inv toy_net"
proof -
  have "table_inv (n_routes toy_net)"
    unfolding toy_net_def net.select_convs by (rule RoutingTable_init_inv) simp
  then show ?thesis
    by (simp add: net_inv_def toy_net_def PacketRouter_tracker_def PacketTracker_inv radio_inv_def es_inv_def
        toy_device_def EncryptionService_def)
qed

lemma toy_accepting: "accepting (w_rl toy_world)"
  by (simp add: accepting_def toy_world_def quiet_driver_def)

lemma toy_routed: "\<exists>n'. routePacket toy_world (sample_packet\<lparr>p_topic := T_INCLUDE_OPEN\<rparr>) (Id4 9 9 9 9) STANDARD
    NOT_INCLUDED toy_net = Some (RM_E_NONE, n')"
proof -
  have "ra_module (n_radio toy_net)" and "n_micPtr toy_net" and "n_esPtr toy_net" by (simp_all add: toy_net_def)
  note routePacket_clear [OF toy_net_inv _ this(2,3,1) toy_accepting]
  from this [where p = "sample_packet\<lparr>p_topic := T_INCLUDE_OPEN\<rparr>" and our = "Id4 9 9 9 9" and dt = STANDARD and
      st = NOT_INCLUDED]
  show ?thesis by (auto simp: sample_packet_def default_packet_def)
qed

section \<open>Properties\<close>

text \<open>C11: Routing puts at most one frame on the air. It puts one exactly when it reports success,
  and then the frame is that of the packet with this device as the last hop, one hop more, at
  most seven hops, the reserved bytes cleared and the identity (source, destination, packet id,
  topic, frame counter) untouched; at the hop limit nothing is sent and nothing changes.\<close>

theorem routePacket_frames:
  assumes rp: "routePacket w p our dt st n = Some (rc, n')"
  shows "(rc = RM_E_NONE \<longrightarrow> (\<exists>q. ra_sent (n_radio n') = ra_sent (n_radio n) @ [toByteBuffer q] \<and>
      same_identity p q \<and> p_lastHop q = our \<and> p_hops q = p_hops p + 1 \<and> p_hops p < 7 \<and>
      p_hops q \<le> 7 \<and> p_reserved q = Rsv3 0 0 0)) \<and>
    (rc \<noteq> RM_E_NONE \<longrightarrow> ra_sent (n_radio n') = ra_sent (n_radio n)) \<and>
    (7 \<le> p_hops p \<longrightarrow> rc = RM_E_MAX_HOPS \<and> n' = n)"
  using rp
proof (cases rule: routePacket_cases)
  case hops
  then show ?thesis by (simp add: MAX_HOPS_def)
next
  case (mic q n1 q')
  then show ?thesis using prepare_packet_frame [OF mic(2)] by (simp add: same_core_def MAX_HOPS_def)
next
  case (radio q n1 q')
  then show ?thesis
    using prepare_packet_frame [OF radio(2)] router_sendPacket_frame [OF radio(4)]
    by (simp add: same_core_def MAX_HOPS_def)
next
  case (sent q n1 q' n2)
  have q': "same_identity q q' \<and> p_hops q' = p_hops q \<and> p_lastHop q' = p_lastHop q \<and> p_reserved q' = p_reserved q"
    using computeAndAppendMIC_same [OF sent(3)] packet_appendMIC_same [of q]
    by (auto simp: same_identity_def packet_appendMIC_def)
  have lt: "p_hops p < 7" using sent(1) by (simp add: MAX_HOPS_def)
  then have "p_hops p + 1 \<le> 7" by (metis add.commute inc_le)
  moreover have "n_radio n' = n_radio n2" using sent(6) by (auto simp: trackPacket_def bind_eq_Some_conv)
  ultimately show ?thesis
    using sent(5) lt q' prepare_packet_frame [OF sent(2)] router_sendPacket_frame [OF sent(4)]
    by (auto simp: same_core_def same_identity_def intro!: exI [of _ q'])
qed

lemma routePacket_frames_witness:
  "\<exists>n' q. routePacket toy_world (sample_packet\<lparr>p_topic := T_INCLUDE_OPEN\<rparr>) (Id4 9 9 9 9) STANDARD
      NOT_INCLUDED toy_net = Some (RM_E_NONE, n') \<and> ra_sent (n_radio n') = [toByteBuffer q] \<and> p_hops q = 3"
proof -
  obtain n' where n': "routePacket toy_world (sample_packet\<lparr>p_topic := T_INCLUDE_OPEN\<rparr>) (Id4 9 9 9 9) STANDARD
      NOT_INCLUDED toy_net = Some (RM_E_NONE, n')" using toy_routed by blast
  from routePacket_frames [OF this] n' show ?thesis
    by (auto simp: toy_net_def LoraRadio_def sample_packet_def)
qed

lemma found_in_tracker:
  assumes inv: "tracker_inv (packetTracker n)"
  shows "\<exists>n'. isPacketFoundInTracker p n =
      Some (case map_of (entries (packetTracker n)) (deviceIdToUint32 (p_id p)) of
              None \<Rightarrow> p_crc p = 0 | Some v \<Rightarrow> p_crc p = v, n') \<and>
    n' = n\<lparr>packetTracker := packetTracker n'\<rparr> \<and> tracker_inv (packetTracker n') \<and>
    map_of (entries (packetTracker n')) = map_of (entries (packetTracker n))"
proof -
  obtain t where t: "findOrDefault (deviceIdToUint32 (p_id p)) 0 (packetTracker n) =
      Some (case map_of (entries (packetTracker n)) (deviceIdToUint32 (p_id p)) of None \<Rightarrow> 0 | Some v \<Rightarrow> v, t)"
      "tracker_inv t" "map_of (entries t) = map_of (entries (packetTracker n))"
    using cache.find_law [OF inv, of "deviceIdToUint32 (p_id p)" 0] by (auto simp: fun_eq_iff)
  then show ?thesis
    by (auto simp: isPacketFoundInTracker_def split: option.splits)
qed

text \<open>C12: A device recognises its own transmissions: after a packet was sent or relayed, any frame
  with the same packet id and checksum that comes back (a neighbour's relay of it) is reported as
  already seen. A packet whose checksum happens to be 0 is reported as seen even when its id was
  never recorded.\<close>

theorem echo_recognised:
  assumes inv: "net_inv n" and rp: "routePacket w p our dt st n = Some (RM_E_NONE, n')"
  shows "(\<exists>q. ra_sent (n_radio n') = ra_sent (n_radio n) @ [toByteBuffer q] \<and> p_id q = p_id p \<and>
      (\<forall>r. p_id r = p_id p \<and> p_crc r = p_crc q \<longrightarrow>
         (\<exists>n''. isPacketFoundInTracker r n' = Some (True, n'')))) \<and>
    (\<forall>r. p_crc r = 0 \<and> \<not> keyExists (deviceIdToUint32 (p_id r)) (packetTracker n) \<longrightarrow>
       (\<exists>n''. isPacketFoundInTracker r n = Some (True, n'')))"
proof (intro conjI allI impI)
  from rp show "\<exists>q. ra_sent (n_radio n') = ra_sent (n_radio n) @ [toByteBuffer q] \<and> p_id q = p_id p \<and>
      (\<forall>r. p_id r = p_id p \<and> p_crc r = p_crc q \<longrightarrow> (\<exists>n''. isPacketFoundInTracker r n' = Some (True, n'')))"
  proof (cases rule: routePacket_cases)
    case (sent q n1 q' n2)
    have inv': "tracker_inv (packetTracker n2)"
      using prepare_packet_frame [OF sent(2)] router_sendPacket_frame [OF sent(4)] inv
      by (simp add: net_inv_def same_core_def)
    obtain t where t: "addEntry (deviceIdToUint32 (p_id p)) (p_crc q') (packetTracker n2) = Some t" "n' = n2\<lparr>packetTracker := t\<rparr>"
      using sent(6) by (auto simp: trackPacket_def bind_eq_Some_conv)
    have found: "\<exists>n''. isPacketFoundInTracker r n' = Some (True, n'')" if "p_id r = p_id p" "p_crc r = p_crc q'" for r
      using cache.found_after_add [OF inv' t(1), of 0] that by (auto simp: isPacketFoundInTracker_def t(2))
    have "p_id q' = p_id p"
      using computeAndAppendMIC_same [OF sent(3)] packet_appendMIC_same [of q] prepare_packet_frame [OF sent(2)]
      by (auto simp: same_identity_def)
    moreover have "ra_sent (n_radio n') = ra_sent (n_radio n) @ [toByteBuffer q']"
      using prepare_packet_frame [OF sent(2)] router_sendPacket_frame [OF sent(4)] t(2) by (simp add: same_core_def)
    ultimately show ?thesis using found by blast
  qed simp_all
next
  fix r :: packet assume r: "p_crc r = 0 \<and> \<not> keyExists (deviceIdToUint32 (p_id r)) (packetTracker n)"
  have t: "tracker_inv (packetTracker n)" using inv by (simp add: net_inv_def)
  then have "map_of (entries (packetTracker n)) (deviceIdToUint32 (p_id r)) = None"
    using r keyExists_entries by (simp add: map_of_eq_None_iff)
  then show "\<exists>n''. isPacketFoundInTracker r n = Some (True, n'')"
    using found_in_tracker [OF t, of r] r by auto
qed

lemma echo_recognised_witness:
  "\<exists>n' q n''. routePacket toy_world (sample_packet\<lparr>p_topic := T_INCLUDE_OPEN\<rparr>) (Id4 9 9 9 9) STANDARD
      NOT_INCLUDED toy_net = Some (RM_E_NONE, n') \<and> isPacketFoundInTracker q n' = Some (True, n'')"
proof -
  obtain n' where n': "routePacket toy_world (sample_packet\<lparr>p_topic := T_INCLUDE_OPEN\<rparr>) (Id4 9 9 9 9) STANDARD
      NOT_INCLUDED toy_net = Some (RM_E_NONE, n')" using toy_routed by blast
  from echo_recognised [OF toy_net_inv this] n' show ?thesis by blast
qed

end
