(* ===== verification/RM_DeviceState.thy ===== *)
theory RM_DeviceState
  imports RM_KeyManager RM_PacketRouter
begin

text \<open>
  The state of a device and the operation that both the device and its inclusion controller send
  with: the data members of \<open>src/src/framework/device/inc/Device.h\<close> and
  \<open>src/src/framework/device/inc/InclusionController.h\<close>, and \<open>sendData\<close> of
  \<open>src/src/framework/device/src/Device.cpp\<close>. The device and the controller call each other, so
  one record holds both: \<open>d_ctl\<close> is the controller, \<open>None\<close> while the pointer is null. The
  component pointers of the device are flags, the singletons behind them are the record \<open>net\<close> of
  \<open>RM_PacketRouter\<close>, the store is \<open>d_store\<close>, of any type that the operations \<open>e_ops\<close> work on. The
  calls of the application's callbacks are logged. What an operation reads from its surroundings is
  the record \<open>env\<close>: the clock is one value for the whole of an operation. \<open>None\<close> as a result is
  undefined behaviour: a null pointer, a frame shorter than a header, a 24-byte key.
\<close>

section \<open>State\<close>

datatype protocol_state = PROTOCOL_IDLE | WAITING_FOR_REQUEST | WAITING_FOR_RESPONSE
  | WAITING_FOR_CONFIRMATION | WAITING_FOR_SUCCESS

record controller =
  ic_state :: inclusion_state
  ic_type :: device_type
  inclusionModeEnabled :: bool
  protocolState :: protocol_state
  stateStartTime :: u32
  retryCount :: byte
  currentNonce :: bytes
  tempHubPublicKey :: bytes

record 's device =
  d_name :: string
  d_id :: id4
  d_type :: device_type
  packetCounter :: u32
  d_ctl :: "controller option"
  d_hasRadio :: bool
  d_hasCrypto :: bool
  d_hasStorage :: bool
  relayEnabled :: bool
  onPacketReceived :: bool
  onPacketSent :: bool
  txPacket :: packet
  d_net :: net
  d_store :: 's
  d_rng :: rng
  rxCalls :: "(packet option \<times> rc) list"
  txCalls :: "(packet \<times> rc) list"

text \<open>\<open>e_setParams\<close> is \<open>EEPROMStorage::setParams\<close> with the default size, which is not part of the
  storage interface; \<open>e_garbage\<close> is what an uninitialised inclusion state holds.\<close>

record 's env =
  e_world :: world
  e_ops :: "'s byte_storage"
  e_setParams :: "'s \<Rightarrow> rc \<times> 's"
  e_rnd :: rnd
  e_sample :: "nat \<Rightarrow> int"
  e_chip :: "64 word option"
  e_garbage :: inclusion_state

text \<open>A device as constructed: the shared components keep the state they have.\<close>

definition RadioMeshDevice :: "string \<Rightarrow> id4 \<Rightarrow> device_type \<Rightarrow> net \<Rightarrow> 's \<Rightarrow> rng \<Rightarrow> 's device" where
  "RadioMeshDevice nm did dt n s g =
     \<lparr>d_name = nm, d_id = did, d_type = dt, packetCounter = 0, d_ctl = None, d_hasRadio = False, d_hasCrypto = False,
      d_hasStorage = False, relayEnabled = False, onPacketReceived = False, onPacketSent = False,
      txPacket = default_packet, d_net = n\<lparr>n_es := EncryptionService\<rparr>, d_store = s, d_rng = g, rxCalls = [],
      txCalls = []\<rparr>"

definition upd_ctl :: "(controller \<Rightarrow> controller) \<Rightarrow> 's device \<Rightarrow> 's device" where
  "upd_ctl f d = d\<lparr>d_ctl := map_option f (d_ctl d)\<rparr>"

definition upd_es :: "(encryption_service \<Rightarrow> encryption_service) \<Rightarrow> 's device \<Rightarrow> 's device" where
  "upd_es f d = d\<lparr>d_net := (d_net d)\<lparr>n_es := f (n_es (d_net d))\<rparr>\<rparr>"

section \<open>Who may send\<close>

definition getState :: "controller \<Rightarrow> inclusion_state" where
  "getState c = ic_state c"

definition ic_canSendMessage :: "controller \<Rightarrow> byte \<Rightarrow> bool" where
  "ic_canSendMessage c topic =
     (if ic_type c = HUB then True
      else if isInclusionTopic topic then True
      else ic_state c = INCLUDED)"

definition isIncluded :: "'s device \<Rightarrow> bool option" where
  "isIncluded d = map_option (\<lambda>c. getState c = INCLUDED) (d_ctl d)"

definition canSendMessage :: "byte \<Rightarrow> 's device \<Rightarrow> bool option" where
  "canSendMessage topic d = map_option (\<lambda>c. ic_canSendMessage c topic) (d_ctl d)"

definition isInclusionMessage :: "byte \<Rightarrow> bool" where
  "isInclusionMessage topic \<longleftrightarrow> topic \<ge> T_INCLUDE_REQUEST \<and> topic \<le> T_INCLUDE_SUCCESS"

definition isApplicationMessage :: "byte \<Rightarrow> bool" where
  "isApplicationMessage topic \<longleftrightarrow> topic > T_MAX_RESERVED"

text \<open>The state that the routing step is given: \<open>NOT_INCLUDED\<close> without a controller.\<close>

definition state_or_not_included :: "'s device \<Rightarrow> inclusion_state" where
  "state_or_not_included d = (case d_ctl d of Some c \<Rightarrow> getState c | None \<Rightarrow> NOT_INCLUDED)"

section \<open>Sending\<close>

definition new_packet :: "'s device \<Rightarrow> byte \<Rightarrow> bytes \<Rightarrow> id4 \<Rightarrow> id4 \<Rightarrow> packet" where
  "new_packet d topic data target pid = (packet_reset (txPacket d))
     \<lparr>p_topic := topic, p_source := d_id d, p_dest := target, p_devtype := device_type_code (d_type d),
      p_id := pid, p_hops := 0, p_fcounter := packetCounter d + 1, p_lastHop := d_id d,
      p_nextHop := BROADCAST_ADDR, p_data := data\<rparr>"

definition device_route :: "'s env \<Rightarrow> packet \<Rightarrow> 's device \<Rightarrow> (rc \<times> 's device) option" where
  "device_route env p d = do {
     (rc, n) \<leftarrow> routePacket (e_world env) p (d_id d) (d_type d) (state_or_not_included d) (d_net d);
     Some (rc, d\<lparr>d_net := n\<rparr>) }"

definition sendData :: "'s env \<Rightarrow> byte \<Rightarrow> bytes \<Rightarrow> id4 \<Rightarrow> 's device \<Rightarrow> (rc \<times> 's device) option" where
  "sendData env topic data target d = do {
     allowed \<leftarrow> canSendMessage topic d;
     if \<not> allowed then Some (RM_E_DEVICE_NOT_INCLUDED, d)
     else if length (id4_bytes target) \<noteq> DEV_ID_LENGTH then Some (RM_E_INVALID_LENGTH, d)
     else if length (id4_bytes (d_id d)) \<noteq> DEV_ID_LENGTH then Some (RM_E_INVALID_LENGTH, d)
     else if length data > MAX_DATA_LENGTH then Some (RM_E_PACKET_TOO_LONG, d)
     else do {
       let (pid, g) = getRandomBytesArray (e_rnd env) (e_sample env) (w_now (e_world env));
       let p = new_packet d topic data target pid;
       device_route env p (d\<lparr>packetCounter := packetCounter d + 1, txPacket := p, d_rng := g\<rparr>) } }"

section \<open>Facts\<close>

lemma upd_ctl_simps [simp]:
  "d_ctl (upd_ctl f d) = map_option f (d_ctl d)" "d_net (upd_ctl f d) = d_net d" "d_store (upd_ctl f d) = d_store d"
  "d_id (upd_ctl f d) = d_id d" "d_type (upd_ctl f d) = d_type d" "packetCounter (upd_ctl f d) = packetCounter d"
  "d_hasRadio (upd_ctl f d) = d_hasRadio d" "d_hasStorage (upd_ctl f d) = d_hasStorage d" "d_rng (upd_ctl f d) = d_rng d"
  "rxCalls (upd_ctl f d) = rxCalls d" "txCalls (upd_ctl f d) = txCalls d" "relayEnabled (upd_ctl f d) = relayEnabled d"
  by (simp_all add: upd_ctl_def)

lemma upd_es_simps [simp]:
  "d_ctl (upd_es f d) = d_ctl d" "n_es (d_net (upd_es f d)) = f (n_es (d_net d))" "d_store (upd_es f d) = d_store d"
  "n_radio (d_net (upd_es f d)) = n_radio (d_net d)" "n_esPtr (d_net (upd_es f d)) = n_esPtr (d_net d)"
  "n_micPtr (d_net (upd_es f d)) = n_micPtr (d_net d)" "n_routes (d_net (upd_es f d)) = n_routes (d_net d)"
  "packetTracker (d_net (upd_es f d)) = packetTracker (d_net d)" "n_aes (d_net (upd_es f d)) = n_aes (d_net d)"
  "d_id (upd_es f d) = d_id d" "d_type (upd_es f d) = d_type d" "packetCounter (upd_es f d) = packetCounter d"
  "d_hasRadio (upd_es f d) = d_hasRadio d" "d_hasStorage (upd_es f d) = d_hasStorage d" "d_rng (upd_es f d) = d_rng d"
  "rxCalls (upd_es f d) = rxCalls d" "txCalls (upd_es f d) = txCalls d" "relayEnabled (upd_es f d) = relayEnabled d"
  by (simp_all add: upd_es_def)

text \<open>What sending leaves alone, whatever its result: everything but the network components, the
  counter, the packet buffer and the random source; of the network components, the encryption
  service and the service pointers stay.\<close>

definition send_frame :: "'s device \<Rightarrow> 's device \<Rightarrow> bool" where
  "send_frame d d' \<longleftrightarrow> d' = d\<lparr>packetCounter := packetCounter d', txPacket := txPacket d', d_rng := d_rng d', d_net := d_net d'\<rparr> \<and>
     n_es (d_net d') = n_es (d_net d) \<and> n_esPtr (d_net d') = n_esPtr (d_net d) \<and> n_micPtr (d_net d') = n_micPtr (d_net d) \<and>
     (net_inv (d_net d) \<longrightarrow> net_inv (d_net d')) \<and>
     (ra_module (n_radio (d_net d)) \<longrightarrow> ra_module (n_radio (d_net d'))) \<and>
     isSetup (n_radio (d_net d')) = isSetup (n_radio (d_net d))"

lemma send_frameD:
  assumes "send_frame d d'"
  shows "d_ctl d' = d_ctl d" "d_store d' = d_store d" "d_id d' = d_id d" "d_type d' = d_type d" "d_hasRadio d' = d_hasRadio d"
    "d_hasStorage d' = d_hasStorage d" "relayEnabled d' = relayEnabled d" "rxCalls d' = rxCalls d" "txCalls d' = txCalls d"
    "n_es (d_net d') = n_es (d_net d)" "n_esPtr (d_net d') = n_esPtr (d_net d)" "n_micPtr (d_net d') = n_micPtr (d_net d)"
    "net_inv (d_net d) \<Longrightarrow> net_inv (d_net d')" "ra_module (n_radio (d_net d)) \<Longrightarrow> ra_module (n_radio (d_net d'))"
    "onPacketReceived d' = onPacketReceived d" "d_hasCrypto d' = d_hasCrypto d"
    "isSetup (n_radio (d_net d')) = isSetup (n_radio (d_net d))"
proof -
  from assms have e: "d' = d\<lparr>packetCounter := packetCounter d', txPacket := txPacket d', d_rng := d_rng d', d_net := d_net d'\<rparr>"
    by (simp add: send_frame_def)
  show "d_ctl d' = d_ctl d" "d_store d' = d_store d" "d_id d' = d_id d" "d_type d' = d_type d" "d_hasRadio d' = d_hasRadio d"
    "d_hasStorage d' = d_hasStorage d" "relayEnabled d' = relayEnabled d" "rxCalls d' = rxCalls d" "txCalls d' = txCalls d"
    "onPacketReceived d' = onPacketReceived d" "d_hasCrypto d' = d_hasCrypto d"
    by (subst e, simp)+
  show "n_es (d_net d') = n_es (d_net d)" "n_esPtr (d_net d') = n_esPtr (d_net d)" "n_micPtr (d_net d') = n_micPtr (d_net d)"
    "net_inv (d_net d) \<Longrightarrow> net_inv (d_net d')" "ra_module (n_radio (d_net d)) \<Longrightarrow> ra_module (n_radio (d_net d'))"
    "isSetup (n_radio (d_net d')) = isSetup (n_radio (d_net d))"
    using assms by (simp_all add: send_frame_def)
qed

lemma send_frame_refl [simp]: "send_frame d d"
  by (simp add: send_frame_def)

lemma routePacket_pointers:
  assumes rp: "routePacket w p our dt st n = Some (rc, n')"
  shows "n_es n' = n_es n \<and> n_esPtr n' = n_esPtr n \<and> n_micPtr n' = n_micPtr n \<and>
    (ra_module (n_radio n) \<longrightarrow> ra_module (n_radio n')) \<and> isSetup (n_radio n') = isSetup (n_radio n)"
  using rp
proof (cases rule: routePacket_cases)
  case hops
  then show ?thesis by simp
next
  case (mic q n1 q')
  then show ?thesis using prepare_packet_frame [OF mic(2)] by (simp add: same_core_def)
next
  case (radio q n1 q')
  then show ?thesis using prepare_packet_frame [OF radio(2)] router_sendPacket_frame [OF radio(4)] by (simp add: same_core_def)
next
  case (sent q n1 q' n2)
  then show ?thesis
    using prepare_packet_frame [OF sent(2)] router_sendPacket_frame [OF sent(4)]
    by (auto simp: same_core_def trackPacket_def bind_eq_Some_conv)
qed

lemma device_route_frame:
  assumes "device_route env p d = Some (rc, d')"
  shows "send_frame d d'" "d' = d\<lparr>d_net := d_net d'\<rparr>"
  using assms routePacket_pointers [of "e_world env" p "d_id d" "d_type d" "state_or_not_included d" "d_net d" rc]
    routePacket_inv [of "d_net d" "e_world env" p "d_id d" "d_type d" "state_or_not_included d" rc]
  by (auto simp: device_route_def send_frame_def bind_eq_Some_conv)

lemma send_frame_prep:
  "send_frame (d\<lparr>packetCounter := c, txPacket := p, d_rng := g\<rparr>) d' \<Longrightarrow> send_frame d d'"
  by (cases d; cases d') (simp add: send_frame_def)

lemma sendData_frame:
  assumes "sendData env topic data target d = Some (rc, d')"
  shows "send_frame d d'"
proof -
  obtain pid g where pid: "getRandomBytesArray (e_rnd env) (e_sample env) (w_now (e_world env)) = (pid, g)"
    by (metis surj_pair)
  let ?p = "new_packet d topic data target pid"
  let ?d1 = "d\<lparr>packetCounter := packetCounter d + 1, txPacket := ?p, d_rng := g\<rparr>"
  from assms have "d' = d \<or> device_route env ?p ?d1 = Some (rc, d')"
    by (auto simp: sendData_def bind_eq_Some_conv pid Let_def split: if_splits)
  then show ?thesis
  proof
    assume r: "device_route env ?p ?d1 = Some (rc, d')"
    show ?thesis by (rule send_frame_prep [OF device_route_frame(1) [OF r]])
  qed simp
qed

text \<open>A device that is not included, and not the hub, sends nothing but inclusion messages, and an
  oversized message never reaches the radio.\<close>

lemma sendData_refused:
  assumes "d_ctl d = Some c"
  shows "\<not> ic_canSendMessage c topic \<Longrightarrow> sendData env topic data target d = Some (RM_E_DEVICE_NOT_INCLUDED, d)"
    and "ic_canSendMessage c topic \<Longrightarrow> MAX_DATA_LENGTH < length data \<Longrightarrow>
      sendData env topic data target d = Some (RM_E_PACKET_TOO_LONG, d)"
  using assms by (simp_all add: sendData_def canSendMessage_def DEV_ID_LENGTH_def)

end
