(* ===== verification/RM_Inclusion.thy ===== *)
theory RM_Inclusion
  imports RM_DeviceState
begin

text \<open>
  The inclusion controller: \<open>src/src/framework/device/inc/InclusionController.h\<close> and
  \<open>src/src/framework/device/src/InclusionController.cpp\<close>, with \<open>updateSecurityParams\<close> of
  \<open>src/src/framework/device/src/Device.cpp\<close>, which it calls. The controller and its device are one
  state (\<open>RM_DeviceState\<close>), so its operations take and return the device. Handlers are whole: every
  branch of the two switches, with the storage writes whose results the code ignores.
\<close>

abbreviation env_lib :: "'s env \<Rightarrow> crypto_lib" where
  "env_lib env \<equiv> w_lib (e_world env)"

abbreviation env_now :: "'s env \<Rightarrow> u32" where
  "env_now env \<equiv> w_now (e_world env)"

section \<open>Keys\<close>

text \<open>The key pair that the operation fills is not used by its caller.\<close>

definition initializeKeys :: "'s env \<Rightarrow> 's \<Rightarrow> rc \<times> 's" where
  "initializeKeys env s =
     (case km_loadPrivateKey (e_ops env) [] s of
        (rc, privateKey) \<Rightarrow>
          if rc = RM_E_STORAGE_KEY_NOT_FOUND then
            (case generateKeyPair (env_lib env) (e_chip env) of
               Inl rc1 \<Rightarrow> (rc1, s)
             | Inr (newPublic, newPrivate) \<Rightarrow>
                 (case km_persistPrivateKey (e_ops env) newPrivate s of
                    (rc1, s1) \<Rightarrow> if rc1 \<noteq> RM_E_NONE then (rc1, s1) else (RM_E_NONE, s1)))
          else if rc \<noteq> RM_E_NONE then (rc, s)
          else (case derivePublicKey (env_lib env) privateKey of Inl rc1 \<Rightarrow> (rc1, s) | Inr _ \<Rightarrow> (RM_E_NONE, s)))"

definition getPublicKey :: "'s env \<Rightarrow> 's \<Rightarrow> rc + bytes" where
  "getPublicKey env s =
     (case km_loadPrivateKey (e_ops env) [] s of
        (rc, privateKey) \<Rightarrow> if rc \<noteq> RM_E_NONE then Inl rc else derivePublicKey (env_lib env) privateKey)"

definition getDevicePublicKey :: "'s env \<Rightarrow> 's \<Rightarrow> rc + bytes" where
  "getDevicePublicKey env s = getPublicKey env s"

definition handleHubKey :: "'s env \<Rightarrow> bytes \<Rightarrow> 's device \<Rightarrow> rc \<times> 's device" where
  "handleHubKey env hubKey d =
     (case km_persistHubKey (e_ops env) hubKey (d_store d) of (rc, s) \<Rightarrow> (rc, d\<lparr>d_store := s\<rparr>))"

definition handleNetworkKey :: "'s env \<Rightarrow> bytes \<Rightarrow> 's device \<Rightarrow> (rc \<times> 's device) option" where
  "handleNetworkKey env encryptedKey d =
     (case km_loadPrivateKey (e_ops env) [] (d_store d) of
        (rc, privateKey) \<Rightarrow>
          if rc \<noteq> RM_E_NONE then Some (rc, d)
          else do {
            (rc1, nk, aes) \<leftarrow> decryptNetworkKey (env_lib env) encryptedKey privateKey [] (n_aes (d_net d));
            let d1 = d\<lparr>d_net := (d_net d)\<lparr>n_aes := aes\<rparr>\<rparr>;
            if rc1 \<noteq> RM_E_NONE then Some (rc1, d1)
            else case km_setNetworkKey (e_ops env) nk (d_store d1) of
              (rc2, s) \<Rightarrow>
                let d2 = d1\<lparr>d_store := s\<rparr> in
                if rc2 \<noteq> RM_E_NONE then Some (rc2, d2)
                else Some (RM_E_NONE, upd_es (setNetworkKey nk) d2) })"

text \<open>The result of configuring the AES component is not looked at.\<close>

definition updateSecurityParams :: "security_params \<Rightarrow> 's device \<Rightarrow> rc \<times> 's device" where
  "updateSecurityParams params d =
     (let d1 = (if sp_method params = SEC_AES then upd_es (setNetworkKey (sp_key params)) d else d);
          d2 = d1\<lparr>d_hasCrypto := True\<rparr>
      in (RM_E_NONE, d2\<lparr>d_net := (d_net d2)\<lparr>n_aes := snd (setParams params (n_aes (d_net d2)))\<rparr>\<rparr>))"

definition loadAndApplyNetworkKey :: "'s env \<Rightarrow> 's device \<Rightarrow> (rc \<times> 's device) option" where
  "loadAndApplyNetworkKey env d = do {
     c \<leftarrow> d_ctl d;
     if ic_type c \<noteq> HUB \<and> ic_state c \<noteq> INCLUDED then Some (RM_E_INVALID_STATE, d)
     else case getCurrentNetworkKey (e_ops env) [] (d_store d) of
       (rc, nk) \<Rightarrow>
         if rc \<noteq> RM_E_NONE then Some (rc, d)
         else Some (updateSecurityParams \<lparr>sp_key = nk, sp_iv = replicate 16 0, sp_method = SEC_AES\<rparr> d) }"

section \<open>Construction\<close>

text \<open>The member \<open>state\<close> has no initialiser: it keeps garbage on a device other than a hub whose keys
  failed. Without storage the key manager is null and is used all the same.\<close>

definition InclusionController :: "'s env \<Rightarrow> 's device \<Rightarrow> 's device option" where
  "InclusionController env d = do {
     guard_ok (d_hasStorage d);
     let (rc, s1) = initializeKeys env (d_store d);
     let (rc2, g, s2) = (if d_type d = HUB then initializeForHub (e_rnd env) (e_ops env) (d_rng d) s1
                         else (rc, d_rng d, s1));
     let st = (if d_type d = HUB then INCLUDED
               else if rc2 = RM_E_NONE then
                 (case loadState (e_ops env) (e_garbage env) s2 of
                    (rc3, loadedState) \<Rightarrow> if rc3 = RM_E_NONE then loadedState else NOT_INCLUDED)
               else e_garbage env);
     Some (d\<lparr>d_store := s2, d_rng := g, d_ctl := Some
       \<lparr>ic_state = st, ic_type = d_type d, inclusionModeEnabled = False, protocolState = PROTOCOL_IDLE,
        stateStartTime = 0, retryCount = 0, currentNonce = [], tempHubPublicKey = []\<rparr>\<rparr>) }"

section \<open>The protocol state\<close>

definition BASE_TIMEOUT_MS :: u32 where "BASE_TIMEOUT_MS = 60000"
definition NONCE_SIZE :: nat where "NONCE_SIZE = 4"

definition transitionToState :: "u32 \<Rightarrow> protocol_state \<Rightarrow> controller \<Rightarrow> controller" where
  "transitionToState now newState c =
     (if protocolState c \<noteq> newState then c\<lparr>protocolState := newState, stateStartTime := now, retryCount := 0\<rparr> else c)"

definition getStateTimeoutMs :: "controller \<Rightarrow> u32" where
  "getStateTimeoutMs c = BASE_TIMEOUT_MS"

definition isStateTimedOut :: "u32 \<Rightarrow> controller \<Rightarrow> bool" where
  "isStateTimedOut now c =
     (if protocolState c = PROTOCOL_IDLE then False else now - stateStartTime c > getStateTimeoutMs c)"

definition resetProtocolState :: "'s env \<Rightarrow> 's device \<Rightarrow> 's device option" where
  "resetProtocolState env d = do {
     c \<leftarrow> d_ctl d;
     let c1 = (transitionToState (env_now env) PROTOCOL_IDLE c)\<lparr>retryCount := 0\<rparr>;
     Some (if ic_type c1 = STANDARD \<and> ic_state c1 = INCLUSION_PENDING
           then d\<lparr>d_ctl := Some (c1\<lparr>ic_state := NOT_INCLUDED\<rparr>),
                  d_store := snd (persistState (e_ops env) NOT_INCLUDED (d_store d))\<rparr>
           else d\<lparr>d_ctl := Some c1\<rparr>) }"

definition handleStateTimeout :: "'s env \<Rightarrow> 's device \<Rightarrow> 's device option" where
  "handleStateTimeout env d = resetProtocolState env (upd_ctl (\<lambda>c. c\<lparr>inclusionModeEnabled := False\<rparr>) d)"

definition checkProtocolTimeouts :: "'s env \<Rightarrow> 's device \<Rightarrow> (rc \<times> 's device) option" where
  "checkProtocolTimeouts env d = do {
     c \<leftarrow> d_ctl d;
     d1 \<leftarrow> (if isStateTimedOut (env_now env) c then handleStateTimeout env d else Some d);
     Some (RM_E_NONE, d1) }"

definition getProtocolStateString :: "protocol_state \<Rightarrow> string" where
  "getProtocolStateString st =
     (case st of PROTOCOL_IDLE \<Rightarrow> ''IDLE'' | WAITING_FOR_REQUEST \<Rightarrow> ''WAITING_FOR_REQUEST''
      | WAITING_FOR_RESPONSE \<Rightarrow> ''WAITING_FOR_RESPONSE''
      | WAITING_FOR_CONFIRMATION \<Rightarrow> ''WAITING_FOR_CONFIRMATION'' | WAITING_FOR_SUCCESS \<Rightarrow> ''WAITING_FOR_SUCCESS'')"

definition ic_isInclusionModeEnabled :: "controller \<Rightarrow> bool" where
  "ic_isInclusionModeEnabled c = inclusionModeEnabled c"

definition enterInclusionMode :: "'s device \<Rightarrow> (rc \<times> 's device) option" where
  "enterInclusionMode d = do {
     c \<leftarrow> d_ctl d;
     if d_type d \<noteq> HUB then Some (RM_E_INVALID_DEVICE_TYPE, d)
     else Some (RM_E_NONE, d\<lparr>d_ctl := Some (c\<lparr>inclusionModeEnabled := True\<rparr>)\<rparr>) }"

definition exitInclusionMode :: "'s env \<Rightarrow> 's device \<Rightarrow> (rc \<times> 's device) option" where
  "exitInclusionMode env d = do {
     c \<leftarrow> d_ctl d;
     if d_type d \<noteq> HUB then Some (RM_E_INVALID_DEVICE_TYPE, d)
     else do {
       d1 \<leftarrow> resetProtocolState env (d\<lparr>d_ctl := Some (c\<lparr>inclusionModeEnabled := False\<rparr>)\<rparr>);
       Some (RM_E_NONE, d1) } }"

section \<open>Sending the messages\<close>

definition ic_sendInclusionOpen :: "'s env \<Rightarrow> 's device \<Rightarrow> (rc \<times> 's device) option" where
  "ic_sendInclusionOpen env d = do {
     c \<leftarrow> d_ctl d;
     if \<not> inclusionModeEnabled c then Some (RM_E_INVALID_STATE, d)
     else do {
       let d1 = d\<lparr>d_ctl := Some (transitionToState (env_now env) WAITING_FOR_REQUEST c)\<rparr>;
       case getPublicKey env (d_store d1) of
         Inl rc \<Rightarrow> Some (rc, d1)
       | Inr hubPublic \<Rightarrow> sendData env T_INCLUDE_OPEN hubPublic BROADCAST_ADDR d1 } }"

definition ic_sendInclusionRequest :: "'s env \<Rightarrow> 's device \<Rightarrow> (rc \<times> 's device) option" where
  "ic_sendInclusionRequest env d = do {
     c \<leftarrow> d_ctl d;
     if ic_type c = HUB then Some (RM_E_INVALID_DEVICE_TYPE, d)
     else if tempHubPublicKey c = [] then Some (RM_E_INVALID_STATE, d)
     else case getPublicKey env (d_store d) of
         Inl rc \<Rightarrow> Some (rc, d)
       | Inr devicePublic \<Rightarrow> sendData env T_INCLUDE_REQUEST devicePublic BROADCAST_ADDR d }"

definition generateNonce :: "rnd \<Rightarrow> rng \<Rightarrow> bytes \<times> rng" where
  "generateNonce r g = random_bytes r NONCE_SIZE g"

definition ic_sendInclusionResponse :: "'s env \<Rightarrow> packet \<Rightarrow> 's device \<Rightarrow> (rc \<times> 's device) option" where
  "ic_sendInclusionResponse env p d = do {
     c \<leftarrow> d_ctl d;
     if ic_type c \<noteq> HUB then Some (RM_E_INVALID_DEVICE_TYPE, d)
     else case getCurrentNetworkKey (e_ops env) [] (d_store d) of
       (rc, nk) \<Rightarrow>
         if rc \<noteq> RM_E_NONE then Some (rc, d)
         else if length (p_data p) \<noteq> 32 then Some (RM_E_INVALID_LENGTH, d)
         else do {
           let d1 = upd_es (setTempDevicePublicKey (p_data p)) d;
           let d2 = upd_es (setNetworkKey nk) d1;
           let (nonce, g) = generateNonce (e_rnd env) (d_rng d2);
           let d3 = d2\<lparr>d_rng := g, d_ctl := Some (c\<lparr>currentNonce := nonce\<rparr>)\<rparr>;
           sendData env T_INCLUDE_RESPONSE (nk @ nonce) BROADCAST_ADDR d3 } }"

definition ic_sendInclusionConfirm :: "'s env \<Rightarrow> 's device \<Rightarrow> (rc \<times> 's device) option" where
  "ic_sendInclusionConfirm env d = do {
     c \<leftarrow> d_ctl d;
     if ic_type c = HUB then Some (RM_E_INVALID_DEVICE_TYPE, d)
     else sendData env T_INCLUDE_CONFIRM
            (numberToBytes ((bytesToNumber (currentNonce c) :: u32) + 1)) BROADCAST_ADDR d }"

definition ic_sendInclusionSuccess :: "'s env \<Rightarrow> 's device \<Rightarrow> (rc \<times> 's device) option" where
  "ic_sendInclusionSuccess env d = do {
     c \<leftarrow> d_ctl d;
     if ic_type c \<noteq> HUB then Some (RM_E_INVALID_DEVICE_TYPE, d)
     else sendData env T_INCLUDE_SUCCESS [] BROADCAST_ADDR d }"

section \<open>Handling the messages\<close>

definition hub_handleInclusionMessage :: "'s env \<Rightarrow> packet \<Rightarrow> controller \<Rightarrow> 's device \<Rightarrow> (rc \<times> 's device) option" where
  "hub_handleInclusionMessage env p c d =
     (if p_topic p = T_INCLUDE_REQUEST then
        (if ic_isInclusionModeEnabled c \<and> protocolState c = WAITING_FOR_REQUEST then
           ic_sendInclusionResponse env p
             (d\<lparr>d_ctl := Some (transitionToState (env_now env) WAITING_FOR_CONFIRMATION c)\<rparr>)
         else Some (RM_E_INVALID_STATE, d))
      else if p_topic p = T_INCLUDE_CONFIRM then
        (if protocolState c = WAITING_FOR_CONFIRMATION then
           (if (bytesToNumber (p_data p) :: u32) \<noteq> bytesToNumber (currentNonce c) + 1 then Some (RM_E_INVALID_PARAM, d)
            else ic_sendInclusionSuccess env
                   (d\<lparr>d_ctl := Some (transitionToState (env_now env) PROTOCOL_IDLE c)\<rparr>))
         else Some (RM_E_INVALID_STATE, d))
      else Some (RM_E_NONE, d))"

definition device_handleOpen :: "'s env \<Rightarrow> packet \<Rightarrow> controller \<Rightarrow> 's device \<Rightarrow> (rc \<times> 's device) option" where
  "device_handleOpen env p c d =
     (if ic_state c = NOT_INCLUDED \<and> protocolState c = PROTOCOL_IDLE then
        (if length (p_data p) \<noteq> PUBLIC_KEY_SIZE then Some (RM_E_INVALID_LENGTH, d)
         else do {
           let d1 = upd_es (setHubPublicKey (p_data p)) d;
           let c1 = c\<lparr>tempHubPublicKey := p_data p, ic_state := INCLUSION_PENDING\<rparr>;
           let s1 = snd (persistState (e_ops env) INCLUSION_PENDING (d_store d1));
           ic_sendInclusionRequest env
             (d1\<lparr>d_store := s1, d_ctl := Some (transitionToState (env_now env) WAITING_FOR_RESPONSE c1)\<rparr>) })
      else Some (RM_E_NONE, d))"

definition device_handleResponse :: "'s env \<Rightarrow> packet \<Rightarrow> controller \<Rightarrow> 's device \<Rightarrow> (rc \<times> 's device) option" where
  "device_handleResponse env p c d =
     (if ic_state c = INCLUSION_PENDING \<and> protocolState c = WAITING_FOR_RESPONSE then
        (if length (p_data p) < 32 + 4 then Some (RM_E_INVALID_LENGTH, d)
         else
           let nk = take 32 (p_data p);
               c1 = c\<lparr>currentNonce := take 4 (drop 32 (p_data p))\<rparr>
           in case km_setNetworkKey (e_ops env) nk (d_store d) of
                (rc, s1) \<Rightarrow>
                  if rc \<noteq> RM_E_NONE then Some (rc, d\<lparr>d_ctl := Some c1, d_store := s1\<rparr>)
                  else ic_sendInclusionConfirm env
                    (upd_es (setNetworkKey nk)
                      (d\<lparr>d_store := s1, d_ctl := Some (transitionToState (env_now env) WAITING_FOR_SUCCESS c1)\<rparr>)))
      else Some (RM_E_NONE, d))"

definition device_handleSuccess :: "'s env \<Rightarrow> controller \<Rightarrow> 's device \<Rightarrow> (rc \<times> 's device) option" where
  "device_handleSuccess env c d =
     (if ic_state c = INCLUSION_PENDING \<and> protocolState c = WAITING_FOR_SUCCESS then
        (let s1 = snd (persistState (e_ops env) INCLUDED (d_store d));
             d1 = d\<lparr>d_store := s1,
                    d_ctl := Some (transitionToState (env_now env) PROTOCOL_IDLE (c\<lparr>ic_state := INCLUDED\<rparr>))\<rparr>
         in case getCurrentNetworkKey (e_ops env) [] (d_store d1) of
              (rc, nk) \<Rightarrow>
                if rc = RM_E_NONE
                then Some (RM_E_NONE,
                       snd (updateSecurityParams \<lparr>sp_key = nk, sp_iv = replicate 16 0, sp_method = SEC_AES\<rparr> d1))
                else Some (RM_E_NONE, d1))
      else Some (RM_E_NONE, d))"

definition handleInclusionMessage :: "'s env \<Rightarrow> packet \<Rightarrow> 's device \<Rightarrow> (rc \<times> 's device) option" where
  "handleInclusionMessage env p d = do {
     c \<leftarrow> d_ctl d;
     if ic_type c = HUB then hub_handleInclusionMessage env p c d
     else if p_topic p = T_INCLUDE_OPEN then device_handleOpen env p c d
     else if p_topic p = T_INCLUDE_RESPONSE then device_handleResponse env p c d
     else if p_topic p = T_INCLUDE_SUCCESS then device_handleSuccess env c d
     else Some (RM_E_NONE, d) }"

end
