(* ===== verification/RM_Device.thy ===== *)
theory RM_Device
  imports RM_Inclusion
begin

text \<open>
  The device: reception, the run loop, start-up and reset of
  \<open>src/src/framework/device/src/Device.cpp\<close>. A received frame goes through reading, parsing,
  duplicate check, checksum, integrity code, route update, decryption, the inclusion controller or
  the application, and the relay, in this order. The application's callbacks are logged in the
  state, with the packet they are given; what they do is not modelled.
\<close>

section \<open>Component set-up\<close>

definition initializeRadio :: "lora_params \<Rightarrow> 's device \<Rightarrow> rc \<times> 's device" where
  "initializeRadio params d =
     (case radio_setParams params (n_radio (d_net d)) of
        (rc, r) \<Rightarrow> (rc, d\<lparr>d_net := (d_net d)\<lparr>n_radio := r\<rparr>, d_hasRadio := (rc = RM_E_NONE)\<rparr>))"

definition initializeAesCrypto :: "security_params \<Rightarrow> 's device \<Rightarrow> rc \<times> 's device" where
  "initializeAesCrypto params d =
     (RM_E_NONE, d\<lparr>d_hasCrypto := True, d_net := (d_net d)\<lparr>n_aes := snd (setParams params (n_aes (d_net d)))\<rparr>\<rparr>)"

definition setDeviceType :: "device_type \<Rightarrow> 's device \<Rightarrow> 's device" where
  "setDeviceType dt d = d\<lparr>d_type := dt\<rparr>"

definition enableRelay :: "bool \<Rightarrow> 's device \<Rightarrow> 's device" where
  "enableRelay enabled d = d\<lparr>relayEnabled := enabled\<rparr>"

definition isRelayEnabled :: "'s device \<Rightarrow> bool" where
  "isRelayEnabled d = relayEnabled d"

definition registerCallback :: "bool \<Rightarrow> 's device \<Rightarrow> 's device" where
  "registerCallback present d = d\<lparr>onPacketReceived := present\<rparr>"

definition registerTxCallback :: "bool \<Rightarrow> 's device \<Rightarrow> 's device" where
  "registerTxCallback present d = d\<lparr>onPacketSent := present\<rparr>"

definition getDeviceId :: "'s device \<Rightarrow> id4" where
  "getDeviceId d = d_id d"

definition getDeviceName :: "'s device \<Rightarrow> string" where
  "getDeviceName d = d_name d"

section \<open>Reception\<close>

definition isReceivedDataCrcValid :: "packet \<Rightarrow> bool" where
  "isReceivedDataCrcValid p =
     (if packet_crc (p_fcounter p) (getDataWithoutMIC p) \<noteq> p_crc p then False else True)"

text \<open>The packet without its code, or \<open>None\<close> inside where verification fails.\<close>

definition verifyAndStripReceivedPacketMIC :: "'s env \<Rightarrow> packet \<Rightarrow> 's device \<Rightarrow> packet option option" where
  "verifyAndStripReceivedPacketMIC env p d =
     (if p_topic p = T_INCLUDE_OPEN \<or> p_topic p = T_INCLUDE_REQUEST then Some (Some p)
      else if \<not> hasMIC p then Some None
      else do {
        let payloadWithoutMic = getDataWithoutMIC p;
        isValid \<leftarrow> verifyPacketMIC (env_lib env) (Some (n_es (d_net d))) (getHeaderBytes p) payloadWithoutMic
          (packet_extractMIC p) (p_topic p) (d_type d) (state_or_not_included d);
        Some (if \<not> isValid then None else Some (p\<lparr>p_data := payloadWithoutMic\<rparr>)) })"

definition notify :: "packet option \<Rightarrow> rc \<Rightarrow> 's device \<Rightarrow> 's device" where
  "notify p rc d = (if onPacketReceived d then d\<lparr>rxCalls := rxCalls d @ [(p, rc)]\<rparr> else d)"

definition device_decrypt :: "'s env \<Rightarrow> packet \<Rightarrow> 's device \<Rightarrow> (packet \<times> 's device) option" where
  "device_decrypt env p d = do {
     c \<leftarrow> d_ctl d;
     (x, aes) \<leftarrow> es_decrypt (env_lib env) (n_es (d_net d)) (p_data p) (p_topic p) (d_type d) (getState c) (n_aes (d_net d));
     Some (p\<lparr>p_data := x\<rparr>, d\<lparr>d_net := (d_net d)\<lparr>n_aes := aes\<rparr>\<rparr>) }"

text \<open>The signal strength, an \<open>int\<close>, is stored in a signed byte.\<close>

definition learn_route :: "'s env \<Rightarrow> packet \<Rightarrow> 's device \<Rightarrow> 's device option" where
  "learn_route env p d = do {
     (rssi, r) \<leftarrow> radio_getRSSI (w_rl (e_world env)) (n_radio (d_net d));
     Some (d\<lparr>d_net := (d_net d)\<lparr>n_radio := r,
       n_routes := updateRoute p (word_of_int rssi) (env_now env) (n_routes (d_net d))\<rparr>\<rparr>) }"

text \<open>What is done with a packet that passed all checks.\<close>

definition deliver :: "'s env \<Rightarrow> packet \<Rightarrow> 's device \<Rightarrow> (rc \<times> 's device) option" where
  "deliver env p d =
     (if isInclusionMessage (p_topic p) then do {
        (q, d1) \<leftarrow> device_decrypt env p d;
        (result, d2) \<leftarrow> handleInclusionMessage env q d1;
        Some (result, notify (Some q) RM_E_NONE d2) }
      else do {
        (q, d1) \<leftarrow> (if isApplicationMessage (p_topic p) then device_decrypt env p d else Some (p, d));
        let d2 = notify (Some q) RM_E_NONE d1;
        if d_type d2 = HUB \<or> p_dest q = d_id d2 then Some (RM_E_NONE, d2)
        else if d_type d2 = STANDARD \<and> relayEnabled d2 then device_route env q d2
        else Some (RM_E_NONE, d2) })"

text \<open>The checks on a parsed packet, then its delivery.\<close>

definition receive_packet :: "'s env \<Rightarrow> packet \<Rightarrow> 's device \<Rightarrow> (rc \<times> 's device) option" where
  "receive_packet env p d = do {
     (seen, n) \<leftarrow> isPacketFoundInTracker p (d_net d);
     let d1 = d\<lparr>d_net := n\<rparr>;
     if seen then Some (RM_E_NONE, d1)
     else if \<not> isReceivedDataCrcValid p then Some (RM_E_PACKET_CORRUPTED, d1)
     else do {
       verified \<leftarrow> verifyAndStripReceivedPacketMIC env p d1;
       case verified of
         None \<Rightarrow> Some (RM_E_AUTH_FAILED, d1)
       | Some q \<Rightarrow> do { d2 \<leftarrow> learn_route env q d1; deliver env q d2 } } }"

definition handleReceivedData :: "'s env \<Rightarrow> 's device \<Rightarrow> (rc \<times> 's device) option" where
  "handleReceivedData env d = do {
     guard_ok (d_hasRadio d);
     (rc, dataBytes, r) \<leftarrow> readReceivedData (w_rl (e_world env)) [] (n_radio (d_net d));
     let d1 = d\<lparr>d_net := (d_net d)\<lparr>n_radio := r\<rparr>\<rparr>;
     if rc \<noteq> RM_E_NONE then Some (rc, d1)
     else do {
       p \<leftarrow> fromByteBuffer dataBytes;
       receive_packet env p d1 } }"

section \<open>The run loop\<close>

definition upd_radio :: "radio \<Rightarrow> 's device \<Rightarrow> 's device" where
  "upd_radio r d = d\<lparr>d_net := (d_net d)\<lparr>n_radio := r\<rparr>\<rparr>"

text \<open>The two halves: a received frame, whose error stops the run, and the end of a transmission.\<close>

definition run_rx :: "'s env \<Rightarrow> 's device \<Rightarrow> (rc \<times> 's device) option" where
  "run_rx env d = do {
     guard_ok (d_hasRadio d);
     let (rx, r) = checkAndClearRxFlag (n_radio (d_net d));
     let d1 = upd_radio r d;
     if \<not> rx then Some (RM_E_NONE, d1)
     else do {
       (radioErr, r1) \<leftarrow> getRadioStateError (w_rl (e_world env)) (n_radio (d_net d1));
       let d2 = upd_radio r1 d1;
       if radioErr \<noteq> RM_E_NONE then Some (radioErr, notify None radioErr d2)
       else do {
         (rc, d3) \<leftarrow> handleReceivedData env d2;
         Some (rc, if rc \<noteq> RM_E_NONE then notify None rc d3 else d3) } } }"

definition run_tx :: "'s env \<Rightarrow> 's device \<Rightarrow> (rc \<times> 's device) option" where
  "run_tx env d = do {
     guard_ok (d_hasRadio d);
     let (tx, r) = checkAndClearTxFlag (n_radio (d_net d));
     let d1 = upd_radio r d;
     if \<not> tx then Some (RM_E_NONE, d1)
     else do {
       (radioErr, r1) \<leftarrow> getRadioStateError (w_rl (e_world env)) (n_radio (d_net d1));
       let d2 = upd_radio r1 d1;
       let d3 = (if onPacketSent d2 then d2\<lparr>txCalls := txCalls d2 @ [(txPacket d2, radioErr)]\<rparr> else d2);
       (rc, r2) \<leftarrow> startReceive (w_rl (e_world env)) (n_radio (d_net d3));
       Some (RM_E_NONE, upd_radio r2 d3) } }"

definition run :: "'s env \<Rightarrow> 's device \<Rightarrow> (rc \<times> 's device) option" where
  "run env d = do {
     (rc0, d1) \<leftarrow> checkProtocolTimeouts env d;
     (rc, d2) \<leftarrow> run_rx env d1;
     if rc \<noteq> RM_E_NONE then Some (rc, d2) else run_tx env d2 }"

section \<open>Inclusion at the device\<close>

definition sendInclusionOpen :: "'s env \<Rightarrow> 's device \<Rightarrow> (rc \<times> 's device) option" where
  "sendInclusionOpen env d = ic_sendInclusionOpen env d"

definition sendInclusionRequest :: "'s env \<Rightarrow> 's device \<Rightarrow> (rc \<times> 's device) option" where
  "sendInclusionRequest env d = ic_sendInclusionRequest env d"

definition sendInclusionResponse :: "'s env \<Rightarrow> packet \<Rightarrow> 's device \<Rightarrow> (rc \<times> 's device) option" where
  "sendInclusionResponse env p d = ic_sendInclusionResponse env p d"

definition sendInclusionConfirm :: "'s env \<Rightarrow> 's device \<Rightarrow> (rc \<times> 's device) option" where
  "sendInclusionConfirm env d = ic_sendInclusionConfirm env d"

definition sendInclusionSuccess :: "'s env \<Rightarrow> 's device \<Rightarrow> (rc \<times> 's device) option" where
  "sendInclusionSuccess env d = ic_sendInclusionSuccess env d"

definition enableInclusionMode :: "'s env \<Rightarrow> bool \<Rightarrow> 's device \<Rightarrow> (rc \<times> 's device) option" where
  "enableInclusionMode env enable d = (if enable then enterInclusionMode d else exitInclusionMode env d)"

definition isInclusionModeEnabled :: "'s device \<Rightarrow> bool option" where
  "isInclusionModeEnabled d = map_option ic_isInclusionModeEnabled (d_ctl d)"

section \<open>Start and reset\<close>

definition initialize :: "'s env \<Rightarrow> 's device \<Rightarrow> (rc \<times> 's device) option" where
  "initialize env d =
     (let s1 = snd (e_setParams env (d_store d)) in
      case bs_begin (e_ops env) s1 of
        (rc, s2) \<Rightarrow>
          if rc \<noteq> RM_E_NONE then Some (rc, d\<lparr>d_store := s2, d_hasStorage := False\<rparr>)
          else do {
            d1 \<leftarrow> InclusionController env (d\<lparr>d_store := s2, d_hasStorage := True\<rparr>);
            let d2 = d1\<lparr>d_net := setMicService (setEncryptionService (d_net d1))\<rparr>;
            let d3 = (case km_loadPrivateKey (e_ops env) [] (d_store d2) of
                        (rc1, privateKey) \<Rightarrow>
                          if rc1 = RM_E_NONE then
                            (case derivePublicKey (env_lib env) privateKey of
                               Inr publicKey \<Rightarrow> upd_es (setDeviceKeys privateKey publicKey) d2
                             | Inl _ \<Rightarrow> d2)
                          else d2);
            c \<leftarrow> d_ctl d3;
            d4 \<leftarrow> (if getState c = INCLUDED \<or> d_type d3 = HUB
                    then map_option snd (loadAndApplyNetworkKey env d3) else Some d3);
            Some (RM_E_NONE, d4) })"

definition factoryReset :: "'s env \<Rightarrow> 's device \<Rightarrow> (rc \<times> 's device) option" where
  "factoryReset env d =
     (if \<not> d_hasStorage d then Some (RM_E_UNKNOWN, d)
      else case bs_clear (e_ops env) (d_store d) of
        (rc, s) \<Rightarrow>
          let d1 = d\<lparr>d_store := s\<rparr> in
          if rc \<noteq> RM_E_NONE then Some (rc, d1)
          else do {
            let d2 = d1\<lparr>packetCounter := 0\<rparr>;
            d3 \<leftarrow> (case d_ctl d2 of None \<Rightarrow> Some d2 | Some _ \<Rightarrow> InclusionController env d2);
            Some (RM_E_NONE, d3) })"

end
