(* ===== verification/RM_Protocol.thy ===== *)
theory RM_Protocol
  imports RM_Device
begin

text \<open>
  The inclusion protocol as a state machine, and the controller as an implementation of it. The
  abstract state of a device is its inclusion state with the protocol state; that of a hub is
  whether the inclusion mode is on, with the protocol state. \<open>dev_step\<close> and \<open>hub_step\<close> are the
  transitions the protocol description of
  \<open>src/src/framework/device/inc/InclusionController.h\<close> allows; every handler, time-out and call of
  the controller is proved to make one of them or none (\<open>RM_Inclusion\<close>). The factory reset of the
  device, which replaces the controller, is not a step of these machines: it starts them anew.
\<close>

section \<open>The abstract machines\<close>

type_synonym dev_phase = "inclusion_state \<times> protocol_state"
type_synonym hub_phase = "bool \<times> protocol_state"

inductive dev_step :: "dev_phase \<Rightarrow> dev_phase \<Rightarrow> bool" where
  invited: "dev_step (NOT_INCLUDED, PROTOCOL_IDLE) (INCLUSION_PENDING, WAITING_FOR_RESPONSE)"
| answered: "dev_step (INCLUSION_PENDING, WAITING_FOR_RESPONSE) (INCLUSION_PENDING, WAITING_FOR_SUCCESS)"
| included: "dev_step (INCLUSION_PENDING, WAITING_FOR_SUCCESS) (INCLUDED, PROTOCOL_IDLE)"
| given_up: "p \<noteq> PROTOCOL_IDLE \<Longrightarrow> dev_step (INCLUSION_PENDING, p) (NOT_INCLUDED, PROTOCOL_IDLE)"

inductive hub_step :: "hub_phase \<Rightarrow> hub_phase \<Rightarrow> bool" where
  mode_on: "hub_step (m, p) (True, p)"
| mode_off: "hub_step (m, p) (False, PROTOCOL_IDLE)"
| opened: "hub_step (True, p) (True, WAITING_FOR_REQUEST)"
| requested: "hub_step (True, WAITING_FOR_REQUEST) (True, WAITING_FOR_CONFIRMATION)"
| confirmed: "hub_step (m, WAITING_FOR_CONFIRMATION) (m, PROTOCOL_IDLE)"

inductive_cases dev_stepE: "dev_step a b"
inductive_simps dev_step_simps: "dev_step (st, p) b"
inductive_simps hub_step_simps: "hub_step (m, p) b"

text \<open>The invariant of the device's machine: outside the idle state it is always pending. The converse
  fails only where the machine starts: a device can be started pending and idle.\<close>

definition phase_ok :: "dev_phase \<Rightarrow> bool" where
  "phase_ok ph \<longleftrightarrow>
     (case ph of (st, p) \<Rightarrow>
        p \<in> {PROTOCOL_IDLE, WAITING_FOR_RESPONSE, WAITING_FOR_SUCCESS} \<and>
        (p \<noteq> PROTOCOL_IDLE \<longrightarrow> st = INCLUSION_PENDING))"

definition settled :: "dev_phase \<Rightarrow> bool" where
  "settled ph \<longleftrightarrow> (case ph of (st, p) \<Rightarrow> p = PROTOCOL_IDLE \<longrightarrow> st \<noteq> INCLUSION_PENDING)"

definition hub_phase_ok :: "hub_phase \<Rightarrow> bool" where
  "hub_phase_ok ph \<longleftrightarrow> snd ph \<in> {PROTOCOL_IDLE, WAITING_FOR_REQUEST, WAITING_FOR_CONFIRMATION}"

lemma dev_step_ok: "dev_step a b \<Longrightarrow> phase_ok b \<and> settled b"
  by (auto simp: phase_ok_def settled_def elim: dev_stepE)

lemma dev_steps_ok: "dev_step\<^sup>*\<^sup>* a b \<Longrightarrow> phase_ok a \<Longrightarrow> phase_ok b"
  by (induction rule: rtranclp_induct) (auto dest: dev_step_ok)

lemma dev_steps_settled: "dev_step\<^sup>*\<^sup>* a b \<Longrightarrow> settled a \<Longrightarrow> settled b"
  by (induction rule: rtranclp_induct) (auto dest: dev_step_ok)

lemma hub_step_ok: "hub_step a b \<Longrightarrow> hub_phase_ok a \<Longrightarrow> hub_phase_ok b"
  by (induction rule: hub_step.induct) (simp_all add: hub_phase_ok_def)

text \<open>No step leaves the included phase, and no step leaves a device that is pending and idle.\<close>

lemma included_final: "dev_step\<^sup>*\<^sup>* (INCLUDED, PROTOCOL_IDLE) b \<Longrightarrow> b = (INCLUDED, PROTOCOL_IDLE)"
  by (induction rule: rtranclp_induct) (auto simp: dev_step_simps)

lemma pending_idle_stuck: "dev_step\<^sup>*\<^sup>* (INCLUSION_PENDING, PROTOCOL_IDLE) b \<Longrightarrow> b = (INCLUSION_PENDING, PROTOCOL_IDLE)"
  by (induction rule: rtranclp_induct) (auto simp: dev_step_simps)

section \<open>The phase of a controller\<close>

definition dev_phase_of :: "controller \<Rightarrow> dev_phase" where
  "dev_phase_of c = (ic_state c, protocolState c)"

definition hub_phase_of :: "controller \<Rightarrow> hub_phase" where
  "hub_phase_of c = (inclusionModeEnabled c, protocolState c)"

text \<open>What an operation may do to the controller.\<close>

definition ctl_step :: "controller \<Rightarrow> controller \<Rightarrow> bool" where
  "ctl_step c c' \<longleftrightarrow> ic_type c' = ic_type c \<and>
     (ic_type c = HUB \<longrightarrow> ic_state c' = ic_state c \<and> hub_step\<^sup>=\<^sup>= (hub_phase_of c) (hub_phase_of c')) \<and>
     (ic_type c = STANDARD \<longrightarrow>
        (inclusionModeEnabled c' \<longrightarrow> inclusionModeEnabled c) \<and> dev_step\<^sup>=\<^sup>= (dev_phase_of c) (dev_phase_of c'))"

definition device_ctl_step :: "'s device \<Rightarrow> 's device \<Rightarrow> bool" where
  "device_ctl_step d d' \<longleftrightarrow> d_type d' = d_type d \<and> d_id d' = d_id d \<and>
     (case d_ctl d of None \<Rightarrow> d_ctl d' = None | Some c \<Rightarrow> (\<exists>c'. d_ctl d' = Some c' \<and> ctl_step c c'))"

lemma ctl_step_refl [simp]: "ctl_step c c"
  by (simp add: ctl_step_def)

lemma device_ctl_step_refl [simp]: "device_ctl_step d d"
  by (simp add: device_ctl_step_def split: option.split)

lemma send_ctl_step: "send_frame d d' \<Longrightarrow> device_ctl_step d d'"
  by (simp add: device_ctl_step_def send_frameD split: option.split)

lemma transition_simps [simp]:
  "protocolState (transitionToState now p c) = p" "ic_type (transitionToState now p c) = ic_type c"
  "ic_state (transitionToState now p c) = ic_state c"
  "inclusionModeEnabled (transitionToState now p c) = inclusionModeEnabled c"
  "currentNonce (transitionToState now p c) = currentNonce c"
  "tempHubPublicKey (transitionToState now p c) = tempHubPublicKey c"
  by (simp_all add: transitionToState_def)

lemmas phase_defs = ctl_step_def hub_phase_of_def dev_phase_of_def

section \<open>The simulation\<close>

text \<open>The messages that are sent without a change of the controller.\<close>

lemma plain_sends:
  "ic_sendInclusionRequest env d = Some (rc, d') \<Longrightarrow> send_frame d d'"
  "ic_sendInclusionConfirm env d = Some (rc, d') \<Longrightarrow> send_frame d d'"
  "ic_sendInclusionSuccess env d = Some (rc, d') \<Longrightarrow> send_frame d d'"
  by (auto simp: ic_sendInclusionRequest_def ic_sendInclusionConfirm_def ic_sendInclusionSuccess_def bind_eq_Some_conv
      intro: sendData_frame split: if_splits sum.splits)

text \<open>The response keeps a nonce; of the network components, the encryption service learns two keys.\<close>

lemma sendResponse_frame:
  assumes "ic_sendInclusionResponse env p d = Some (rc, d')" and "d_ctl d = Some c"
  shows "d_type d' = d_type d \<and> d_id d' = d_id d \<and> d_store d' = d_store d \<and> (\<exists>n. d_ctl d' = Some (c\<lparr>currentNonce := n\<rparr>))"
proof -
  have same: "c = c\<lparr>currentNonce := currentNonce c\<rparr>" by simp
  obtain nonce g where g: "generateNonce (e_rnd env) (d_rng d) = (nonce, g)" by (metis surj_pair)
  from assms consider "d' = d"
    | nk where "sendData env T_INCLUDE_RESPONSE (nk @ nonce) BROADCAST_ADDR
        ((upd_es (setNetworkKey nk) (upd_es (setTempDevicePublicKey (p_data p)) d))
          \<lparr>d_rng := g, d_ctl := Some (c\<lparr>currentNonce := nonce\<rparr>)\<rparr>) = Some (rc, d')"
    by (auto simp: ic_sendInclusionResponse_def g Let_def split: if_splits prod.splits)
  then show ?thesis
  proof cases
    case 1
    then show ?thesis using assms(2) same by metis
  next
    case (2 nk)
    then show ?thesis using send_frameD [OF sendData_frame [OF 2]] by auto
  qed
qed

lemma sendOpen_result:
  assumes "ic_sendInclusionOpen env d = Some (rc, d')" and "d_ctl d = Some c" and "inclusionModeEnabled c"
  shows "d_ctl d' = Some (transitionToState (env_now env) WAITING_FOR_REQUEST c) \<and> d_type d' = d_type d \<and> d_id d' = d_id d"
proof -
  let ?d = "d\<lparr>d_ctl := Some (transitionToState (env_now env) WAITING_FOR_REQUEST c)\<rparr>"
  from assms consider "d' = ?d" | k where "sendData env T_INCLUDE_OPEN k BROADCAST_ADDR ?d = Some (rc, d')"
    by (auto simp: ic_sendInclusionOpen_def Let_def split: sum.splits)
  then show ?thesis by cases (auto dest!: sendData_frame simp: send_frameD)
qed

lemma sendOpen_step:
  assumes "ic_sendInclusionOpen env d = Some (rc, d')" and "d_ctl d = Some c" and "ic_type c = STANDARD \<longrightarrow> \<not> inclusionModeEnabled c"
  shows "device_ctl_step d d'"
proof (cases "inclusionModeEnabled c")
  case False
  then show ?thesis using assms by (simp add: ic_sendInclusionOpen_def)
next
  case True
  moreover have "ctl_step c (transitionToState (env_now env) WAITING_FOR_REQUEST c)"
    using True assms(3) by (simp add: phase_defs hub_step_simps)
  ultimately show ?thesis using sendOpen_result [OF assms(1,2)] assms(2) by (simp add: device_ctl_step_def)
qed

lemma hub_handle_step:
  assumes "hub_handleInclusionMessage env p c d = Some (rc, d')" and "d_ctl d = Some c" "ic_type c = HUB"
  shows "device_ctl_step d d'"
proof -
  let ?c1 = "transitionToState (env_now env) WAITING_FOR_CONFIRMATION c"
  let ?c2 = "transitionToState (env_now env) PROTOCOL_IDLE c"
  from assms(1) consider "d' = d"
    | "inclusionModeEnabled c" "protocolState c = WAITING_FOR_REQUEST" "ic_sendInclusionResponse env p (d\<lparr>d_ctl := Some ?c1\<rparr>) = Some (rc, d')"
    | "protocolState c = WAITING_FOR_CONFIRMATION" "ic_sendInclusionSuccess env (d\<lparr>d_ctl := Some ?c2\<rparr>) = Some (rc, d')"
    by (auto simp: hub_handleInclusionMessage_def ic_isInclusionModeEnabled_def split: if_splits)
  then show ?thesis
  proof cases
    case 2
    then have "d_type d' = d_type d \<and> d_id d' = d_id d \<and> (\<exists>n. d_ctl d' = Some (?c1\<lparr>currentNonce := n\<rparr>))"
      using sendResponse_frame [OF 2(3), of ?c1] by simp
    moreover have "ctl_step c (?c1\<lparr>currentNonce := n\<rparr>)" for n
      using 2 assms(3) by (simp add: phase_defs hub_step_simps)
    ultimately show ?thesis using assms(2) by (auto simp: device_ctl_step_def)
  next
    case 3
    then have "d_type d' = d_type d \<and> d_id d' = d_id d \<and> d_ctl d' = Some ?c2"
      using send_frameD [OF plain_sends(3) [OF 3(2)]] by simp
    moreover have "ctl_step c ?c2" using 3 assms(3) by (simp add: phase_defs hub_step_simps)
    ultimately show ?thesis using assms(2) by (simp add: device_ctl_step_def)
  qed simp
qed

lemma device_handleOpen_step:
  assumes "device_handleOpen env p c d = Some (rc, d')" and "d_ctl d = Some c" "ic_type c \<noteq> HUB"
  shows "device_ctl_step d d'"
proof (cases "ic_state c = NOT_INCLUDED \<and> protocolState c = PROTOCOL_IDLE \<and> length (p_data p) = PUBLIC_KEY_SIZE")
  case False
  then have "d' = d" using assms(1) by (auto simp: device_handleOpen_def split: if_splits)
  then show ?thesis by simp
next
  case True
  let ?c = "transitionToState (env_now env) WAITING_FOR_RESPONSE (c\<lparr>tempHubPublicKey := p_data p, ic_state := INCLUSION_PENDING\<rparr>)"
  from True assms(1) obtain s where "ic_sendInclusionRequest env
      ((upd_es (setHubPublicKey (p_data p)) d)\<lparr>d_store := s, d_ctl := Some ?c\<rparr>) = Some (rc, d')"
    by (auto simp: device_handleOpen_def Let_def)
  from send_frameD [OF plain_sends(1) [OF this]]
  have "d_type d' = d_type d \<and> d_id d' = d_id d \<and> d_ctl d' = Some ?c" by simp
  moreover have "ctl_step c ?c" using True assms(3) by (simp add: phase_defs dev_step_simps)
  ultimately show ?thesis using assms(2) by (simp add: device_ctl_step_def)
qed

lemma device_handleResponse_step:
  assumes "device_handleResponse env p c d = Some (rc, d')" and "d_ctl d = Some c" "ic_type c \<noteq> HUB"
  shows "device_ctl_step d d'"
proof -
  let ?c1 = "c\<lparr>currentNonce := take 4 (drop 32 (p_data p))\<rparr>"
  let ?c2 = "transitionToState (env_now env) WAITING_FOR_SUCCESS ?c1"
  from assms(1) consider "d' = d" | s where "d' = d\<lparr>d_ctl := Some ?c1, d_store := s\<rparr>"
    | s k where "ic_state c = INCLUSION_PENDING" "protocolState c = WAITING_FOR_RESPONSE"
        "ic_sendInclusionConfirm env (upd_es (setNetworkKey k) (d\<lparr>d_store := s, d_ctl := Some ?c2\<rparr>)) = Some (rc, d')"
    by (auto simp: device_handleResponse_def Let_def split: if_splits prod.splits)
  then show ?thesis
  proof cases
    case (2 s)
    then show ?thesis using assms(2,3) by (simp add: device_ctl_step_def phase_defs)
  next
    case (3 s k)
    from send_frameD [OF plain_sends(2) [OF 3(3)]]
    have "d_type d' = d_type d \<and> d_id d' = d_id d \<and> d_ctl d' = Some ?c2" by simp
    moreover have "ctl_step c ?c2" using 3 assms(3) by (simp add: phase_defs dev_step_simps)
    ultimately show ?thesis using assms(2) by (simp add: device_ctl_step_def)
  qed simp
qed

lemma updateSecurityParams_frame [simp]:
  "d_ctl (snd (updateSecurityParams sp d)) = d_ctl d" "d_type (snd (updateSecurityParams sp d)) = d_type d"
  "d_id (snd (updateSecurityParams sp d)) = d_id d" "d_store (snd (updateSecurityParams sp d)) = d_store d"
  "fst (updateSecurityParams sp d) = RM_E_NONE"
  by (simp_all add: updateSecurityParams_def Let_def)

lemma device_handleSuccess_step:
  assumes "device_handleSuccess env c d = Some (rc, d')" and "d_ctl d = Some c" "ic_type c \<noteq> HUB"
  shows "device_ctl_step d d'"
proof (cases "ic_state c = INCLUSION_PENDING \<and> protocolState c = WAITING_FOR_SUCCESS")
  case False
  then have "d' = d" using assms(1) by (auto simp: device_handleSuccess_def)
  then show ?thesis by simp
next
  case True
  let ?c = "transitionToState (env_now env) PROTOCOL_IDLE (c\<lparr>ic_state := INCLUDED\<rparr>)"
  have "d_type d' = d_type d \<and> d_id d' = d_id d \<and> d_ctl d' = Some ?c"
    using True assms(1) by (auto simp: device_handleSuccess_def Let_def split: prod.splits if_splits)
  moreover have "ctl_step c ?c" using True assms(3) by (simp add: phase_defs dev_step_simps)
  ultimately show ?thesis using assms(2) by (simp add: device_ctl_step_def)
qed

lemma handleInclusionMessage_step:
  assumes "handleInclusionMessage env p d = Some (rc, d')"
  shows "device_ctl_step d d'"
proof -
  obtain c where c: "d_ctl d = Some c" using assms by (auto simp: handleInclusionMessage_def bind_eq_Some_conv)
  show ?thesis
  proof (cases "ic_type c = HUB")
    case True
    then show ?thesis using assms c hub_handle_step by (simp add: handleInclusionMessage_def)
  next
    case False
    then show ?thesis
      using assms c device_handleOpen_step [OF _ c False] device_handleResponse_step [OF _ c False]
        device_handleSuccess_step [OF _ c False]
      by (auto simp: handleInclusionMessage_def split: if_splits)
  qed
qed

lemma resetProtocolState_ctl:
  assumes "resetProtocolState env d = Some d'" and "d_ctl d = Some c"
  shows "\<exists>c'. d_ctl d' = Some c' \<and> d_type d' = d_type d \<and> d_id d' = d_id d \<and> ic_type c' = ic_type c \<and>
    protocolState c' = PROTOCOL_IDLE \<and> inclusionModeEnabled c' = inclusionModeEnabled c \<and>
    ic_state c' = (if ic_type c = STANDARD \<and> ic_state c = INCLUSION_PENDING then NOT_INCLUDED else ic_state c)"
  using assms by (auto simp: resetProtocolState_def Let_def split: if_splits)

lemma checkProtocolTimeouts_step:
  assumes "checkProtocolTimeouts env d = Some (rc, d')" and ok: "\<And>c. d_ctl d = Some c \<Longrightarrow> phase_ok (dev_phase_of c) \<or> ic_type c \<noteq> STANDARD"
  shows "device_ctl_step d d'"
proof -
  obtain c where c: "d_ctl d = Some c" using assms by (auto simp: checkProtocolTimeouts_def bind_eq_Some_conv)
  show ?thesis
  proof (cases "isStateTimedOut (env_now env) c")
    case False
    then show ?thesis using assms(1) c by (simp add: checkProtocolTimeouts_def)
  next
    case True
    then have p: "protocolState c \<noteq> PROTOCOL_IDLE" by (auto simp: isStateTimedOut_def)
    have "resetProtocolState env (upd_ctl (\<lambda>c. c\<lparr>inclusionModeEnabled := False\<rparr>) d) = Some d'"
      using assms(1) c True by (auto simp: checkProtocolTimeouts_def handleStateTimeout_def bind_eq_Some_conv)
    from resetProtocolState_ctl [OF this, of "c\<lparr>inclusionModeEnabled := False\<rparr>"] c obtain c' where c': "d_ctl d' = Some c'"
        "d_type d' = d_type d" "d_id d' = d_id d" "ic_type c' = ic_type c" "protocolState c' = PROTOCOL_IDLE" "\<not> inclusionModeEnabled c'"
        "ic_state c' = (if ic_type c = STANDARD \<and> ic_state c = INCLUSION_PENDING then NOT_INCLUDED else ic_state c)"
      by auto
    have "ctl_step c c'"
      using c' p ok [OF c] by (auto simp: phase_defs hub_step_simps dev_step_simps phase_ok_def)
    then show ?thesis using c c' by (simp add: device_ctl_step_def)
  qed
qed

section \<open>Sessions\<close>

text \<open>The operation of a device: a pass of the run loop, an interrupt, a message of the application,
  the inclusion calls, the relay switch. Each event may see another clock, other noise and another
  behaviour of the radio driver: \<open>E\<close> holds of the surroundings that occur. The remaining calls of
  \<open>src/src/framework/interfaces/IDevice.h\<close> that change the device (\<open>updateSecurityParams\<close>,
  \<open>factoryReset\<close>, \<open>setDeviceType\<close>) are the relations of the next section.\<close>

inductive api :: "('s env \<Rightarrow> bool) \<Rightarrow> 's device \<Rightarrow> 's device \<Rightarrow> bool" for E where
  pass: "E env \<Longrightarrow> run env d = Some (rc, d') \<Longrightarrow> api E d d'"
| interrupt: "onInterrupt irq (n_radio (d_net d)) = Some r \<Longrightarrow> api E d (upd_radio r d)"
| send: "E env \<Longrightarrow> sendData env topic data target d = Some (rc, d') \<Longrightarrow> api E d d'"
| send_open: "E env \<Longrightarrow> sendInclusionOpen env d = Some (rc, d') \<Longrightarrow> api E d d'"
| send_request: "E env \<Longrightarrow> sendInclusionRequest env d = Some (rc, d') \<Longrightarrow> api E d d'"
| send_response: "E env \<Longrightarrow> sendInclusionResponse env p d = Some (rc, d') \<Longrightarrow> api E d d'"
| send_confirm: "E env \<Longrightarrow> sendInclusionConfirm env d = Some (rc, d') \<Longrightarrow> api E d d'"
| send_success: "E env \<Longrightarrow> sendInclusionSuccess env d = Some (rc, d') \<Longrightarrow> api E d d'"
| mode: "E env \<Longrightarrow> enableInclusionMode env b d = Some (rc, d') \<Longrightarrow> api E d d'"
| relay: "api E d (enableRelay b d)"

text \<open>The transitive form of \<open>ctl_step\<close>.\<close>

definition ctl_reach :: "controller \<Rightarrow> controller \<Rightarrow> bool" where
  "ctl_reach c c' \<longleftrightarrow> ic_type c' = ic_type c \<and>
     (ic_type c = HUB \<longrightarrow> ic_state c' = ic_state c \<and> hub_step\<^sup>*\<^sup>* (hub_phase_of c) (hub_phase_of c')) \<and>
     (ic_type c = STANDARD \<longrightarrow>
        (inclusionModeEnabled c' \<longrightarrow> inclusionModeEnabled c) \<and> dev_step\<^sup>*\<^sup>* (dev_phase_of c) (dev_phase_of c'))"

definition device_reach :: "'s device \<Rightarrow> 's device \<Rightarrow> bool" where
  "device_reach d d' \<longleftrightarrow> d_type d' = d_type d \<and> d_id d' = d_id d \<and>
     (case d_ctl d of None \<Rightarrow> d_ctl d' = None | Some c \<Rightarrow> (\<exists>c'. d_ctl d' = Some c' \<and> ctl_reach c c'))"

lemma ctl_step_reach: "ctl_step c c' \<Longrightarrow> ctl_reach c c'"
  by (auto simp: ctl_step_def ctl_reach_def)

lemma ctl_reach_trans: "ctl_reach a b \<Longrightarrow> ctl_reach b c \<Longrightarrow> ctl_reach a c"
  by (auto simp: ctl_reach_def)

lemma device_step_reach: "device_ctl_step d d' \<Longrightarrow> device_reach d d'"
  by (auto simp: device_ctl_step_def device_reach_def ctl_step_reach split: option.splits)

lemma device_reach_refl [simp]: "device_reach d d"
  by (simp add: device_step_reach)

lemma device_reach_trans [trans]: "device_reach a b \<Longrightarrow> device_reach b c \<Longrightarrow> device_reach a c"
  by (fastforce simp: device_reach_def split: option.splits intro: ctl_reach_trans)

lemma same_ctl_reach: "d_ctl d' = d_ctl d \<Longrightarrow> d_type d' = d_type d \<Longrightarrow> d_id d' = d_id d \<Longrightarrow> device_reach d d'"
  by (intro device_step_reach) (simp add: device_ctl_step_def split: option.split)

text \<open>What a running device keeps: the controller has the device's type, a standard device is in an
  allowed phase and never in inclusion mode, and a hub is in an allowed phase.\<close>

definition session_ok :: "'s device \<Rightarrow> bool" where
  "session_ok d \<longleftrightarrow> (\<forall>c. d_ctl d = Some c \<longrightarrow> d_type d = ic_type c \<and>
     (ic_type c = STANDARD \<longrightarrow> phase_ok (dev_phase_of c) \<and> \<not> inclusionModeEnabled c) \<and>
     (ic_type c = HUB \<longrightarrow> hub_phase_ok (hub_phase_of c)))"

lemma hub_steps_ok: "hub_step\<^sup>*\<^sup>* a b \<Longrightarrow> hub_phase_ok a \<Longrightarrow> hub_phase_ok b"
  by (induction rule: rtranclp_induct) (auto dest: hub_step_ok)

lemma session_ok_reach:
  assumes "session_ok d" and "device_reach d d'"
  shows "session_ok d'"
proof (cases "d_ctl d")
  case None
  then show ?thesis using assms(2) by (simp add: device_reach_def session_ok_def)
next
  case (Some c)
  then obtain c' where "d_ctl d' = Some c'" "ctl_reach c c'" "d_type d' = d_type d"
    using assms(2) by (auto simp: device_reach_def)
  then show ?thesis
    using assms(1) Some by (auto simp: session_ok_def ctl_reach_def intro: dev_steps_ok hub_steps_ok)
qed

lemma device_route_reach: "device_route env p d = Some (rc, d') \<Longrightarrow> device_reach d d'"
  by (intro device_step_reach send_ctl_step device_route_frame(1))

lemma notify_simps [simp]:
  "d_ctl (notify p rc d) = d_ctl d" "d_type (notify p rc d) = d_type d" "d_id (notify p rc d) = d_id d"
  "d_store (notify p rc d) = d_store d" "d_net (notify p rc d) = d_net d" "relayEnabled (notify p rc d) = relayEnabled d"
  "d_hasRadio (notify p rc d) = d_hasRadio d" "onPacketReceived (notify p rc d) = onPacketReceived d"
  by (simp_all add: notify_def)

lemma device_decrypt_frame:
  assumes "device_decrypt env p d = Some (q, d')"
  shows "d' = d\<lparr>d_net := (d_net d)\<lparr>n_aes := n_aes (d_net d')\<rparr>\<rparr>" "q = p\<lparr>p_data := p_data q\<rparr>"
  using assms by (auto simp: device_decrypt_def bind_eq_Some_conv)

lemma learn_route_frame:
  assumes "learn_route env p d = Some d'"
  shows "d' = d\<lparr>d_net := (d_net d)\<lparr>n_radio := n_radio (d_net d'), n_routes := n_routes (d_net d')\<rparr>\<rparr>"
  using assms by (auto simp: learn_route_def bind_eq_Some_conv)

lemma deliver_reach:
  assumes "deliver env p d = Some (rc, d')"
  shows "device_reach d d'"
proof (cases "isInclusionMessage (p_topic p)")
  case True
  with assms obtain q d1 rc1 d2 where 1: "device_decrypt env p d = Some (q, d1)"
      "handleInclusionMessage env q d1 = Some (rc1, d2)" "d' = notify (Some q) RM_E_NONE d2"
    by (auto simp: deliver_def bind_eq_Some_conv)
  have "device_reach d d1" by (rule same_ctl_reach) (subst device_decrypt_frame(1) [OF 1(1)], simp)+
  also have "device_reach d1 d2" by (rule device_step_reach [OF handleInclusionMessage_step [OF 1(2)]])
  also have "device_reach d2 d'" by (rule same_ctl_reach) (simp_all add: 1(3))
  finally show ?thesis .
next
  case False
  with assms obtain q d1 where 1: "device_decrypt env p d = Some (q, d1) \<or> q = p \<and> d1 = d"
      "d' = notify (Some q) RM_E_NONE d1 \<or> device_route env q (notify (Some q) RM_E_NONE d1) = Some (rc, d')"
    by (auto simp: deliver_def bind_eq_Some_conv Let_def split: if_splits)
  have "d_ctl d1 = d_ctl d \<and> d_type d1 = d_type d \<and> d_id d1 = d_id d"
    using 1(1) by (auto simp: device_decrypt_def bind_eq_Some_conv)
  then have "device_reach d d1" by (intro same_ctl_reach) simp_all
  also have "device_reach d1 (notify (Some q) RM_E_NONE d1)" by (rule same_ctl_reach) simp_all
  also have "device_reach (notify (Some q) RM_E_NONE d1) d'" using 1(2) device_route_reach by auto
  finally show ?thesis .
qed

lemma receive_packet_reach:
  assumes "receive_packet env p d = Some (rc, d')"
  shows "device_reach d d'"
proof -
  obtain seen n where "isPacketFoundInTracker p (d_net d) = Some (seen, n)"
    using assms by (auto simp: receive_packet_def bind_eq_Some_conv)
  with assms have "d' = d\<lparr>d_net := n\<rparr> \<or> (\<exists>q d2. learn_route env q (d\<lparr>d_net := n\<rparr>) = Some d2 \<and> deliver env q d2 = Some (rc, d'))"
    by (auto simp: receive_packet_def bind_eq_Some_conv Let_def split: if_splits option.splits)
  then show ?thesis
  proof (elim disjE exE conjE)
    assume "d' = d\<lparr>d_net := n\<rparr>"
    then show ?thesis by (intro same_ctl_reach) simp_all
  next
    fix q d2 assume l: "learn_route env q (d\<lparr>d_net := n\<rparr>) = Some d2" and v: "deliver env q d2 = Some (rc, d')"
    have "d_ctl d2 = d_ctl d \<and> d_type d2 = d_type d \<and> d_id d2 = d_id d"
      using l by (auto simp: learn_route_def bind_eq_Some_conv)
    then have "device_reach d d2" by (intro same_ctl_reach) simp_all
    then show ?thesis by (rule device_reach_trans [OF _ deliver_reach [OF v]])
  qed
qed

lemma upd_radio_simps [simp]:
  "d_ctl (upd_radio r d) = d_ctl d" "d_type (upd_radio r d) = d_type d" "d_id (upd_radio r d) = d_id d"
  "d_store (upd_radio r d) = d_store d" "n_radio (d_net (upd_radio r d)) = r" "d_hasRadio (upd_radio r d) = d_hasRadio d"
  by (simp_all add: upd_radio_def)

lemma upd_radio_reach [simp]: "device_reach d (upd_radio r d)"
  by (rule same_ctl_reach) simp_all

lemma handleReceivedData_reach:
  assumes "handleReceivedData env d = Some (rc, d')"
  shows "device_reach d d'"
proof -
  from assms obtain r where "d' = upd_radio r d \<or> (\<exists>p. receive_packet env p (upd_radio r d) = Some (rc, d'))"
    by (auto simp: handleReceivedData_def bind_eq_Some_conv upd_radio_def Let_def split: if_splits)
  then show ?thesis
  proof (elim disjE exE)
    fix p assume "receive_packet env p (upd_radio r d) = Some (rc, d')"
    from receive_packet_reach [OF this] show ?thesis by (rule device_reach_trans [OF upd_radio_reach])
  qed simp
qed

lemma run_rx_reach:
  assumes "run_rx env d = Some (rc, d')"
  shows "device_reach d d'"
proof -
  from assms obtain r where "d' = upd_radio r d \<or> (\<exists>e. d' = notify None e (upd_radio r d)) \<or>
      (\<exists>d3. handleReceivedData env (upd_radio r d) = Some (rc, d3) \<and> (d' = d3 \<or> d' = notify None rc d3))"
    by (auto simp: run_rx_def bind_eq_Some_conv Let_def upd_radio_def split: if_splits prod.splits)
  then show ?thesis
  proof (elim disjE exE conjE)
    fix e assume "d' = notify None e (upd_radio r d)"
    then show ?thesis by (intro same_ctl_reach) simp_all
  next
    fix d3 assume h: "handleReceivedData env (upd_radio r d) = Some (rc, d3)" "d' = notify None rc d3"
    have "device_reach d d3" by (rule device_reach_trans [OF upd_radio_reach handleReceivedData_reach [OF h(1)]])
    moreover have "device_reach d3 d'" by (rule same_ctl_reach) (simp_all add: h(2))
    ultimately show ?thesis by (rule device_reach_trans)
  qed (use device_reach_trans [OF upd_radio_reach handleReceivedData_reach] in auto)
qed

lemma run_tx_frame:
  assumes "run_tx env d = Some (rc, d')"
  shows "d_ctl d' = d_ctl d \<and> d_type d' = d_type d \<and> d_id d' = d_id d \<and> d_store d' = d_store d"
  using assms by (auto simp: run_tx_def bind_eq_Some_conv Let_def split: if_splits prod.splits)

lemma run_tx_reach: "run_tx env d = Some (rc, d') \<Longrightarrow> device_reach d d'"
  by (rule same_ctl_reach) (simp_all add: run_tx_frame)

lemma run_reach:
  assumes "run env d = Some (rc, d')" and ok: "session_ok d"
  shows "device_reach d d'"
proof -
  from assms(1) obtain rc0 d1 rc2 d2 where 1: "checkProtocolTimeouts env d = Some (rc0, d1)" "run_rx env d1 = Some (rc2, d2)"
      "d' = d2 \<or> run_tx env d2 = Some (rc, d')"
    by (auto simp: run_def bind_eq_Some_conv split: if_splits)
  have "device_reach d d1"
    by (rule device_step_reach [OF checkProtocolTimeouts_step [OF 1(1)]]) (use ok in \<open>auto simp: session_ok_def\<close>)
  also have "device_reach d1 d2" by (rule run_rx_reach [OF 1(2)])
  also have "device_reach d2 d'" using 1(3) run_tx_reach by auto
  finally show ?thesis .
qed

lemma mode_reach:
  assumes "enableInclusionMode env b d = Some (rc, d')" and ok: "session_ok d"
  shows "device_reach d d'"
proof -
  obtain c where c: "d_ctl d = Some c"
    using assms(1) by (auto simp: enableInclusionMode_def enterInclusionMode_def exitInclusionMode_def bind_eq_Some_conv split: if_splits)
  have ty: "d_type d = ic_type c" using ok c by (simp add: session_ok_def)
  show ?thesis
  proof (cases "d_type d = HUB")
    case False
    then show ?thesis
      using assms(1) c by (auto simp: enableInclusionMode_def enterInclusionMode_def exitInclusionMode_def split: if_splits)
  next
    case hub: True
    show ?thesis
    proof (cases b)
      case True
      then have "d' = d\<lparr>d_ctl := Some (c\<lparr>inclusionModeEnabled := True\<rparr>)\<rparr>"
        using assms(1) c hub by (simp add: enableInclusionMode_def enterInclusionMode_def)
      then show ?thesis
        using c ty hub by (intro device_step_reach) (simp add: device_ctl_step_def phase_defs hub_step_simps)
    next
      case False
      then obtain d1 where d1: "resetProtocolState env (d\<lparr>d_ctl := Some (c\<lparr>inclusionModeEnabled := False\<rparr>)\<rparr>) = Some d1" "d' = d1"
        using assms(1) c hub by (auto simp: enableInclusionMode_def exitInclusionMode_def bind_eq_Some_conv)
      then show ?thesis
        using resetProtocolState_ctl [OF d1(1), of "c\<lparr>inclusionModeEnabled := False\<rparr>"] c ty hub
        by (intro device_step_reach) (auto simp: device_ctl_step_def phase_defs hub_step_simps)
    qed
  qed
qed

lemma response_reach:
  assumes "sendInclusionResponse env p d = Some (rc, d')"
  shows "device_reach d d'"
proof -
  obtain c where c: "d_ctl d = Some c"
    using assms by (auto simp: sendInclusionResponse_def ic_sendInclusionResponse_def bind_eq_Some_conv)
  obtain n where "d_type d' = d_type d \<and> d_id d' = d_id d \<and> d_ctl d' = Some (c\<lparr>currentNonce := n\<rparr>)"
    using sendResponse_frame [OF assms [unfolded sendInclusionResponse_def] c] by blast
  then show ?thesis using c by (intro device_step_reach) (simp add: device_ctl_step_def phase_defs)
qed

lemma api_cases:
  assumes "api E d d'"
  obtains (run) env rc where "run env d = Some (rc, d')"
  | (mode) env b rc where "enableInclusionMode env b d = Some (rc, d')"
  | (open_message) env rc where "ic_sendInclusionOpen env d = Some (rc, d')"
  | (other) "device_reach d d'"
  using assms
proof cases
  case (relay b)
  then show ?thesis by (intro other same_ctl_reach) (simp_all add: enableRelay_def)
next
  case (send env topic data target rc)
  then show ?thesis by (intro other device_step_reach send_ctl_step sendData_frame)
next
  case (send_request env rc)
  then show ?thesis by (intro other device_step_reach send_ctl_step plain_sends(1)) (simp add: sendInclusionRequest_def)
next
  case (send_confirm env rc)
  then show ?thesis by (intro other device_step_reach send_ctl_step plain_sends(2)) (simp add: sendInclusionConfirm_def)
next
  case (send_success env rc)
  then show ?thesis by (intro other device_step_reach send_ctl_step plain_sends(3)) (simp add: sendInclusionSuccess_def)
next
  case (send_open env rc)
  then show ?thesis by (intro open_message [of env rc]) (simp add: sendInclusionOpen_def)
next
  case (send_response env p rc)
  then show ?thesis by (intro other response_reach)
qed (use run mode other in auto)

lemma api_reach:
  assumes "api E d d'" and ok: "session_ok d"
  shows "device_reach d d'"
  using assms(1)
proof (cases rule: api_cases)
  case (open_message env rc)
  then obtain c where "d_ctl d = Some c" by (auto simp: ic_sendInclusionOpen_def bind_eq_Some_conv)
  then show ?thesis using open_message ok sendOpen_step [of env d rc d' c] by (auto simp: session_ok_def intro: device_step_reach)
qed (use ok run_reach mode_reach in auto)

lemma session_reach:
  assumes "(api E)\<^sup>*\<^sup>* d d'" and "session_ok d"
  shows "device_reach d d' \<and> session_ok d'"
  using assms
proof (induction rule: rtranclp_induct)
  case (step y z)
  then have "device_reach y z" by (intro api_reach) simp_all
  then show ?case using step session_ok_reach device_reach_trans by blast
qed simp

section \<open>The other calls: security parameters, factory reset, device type\<close>

text \<open>\<open>device_call\<close> is every call that leaves the device its controller and its type: the operation, any
  security parameters, a factory reset that fails. \<open>device_life\<close> adds the factory reset that succeeds,
  which replaces the controller. The
  remaining call, \<open>setDeviceType\<close>, is meant for the builder, which makes it before it hands the device
  out; \<open>any_call\<close> adds it to the calls. The getters of the components (\<open>getByteStorage\<close> and so on) hand
  the components themselves to the program: what it does with them is not a call of the device.\<close>

inductive device_call :: "('s env \<Rightarrow> bool) \<Rightarrow> 's device \<Rightarrow> 's device \<Rightarrow> bool" for E where
  operation: "api E d d' \<Longrightarrow> device_call E d d'"
| security: "updateSecurityParams sp d = (rc, d') \<Longrightarrow> device_call E d d'"
| reset_fails: "E env \<Longrightarrow> factoryReset env d = Some (rc, d') \<Longrightarrow> rc \<noteq> RM_E_NONE \<Longrightarrow> device_call E d d'"

inductive device_life :: "('s env \<Rightarrow> bool) \<Rightarrow> 's device \<Rightarrow> 's device \<Rightarrow> bool" for E where
  call: "device_call E d d' \<Longrightarrow> device_life E d d'"
| reset: "E env \<Longrightarrow> factoryReset env d = Some (rc, d') \<Longrightarrow> device_life E d d'"

inductive any_call :: "('s env \<Rightarrow> bool) \<Rightarrow> 's device \<Rightarrow> 's device \<Rightarrow> bool" for E where
  typed: "device_call E d d' \<Longrightarrow> any_call E d d'"
| retype: "any_call E d (setDeviceType t d)"

lemma reset_fails_frame:
  assumes "factoryReset env d = Some (rc, d')" and "rc \<noteq> RM_E_NONE"
  shows "d_ctl d' = d_ctl d \<and> d_type d' = d_type d \<and> d_id d' = d_id d"
  using assms by (auto simp: factoryReset_def Let_def bind_eq_Some_conv split: if_splits prod.splits)

lemma device_call_reach:
  assumes "device_call E d d'" and "session_ok d"
  shows "device_reach d d'"
  using assms(1)
proof cases
  case operation
  then show ?thesis using assms(2) by (rule api_reach)
next
  case (security sp rc)
  then show ?thesis using updateSecurityParams_frame [of sp d] by (intro same_ctl_reach) simp_all
next
  case (reset_fails env rc)
  then show ?thesis using reset_fails_frame [OF reset_fails(2,3)] by (intro same_ctl_reach) simp_all
qed

lemma calls_reach:
  assumes "(device_call E)\<^sup>*\<^sup>* d d'" and "session_ok d"
  shows "device_reach d d' \<and> session_ok d'"
  using assms
proof (induction rule: rtranclp_induct)
  case (step y z)
  then have "device_reach y z" by (intro device_call_reach) simp_all
  then show ?case using step session_ok_reach device_reach_trans by blast
qed simp

text \<open>The outcomes of a factory reset: it is refused, or the store is emptied and the controller is a
  new one.\<close>

lemma factoryReset_cases:
  assumes "factoryReset env d = Some (rc, d')" and "d_ctl d = Some c"
  obtains (refused) "rc \<noteq> RM_E_NONE" "d_ctl d' = Some c" "d_type d' = d_type d"
  | (cleared) s where "rc = RM_E_NONE" "d_hasStorage d" "bs_clear (e_ops env) (d_store d) = (RM_E_NONE, s)"
      "InclusionController env (d\<lparr>d_store := s, packetCounter := 0\<rparr>) = Some d'"
  using assms by (auto simp: factoryReset_def Let_def bind_eq_Some_conv split: if_splits prod.splits)

lemma factoryReset_succeeds:
  assumes "d_hasStorage d" and "bs_clear (e_ops env) (d_store d) = (RM_E_NONE, s)"
  shows "\<exists>d'. factoryReset env d = Some (RM_E_NONE, d')"
  using assms by (cases "d_ctl d") (simp_all add: factoryReset_def InclusionController_def case_prod_beta Let_def)

lemma controller_fresh:
  assumes "InclusionController env d = Some d'"
  obtains c where "d_ctl d' = Some c" "ic_type c = d_type d" "d_type d' = d_type d" "protocolState c = PROTOCOL_IDLE"
    "\<not> inclusionModeEnabled c" "d_type d = HUB \<Longrightarrow> ic_state c = INCLUDED" "d_net d' = d_net d" "packetCounter d' = packetCounter d"
  using assms by (auto simp: InclusionController_def Let_def split: if_splits prod.splits)

lemma factoryReset_ok:
  assumes r: "factoryReset env d = Some (rc, d')" and ok: "session_ok d" and c: "d_ctl d = Some c"
  obtains c' where "d_ctl d' = Some c'" "ic_type c' = ic_type c" "session_ok d'"
    "rc \<noteq> RM_E_NONE \<Longrightarrow> c' = c" "rc = RM_E_NONE \<Longrightarrow> protocolState c' = PROTOCOL_IDLE \<and> \<not> inclusionModeEnabled c'"
    "rc = RM_E_NONE \<Longrightarrow> ic_type c = HUB \<Longrightarrow> ic_state c' = INCLUDED"
  using r c
proof (cases rule: factoryReset_cases)
  case refused
  then show thesis using that c ok by (simp add: session_ok_def)
next
  case (cleared s)
  obtain c' where c': "d_ctl d' = Some c'" "ic_type c' = d_type d" "d_type d' = d_type d" "protocolState c' = PROTOCOL_IDLE"
      "\<not> inclusionModeEnabled c'" "d_type d = HUB \<Longrightarrow> ic_state c' = INCLUDED"
    using controller_fresh [OF cleared(4)] by auto
  have "session_ok d'" using c' by (simp add: session_ok_def phase_ok_def dev_phase_of_def hub_phase_ok_def hub_phase_of_def)
  moreover have "d_type d = ic_type c" using ok c by (simp add: session_ok_def)
  ultimately show thesis using that c' cleared(1) by simp
qed

lemma life_ok:
  assumes "(device_life E)\<^sup>*\<^sup>* d d'" and "session_ok d" and "d_ctl d = Some c"
  shows "session_ok d' \<and> (\<exists>c'. d_ctl d' = Some c' \<and> ic_type c' = ic_type c)"
  using assms(1)
proof (induction rule: rtranclp_induct)
  case (step y z)
  then obtain cy where y: "session_ok y" "d_ctl y = Some cy" "ic_type cy = ic_type c" by auto
  from step(2) show ?case
  proof cases
    case call
    from device_call_reach [OF call y(1)] have "device_reach y z" .
    moreover from this have "session_ok z" using y(1) session_ok_reach by blast
    ultimately show ?thesis using y by (auto simp: device_reach_def ctl_reach_def)
  next
    case (reset env rc)
    from factoryReset_ok [OF reset(2) y(1,2)] show ?thesis using y(3) by metis
  qed
qed (use assms in simp)

text \<open>A reset on a store that keeps its contract, whose writes are committed and whose device can make
  keys: the device is as new, in its controller and for its next start. What is kept in memory is not
  cleared: the network component, with the keys of the encryption service, is the old one.\<close>

definition can_renew :: "('s \<Rightarrow> bool) \<Rightarrow> ('s \<Rightarrow> string \<Rightarrow> bytes option) \<Rightarrow> 's env \<Rightarrow> bool" where
  "can_renew keeps contents env \<longleftrightarrow> device_store (e_ops env) keeps contents \<and> commits (e_ops env) keeps \<and>
     cl_curve_base (env_lib env) (generateDeterministicKey (e_chip env) 32) \<noteq> None"

context device_store
begin

lemma cleared_keys:
  assumes "inv s" and "e_ops env = ops" and "commits ops inv" and "contents s = (\<lambda>_. None)"
    and "cl_curve_base (env_lib env) (generateDeterministicKey (e_chip env) 32) = Some P"
  obtains s1 where "initializeKeys env s = (RM_E_NONE, s1)" "inv s1"
    "contents s1 = [PRIV_KEY \<mapsto> generateDeterministicKey (e_chip env) 32]"
proof -
  let ?k = "generateDeterministicKey (e_chip env) 32"
  have len: "slot_length PRIV_KEY = Some (length ?k)" by simp
  have "fst (bs_writeAndCommit ops PRIV_KEY ?k s) = RM_E_NONE" using assms(1,3) len unfolding commits_def by blast
  then obtain s1 where s1: "bs_writeAndCommit ops PRIV_KEY ?k s = (RM_E_NONE, s1)" by (metis prod.collapse)
  have "km_loadPrivateKey ops [] s = (RM_E_STORAGE_KEY_NOT_FOUND, [])"
    using read_law [OF assms(1), of PRIV_KEY "[]"] assms(4) by (simp add: km_loadPrivateKey_def loadPrivateKey_def)
  then have "initializeKeys env s = (RM_E_NONE, s1)"
    using s1 assms(2,5) by (simp add: initializeKeys_def generateKeyPair_def Let_def km_persistPrivateKey_def
        validatePrivateKey_def PRIVATE_KEY_SIZE_def persistPrivateKey_def)
  moreover have "inv s1" "contents s1 = [PRIV_KEY \<mapsto> ?k]" using bs_keep [OF assms(1) len] s1 assms(4) by simp_all
  ultimately show thesis by (rule that)
qed

lemma reset_renews:
  assumes r: "factoryReset env d = Some (RM_E_NONE, d')" and "d_ctl d = Some c" and "d_type d = STANDARD"
    and "inv (d_store d)" and "e_ops env = ops" and "commits ops inv"
    and key: "cl_curve_base (env_lib env) (generateDeterministicKey (e_chip env) 32) \<noteq> None"
  shows "\<exists>c'. d_ctl d' = Some c' \<and> dev_phase_of c' = (NOT_INCLUDED, PROTOCOL_IDLE)"
    "contents (d_store d') = [PRIV_KEY \<mapsto> generateDeterministicKey (e_chip env) 32]"
    "loadState ops g (d_store d') = (RM_E_NONE, NOT_INCLUDED)"
proof -
  obtain s where s: "bs_clear ops (d_store d) = (RM_E_NONE, s)" "InclusionController env (d\<lparr>d_store := s, packetCounter := 0\<rparr>) = Some d'"
      "d_hasStorage d"
    using factoryReset_cases [OF r assms(2)] assms(5) by (metis (no_types))
  have i: "inv s" "contents s = (\<lambda>_. None)" using clear_law [OF assms(4)] s(1) by simp_all
  obtain P where P: "cl_curve_base (env_lib env) (generateDeterministicKey (e_chip env) 32) = Some P" using key by blast
  obtain s1 where s1: "initializeKeys env s = (RM_E_NONE, s1)" "inv s1" "contents s1 = [PRIV_KEY \<mapsto> generateDeterministicKey (e_chip env) 32]"
    by (rule cleared_keys [OF i(1) assms(5,6) i(2) P])
  have "contents s1 STATE_KEY = None" using s1(3) by (simp add: device_keys)
  then have st: "loadState ops g s1 = (RM_E_NONE, NOT_INCLUDED)" for g
    using read_law [OF s1(2), of STATE_KEY "[]"] by (simp add: loadState_def)
  have d': "d_store d' = s1" "\<exists>c'. d_ctl d' = Some c' \<and> dev_phase_of c' = (NOT_INCLUDED, PROTOCOL_IDLE)"
    using s(2,3) s1(1) st assms(3,5) by (auto simp: InclusionController_def dev_phase_of_def)
  show "\<exists>c'. d_ctl d' = Some c' \<and> dev_phase_of c' = (NOT_INCLUDED, PROTOCOL_IDLE)" by (rule d'(2))
  show "contents (d_store d') = [PRIV_KEY \<mapsto> generateDeterministicKey (e_chip env) 32]" using d'(1) s1(3) by simp
  show "loadState ops g (d_store d') = (RM_E_NONE, NOT_INCLUDED)" using d'(1) st by simp
qed

end

lemma renewed:
  assumes "can_renew keeps contents env" and "keeps (d_store d)" and "factoryReset env d = Some (RM_E_NONE, d')"
    and "d_ctl d = Some c" and "d_type d = STANDARD"
  obtains c' where "d_ctl d' = Some c'" "dev_phase_of c' = (NOT_INCLUDED, PROTOCOL_IDLE)" "contents (d_store d') STATE_KEY = None"
    "contents (d_store d') NKEY = None" "contents (d_store d') HUB_KEY = None"
    "\<And>g. loadState (e_ops env) g (d_store d') = (RM_E_NONE, NOT_INCLUDED)"
proof -
  have "device_store (e_ops env) keeps contents" "commits (e_ops env) keeps"
      "cl_curve_base (env_lib env) (generateDeterministicKey (e_chip env) 32) \<noteq> None"
    using assms(1) by (simp_all add: can_renew_def)
  note r = device_store.reset_renews [OF this(1) assms(3-5,2) refl this(2,3)]
  show thesis using that r by (auto simp: device_keys)
qed

lemma reset_keeps_old_keys:
  assumes "factoryReset env d = Some (RM_E_NONE, d')"
  shows "d_net d' = d_net d"
proof (cases "d_ctl d")
  case None
  then show ?thesis using assms by (auto simp: factoryReset_def Let_def split: if_splits prod.splits)
next
  case (Some c)
  show ?thesis using assms Some
  proof (cases rule: factoryReset_cases)
    case (cleared s)
    from controller_fresh [OF cleared(4)] show ?thesis by simp
  qed simp
qed

lemma reset_may_leave_garbage:
  assumes r: "factoryReset env d = Some (RM_E_NONE, d')" and "d_ctl d = Some c" "d_type d = STANDARD"
    and "bs_clear (e_ops env) (d_store d) = (RM_E_NONE, s)" "fst (initializeKeys env s) \<noteq> RM_E_NONE"
  shows "\<exists>c'. d_ctl d' = Some c' \<and> ic_state c' = e_garbage env"
  using r assms(2)
proof (cases rule: factoryReset_cases)
  case (cleared s1)
  then show ?thesis using assms(3-5) by (auto simp: InclusionController_def split: prod.splits)
qed simp

text \<open>What a successful factory reset makes of the device: the controller is new, and so is the store of a
  standard device, if it keeps its contract and keys can be made.\<close>

definition made_new :: "'s env \<Rightarrow> 's device \<Rightarrow> 's device \<Rightarrow> bool" where
  "made_new env d d' \<longleftrightarrow> (\<exists>c'. d_ctl d' = Some c' \<and> ic_type c' = d_type d \<and> protocolState c' = PROTOCOL_IDLE \<and>
     \<not> inclusionModeEnabled c' \<and> (d_type d = HUB \<longrightarrow> ic_state c' = INCLUDED) \<and>
     (\<forall>keeps contents. d_type d = STANDARD \<and> can_renew keeps contents env \<and> keeps (d_store d) \<longrightarrow>
        ic_state c' = NOT_INCLUDED \<and> loadState (e_ops env) INCLUDED (d_store d') = (RM_E_NONE, NOT_INCLUDED) \<and>
        contents (d_store d') NKEY = None \<and> contents (d_store d') HUB_KEY = None))"

lemma reset_made_new:
  assumes r: "factoryReset env d = Some (rc, d')" and ok: "session_ok d" and c: "d_ctl d = Some c"
  shows "if rc = RM_E_NONE then made_new env d d' else d_ctl d' = Some c"
proof -
  have ty: "d_type d = ic_type c" using ok c by (simp add: session_ok_def)
  from factoryReset_ok [OF r ok c] obtain c' where c': "d_ctl d' = Some c'" "ic_type c' = ic_type c"
      "rc \<noteq> RM_E_NONE \<Longrightarrow> c' = c" "rc = RM_E_NONE \<Longrightarrow> protocolState c' = PROTOCOL_IDLE \<and> \<not> inclusionModeEnabled c'"
      "rc = RM_E_NONE \<Longrightarrow> ic_type c = HUB \<Longrightarrow> ic_state c' = INCLUDED"
    by metis
  have "ic_state c' = NOT_INCLUDED \<and> loadState (e_ops env) INCLUDED (d_store d') = (RM_E_NONE, NOT_INCLUDED) \<and>
      contents (d_store d') NKEY = None \<and> contents (d_store d') HUB_KEY = None"
    if "rc = RM_E_NONE" "d_type d = STANDARD" "can_renew keeps contents env" "keeps (d_store d)" for keeps contents
    using renewed [OF that(3,4) r [unfolded that(1)] c that(2)] c'(1) by (auto simp: dev_phase_of_def)
  then show ?thesis using c' ty by (auto simp: made_new_def)
qed

text \<open>Whatever the program calls, the type included, a controller that is included stays so until a
  reset.\<close>

definition keeps_included :: "'s device \<Rightarrow> 's device \<Rightarrow> bool" where
  "keeps_included d d' \<longleftrightarrow> (\<forall>c. d_ctl d = Some c \<and> ic_type c \<noteq> UNKNOWN \<and> ic_state c = INCLUDED \<longrightarrow>
     (\<exists>c'. d_ctl d' = Some c' \<and> ic_type c' = ic_type c \<and> ic_state c' = INCLUDED))"

lemma keeps_included_trans: "keeps_included a b \<Longrightarrow> keeps_included b d \<Longrightarrow> keeps_included a d"
  by (fastforce simp: keeps_included_def)

lemma included_steps: "dev_step\<^sup>*\<^sup>* (INCLUDED, p) b \<Longrightarrow> b = (INCLUDED, p)"
  by (induction rule: rtranclp_induct) (auto simp: dev_step_simps)

lemma reach_included:
  assumes "device_reach d d'"
  shows "keeps_included d d'"
  unfolding keeps_included_def
proof (intro allI impI)
  fix c assume c: "d_ctl d = Some c \<and> ic_type c \<noteq> UNKNOWN \<and> ic_state c = INCLUDED"
  then obtain c' where c': "d_ctl d' = Some c'" "ctl_reach c c'" using assms by (auto simp: device_reach_def)
  have "ic_state c' = INCLUDED"
  proof (cases "ic_type c")
    case STANDARD
    then have "dev_step\<^sup>*\<^sup>* (INCLUDED, protocolState c) (dev_phase_of c')" using c c'(2) by (simp add: ctl_reach_def dev_phase_of_def)
    then show ?thesis using included_steps by (fastforce simp: dev_phase_of_def)
  qed (use c c'(2) in \<open>simp_all add: ctl_reach_def\<close>)
  then show "\<exists>c'. d_ctl d' = Some c' \<and> ic_type c' = ic_type c \<and> ic_state c' = INCLUDED"
    using c' by (simp add: ctl_reach_def)
qed

lemma resetProtocolState_included:
  assumes "resetProtocolState env d = Some d'" and "d_ctl d = Some c"
  shows "\<exists>c'. d_ctl d' = Some c' \<and> ic_type c' = ic_type c \<and> (ic_state c = INCLUDED \<longrightarrow> ic_state c' = INCLUDED)"
  using resetProtocolState_ctl [OF assms] by auto

lemma any_call_included:
  assumes "any_call E d d'"
  shows "keeps_included d d'"
  using assms
proof cases
  case (retype t)
  then show ?thesis by (simp add: keeps_included_def setDeviceType_def)
next
  case typed
  then show ?thesis
  proof cases
    case (security sp rc)
    then show ?thesis using updateSecurityParams_frame [of sp d] by (auto simp: keeps_included_def)
  next
    case (reset_fails env rc)
    then show ?thesis using reset_fails_frame [OF reset_fails(2,3)] by (auto simp: keeps_included_def)
  next
    case operation
    then show ?thesis
    proof (cases rule: api_cases)
      case (run env rc)
      then obtain rc0 d1 rc2 d2 where 1: "checkProtocolTimeouts env d = Some (rc0, d1)" "run_rx env d1 = Some (rc2, d2)"
          "d' = d2 \<or> run_tx env d2 = Some (rc, d')"
        by (auto simp: run_def bind_eq_Some_conv split: if_splits)
      have "d1 = d \<or> resetProtocolState env (upd_ctl (\<lambda>c. c\<lparr>inclusionModeEnabled := False\<rparr>) d) = Some d1"
        using 1(1) by (auto simp: checkProtocolTimeouts_def handleStateTimeout_def bind_eq_Some_conv split: if_splits)
      then have "keeps_included d d1"
        by (auto simp: keeps_included_def upd_ctl_def dest: resetProtocolState_included)
      moreover have "device_reach d1 d'" using 1(2,3) run_rx_reach run_tx_reach device_reach_trans by blast
      ultimately show ?thesis using keeps_included_trans reach_included by blast
    next
      case (mode env b rc)
      then show ?thesis
        by (auto simp: keeps_included_def enableInclusionMode_def enterInclusionMode_def exitInclusionMode_def bind_eq_Some_conv
            dest: resetProtocolState_included split: if_splits)
    next
      case (open_message env rc)
      then obtain c where c: "d_ctl d = Some c" by (auto simp: ic_sendInclusionOpen_def bind_eq_Some_conv)
      then have "\<not> inclusionModeEnabled c \<Longrightarrow> d' = d" using open_message by (simp add: ic_sendInclusionOpen_def)
      then show ?thesis using c sendOpen_result [OF open_message c]
        by (cases "inclusionModeEnabled c") (simp_all add: keeps_included_def)
    next
      case other
      then show ?thesis by (rule reach_included)
    qed
  qed
qed

lemma any_calls_included: "(any_call E)\<^sup>*\<^sup>* d d' \<Longrightarrow> keeps_included d d'"
proof (induction rule: rtranclp_induct)
  case base
  then show ?case by (simp add: keeps_included_def)
next
  case (step y z)
  then show ?case using any_call_included keeps_included_trans by blast
qed

text \<open>A change of type is what the protocol does not survive: the controller keeps the type it was made
  with, the device asks for its own, so a standard device that is retyped enters inclusion mode.\<close>

lemma retyped_device_opens:
  assumes "d_ctl d = Some c"
  shows "enableInclusionMode env True (setDeviceType HUB d) =
    Some (RM_E_NONE, (setDeviceType HUB d)\<lparr>d_ctl := Some (c\<lparr>inclusionModeEnabled := True\<rparr>)\<rparr>)"
  using assms by (simp add: enableInclusionMode_def enterInclusionMode_def setDeviceType_def)

section \<open>Concrete devices\<close>

definition toy_env :: "bytes storage env" where
  "toy_env = \<lparr>e_world = toy_world, e_ops = eeprom_ops ram_eeprom, e_setParams = st_setParams EEPROM_STORAGE_MAX_SIZE,
     e_rnd = toy_rnd, e_sample = (\<lambda>_. 0), e_chip = Some 7, e_garbage = BAD_STATE 0\<rparr>"

definition later :: "u32 \<Rightarrow> 's env \<Rightarrow> 's env" where
  "later t env = env\<lparr>e_world := (e_world env)\<lparr>w_now := t\<rparr>\<rparr>"

definition fresh_controller :: "inclusion_state \<Rightarrow> device_type \<Rightarrow> controller" where
  "fresh_controller st dt = \<lparr>ic_state = st, ic_type = dt, inclusionModeEnabled = False, protocolState = PROTOCOL_IDLE,
     stateStartTime = 0, retryCount = 0, currentNonce = [], tempHubPublicKey = []\<rparr>"

definition toy_dev :: "device_type \<Rightarrow> bytes storage \<Rightarrow> bytes storage device" where
  "toy_dev dt s = (RadioMeshDevice ''node'' (Id4 9 9 9 9) dt toy_net s (None, 0))
     \<lparr>d_hasStorage := True, d_hasRadio := True, onPacketReceived := True\<rparr>"

section \<open>Properties\<close>

text \<open>C35: The inclusion protocol, over the whole life of a device whose type is left alone: whatever
  operations, security parameters, radio traffic and factory resets it has seen, the controller has
  the device's type and a standard device is not in inclusion mode. From there, as long as no factory
  reset succeeds, it follows the protocol: a standard device moves only along not included, waiting for
  the response, waiting for the success and included, or gives up back to not included on a time-out,
  and once included it stays included (even if the program changes its type); a hub moves only through
  opening, request and confirmation, stays included, and starts a session only in inclusion mode. A
  factory reset that fails leaves the controller as it was; one that succeeds makes a new one, idle and
  out of inclusion mode, included on a hub, and not included on a standard device whose store keeps its
  contract and whose keys can be made anew: then the state, the network key and the hub key are gone
  from the store as well.\<close>

theorem inclusion_follows_protocol:
  assumes "(device_life E)\<^sup>*\<^sup>* d d0" and "session_ok d" and "d_ctl d = Some c"
  shows "\<exists>c0. d_ctl d0 = Some c0 \<and> ic_type c0 = ic_type c \<and> session_ok d0 \<and>
    (\<forall>d'. (device_call E)\<^sup>*\<^sup>* d0 d' \<longrightarrow> (\<exists>c'. d_ctl d' = Some c' \<and> ic_type c' = ic_type c \<and> session_ok d' \<and>
      (ic_type c = STANDARD \<longrightarrow> dev_step\<^sup>*\<^sup>* (dev_phase_of c0) (dev_phase_of c') \<and> \<not> inclusionModeEnabled c' \<and>
         (dev_phase_of c0 = (NOT_INCLUDED, PROTOCOL_IDLE) \<longrightarrow> dev_phase_of c' \<in>
           {(NOT_INCLUDED, PROTOCOL_IDLE), (INCLUSION_PENDING, WAITING_FOR_RESPONSE),
            (INCLUSION_PENDING, WAITING_FOR_SUCCESS), (INCLUDED, PROTOCOL_IDLE)}) \<and>
         (dev_phase_of c0 = (INCLUDED, PROTOCOL_IDLE) \<longrightarrow> dev_phase_of c' = (INCLUDED, PROTOCOL_IDLE))) \<and>
      (ic_type c = HUB \<longrightarrow> hub_step\<^sup>*\<^sup>* (hub_phase_of c0) (hub_phase_of c') \<and> ic_state c' = ic_state c0))) \<and>
    (\<forall>d'. (any_call E)\<^sup>*\<^sup>* d0 d' \<and> ic_type c \<noteq> UNKNOWN \<and> ic_state c0 = INCLUDED \<longrightarrow> isIncluded d' = Some True) \<and>
    (\<forall>env rc d'. factoryReset env d0 = Some (rc, d') \<longrightarrow>
      (if rc = RM_E_NONE then made_new env d0 d' else d_ctl d' = Some c0))"
proof -
  obtain c0 where c0: "session_ok d0" "d_ctl d0 = Some c0" "ic_type c0 = ic_type c"
    using life_ok [OF assms] by auto
  have four: "b \<in> {(NOT_INCLUDED, PROTOCOL_IDLE), (INCLUSION_PENDING, WAITING_FOR_RESPONSE),
      (INCLUSION_PENDING, WAITING_FOR_SUCCESS), (INCLUDED, PROTOCOL_IDLE)}"
    if "dev_step\<^sup>*\<^sup>* (NOT_INCLUDED, PROTOCOL_IDLE) b" for b
    using that by (induction rule: rtranclp_induct) (auto elim: dev_stepE)
  have calls: "\<exists>c'. d_ctl d' = Some c' \<and> ic_type c' = ic_type c \<and> session_ok d' \<and>
      (ic_type c = STANDARD \<longrightarrow> dev_step\<^sup>*\<^sup>* (dev_phase_of c0) (dev_phase_of c') \<and> \<not> inclusionModeEnabled c' \<and>
         (dev_phase_of c0 = (NOT_INCLUDED, PROTOCOL_IDLE) \<longrightarrow> dev_phase_of c' \<in>
           {(NOT_INCLUDED, PROTOCOL_IDLE), (INCLUSION_PENDING, WAITING_FOR_RESPONSE),
            (INCLUSION_PENDING, WAITING_FOR_SUCCESS), (INCLUDED, PROTOCOL_IDLE)}) \<and>
         (dev_phase_of c0 = (INCLUDED, PROTOCOL_IDLE) \<longrightarrow> dev_phase_of c' = (INCLUDED, PROTOCOL_IDLE))) \<and>
      (ic_type c = HUB \<longrightarrow> hub_step\<^sup>*\<^sup>* (hub_phase_of c0) (hub_phase_of c') \<and> ic_state c' = ic_state c0)"
    if run: "(device_call E)\<^sup>*\<^sup>* d0 d'" for d'
  proof -
    obtain c' where c': "d_ctl d' = Some c'" "ctl_reach c0 c'" "session_ok d'"
      using calls_reach [OF run c0(1)] c0(2) by (auto simp: device_reach_def)
    then have "\<not> inclusionModeEnabled c'" if "ic_type c = STANDARD"
      using that c0(3) by (simp add: session_ok_def ctl_reach_def)
    with c' c0(3) show ?thesis
      by (intro exI [of _ c'] conjI impI) (auto simp: ctl_reach_def dest: four included_final)
  qed
  have "isIncluded d' = Some True" if "(any_call E)\<^sup>*\<^sup>* d0 d'" "ic_type c \<noteq> UNKNOWN" "ic_state c0 = INCLUDED" for d'
    using any_calls_included [OF that(1)] that(2,3) c0 by (auto simp: keeps_included_def isIncluded_def getState_def)
  moreover have "if rc = RM_E_NONE then made_new env d0 d' else d_ctl d' = Some c0" if "factoryReset env d0 = Some (rc, d')" for env rc d'
    by (rule reset_made_new [OF that c0(1,2)])
  ultimately show ?thesis
    using c0 calls by blast
qed

lemma ram_can_renew:
  assumes "e_ops env = eeprom_ops ram_eeprom" and "env_lib env = toy_lib"
  shows "can_renew (eeprom_inv ram_eeprom ram_opened) (eeprom_contents ram_eeprom) env"
proof -
  have "commits (eeprom_ops ram_eeprom) (eeprom_inv ram_eeprom ram_opened)"
    by (rule eeprom_commits) (simp add: ram_eeprom_def)
  then show ?thesis
    using assms node.device_store_axioms by (simp add: can_renew_def) (simp add: toy_lib_def)
qed

lemma ram_clear: "eeprom_inv ram_eeprom ram_opened s \<Longrightarrow> \<exists>s'. bs_clear (eeprom_ops ram_eeprom) s = (RM_E_NONE, s')"
  using st_clear_repr [OF ram_laws] by (auto simp: eeprom_inv_def eeprom_ops_def ram_eeprom_def)

theorem inclusion_follows_protocol_witness:
  "\<exists>d1 c1 d2 c2. (device_call (\<lambda>env. True))\<^sup>*\<^sup>* ((toy_dev STANDARD (ram_storage 1024))\<lparr>d_ctl := Some
      ((fresh_controller INCLUSION_PENDING STANDARD)\<lparr>protocolState := WAITING_FOR_RESPONSE\<rparr>)\<rparr>) d1 \<and>
     d_ctl d1 = Some c1 \<and> dev_phase_of c1 = (NOT_INCLUDED, PROTOCOL_IDLE) \<and> \<not> inclusionModeEnabled c1 \<and>
     factoryReset toy_env ((toy_dev STANDARD (ram_storage 1024))\<lparr>d_ctl := Some
      ((fresh_controller INCLUSION_PENDING STANDARD)\<lparr>protocolState := WAITING_FOR_RESPONSE\<rparr>)\<rparr>) = Some (RM_E_NONE, d2) \<and>
     d_ctl d2 = Some c2 \<and> dev_phase_of c2 = (NOT_INCLUDED, PROTOCOL_IDLE)"
proof -
  let ?c = "(fresh_controller INCLUSION_PENDING STANDARD)\<lparr>protocolState := WAITING_FOR_RESPONSE\<rparr>"
  let ?d = "(toy_dev STANDARD (ram_storage 1024))\<lparr>d_ctl := Some ?c\<rparr>"
  let ?env = "later 70000 toy_env" and ?inv = "eeprom_inv ram_eeprom ram_opened"
  let ?c' = "?c\<lparr>protocolState := PROTOCOL_IDLE, stateStartTime := 70000, ic_state := NOT_INCLUDED\<rparr>"
  have ok: "session_ok ?d"
    by (simp add: session_ok_def toy_dev_def fresh_controller_def RadioMeshDevice_def phase_ok_def dev_phase_of_def)
  have "checkProtocolTimeouts ?env ?d = Some (RM_E_NONE, ?d\<lparr>d_ctl := Some ?c', d_store := snd (persistState (e_ops ?env) NOT_INCLUDED (d_store ?d))\<rparr>)"
    by (simp add: checkProtocolTimeouts_def isStateTimedOut_def fresh_controller_def later_def toy_env_def toy_world_def
        getStateTimeoutMs_def BASE_TIMEOUT_MS_def handleStateTimeout_def resetProtocolState_def upd_ctl_def transitionToState_def)
  then obtain rc d1 where run: "run ?env ?d = Some (rc, d1)" "d_ctl d1 = Some ?c'"
    by (simp add: run_def run_rx_def run_tx_def toy_dev_def RadioMeshDevice_def toy_net_def LoraRadio_def
        checkAndClearRxFlag_def checkAndClearTxFlag_def upd_radio_def)
  then have call: "(device_call (\<lambda>env. True))\<^sup>*\<^sup>* ?d d1"
    using device_call.operation [OF api.pass [of "\<lambda>env. True" ?env ?d rc d1]] by auto
  have st: "d_store ?d = ram_storage 1024" "d_hasStorage ?d" "d_type ?d = STANDARD" by (simp_all add: toy_dev_def RadioMeshDevice_def)
  obtain s where "bs_clear (e_ops toy_env) (d_store ?d) = (RM_E_NONE, s)" using ram_clear [OF ram_device_inv] st by (auto simp: toy_env_def)
  then obtain d2 where d2: "factoryReset toy_env ?d = Some (RM_E_NONE, d2)" using factoryReset_succeeds [OF st(2)] by blast
  have env: "can_renew ?inv (eeprom_contents ram_eeprom) toy_env \<and> ?inv (d_store ?d)"
    using ram_can_renew [of toy_env] ram_device_inv st by (simp add: toy_env_def toy_world_def)
  note p = inclusion_follows_protocol [OF rtranclp.rtrancl_refl ok, of ?c "\<lambda>env. True", simplified]
  from p call run(2) have "\<not> inclusionModeEnabled ?c'" by (auto simp: fresh_controller_def)
  moreover from p d2 have "made_new toy_env ?d d2" by auto
  ultimately show ?thesis using call run(2) d2 env st(3) unfolding made_new_def
    by (auto simp: dev_phase_of_def fresh_controller_def)
qed

text \<open>C36: A standard device that restarts while its inclusion is pending is stuck until it is reset: it
  starts pending with the protocol idle, where an invitation is ignored because the device is not "not
  included", and no time-out runs because the protocol is idle. Whatever the device receives and
  whatever is called on it afterwards, as long as its type is left alone and no factory reset succeeds, it
  remains so, and it refuses every message that is not an inclusion message. A factory reset is the way
  out: if the store keeps its contract and keys can be made, a device that was reset is not included
  and idle, for an invitation as well as for its next start.\<close>

theorem restart_while_pending_is_stuck:
  assumes "InclusionController env d = Some d0" and "d_type d = STANDARD"
    and "initializeKeys env (d_store d) = (RM_E_NONE, s1)"
    and "loadState (e_ops env) (e_garbage env) s1 = (RM_E_NONE, INCLUSION_PENDING)"
    and "(device_call E)\<^sup>*\<^sup>* d0 d'"
  shows "(\<exists>c'. d_ctl d' = Some c' \<and> dev_phase_of c' = (INCLUSION_PENDING, PROTOCOL_IDLE)) \<and>
    (\<forall>env' topic data target. \<not> isInclusionTopic topic \<longrightarrow>
       sendData env' topic data target d' = Some (RM_E_DEVICE_NOT_INCLUDED, d')) \<and>
    (\<forall>env' rc d2. factoryReset env' d' = Some (rc, d2) \<longrightarrow>
       (if rc \<noteq> RM_E_NONE then d_ctl d2 = d_ctl d'
        else \<forall>keeps contents. can_renew keeps contents env' \<and> keeps (d_store d') \<longrightarrow>
          (\<exists>c2. d_ctl d2 = Some c2 \<and> dev_phase_of c2 = (NOT_INCLUDED, PROTOCOL_IDLE)) \<and>
          loadState (e_ops env') (e_garbage env') (d_store d2) = (RM_E_NONE, NOT_INCLUDED)))"
proof -
  obtain c where c: "d_ctl d0 = Some c" "ic_type c = STANDARD" "ic_state c = INCLUSION_PENDING"
      "protocolState c = PROTOCOL_IDLE" "\<not> inclusionModeEnabled c" "d_type d0 = STANDARD"
    using assms(1-4) by (auto simp: InclusionController_def Let_def)
  have "session_ok d0" using c by (simp add: session_ok_def phase_ok_def dev_phase_of_def)
  from calls_reach [OF assms(5) this] c(1,6) obtain c' where c': "d_ctl d' = Some c'" "ctl_reach c c'" "session_ok d'" "d_type d' = STANDARD"
    by (auto simp: device_reach_def)
  then have ph: "dev_phase_of c' = (INCLUSION_PENDING, PROTOCOL_IDLE)" "ic_type c' = STANDARD"
    using c pending_idle_stuck by (auto simp: ctl_reach_def dev_phase_of_def)
  then have "\<not> ic_canSendMessage c' topic" if "\<not> isInclusionTopic topic" for topic
    using that by (simp add: dev_phase_of_def ic_canSendMessage_def)
  moreover have "d_ctl d2 = d_ctl d'" if r: "factoryReset env' d' = Some (rc, d2)" and rc: "rc \<noteq> RM_E_NONE" for env' rc d2
    using reset_made_new [OF r c'(3,1)] rc c'(1) by simp
  moreover have "(\<exists>c2. d_ctl d2 = Some c2 \<and> dev_phase_of c2 = (NOT_INCLUDED, PROTOCOL_IDLE)) \<and>
      loadState (e_ops env') (e_garbage env') (d_store d2) = (RM_E_NONE, NOT_INCLUDED)"
    if r: "factoryReset env' d' = Some (RM_E_NONE, d2)" and k: "can_renew keeps contents env'" "keeps (d_store d')" for env' d2 keeps contents
    by (rule renewed [OF k r c'(1,4)]) simp
  ultimately show ?thesis
    using c'(1) ph(1) sendData_refused(1) [OF c'(1)] by (intro conjI allI impI) (auto split: if_splits)
qed

context key_store
begin

lemma initializeKeys_present:
  assumes "inv s" and "slot PRIV_KEY = Some 32" and "e_ops env = ops" and "contents s PRIV_KEY = Some k"
    and "cl_curve_base (env_lib env) k = Some P"
  shows "initializeKeys env s = (RM_E_NONE, s)"
  using read_law [OF assms(1), of PRIV_KEY "[]"] slot_law [OF assms(1), of PRIV_KEY k] assms
  by (simp add: initializeKeys_def km_loadPrivateKey_def loadPrivateKey_def derivePublicKey_def)

lemma loadState_present:
  assumes "inv s" and "contents s STATE_KEY = Some [b]"
  shows "loadState ops g s = (RM_E_NONE, inclusion_state_of_byte b)"
  using read_law [OF assms(1), of STATE_KEY "[]"] assms by (simp add: loadState_def)

end

definition toy_store :: "inclusion_state \<Rightarrow> bytes storage" where
  "toy_store st = snd (persistState (eeprom_ops ram_eeprom) st
     (snd (persistPrivateKey (eeprom_ops ram_eeprom) (replicate 32 2) (ram_storage 1024))))"

lemma toy_store_inv: "eeprom_inv ram_eeprom ram_opened (toy_store st)"
  and toy_store_contents: "eeprom_contents ram_eeprom (toy_store st) PRIV_KEY = Some (replicate 32 2)"
    "eeprom_contents ram_eeprom (toy_store st) STATE_KEY = Some [inclusion_state_code st]"
proof -
  let ?s1 = "snd (persistPrivateKey (eeprom_ops ram_eeprom) (replicate 32 2) (ram_storage 1024))"
  note k1 = eeprom.bs_keep [OF ram_device_inv, of PRIV_KEY "replicate 32 2"]
  have s1: "eeprom_inv ram_eeprom ram_opened ?s1" using k1 by (simp add: persistPrivateKey_def)
  note k2 = eeprom.bs_keep [OF s1, of STATE_KEY "[inclusion_state_code st]"]
  show "eeprom_inv ram_eeprom ram_opened (toy_store st)" using k2 by (simp add: toy_store_def persistState_def)
  show "eeprom_contents ram_eeprom (toy_store st) STATE_KEY = Some [inclusion_state_code st]"
    using k2 by (simp add: toy_store_def persistState_def)
  have "STATE_KEY \<noteq> PRIV_KEY" by (simp add: device_keys)
  then show "eeprom_contents ram_eeprom (toy_store st) PRIV_KEY = Some (replicate 32 2)"
    using k1 k2 by (simp add: toy_store_def persistState_def persistPrivateKey_def)
qed

theorem restart_while_pending_is_stuck_witness:
  "\<exists>d0 d2 c2. InclusionController toy_env (toy_dev STANDARD (toy_store INCLUSION_PENDING)) = Some d0 \<and>
     sendData toy_env 0x20 [1] BROADCAST_ADDR (enableRelay True d0) = Some (RM_E_DEVICE_NOT_INCLUDED, enableRelay True d0) \<and>
     factoryReset toy_env (enableRelay True d0) = Some (RM_E_NONE, d2) \<and>
     d_ctl d2 = Some c2 \<and> dev_phase_of c2 = (NOT_INCLUDED, PROTOCOL_IDLE)"
proof -
  let ?s = "toy_store INCLUSION_PENDING" and ?inv = "eeprom_inv ram_eeprom ram_opened"
  let ?d = "toy_dev STANDARD ?s"
  have keys: "initializeKeys toy_env ?s = (RM_E_NONE, ?s)"
    by (rule eeprom.initializeKeys_present [OF toy_store_inv _ _ toy_store_contents(1)])
      (simp_all add: toy_env_def toy_world_def toy_lib_def)
  have st: "loadState (e_ops toy_env) (e_garbage toy_env) ?s = (RM_E_NONE, INCLUSION_PENDING)"
    using eeprom.loadState_present [OF toy_store_inv toy_store_contents(2)]
    by (simp add: toy_env_def inclusion_state_of_byte_code named_state_def del: inclusion_state_code.simps)
  have d: "d_type ?d = STANDARD" "d_store ?d = ?s" "d_hasStorage ?d" by (simp_all add: toy_dev_def RadioMeshDevice_def)
  obtain d0 where d0: "InclusionController toy_env ?d = Some d0" "d_store d0 = ?s" "d_hasStorage d0"
    using d keys st by (simp add: InclusionController_def)
  let ?d1 = "enableRelay True d0"
  have call: "(device_call (\<lambda>env. True))\<^sup>*\<^sup>* d0 ?d1" by (intro r_into_rtranclp device_call.operation api.relay)
  have keys': "initializeKeys toy_env (d_store ?d) = (RM_E_NONE, ?s)" using keys d(2) by simp
  note p = restart_while_pending_is_stuck [OF d0(1) d(1) keys' st call]
  have d1: "?inv (d_store ?d1)" "d_hasStorage ?d1" using d0 toy_store_inv by (simp_all add: enableRelay_def)
  obtain s where "bs_clear (e_ops toy_env) (d_store ?d1) = (RM_E_NONE, s)" using ram_clear [OF d1(1)] by (auto simp: toy_env_def)
  then obtain d2 where d2: "factoryReset toy_env ?d1 = Some (RM_E_NONE, d2)" using factoryReset_succeeds [OF d1(2)] by blast
  have "can_renew ?inv (eeprom_contents ram_eeprom) toy_env" by (rule ram_can_renew) (simp_all add: toy_env_def toy_world_def)
  then obtain c2 where "d_ctl d2 = Some c2" "dev_phase_of c2 = (NOT_INCLUDED, PROTOCOL_IDLE)" using p d1(1) d2 by (metis (lifting))
  moreover have "sendData toy_env 0x20 [1] BROADCAST_ADDR ?d1 = Some (RM_E_DEVICE_NOT_INCLUDED, ?d1)"
    using p by (simp add: isInclusionTopic_iff)
  ultimately show ?thesis using d0(1) d2 by auto
qed

end
