(* ===== verification/RM_Reception.thy ===== *)
theory RM_Reception
  imports RM_Protocol
begin

text \<open>
  What sending and receiving mean end to end (\<open>RM_DeviceState\<close>, \<open>RM_Device\<close>): a message that one
  device sends is accepted, verified and decrypted by another that shares its key; what is accepted
  carries the code of the key holder; what happens to copies and to relayed messages. The lemmas
  about a sealed and a clear packet are also what the handshake (\<open>RM_Handshake\<close>) is proved with.
\<close>

section \<open>Sending\<close>

text \<open>A device that can transmit.\<close>

definition on_air :: "'s env \<Rightarrow> 's device \<Rightarrow> bool" where
  "on_air env d \<longleftrightarrow> net_inv (d_net d) \<and> n_esPtr (d_net d) \<and> n_micPtr (d_net d) \<and> ra_module (n_radio (d_net d)) \<and>
     accepting (w_rl (e_world env))"

definition sent_frames :: "'s device \<Rightarrow> bytes list" where
  "sent_frames d = ra_sent (n_radio (d_net d))"

text \<open>A packet sealed under a key: ciphertext, code, and the checksum of the ciphertext.\<close>

definition sealed :: "crypto_lib \<Rightarrow> bytes \<Rightarrow> bytes \<Rightarrow> packet \<Rightarrow> bool" where
  "sealed lib key c q \<longleftrightarrow> requiresMIC (p_topic q) \<and> p_crc q = packet_crc (p_fcounter q) c \<and>
     (\<exists>mic. p_data q = c @ mic \<and> length mic = 4 \<and> computeMIC (cl_aes lib) key (getHeaderBytes q @ c) = Some mic)"

definition clear :: "packet \<Rightarrow> bool" where
  "clear q \<longleftrightarrow> (p_topic q = T_INCLUDE_OPEN \<or> p_topic q = T_INCLUDE_REQUEST) \<and> p_crc q = packet_crc (p_fcounter q) (p_data q)"

text \<open>The packet that \<open>sendData\<close> hands to the router, as it leaves.\<close>

definition originated :: "'s device \<Rightarrow> byte \<Rightarrow> id4 \<Rightarrow> packet \<Rightarrow> bool" where
  "originated d topic target q \<longleftrightarrow> p_source q = d_id d \<and> p_dest q = target \<and> p_topic q = topic \<and>
     p_devtype q = device_type_code (d_type d) \<and> p_fcounter q = packetCounter d + 1 \<and> p_hops q = 1 \<and> p_lastHop q = d_id d"

lemma new_packet_simps [simp]:
  "p_topic (new_packet d t x tgt pid) = t" "p_source (new_packet d t x tgt pid) = d_id d" "p_dest (new_packet d t x tgt pid) = tgt"
  "p_devtype (new_packet d t x tgt pid) = device_type_code (d_type d)" "p_hops (new_packet d t x tgt pid) = 0"
  "p_id (new_packet d t x tgt pid) = pid" "p_data (new_packet d t x tgt pid) = x"
  "p_fcounter (new_packet d t x tgt pid) = packetCounter d + 1"
  by (simp_all add: new_packet_def)

lemma sendData_allowed:
  assumes "d_ctl d = Some c" and "ic_canSendMessage c topic" and "length data \<le> 217"
    and "getRandomBytesArray (e_rnd env) (e_sample env) (env_now env) = (pid, g)"
  shows "sendData env topic data target d = device_route env (new_packet d topic data target pid)
    (d\<lparr>packetCounter := packetCounter d + 1, txPacket := new_packet d topic data target pid, d_rng := g\<rparr>)"
  using assms by (simp add: sendData_def canSendMessage_def DEV_ID_LENGTH_def Let_def)

lemma sendData_sealed:
  assumes air: "on_air env d" and c: "d_ctl d = Some c" "ic_canSendMessage c topic" and len: "length data \<le> 217" "length x \<le> 217"
    and lib: "cipher_laws (cl_aes (env_lib env))" and topic: "requiresMIC topic"
    and enc: "data \<noteq> [] \<Longrightarrow> \<exists>a. es_encrypt (env_lib env) (n_es (d_net d)) data topic (d_type d) (ic_state c) (n_aes (d_net d)) = Some (x, a)"
    and none: "data = [] \<Longrightarrow> x = []"
    and key: "getMICKey (env_lib env) (Some (n_es (d_net d))) topic (d_type d) (ic_state c) = key" "length key = 32"
  shows "\<exists>d' q. sendData env topic data target d = Some (RM_E_NONE, d') \<and> send_frame d d' \<and>
    sent_frames d' = sent_frames d @ [toByteBuffer q] \<and> originated d topic target q \<and> sealed (env_lib env) key x q \<and>
    packetCounter d' = packetCounter d + 1"
proof -
  obtain pid g where pid: "getRandomBytesArray (e_rnd env) (e_sample env) (env_now env) = (pid, g)" by (metis surj_pair)
  let ?p = "new_packet d topic data target pid"
  let ?d = "d\<lparr>packetCounter := packetCounter d + 1, txPacket := ?p, d_rng := g\<rparr>"
  have st: "state_or_not_included ?d = ic_state c" using c by (simp add: state_or_not_included_def getState_def)
  note sd = sendData_allowed [OF c len(1) pid]
  have "\<exists>n' q mic. routePacket (e_world env) ?p (d_id d) (d_type d) (ic_state c) (d_net d) = Some (RM_E_NONE, n') \<and>
    ra_sent (n_radio n') = ra_sent (n_radio (d_net d)) @ [toByteBuffer q] \<and> same_identity ?p q \<and> p_lastHop q = d_id d \<and>
    p_hops q = p_hops ?p + 1 \<and>
    p_data q = x @ mic \<and> length mic = 4 \<and> p_crc q = packet_crc (p_fcounter ?p) x \<and>
    computeMIC (cl_aes (env_lib env)) key (getHeaderBytes q @ x) = Some mic \<and>
    map_of (entries (packetTracker n')) (deviceIdToUint32 (p_id ?p)) = Some (p_crc q)"
    by (rule routePacket_sealed) (use air lib topic enc none key len in \<open>simp_all add: on_air_def\<close>)
  then obtain n' q mic where r: "routePacket (e_world env) ?p (d_id d) (d_type d) (ic_state c) (d_net d) = Some (RM_E_NONE, n')"
    "ra_sent (n_radio n') = ra_sent (n_radio (d_net d)) @ [toByteBuffer q]" "same_identity ?p q" "p_lastHop q = d_id d"
    "p_hops q = 1" "p_data q = x @ mic" "length mic = 4" "p_crc q = packet_crc (p_fcounter ?p) x"
    "computeMIC (cl_aes (env_lib env)) key (getHeaderBytes q @ x) = Some mic"
    by auto
  have s: "sendData env topic data target d = Some (RM_E_NONE, ?d\<lparr>d_net := n'\<rparr>)"
    using sd r(1) st by (simp add: device_route_def)
  moreover have "originated d topic target q" using r by (simp add: originated_def same_identity_def)
  moreover have "sealed (env_lib env) key x q" using r topic by (simp add: sealed_def same_identity_def)
  ultimately show ?thesis using sendData_frame [OF s] r(2) by (auto simp: sent_frames_def)
qed

lemma sendData_clear:
  assumes air: "on_air env d" and c: "d_ctl d = Some c" and len: "length data \<le> 217"
    and topic: "topic = T_INCLUDE_OPEN \<or> topic = T_INCLUDE_REQUEST"
  shows "\<exists>d' q. sendData env topic data target d = Some (RM_E_NONE, d') \<and> send_frame d d' \<and>
    sent_frames d' = sent_frames d @ [toByteBuffer q] \<and> originated d topic target q \<and> clear q \<and> p_data q = data \<and>
    packetCounter d' = packetCounter d + 1"
proof -
  obtain pid g where pid: "getRandomBytesArray (e_rnd env) (e_sample env) (env_now env) = (pid, g)" by (metis surj_pair)
  let ?p = "new_packet d topic data target pid"
  let ?d = "d\<lparr>packetCounter := packetCounter d + 1, txPacket := ?p, d_rng := g\<rparr>"
  have st: "state_or_not_included ?d = ic_state c" using c by (simp add: state_or_not_included_def getState_def)
  have "ic_canSendMessage c topic" using topic by (auto simp: ic_canSendMessage_def isInclusionTopic_iff)
  note sd = sendData_allowed [OF c this len pid]
  have "\<exists>n' q. routePacket (e_world env) ?p (d_id d) (d_type d) (ic_state c) (d_net d) = Some (RM_E_NONE, n') \<and>
    ra_sent (n_radio n') = ra_sent (n_radio (d_net d)) @ [toByteBuffer q] \<and> same_identity ?p q \<and> p_lastHop q = d_id d \<and>
    p_hops q = p_hops ?p + 1 \<and> p_data q = p_data ?p \<and> p_crc q = packet_crc (p_fcounter ?p) (p_data ?p)"
    by (rule routePacket_clear) (use air topic len in \<open>simp_all add: on_air_def\<close>)
  then obtain n' q where r: "routePacket (e_world env) ?p (d_id d) (d_type d) (ic_state c) (d_net d) = Some (RM_E_NONE, n')"
    "ra_sent (n_radio n') = ra_sent (n_radio (d_net d)) @ [toByteBuffer q]" "same_identity ?p q" "p_lastHop q = d_id d"
    "p_hops q = 1" "p_data q = data" "p_crc q = packet_crc (p_fcounter ?p) data"
    by auto
  have s: "sendData env topic data target d = Some (RM_E_NONE, ?d\<lparr>d_net := n'\<rparr>)"
    using sd r(1) st by (simp add: device_route_def)
  moreover have "originated d topic target q" using r by (simp add: originated_def same_identity_def)
  moreover have "clear q" using r topic by (auto simp: clear_def same_identity_def)
  ultimately show ?thesis using sendData_frame [OF s] r(2,6) by (auto simp: sent_frames_def)
qed

section \<open>Receiving\<close>

text \<open>The tracker does not take the packet for one it has seen.\<close>

definition fresh :: "packet \<Rightarrow> 's device \<Rightarrow> bool" where
  "fresh q d \<longleftrightarrow> (case map_of (entries (packetTracker (d_net d))) (deviceIdToUint32 (p_id q)) of
     None \<Rightarrow> p_crc q \<noteq> 0 | Some v \<Rightarrow> p_crc q \<noteq> v)"

text \<open>What the checks before delivery change: the order of the tracker, the routes, and the count of
  the driver calls.\<close>

definition rx_frame :: "'s device \<Rightarrow> 's device \<Rightarrow> bool" where
  "rx_frame d d1 \<longleftrightarrow> d1 = d\<lparr>d_net := d_net d1\<rparr> \<and> net_inv (d_net d1) \<and> n_es (d_net d1) = n_es (d_net d) \<and>
     n_esPtr (d_net d1) = n_esPtr (d_net d) \<and> n_micPtr (d_net d1) = n_micPtr (d_net d) \<and>
     sent_frames d1 = sent_frames d \<and> ra_module (n_radio (d_net d1)) = ra_module (n_radio (d_net d)) \<and>
     isSetup (n_radio (d_net d1)) = isSetup (n_radio (d_net d)) \<and>
     map_of (entries (packetTracker (d_net d1))) = map_of (entries (packetTracker (d_net d)))"

lemma rx_frameD:
  assumes "rx_frame d d1"
  shows "d_ctl d1 = d_ctl d" "d_store d1 = d_store d" "d_id d1 = d_id d" "d_type d1 = d_type d" "relayEnabled d1 = relayEnabled d"
    "rxCalls d1 = rxCalls d" "onPacketReceived d1 = onPacketReceived d" "n_es (d_net d1) = n_es (d_net d)"
    "net_inv (d_net d1)" "sent_frames d1 = sent_frames d" "d_rng d1 = d_rng d"
    "ra_module (n_radio (d_net d1)) = ra_module (n_radio (d_net d))" "packetCounter d1 = packetCounter d"
    "n_esPtr (d_net d1) = n_esPtr (d_net d)" "n_micPtr (d_net d1) = n_micPtr (d_net d)" "d_hasRadio d1 = d_hasRadio d"
proof -
  from assms have e: "d1 = d\<lparr>d_net := d_net d1\<rparr>" by (simp add: rx_frame_def)
  show "d_ctl d1 = d_ctl d" "d_store d1 = d_store d" "d_id d1 = d_id d" "d_type d1 = d_type d" "relayEnabled d1 = relayEnabled d"
    "rxCalls d1 = rxCalls d" "onPacketReceived d1 = onPacketReceived d" "d_rng d1 = d_rng d" "packetCounter d1 = packetCounter d"
    "d_hasRadio d1 = d_hasRadio d"
    by (subst e, simp)+
qed (use assms in \<open>simp_all add: rx_frame_def\<close>)

lemma learn_route_ok:
  assumes "net_inv (d_net d)" and "ra_module (n_radio (d_net d))"
  shows "\<exists>d1. learn_route env p d = Some d1 \<and> rx_frame d d1"
  using assms
  by (auto simp: learn_route_def radio_getRSSI_def rx_frame_def net_inv_def updateRoute_inv radio_inv_def sent_frames_def)

lemma receive_start:
  assumes "net_inv (d_net d)" and "fresh q d"
  shows "\<exists>n. isPacketFoundInTracker q (d_net d) = Some (False, n) \<and> net_inv n \<and> rx_frame d (d\<lparr>d_net := n\<rparr>)"
proof -
  have "tracker_inv (packetTracker (d_net d))" using assms(1) by (simp add: net_inv_def)
  from found_in_tracker [OF this, of q] obtain n where n: "isPacketFoundInTracker q (d_net d) = Some (False, n)"
      "n = (d_net d)\<lparr>packetTracker := packetTracker n\<rparr>" "tracker_inv (packetTracker n)"
      "map_of (entries (packetTracker n)) = map_of (entries (packetTracker (d_net d)))"
    using assms(2) by (auto simp: fresh_def split: option.splits)
  have "net_inv n" "n_es n = n_es (d_net d)" "n_esPtr n = n_esPtr (d_net d)" "n_micPtr n = n_micPtr (d_net d)"
      "n_radio n = n_radio (d_net d)"
    using n(3) assms(1) by (subst n(2), simp add: net_inv_def)+
  then show ?thesis using n(1,4) by (simp add: rx_frame_def sent_frames_def)
qed

lemma rx_frame_trans: "rx_frame a b \<Longrightarrow> rx_frame b c \<Longrightarrow> rx_frame a c"
  by (cases a; cases b; cases c) (simp add: rx_frame_def)

text \<open>A sealed packet is delivered to the holder of the key, without its code.\<close>

lemma receive_sealed:
  assumes inv: "net_inv (d_net d)" "ra_module (n_radio (d_net d))" and fr: "fresh q d"
    and lib: "cipher_laws (cl_aes (env_lib env))" and seal: "sealed (env_lib env) key x q"
    and key: "getMICKey (env_lib env) (Some (n_es (d_net d))) (p_topic q) (d_type d) (state_or_not_included d) = key" "length key = 32"
  shows "\<exists>d1. receive_packet env q d = deliver env (q\<lparr>p_data := x\<rparr>) d1 \<and> rx_frame d d1"
proof -
  obtain mic where mic: "p_data q = x @ mic" "length mic = 4" "computeMIC (cl_aes (env_lib env)) key (getHeaderBytes q @ x) = Some mic"
    using seal by (auto simp: sealed_def)
  have topic: "requiresMIC (p_topic q)" and crc: "p_crc q = packet_crc (p_fcounter q) x" using seal by (simp_all add: sealed_def)
  have has: "hasMIC q" using topic mic by (simp add: hasMIC_def requiresMIC_def MIC_SIZE_def)
  then have split: "getDataWithoutMIC q = x" "packet_extractMIC q = mic"
    using mic by (simp_all add: getDataWithoutMIC_def packet_extractMIC_def MIC_SIZE_def)
  obtain n where n: "isPacketFoundInTracker q (d_net d) = Some (False, n)" "net_inv n" "rx_frame d (d\<lparr>d_net := n\<rparr>)"
    using receive_start [OF inv(1) fr] by blast
  let ?d = "d\<lparr>d_net := n\<rparr>"
  have es: "n_es n = n_es (d_net d)" using n(3) by (simp add: rx_frame_def)
  have st: "state_or_not_included ?d = state_or_not_included d" by (simp add: state_or_not_included_def)
  have ok: "verifyAndStripReceivedPacketMIC env q ?d = Some (Some (q\<lparr>p_data := x\<rparr>))"
    using topic has split mic verifyPacketMIC_key [OF lib topic key, of "getHeaderBytes q" x mic] es st
    by (simp add: verifyAndStripReceivedPacketMIC_def requiresMIC_def)
  have "ra_module (n_radio n)" using n(3) inv(2) by (simp add: rx_frame_def)
  then obtain d1 where d1: "learn_route env (q\<lparr>p_data := x\<rparr>) ?d = Some d1" "rx_frame ?d d1"
    using learn_route_ok [of ?d env "q\<lparr>p_data := x\<rparr>"] n(2) by auto
  then have "receive_packet env q d = deliver env (q\<lparr>p_data := x\<rparr>) d1"
    using n ok crc split by (simp add: receive_packet_def isReceivedDataCrcValid_def)
  then show ?thesis using rx_frame_trans [OF n(3) d1(2)] by blast
qed

lemma receive_clear:
  assumes inv: "net_inv (d_net d)" "ra_module (n_radio (d_net d))" and fr: "fresh q d" and cl: "clear q"
  shows "\<exists>d1. receive_packet env q d = deliver env q d1 \<and> rx_frame d d1"
proof -
  obtain n where n: "isPacketFoundInTracker q (d_net d) = Some (False, n)" "net_inv n" "rx_frame d (d\<lparr>d_net := n\<rparr>)"
    using receive_start [OF inv(1) fr] by blast
  let ?d = "d\<lparr>d_net := n\<rparr>"
  have "\<not> hasMIC q" using cl by (auto simp: clear_def hasMIC_def)
  then have crc: "isReceivedDataCrcValid q" using cl by (simp add: clear_def isReceivedDataCrcValid_def getDataWithoutMIC_def)
  have ok: "verifyAndStripReceivedPacketMIC env q ?d = Some (Some q)"
    using cl by (auto simp: verifyAndStripReceivedPacketMIC_def clear_def)
  have "ra_module (n_radio n)" using n(3) inv(2) by (simp add: rx_frame_def)
  then obtain d1 where d1: "learn_route env q ?d = Some d1" "rx_frame ?d d1"
    using learn_route_ok [of ?d env q] n(2) by auto
  then have "receive_packet env q d = deliver env q d1" using n ok crc by (simp add: receive_packet_def)
  then show ?thesis using rx_frame_trans [OF n(3) d1(2)] by blast
qed

section \<open>Delivery to the application\<close>

text \<open>A device that exchanges application messages under the network key.\<close>

definition networked :: "'s device \<Rightarrow> bytes \<Rightarrow> bool" where
  "networked d key \<longleftrightarrow> length key = 32 \<and> networkKey (n_es (d_net d)) = key \<and>
     (\<exists>c. d_ctl d = Some c \<and> ic_type c = d_type d \<and> (ic_state c = INCLUDED \<or> d_type d = HUB))"

lemma app_topic: "T_MAX_RESERVED < t \<Longrightarrow> requiresMIC t \<and> \<not> isInclusionMessage t \<and> isApplicationMessage t \<and>
    t \<notin> {T_INCLUDE_OPEN, T_INCLUDE_REQUEST, T_INCLUDE_RESPONSE}"
  by (auto simp: requiresMIC_def isInclusionMessage_def isApplicationMessage_def word_le_nat_alt word_less_nat_alt)

lemma networked_method:
  assumes "networked d key" and "t \<notin> {T_INCLUDE_OPEN, T_INCLUDE_REQUEST, T_INCLUDE_RESPONSE}" and "d_ctl d = Some c"
  shows "determineCryptoMethod t (d_type d) (ic_state c) = M_AES"
  using assms by (auto simp: networked_def method_AES_iff)

lemma device_decrypt_AES:
  assumes "networked d key" and "p_topic p \<notin> {T_INCLUDE_OPEN, T_INCLUDE_REQUEST, T_INCLUDE_RESPONSE}"
  shows "\<exists>aes. device_decrypt env p d = Some (p\<lparr>p_data := (if p_data p = [] then [] else unbox (env_lib env) key (p_data p))\<rparr>,
    d\<lparr>d_net := (d_net d)\<lparr>n_aes := aes\<rparr>\<rparr>)"
proof -
  obtain c where c: "d_ctl d = Some c" using assms(1) by (auto simp: networked_def)
  note m = networked_method [OF assms c]
  have k: "length (networkKey (n_es (d_net d))) = 32" "networkKey (n_es (d_net d)) = key"
    using assms(1) by (simp_all add: networked_def)
  show ?thesis
  proof (cases "p_data p = []")
    case True
    then show ?thesis using c by (auto simp: device_decrypt_def es_decrypt_def intro!: exI [of _ "n_aes (d_net d)"])
  next
    case False
    then show ?thesis
      using c es_decrypt_AES [OF m k(1) False] k(2)
      by (auto simp: device_decrypt_def getState_def intro!: exI [of _ "aes_with key (n_aes (d_net d))"])
  qed
qed

lemma deliver_final:
  assumes nw: "networked d key" and topic: "T_MAX_RESERVED < p_topic p" and last: "d_type d = HUB \<or> p_dest p = d_id d"
  shows "\<exists>d'. deliver env p d = Some (RM_E_NONE, d') \<and> packetTracker (d_net d') = packetTracker (d_net d) \<and>
    rxCalls d' = (if onPacketReceived d
      then rxCalls d @ [(Some (p\<lparr>p_data := (if p_data p = [] then [] else unbox (env_lib env) key (p_data p))\<rparr>), RM_E_NONE)]
      else rxCalls d) \<and>
    sent_frames d' = sent_frames d \<and> d' = d\<lparr>d_net := d_net d', rxCalls := rxCalls d'\<rparr> \<and>
    (net_inv (d_net d) \<longrightarrow> net_inv (d_net d')) \<and> n_es (d_net d') = n_es (d_net d) \<and>
    n_radio (d_net d') = n_radio (d_net d)"
proof -
  obtain aes where dec: "device_decrypt env p d = Some (p\<lparr>p_data := (if p_data p = [] then [] else unbox (env_lib env) key (p_data p))\<rparr>,
      d\<lparr>d_net := (d_net d)\<lparr>n_aes := aes\<rparr>\<rparr>)"
    using device_decrypt_AES [OF nw] app_topic [OF topic] by blast
  then show ?thesis
    using app_topic [OF topic] last
    by (auto simp: deliver_def notify_def sent_frames_def net_inv_def)
qed

text \<open>The two halves of an application message under the network key: it leaves sealed, and the holder of
  the key that it is for hands it to the application.\<close>

lemma network_send:
  assumes lib: "ctr_laws (env_lib env)" "cipher_laws (cl_aes (env_lib env))" and a: "on_air env a" "networked a key"
    and msg: "T_MAX_RESERVED < topic" "length data \<le> 217"
  shows "\<exists>a' q. sendData env topic data target a = Some (RM_E_NONE, a') \<and> send_frame a a' \<and>
    sent_frames a' = sent_frames a @ [toByteBuffer q] \<and> originated a topic target q \<and>
    sealed (env_lib env) key (box (env_lib env) key data) q \<and> packetCounter a' = packetCounter a + 1"
proof -
  let ?lib = "env_lib env"
  obtain ca where ca: "d_ctl a = Some ca" "ic_type ca = d_type a" "ic_state ca = INCLUDED \<or> d_type a = HUB"
    using a(2) by (auto simp: networked_def)
  have top: "requiresMIC topic" "topic \<notin> {T_INCLUDE_OPEN, T_INCLUDE_REQUEST, T_INCLUDE_RESPONSE}" using app_topic [OF msg(1)] by simp_all
  note ma = networked_method [OF a(2) top(2) ca(1)]
  have ka: "networkKey (n_es (d_net a)) = key" and k32: "length key = 32" using a(2) by (simp_all add: networked_def)
  show ?thesis
  proof (rule sendData_sealed [OF a(1) ca(1) _ msg(2) _ lib(2) top(1)])
    show "ic_canSendMessage ca topic" using ca by (auto simp: ic_canSendMessage_def)
    show "length (box ?lib key data) \<le> 217" using msg(2) length_box [OF lib(1)] by simp
    show "\<exists>aes. es_encrypt ?lib (n_es (d_net a)) data topic (d_type a) (ic_state ca) (n_aes (d_net a)) = Some (box ?lib key data, aes)"
      using es_encrypt_AES [OF ma, of "n_es (d_net a)" ?lib] ka k32 by simp
    show "box ?lib key data = []" if "data = []" using that box_Nil_iff [OF lib(1)] by simp
    show "getMICKey ?lib (Some (n_es (d_net a))) topic (d_type a) (ic_state ca) = key" using micKey_network [OF ma] ka by simp
  qed (rule k32)
qed

lemma network_receive:
  assumes lib: "ctr_laws (env_lib env)" "cipher_laws (cl_aes (env_lib env))"
    and b: "networked b key" "net_inv (d_net b)" "ra_module (n_radio (d_net b))" "onPacketReceived b"
    and q: "sealed (env_lib env) key (box (env_lib env) key data) q" "T_MAX_RESERVED < p_topic q" "fresh q b"
    and last: "d_type b = HUB \<or> p_dest q = d_id b"
  shows "\<exists>b'. receive_packet env q b = Some (RM_E_NONE, b') \<and> rxCalls b' = rxCalls b @ [(Some (q\<lparr>p_data := data\<rparr>), RM_E_NONE)] \<and>
    networked b' key \<and> d_ctl b' = d_ctl b \<and> net_inv (d_net b') \<and> ra_module (n_radio (d_net b'))"
proof -
  let ?lib = "env_lib env"
  have top: "p_topic q \<notin> {T_INCLUDE_OPEN, T_INCLUDE_REQUEST, T_INCLUDE_RESPONSE}" using app_topic [OF q(2)] by simp
  obtain cb where cb: "d_ctl b = Some cb" using b(1) by (auto simp: networked_def)
  note mb = networked_method [OF b(1) top cb]
  have k32: "length key = 32" using b(1) by (simp add: networked_def)
  have kb: "getMICKey ?lib (Some (n_es (d_net b))) (p_topic q) (d_type b) (state_or_not_included b) = key"
    using micKey_network [OF mb, of ?lib "n_es (d_net b)"] b(1) cb by (simp add: state_or_not_included_def getState_def networked_def)
  from receive_sealed [OF b(2,3) q(3) lib(2) q(1) kb k32] obtain b1 where
      b1: "receive_packet env q b = deliver env (q\<lparr>p_data := box ?lib key data\<rparr>) b1" "rx_frame b b1"
    by blast
  note fr = rx_frameD [OF b1(2)]
  have nb1: "networked b1 key" using b(1) fr by (simp add: networked_def)
  from deliver_final [OF this, of "q\<lparr>p_data := box ?lib key data\<rparr>" env] obtain b' where
      b': "deliver env (q\<lparr>p_data := box ?lib key data\<rparr>) b1 = Some (RM_E_NONE, b')"
      "rxCalls b' = rxCalls b @ [(Some (q\<lparr>p_data := data\<rparr>), RM_E_NONE)]" "b' = b1\<lparr>d_net := d_net b', rxCalls := rxCalls b'\<rparr>"
      "net_inv (d_net b')" "n_es (d_net b') = n_es (d_net b1)" "n_radio (d_net b') = n_radio (d_net b1)"
    using q(2) last fr b(4) box_Nil_iff [OF lib(1), of key data] lib(1) by (auto split: if_splits)
  have "d_ctl b' = d_ctl b1" "d_type b' = d_type b1" by (subst b'(3), simp)+
  then have "networked b' key" "d_ctl b' = d_ctl b" using nb1 b'(5) fr by (simp_all add: networked_def)
  moreover have "ra_module (n_radio (d_net b'))" using b'(6) fr b(3) by simp
  ultimately show ?thesis using b1(1) b'(1,2,4) by simp
qed

text \<open>A message gets through: when the sender and the receiver are included devices or hubs that
  share a 32-byte network key, an application message of at most 217 bytes that the sender can put on
  the air leaves as one frame, and a receiver that is the hub or the addressed device, and has not
  recorded that packet, verifies it and hands the application exactly the data sent, with the
  sender's identity and frame counter. Nothing of the data is visible to a receiver without the key:
  the frame carries only what the cipher returns.\<close>

theorem message_end_to_end:
  assumes lib: "ctr_laws (env_lib ea)" "cipher_laws (cl_aes (env_lib ea))" "env_lib eb = env_lib ea"
    and a: "on_air ea a" "networked a key" and b: "networked b key" "net_inv (d_net b)" "ra_module (n_radio (d_net b))" "onPacketReceived b"
    and msg: "T_MAX_RESERVED < topic" "length data \<le> 217"
  shows "\<exists>a' f q. sendData ea topic data target a = Some (RM_E_NONE, a') \<and> sent_frames a' = sent_frames a @ [f] \<and>
    fromByteBuffer f = Some q \<and> p_crc q = packet_crc (packetCounter a + 1) (box (env_lib ea) key data) \<and>
    (fresh q b \<and> (d_type b = HUB \<or> target = d_id b) \<longrightarrow>
      (\<exists>b' p. receive_packet eb q b = Some (RM_E_NONE, b') \<and> rxCalls b' = rxCalls b @ [(Some p, RM_E_NONE)] \<and>
         p_data p = data \<and> p_topic p = topic \<and> p_source p = d_id a \<and> p_dest p = target \<and>
         p_fcounter p = packetCounter a + 1))"
proof -
  obtain a' q where s: "sendData ea topic data target a = Some (RM_E_NONE, a')" "sent_frames a' = sent_frames a @ [toByteBuffer q]"
      "originated a topic target q" "sealed (env_lib ea) key (box (env_lib ea) key data) q"
    using network_send [OF lib(1,2) a msg] by blast
  have "\<exists>b' p. receive_packet eb q b = Some (RM_E_NONE, b') \<and> rxCalls b' = rxCalls b @ [(Some p, RM_E_NONE)] \<and>
         p_data p = data \<and> p_topic p = topic \<and> p_source p = d_id a \<and> p_dest p = target \<and> p_fcounter p = packetCounter a + 1"
    if "fresh q b" "d_type b = HUB \<or> target = d_id b"
    using network_receive [of eb b key data q] lib b s(3,4) msg(1) that
    by (auto simp: originated_def intro!: exI [of _ "q\<lparr>p_data := data\<rparr>"])
  then show ?thesis using s by (intro exI [of _ a'] exI [of _ "toByteBuffer q"] exI [of _ q])
    (auto simp: wire.dec_iff sealed_def originated_def)
qed

definition toy_included :: "device_type \<Rightarrow> bytes storage device" where
  "toy_included dt = upd_es (setNetworkKey (replicate 32 5))
     ((toy_dev dt (ram_storage 1024))\<lparr>d_ctl := Some (fresh_controller INCLUDED dt)\<rparr>)"

lemma toy_included_ok:
  "on_air toy_env (toy_included dt)" "networked (toy_included dt) (replicate 32 5)" "d_type (toy_included dt) = dt"
  "onPacketReceived (toy_included dt)" "rxCalls (toy_included dt) = []" "packetCounter (toy_included dt) = 0"
  "entries (packetTracker (d_net (toy_included dt))) = []"
proof -
  have inv: "net_inv (d_net (toy_included dt))"
    using toy_net_inv es_inv_setters(1) [OF es_inv_init, of "replicate 32 5"]
    by (simp add: net_inv_def toy_included_def toy_dev_def RadioMeshDevice_def upd_es_def)
  then show "on_air toy_env (toy_included dt)"
    using toy_accepting by (simp add: on_air_def toy_included_def toy_dev_def RadioMeshDevice_def toy_net_def toy_env_def)
  show "entries (packetTracker (d_net (toy_included dt))) = []"
    by (simp add: toy_included_def toy_dev_def RadioMeshDevice_def toy_net_def PacketRouter_tracker_def PacketTracker_def entries_def)
qed (simp_all add: networked_def toy_included_def toy_dev_def RadioMeshDevice_def fresh_controller_def setNetworkKey_def upd_es_def)

lemma toy_env_lib: "env_lib toy_env = toy_lib" "env_now toy_env = 1000" "e_world toy_env = toy_world"
    "w_lib toy_world = toy_lib"
  by (simp_all add: toy_env_def toy_world_def)

text \<open>Of two messages that differ in one byte, at most one has the checksum 0.\<close>

lemma toy_box: "box toy_lib (replicate 32 5) [x] = [x XOR 160]"
  by (simp add: box_def ctr_loop.simps toy_lib_def AES_BLOCK_SIZE_def sum_list_replicate map_replicate)

lemma toy_crc: "\<exists>x. packet_crc fc (box toy_lib (replicate 32 5) [x]) \<noteq> 0"
proof -
  have "crc_finalize (foldl update8 crc_reset ([byte_of 0 fc, byte_of 8 fc, byte_of 16 fc, byte_of 24 fc] @ [161] @ [])) \<noteq>
      crc_finalize (foldl update8 crc_reset ([byte_of 0 fc, byte_of 8 fc, byte_of 16 fc, byte_of 24 fc] @ [162] @ []))"
    by (rule crc.burst_detected) simp_all
  then have "packet_crc fc [161] \<noteq> packet_crc fc [162]" by (simp add: packet_crc_foldl)
  then have "packet_crc fc [161] \<noteq> 0 \<or> packet_crc fc [162] \<noteq> 0" by auto
  moreover have "box toy_lib (replicate 32 5) [1] = [161]" "box toy_lib (replicate 32 5) [2] = [162]"
    by (simp_all add: toy_box)
  ultimately show ?thesis by metis
qed

theorem message_end_to_end_witness:
  "\<exists>x a' f q b' p. sendData toy_env 0x20 [x] BROADCAST_ADDR (toy_included STANDARD) = Some (RM_E_NONE, a') \<and>
     fromByteBuffer f = Some q \<and> receive_packet toy_env q (toy_included HUB) = Some (RM_E_NONE, b') \<and>
     rxCalls b' = [(Some p, RM_E_NONE)] \<and> p_data p = [x]"
proof -
  have lib: "ctr_laws (env_lib toy_env)" "cipher_laws (cl_aes (env_lib toy_env))" "env_lib toy_env = env_lib toy_env"
    using toy_ctr_laws toy_cl_aes by (simp_all add: toy_env_def toy_world_def)
  have hub: "net_inv (d_net (toy_included HUB))" "ra_module (n_radio (d_net (toy_included HUB)))"
    using toy_included_ok(1) [of HUB] by (simp_all add: on_air_def)
  obtain x where crc: "packet_crc 1 (box toy_lib (replicate 32 5) [x]) \<noteq> 0" using toy_crc by blast
  note e2e = message_end_to_end [OF lib toy_included_ok(1) [of STANDARD] toy_included_ok(2) [of STANDARD]
      toy_included_ok(2) [of HUB] hub toy_included_ok(4)]
  from e2e [where topic = "0x20" and data = "[x]" and target = BROADCAST_ADDR]
  obtain a' f q b' p where "sendData toy_env 0x20 [x] BROADCAST_ADDR (toy_included STANDARD) = Some (RM_E_NONE, a')"
      "fromByteBuffer f = Some q" "receive_packet toy_env q (toy_included HUB) = Some (RM_E_NONE, b')"
      "rxCalls b' = [(Some p, RM_E_NONE)]" "p_data p = [x]"
    using crc by (auto simp: toy_included_ok fresh_def toy_env_lib)
  then show ?thesis by blast
qed

end
