(* ===== verification/RM_Handshake.thy ===== *)
theory RM_Handshake
  imports RM_Reception
begin

text \<open>
  The five-message handshake between a hub and a standard device (\<open>RM_Inclusion\<close>), with each message
  carried by a frame that the other side receives: \<open>INCLUDE_OPEN\<close> with the hub's public key,
  \<open>INCLUDE_REQUEST\<close> with the device's, \<open>INCLUDE_RESPONSE\<close> with the network key and a nonce,
  encrypted under the key agreement, \<open>INCLUDE_CONFIRM\<close> with the nonce plus one and
  \<open>INCLUDE_SUCCESS\<close>, both under the network key. One lemma per message says what the receiver does
  with it, in any store that keeps the contract \<open>device_store\<close>; the property composes them.
\<close>

section \<open>Nodes\<close>

text \<open>The surroundings of a node: its libraries, its store, and a driver that accepts frames.\<close>

definition serves :: "crypto_lib \<Rightarrow> 's byte_storage \<Rightarrow> 's env \<Rightarrow> bool" where
  "serves lib ops env \<longleftrightarrow> env_lib env = lib \<and> e_ops env = ops \<and> accepting (w_rl (e_world env))"

definition ready :: "'s device \<Rightarrow> bool" where
  "ready d \<longleftrightarrow> net_inv (d_net d) \<and> n_esPtr (d_net d) \<and> n_micPtr (d_net d) \<and> ra_module (n_radio (d_net d))"

lemma ready_on_air: "ready d \<Longrightarrow> serves lib ops env \<Longrightarrow> on_air env d"
  by (simp add: ready_def serves_def on_air_def)

lemma ready_send: "send_frame d d' \<Longrightarrow> ready d \<Longrightarrow> ready d'"
  by (simp add: ready_def send_frameD)

lemma ready_rx: "rx_frame d d' \<Longrightarrow> ready d \<Longrightarrow> ready d'"
  by (simp add: ready_def rx_frameD)

text \<open>The key pair of a node: the public key is what the library computes from the private key.\<close>

definition keypair_of :: "crypto_lib \<Rightarrow> bytes \<Rightarrow> bytes \<Rightarrow> bool" where
  "keypair_of lib a A \<longleftrightarrow> length a = 32 \<and> cl_curve_base lib a = Some A"

definition lib_laws :: "crypto_lib \<Rightarrow> bool" where
  "lib_laws lib \<longleftrightarrow> ctr_laws lib \<and> cipher_laws (cl_aes lib) \<and> sha_laws lib \<and> ecdh_laws lib (keypair_of lib)"

lemma keypair_length: "lib_laws lib \<Longrightarrow> keypair_of lib a A \<Longrightarrow> length a = 32 \<and> length A = 32"
  by (auto simp: lib_laws_def ecdh_laws_def)

lemma agreement:
  assumes "lib_laws lib" and "keypair_of lib a A" and "keypair_of lib b B"
  shows "\<exists>sec. cl_curve lib a B = Some sec \<and> cl_curve lib b A = Some sec"
  using assms unfolding lib_laws_def ecdh_laws_def by (metis option.exhaust)

text \<open>A node: it holds its private key, in the store and in the encryption service.\<close>

definition node_ok :: "('s \<Rightarrow> bool) \<Rightarrow> ('s \<Rightarrow> string \<Rightarrow> bytes option) \<Rightarrow> bytes \<Rightarrow> 's device \<Rightarrow> bool" where
  "node_ok keeps contents priv d \<longleftrightarrow> ready d \<and> keeps (d_store d) \<and> contents (d_store d) PRIV_KEY = Some priv \<and>
     devicePrivateKey (n_es (d_net d)) = priv"

text \<open>A hub in inclusion mode, in a state of the protocol; while it waits for the confirmation it has
  chosen a nonce and handed out the network key.\<close>

definition hub_at :: "('s \<Rightarrow> string \<Rightarrow> bytes option) \<Rightarrow> bytes \<Rightarrow> protocol_state \<Rightarrow> 's device \<Rightarrow> bool" where
  "hub_at contents nk st d \<longleftrightarrow> d_type d = HUB \<and> contents (d_store d) NKEY = Some nk \<and>
     (\<exists>c. d_ctl d = Some c \<and> ic_type c = HUB \<and> inclusionModeEnabled c \<and> protocolState c = st)"

definition device_at :: "inclusion_state \<Rightarrow> protocol_state \<Rightarrow> 's device \<Rightarrow> bool" where
  "device_at ist st d \<longleftrightarrow> d_type d = STANDARD \<and>
     (\<exists>c. d_ctl d = Some c \<and> ic_type c = STANDARD \<and> ic_state c = ist \<and> protocolState c = st)"

text \<open>The states between the frames: a device that has asked and knows the hub's public key, a hub that has handed
  out the network key with a nonce, and a device that has taken the key.\<close>

definition awaits_response :: "('s \<Rightarrow> bool) \<Rightarrow> ('s \<Rightarrow> string \<Rightarrow> bytes option) \<Rightarrow> bytes \<Rightarrow> bytes \<Rightarrow> 's device \<Rightarrow> bool" where
  "awaits_response keeps contents priv hub d \<longleftrightarrow> node_ok keeps contents priv d \<and>
     device_at INCLUSION_PENDING WAITING_FOR_RESPONSE d \<and> hubPublicKey (n_es (d_net d)) = hub"

definition awaits_confirmation :: "('s \<Rightarrow> bool) \<Rightarrow> ('s \<Rightarrow> string \<Rightarrow> bytes option) \<Rightarrow> bytes \<Rightarrow> bytes \<Rightarrow> bytes \<Rightarrow> 's device \<Rightarrow> bool" where
  "awaits_confirmation keeps contents priv nk nonce h \<longleftrightarrow> node_ok keeps contents priv h \<and> hub_at contents nk WAITING_FOR_CONFIRMATION h \<and>
     networkKey (n_es (d_net h)) = nk \<and> (\<exists>c. d_ctl h = Some c \<and> currentNonce c = nonce)"

definition awaits_success :: "('s \<Rightarrow> bool) \<Rightarrow> ('s \<Rightarrow> string \<Rightarrow> bytes option) \<Rightarrow> bytes \<Rightarrow> bytes \<Rightarrow> 's device \<Rightarrow> bool" where
  "awaits_success keeps contents priv nk d \<longleftrightarrow> node_ok keeps contents priv d \<and> device_at INCLUSION_PENDING WAITING_FOR_SUCCESS d \<and>
     networkKey (n_es (d_net d)) = nk \<and> contents (d_store d) NKEY = Some nk"

text \<open>A frame is put on the air; a frame is heard and, unless it is taken for a duplicate, handled
  without an error, with a result that satisfies \<open>P\<close>.\<close>

definition emits :: "'s device \<Rightarrow> 's device \<Rightarrow> bytes \<Rightarrow> bool" where
  "emits d d' f \<longleftrightarrow> sent_frames d' = sent_frames d @ [f]"

definition heard :: "'s env \<Rightarrow> bytes \<Rightarrow> 's device \<Rightarrow> ('s device \<Rightarrow> bool) \<Rightarrow> bool" where
  "heard env f d P \<longleftrightarrow> (\<exists>q. fromByteBuffer f = Some q \<and>
     (fresh q d \<longrightarrow> (\<exists>d'. receive_packet env q d = Some (RM_E_NONE, d') \<and> P d')))"

lemma heard_mono: "heard env f d P \<Longrightarrow> (\<And>d'. P d' \<Longrightarrow> Q d') \<Longrightarrow> heard env f d Q"
  by (auto simp: heard_def)

lemma heardI:
  assumes "fresh q d \<Longrightarrow> \<exists>d'. receive_packet env q d = Some (RM_E_NONE, d') \<and> P d'"
  shows "heard env (toByteBuffer q) d P"
  using assms by (auto simp: heard_def wire.dec_iff)

lemma transition_to: "st \<noteq> protocolState c \<Longrightarrow> protocolState (transitionToState now st c) = st"
  by (simp add: transitionToState_def)

lemma notify_net [simp]: "node_ok keeps contents priv (notify p rc d) = node_ok keeps contents priv d"
  "hub_at contents nk st (notify p rc d) = hub_at contents nk st d"
  "device_at ist st (notify p rc d) = device_at ist st d" "ready (notify p rc d) = ready d"
  "sent_frames (notify p rc d) = sent_frames d"
  by (simp_all add: node_ok_def ready_def hub_at_def device_at_def sent_frames_def)

lemma node_rx: "rx_frame d d1 \<Longrightarrow> node_ok keeps contents priv d \<Longrightarrow> node_ok keeps contents priv d1"
  by (simp add: node_ok_def ready_rx rx_frameD)

lemma node_send: "send_frame d d1 \<Longrightarrow> node_ok keeps contents priv d \<Longrightarrow> node_ok keeps contents priv d1"
  by (simp add: node_ok_def ready_send send_frameD)

lemma at_rx:
  assumes "rx_frame d d1"
  shows "hub_at contents nk st d1 = hub_at contents nk st d" "device_at ist st d1 = device_at ist st d"
  using rx_frameD [OF assms] by (simp_all add: hub_at_def device_at_def)

lemma at_send:
  assumes "send_frame d d1"
  shows "hub_at contents nk st d1 = hub_at contents nk st d" "device_at ist st d1 = device_at ist st d"
  using send_frameD [OF assms] by (simp_all add: hub_at_def device_at_def)

section \<open>The messages\<close>

text \<open>Inclusion messages on the two clear topics are not decrypted.\<close>

lemma deliver_inclusion_clear:
  assumes "p_topic q = T_INCLUDE_OPEN \<or> p_topic q = T_INCLUDE_REQUEST" and "d_ctl d = Some c"
  shows "deliver env q d = do { (result, d2) \<leftarrow> handleInclusionMessage env q d; Some (result, notify (Some q) RM_E_NONE d2) }"
proof -
  have "determineCryptoMethod (p_topic q) (d_type d) (getState c) = M_NONE" using assms(1) by (auto simp: method_NONE_iff)
  then have "device_decrypt env q d = Some (q, d)"
    using assms(2) by (simp add: device_decrypt_def es_decrypt_NONE)
  moreover have "isInclusionMessage (p_topic q)" using assms(1) by (auto simp: isInclusionMessage_def)
  ultimately show ?thesis by (simp add: deliver_def)
qed

lemma deliver_inclusion_AES:
  assumes "p_topic q = T_INCLUDE_CONFIRM \<or> p_topic q = T_INCLUDE_SUCCESS" and "d_ctl d = Some c"
    and "length (networkKey (n_es (d_net d))) = 32"
  shows "\<exists>aes x. deliver env q d = do { (result, d2) \<leftarrow> handleInclusionMessage env (q\<lparr>p_data := x\<rparr>)
        (d\<lparr>d_net := (d_net d)\<lparr>n_aes := aes\<rparr>\<rparr>); Some (result, notify (Some (q\<lparr>p_data := x\<rparr>)) RM_E_NONE d2) } \<and>
     x = (if p_data q = [] then [] else unbox (env_lib env) (networkKey (n_es (d_net d))) (p_data q))"
proof -
  have m: "determineCryptoMethod (p_topic q) (d_type d) (getState c) = M_AES" using assms(1) by (auto simp: method_AES_iff)
  have i: "isInclusionMessage (p_topic q)" using assms(1) by (auto simp: isInclusionMessage_def)
  show ?thesis
  proof (cases "p_data q = []")
    case True
    then have "device_decrypt env q d = Some (q\<lparr>p_data := []\<rparr>, d\<lparr>d_net := (d_net d)\<lparr>n_aes := n_aes (d_net d)\<rparr>\<rparr>)"
      using assms(2) by (simp add: device_decrypt_def es_decrypt_def)
    then show ?thesis using True i
      by (intro exI [of _ "n_aes (d_net d)"] exI [of _ "[]"]) (simp add: deliver_def)
  next
    case False
    let ?k = "networkKey (n_es (d_net d))"
    have "device_decrypt env q d = Some (q\<lparr>p_data := unbox (env_lib env) ?k (p_data q)\<rparr>,
        d\<lparr>d_net := (d_net d)\<lparr>n_aes := aes_with ?k (n_aes (d_net d))\<rparr>\<rparr>)"
      using assms(2) es_decrypt_AES [OF m assms(3) False] by (simp add: device_decrypt_def)
    then show ?thesis using False i
      by (intro exI [of _ "aes_with ?k (n_aes (d_net d))"] exI [of _ "unbox (env_lib env) ?k (p_data q)"]) (simp add: deliver_def)
  qed
qed

context device_store
begin

lemma key_in_store:
  assumes "serves lib ops env" and "lib_laws lib" and "inv s" and "contents s PRIV_KEY = Some priv" and "keypair_of lib priv pub"
  shows "getPublicKey env s = Inr pub"
  using assms load_after [of s PRIV_KEY priv "[]"]
  by (simp add: getPublicKey_def km_loadPrivateKey_def loadPrivateKey_def derivePublicKey_def serves_def keypair_of_def)

text \<open>The hub invites: its public key goes out in clear.\<close>

lemma hub_opens:
  assumes env: "serves lib ops env" "lib_laws lib" and h: "node_ok inv contents priv h" "hub_at contents nk st h"
    and kp: "keypair_of lib priv pub"
  shows "\<exists>h' q. sendInclusionOpen env h = Some (RM_E_NONE, h') \<and> emits h h' (toByteBuffer q) \<and> clear q \<and>
    p_topic q = T_INCLUDE_OPEN \<and> p_data q = pub \<and> node_ok inv contents priv h' \<and> hub_at contents nk WAITING_FOR_REQUEST h'"
proof -
  obtain c where c: "d_ctl h = Some c" "ic_type c = HUB" "inclusionModeEnabled c" "protocolState c = st" "d_type h = HUB"
      "contents (d_store h) NKEY = Some nk"
    using h(2) by (auto simp: hub_at_def)
  let ?c1 = "transitionToState (env_now env) WAITING_FOR_REQUEST c"
  let ?h1 = "h\<lparr>d_ctl := Some ?c1\<rparr>"
  have n1: "node_ok inv contents priv ?h1" using h(1) by (simp add: node_ok_def ready_def)
  then have "on_air env ?h1" using env(1) ready_on_air by (auto simp: node_ok_def)
  moreover have "length pub \<le> 217" using keypair_length [OF env(2) kp] by simp
  ultimately obtain h' q where s: "sendData env T_INCLUDE_OPEN pub BROADCAST_ADDR ?h1 = Some (RM_E_NONE, h')" "send_frame ?h1 h'"
      "sent_frames h' = sent_frames ?h1 @ [toByteBuffer q]" "originated ?h1 T_INCLUDE_OPEN BROADCAST_ADDR q" "clear q" "p_data q = pub"
    using sendData_clear [of env ?h1 ?c1 pub T_INCLUDE_OPEN BROADCAST_ADDR] by auto
  have "getPublicKey env (d_store ?h1) = Inr pub"
    using key_in_store [OF env _ _ kp, of "d_store h"] h(1) by (simp add: node_ok_def)
  then have "sendInclusionOpen env h = Some (RM_E_NONE, h')"
    using c s(1) by (simp add: sendInclusionOpen_def ic_sendInclusionOpen_def)
  moreover have "hub_at contents nk WAITING_FOR_REQUEST ?h1" using c by (simp add: hub_at_def)
  ultimately show ?thesis
    using s n1 node_send [OF s(2)] at_send(1) [OF s(2)]
    by (auto simp: emits_def sent_frames_def originated_def)
qed

text \<open>The invited device remembers the hub's key, is pending in store and controller, and answers with
  its own public key.\<close>

lemma device_invited:
  assumes env: "serves lib ops env" "lib_laws lib" and d: "node_ok inv contents priv d" "device_at NOT_INCLUDED PROTOCOL_IDLE d"
    and kp: "keypair_of lib priv pub" and q: "clear q" "p_topic q = T_INCLUDE_OPEN" "length (p_data q) = 32" "fresh q d"
  shows "\<exists>d' q'. receive_packet env q d = Some (RM_E_NONE, d') \<and> emits d d' (toByteBuffer q') \<and> clear q' \<and>
    p_topic q' = T_INCLUDE_REQUEST \<and> p_data q' = pub \<and> node_ok inv contents priv d' \<and>
    device_at INCLUSION_PENDING WAITING_FOR_RESPONSE d' \<and> hubPublicKey (n_es (d_net d')) = p_data q"
proof -
  have r: "net_inv (d_net d)" "ra_module (n_radio (d_net d))" using d(1) by (simp_all add: node_ok_def ready_def)
  obtain d1 where d1: "receive_packet env q d = deliver env q d1" "rx_frame d d1" using receive_clear [OF r q(4,1)] by blast
  have n1: "node_ok inv contents priv d1" "device_at NOT_INCLUDED PROTOCOL_IDLE d1"
    using d node_rx [OF d1(2)] at_rx [OF d1(2)] by simp_all
  then obtain c where c: "d_ctl d1 = Some c" "ic_type c = STANDARD" "ic_state c = NOT_INCLUDED" "protocolState c = PROTOCOL_IDLE"
      "d_type d1 = STANDARD"
    by (auto simp: device_at_def)
  let ?c = "transitionToState (env_now env) WAITING_FOR_RESPONSE (c\<lparr>tempHubPublicKey := p_data q, ic_state := INCLUSION_PENDING\<rparr>)"
  let ?s = "snd (persistState ops INCLUSION_PENDING (d_store d1))"
  let ?d2 = "(upd_es (setHubPublicKey (p_data q)) d1)\<lparr>d_store := ?s, d_ctl := Some ?c\<rparr>"
  have "inv (d_store d1)" "contents (d_store d1) PRIV_KEY = Some priv" using n1(1) by (simp_all add: node_ok_def)
  note keep = bs_keep [OF this(1), of STATE_KEY "[inclusion_state_code INCLUSION_PENDING]"] this
  have s: "inv ?s" "contents ?s PRIV_KEY = Some priv" using keep device_keys_distinct(6) by (auto simp: persistState_def)
  have n2: "node_ok inv contents priv ?d2"
    using n1(1) s es_inv_setters(3) [of "n_es (d_net d1)"] by (simp add: node_ok_def ready_def net_inv_def setHubPublicKey_def)
  then have air: "on_air env ?d2" using env(1) ready_on_air by (auto simp: node_ok_def)
  have "length pub \<le> 217" using keypair_length [OF env(2) kp] by simp
  with air obtain d3 q' where sd: "sendData env T_INCLUDE_REQUEST pub BROADCAST_ADDR ?d2 = Some (RM_E_NONE, d3)" "send_frame ?d2 d3"
      "sent_frames d3 = sent_frames ?d2 @ [toByteBuffer q']" "originated ?d2 T_INCLUDE_REQUEST BROADCAST_ADDR q'" "clear q'" "p_data q' = pub"
    using sendData_clear [of env ?d2 ?c pub T_INCLUDE_REQUEST BROADCAST_ADDR] by auto
  have "getPublicKey env (d_store ?d2) = Inr pub" using key_in_store [OF env s kp] by simp
  moreover have ops: "e_ops env = ops" using env(1) by (simp add: serves_def)
  moreover have "tempHubPublicKey ?c \<noteq> []" using q(3) by auto
  ultimately have "handleInclusionMessage env q d1 = Some (RM_E_NONE, d3)"
    using c q(2,3) sd(1)
    by (simp add: handleInclusionMessage_def device_handleOpen_def ic_sendInclusionRequest_def Let_def PUBLIC_KEY_SIZE_def)
  then have "receive_packet env q d = Some (RM_E_NONE, notify (Some q) RM_E_NONE d3)"
    using d1(1) deliver_inclusion_clear [OF disjI1 [OF q(2)] c(1)] by simp
  moreover have "emits d (notify (Some q) RM_E_NONE d3) (toByteBuffer q')"
    using sd(3) rx_frameD [OF d1(2)] by (simp add: emits_def sent_frames_def)
  moreover have "device_at INCLUSION_PENDING WAITING_FOR_RESPONSE d3"
    using at_send(2) [OF sd(2)] c by (simp add: device_at_def)
  moreover have "hubPublicKey (n_es (d_net d3)) = p_data q"
    using send_frameD(10) [OF sd(2)] q(3) by (simp add: setHubPublicKey_def)
  ultimately show ?thesis using node_send [OF sd(2) n2] sd(4,5,6) by (auto simp: originated_def)
qed

text \<open>The hub answers the request with the network key and a fresh nonce, sealed for the device.\<close>

lemma hub_answers:
  assumes env: "serves lib ops env" "lib_laws lib" and h: "node_ok inv contents priv h" "hub_at contents nk WAITING_FOR_REQUEST h"
    and kp: "keypair_of lib priv pub" "keypair_of lib dpriv (p_data q)" "cl_curve lib priv (p_data q) = Some sec"
    and q: "clear q" "p_topic q = T_INCLUDE_REQUEST" "fresh q h"
  shows "\<exists>h' q' nonce. receive_packet env q h = Some (RM_E_NONE, h') \<and> emits h h' (toByteBuffer q') \<and>
    p_topic q' = T_INCLUDE_RESPONSE \<and> length nonce = 4 \<and>
    sealed lib (cl_sha256 lib sec) (box lib (cl_sha256 lib sec) (nk @ nonce)) q' \<and> node_ok inv contents priv h' \<and>
    hub_at contents nk WAITING_FOR_CONFIRMATION h' \<and> networkKey (n_es (d_net h')) = nk \<and>
    (\<exists>c. d_ctl h' = Some c \<and> currentNonce c = nonce)"
proof -
  have r: "net_inv (d_net h)" "ra_module (n_radio (d_net h))" using h(1) by (simp_all add: node_ok_def ready_def)
  obtain d1 where d1: "receive_packet env q h = deliver env q d1" "rx_frame h d1" using receive_clear [OF r q(3,1)] by blast
  have n1: "node_ok inv contents priv d1" "hub_at contents nk WAITING_FOR_REQUEST d1"
    using h node_rx [OF d1(2)] at_rx [OF d1(2)] by simp_all
  then obtain c where c: "d_ctl d1 = Some c" "ic_type c = HUB" "inclusionModeEnabled c" "protocolState c = WAITING_FOR_REQUEST"
      "d_type d1 = HUB" "contents (d_store d1) NKEY = Some nk"
    by (auto simp: hub_at_def)
  have lib: "ctr_laws lib" "cipher_laws (cl_aes lib)" "sha_laws lib" using env(2) by (simp_all add: lib_laws_def)
  have ops: "e_ops env = ops" "env_lib env = lib" using env(1) by (simp_all add: serves_def)
  have st: "inv (d_store d1)" "contents (d_store d1) PRIV_KEY = Some priv" "devicePrivateKey (n_es (d_net d1)) = priv"
    using n1(1) by (simp_all add: node_ok_def)
  have len: "length priv = 32" "length (p_data q) = 32" "length nk = 32"
    using keypair_length [OF env(2) kp(1)] keypair_length [OF env(2) kp(2)] slot_law [OF st(1) c(6)] by simp_all
  obtain nonce g where nonce: "generateNonce (e_rnd env) (d_rng d1) = (nonce, g)" by (metis surj_pair)
  then have n4: "length nonce = 4" using length_random_bytes [of "e_rnd env" NONCE_SIZE "d_rng d1"] by (simp add: generateNonce_def NONCE_SIZE_def)
  let ?c = "(transitionToState (env_now env) WAITING_FOR_CONFIRMATION c)\<lparr>currentNonce := nonce\<rparr>"
  let ?d2 = "(upd_es (setNetworkKey nk) (upd_es (setTempDevicePublicKey (p_data q)) d1))\<lparr>d_rng := g, d_ctl := Some ?c\<rparr>"
  let ?es = "n_es (d_net ?d2)"
  have es: "tempDevicePublicKey ?es = p_data q" "devicePrivateKey ?es = priv" "networkKey ?es = nk"
    using len st by (simp_all add: setTempDevicePublicKey_def setNetworkKey_def)
  have n2: "node_ok inv contents priv ?d2"
    using n1(1) es_inv_setters(4) [of "n_es (d_net d1)" "p_data q"] es_inv_setters(1) [of "setTempDevicePublicKey (p_data q) (n_es (d_net d1))" nk] es
    by (simp add: node_ok_def ready_def net_inv_def)
  then have air: "on_air env ?d2" using env(1) ready_on_air by (auto simp: node_ok_def)
  let ?k = "cl_sha256 lib sec"
  have ne: "nk @ nonce \<noteq> []" using n4 by auto
  have "\<exists>d' q'. sendData env T_INCLUDE_RESPONSE (nk @ nonce) BROADCAST_ADDR ?d2 = Some (RM_E_NONE, d') \<and> send_frame ?d2 d' \<and>
    sent_frames d' = sent_frames ?d2 @ [toByteBuffer q'] \<and> originated ?d2 T_INCLUDE_RESPONSE BROADCAST_ADDR q' \<and>
    sealed (env_lib env) ?k (box lib ?k (nk @ nonce)) q' \<and> packetCounter d' = packetCounter ?d2 + 1"
  proof (rule sendData_sealed [OF air, where c = ?c])
    show "ic_canSendMessage ?c T_INCLUDE_RESPONSE" using c by (simp add: ic_canSendMessage_def)
    show "length (box lib ?k (nk @ nonce)) \<le> 217" using len n4 by (simp add: length_box [OF lib(1)])
    show "\<exists>a. es_encrypt (env_lib env) ?es (nk @ nonce) T_INCLUDE_RESPONSE (d_type ?d2) (ic_state ?c) (n_aes (d_net ?d2)) =
        Some (box lib ?k (nk @ nonce), a)"
      using es_encrypt_response [OF lib(1,3), of ?es sec "nk @ nonce" "d_type ?d2" "ic_state ?c" "n_aes (d_net ?d2)"]
        es len kp(3) ne ops by simp
    show "getMICKey (env_lib env) (Some ?es) T_INCLUDE_RESPONSE (d_type ?d2) (ic_state ?c) = ?k"
      using micKey_response_hub [of ?es lib sec "ic_state ?c"] es len kp(3) ops c by simp
    show "length ?k = 32" using lib(3) by (simp add: sha_laws_def)
  qed (use len n4 lib ops in \<open>simp_all add: requiresMIC_def\<close>)
  then obtain d3 q' where sd: "sendData env T_INCLUDE_RESPONSE (nk @ nonce) BROADCAST_ADDR ?d2 = Some (RM_E_NONE, d3)" "send_frame ?d2 d3"
      "sent_frames d3 = sent_frames ?d2 @ [toByteBuffer q']" "originated ?d2 T_INCLUDE_RESPONSE BROADCAST_ADDR q'"
      "sealed lib ?k (box lib ?k (nk @ nonce)) q'"
    using ops by auto
  have "getCurrentNetworkKey ops [] (d_store d1) = (RM_E_NONE, nk)"
    using load_after [OF st(1) _ c(6)] by (simp add: getCurrentNetworkKey_def loadNetworkKey_def)
  then have "handleInclusionMessage env q d1 = Some (RM_E_NONE, d3)"
    using c q(2) len ops nonce sd(1)
    by (simp add: handleInclusionMessage_def hub_handleInclusionMessage_def ic_sendInclusionResponse_def ic_isInclusionModeEnabled_def Let_def upd_es_def)
  then have "receive_packet env q h = Some (RM_E_NONE, notify (Some q) RM_E_NONE d3)"
    using d1(1) deliver_inclusion_clear [OF disjI2 [OF q(2)] c(1)] by simp
  moreover have "emits h (notify (Some q) RM_E_NONE d3) (toByteBuffer q')"
    using sd(3) rx_frameD [OF d1(2)] by (simp add: emits_def sent_frames_def)
  moreover have "hub_at contents nk WAITING_FOR_CONFIRMATION d3"
    using at_send(1) [OF sd(2)] c by (simp add: hub_at_def)
  ultimately show ?thesis using node_send [OF sd(2) n2] sd(4,5) n4 send_frameD(1,10) [OF sd(2)] es(3)
    by (fastforce simp: originated_def)
qed

text \<open>A message under the network key: what \<open>sendData\<close> does with it, for a topic of the handshake.\<close>

lemma send_under_network_key:
  assumes env: "serves lib ops env" "lib_laws lib" and d: "ready d" "d_ctl d = Some c" "ic_canSendMessage c topic"
    and key: "networkKey (n_es (d_net d)) = nk" "length nk = 32" and topic: "topic = T_INCLUDE_CONFIRM \<or> topic = T_INCLUDE_SUCCESS"
    and data: "length data \<le> 217"
  shows "\<exists>d' q. sendData env topic data target d = Some (RM_E_NONE, d') \<and> send_frame d d' \<and> emits d d' (toByteBuffer q) \<and>
    p_topic q = topic \<and> p_source q = d_id d \<and> sealed lib nk (box lib nk data) q"
proof -
  have lib: "ctr_laws lib" "cipher_laws (cl_aes lib)" using env(2) by (simp_all add: lib_laws_def)
  have e: "env_lib env = lib" using env(1) by (simp add: serves_def)
  have m: "determineCryptoMethod topic (d_type d) (ic_state c) = M_AES" using topic by (simp add: method_AES_iff)
  have "\<exists>d' q. sendData env topic data target d = Some (RM_E_NONE, d') \<and> send_frame d d' \<and>
    sent_frames d' = sent_frames d @ [toByteBuffer q] \<and> originated d topic target q \<and> sealed (env_lib env) nk (box lib nk data) q \<and>
    packetCounter d' = packetCounter d + 1"
  proof (rule sendData_sealed [OF ready_on_air [OF d(1) env(1)] d(2,3) data])
    show "\<exists>a. es_encrypt (env_lib env) (n_es (d_net d)) data topic (d_type d) (ic_state c) (n_aes (d_net d)) = Some (box lib nk data, a)"
      using es_encrypt_AES [OF m, of "n_es (d_net d)" lib data "n_aes (d_net d)"] key e by simp
    show "getMICKey (env_lib env) (Some (n_es (d_net d))) topic (d_type d) (ic_state c) = nk"
      using micKey_network [OF m] key by simp
  qed (use lib e key data topic length_box [OF lib(1)] box_Nil_iff [OF lib(1)] in \<open>auto simp: requiresMIC_def\<close>)
  then show ?thesis using e by (auto simp: emits_def originated_def)
qed

text \<open>The device takes the network key and the nonce from the response, stores the key, and confirms.\<close>

lemma device_confirms:
  assumes env: "serves lib ops env" "lib_laws lib"
    and com: "commits ops inv"
    and d: "node_ok inv contents priv d" "device_at INCLUSION_PENDING WAITING_FOR_RESPONSE d" "hubPublicKey (n_es (d_net d)) = hub"
    and kp: "keypair_of lib priv pub" "length hub = 32" "cl_curve lib priv hub = Some sec" "length nk = 32" "length nonce = 4"
    and q: "sealed lib (cl_sha256 lib sec) (box lib (cl_sha256 lib sec) (nk @ nonce)) q" "p_topic q = T_INCLUDE_RESPONSE" "fresh q d"
  shows "\<exists>d' q'. receive_packet env q d = Some (RM_E_NONE, d') \<and> emits d d' (toByteBuffer q') \<and> p_topic q' = T_INCLUDE_CONFIRM \<and>
    p_source q' = d_id d \<and> sealed lib nk (box lib nk (numberToBytes ((bytesToNumber nonce :: u32) + 1))) q' \<and> node_ok inv contents priv d' \<and>
    device_at INCLUSION_PENDING WAITING_FOR_SUCCESS d' \<and> networkKey (n_es (d_net d')) = nk \<and> contents (d_store d') NKEY = Some nk"
proof -
  let ?k = "cl_sha256 lib sec" and ?es = "n_es (d_net d)"
  have lib: "ctr_laws lib" "cipher_laws (cl_aes lib)" "sha_laws lib" using env(2) by (simp_all add: lib_laws_def)
  have ops: "e_ops env = ops" "env_lib env = lib" using env(1) by (simp_all add: serves_def)
  have k32: "length ?k = 32" using lib(3) by (simp add: sha_laws_def)
  have st: "devicePrivateKey ?es = priv" "length priv = 32" "d_type d = STANDARD"
    using d keypair_length [OF env(2) kp(1)] by (simp_all add: node_ok_def device_at_def)
  have mic: "getMICKey (env_lib env) (Some ?es) (p_topic q) (d_type d) (state_or_not_included d) = ?k"
    using micKey_response_device [of ?es lib sec "d_type d" "state_or_not_included d"] st d(3) kp ops q(2) by simp
  have r: "net_inv (d_net d)" "ra_module (n_radio (d_net d))" using d(1) by (simp_all add: node_ok_def ready_def)
  have lq: "cipher_laws (cl_aes (env_lib env))" "sealed (env_lib env) ?k (box lib ?k (nk @ nonce)) q" using lib ops q by simp_all
  obtain d1 where d1: "receive_packet env q d = deliver env (q\<lparr>p_data := box lib ?k (nk @ nonce)\<rparr>) d1" "rx_frame d d1"
    using receive_sealed [OF r q(3) lq mic k32] by blast
  have n1: "node_ok inv contents priv d1" "device_at INCLUSION_PENDING WAITING_FOR_RESPONSE d1"
    using d node_rx [OF d1(2)] at_rx [OF d1(2)] by simp_all
  then obtain c where c: "d_ctl d1 = Some c" "ic_type c = STANDARD" "ic_state c = INCLUSION_PENDING"
      "protocolState c = WAITING_FOR_RESPONSE" "d_type d1 = STANDARD"
    by (auto simp: device_at_def)
  have es1: "n_es (d_net d1) = ?es" using rx_frameD [OF d1(2)] by simp
  let ?aes = "aes_with ?k (n_aes (d_net d1))"
  let ?d2 = "d1\<lparr>d_net := (d_net d1)\<lparr>n_aes := ?aes\<rparr>\<rparr>"
  have ne: "box lib ?k (nk @ nonce) \<noteq> []" using kp(5) box_Nil_iff [OF lib(1)] by auto
  have dec: "device_decrypt env (q\<lparr>p_data := box lib ?k (nk @ nonce)\<rparr>) d1 = Some (q\<lparr>p_data := nk @ nonce\<rparr>, ?d2)"
    using es_decrypt_response [OF lib(3) _ _ _ ne, of "n_es (d_net d1)" sec "getState c" "n_aes (d_net d1)"]
      st d(3) kp c ops q(2) es1 lib(1)
    by (simp add: device_decrypt_def)
  have inv1: "inv (d_store d1)" "contents (d_store d1) PRIV_KEY = Some priv" using n1(1) by (simp_all add: node_ok_def)
  obtain rcw s where w: "km_setNetworkKey ops nk (d_store d1) = (rcw, s)" by fastforce
  have kw: "inv s" "contents s = (contents (d_store d1))(NKEY \<mapsto> nk)" "rcw = RM_E_NONE"
    using km_setNetworkKey_law [OF inv1(1) slot_length_simps(3) w] kp(4) w
      com [unfolded commits_def, rule_format, of "d_store d1" NKEY nk] inv1(1)
    by (auto simp: km_setNetworkKey_def km_persistNetworkKey_def persistNetworkKey_def validateNetworkKey_def
        NETWORK_KEY_SIZE_def split: if_splits prod.splits)
  let ?c = "transitionToState (env_now env) WAITING_FOR_SUCCESS (c\<lparr>currentNonce := nonce\<rparr>)"
  let ?d3 = "upd_es (setNetworkKey nk) (?d2\<lparr>d_store := s, d_ctl := Some ?c\<rparr>)"
  have "NKEY \<noteq> PRIV_KEY" by (simp add: device_keys)
  then have n3: "node_ok inv contents priv ?d3"
    using n1(1) kw(1,2) es_inv_setters(1) [of "n_es (d_net d1)" nk] by (simp add: node_ok_def ready_def net_inv_def setNetworkKey_def)
  then have rd3: "ready ?d3" by (simp add: node_ok_def)
  let ?x = "numberToBytes ((bytesToNumber nonce :: u32) + 1)"
  have can: "ic_canSendMessage ?c T_INCLUDE_CONFIRM" by (simp add: ic_canSendMessage_def isInclusionTopic_iff)
  have nk3: "networkKey (n_es (d_net ?d3)) = nk" by (simp add: setNetworkKey_def)
  obtain d4 q' where sd: "sendData env T_INCLUDE_CONFIRM ?x BROADCAST_ADDR ?d3 = Some (RM_E_NONE, d4)" "send_frame ?d3 d4"
      "emits ?d3 d4 (toByteBuffer q')" "p_topic q' = T_INCLUDE_CONFIRM" "p_source q' = d_id ?d3" "sealed lib nk (box lib nk ?x) q'"
    using send_under_network_key [OF env rd3 _ can nk3 kp(4), of ?x BROADCAST_ADDR] by auto
  have "handleInclusionMessage env (q\<lparr>p_data := nk @ nonce\<rparr>) ?d2 = Some (RM_E_NONE, d4)"
    using c q(2) kp(4,5) ops w kw(3) sd(1)
    by (simp add: handleInclusionMessage_def device_handleResponse_def ic_sendInclusionConfirm_def Let_def)
  then have "receive_packet env q d = Some (RM_E_NONE, notify (Some (q\<lparr>p_data := nk @ nonce\<rparr>)) RM_E_NONE d4)"
    using d1(1) dec q(2) by (simp add: deliver_def isInclusionMessage_def)
  moreover have "emits d (notify (Some (q\<lparr>p_data := nk @ nonce\<rparr>)) RM_E_NONE d4) (toByteBuffer q')"
    using sd(3) rx_frameD [OF d1(2)] by (simp add: emits_def sent_frames_def)
  moreover have "device_at INCLUSION_PENDING WAITING_FOR_SUCCESS d4"
    using at_send(2) [OF sd(2)] c by (simp add: device_at_def)
  moreover have "contents (d_store d4) NKEY = Some nk" using send_frameD(2) [OF sd(2)] kw(2) by simp
  ultimately show ?thesis using node_send [OF sd(2) n3] sd(4-6) send_frameD(10) [OF sd(2)] nk3
      rx_frameD(3) [OF d1(2)] by auto
qed

text \<open>The hub accepts the confirmation that carries its nonce plus one, returns to idle and reports success.\<close>

lemma hub_completes:
  assumes env: "serves lib ops env" "lib_laws lib"
    and h: "node_ok inv contents priv h" "hub_at contents nk WAITING_FOR_CONFIRMATION h" "networkKey (n_es (d_net h)) = nk"
      "d_ctl h = Some c" "currentNonce c = nonce"
    and q: "sealed lib nk (box lib nk (numberToBytes ((bytesToNumber nonce :: u32) + 1))) q" "p_topic q = T_INCLUDE_CONFIRM" "fresh q h"
  shows "\<exists>h' q'. receive_packet env q h = Some (RM_E_NONE, h') \<and> emits h h' (toByteBuffer q') \<and> p_topic q' = T_INCLUDE_SUCCESS \<and>
    sealed lib nk [] q' \<and> node_ok inv contents priv h' \<and> hub_at contents nk PROTOCOL_IDLE h' \<and> networkKey (n_es (d_net h')) = nk"
proof -
  let ?x = "numberToBytes ((bytesToNumber nonce :: u32) + 1)"
  have lib: "ctr_laws lib" "cipher_laws (cl_aes lib)" using env(2) by (simp_all add: lib_laws_def)
  have ops: "e_ops env = ops" "env_lib env = lib" using env(1) by (simp_all add: serves_def)
  have r: "net_inv (d_net h)" "ra_module (n_radio (d_net h))" using h(1) by (simp_all add: node_ok_def ready_def)
  have len: "length nk = 32" using slot_law [of "d_store h" NKEY nk] h by (simp add: node_ok_def hub_at_def)
  have mic: "getMICKey (env_lib env) (Some (n_es (d_net h))) (p_topic q) (d_type h) (state_or_not_included h) = nk"
    using h(3) q(2) by (simp add: getMICKey_def)
  have lq: "cipher_laws (cl_aes (env_lib env))" "sealed (env_lib env) nk (box lib nk ?x) q" using lib ops q by simp_all
  obtain d1 where d1: "receive_packet env q h = deliver env (q\<lparr>p_data := box lib nk ?x\<rparr>) d1" "rx_frame h d1"
    using receive_sealed [OF r q(3) lq mic len] by blast
  have n1: "node_ok inv contents priv d1" "hub_at contents nk WAITING_FOR_CONFIRMATION d1" "networkKey (n_es (d_net d1)) = nk" "d_ctl d1 = Some c"
    using h node_rx [OF d1(2)] at_rx [OF d1(2)] rx_frameD [OF d1(2)] by simp_all
  then have c: "ic_type c = HUB" "inclusionModeEnabled c" "protocolState c = WAITING_FOR_CONFIRMATION" "d_type d1 = HUB"
      "contents (d_store d1) NKEY = Some nk"
    by (auto simp: hub_at_def)
  have ne: "box lib nk ?x \<noteq> []" by (simp add: box_Nil_iff [OF lib(1)]) (simp add: numberToBytes_u32)
  obtain aes where dl: "deliver env (q\<lparr>p_data := box lib nk ?x\<rparr>) d1 =
      do { (result, d2) \<leftarrow> handleInclusionMessage env (q\<lparr>p_data := ?x\<rparr>) (d1\<lparr>d_net := (d_net d1)\<lparr>n_aes := aes\<rparr>\<rparr>);
           Some (result, notify (Some (q\<lparr>p_data := ?x\<rparr>)) RM_E_NONE d2) }"
    using deliver_inclusion_AES [of "q\<lparr>p_data := box lib nk ?x\<rparr>" d1 c env] q(2) n1 len ne ops lib(1) by auto
  let ?c = "transitionToState (env_now env) PROTOCOL_IDLE c"
  let ?d2 = "d1\<lparr>d_net := (d_net d1)\<lparr>n_aes := aes\<rparr>, d_ctl := Some ?c\<rparr>"
  have n2: "node_ok inv contents priv ?d2" using n1(1) by (simp add: node_ok_def ready_def net_inv_def)
  then have rd: "ready ?d2" by (simp add: node_ok_def)
  have can: "ic_canSendMessage ?c T_INCLUDE_SUCCESS" using c by (simp add: ic_canSendMessage_def)
  have nk2: "networkKey (n_es (d_net ?d2)) = nk" using n1(3) by simp
  obtain d3 q' where sd: "sendData env T_INCLUDE_SUCCESS [] BROADCAST_ADDR ?d2 = Some (RM_E_NONE, d3)" "send_frame ?d2 d3"
      "emits ?d2 d3 (toByteBuffer q')" "p_topic q' = T_INCLUDE_SUCCESS" "sealed lib nk (box lib nk []) q'"
    using send_under_network_key [OF env rd _ can nk2 len, of "[]" BROADCAST_ADDR] by auto
  have "handleInclusionMessage env (q\<lparr>p_data := ?x\<rparr>) (d1\<lparr>d_net := (d_net d1)\<lparr>n_aes := aes\<rparr>\<rparr>) = Some (RM_E_NONE, d3)"
    using c q(2) h(5) n1(4) sd(1)
    by (simp add: handleInclusionMessage_def hub_handleInclusionMessage_def ic_sendInclusionSuccess_def)
  then have "receive_packet env q h = Some (RM_E_NONE, notify (Some (q\<lparr>p_data := ?x\<rparr>)) RM_E_NONE d3)"
    using d1(1) dl by simp
  moreover have "emits h (notify (Some (q\<lparr>p_data := ?x\<rparr>)) RM_E_NONE d3) (toByteBuffer q')"
    using sd(3) rx_frameD [OF d1(2)] by (simp add: emits_def sent_frames_def)
  moreover have "hub_at contents nk PROTOCOL_IDLE d3" using at_send(1) [OF sd(2)] c by (simp add: hub_at_def)
  moreover have "sealed lib nk [] q'" using sd(5) box_Nil_iff [OF lib(1), of nk "[]"] by simp
  ultimately show ?thesis using node_send [OF sd(2) n2] sd(4) send_frameD(10) [OF sd(2)] nk2 by auto
qed


text \<open>With the success message the device is included, in controller and store.\<close>

lemma device_included:
  assumes env: "serves lib ops env" "lib_laws lib" and com: "commits ops inv"
    and d: "node_ok inv contents priv d" "device_at INCLUSION_PENDING WAITING_FOR_SUCCESS d"
      "networkKey (n_es (d_net d)) = nk" "contents (d_store d) NKEY = Some nk"
    and q: "sealed lib nk [] q" "p_topic q = T_INCLUDE_SUCCESS" "fresh q d"
  shows "\<exists>d'. receive_packet env q d = Some (RM_E_NONE, d') \<and> node_ok inv contents priv d' \<and>
    device_at INCLUDED PROTOCOL_IDLE d' \<and> networkKey (n_es (d_net d')) = nk \<and> contents (d_store d') NKEY = Some nk \<and>
    contents (d_store d') STATE_KEY = Some [inclusion_state_code INCLUDED]"
proof -
  have lib: "ctr_laws lib" "cipher_laws (cl_aes lib)" using env(2) by (simp_all add: lib_laws_def)
  have ops: "e_ops env = ops" "env_lib env = lib" using env(1) by (simp_all add: serves_def)
  have r: "net_inv (d_net d)" "ra_module (n_radio (d_net d))" using d(1) by (simp_all add: node_ok_def ready_def)
  have len: "length nk = 32" using slot_law [of "d_store d" NKEY nk] d by (simp add: node_ok_def)
  have mic: "getMICKey (env_lib env) (Some (n_es (d_net d))) (p_topic q) (d_type d) (state_or_not_included d) = nk"
    using d(3) q(2) by (simp add: getMICKey_def)
  have lq: "cipher_laws (cl_aes (env_lib env))" "sealed (env_lib env) nk [] q" using lib ops q by simp_all
  obtain d1 where d1: "receive_packet env q d = deliver env (q\<lparr>p_data := []\<rparr>) d1" "rx_frame d d1"
    using receive_sealed [OF r q(3) lq mic len] by blast
  have n1: "node_ok inv contents priv d1" "device_at INCLUSION_PENDING WAITING_FOR_SUCCESS d1" "networkKey (n_es (d_net d1)) = nk"
      "contents (d_store d1) NKEY = Some nk"
    using d node_rx [OF d1(2)] at_rx [OF d1(2)] rx_frameD [OF d1(2)] by simp_all
  then obtain c where c: "d_ctl d1 = Some c" "ic_type c = STANDARD" "ic_state c = INCLUSION_PENDING"
      "protocolState c = WAITING_FOR_SUCCESS" "d_type d1 = STANDARD"
    by (auto simp: device_at_def)
  obtain aes where dl: "deliver env (q\<lparr>p_data := []\<rparr>) d1 =
      do { (result, d2) \<leftarrow> handleInclusionMessage env (q\<lparr>p_data := []\<rparr>) (d1\<lparr>d_net := (d_net d1)\<lparr>n_aes := aes\<rparr>\<rparr>);
           Some (result, notify (Some (q\<lparr>p_data := []\<rparr>)) RM_E_NONE d2) }"
    using deliver_inclusion_AES [of "q\<lparr>p_data := []\<rparr>" d1 c env] q(2) n1 len c(1) by auto
  have inv1: "inv (d_store d1)" "contents (d_store d1) PRIV_KEY = Some priv" using n1(1) by (simp_all add: node_ok_def)
  let ?s = "snd (persistState ops INCLUDED (d_store d1))"
  have s: "inv ?s" "contents ?s = (contents (d_store d1))(STATE_KEY \<mapsto> [inclusion_state_code INCLUDED])"
    using bs_keep [OF inv1(1), of STATE_KEY "[inclusion_state_code INCLUDED]"] by (simp_all add: persistState_def)
  have keys: "STATE_KEY \<noteq> NKEY" "STATE_KEY \<noteq> PRIV_KEY" by (simp_all add: device_keys)
  have load: "getCurrentNetworkKey ops [] ?s = (RM_E_NONE, nk)"
    using load_after [OF s(1), of NKEY nk "[]"] s(2) n1(4) keys by (simp add: getCurrentNetworkKey_def loadNetworkKey_def)
  let ?c = "transitionToState (env_now env) PROTOCOL_IDLE (c\<lparr>ic_state := INCLUDED\<rparr>)"
  let ?d2 = "d1\<lparr>d_net := (d_net d1)\<lparr>n_aes := aes\<rparr>, d_store := ?s, d_ctl := Some ?c\<rparr>"
  let ?d3 = "snd (updateSecurityParams \<lparr>sp_key = nk, sp_iv = replicate 16 0, sp_method = SEC_AES\<rparr> ?d2)"
  have "handleInclusionMessage env (q\<lparr>p_data := []\<rparr>) (d1\<lparr>d_net := (d_net d1)\<lparr>n_aes := aes\<rparr>\<rparr>) = Some (RM_E_NONE, ?d3)"
    using c q(2) ops load by (simp add: handleInclusionMessage_def device_handleSuccess_def Let_def)
  then have rc: "receive_packet env q d = Some (RM_E_NONE, notify (Some (q\<lparr>p_data := []\<rparr>)) RM_E_NONE ?d3)"
    using d1(1) dl by simp
  have net: "n_es (d_net ?d3) = setNetworkKey nk (n_es (d_net d1))" "ready ?d3 = ready (upd_es (setNetworkKey nk) d1)"
    by (simp_all add: updateSecurityParams_def Let_def ready_def net_inv_def)
  moreover have "ready (upd_es (setNetworkKey nk) d1)"
    using n1(1) es_inv_setters(1) [of "n_es (d_net d1)" nk] by (simp add: node_ok_def ready_def net_inv_def)
  ultimately have "node_ok inv contents priv ?d3"
    using n1(1) s keys inv1(2) by (simp add: node_ok_def setNetworkKey_def)
  moreover have "device_at INCLUDED PROTOCOL_IDLE ?d3" using c by (simp add: device_at_def)
  moreover have "networkKey (n_es (d_net ?d3)) = nk" by (simp add: net(1) setNetworkKey_def)
  moreover have "d_store ?d3 = ?s" by simp
  ultimately show ?thesis using rc s(2) keys n1(4)
    by (intro exI [of _ "notify (Some (q\<lparr>p_data := []\<rparr>)) RM_E_NONE ?d3"]) simp
qed

end

section \<open>The handshake\<close>

lemma included_networked:
  "device_at INCLUDED st d \<Longrightarrow> networkKey (n_es (d_net d)) = nk \<Longrightarrow> length nk = 32 \<Longrightarrow> networked d nk"
  by (auto simp: networked_def device_at_def)

lemma hub_networked:
  "hub_at contents nk st h \<Longrightarrow> networkKey (n_es (d_net h)) = nk \<Longrightarrow> length nk = 32 \<Longrightarrow> networked h nk"
  by (auto simp: networked_def hub_at_def)

text \<open>The five frames as they are heard, each with what follows if all goes on well.\<close>

context device_store
begin

lemma open_heard:
  assumes env: "serves lib ops env" "lib_laws lib" and d: "node_ok inv contents priv d" "device_at NOT_INCLUDED PROTOCOL_IDLE d"
    and kp: "keypair_of lib priv pub" and q: "clear q" "p_topic q = T_INCLUDE_OPEN" "length (p_data q) = 32"
    and P: "\<And>d' q'. emits d d' (toByteBuffer q') \<Longrightarrow> awaits_response inv contents priv (p_data q) d' \<Longrightarrow> clear q' \<Longrightarrow>
      p_topic q' = T_INCLUDE_REQUEST \<Longrightarrow> p_data q' = pub \<Longrightarrow> P d'"
  shows "heard env (toByteBuffer q) d P"
  using device_invited [OF env d kp q] P unfolding awaits_response_def by (intro heardI) blast

lemma request_heard:
  assumes env: "serves lib ops env" "lib_laws lib" and h: "node_ok inv contents priv h" "hub_at contents nk WAITING_FOR_REQUEST h"
    and kp: "keypair_of lib priv pub" "keypair_of lib dpriv (p_data q)" "cl_curve lib priv (p_data q) = Some sec"
    and q: "clear q" "p_topic q = T_INCLUDE_REQUEST"
    and P: "\<And>h' q' nonce. emits h h' (toByteBuffer q') \<Longrightarrow> awaits_confirmation inv contents priv nk nonce h' \<Longrightarrow>
      p_topic q' = T_INCLUDE_RESPONSE \<Longrightarrow> length nonce = 4 \<Longrightarrow>
      sealed lib (cl_sha256 lib sec) (box lib (cl_sha256 lib sec) (nk @ nonce)) q' \<Longrightarrow> P h'"
  shows "heard env (toByteBuffer q) h P"
  using hub_answers [OF env h kp q] P unfolding awaits_confirmation_def by (intro heardI) blast

lemma response_heard:
  assumes env: "serves lib ops env" "lib_laws lib" and com: "commits ops inv" and d: "awaits_response inv contents priv hub d"
    and kp: "keypair_of lib priv pub" "length hub = 32" "cl_curve lib priv hub = Some sec" "length nk = 32" "length nonce = 4"
    and q: "sealed lib (cl_sha256 lib sec) (box lib (cl_sha256 lib sec) (nk @ nonce)) q" "p_topic q = T_INCLUDE_RESPONSE"
    and P: "\<And>d' q'. emits d d' (toByteBuffer q') \<Longrightarrow> awaits_success inv contents priv nk d' \<Longrightarrow> p_topic q' = T_INCLUDE_CONFIRM \<Longrightarrow>
      sealed lib nk (box lib nk (numberToBytes ((bytesToNumber nonce :: u32) + 1))) q' \<Longrightarrow> P d'"
  shows "heard env (toByteBuffer q) d P"
  using device_confirms [OF env com _ _ _ kp q] d P unfolding awaits_response_def awaits_success_def by (intro heardI) blast

lemma confirm_heard:
  assumes env: "serves lib ops env" "lib_laws lib" and h: "awaits_confirmation inv contents priv nk nonce h"
    and q: "sealed lib nk (box lib nk (numberToBytes ((bytesToNumber nonce :: u32) + 1))) q" "p_topic q = T_INCLUDE_CONFIRM"
    and P: "\<And>h' q'. emits h h' (toByteBuffer q') \<Longrightarrow> hub_at contents nk PROTOCOL_IDLE h' \<Longrightarrow> networked h' nk \<Longrightarrow> on_air env h' \<Longrightarrow>
      p_topic q' = T_INCLUDE_SUCCESS \<Longrightarrow> sealed lib nk [] q' \<Longrightarrow> P h'"
  shows "heard env (toByteBuffer q) h P"
proof (rule heardI)
  assume "fresh q h"
  then obtain h' q' where h': "receive_packet env q h = Some (RM_E_NONE, h')" "emits h h' (toByteBuffer q')" "p_topic q' = T_INCLUDE_SUCCESS"
      "sealed lib nk [] q'" "node_ok inv contents priv h'" "hub_at contents nk PROTOCOL_IDLE h'" "networkKey (n_es (d_net h')) = nk"
    using hub_completes [OF env _ _ _ _ _ q] h unfolding awaits_confirmation_def by blast
  have "length nk = 32" using slot_law [of "d_store h'" NKEY nk] h'(5,6) by (simp add: node_ok_def hub_at_def)
  from hub_networked [OF h'(6,7) this] have "networked h' nk" .
  moreover have "on_air env h'" using h'(5) ready_on_air [OF _ env(1)] by (simp add: node_ok_def)
  ultimately show "\<exists>h'. receive_packet env q h = Some (RM_E_NONE, h') \<and> P h'" using P h' by blast
qed

end

text \<open>A device that was included restores its key and its state from its store.\<close>

lemma included_loads:
  assumes "node_ok (eeprom_inv L ol) (eeprom_contents L) priv d" "eeprom_contents L (d_store d) NKEY = Some nk"
    and "eeprom_contents L (d_store d) STATE_KEY = Some [inclusion_state_code INCLUDED]"
  shows "loadNetworkKey (eeprom_ops L) [] (d_store d) = (RM_E_NONE, nk)"
    "loadState (eeprom_ops L) NOT_INCLUDED (d_store d) = (RM_E_NONE, INCLUDED)"
  using eeprom.load_after [of L ol "d_store d"] assms
  by (simp_all add: node_ok_def loadNetworkKey_def loadState_def inclusion_state_of_byte_code named_state_def del: inclusion_state_code.simps)

lemma success_heard:
  assumes env: "serves lib (eeprom_ops L) env" "lib_laws lib" and com: "commits (eeprom_ops L) (eeprom_inv L ol)"
    and d: "awaits_success (eeprom_inv L ol) (eeprom_contents L) priv nk d" and len: "length nk = 32"
    and q: "sealed lib nk [] q" "p_topic q = T_INCLUDE_SUCCESS"
  shows "heard env (toByteBuffer q) d (\<lambda>d'. device_at INCLUDED PROTOCOL_IDLE d' \<and> networked d' nk \<and> on_air env d' \<and>
    loadNetworkKey (eeprom_ops L) [] (d_store d') = (RM_E_NONE, nk) \<and> loadState (eeprom_ops L) NOT_INCLUDED (d_store d') = (RM_E_NONE, INCLUDED))"
proof (rule heardI)
  assume "fresh q d"
  then obtain d' where d': "receive_packet env q d = Some (RM_E_NONE, d')" "node_ok (eeprom_inv L ol) (eeprom_contents L) priv d'"
      "device_at INCLUDED PROTOCOL_IDLE d'" "networkKey (n_es (d_net d')) = nk" "eeprom_contents L (d_store d') NKEY = Some nk"
      "eeprom_contents L (d_store d') STATE_KEY = Some [inclusion_state_code INCLUDED]"
    using node.device_included [OF env com _ _ _ _ q] d unfolding awaits_success_def by blast
  then show "\<exists>d'. receive_packet env q d = Some (RM_E_NONE, d') \<and> device_at INCLUDED PROTOCOL_IDLE d' \<and> networked d' nk \<and> on_air env d' \<and>
    loadNetworkKey (eeprom_ops L) [] (d_store d') = (RM_E_NONE, nk) \<and> loadState (eeprom_ops L) NOT_INCLUDED (d_store d') = (RM_E_NONE, INCLUDED)"
    using included_loads [OF d'(2,5,6)] included_networked [OF d'(3,4) len] ready_on_air [OF _ env(1)] by (auto simp: node_ok_def)
qed

text \<open>C2: The inclusion protocol does what it is for: a hub in inclusion mode and a standard device that
  is not included, which share nothing but the air, need five frames to share the hub's network key.
  Whatever the clocks and random sources give, each frame that the other side hears and does not take
  for a duplicate is handled without an error and answered by the next one, and after the fifth the
  device is included and idle, the hub is idle, both hold the same network key, the device has stored
  the key and the new state, and application messages can pass between them (\<open>message_end_to_end\<close>).\<close>

theorem handshake_completes:
  fixes Lh :: "'e eeprom_lib" and Ld :: "'f eeprom_lib"
  assumes lib: "lib_laws lib" and envs: "\<forall>e \<in> {e1, e3, e5}. serves lib (eeprom_ops Lh) e" "\<forall>e \<in> {e2, e4, e6}. serves lib (eeprom_ops Ld) e"
    and durable: "\<And>m. fst (ee_commit Ld m)"
    and hub: "node_ok (eeprom_inv Lh oh) (eeprom_contents Lh) hpriv h" "hub_at (eeprom_contents Lh) nk st h" "keypair_of lib hpriv hpub"
    and dev: "node_ok (eeprom_inv Ld od) (eeprom_contents Ld) dpriv d" "device_at NOT_INCLUDED PROTOCOL_IDLE d" "keypair_of lib dpriv dpub"
  shows "\<exists>h1 f1. sendInclusionOpen e1 h = Some (RM_E_NONE, h1) \<and> emits h h1 f1 \<and>
    heard e2 f1 d (\<lambda>d1. \<exists>f2. emits d d1 f2 \<and>
    heard e3 f2 h1 (\<lambda>h2. \<exists>f3. emits h1 h2 f3 \<and>
    heard e4 f3 d1 (\<lambda>d2. \<exists>f4. emits d1 d2 f4 \<and>
    heard e5 f4 h2 (\<lambda>h3. \<exists>f5. emits h2 h3 f5 \<and>
    heard e6 f5 d2 (\<lambda>d3. device_at INCLUDED PROTOCOL_IDLE d3 \<and> hub_at (eeprom_contents Lh) nk PROTOCOL_IDLE h3 \<and>
      networked d3 nk \<and> networked h3 nk \<and> on_air e6 d3 \<and> on_air e5 h3 \<and>
      loadNetworkKey (eeprom_ops Ld) [] (d_store d3) = (RM_E_NONE, nk) \<and>
      loadState (eeprom_ops Ld) NOT_INCLUDED (d_store d3) = (RM_E_NONE, INCLUDED))))))"
    (is "\<exists>h1 f1. _ \<and> _ \<and> heard _ _ _ (?P2 h1)")
proof -
  have e: "serves lib (eeprom_ops Lh) e1" "serves lib (eeprom_ops Lh) e3" "serves lib (eeprom_ops Lh) e5"
      "serves lib (eeprom_ops Ld) e2" "serves lib (eeprom_ops Ld) e4" "serves lib (eeprom_ops Ld) e6"
    using envs by simp_all
  have com: "commits (eeprom_ops Ld) (eeprom_inv Ld od)" by (rule eeprom_commits) (rule durable)
  have len: "length hpub = 32" "length dpub = 32" "length nk = 32"
    using keypair_length [OF lib] hub(3) dev(3) eeprom.slot_law [of Lh oh "d_store h" NKEY nk] hub(1,2)
    by (auto simp: node_ok_def hub_at_def)
  obtain sec where sec: "cl_curve lib hpriv dpub = Some sec" "cl_curve lib dpriv hpub = Some sec"
    using agreement [OF lib hub(3) dev(3)] by blast
  obtain h1 q1 where 1: "sendInclusionOpen e1 h = Some (RM_E_NONE, h1)" "emits h h1 (toByteBuffer q1)" "clear q1"
      "p_topic q1 = T_INCLUDE_OPEN" "p_data q1 = hpub" "node_ok (eeprom_inv Lh oh) (eeprom_contents Lh) hpriv h1"
      "hub_at (eeprom_contents Lh) nk WAITING_FOR_REQUEST h1"
    using node.hub_opens [OF e(1) lib hub] by blast
  have "heard e2 (toByteBuffer q1) d (?P2 h1)"
  proof (rule node.open_heard [OF e(4) lib dev 1(3,4)])
    fix d1 q2 assume d1: "emits d d1 (toByteBuffer q2)" "awaits_response (eeprom_inv Ld od) (eeprom_contents Ld) dpriv (p_data q1) d1"
      "clear q2" "p_topic q2 = T_INCLUDE_REQUEST" "p_data q2 = dpub"
    have kp: "keypair_of lib dpriv (p_data q2)" "cl_curve lib hpriv (p_data q2) = Some sec" using dev(3) sec(1) d1(5) by simp_all
    show "?P2 h1 d1" (is "\<exists>f2. _ \<and> heard _ _ _ ?P3")
    proof (intro exI conjI, rule d1(1), rule node.request_heard [OF e(2) lib 1(6,7) hub(3) kp d1(3,4)])
      fix h2 q3 nonce assume h2: "emits h1 h2 (toByteBuffer q3)" "awaits_confirmation (eeprom_inv Lh oh) (eeprom_contents Lh) hpriv nk nonce h2"
        "p_topic q3 = T_INCLUDE_RESPONSE" "length nonce = 4" "sealed lib (cl_sha256 lib sec) (box lib (cl_sha256 lib sec) (nk @ nonce)) q3"
      show "?P3 h2" (is "\<exists>f3. _ \<and> heard _ _ _ ?P4")
      proof (intro exI conjI, rule h2(1), rule node.response_heard [OF e(5) lib com d1(2) [unfolded 1(5)] dev(3) len(1) sec(2) len(3) h2(4,5,3)])
        fix d2 q4 assume d2: "emits d1 d2 (toByteBuffer q4)" "awaits_success (eeprom_inv Ld od) (eeprom_contents Ld) dpriv nk d2"
          "p_topic q4 = T_INCLUDE_CONFIRM" "sealed lib nk (box lib nk (numberToBytes ((bytesToNumber nonce :: u32) + 1))) q4"
        show "?P4 d2" (is "\<exists>f4. _ \<and> heard _ _ _ ?P5")
        proof (intro exI conjI, rule d2(1), rule node.confirm_heard [OF e(3) lib h2(2) d2(4,3)])
          fix h3 q5 assume h3: "emits h2 h3 (toByteBuffer q5)" "hub_at (eeprom_contents Lh) nk PROTOCOL_IDLE h3" "networked h3 nk" "on_air e5 h3"
            "p_topic q5 = T_INCLUDE_SUCCESS" "sealed lib nk [] q5"
          show "?P5 h3"
            by (intro exI conjI, rule h3(1), rule heard_mono [OF success_heard [OF e(6) lib com d2(2) len(3) h3(6,5)]]) (use h3 in simp)
        qed
      qed
    qed
  qed (use 1(5) len(1) in simp)
  then show ?thesis using 1(1,2) by blast
qed

section \<open>Concrete nodes\<close>

definition toy_node_store :: "bytes \<Rightarrow> bytes storage" where
  "toy_node_store priv = snd (persistPrivateKey (eeprom_ops ram_eeprom) priv (ram_storage 1024))"

definition toy_hub_store :: "bytes storage" where
  "toy_hub_store = snd (persistNetworkKey (eeprom_ops ram_eeprom) (replicate 32 5) (toy_node_store (replicate 32 1)))"

definition toy_node :: "device_type \<Rightarrow> controller \<Rightarrow> bytes \<Rightarrow> bytes storage \<Rightarrow> bytes storage device" where
  "toy_node dt c priv s = upd_es (setDeviceKeys priv priv) ((toy_dev dt s)\<lparr>d_ctl := Some c\<rparr>)"

lemma toy_lib_laws: "lib_laws toy_lib"
proof -
  have "keypair_of toy_lib = toy_keypair" by (auto simp: keypair_of_def toy_keypair_def toy_lib_def fun_eq_iff)
  then show ?thesis by (simp add: lib_laws_def toy_ctr_laws toy_cl_aes toy_sha_laws toy_ecdh_laws)
qed

lemma toy_serves: "serves toy_lib (eeprom_ops ram_eeprom) toy_env"
  using toy_accepting by (simp add: serves_def toy_env_def toy_world_def)

lemma toy_node_store_ok:
  assumes "length priv = 32"
  shows "eeprom_inv ram_eeprom ram_opened (toy_node_store priv)" "eeprom_contents ram_eeprom (toy_node_store priv) PRIV_KEY = Some priv"
  using eeprom.bs_keep [OF ram_device_inv, of PRIV_KEY priv] assms by (simp_all add: toy_node_store_def persistPrivateKey_def)

lemma toy_hub_store_ok:
  "eeprom_inv ram_eeprom ram_opened toy_hub_store" "eeprom_contents ram_eeprom toy_hub_store PRIV_KEY = Some (replicate 32 1)"
  "eeprom_contents ram_eeprom toy_hub_store NKEY = Some (replicate 32 5)"
proof -
  have k: "NKEY \<noteq> PRIV_KEY" by (simp add: device_keys)
  note st = toy_node_store_ok [of "replicate 32 1", simplified]
  note h = eeprom.bs_keep [OF st(1), of NKEY "replicate 32 5"]
  show "eeprom_inv ram_eeprom ram_opened toy_hub_store" "eeprom_contents ram_eeprom toy_hub_store PRIV_KEY = Some (replicate 32 1)"
    "eeprom_contents ram_eeprom toy_hub_store NKEY = Some (replicate 32 5)"
    using h st(2) k by (simp_all add: toy_hub_store_def persistNetworkKey_def)
qed

lemma toy_node_ok:
  assumes "length priv = 32" and "eeprom_inv ram_eeprom ram_opened s" and "eeprom_contents ram_eeprom s PRIV_KEY = Some priv"
  shows "node_ok (eeprom_inv ram_eeprom ram_opened) (eeprom_contents ram_eeprom) priv (toy_node dt c priv s)"
proof -
  have "net_inv (d_net (toy_node dt c priv s))"
    using toy_net_inv es_inv_setters(2) [OF es_inv_init, of priv priv]
    by (simp add: net_inv_def toy_node_def toy_dev_def RadioMeshDevice_def upd_es_def)
  then show ?thesis
    using assms by (simp add: node_ok_def ready_def toy_node_def toy_dev_def RadioMeshDevice_def toy_net_def setDeviceKeys_def)
qed

theorem handshake_completes_witness:
  "let h = toy_node HUB ((fresh_controller INCLUDED HUB)\<lparr>inclusionModeEnabled := True\<rparr>) (replicate 32 1) toy_hub_store;
       d = toy_node STANDARD (fresh_controller NOT_INCLUDED STANDARD) (replicate 32 2) (toy_node_store (replicate 32 2))
   in \<exists>h1 f1. sendInclusionOpen toy_env h = Some (RM_E_NONE, h1) \<and> emits h h1 f1 \<and>
    heard toy_env f1 d (\<lambda>d1. \<exists>f2. emits d d1 f2 \<and>
    heard toy_env f2 h1 (\<lambda>h2. \<exists>f3. emits h1 h2 f3 \<and>
    heard toy_env f3 d1 (\<lambda>d2. \<exists>f4. emits d1 d2 f4 \<and>
    heard toy_env f4 h2 (\<lambda>h3. \<exists>f5. emits h2 h3 f5 \<and>
    heard toy_env f5 d2 (\<lambda>d3. device_at INCLUDED PROTOCOL_IDLE d3 \<and>
      hub_at (eeprom_contents ram_eeprom) (replicate 32 5) PROTOCOL_IDLE h3 \<and>
      networked d3 (replicate 32 5) \<and> networked h3 (replicate 32 5) \<and> on_air toy_env d3 \<and> on_air toy_env h3 \<and>
      loadNetworkKey (eeprom_ops ram_eeprom) [] (d_store d3) = (RM_E_NONE, replicate 32 5) \<and>
      loadState (eeprom_ops ram_eeprom) NOT_INCLUDED (d_store d3) = (RM_E_NONE, INCLUDED))))))"
  unfolding Let_def
proof (rule handshake_completes [OF toy_lib_laws])
  show "node_ok (eeprom_inv ram_eeprom ram_opened) (eeprom_contents ram_eeprom) (replicate 32 1)
      (toy_node HUB ((fresh_controller INCLUDED HUB)\<lparr>inclusionModeEnabled := True\<rparr>) (replicate 32 1) toy_hub_store)"
    by (rule toy_node_ok [OF _ toy_hub_store_ok(1,2)]) simp
  show "node_ok (eeprom_inv ram_eeprom ram_opened) (eeprom_contents ram_eeprom) (replicate 32 2)
      (toy_node STANDARD (fresh_controller NOT_INCLUDED STANDARD) (replicate 32 2) (toy_node_store (replicate 32 2)))"
    by (rule toy_node_ok [OF _ toy_node_store_ok]) simp_all
qed (use toy_serves toy_hub_store_ok(3) in \<open>auto simp: ram_eeprom_def hub_at_def device_at_def toy_node_def toy_dev_def
    RadioMeshDevice_def fresh_controller_def keypair_of_def toy_lib_def\<close>)

end
