(* ===== verification/RM_Session.thy ===== *)
theory RM_Session
  imports RM_Handshake
begin

text \<open>
  What holds of a running device whatever its operation brings: no operation reads through a null
  pointer or past the end of a buffer as long as the driver delivers full headers, the invariants of the
  network components and of the store survive every event (progress and preservation over the events
  \<open>api\<close> of \<open>RM_Protocol\<close>, to which the change of the security parameters and the factory reset do not
  belong), and no wait of the protocol lasts longer than the time-out.
\<close>

section \<open>Total operations\<close>

text \<open>A key of a length that the cipher and the integrity code take, or none.\<close>

definition key_length :: "bytes \<Rightarrow> bool" where
  "key_length k \<longleftrightarrow> length k = 0 \<or> length k = 32"

lemma encryptAES_total: "length k = 32 \<Longrightarrow> \<exists>x a. encryptAES lib data k aes = Some (x, a)"
  by (simp add: encryptAES_ok)

lemma es_encrypt_total:
  assumes "key_length (networkKey es)" and "sha_laws lib"
  shows "\<exists>x a. es_encrypt lib es data topic dt st aes = Some (x, a)"
  using assms
  by (auto simp: es_encrypt_def Let_def getEncryptionKey_def encryptDirectECC_def encryptAES_ok sha_laws_def key_length_def
      split: encryption_method.splits option.splits)

lemma es_decrypt_total:
  assumes "key_length (networkKey es)" and "sha_laws lib"
  shows "\<exists>x a. es_decrypt lib es data topic dt st aes = Some (x, a)"
  using assms
  by (auto simp: es_decrypt_def Let_def getDecryptionKey_def decryptDirectECC_def decryptAES_ok sha_laws_def key_length_def
      split: encryption_method.splits option.splits)

lemma getMICKey_length:
  assumes "key_length (networkKey es)" and "sha_laws lib"
  shows "key_length (getMICKey lib (Some es) topic dt st)"
  using assms by (auto simp: getMICKey_def getECIESMacKey_def sha_laws_def key_length_def split: option.splits)

lemma computePacketMIC_total:
  assumes "key_length (networkKey es)" and "sha_laws lib" and "cipher_laws (cl_aes lib)"
  shows "\<exists>mic. computePacketMIC lib (Some es) header payload topic dt st = Some mic"
  using getMICKey_length [OF assms(1,2), of topic dt st]
    computeMIC_total [OF assms(3), of "getMICKey lib (Some es) topic dt st" "header @ payload"]
  by (auto simp: computePacketMIC_def Let_def key_length_def)

lemma verifyPacketMIC_total:
  assumes "key_length (networkKey es)" and "sha_laws lib" and "cipher_laws (cl_aes lib)"
  shows "\<exists>b. verifyPacketMIC lib (Some es) header payload mic topic dt st = Some b"
  using getMICKey_length [OF assms(1,2), of topic dt st]
    verifyMIC_eq [OF assms(3), of "getMICKey lib (Some es) topic dt st" "header @ payload" mic]
  by (auto simp: verifyPacketMIC_def Let_def key_length_def)

lemma prepare_packet_total:
  assumes "key_length (networkKey (n_es n))" and "sha_laws (w_lib w)"
  shows "\<exists>q n'. prepare_packet w our dt st p n = Some (q, n')"
proof -
  obtain p2 n1 where r: "routeToNextHop (w_now w) (updateLastHopId our p) n = (p2, n1)" by (metis surj_pair)
  then have "n_es n1 = n_es n" using routeToNextHop_frame [OF r] by (simp add: same_core_def)
  then obtain x a where "es_encrypt (w_lib w) (n_es n1) (p_data p2) (p_topic p2) dt st (n_aes n1) = Some (x, a)"
    using es_encrypt_total [OF _ assms(2)] assms(1) by metis
  then show ?thesis by (auto simp: prepare_packet_def r Let_def encryptPacketData_def)
qed

lemma routePacket_total:
  assumes inv: "net_inv n" and key: "key_length (networkKey (n_es n))" and lib: "sha_laws (w_lib w)" "cipher_laws (cl_aes (w_lib w))"
    and radio: "ra_module (n_radio n)"
  shows "\<exists>rc n'. routePacket w p our dt st n = Some (rc, n')"
proof -
  obtain q n1 where prep: "prepare_packet w our dt st p n = Some (q, n1)" using prepare_packet_total [OF key lib(1)] by blast
  note f = prepare_packet_frame [OF prep]
  then have n1: "n_es n1 = n_es n" "ra_module (n_radio n1)" "tracker_inv (packetTracker n1)"
    using radio inv by (simp_all add: same_core_def net_inv_def)
  have "computeAndAppendMIC (w_lib w) dt st q n1 \<noteq> None"
    using computePacketMIC_total [OF key lib, of "getHeaderBytes q" "p_data q" "p_topic q" dt st] n1(1)
    by (auto simp: computeAndAppendMIC_def)
  then obtain mr q' where mic: "computeAndAppendMIC (w_lib w) dt st q n1 = Some (mr, q')" by auto
  obtain rc r where "radio_sendPacket (w_rl w) (toByteBuffer q') (n_radio n1) = Some (rc, r)"
    using air.send_total [OF n1(2)] by blast
  then obtain n2 where s: "router_sendPacket (w_rl w) q' n1 = Some (rc, n2)" by (simp add: router_sendPacket_def)
  then have "tracker_inv (packetTracker n2)" using router_sendPacket_frame [OF s] n1(3) by simp
  then obtain t where "addEntry (deviceIdToUint32 (p_id p)) (p_crc q') (packetTracker n2) = Some t" using cache.add_total by blast
  then show ?thesis using prep mic s by (auto simp: routePacket_def trackPacket_def)
qed

section \<open>Steady devices\<close>

text \<open>A device that is started: its components are in order, its store keeps its layout.\<close>

definition steady :: "('s \<Rightarrow> bool) \<Rightarrow> 's device \<Rightarrow> bool" where
  "steady keeps d \<longleftrightarrow> ready d \<and> key_length (networkKey (n_es (d_net d))) \<and> keeps (d_store d) \<and> d_hasRadio d \<and> d_ctl d \<noteq> None"

text \<open>Surroundings in which the library keeps its laws.\<close>

definition lawful :: "'s byte_storage \<Rightarrow> 's env \<Rightarrow> bool" where
  "lawful ops env \<longleftrightarrow> e_ops env = ops \<and> sha_laws (env_lib env) \<and> cipher_laws (cl_aes (env_lib env))"

text \<open>The driver hands over frames that hold at least a header.\<close>

definition full_frames :: "radiolib \<Rightarrow> bool" where
  "full_frames rl \<longleftrightarrow> (\<forall>i j x. 0 \<le> rl_getPacketLength rl i \<longrightarrow>
     rl_readData rl j (nat (rl_getPacketLength rl i)) = (x, ERR_NONE) \<longrightarrow> HEADER_LENGTH \<le> length x)"

definition safe :: "('s device \<Rightarrow> bool) \<Rightarrow> (rc \<times> 's device) option \<Rightarrow> bool" where
  "safe P r \<longleftrightarrow> (\<exists>rc d'. r = Some (rc, d') \<and> P d')"

lemma safe_Some [simp]: "safe P (Some (rc, d)) = P d"
  by (simp add: safe_def)

lemma safe_bind: "safe P r \<Longrightarrow> (\<And>rc d'. P d' \<Longrightarrow> safe Q (f (rc, d'))) \<Longrightarrow> safe Q (r \<bind> f)"
  by (auto simp: safe_def)

lemma safeD: "safe P r \<Longrightarrow> r = Some (rc, d') \<Longrightarrow> P d'"
  by (simp add: safe_def)

lemma safe_imp: "safe P r \<Longrightarrow> (\<And>d'. P d' \<Longrightarrow> Q d') \<Longrightarrow> safe Q r"
  by (auto simp: safe_def)

lemma steady_send: "send_frame d d' \<Longrightarrow> steady keeps d \<Longrightarrow> steady keeps d'"
  by (simp add: steady_def ready_send send_frameD)

lemma steady_rx: "rx_frame d d' \<Longrightarrow> steady keeps d \<Longrightarrow> steady keeps d'"
  by (simp add: steady_def ready_rx rx_frameD)

lemma steady_updates [simp]:
  "steady keeps d \<Longrightarrow> steady keeps (d\<lparr>d_ctl := Some c\<rparr>)"
  "steady keeps d \<Longrightarrow> steady keeps (d\<lparr>d_rng := g\<rparr>)"
  "steady keeps d \<Longrightarrow> keeps s \<Longrightarrow> steady keeps (d\<lparr>d_store := s\<rparr>)"
  "steady keeps d \<Longrightarrow> steady keeps (d\<lparr>d_net := (d_net d)\<lparr>n_aes := a\<rparr>\<rparr>)"
  "steady keeps d \<Longrightarrow> steady keeps (d\<lparr>d_hasCrypto := b, d_net := (d_net d)\<lparr>n_aes := a\<rparr>\<rparr>)"
  "steady keeps d \<Longrightarrow> steady keeps (d\<lparr>relayEnabled := b\<rparr>)"
  "steady keeps d \<Longrightarrow> steady keeps (notify p rc d)"
  "steady keeps d \<Longrightarrow> steady keeps (upd_ctl f d)"
  "steady keeps d \<Longrightarrow> key_length k \<Longrightarrow> steady keeps (upd_es (setNetworkKey k) d)"
  "steady keeps d \<Longrightarrow> steady keeps (upd_es (setHubPublicKey k) d)"
  "steady keeps d \<Longrightarrow> steady keeps (upd_es (setTempDevicePublicKey k) d)"
  using es_inv_setters [of "n_es (d_net d)"]
  by (simp_all add: steady_def ready_def net_inv_def notify_def setNetworkKey_def setHubPublicKey_def setTempDevicePublicKey_def)

lemma steady_ctl: "steady keeps d \<Longrightarrow> \<exists>c. d_ctl d = Some c"
  by (auto simp: steady_def)

lemma safe_route:
  assumes "steady keeps d" and "lawful ops env"
  shows "safe (steady keeps) (device_route env p d)"
proof -
  obtain rc n' where "routePacket (e_world env) p (d_id d) (d_type d) (state_or_not_included d) (d_net d) = Some (rc, n')"
    using routePacket_total [of "d_net d" "e_world env" p "d_id d" "d_type d" "state_or_not_included d"] assms
    by (auto simp: steady_def ready_def lawful_def)
  then have r: "device_route env p d = Some (rc, d\<lparr>d_net := n'\<rparr>)" by (simp add: device_route_def)
  show ?thesis using steady_send [OF device_route_frame(1) [OF r] assms(1)] r by simp
qed

lemma safe_sendData:
  assumes "steady keeps d" and "lawful ops env"
  shows "safe (steady keeps) (sendData env topic data target d)"
proof -
  obtain c where c: "d_ctl d = Some c" using steady_ctl [OF assms(1)] by blast
  obtain pid g where pid: "getRandomBytesArray (e_rnd env) (e_sample env) (env_now env) = (pid, g)" by (metis surj_pair)
  let ?d = "d\<lparr>packetCounter := packetCounter d + 1, txPacket := new_packet d topic data target pid, d_rng := g\<rparr>"
  have "steady keeps ?d" using assms(1) by (simp add: steady_def ready_def)
  from safe_route [OF this assms(2)] show ?thesis
    using c assms(1) by (auto simp: sendData_def canSendMessage_def pid Let_def DEV_ID_LENGTH_def)
qed

section \<open>Progress and preservation, operation by operation\<close>

context device_store
begin

lemma persistState_inv: "inv s \<Longrightarrow> inv (snd (persistState ops st s))"
  using bs_keep [of s STATE_KEY "[inclusion_state_code st]"] by (simp add: persistState_def)

lemma getCurrentNetworkKey_length:
  "inv s \<Longrightarrow> getCurrentNetworkKey ops [] s = (rc, nk) \<Longrightarrow> rc = RM_E_NONE \<Longrightarrow> key_length nk"
  using read_length [of s NKEY "[]" nk] by (simp add: getCurrentNetworkKey_def loadNetworkKey_def key_length_def)

lemma set_network_key:
  assumes "inv s" and "km_setNetworkKey ops nk s = (rc, s')"
  shows "inv s'" and "rc = RM_E_NONE \<Longrightarrow> key_length nk"
  using km_setNetworkKey_law [OF assms(1) slot_length_simps(3) assms(2)] assms(2)
  by (auto simp: key_length_def km_setNetworkKey_def validateNetworkKey_def NETWORK_KEY_SIZE_def split: if_splits)

lemma safe_plain_sends:
  assumes "steady inv d" and "lawful ops env"
  shows "safe (steady inv) (ic_sendInclusionRequest env d)" "safe (steady inv) (ic_sendInclusionConfirm env d)"
    "safe (steady inv) (ic_sendInclusionSuccess env d)"
  using safe_sendData [OF assms] assms(1) steady_ctl [OF assms(1)]
  by (auto simp: ic_sendInclusionRequest_def ic_sendInclusionConfirm_def ic_sendInclusionSuccess_def split: sum.split)

lemma safe_open:
  assumes "steady inv d" and "lawful ops env"
  shows "safe (steady inv) (ic_sendInclusionOpen env d)"
proof -
  obtain c where "d_ctl d = Some c" using steady_ctl [OF assms(1)] by blast
  then show ?thesis using safe_sendData [OF _ assms(2)] assms(1)
    by (auto simp: ic_sendInclusionOpen_def Let_def split: sum.split)
qed

lemma safe_response:
  assumes "steady inv d" and "lawful ops env"
  shows "safe (steady inv) (ic_sendInclusionResponse env p d)"
proof -
  obtain c where c: "d_ctl d = Some c" using steady_ctl [OF assms(1)] by blast
  obtain rc nk where nk: "getCurrentNetworkKey ops [] (d_store d) = (rc, nk)" by fastforce
  have k: "rc = RM_E_NONE \<Longrightarrow> key_length nk"
    using getCurrentNetworkKey_length [OF _ nk] assms(1) by (simp add: steady_def)
  show ?thesis using safe_sendData [OF _ assms(2)] assms c nk k
    by (auto simp: ic_sendInclusionResponse_def lawful_def Let_def split: prod.split)
qed

lemma safe_hub:
  assumes "steady inv d" and "lawful ops env"
  shows "safe (steady inv) (hub_handleInclusionMessage env p c d)"
  using safe_response [OF _ assms(2)] safe_plain_sends(3) [OF _ assms(2)] assms(1)
  by (simp add: hub_handleInclusionMessage_def)

lemma safe_handleOpen:
  assumes "steady inv d" and "lawful ops env"
  shows "safe (steady inv) (device_handleOpen env p c d)"
proof -
  have "inv (d_store d)" "e_ops env = ops" using assms by (simp_all add: steady_def lawful_def)
  then have "steady inv ((upd_es (setHubPublicKey (p_data p)) d)\<lparr>d_store := snd (persistState (e_ops env) INCLUSION_PENDING
      (d_store (upd_es (setHubPublicKey (p_data p)) d))), d_ctl := Some c'\<rparr>)" for c'
    using assms(1) persistState_inv by simp
  then show ?thesis using safe_plain_sends(1) [OF _ assms(2)] assms(1)
    by (simp add: device_handleOpen_def Let_def)
qed

lemma safe_handleResponse:
  assumes "steady inv d" and "lawful ops env"
  shows "safe (steady inv) (device_handleResponse env p c d)"
proof -
  have e: "inv (d_store d)" "e_ops env = ops" using assms by (simp_all add: steady_def lawful_def)
  obtain rc s where s: "km_setNetworkKey ops (take 32 (p_data p)) (d_store d) = (rc, s)" by fastforce
  note k = set_network_key [OF e(1) s]
  show ?thesis using safe_plain_sends(2) [OF _ assms(2)] assms(1) e s k
    by (auto simp: device_handleResponse_def Let_def)
qed

lemma steady_security:
  "steady inv d \<Longrightarrow> key_length (sp_key sp) \<Longrightarrow> steady inv (snd (updateSecurityParams sp d))"
  using steady_updates(5) [of inv "upd_es (setNetworkKey (sp_key sp)) d"]
  by (simp add: updateSecurityParams_def Let_def)

lemma safe_handleSuccess:
  assumes "steady inv d" and "lawful ops env"
  shows "safe (steady inv) (device_handleSuccess env c d)"
proof -
  have e: "inv (d_store d)" "e_ops env = ops" using assms by (simp_all add: steady_def lawful_def)
  let ?s = "snd (persistState ops INCLUDED (d_store d))"
  obtain rc nk where nk: "getCurrentNetworkKey ops [] ?s = (rc, nk)" by fastforce
  have k: "rc = RM_E_NONE \<Longrightarrow> key_length nk" using getCurrentNetworkKey_length [OF persistState_inv [OF e(1)] nk] by simp
  show ?thesis using assms(1) e nk k persistState_inv [OF e(1)]
    by (auto simp: device_handleSuccess_def Let_def steady_security)
qed

lemma safe_handle:
  assumes "steady inv d" and "lawful ops env"
  shows "safe (steady inv) (handleInclusionMessage env p d)"
  using steady_ctl [OF assms(1)] safe_hub [OF assms] safe_handleOpen [OF assms] safe_handleResponse [OF assms]
    safe_handleSuccess [OF assms] assms(1)
  by (auto simp: handleInclusionMessage_def)

lemma safe_reset:
  assumes "steady inv d" and "lawful ops env"
  shows "\<exists>d'. resetProtocolState env d = Some d' \<and> steady inv d'"
  using steady_ctl [OF assms(1)] assms persistState_inv [of "d_store d" NOT_INCLUDED]
  by (auto simp: resetProtocolState_def Let_def lawful_def) (auto simp: steady_def ready_def)

lemma safe_timeouts:
  assumes "steady inv d" and "lawful ops env"
  shows "safe (steady inv) (checkProtocolTimeouts env d)"
proof -
  obtain c where c: "d_ctl d = Some c" using steady_ctl [OF assms(1)] by blast
  obtain d' where "resetProtocolState env (upd_ctl (\<lambda>c. c\<lparr>inclusionModeEnabled := False\<rparr>) d) = Some d'" "steady inv d'"
    using safe_reset [OF _ assms(2), of "upd_ctl (\<lambda>c. c\<lparr>inclusionModeEnabled := False\<rparr>) d"] assms(1) by auto
  then show ?thesis using c assms(1) by (simp add: checkProtocolTimeouts_def handleStateTimeout_def)
qed

lemma safe_mode:
  assumes "steady inv d" and "lawful ops env"
  shows "safe (steady inv) (enableInclusionMode env b d)"
proof -
  obtain c where c: "d_ctl d = Some c" using steady_ctl [OF assms(1)] by blast
  obtain d' where "resetProtocolState env (d\<lparr>d_ctl := Some (c\<lparr>inclusionModeEnabled := False\<rparr>)\<rparr>) = Some d'" "steady inv d'"
    using safe_reset [OF _ assms(2), of "d\<lparr>d_ctl := Some (c\<lparr>inclusionModeEnabled := False\<rparr>)\<rparr>"] assms(1) by auto
  then show ?thesis using c assms(1) by (simp add: enableInclusionMode_def enterInclusionMode_def exitInclusionMode_def)
qed

lemma safe_decrypt:
  assumes "steady inv d" and "lawful ops env"
  shows "\<exists>q d'. device_decrypt env p d = Some (q, d') \<and> steady inv d'"
proof -
  obtain c where c: "d_ctl d = Some c" using steady_ctl [OF assms(1)] by blast
  obtain x a where "es_decrypt (env_lib env) (n_es (d_net d)) (p_data p) (p_topic p) (d_type d) (getState c) (n_aes (d_net d)) = Some (x, a)"
    using es_decrypt_total [of "n_es (d_net d)" "env_lib env"] assms by (metis steady_def lawful_def)
  then show ?thesis using c assms(1) by (simp add: device_decrypt_def)
qed

lemma safe_deliver:
  assumes "steady inv d" and "lawful ops env"
  shows "safe (steady inv) (deliver env p d)"
proof -
  obtain q d1 where q: "device_decrypt env p d = Some (q, d1)" "steady inv d1" using safe_decrypt [OF assms] by blast
  show ?thesis
  proof (cases "isInclusionMessage (p_topic p)")
    case True
    then show ?thesis using safe_handle [OF q(2) assms(2), of q] q
      by (auto simp: deliver_def safe_def)
  next
    case False
    then show ?thesis using safe_route [OF _ assms(2)] q assms(1) by (simp add: deliver_def Let_def)
  qed
qed

lemma safe_receive_packet:
  assumes d: "steady inv d" and env: "lawful ops env"
  shows "safe (steady inv) (receive_packet env p d)"
proof -
  have r: "net_inv (d_net d)" "ra_module (n_radio (d_net d))" using d by (simp_all add: steady_def ready_def)
  have "tracker_inv (packetTracker (d_net d))" using r(1) by (simp add: net_inv_def)
  from found_in_tracker [OF this, of p] obtain seen n where n: "isPacketFoundInTracker p (d_net d) = Some (seen, n)"
      "n = (d_net d)\<lparr>packetTracker := packetTracker n\<rparr>" "tracker_inv (packetTracker n)"
    by auto
  let ?d = "d\<lparr>d_net := n\<rparr>"
  have "net_inv n" "n_es n = n_es (d_net d)" "n_esPtr n = n_esPtr (d_net d)" "n_micPtr n = n_micPtr (d_net d)" "n_radio n = n_radio (d_net d)"
    using n(3) r(1) by (subst n(2), simp add: net_inv_def)+
  then have s: "steady inv ?d" using d by (simp add: steady_def ready_def)
  have "verifyAndStripReceivedPacketMIC env p ?d \<noteq> None"
  proof -
    have "\<exists>b. verifyPacketMIC (env_lib env) (Some (n_es (d_net ?d))) (getHeaderBytes p) (getDataWithoutMIC p) (packet_extractMIC p)
        (p_topic p) (d_type ?d) (state_or_not_included ?d) = Some b"
      by (rule verifyPacketMIC_total) (use s env in \<open>simp_all add: steady_def lawful_def\<close>)
    then show ?thesis by (auto simp: verifyAndStripReceivedPacketMIC_def Let_def)
  qed
  then obtain v where v: "verifyAndStripReceivedPacketMIC env p ?d = Some v" by auto
  have "safe (steady inv) (do { d2 \<leftarrow> learn_route env q ?d; deliver env q d2 })" for q
  proof -
    obtain d2 where "learn_route env q ?d = Some d2" "rx_frame ?d d2"
      using learn_route_ok [of ?d env q] s by (auto simp: steady_def ready_def)
    then show ?thesis using safe_deliver [OF steady_rx [OF _ s] env] by simp
  qed
  then show ?thesis using n(1) v s by (cases v) (simp_all add: receive_packet_def Let_def)
qed

lemma steady_radio: "steady inv d \<Longrightarrow> radio_inv r \<Longrightarrow> ra_module r \<Longrightarrow> steady inv (upd_radio r d)"
  by (simp add: steady_def ready_def net_inv_def upd_radio_def)

lemma safe_handleReceivedData:
  assumes d: "steady inv d" and env: "lawful ops env" and full: "full_frames (w_rl (e_world env))"
  shows "safe (steady inv) (handleReceivedData env d)"
proof -
  have r: "ra_module (n_radio (d_net d))" "radio_inv (n_radio (d_net d))" "d_hasRadio d"
    using d by (simp_all add: steady_def ready_def net_inv_def)
  let ?rl = "w_rl (e_world env)" and ?r = "n_radio (d_net d)"
  have "readReceivedData ?rl [] ?r \<noteq> None"
    using r(1) by (auto simp: readReceivedData_def Let_def split: prod.split)
  then obtain rc x r' where x: "readReceivedData ?rl [] ?r = Some (rc, x, r')" by auto
  then have r': "ra_module r'" "radio_inv r'"
    using r by (auto simp: readReceivedData_def Let_def radio_inv_def split: if_splits prod.splits)
  have len: "HEADER_LENGTH \<le> length x" if rc: "rc = RM_E_NONE"
  proof -
    let ?n = "rl_getPacketLength ?rl (ra_calls ?r)"
    from x rc have "0 \<le> ?n" "rl_readData ?rl (ra_calls (tick ?r)) (nat ?n) = (x, ERR_NONE)"
      by (auto simp: readReceivedData_def Let_def split: if_splits prod.splits)
    then show ?thesis using full unfolding full_frames_def by blast
  qed
  have s: "steady inv (upd_radio r' d)" by (rule steady_radio [OF d r'(2,1)])
  show ?thesis
  proof (cases "rc = RM_E_NONE")
    case True
    then obtain p where "fromByteBuffer x = Some p" using fromByteBuffer_None [of x] len [OF True] by (cases "fromByteBuffer x") auto
    then show ?thesis using x True r(3) safe_receive_packet [OF s env, of p] by (simp add: handleReceivedData_def upd_radio_def)
  next
    case False
    then show ?thesis using x r(3) s by (simp add: handleReceivedData_def upd_radio_def)
  qed
qed

lemma radio_flags:
  "checkAndClearRxFlag r = (b, r') \<Longrightarrow> ra_module r' = ra_module r \<and> isSetup r' = isSetup r"
  "checkAndClearTxFlag r = (b, r') \<Longrightarrow> ra_module r' = ra_module r \<and> isSetup r' = isSetup r"
  by (auto simp: checkAndClearRxFlag_def checkAndClearTxFlag_def split: if_splits)

lemma startReceive_ok:
  assumes "radio_inv r"
  shows "\<exists>rc r'. startReceive rl r = Some (rc, r') \<and> ra_module r' = ra_module r \<and> isSetup r' = isSetup r"
proof -
  obtain rc r' where "startReceive rl r = Some (rc, r')" using startReceive_total [OF assms] by blast
  then show ?thesis using startReceive_frame [of rl r rc r'] by auto
qed

lemma getRadioStateError_ok:
  assumes "radio_inv r"
  shows "\<exists>e r'. getRadioStateError rl r = Some (e, r') \<and> ra_module r' = ra_module r \<and> isSetup r' = isSetup r"
proof -
  let ?r = "resetRadioState RX_TX_STATE r"
  have "radio_inv ?r" using assms by (simp add: radio_inv_def)
  then have "radio_inv (resetRadioState RX_TX_STATE ?r)" by (simp add: radio_inv_def)
  then obtain rc r' where "startReceive rl (resetRadioState RX_TX_STATE ?r) = Some (rc, r')" "ra_module r' = ra_module r" "isSetup r' = isSetup r"
    using startReceive_ok [of "resetRadioState RX_TX_STATE ?r" rl] by auto
  then show ?thesis by (auto simp: getRadioStateError_def switchToReceiveMode_def)
qed

lemma steady_radioD: "steady inv d \<Longrightarrow> radio_inv (n_radio (d_net d)) \<and> ra_module (n_radio (d_net d)) \<and> d_hasRadio d"
  by (simp add: steady_def ready_def net_inv_def)

lemma steady_same_radio:
  assumes "steady inv d" and "ra_module r = ra_module (n_radio (d_net d))" and "isSetup r = isSetup (n_radio (d_net d))"
  shows "steady inv (upd_radio r d)"
  using steady_radio [OF assms(1), of r] steady_radioD [OF assms(1)] assms(2,3) by (simp add: radio_inv_def)

lemma safe_run_rx:
  assumes d: "steady inv d" and env: "lawful ops env" and full: "full_frames (w_rl (e_world env))"
  shows "safe (steady inv) (run_rx env d)"
proof -
  obtain b r where f: "checkAndClearRxFlag (n_radio (d_net d)) = (b, r)" by fastforce
  have s1: "steady inv (upd_radio r d)" using steady_same_radio [OF d] radio_flags(1) [OF f] by simp
  obtain e r' where g: "getRadioStateError (w_rl (e_world env)) r = Some (e, r')" "ra_module r' = ra_module r" "isSetup r' = isSetup r"
    using getRadioStateError_ok steady_radioD [OF s1] by force
  have s2: "steady inv (upd_radio r' (upd_radio r d))" using steady_same_radio [OF s1] g by simp
  have h: "d_hasRadio d" using steady_radioD [OF d] by simp
  show ?thesis
    using f g h s1 s2 safe_handleReceivedData [OF s2 env full]
    by (auto simp: run_rx_def Let_def safe_def)
qed

lemma safe_run_tx:
  assumes d: "steady inv d" and env: "lawful ops env"
  shows "safe (steady inv) (run_tx env d)"
proof -
  obtain b r where f: "checkAndClearTxFlag (n_radio (d_net d)) = (b, r)" by fastforce
  have s1: "steady inv (upd_radio r d)" using steady_same_radio [OF d] radio_flags(2) [OF f] by simp
  obtain e r' where g: "getRadioStateError (w_rl (e_world env)) r = Some (e, r')" "ra_module r' = ra_module r" "isSetup r' = isSetup r"
    using getRadioStateError_ok steady_radioD [OF s1] by force
  let ?d2 = "upd_radio r' (upd_radio r d)"
  let ?d3 = "if onPacketSent ?d2 then ?d2\<lparr>txCalls := txCalls ?d2 @ [(txPacket ?d2, e)]\<rparr> else ?d2"
  have "steady inv ?d2" using steady_same_radio [OF s1] g by simp
  then have s3: "steady inv ?d3" by (simp add: steady_def ready_def)
  obtain rc r2 where h: "startReceive (w_rl (e_world env)) (n_radio (d_net ?d3)) = Some (rc, r2)"
      "ra_module r2 = ra_module (n_radio (d_net ?d3))" "isSetup r2 = isSetup (n_radio (d_net ?d3))"
    using startReceive_ok steady_radioD [OF s3] by blast
  have s4: "steady inv (upd_radio r2 ?d3)" by (rule steady_same_radio [OF s3 h(2,3)])
  show ?thesis
    using f g h s1 s4 steady_radioD [OF d] by (simp add: run_tx_def Let_def split: if_splits)
qed

lemma safe_run:
  assumes d: "steady inv d" and env: "lawful ops env" and full: "full_frames (w_rl (e_world env))"
  shows "safe (steady inv) (run env d)"
  unfolding run_def
  by (rule safe_bind [OF safe_timeouts [OF d env]], simp,
      rule safe_bind [OF safe_run_rx [OF _ env full]], assumption, use safe_run_tx [OF _ env] in auto)

lemma steady_interrupt:
  assumes "steady inv d" and "onInterrupt irq (n_radio (d_net d)) = Some r"
  shows "steady inv (upd_radio r d)"
  by (rule steady_same_radio [OF assms(1)]) (use assms(2) in \<open>auto simp: onInterrupt_def Let_def split: if_splits\<close>)

lemma safe_api:
  assumes "steady inv d" and "lawful ops env" and "full_frames (w_rl (e_world env))"
  shows "safe (steady inv) (run env d)" "safe (steady inv) (sendData env topic data target d)"
    "safe (steady inv) (sendInclusionOpen env d)" "safe (steady inv) (sendInclusionRequest env d)"
    "safe (steady inv) (sendInclusionResponse env p d)" "safe (steady inv) (sendInclusionConfirm env d)"
    "safe (steady inv) (sendInclusionSuccess env d)" "safe (steady inv) (enableInclusionMode env b d)"
  using safe_run [OF assms] safe_sendData [OF assms(1,2)] safe_open [OF assms(1,2)] safe_plain_sends [OF assms(1,2)]
    safe_response [OF assms(1,2)] safe_mode [OF assms(1,2)]
  by (simp_all add: sendInclusionOpen_def sendInclusionRequest_def sendInclusionResponse_def sendInclusionConfirm_def
      sendInclusionSuccess_def)

lemma steady_api:
  assumes "api E d d'" and "steady inv d" and E: "\<And>env. E env \<Longrightarrow> lawful ops env \<and> full_frames (w_rl (e_world env))"
  shows "steady inv d'"
  using assms(1)
proof cases
  case (interrupt irq r)
  then show ?thesis using steady_interrupt [OF assms(2)] by simp
next
  case (relay b)
  then show ?thesis using assms(2) by (simp add: enableRelay_def)
next
  case (pass env rc)
  then show ?thesis using safeD [OF safe_api(1) [OF assms(2)]] E by metis
next
  case (send env topic data target rc)
  then show ?thesis using safeD [OF safe_api(2) [OF assms(2)]] E by metis
next
  case (send_open env rc)
  then show ?thesis using safeD [OF safe_api(3) [OF assms(2)]] E by metis
next
  case (send_request env rc)
  then show ?thesis using safeD [OF safe_api(4) [OF assms(2)]] E by metis
next
  case (send_response env p rc)
  then show ?thesis using safeD [OF safe_api(5) [OF assms(2)]] E by metis
next
  case (send_confirm env rc)
  then show ?thesis using safeD [OF safe_api(6) [OF assms(2)]] E by metis
next
  case (send_success env rc)
  then show ?thesis using safeD [OF safe_api(7) [OF assms(2)]] E by metis
next
  case (mode env b rc)
  then show ?thesis using safeD [OF safe_api(8) [OF assms(2)]] E by metis
qed

lemma steady_session:
  assumes "(api E)\<^sup>*\<^sup>* d d'" and "steady inv d" and E: "\<And>env. E env \<Longrightarrow> lawful ops env \<and> full_frames (w_rl (e_world env))"
  shows "steady inv d'"
  using assms(1,2) by (induction rule: rtranclp_induct) (auto intro: steady_api [OF _ _ E])

end

section \<open>Waits are bounded\<close>

text \<open>A controller that does not wait, or waits for no longer than the time-out.\<close>

definition timely :: "u32 \<Rightarrow> controller \<Rightarrow> bool" where
  "timely now c \<longleftrightarrow> protocolState c = PROTOCOL_IDLE \<or> now - stateStartTime c \<le> BASE_TIMEOUT_MS"

definition timely_device :: "u32 \<Rightarrow> 's device \<Rightarrow> bool" where
  "timely_device now d \<longleftrightarrow> (\<exists>c. d_ctl d = Some c \<and> timely now c)"

lemma timely_iff: "timely now c \<longleftrightarrow> \<not> isStateTimedOut now c"
  by (auto simp: timely_def isStateTimedOut_def getStateTimeoutMs_def)

lemma timely_transition: "timely now c \<Longrightarrow> timely now (transitionToState now st c)"
  by (auto simp: timely_def transitionToState_def)

lemma timely_updates [simp]:
  "timely now (c\<lparr>currentNonce := n\<rparr>) = timely now c" "timely now (c\<lparr>tempHubPublicKey := k\<rparr>) = timely now c"
  "timely now (c\<lparr>ic_state := s\<rparr>) = timely now c" "timely now (c\<lparr>inclusionModeEnabled := b\<rparr>) = timely now c"
  "timely now (c\<lparr>retryCount := r\<rparr>) = timely now c"
  by (simp_all add: timely_def)

lemma timely_ctl: "d_ctl d' = Some c \<Longrightarrow> timely now c \<Longrightarrow> timely_device now d'"
  by (simp add: timely_device_def)

lemma timely_same: "timely_device now (d :: 's device) \<Longrightarrow> d_ctl d' = d_ctl d \<Longrightarrow> timely_device now (d' :: 's device)"
  by (simp add: timely_device_def)

lemma timely_hub:
  assumes "hub_handleInclusionMessage env p c d = Some (rc, d')" and "d_ctl d = Some c" and t: "timely (env_now env) c"
  shows "timely_device (env_now env) d'"
proof -
  let ?c1 = "transitionToState (env_now env) WAITING_FOR_CONFIRMATION c"
  let ?c2 = "transitionToState (env_now env) PROTOCOL_IDLE c"
  from assms(1) consider "d' = d"
    | "ic_sendInclusionResponse env p (d\<lparr>d_ctl := Some ?c1\<rparr>) = Some (rc, d')"
    | "ic_sendInclusionSuccess env (d\<lparr>d_ctl := Some ?c2\<rparr>) = Some (rc, d')"
    by (auto simp: hub_handleInclusionMessage_def split: if_splits)
  then show ?thesis
  proof cases
    case 1
    then show ?thesis using timely_ctl assms(2) t by blast
  next
    case 2
    then obtain n where "d_ctl d' = Some (?c1\<lparr>currentNonce := n\<rparr>)" using sendResponse_frame [OF 2, of ?c1] by auto
    then show ?thesis by (rule timely_ctl) (simp add: timely_transition t)
  next
    case 3
    then have "d_ctl d' = Some ?c2" using send_frameD(1) [OF plain_sends(3) [OF 3]] by simp
    then show ?thesis by (rule timely_ctl) (simp add: timely_transition t)
  qed
qed

lemma timely_handle:
  assumes h: "handleInclusionMessage env p d = Some (rc, d')" and t: "timely_device (env_now env) d"
  shows "timely_device (env_now env) d'"
proof -
  obtain c where c: "d_ctl d = Some c" "timely (env_now env) c" using t by (auto simp: timely_device_def)
  from h c(1) consider "hub_handleInclusionMessage env p c d = Some (rc, d')" | "device_handleOpen env p c d = Some (rc, d')"
    | "device_handleResponse env p c d = Some (rc, d')" | "device_handleSuccess env c d = Some (rc, d')" | "d' = d"
    by (auto simp: handleInclusionMessage_def split: if_splits)
  then show ?thesis
  proof cases
    case 1
    then show ?thesis using timely_hub [OF 1 c] by simp
  next
    case 2
    then consider "d' = d" | e s where "ic_sendInclusionRequest env ((upd_es e d)\<lparr>d_store := s, d_ctl := Some (transitionToState (env_now env)
        WAITING_FOR_RESPONSE (c\<lparr>tempHubPublicKey := p_data p, ic_state := INCLUSION_PENDING\<rparr>))\<rparr>) = Some (rc, d')"
      by (auto simp: device_handleOpen_def Let_def split: if_splits)
    then show ?thesis
    proof cases
      case 2
      from send_frameD(1) [OF plain_sends(1) [OF 2]] show ?thesis
        by (intro timely_ctl) (simp, simp add: timely_transition c(2))
    qed (use t in simp)
  next
    case 3
    then consider "d' = d" | n s where "d' = d\<lparr>d_ctl := Some (c\<lparr>currentNonce := n\<rparr>), d_store := s\<rparr>"
      | k n s where "ic_sendInclusionConfirm env (upd_es (setNetworkKey k) (d\<lparr>d_store := s, d_ctl := Some (transitionToState (env_now env)
          WAITING_FOR_SUCCESS (c\<lparr>currentNonce := n\<rparr>))\<rparr>)) = Some (rc, d')"
      by (auto simp: device_handleResponse_def Let_def split: if_splits prod.splits)
    then show ?thesis
    proof cases
      case (2 n s)
      then show ?thesis by (intro timely_ctl) (simp, simp add: c(2))
    next
      case (3 k n s)
      from send_frameD(1) [OF plain_sends(2) [OF 3]] show ?thesis
        by (intro timely_ctl) (simp, simp add: timely_transition c(2))
    qed (use t in simp)
  next
    case 4
    then have "d' = d \<or> d_ctl d' = Some (transitionToState (env_now env) PROTOCOL_IDLE (c\<lparr>ic_state := INCLUDED\<rparr>))"
      by (auto simp: device_handleSuccess_def Let_def split: if_splits prod.splits)
    then show ?thesis using t timely_ctl timely_transition c(2) by fastforce
  qed (use t in simp)
qed

lemma timely_deliver:
  assumes "deliver env p d = Some (rc, d')" and t: "timely_device (env_now env) d"
  shows "timely_device (env_now env) d'"
proof (cases "isInclusionMessage (p_topic p)")
  case True
  with assms obtain q d1 rc1 d2 where 1: "device_decrypt env p d = Some (q, d1)"
      "handleInclusionMessage env q d1 = Some (rc1, d2)" "d' = notify (Some q) RM_E_NONE d2"
    by (auto simp: deliver_def bind_eq_Some_conv)
  have "timely_device (env_now env) d1" by (rule timely_same [OF t]) (subst device_decrypt_frame(1) [OF 1(1)], simp)
  then show ?thesis using timely_same [OF timely_handle [OF 1(2)]] 1(3) by simp
next
  case False
  with assms obtain q d1 where 1: "device_decrypt env p d = Some (q, d1) \<or> q = p \<and> d1 = d"
      "d' = notify (Some q) RM_E_NONE d1 \<or> device_route env q (notify (Some q) RM_E_NONE d1) = Some (rc, d')"
    by (auto simp: deliver_def bind_eq_Some_conv Let_def split: if_splits)
  have "d_ctl d1 = d_ctl d" using 1(1) by (auto simp: device_decrypt_def bind_eq_Some_conv)
  moreover have "d_ctl d' = d_ctl d1" using 1(2) send_frameD(1) [OF device_route_frame(1)] by fastforce
  ultimately show ?thesis using timely_same [OF t] by simp
qed

lemma timely_receive_packet:
  assumes "receive_packet env p d = Some (rc, d')" and t: "timely_device (env_now env) d"
  shows "timely_device (env_now env) d'"
proof -
  obtain seen n where "isPacketFoundInTracker p (d_net d) = Some (seen, n)"
    using assms by (auto simp: receive_packet_def bind_eq_Some_conv)
  with assms(1) consider "d' = d\<lparr>d_net := n\<rparr>"
    | q d2 where "learn_route env q (d\<lparr>d_net := n\<rparr>) = Some d2" "deliver env q d2 = Some (rc, d')"
    by (auto simp: receive_packet_def bind_eq_Some_conv Let_def split: if_splits option.splits)
  then show ?thesis
  proof cases
    case (2 q d2)
    then have "timely_device (env_now env) d2"
      using timely_same [OF t, of d2] by (auto simp: learn_route_def bind_eq_Some_conv)
    then show ?thesis by (rule timely_deliver [OF 2(2)])
  qed (use timely_same [OF t] in simp)
qed

lemma timely_run_rx:
  assumes "run_rx env d = Some (rc, d')" and t: "timely_device (env_now env) d"
  shows "timely_device (env_now env) d'"
proof -
  from assms(1) obtain r where r: "d' = upd_radio r d \<or> (\<exists>e. d' = notify None e (upd_radio r d)) \<or>
      (\<exists>d3. handleReceivedData env (upd_radio r d) = Some (rc, d3) \<and> (d' = d3 \<or> d' = notify None rc d3))"
    by (auto simp: run_rx_def bind_eq_Some_conv Let_def upd_radio_def split: if_splits prod.splits)
  have "timely_device (env_now env) d3" if h: "handleReceivedData env (upd_radio r d) = Some (rc, d3)" for d3
  proof -
    from h obtain r' where "d3 = upd_radio r' (upd_radio r d) \<or> (\<exists>p. receive_packet env p (upd_radio r' (upd_radio r d)) = Some (rc, d3))"
      by (auto simp: handleReceivedData_def bind_eq_Some_conv upd_radio_def Let_def split: if_splits)
    moreover have "timely_device (env_now env) (upd_radio r' (upd_radio r d))" by (rule timely_same [OF t]) simp
    ultimately show ?thesis using timely_receive_packet by auto
  qed
  then show ?thesis using r timely_same [OF t] timely_same [of "env_now env" _ d'] by fastforce
qed

lemma timely_timeouts:
  assumes "checkProtocolTimeouts env d = Some (rc, d')"
  shows "timely_device (env_now env) d'"
proof -
  obtain c where c: "d_ctl d = Some c" using assms by (auto simp: checkProtocolTimeouts_def bind_eq_Some_conv)
  show ?thesis
  proof (cases "isStateTimedOut (env_now env) c")
    case False
    then show ?thesis using assms c by (simp add: checkProtocolTimeouts_def timely_device_def timely_iff)
  next
    case True
    then have "resetProtocolState env (upd_ctl (\<lambda>c. c\<lparr>inclusionModeEnabled := False\<rparr>) d) = Some d'"
      using assms c by (auto simp: checkProtocolTimeouts_def handleStateTimeout_def bind_eq_Some_conv)
    from resetProtocolState_ctl [OF this] c obtain c' where "d_ctl d' = Some c'" "protocolState c' = PROTOCOL_IDLE" by auto
    then show ?thesis by (simp add: timely_device_def timely_def)
  qed
qed

lemma timely_run:
  assumes "run env d = Some (rc, d')"
  shows "timely_device (env_now env) d'"
proof -
  from assms obtain rc0 d1 rc2 d2 where 1: "checkProtocolTimeouts env d = Some (rc0, d1)" "run_rx env d1 = Some (rc2, d2)"
      "d' = d2 \<or> run_tx env d2 = Some (rc, d')"
    by (auto simp: run_def bind_eq_Some_conv split: if_splits)
  have "timely_device (env_now env) d2" by (rule timely_run_rx [OF 1(2) timely_timeouts [OF 1(1)]])
  then show ?thesis using 1(3) timely_same [of "env_now env" d2 d'] run_tx_frame [of env d2 rc d'] by auto
qed

lemma run_timeout:
  assumes "run env d = Some (rc, d')" and c: "d_ctl d = Some c" "isStateTimedOut (env_now env) c" and rx: "\<not> rxDone (n_radio (d_net d))"
  shows "\<exists>c'. d_ctl d' = Some c' \<and> ic_type c' = ic_type c \<and> protocolState c' = PROTOCOL_IDLE \<and> \<not> inclusionModeEnabled c' \<and> d_type d' = d_type d \<and>
    ic_state c' = (if ic_type c = STANDARD \<and> ic_state c = INCLUSION_PENDING then NOT_INCLUDED else ic_state c) \<and>
    d_store d' = (if ic_type c = STANDARD \<and> ic_state c = INCLUSION_PENDING
      then snd (persistState (e_ops env) NOT_INCLUDED (d_store d)) else d_store d)"
proof -
  obtain d1 where d1: "resetProtocolState env (upd_ctl (\<lambda>c. c\<lparr>inclusionModeEnabled := False\<rparr>) d) = Some d1"
      "checkProtocolTimeouts env d = Some (RM_E_NONE, d1)"
    using c by (simp add: checkProtocolTimeouts_def handleStateTimeout_def resetProtocolState_def Let_def)
  let ?c1 = "(transitionToState (env_now env) PROTOCOL_IDLE (c\<lparr>inclusionModeEnabled := False\<rparr>))\<lparr>retryCount := 0\<rparr>"
  have d1': "d_net d1 = d_net d" "d_type d1 = d_type d"
      "d_store d1 = (if ic_type c = STANDARD \<and> ic_state c = INCLUSION_PENDING
        then snd (persistState (e_ops env) NOT_INCLUDED (d_store d)) else d_store d)"
      "d_ctl d1 = Some (if ic_type c = STANDARD \<and> ic_state c = INCLUSION_PENDING then ?c1\<lparr>ic_state := NOT_INCLUDED\<rparr> else ?c1)"
    using d1(1) c(1) by (auto simp: resetProtocolState_def Let_def split: if_splits)
  have "run_rx env d1 = Some (RM_E_NONE, upd_radio (n_radio (d_net d1)) d1) \<or> run_rx env d1 = None"
    using rx d1'(1) by (simp add: run_rx_def checkAndClearRxFlag_def guard_ok_def)
  then have "run_tx env (upd_radio (n_radio (d_net d1)) d1) = Some (rc, d')"
    using assms(1) d1(2) by (auto simp: run_def)
  from run_tx_frame [OF this] show ?thesis using d1' by simp
qed

context device_store
begin

lemma stored_state:
  assumes "inv s" and "named_state st"
  shows "loadState ops st0 (snd (persistState ops st s)) = (RM_E_NONE, st)"
  using bs_keep [OF assms(1), of STATE_KEY "[inclusion_state_code st]"] load_after [of "snd (persistState ops st s)" STATE_KEY "[inclusion_state_code st]" "[]"]
    inclusion_state_of_byte_code [OF assms(2)]
  by (simp add: persistState_def loadState_def del: inclusion_state_code.simps)

end

section \<open>Properties\<close>

text \<open>C7: A started device never runs into undefined behaviour: in any session of run-loop passes,
  interrupts, application messages and inclusion calls, with any clock, noise and radio errors, as
  long as the driver hands over frames of at least a header, the invariants of tracker, routing table,
  radio, keys and store hold throughout, and every operation of the next step returns. The hypothesis on
  frames is needed: a shorter frame is parsed past its end (\<open>short_frame_undefined\<close>).\<close>

theorem device_never_faults:
  fixes L :: "'e eeprom_lib"
  assumes "(api E)\<^sup>*\<^sup>* d d'" and "steady (eeprom_inv L opened) d"
    and E: "\<And>env. E env \<Longrightarrow> lawful (eeprom_ops L) env \<and> full_frames (w_rl (e_world env))"
  shows "steady (eeprom_inv L opened) d' \<and>
    (\<forall>env topic data target p b. E env \<longrightarrow>
      safe (steady (eeprom_inv L opened)) (run env d') \<and> safe (steady (eeprom_inv L opened)) (sendData env topic data target d') \<and>
      safe (steady (eeprom_inv L opened)) (sendInclusionOpen env d') \<and> safe (steady (eeprom_inv L opened)) (sendInclusionRequest env d') \<and>
      safe (steady (eeprom_inv L opened)) (sendInclusionResponse env p d') \<and> safe (steady (eeprom_inv L opened)) (sendInclusionConfirm env d') \<and>
      safe (steady (eeprom_inv L opened)) (sendInclusionSuccess env d') \<and> safe (steady (eeprom_inv L opened)) (enableInclusionMode env b d'))"
proof -
  have s: "steady (eeprom_inv L opened) d'" by (rule node.steady_session [OF assms(1,2) E])
  show ?thesis by (intro conjI allI impI s; rule node.safe_api [OF s]; simp add: E)
qed

definition toy_radio :: radiolib where
  "toy_radio = quiet_driver\<lparr>rl_getPacketLength := \<lambda>_. 40\<rparr>"

definition toy_air :: "bytes storage env" where
  "toy_air = toy_env\<lparr>e_world := toy_world\<lparr>w_rl := toy_radio\<rparr>\<rparr>"

lemma toy_air_ok: "lawful (eeprom_ops ram_eeprom) toy_air" "full_frames (w_rl (e_world toy_air))"
  using toy_sha_laws toy_cl_aes
  by (simp_all add: lawful_def toy_air_def toy_env_def toy_world_def full_frames_def toy_radio_def quiet_driver_def)

lemma toy_node_steady:
  assumes "length priv = 32" and "eeprom_inv ram_eeprom ram_opened s" and "eeprom_contents ram_eeprom s PRIV_KEY = Some priv"
  shows "steady (eeprom_inv ram_eeprom ram_opened) (toy_node dt c priv s)"
  using toy_node_ok [OF assms, of dt c]
  by (simp add: steady_def node_ok_def toy_node_def toy_dev_def RadioMeshDevice_def key_length_def setDeviceKeys_def EncryptionService_def)

theorem device_never_faults_witness:
  "let d = enableRelay True (toy_node STANDARD (fresh_controller NOT_INCLUDED STANDARD) (replicate 32 2) (toy_node_store (replicate 32 2)))
   in steady (eeprom_inv ram_eeprom ram_opened) d \<and> safe (steady (eeprom_inv ram_eeprom ram_opened)) (run toy_air d)"
proof -
  let ?d = "toy_node STANDARD (fresh_controller NOT_INCLUDED STANDARD) (replicate 32 2) (toy_node_store (replicate 32 2))"
  have a: "(api (\<lambda>env. env = toy_air))\<^sup>*\<^sup>* ?d (enableRelay True ?d)" by (intro r_into_rtranclp api.relay)
  have s: "steady (eeprom_inv ram_eeprom ram_opened) ?d" by (rule toy_node_steady [OF _ toy_node_store_ok]) simp_all
  show ?thesis unfolding Let_def using device_never_faults [OF a s] toy_air_ok by blast
qed

text \<open>Of the frames the driver may hand over, those shorter than a header have no defined result.\<close>

lemma short_frame_undefined:
  assumes "isSetup (n_radio (d_net d))" and "0 \<le> rl_getPacketLength (w_rl (e_world env)) (ra_calls (n_radio (d_net d)))"
    and "rl_readData (w_rl (e_world env)) (Suc (ra_calls (n_radio (d_net d))))
      (nat (rl_getPacketLength (w_rl (e_world env)) (ra_calls (n_radio (d_net d))))) = (x, ERR_NONE)" and "length x < HEADER_LENGTH"
  shows "handleReceivedData env d = None"
  using assms fromByteBuffer_None [of x]
  by (auto simp: handleReceivedData_def readReceivedData_def guard_ok_def Let_def bind_eq_None_conv split: option.splits)

text \<open>C10: No wait of the inclusion protocol lasts: after every pass of the run loop the controller is
  idle or has waited for at most a minute (on the 32-bit clock), whatever was received. A pass that
  finds the wait overdue and no frame pending ends it: the controller is idle and out of inclusion
  mode, and a device that was pending is not included again, in its controller and in its store, ready
  for the next invitation.\<close>

theorem no_wait_outlasts_timeout:
  fixes L :: "'e eeprom_lib"
  assumes "steady (eeprom_inv L opened) d" and "lawful (eeprom_ops L) env" and "full_frames (w_rl (e_world env))" and "d_ctl d = Some c"
  shows "\<exists>rc d' c'. run env d = Some (rc, d') \<and> d_ctl d' = Some c' \<and>
    (protocolState c' = PROTOCOL_IDLE \<or> unat (env_now env - stateStartTime c') \<le> 60000) \<and>
    (isStateTimedOut (env_now env) c \<and> \<not> rxDone (n_radio (d_net d)) \<longrightarrow>
      protocolState c' = PROTOCOL_IDLE \<and> \<not> inclusionModeEnabled c' \<and>
      (ic_type c = STANDARD \<and> d_type d = STANDARD \<and> ic_state c = INCLUSION_PENDING \<longrightarrow>
         device_at NOT_INCLUDED PROTOCOL_IDLE d' \<and> loadState (eeprom_ops L) st0 (d_store d') = (RM_E_NONE, NOT_INCLUDED)))"
proof -
  obtain rc d' where r: "run env d = Some (rc, d')" using node.safe_run [OF assms(1-3)] by (auto simp: safe_def)
  obtain c' where c': "d_ctl d' = Some c'" "timely (env_now env) c'" using timely_run [OF r] by (auto simp: timely_device_def)
  have inv: "eeprom_inv L opened (d_store d)" "e_ops env = eeprom_ops L" using assms(1,2) by (simp_all add: steady_def lawful_def)
  have "protocolState c' = PROTOCOL_IDLE \<or> unat (env_now env - stateStartTime c') \<le> 60000"
    using c'(2) by (auto simp: timely_def BASE_TIMEOUT_MS_def word_le_nat_alt)
  moreover have "protocolState c' = PROTOCOL_IDLE \<and> \<not> inclusionModeEnabled c' \<and>
      (ic_type c = STANDARD \<and> d_type d = STANDARD \<and> ic_state c = INCLUSION_PENDING \<longrightarrow>
         device_at NOT_INCLUDED PROTOCOL_IDLE d' \<and> loadState (eeprom_ops L) st0 (d_store d') = (RM_E_NONE, NOT_INCLUDED))"
    if "isStateTimedOut (env_now env) c" "\<not> rxDone (n_radio (d_net d))"
    using run_timeout [OF r assms(4) that] c'(1) inv(2) node.stored_state [OF inv(1), of NOT_INCLUDED st0]
    by (auto simp: device_at_def named_state_def)
  ultimately show ?thesis using r c'(1) by blast
qed

theorem no_wait_outlasts_timeout_witness:
  "let d = toy_node STANDARD ((fresh_controller INCLUSION_PENDING STANDARD)\<lparr>protocolState := WAITING_FOR_RESPONSE\<rparr>) (replicate 32 2)
       (toy_node_store (replicate 32 2))
   in \<exists>rc d'. run (later 70000 toy_air) d = Some (rc, d') \<and> device_at NOT_INCLUDED PROTOCOL_IDLE d'"
proof -
  let ?c = "(fresh_controller INCLUSION_PENDING STANDARD)\<lparr>protocolState := WAITING_FOR_RESPONSE\<rparr>"
  let ?d = "toy_node STANDARD ?c (replicate 32 2) (toy_node_store (replicate 32 2))"
  have s: "steady (eeprom_inv ram_eeprom ram_opened) ?d" by (rule toy_node_steady [OF _ toy_node_store_ok]) simp_all
  have l: "lawful (eeprom_ops ram_eeprom) (later 70000 toy_air)" "full_frames (w_rl (e_world (later 70000 toy_air)))"
    using toy_air_ok by (simp_all add: lawful_def later_def)
  have d: "d_ctl ?d = Some ?c" "d_type ?d = STANDARD" "\<not> rxDone (n_radio (d_net ?d))"
    by (simp_all add: toy_node_def toy_dev_def RadioMeshDevice_def toy_net_def LoraRadio_def)
  have t: "isStateTimedOut (env_now (later 70000 toy_air)) ?c"
    by (simp add: isStateTimedOut_def fresh_controller_def later_def getStateTimeoutMs_def BASE_TIMEOUT_MS_def)
  have p: "ic_type ?c = STANDARD" "ic_state ?c = INCLUSION_PENDING" by (simp_all add: fresh_controller_def)
  from no_wait_outlasts_timeout [OF s l d(1)] d t p show ?thesis unfolding Let_def by blast
qed

end
