(* ===== verification/RM_Relay.thy ===== *)
theory RM_Relay
  imports RM_Session
begin

text \<open>
  What a mesh of devices does to messages: which frames a device lets through
  (\<open>src/src/framework/device/src/Device.cpp\<close>, \<open>handleReceivedData\<close>), what happens to a frame that
  is heard twice, and what relaying does to a message and how often it can happen. The lemmas are
  about one device that hears one packet; the properties follow messages over two and more devices.
\<close>

section \<open>What is let through\<close>

text \<open>Only the order of the duplicate tracker changed.\<close>

definition only_tracker :: "'s device \<Rightarrow> 's device \<Rightarrow> bool" where
  "only_tracker d d' \<longleftrightarrow> d' = d\<lparr>d_net := (d_net d)\<lparr>packetTracker := packetTracker (d_net d')\<rparr>\<rparr> \<and>
     map_of (entries (packetTracker (d_net d'))) = map_of (entries (packetTracker (d_net d)))"

lemma MIC_split: "hasMIC p \<Longrightarrow> p_data p = getDataWithoutMIC p @ packet_extractMIC p \<and> length (packet_extractMIC p) = 4"
  by (simp add: getDataWithoutMIC_def packet_extractMIC_def hasMIC_def MIC_SIZE_def)

lemma verify_strip_accepts:
  assumes v: "verifyAndStripReceivedPacketMIC env p d = Some (Some q)" and topic: "requiresMIC (p_topic p)"
    and key: "key_length (getMICKey (env_lib env) (Some (n_es (d_net d))) (p_topic p) (d_type d) (state_or_not_included d))"
    and lib: "cipher_laws (cl_aes (env_lib env))"
  shows "\<exists>mic. p_data p = p_data q @ mic \<and> length mic = 4 \<and> q = p\<lparr>p_data := p_data q\<rparr> \<and>
    getMICKey (env_lib env) (Some (n_es (d_net d))) (p_topic p) (d_type d) (state_or_not_included d) \<noteq> [] \<and>
    computeMIC (cl_aes (env_lib env)) (getMICKey (env_lib env) (Some (n_es (d_net d))) (p_topic p) (d_type d) (state_or_not_included d))
      (getHeaderBytes p @ p_data q) = Some mic"
proof -
  let ?k = "getMICKey (env_lib env) (Some (n_es (d_net d))) (p_topic p) (d_type d) (state_or_not_included d)"
  have h: "hasMIC p" "q = p\<lparr>p_data := getDataWithoutMIC p\<rparr>"
      "verifyPacketMIC (env_lib env) (Some (n_es (d_net d))) (getHeaderBytes p) (getDataWithoutMIC p) (packet_extractMIC p)
        (p_topic p) (d_type d) (state_or_not_included d) = Some True"
    using v topic by (auto simp: verifyAndStripReceivedPacketMIC_def requiresMIC_def bind_eq_Some_conv Let_def split: if_splits)
  have ne: "?k \<noteq> []" using h(3) topic by (auto simp: verifyPacketMIC_def Let_def split: if_splits)
  then have "length ?k = 32" using key by (auto simp: key_length_def)
  from verifyPacketMIC_key [OF lib topic refl this] h(3) ne MIC_split [OF h(1)] show ?thesis
    by (intro exI [of _ "packet_extractMIC p"]) (simp add: h(2))
qed

text \<open>C8: Nothing gets past the integrity check: when a device hears a packet on any topic but the two
  that carry public keys, either nothing but the order of its duplicate tracker changes (no callback,
  no route, no key, no state, nothing sent, nothing stored), or the payload ends in the four bytes
  that AES-CMAC computes over the packet's header and the rest of the payload under the key that the
  device holds for this topic, and the checksum is right.\<close>

theorem only_authentic_packets_act:
  assumes "receive_packet env p d = Some (rc, d')" and topic: "p_topic p \<notin> {T_INCLUDE_OPEN, T_INCLUDE_REQUEST}"
    and "net_inv (d_net d)" "key_length (networkKey (n_es (d_net d)))" and "sha_laws (env_lib env)" "cipher_laws (cl_aes (env_lib env))"
  shows "only_tracker d d' \<and> rc \<in> {RM_E_NONE, RM_E_PACKET_CORRUPTED, RM_E_AUTH_FAILED} \<or>
    (\<exists>x mic. p_data p = x @ mic \<and> length mic = 4 \<and> p_crc p = packet_crc (p_fcounter p) x \<and>
       getMICKey (env_lib env) (Some (n_es (d_net d))) (p_topic p) (d_type d) (state_or_not_included d) \<noteq> [] \<and>
       computeMIC (cl_aes (env_lib env)) (getMICKey (env_lib env) (Some (n_es (d_net d))) (p_topic p) (d_type d) (state_or_not_included d))
         (getHeaderBytes p @ x) = Some mic)"
proof -
  have req: "requiresMIC (p_topic p)" using topic by (simp add: requiresMIC_def)
  have "tracker_inv (packetTracker (d_net d))" using assms(3) by (simp add: net_inv_def)
  from found_in_tracker [OF this, of p] obtain seen n where n: "isPacketFoundInTracker p (d_net d) = Some (seen, n)"
      "n = (d_net d)\<lparr>packetTracker := packetTracker n\<rparr>" "map_of (entries (packetTracker n)) = map_of (entries (packetTracker (d_net d)))"
    by auto
  let ?d = "d\<lparr>d_net := n\<rparr>"
  have same: "n_es n = n_es (d_net d)" by (subst n(2), simp)
  have ot: "only_tracker d ?d" using n(3) by (subst n(2)) (simp add: only_tracker_def)
  show ?thesis
  proof (cases "seen \<or> \<not> isReceivedDataCrcValid p")
    case True
    then have "d' = ?d \<and> rc \<in> {RM_E_NONE, RM_E_PACKET_CORRUPTED}" using assms(1) n(1) by (auto simp: receive_packet_def Let_def split: if_splits)
    then show ?thesis using ot by auto
  next
    case False
    then obtain v where v: "verifyAndStripReceivedPacketMIC env p ?d = Some v" using assms(1) n(1) by (auto simp: receive_packet_def bind_eq_Some_conv Let_def)
    show ?thesis
    proof (cases v)
      case None
      then have "d' = ?d \<and> rc = RM_E_AUTH_FAILED" using assms(1) n(1) v False by (auto simp: receive_packet_def Let_def)
      then show ?thesis using ot by auto
    next
      case (Some q)
      have st: "state_or_not_included ?d = state_or_not_included d" "d_type ?d = d_type d" "d_net ?d = n" by (simp_all add: state_or_not_included_def)
      have "key_length (getMICKey (env_lib env) (Some (n_es (d_net ?d))) (p_topic p) (d_type ?d) (state_or_not_included ?d))"
        by (rule getMICKey_length) (use assms same in simp_all)
      from verify_strip_accepts [OF v [unfolded Some] req this assms(6)] obtain mic where mic: "p_data p = p_data q @ mic" "length mic = 4"
          "q = p\<lparr>p_data := p_data q\<rparr>" "getMICKey (env_lib env) (Some (n_es (d_net d))) (p_topic p) (d_type d) (state_or_not_included d) \<noteq> []"
          "computeMIC (cl_aes (env_lib env)) (getMICKey (env_lib env) (Some (n_es (d_net d))) (p_topic p) (d_type d) (state_or_not_included d))
             (getHeaderBytes p @ p_data q) = Some mic"
        unfolding st same by blast
      have "hasMIC p" using req mic by (simp add: hasMIC_def requiresMIC_def MIC_SIZE_def)
      then have "getDataWithoutMIC p = p_data q" using mic by (simp add: getDataWithoutMIC_def MIC_SIZE_def)
      then have "p_crc p = packet_crc (p_fcounter p) (p_data q)" using False by (simp add: isReceivedDataCrcValid_def split: if_splits)
      then show ?thesis using mic by blast
    qed
  qed
qed

lemma toy_included_steady: "steady (eeprom_inv ram_eeprom ram_opened) (toy_included dt)"
  using toy_included_ok(1,2) [of dt] ram_device_inv
  by (simp add: steady_def ready_def on_air_def networked_def key_length_def) (simp add: toy_included_def toy_dev_def RadioMeshDevice_def)

lemma toy_env_lawful: "lawful (eeprom_ops ram_eeprom) toy_env"
  using toy_sha_laws toy_cl_aes by (simp add: lawful_def toy_env_lib) (simp add: toy_env_def)

theorem only_authentic_packets_act_witness:
  "let p = sample_packet\<lparr>p_topic := 0x20, p_data := [1, 2, 3]\<rparr>
   in \<exists>rc d'. receive_packet toy_env p (toy_included STANDARD) = Some (rc, d') \<and> only_tracker (toy_included STANDARD) d'"
proof -
  let ?d = "toy_included STANDARD" and ?p = "sample_packet\<lparr>p_topic := 0x20, p_data := [1, 2, 3]\<rparr>"
  have "safe (steady (eeprom_inv ram_eeprom ram_opened)) (receive_packet toy_env ?p ?d)"
    by (rule node.safe_receive_packet [OF toy_included_steady toy_env_lawful])
  then obtain rc d' where r: "receive_packet toy_env ?p ?d = Some (rc, d')" by (auto simp: safe_def)
  have "net_inv (d_net ?d)" "key_length (networkKey (n_es (d_net ?d)))"
    using toy_included_steady [of STANDARD] by (simp_all add: steady_def ready_def)
  note auth = only_authentic_packets_act [OF r _ this]
  have "\<nexists>x mic. p_data ?p = x @ mic \<and> length mic = 4" by (auto dest: arg_cong [where f = length])
  then have "only_tracker ?d d'" using auth toy_sha_laws toy_cl_aes by (auto simp: toy_env_lib)
  then show ?thesis using r by auto
qed

section \<open>Relaying\<close>

text \<open>A device hears a packet and sends another in consequence; a path of such steps through devices
  that satisfy \<open>R\<close>, each with its own surroundings.\<close>

definition relays :: "'s env \<Rightarrow> 's device \<Rightarrow> packet \<Rightarrow> packet \<Rightarrow> bool" where
  "relays env d q q' \<longleftrightarrow> (\<exists>rc d'. receive_packet env q d = Some (rc, d') \<and> sent_frames d' = sent_frames d @ [toByteBuffer q'])"

inductive relay_path :: "('s env \<Rightarrow> 's device \<Rightarrow> packet \<Rightarrow> bool) \<Rightarrow> packet \<Rightarrow> nat \<Rightarrow> packet \<Rightarrow> bool" for R q where
  here: "relay_path R q 0 q"
| hop: "relay_path R q n q1 \<Longrightarrow> R env d q1 \<Longrightarrow> relays env d q1 q2 \<Longrightarrow> relay_path R q (Suc n) q2"

lemma same_identity_trans: "same_identity p q \<Longrightarrow> same_identity q r \<Longrightarrow> same_identity p r"
  by (simp add: same_identity_def)

lemma routePacket_sends:
  assumes "routePacket w p our dt st n = Some (rc, n')" and "ra_sent (n_radio n') = ra_sent (n_radio n) @ [f]"
  shows "\<exists>q. f = toByteBuffer q \<and> p_hops p < 7 \<and> p_hops q = p_hops p + 1 \<and> same_identity p q \<and> p_lastHop q = our"
  using assms(1)
proof (cases rule: routePacket_cases)
  case hops
  then show ?thesis using assms(2) by simp
next
  case (mic q n1 q')
  then show ?thesis using assms(2) prepare_packet_frame [OF mic(2)] by (simp add: same_core_def)
next
  case (radio q n1 q')
  then show ?thesis
    using assms(2) prepare_packet_frame [OF radio(2)] router_sendPacket_frame [OF radio(4)] by (simp add: same_core_def)
next
  case (sent q n1 q' n2)
  note f = prepare_packet_frame [OF sent(2)]
  have "same_identity q q'" "p_hops q' = p_hops q" "p_lastHop q' = p_lastHop q"
    using computeAndAppendMIC_same [OF sent(3)] packet_appendMIC_same [of q] by (auto simp: same_identity_def)
  moreover have "ra_sent (n_radio n') = ra_sent (n_radio n) @ [toByteBuffer q']"
    using f router_sendPacket_frame [OF sent(4)] sent(6) by (auto simp: same_core_def trackPacket_def bind_eq_Some_conv)
  ultimately show ?thesis
    using f sent(1) assms(2) same_identity_trans by (intro exI [of _ q']) (auto simp: MAX_HOPS_def not_le)
qed

lemma relays_step:
  assumes r: "relays env d q q'" and topic: "\<not> isInclusionMessage (p_topic q)"
  shows "p_hops q < 7 \<and> p_hops q' = p_hops q + 1 \<and> same_identity q q' \<and> p_lastHop q' = d_id d"
proof -
  obtain rc d' where h: "receive_packet env q d = Some (rc, d')" "sent_frames d' = sent_frames d @ [toByteBuffer q']"
    using r by (auto simp: relays_def)
  obtain seen n where n: "isPacketFoundInTracker q (d_net d) = Some (seen, n)"
    using h(1) by (auto simp: receive_packet_def bind_eq_Some_conv)
  then have n': "ra_sent (n_radio n) = ra_sent (n_radio (d_net d))" by (auto simp: isPacketFoundInTracker_def bind_eq_Some_conv)
  let ?d = "d\<lparr>d_net := n\<rparr>"
  from h n n' obtain p d2 where p: "verifyAndStripReceivedPacketMIC env q ?d = Some (Some p)" "learn_route env p ?d = Some d2"
      "deliver env p d2 = Some (rc, d')"
    by (auto simp: receive_packet_def Let_def bind_eq_Some_conv sent_frames_def split: if_splits option.splits)
  have qp: "same_identity q p" "p_hops p = p_hops q" "p_topic p = p_topic q"
    using p(1) by (auto simp: verifyAndStripReceivedPacketMIC_def bind_eq_Some_conv same_identity_def Let_def split: if_splits)
  have d2: "sent_frames d2 = sent_frames d" "d_id d2 = d_id d"
    using p(2) n' by (auto simp: learn_route_def bind_eq_Some_conv radio_getRSSI_def sent_frames_def)
  obtain p1 d3 where p1: "device_decrypt env p d2 = Some (p1, d3) \<or> p1 = p \<and> d3 = d2"
      "d' = notify (Some p1) RM_E_NONE d3 \<or> device_route env p1 (notify (Some p1) RM_E_NONE d3) = Some (rc, d')"
    using p(3) topic qp(3) by (auto simp: deliver_def bind_eq_Some_conv Let_def split: if_splits)
  have d3: "sent_frames d3 = sent_frames d" "d_id d3 = d_id d" "same_identity p p1" "p_hops p1 = p_hops p"
    using p1(1) d2 by (auto simp: device_decrypt_def bind_eq_Some_conv sent_frames_def same_identity_def)
  let ?d4 = "notify (Some p1) RM_E_NONE d3"
  have "d' \<noteq> ?d4" using h(2) d3(1) by auto
  then have "device_route env p1 ?d4 = Some (rc, d')" using p1(2) by blast
  then obtain n4 where n4: "routePacket (e_world env) p1 (d_id ?d4) (d_type ?d4) (state_or_not_included ?d4) (d_net ?d4) = Some (rc, n4)"
      "d' = ?d4\<lparr>d_net := n4\<rparr>"
    by (auto simp: device_route_def bind_eq_Some_conv)
  have "ra_sent (n_radio n4) = ra_sent (n_radio (d_net ?d4)) @ [toByteBuffer q']"
    using h(2) n4(2) d3(1) by (simp add: sent_frames_def)
  from routePacket_sends [OF n4(1) this] show ?thesis
    using d3 qp same_identity_trans by (auto simp: wire.enc_inject)
qed

lemma hop_step: "(h :: byte) < 7 \<Longrightarrow> unat h < 7 \<and> unat (h + 1) = unat h + 1"
  by (simp add: word_less_nat_alt unat_word_ariths)

text \<open>C9: Flooding stops: however many devices relay a message, in whatever state and surroundings, a
  copy that has been relayed \<open>n\<close> times carries the original's hop count plus \<open>n\<close>, and no copy is relayed
  beyond the seventh hop; the sender, the destination, the identifier, the topic and the frame counter
  never change. So the relation between a message and its relayed copies is well-founded.\<close>

theorem flooding_terminates:
  assumes "relay_path R q n q'" and "\<not> isInclusionMessage (p_topic q)"
  shows "unat (p_hops q') = unat (p_hops q) + n \<and> n \<le> 7 - unat (p_hops q) \<and> same_identity q q' \<and>
    wfP (\<lambda>p' p. \<not> isInclusionMessage (p_topic p) \<and> (\<exists>env d. relays (env :: 's env) d p p'))"
proof -
  have "unat (p_hops q') = unat (p_hops q) + n \<and> n \<le> 7 - unat (p_hops q) \<and> same_identity q q'"
    using assms
  proof (induction rule: relay_path.induct)
    case here
    then show ?case by (simp add: same_identity_def)
  next
    case (hop n q1 env d q2)
    then have "\<not> isInclusionMessage (p_topic q1)" by (simp add: same_identity_def)
    from relays_step [OF hop.hyps(3) this] have s: "unat (p_hops q1) < 7" "unat (p_hops q2) = unat (p_hops q1) + 1" "same_identity q1 q2"
      using hop_step by auto
    then show ?case using hop same_identity_trans by fastforce
  qed
  moreover have "wfP (\<lambda>p' p. \<not> isInclusionMessage (p_topic p) \<and> (\<exists>env d. relays (env :: 's env) d p p'))"
  proof (rule wfp_if_convertible_to_nat [where f = "\<lambda>p. 7 - unat (p_hops p)"])
    fix p' p assume "\<not> isInclusionMessage (p_topic p) \<and> (\<exists>env d. relays (env :: 's env) d p p')"
    then have "p_hops p < 7" "p_hops p' = p_hops p + 1" using relays_step by blast+
    then have "unat (p_hops p') = unat (p_hops p) + 1" "unat (p_hops p) < 7" using hop_step by auto
    then show "7 - unat (p_hops p') < 7 - unat (p_hops p)" by simp
  qed
  ultimately show ?thesis by blast
qed

section \<open>Relaying under the network key\<close>

text \<open>A relay that shares the key and is not the destination decrypts, and sends the data on under the
  same key.\<close>

definition relay_for :: "crypto_lib \<Rightarrow> bytes \<Rightarrow> 's env \<Rightarrow> 's device \<Rightarrow> packet \<Rightarrow> bool" where
  "relay_for lib key env d q \<longleftrightarrow> env_lib env = lib \<and> on_air env d \<and> networked d key \<and> d_type d = STANDARD \<and> relayEnabled d \<and>
     p_dest q \<noteq> d_id d \<and> p_hops q < 7 \<and> fresh q d"

lemma relay_forwards:
  assumes lib: "ctr_laws lib" "cipher_laws (cl_aes lib)" and r: "relay_for lib key env d q"
    and q: "sealed lib key (box lib key data) q" "T_MAX_RESERVED < p_topic q" "length data \<le> 217"
  shows "\<exists>d' q'. receive_packet env q d = Some (RM_E_NONE, d') \<and> sent_frames d' = sent_frames d @ [toByteBuffer q'] \<and>
    sealed lib key (box lib key data) q' \<and>
    rxCalls d' = (if onPacketReceived d then rxCalls d @ [(Some (q\<lparr>p_data := data\<rparr>), RM_E_NONE)] else rxCalls d)"
proof -
  have e: "env_lib env = lib" "on_air env d" "networked d key" "d_type d = STANDARD" "relayEnabled d" "p_dest q \<noteq> d_id d" "p_hops q < 7" "fresh q d"
    using r by (simp_all add: relay_for_def)
  have i: "net_inv (d_net d)" "ra_module (n_radio (d_net d))" "n_esPtr (d_net d)" "n_micPtr (d_net d)" "accepting (w_rl (e_world env))"
    using e(2) by (simp_all add: on_air_def)
  obtain c where c: "d_ctl d = Some c" "ic_state c = INCLUDED \<or> d_type d = HUB" using e(3) by (auto simp: networked_def)
  have k: "length key = 32" "networkKey (n_es (d_net d)) = key" using e(3) by (simp_all add: networked_def)
  have top: "requiresMIC (p_topic q)" "p_topic q \<notin> {T_INCLUDE_OPEN, T_INCLUDE_REQUEST, T_INCLUDE_RESPONSE}"
      "\<not> isInclusionMessage (p_topic q)" "isApplicationMessage (p_topic q)"
    using app_topic [OF q(2)] by simp_all
  note m = networked_method [OF e(3) top(2) c(1)]
  have mic: "getMICKey (env_lib env) (Some (n_es (d_net d))) (p_topic q) (d_type d) (state_or_not_included d) = key"
    using micKey_network [OF m] k c by (simp add: state_or_not_included_def getState_def)
  have lq: "cipher_laws (cl_aes (env_lib env))" "sealed (env_lib env) key (box lib key data) q" using lib q e by simp_all
  obtain d1 where d1: "receive_packet env q d = deliver env (q\<lparr>p_data := box lib key data\<rparr>) d1" "rx_frame d d1"
    using receive_sealed [OF i(1,2) e(8) lq mic k(1)] by blast
  note f1 = rx_frameD [OF d1(2)]
  have "networked d1 key" using e(3) f1 by (simp add: networked_def)
  from device_decrypt_AES [OF this, of "q\<lparr>p_data := box lib key data\<rparr>" env] top(2) obtain aes where
      dec: "device_decrypt env (q\<lparr>p_data := box lib key data\<rparr>) d1 = Some (q\<lparr>p_data := data\<rparr>, d1\<lparr>d_net := (d_net d1)\<lparr>n_aes := aes\<rparr>\<rparr>)"
    using lib(1) box_Nil_iff [OF lib(1), of key data] e(1) by (auto split: if_splits)
  let ?p = "q\<lparr>p_data := data\<rparr>"
  let ?d2 = "notify (Some ?p) RM_E_NONE (d1\<lparr>d_net := (d_net d1)\<lparr>n_aes := aes\<rparr>\<rparr>)"
  have del: "deliver env (q\<lparr>p_data := box lib key data\<rparr>) d1 = device_route env ?p ?d2"
    using top e f1 dec by (simp add: deliver_def Let_def)
  let ?n = "(d_net d1)\<lparr>n_aes := aes\<rparr>"
  have n: "net_inv ?n" "n_esPtr ?n" "n_micPtr ?n" "ra_module (n_radio ?n)" "n_es ?n = n_es (d_net d)" using f1 i by (simp_all add: net_inv_def)
  have st: "state_or_not_included ?d2 = ic_state c" "d_net ?d2 = ?n" "d_id ?d2 = d_id d" "d_type ?d2 = d_type d"
    using f1 c by (simp_all add: state_or_not_included_def getState_def)
  have "\<exists>n' q' mic. routePacket (e_world env) ?p (d_id d) (d_type d) (ic_state c) ?n = Some (RM_E_NONE, n') \<and>
    ra_sent (n_radio n') = ra_sent (n_radio ?n) @ [toByteBuffer q'] \<and> same_identity ?p q' \<and> p_lastHop q' = d_id d \<and>
    p_hops q' = p_hops ?p + 1 \<and> p_data q' = box lib key data @ mic \<and> length mic = 4 \<and> p_crc q' = packet_crc (p_fcounter ?p) (box lib key data) \<and>
    computeMIC (cl_aes (env_lib env)) key (getHeaderBytes q' @ box lib key data) = Some mic \<and>
    map_of (entries (packetTracker n')) (deviceIdToUint32 (p_id ?p)) = Some (p_crc q')"
  proof (rule routePacket_sealed [OF n(1) _ n(2-4) i(5)])
    show "\<exists>a. es_encrypt (env_lib env) (n_es ?n) (p_data ?p) (p_topic ?p) (d_type d) (ic_state c) (n_aes ?n) = Some (box lib key data, a)"
      using es_encrypt_AES [OF m, of "n_es (d_net d)" lib data] k n(5) e(1) by simp
    show "getMICKey (env_lib env) (Some (n_es ?n)) (p_topic ?p) (d_type d) (ic_state c) = key" using micKey_network [OF m] k n(5) by simp
  qed (use e lib top q k length_box [OF lib(1)] box_Nil_iff [OF lib(1)] in auto)
  then obtain n' q' mic where s: "routePacket (e_world env) ?p (d_id d) (d_type d) (ic_state c) ?n = Some (RM_E_NONE, n')"
      "ra_sent (n_radio n') = ra_sent (n_radio ?n) @ [toByteBuffer q']" "same_identity ?p q'" "p_data q' = box lib key data @ mic" "length mic = 4"
      "p_crc q' = packet_crc (p_fcounter ?p) (box lib key data)"
      "computeMIC (cl_aes (env_lib env)) key (getHeaderBytes q' @ box lib key data) = Some mic"
    by blast
  have "device_route env ?p ?d2 = Some (RM_E_NONE, ?d2\<lparr>d_net := n'\<rparr>)" using s(1) st by (simp add: device_route_def)
  moreover have "sealed lib key (box lib key data) q'" using s top e(1) by (auto simp: sealed_def same_identity_def)
  moreover have "sent_frames (?d2\<lparr>d_net := n'\<rparr>) = sent_frames d @ [toByteBuffer q']" using s(2) f1 by (simp add: sent_frames_def)
  moreover have "rxCalls (?d2\<lparr>d_net := n'\<rparr>) = (if onPacketReceived d then rxCalls d @ [(Some ?p, RM_E_NONE)] else rxCalls d)"
    using f1 by (simp add: notify_def)
  ultimately show ?thesis using d1(1) del by (intro exI [of _ "?d2\<lparr>d_net := n'\<rparr>"] exI [of _ q']) simp
qed

lemma relay_path_sealed:
  assumes lib: "ctr_laws lib" "cipher_laws (cl_aes lib)" and path: "relay_path (relay_for lib key) q n q'"
    and q: "sealed lib key (box lib key data) q" "T_MAX_RESERVED < p_topic q" "length data \<le> 217"
  shows "sealed lib key (box lib key data) q' \<and> same_identity q q' \<and> unat (p_hops q') = unat (p_hops q) + n"
  using path
proof (induction rule: relay_path.induct)
  case here
  then show ?case using q(1) by (simp add: same_identity_def)
next
  case (hop n q1 env d q2)
  then have q1: "sealed lib key (box lib key data) q1" "T_MAX_RESERVED < p_topic q1" "\<not> isInclusionMessage (p_topic q1)"
    using q(2) app_topic by (auto simp: same_identity_def)
  obtain rc d' where r: "receive_packet env q1 d = Some (rc, d')" "sent_frames d' = sent_frames d @ [toByteBuffer q2]"
    using hop.hyps(3) by (auto simp: relays_def)
  from relay_forwards [OF lib hop.hyps(2) q1(1,2) q(3)] r have "sealed lib key (box lib key data) q2"
    by (auto simp: wire.enc_inject)
  moreover have "same_identity q q2" "unat (p_hops q2) = unat (p_hops q1) + 1"
    using relays_step [OF hop.hyps(3) q1(3)] hop_step hop.IH same_identity_trans by auto
  ultimately show ?case using hop.IH by simp
qed

text \<open>The addressed device, or a hub, that hears a sealed application message.\<close>

lemma receive_application:
  assumes lib: "ctr_laws lib" "cipher_laws (cl_aes lib)" "env_lib env = lib" and b: "networked b key" "net_inv (d_net b)" "ra_module (n_radio (d_net b))"
    "onPacketReceived b" "d_type b = HUB \<or> p_dest q = d_id b" and q: "sealed lib key (box lib key data) q" "T_MAX_RESERVED < p_topic q" "fresh q b"
  shows "\<exists>b'. receive_packet env q b = Some (RM_E_NONE, b') \<and> rxCalls b' = rxCalls b @ [(Some (q\<lparr>p_data := data\<rparr>), RM_E_NONE)] \<and>
    networked b' key \<and> net_inv (d_net b') \<and> ra_module (n_radio (d_net b')) \<and> onPacketReceived b' \<and> d_type b' = d_type b \<and> d_id b' = d_id b \<and>
    sent_frames b' = sent_frames b \<and> fresh q b'"
proof -
  have top: "p_topic q \<notin> {T_INCLUDE_OPEN, T_INCLUDE_REQUEST, T_INCLUDE_RESPONSE}" using app_topic [OF q(2)] by simp
  obtain c where c: "d_ctl b = Some c" using b(1) by (auto simp: networked_def)
  have k: "length key = 32" using b(1) by (simp add: networked_def)
  have mic: "getMICKey (env_lib env) (Some (n_es (d_net b))) (p_topic q) (d_type b) (state_or_not_included b) = key"
    using micKey_network [OF networked_method [OF b(1) top c]] b(1) c by (simp add: state_or_not_included_def getState_def networked_def)
  have lq: "cipher_laws (cl_aes (env_lib env))" "sealed (env_lib env) key (box lib key data) q" using lib q by simp_all
  obtain b1 where b1: "receive_packet env q b = deliver env (q\<lparr>p_data := box lib key data\<rparr>) b1" "rx_frame b b1"
    using receive_sealed [OF b(2,3) q(3) lq mic k] by blast
  note f = rx_frameD [OF b1(2)]
  have n1: "networked b1 key" using b(1) f by (simp add: networked_def)
  have last: "d_type b1 = HUB \<or> p_dest (q\<lparr>p_data := box lib key data\<rparr>) = d_id b1" using b(5) f by simp
  from deliver_final [OF n1 _ last, of env] q(2) obtain b' where b':
      "deliver env (q\<lparr>p_data := box lib key data\<rparr>) b1 = Some (RM_E_NONE, b')" "packetTracker (d_net b') = packetTracker (d_net b1)"
      "rxCalls b' = rxCalls b @ [(Some (q\<lparr>p_data := data\<rparr>), RM_E_NONE)]" "sent_frames b' = sent_frames b"
      "b' = b1\<lparr>d_net := d_net b', rxCalls := rxCalls b'\<rparr>" "net_inv (d_net b')" "n_es (d_net b') = n_es (d_net b1)"
      "n_radio (d_net b') = n_radio (d_net b1)"
    using b(4) f lib box_Nil_iff [OF lib(1), of key data] by (auto split: if_splits)
  have same: "d_ctl b' = d_ctl b" "d_type b' = d_type b" "d_id b' = d_id b" "onPacketReceived b' = onPacketReceived b"
    by (subst b'(5), simp add: f)+
  have "fresh q b'" using q(3) b'(2) b1(2) by (simp add: fresh_def rx_frame_def)
  then show ?thesis using b1(1) b' same f b by (intro exI [of _ b']) (simp add: networked_def)
qed

section \<open>Messages over several hops, and copies\<close>

text \<open>C4: A message arrives over any number of relays: a device sends an application message of at most
  217 bytes, the copy travels any path of relays that share the network key, and a hub or the addressed
  device at its end, if it has not recorded the packet, hands the application exactly the data sent,
  with the originator's identity and counter and a hop count that tells the length of the path; the
  path has at most six relays. No relay needs to know the route, and each decrypts and encrypts anew.\<close>

theorem relayed_message_arrives:
  assumes lib: "ctr_laws lib" "cipher_laws (cl_aes lib)" "env_lib ea = lib" "env_lib eb = lib"
    and a: "on_air ea a" "networked a key" and msg: "T_MAX_RESERVED < topic" "length data \<le> 217"
    and b: "networked b key" "net_inv (d_net b)" "ra_module (n_radio (d_net b))" "onPacketReceived b" "d_type b = HUB \<or> target = d_id b"
  shows "\<exists>a' q. sendData ea topic data target a = Some (RM_E_NONE, a') \<and> sent_frames a' = sent_frames a @ [toByteBuffer q] \<and>
    (\<forall>n q'. relay_path (relay_for lib key) q n q' \<and> fresh q' b \<longrightarrow>
      (\<exists>b' p. receive_packet eb q' b = Some (RM_E_NONE, b') \<and> rxCalls b' = rxCalls b @ [(Some p, RM_E_NONE)] \<and> n \<le> 6 \<and>
         p_data p = data \<and> p_topic p = topic \<and> p_source p = d_id a \<and> p_dest p = target \<and> p_fcounter p = packetCounter a + 1 \<and>
         unat (p_hops p) = Suc n))"
proof -
  have e: "ctr_laws (env_lib ea)" "cipher_laws (cl_aes (env_lib ea))" using lib by simp_all
  obtain a' q where s: "sendData ea topic data target a = Some (RM_E_NONE, a')" "sent_frames a' = sent_frames a @ [toByteBuffer q]"
      "originated a topic target q" "sealed lib key (box lib key data) q"
    using network_send [OF e a msg, of target] unfolding lib(3) by blast
  then have q: "p_topic q = topic" "p_dest q = target" "p_source q = d_id a" "p_fcounter q = packetCounter a + 1" "p_hops q = 1"
    by (simp_all add: originated_def)
  have "\<exists>b' p. receive_packet eb q' b = Some (RM_E_NONE, b') \<and> rxCalls b' = rxCalls b @ [(Some p, RM_E_NONE)] \<and> n \<le> 6 \<and>
         p_data p = data \<and> p_topic p = topic \<and> p_source p = d_id a \<and> p_dest p = target \<and> p_fcounter p = packetCounter a + 1 \<and>
         unat (p_hops p) = Suc n"
    if path: "relay_path (relay_for lib key) q n q'" and fr: "fresh q' b" for n q'
  proof -
    have p: "sealed lib key (box lib key data) q'" "same_identity q q'" "unat (p_hops q') = Suc n"
      using relay_path_sealed [OF lib(1,2) path s(4) _ msg(2)] q msg(1) by simp_all
    have "n \<le> 6"
      using path
    proof (cases rule: relay_path.cases)
      case (hop m q1 env d)
      then have "unat (p_hops q1) = Suc m" "p_hops q1 < 7" using relay_path_sealed [OF lib(1,2) hop(2) s(4) _ msg(2)] q msg(1)
        by (simp_all add: relay_for_def)
      then show ?thesis using hop(1) hop_step [of "p_hops q1"] by simp
    qed simp
    moreover have "d_type b = HUB \<or> p_dest q' = d_id b" "T_MAX_RESERVED < p_topic q'" using b(5) p(2) q msg(1) by (auto simp: same_identity_def)
    ultimately show ?thesis using receive_application [OF lib(1,2,4) b(1-4) _ p(1) _ fr] p q by (auto simp: same_identity_def)
  qed
  then show ?thesis using s(1,2) by blast
qed

theorem relayed_message_arrives_witness:
  "\<exists>a' q. sendData toy_env 0x20 [7] BROADCAST_ADDR (toy_included STANDARD) = Some (RM_E_NONE, a') \<and>
     (fresh q (toy_included HUB) \<longrightarrow> (\<exists>b' p. receive_packet toy_env q (toy_included HUB) = Some (RM_E_NONE, b') \<and>
        rxCalls b' = [(Some p, RM_E_NONE)] \<and> p_data p = [7] \<and> unat (p_hops p) = 1))"
proof -
  have lib: "ctr_laws toy_lib" "cipher_laws (cl_aes toy_lib)" "env_lib toy_env = toy_lib" "env_lib toy_env = toy_lib"
    using toy_ctr_laws toy_cl_aes by (simp_all add: toy_env_lib)
  have hub: "net_inv (d_net (toy_included HUB))" "ra_module (n_radio (d_net (toy_included HUB)))" "d_type (toy_included HUB) = HUB \<or> t = d_id (toy_included HUB)" for t
    using toy_included_ok(1,3) [of HUB] by (simp_all add: on_air_def)
  obtain a' q where s: "sendData toy_env 0x20 [7] BROADCAST_ADDR (toy_included STANDARD) = Some (RM_E_NONE, a')"
      "\<forall>n q'. relay_path (relay_for toy_lib (replicate 32 5)) q n q' \<and> fresh q' (toy_included HUB) \<longrightarrow>
        (\<exists>b' p. receive_packet toy_env q' (toy_included HUB) = Some (RM_E_NONE, b') \<and> rxCalls b' = rxCalls (toy_included HUB) @ [(Some p, RM_E_NONE)] \<and>
           n \<le> 6 \<and> p_data p = [7] \<and> p_topic p = 0x20 \<and> p_source p = d_id (toy_included STANDARD) \<and> p_dest p = BROADCAST_ADDR \<and>
           p_fcounter p = packetCounter (toy_included STANDARD) + 1 \<and> unat (p_hops p) = Suc n)"
    using relayed_message_arrives [OF lib toy_included_ok(1) [of STANDARD] toy_included_ok(2) [of STANDARD] _ _ toy_included_ok(2) [of HUB]
        hub(1,2) toy_included_ok(4) hub(3), of "0x20" "[7]" BROADCAST_ADDR]
    by auto
  have "relay_path (relay_for toy_lib (replicate 32 5)) q 0 q" by (rule relay_path.here)
  then show ?thesis using s toy_included_ok(5) by fastforce
qed

text \<open>The same frame, heard any number of times.\<close>

fun hear_copies :: "'s env list \<Rightarrow> packet \<Rightarrow> 's device \<Rightarrow> 's device option" where
  "hear_copies [] q d = Some d"
| "hear_copies (env # envs) q d = do { (rc, d') \<leftarrow> receive_packet env q d; hear_copies envs q d' }"

text \<open>C14: Copies of a message are not suppressed where they arrive: the duplicate tracker records only what
  a device sends, so a hub or the addressed device hands the application the same packet once for
  every time that its frame is heard, whether the copy came over another relay, or was recorded and
  played back; neither the tracker nor the frame counter stops it.\<close>

theorem copies_are_delivered:
  assumes lib: "ctr_laws lib" "cipher_laws (cl_aes lib)" and envs: "\<forall>e \<in> set envs. env_lib e = lib"
    and b: "networked b key" "net_inv (d_net b)" "ra_module (n_radio (d_net b))" "onPacketReceived b" "d_type b = HUB \<or> p_dest q = d_id b"
    and q: "sealed lib key (box lib key data) q" "T_MAX_RESERVED < p_topic q" "fresh q b"
  shows "\<exists>b'. hear_copies envs q b = Some b' \<and>
    rxCalls b' = rxCalls b @ replicate (length envs) (Some (q\<lparr>p_data := data\<rparr>), RM_E_NONE)"
  using envs b q(3)
proof (induction envs arbitrary: b)
  case (Cons e envs)
  then have "env_lib e = lib" by simp
  from receive_application [OF lib this Cons.prems(2-6) q(1,2) Cons.prems(7)] obtain b1 where
      b1: "receive_packet e q b = Some (RM_E_NONE, b1)" "rxCalls b1 = rxCalls b @ [(Some (q\<lparr>p_data := data\<rparr>), RM_E_NONE)]"
        "networked b1 key" "net_inv (d_net b1)" "ra_module (n_radio (d_net b1))" "onPacketReceived b1" "d_type b1 = d_type b" "d_id b1 = d_id b"
        "fresh q b1"
    by blast
  then show ?case using Cons.IH [of b1] Cons.prems by auto
qed simp

section \<open>Reserved topics\<close>

text \<open>The topics below \<open>MAX_RESERVED\<close> that are not part of the inclusion: \<open>PING\<close>, \<open>PONG\<close>, \<open>ACK\<close>, \<open>CMD\<close>,
  \<open>BYE\<close> and the unassigned ones.\<close>

definition reserved_topic :: "byte \<Rightarrow> bool" where
  "reserved_topic t \<longleftrightarrow> \<not> isInclusionMessage t \<and> \<not> isApplicationMessage t"

lemma reserved_topic_simps:
  "reserved_topic t \<Longrightarrow> requiresMIC t \<and> t \<notin> {T_INCLUDE_OPEN, T_INCLUDE_REQUEST, T_INCLUDE_RESPONSE} \<and> \<not> isInclusionTopic t"
  by (auto simp: reserved_topic_def requiresMIC_def isInclusionMessage_def isInclusionTopic_iff)

text \<open>C15: Messages on the reserved topics arrive encrypted: the sender encrypts the payload of a \<open>PING\<close>,
  \<open>ACK\<close> or \<open>CMD\<close> under the network key like any other, but the receiver decrypts only inclusion
  messages and topics above \<open>MAX_RESERVED\<close>; so with all checks passed, the application of the hub or of the
  addressed device is handed the ciphertext.\<close>

theorem reserved_topics_arrive_encrypted:
  assumes lib: "ctr_laws lib" "cipher_laws (cl_aes lib)" "env_lib ea = lib" "env_lib eb = lib"
    and a: "on_air ea a" "networked a key" and msg: "reserved_topic topic" "length data \<le> 217"
    and b: "networked b key" "net_inv (d_net b)" "ra_module (n_radio (d_net b))" "onPacketReceived b" "d_type b = HUB \<or> target = d_id b"
  shows "\<exists>a' q. sendData ea topic data target a = Some (RM_E_NONE, a') \<and> sent_frames a' = sent_frames a @ [toByteBuffer q] \<and>
    (fresh q b \<longrightarrow> (\<exists>b' p. receive_packet eb q b = Some (RM_E_NONE, b') \<and> rxCalls b' = rxCalls b @ [(Some p, RM_E_NONE)] \<and>
       p_topic p = topic \<and> p_data p = box lib key data \<and> unbox lib key (p_data p) = data))"
proof -
  obtain ca where ca: "d_ctl a = Some ca" "ic_type ca = d_type a" "ic_state ca = INCLUDED \<or> d_type a = HUB"
    using a(2) by (auto simp: networked_def)
  note top = reserved_topic_simps [OF msg(1)]
  then have top2: "topic \<notin> {T_INCLUDE_OPEN, T_INCLUDE_REQUEST, T_INCLUDE_RESPONSE}" by simp
  note ma = networked_method [OF a(2) top2 ca(1)]
  have ka: "networkKey (n_es (d_net a)) = key" and k32: "length key = 32" using a(2) by (simp_all add: networked_def)
  have "\<exists>a' q. sendData ea topic data target a = Some (RM_E_NONE, a') \<and> send_frame a a' \<and>
    sent_frames a' = sent_frames a @ [toByteBuffer q] \<and> originated a topic target q \<and> sealed (env_lib ea) key (box lib key data) q \<and>
    packetCounter a' = packetCounter a + 1"
  proof (rule sendData_sealed [OF a(1) ca(1) _ msg(2)])
    show "ic_canSendMessage ca topic" using ca by (auto simp: ic_canSendMessage_def)
    show "\<exists>aes. es_encrypt (env_lib ea) (n_es (d_net a)) data topic (d_type a) (ic_state ca) (n_aes (d_net a)) = Some (box lib key data, aes)"
      using es_encrypt_AES [OF ma, of "n_es (d_net a)" lib] ka k32 lib(3) by simp
    show "getMICKey (env_lib ea) (Some (n_es (d_net a))) topic (d_type a) (ic_state ca) = key" using micKey_network [OF ma] ka by simp
  qed (use k32 msg lib top length_box [OF lib(1)] box_Nil_iff [OF lib(1)] in simp_all)
  then obtain a' q where s: "sendData ea topic data target a = Some (RM_E_NONE, a')" "sent_frames a' = sent_frames a @ [toByteBuffer q]"
      "originated a topic target q" "sealed lib key (box lib key data) q"
    using lib(3) by auto
  have "\<exists>b' p. receive_packet eb q b = Some (RM_E_NONE, b') \<and> rxCalls b' = rxCalls b @ [(Some p, RM_E_NONE)] \<and>
       p_topic p = topic \<and> p_data p = box lib key data \<and> unbox lib key (p_data p) = data" if fr: "fresh q b"
  proof -
    have qt: "p_topic q = topic" "p_dest q = target" using s(3) by (simp_all add: originated_def)
    obtain cb where cb: "d_ctl b = Some cb" using b(1) by (auto simp: networked_def)
    have kb: "getMICKey (env_lib eb) (Some (n_es (d_net b))) (p_topic q) (d_type b) (state_or_not_included b) = key"
      using micKey_network [OF networked_method [OF b(1) top2 cb], of "env_lib eb" "n_es (d_net b)"] b(1) cb qt
      by (simp add: state_or_not_included_def getState_def networked_def)
    have lb: "cipher_laws (cl_aes (env_lib eb))" "sealed (env_lib eb) key (box lib key data) q" using lib s(4) by simp_all
    from receive_sealed [OF b(2,3) fr lb kb k32] obtain b1 where
        b1: "receive_packet eb q b = deliver eb (q\<lparr>p_data := box lib key data\<rparr>) b1" "rx_frame b b1"
      by blast
    let ?p = "q\<lparr>p_data := box lib key data\<rparr>"
    have "deliver eb ?p b1 = Some (RM_E_NONE, notify (Some ?p) RM_E_NONE b1)"
      using msg(1) qt b(5) rx_frameD [OF b1(2)] by (auto simp: deliver_def reserved_topic_def)
    then show ?thesis using b1(1) qt b(4) rx_frameD [OF b1(2)] unbox_box [OF lib(1)]
      by (intro exI [of _ "notify (Some ?p) RM_E_NONE b1"] exI [of _ ?p]) (simp add: notify_def)
  qed
  then show ?thesis using s(1,2) by blast
qed

theorem reserved_topics_arrive_encrypted_witness:
  "\<exists>a' q. sendData toy_env T_CMD [7] BROADCAST_ADDR (toy_included STANDARD) = Some (RM_E_NONE, a') \<and>
     (fresh q (toy_included HUB) \<longrightarrow> (\<exists>b' p. receive_packet toy_env q (toy_included HUB) = Some (RM_E_NONE, b') \<and>
        rxCalls b' = [(Some p, RM_E_NONE)] \<and> p_data p = [167]))"
proof -
  have lib: "ctr_laws toy_lib" "cipher_laws (cl_aes toy_lib)" "env_lib toy_env = toy_lib" "env_lib toy_env = toy_lib"
    using toy_ctr_laws toy_cl_aes by (simp_all add: toy_env_lib)
  have hub: "net_inv (d_net (toy_included HUB))" "ra_module (n_radio (d_net (toy_included HUB)))" "d_type (toy_included HUB) = HUB \<or> t = d_id (toy_included HUB)" for t
    using toy_included_ok(1,3) [of HUB] by (simp_all add: on_air_def)
  have r: "reserved_topic T_CMD" by (simp add: reserved_topic_def isInclusionMessage_def isApplicationMessage_def)
  have "box toy_lib (replicate 32 5) [7] = [167]" by (simp add: toy_box)
  then show ?thesis
    using reserved_topics_arrive_encrypted [OF lib toy_included_ok(1) [of STANDARD] toy_included_ok(2) [of STANDARD] r _ toy_included_ok(2) [of HUB]
        hub(1,2) toy_included_ok(4) hub(3), of "[7]" BROADCAST_ADDR] toy_included_ok(5)
    by fastforce
qed

section \<open>Concrete packets\<close>

lemma toy_sealed:
  "\<exists>q x. sealed toy_lib (replicate 32 5) (box toy_lib (replicate 32 5) [x]) q \<and> p_topic q = 0x20 \<and> p_hops q = 1 \<and>
     p_dest q = BROADCAST_ADDR \<and> (\<forall>d :: bytes storage device. entries (packetTracker (d_net d)) = [] \<longrightarrow> fresh q d)"
proof -
  let ?k = "replicate 32 5 :: bytes"
  obtain x where x: "packet_crc (p_fcounter sample_packet) (box toy_lib ?k [x]) \<noteq> 0" using toy_crc by blast
  let ?c = "box toy_lib ?k [x]"
  let ?q = "sample_packet\<lparr>p_topic := 0x20, p_hops := 1, p_dest := BROADCAST_ADDR, p_crc := packet_crc (p_fcounter sample_packet) ?c\<rparr>"
  have k: "length ?k = 16 \<or> length ?k = 32" by simp
  obtain mic where mic: "computeMIC (cl_aes toy_lib) ?k (getHeaderBytes ?q @ ?c) = Some mic" "length mic = 4"
    using computeMIC_total [OF toy_cl_aes k] by blast
  let ?p = "?q\<lparr>p_data := ?c @ mic\<rparr>"
  have "sealed toy_lib ?k ?c ?p" using mic by (simp add: sealed_def requiresMIC_def del: packet.update_convs)
  moreover have "fresh ?p d" if "entries (packetTracker (d_net d)) = []" for d :: "bytes storage device"
    using that x by (simp add: fresh_def)
  ultimately show ?thesis by (intro exI [of _ ?p] exI [of _ x]) simp
qed

theorem copies_are_delivered_witness:
  "\<exists>q b' p. hear_copies [toy_env, later 2000 toy_env, later 9000000 toy_env] q (toy_included HUB) = Some b' \<and>
     rxCalls b' = replicate 3 (Some p, RM_E_NONE)"
proof -
  obtain q x where q: "sealed toy_lib (replicate 32 5) (box toy_lib (replicate 32 5) [x]) q" "p_topic q = 0x20" "fresh q (toy_included HUB)"
    using toy_sealed toy_included_ok(7) by metis
  have t: "T_MAX_RESERVED < p_topic q" by (simp add: q(2))
  have hub: "net_inv (d_net (toy_included HUB))" "ra_module (n_radio (d_net (toy_included HUB)))" "d_type (toy_included HUB) = HUB \<or> p_dest q = d_id (toy_included HUB)"
    using toy_included_ok(1,3) [of HUB] by (simp_all add: on_air_def)
  have envs: "\<forall>e \<in> set [toy_env, later 2000 toy_env, later 9000000 toy_env]. env_lib e = toy_lib" by (simp add: toy_env_lib later_def)
  from copies_are_delivered [OF toy_ctr_laws toy_cl_aes envs toy_included_ok(2) hub(1,2) toy_included_ok(4) hub(3) q(1) t q(3)]
  show ?thesis using toy_included_ok(5) by (fastforce simp: numeral_3_eq_3)
qed

theorem flooding_terminates_witness:
  "\<exists>q q'. relay_path (relay_for toy_lib (replicate 32 5) :: bytes storage env \<Rightarrow> _) q 1 q' \<and> unat (p_hops q') = 2 \<and> same_identity q q'"
proof -
  let ?r = "enableRelay True (toy_included STANDARD)"
  obtain q x where q: "sealed toy_lib (replicate 32 5) (box toy_lib (replicate 32 5) [x]) q" "p_topic q = 0x20" "p_hops q = 1"
      "p_dest q = BROADCAST_ADDR" "fresh q ?r"
  proof -
    have "entries (packetTracker (d_net ?r)) = []" using toy_included_ok(7) by (simp add: enableRelay_def)
    then show ?thesis using toy_sealed that by blast
  qed
  have a: "relay_for toy_lib (replicate 32 5) toy_env ?r q"
    using toy_included_ok(1,2) [of STANDARD] q(3,4,5)
    by (simp add: relay_for_def toy_env_lib on_air_def networked_def enableRelay_def toy_included_ok(3))
      (simp add: toy_included_def toy_dev_def RadioMeshDevice_def upd_es_def BROADCAST_ADDR_def)
  from relay_forwards [OF toy_ctr_laws toy_cl_aes a q(1)] q(2) obtain q' where b: "relays toy_env ?r q q'"
    by (auto simp: relays_def)
  have p: "relay_path (relay_for toy_lib (replicate 32 5) :: bytes storage env \<Rightarrow> _) q 1 q'"
    unfolding One_nat_def by (rule relay_path.hop [where R = "relay_for toy_lib (replicate 32 5)", OF relay_path.here a b])
  have "\<not> isInclusionMessage (p_topic q)" by (simp add: q(2) isInclusionMessage_def)
  note flooding_terminates [OF p this]
  then have "same_identity q q'" "unat (p_hops q') = unat (p_hops q) + 1" by blast+
  then have "unat (p_hops q') = 2 \<and> same_identity q q'" using q(3) by simp
  then show ?thesis using p by blast
qed

end
