(* ===== verification/RM_Wifi.thy ===== *)
theory RM_Wifi
  imports RM_Utils
begin

text \<open>
  The WiFi connector and the WiFi access point: \<open>src/src/hardware/src/wifi/WifiConnector.cpp\<close> and
  \<open>WifiAccessPoint.cpp\<close> with their headers. The ESP32 library object \<open>WiFi\<close> is a parameter: a
  state of an arbitrary type, which may also change between two calls (a network may disappear at
  any time), and a record of the calls the code makes. A C string is the part of a \<open>std::string\<close>
  before its first NUL. The builds without WiFi (\<open>RM_NO_WIFI\<close>) have the stubs at the end of each
  section instead.
\<close>

definition c_str :: "string \<Rightarrow> string" where
  "c_str s = takeWhile (\<lambda>c. c \<noteq> CHR 0x00) s"

lemma c_str_Nil [simp]: "c_str [] = []"
  by (simp add: c_str_def)

lemma c_str_plain: "CHR 0x00 \<notin> set s \<Longrightarrow> c_str s = s"
  by (auto simp: c_str_def takeWhile_eq_all_conv)

section \<open>The library\<close>

record 'w wifi_lib =
  wl_scanNetworks :: "nat \<Rightarrow> 'w \<Rightarrow> int \<times> 'w"
  wl_scannedSSID :: "nat \<Rightarrow> 'w \<Rightarrow> string"
  wl_delay :: "nat \<Rightarrow> 'w \<Rightarrow> 'w"
  wl_begin :: "string \<Rightarrow> string \<Rightarrow> 'w \<Rightarrow> 'w"
  wl_waitForConnectResult :: "nat \<Rightarrow> 'w \<Rightarrow> 'w"
  wl_isConnected :: "'w \<Rightarrow> bool"
  wl_localIP :: "'w \<Rightarrow> string"
  wl_macAddress :: "'w \<Rightarrow> string"
  wl_SSID :: "'w \<Rightarrow> string"
  wl_RSSI :: "'w \<Rightarrow> byte"
  wl_disconnect :: "bool \<Rightarrow> 'w \<Rightarrow> bool \<times> 'w"
  wl_mode_AP_STA :: "'w \<Rightarrow> bool \<times> 'w"
  wl_softAP :: "string \<Rightarrow> string \<Rightarrow> 'w \<Rightarrow> bool \<times> 'w"
  wl_softAPConfig :: "id4 \<Rightarrow> id4 \<Rightarrow> id4 \<Rightarrow> 'w \<Rightarrow> bool \<times> 'w"
  wl_softAPdisconnect :: "bool \<Rightarrow> 'w \<Rightarrow> bool \<times> 'w"
  wl_fromString :: "string \<Rightarrow> id4 option"

section \<open>The connector\<close>

record wifi_params =
  wp_ssid :: string
  wp_password :: string

record wifi_connector =
  wc_ipAddress :: string
  wc_macAddress :: string
  wc_params :: wifi_params
  wc_connected :: bool
  wc_signalIndicator :: signal_indicator

definition WifiConnector :: wifi_connector where
  "WifiConnector = \<lparr>wc_ipAddress = [], wc_macAddress = [], wc_params = \<lparr>wp_ssid = [], wp_password = []\<rparr>,
     wc_connected = False, wc_signalIndicator = NO_SIGNAL\<rparr>"

abbreviation (input) AP_SCAN_INTERVAL_MS :: nat where "AP_SCAN_INTERVAL_MS \<equiv> 800"
abbreviation (input) WIFI_CONNECTION_TIMEOUT_MS :: nat where "WIFI_CONNECTION_TIMEOUT_MS \<equiv> 3000"

definition wc_setParams :: "wifi_params \<Rightarrow> wifi_connector \<Rightarrow> rc \<times> wifi_connector" where
  "wc_setParams p c =
     (if wp_ssid p = [] \<or> wp_password p = [] then (RM_E_INVALID_WIFI_PARAMS, c)
      else if length (wp_ssid p) > 32 then (RM_E_INVALID_WIFI_PARAMS, c)
      else if length (wp_password p) > 64 then (RM_E_INVALID_WIFI_PARAMS, c)
      else (RM_E_NONE, c\<lparr>wc_params := (wc_params c)\<lparr>wp_password := wp_password p, wp_ssid := wp_ssid p\<rparr>\<rparr>))"

text \<open>The two scan loops; \<open>k\<close> entries are left, \<open>i\<close> is the next.\<close>

fun collect_networks :: "'w wifi_lib \<Rightarrow> nat \<Rightarrow> nat \<Rightarrow> 'w \<Rightarrow> string list \<times> 'w" where
  "collect_networks L 0 i w = ([], w)"
| "collect_networks L (Suc k) i w =
     (let (ns, w') = collect_networks L k (Suc i) (wl_delay L AP_SCAN_INTERVAL_MS w)
      in (c_str (wl_scannedSSID L i w) # ns, w'))"

definition getAvailableNetworks :: "'w wifi_lib \<Rightarrow> 'w \<Rightarrow> string list \<times> 'w" where
  "getAvailableNetworks L w =
     (let (n, w1) = wl_scanNetworks L AP_SCAN_INTERVAL_MS w
      in if n < 0 then ([], w1)
         else if n \<noteq> 0 then collect_networks L (nat n) 0 w1
         else ([], w1))"

fun find_network :: "'w wifi_lib \<Rightarrow> string \<Rightarrow> nat \<Rightarrow> nat \<Rightarrow> 'w \<Rightarrow> bool \<times> 'w" where
  "find_network L ssid 0 i w = (False, w)"
| "find_network L ssid (Suc k) i w =
     (if c_str (wl_scannedSSID L i w) = c_str ssid then (True, w)
      else find_network L ssid k (Suc i) (wl_delay L AP_SCAN_INTERVAL_MS w))"

definition ssidAvailable :: "'w wifi_lib \<Rightarrow> string \<Rightarrow> 'w \<Rightarrow> bool \<times> 'w" where
  "ssidAvailable L ssidToCheck w =
     (let (n, w1) = wl_scanNetworks L AP_SCAN_INTERVAL_MS w
      in if n < 0 then (False, w1)
         else if n \<noteq> 0 then find_network L ssidToCheck (nat n) 0 w1
         else (False, w1))"

definition updateConnectionDetails :: "'w wifi_lib \<Rightarrow> string \<Rightarrow> string \<Rightarrow> 'w \<Rightarrow> wifi_connector \<Rightarrow> wifi_connector" where
  "updateConnectionDetails L ssid password w c =
     (if wc_connected c then c\<lparr>wc_params := \<lparr>wp_ssid = ssid, wp_password = password\<rparr>,
        wc_ipAddress := c_str (wl_localIP L w), wc_macAddress := c_str (wl_macAddress L w)\<rparr>
      else c)"

definition resetConnectionDetails :: "wifi_connector \<Rightarrow> wifi_connector" where
  "resetConnectionDetails c = c\<lparr>wc_ipAddress := [], wc_macAddress := [], wc_signalIndicator := NO_SIGNAL,
     wc_params := \<lparr>wp_ssid = [], wp_password = []\<rparr>\<rparr>"

text \<open>The part of \<open>connect\<close> after the choice between the arguments and the stored
  parameters.\<close>

definition connect_to :: "'w wifi_lib \<Rightarrow> string \<Rightarrow> string \<Rightarrow> wifi_connector \<Rightarrow> 'w \<Rightarrow> rc \<times> wifi_connector \<times> 'w" where
  "connect_to L ssid password c w =
     (if length ssid > 32 then (RM_E_INVALID_PARAM, c, w)
      else if length password > 64 then (RM_E_INVALID_PARAM, c, w)
      else if ssid = wp_ssid (wc_params c) \<and> wc_connected c then (RM_E_NONE, c, w)
      else let (available, w1) = ssidAvailable L ssid w
        in if \<not> available then (RM_E_WIFI_SSID_NOT_AVAILABLE, c, w1)
           else let w2 = wl_begin L (c_str ssid) (c_str password) w1;
                    w3 = wl_waitForConnectResult L WIFI_CONNECTION_TIMEOUT_MS w2
             in if wl_isConnected L w3
                then (RM_E_NONE, updateConnectionDetails L ssid password w3 (c\<lparr>wc_connected := True\<rparr>), w3)
                else (RM_E_WIFI_CONNECTION_FAILED, c, w3))"

definition wc_connect :: "'w wifi_lib \<Rightarrow> string \<Rightarrow> string \<Rightarrow> wifi_connector \<Rightarrow> 'w \<Rightarrow> rc \<times> wifi_connector \<times> 'w" where
  "wc_connect L ssid password c w =
     (if ssid = [] \<or> password = []
      then if wp_ssid (wc_params c) = [] \<or> wp_password (wc_params c) = []
           then (RM_E_INVALID_PARAM, c, w)
           else connect_to L (wp_ssid (wc_params c)) (wp_password (wc_params c)) c w
      else connect_to L ssid password c w)"

definition wc_reconnect :: "'w wifi_lib \<Rightarrow> wifi_connector \<Rightarrow> 'w \<Rightarrow> rc \<times> wifi_connector \<times> 'w" where
  "wc_reconnect L c w = wc_connect L (wp_ssid (wc_params c)) (wp_password (wc_params c)) c w"

text \<open>\<open>rssi > -60\<close> and so on, on an \<open>int8_t\<close>.\<close>

definition rssi_indicator :: "byte \<Rightarrow> signal_indicator" where
  "rssi_indicator rssi =
     (if sint rssi > - 60 then EXCELLENT
      else if sint rssi > - 70 then GOOD
      else if sint rssi > - 80 then FAIR
      else if sint rssi > - 90 then WEAK
      else NO_SIGNAL)"

definition getSignalIndicator :: "'w wifi_lib \<Rightarrow> 'w \<Rightarrow> wifi_connector \<Rightarrow> signal_indicator \<times> wifi_connector" where
  "getSignalIndicator L w c =
     (if \<not> wc_connected c then (NO_SIGNAL, c\<lparr>wc_signalIndicator := NO_SIGNAL\<rparr>)
      else (rssi_indicator (wl_RSSI L w), c\<lparr>wc_signalIndicator := rssi_indicator (wl_RSSI L w)\<rparr>))"

definition wc_disconnect :: "'w wifi_lib \<Rightarrow> bool \<Rightarrow> wifi_connector \<Rightarrow> 'w \<Rightarrow> rc \<times> wifi_connector \<times> 'w" where
  "wc_disconnect L wifiOff c w =
     (let (result, w1) = wl_disconnect L wifiOff w
      in if result then (RM_E_NONE, resetConnectionDetails (c\<lparr>wc_connected := False\<rparr>), w1)
         else (RM_E_WIFI_DISCONNECT_FAILED, c, w1))"

definition getIpAddress :: "wifi_connector \<Rightarrow> string" where
  "getIpAddress c = wc_ipAddress c"

definition getMacAddress :: "wifi_connector \<Rightarrow> string" where
  "getMacAddress c = wc_macAddress c"

definition getSSID :: "'w wifi_lib \<Rightarrow> 'w \<Rightarrow> string" where
  "getSSID L w = c_str (wl_SSID L w)"

definition getSignalStrength :: "'w wifi_lib \<Rightarrow> 'w \<Rightarrow> int" where
  "getSignalStrength L w = sint (wl_RSSI L w)"

text \<open>The stubs of a build without WiFi.\<close>

definition wc_connect_stub :: "string \<Rightarrow> string \<Rightarrow> wifi_connector \<Rightarrow> rc \<times> wifi_connector" where
  "wc_connect_stub ssid password c = (RM_E_NOT_SUPPORTED, c)"

definition wc_disconnect_stub :: "bool \<Rightarrow> wifi_connector \<Rightarrow> rc \<times> wifi_connector" where
  "wc_disconnect_stub wifiOff c = (RM_E_NOT_SUPPORTED, c)"

definition wc_reconnect_stub :: "wifi_connector \<Rightarrow> rc \<times> wifi_connector" where
  "wc_reconnect_stub c = (RM_E_NOT_SUPPORTED, c)"

definition wc_setParams_stub :: "wifi_params \<Rightarrow> wifi_connector \<Rightarrow> rc \<times> wifi_connector" where
  "wc_setParams_stub p c = (RM_E_NOT_SUPPORTED, c)"

definition wc_queries_stub :: "string \<times> string \<times> signal_indicator \<times> int \<times> string \<times> string list" where
  "wc_queries_stub = ([], [], NO_SIGNAL, 0, [], [])"

section \<open>What a connector does over its lifetime\<close>

text \<open>The calls a program can make, and the changes of the world in between.\<close>

datatype 'w wifi_event =
    Connect string string
  | Disconnect bool
  | Reconnect
  | SetParams wifi_params
  | SignalQuery
  | Scan
  | WorldChange "'w \<Rightarrow> 'w"

fun wifi_step :: "'w wifi_lib \<Rightarrow> 'w wifi_event \<Rightarrow> wifi_connector \<times> 'w \<Rightarrow> wifi_connector \<times> 'w" where
  "wifi_step L (Connect s p) (c, w) = snd (wc_connect L s p c w)"
| "wifi_step L (Disconnect off) (c, w) = snd (wc_disconnect L off c w)"
| "wifi_step L Reconnect (c, w) = snd (wc_reconnect L c w)"
| "wifi_step L (SetParams p) (c, w) = (snd (wc_setParams p c), w)"
| "wifi_step L SignalQuery (c, w) = (snd (getSignalIndicator L w c), w)"
| "wifi_step L Scan (c, w) = (c, snd (getAvailableNetworks L w))"
| "wifi_step L (WorldChange f) (c, w) = (c, f w)"

definition wifi_run :: "'w wifi_lib \<Rightarrow> 'w wifi_event list \<Rightarrow> 'w \<Rightarrow> wifi_connector \<times> 'w" where
  "wifi_run L evs w = foldl (\<lambda>st ev. wifi_step L ev st) (WifiConnector, w) evs"

text \<open>The stored parameters are empty or in bounds, and in bounds while the connector believes
  that it is connected.\<close>

definition params_ok :: "wifi_params \<Rightarrow> bool" where
  "params_ok p \<longleftrightarrow> wp_ssid p \<noteq> [] \<and> wp_password p \<noteq> [] \<and> length (wp_ssid p) \<le> 32 \<and> length (wp_password p) \<le> 64"

definition wifi_inv :: "wifi_connector \<Rightarrow> bool" where
  "wifi_inv c \<longleftrightarrow> params_ok (wc_params c) \<or>
     \<not> wc_connected c \<and> wc_params c = \<lparr>wp_ssid = [], wp_password = []\<rparr>"

lemma connect_to_cases:
  assumes "connect_to L ssid password c w = (rc, c', w')"
  shows "c' = c \<or> rc = RM_E_NONE \<and> wc_connected c' \<and> wc_params c' = \<lparr>wp_ssid = ssid, wp_password = password\<rparr> \<and>
    length ssid \<le> 32 \<and> length password \<le> 64 \<and> wl_isConnected L w' \<and> wc_ipAddress c' = c_str (wl_localIP L w')"
  using assms by (auto simp: connect_to_def updateConnectionDetails_def Let_def split: if_splits prod.splits)

lemma wc_connect_inv:
  assumes "wifi_inv c" "wc_connect L ssid password c w = (rc, c', w')"
  shows "wifi_inv c'"
proof (cases "ssid = [] \<or> password = []")
  case True
  show ?thesis
  proof (cases "wp_ssid (wc_params c) = [] \<or> wp_password (wc_params c) = []")
    case True
    then have "c' = c" using assms(2) \<open>ssid = [] \<or> password = []\<close> by (auto simp: wc_connect_def)
    then show ?thesis using assms(1) by simp
  next
    case False
    then have "connect_to L (wp_ssid (wc_params c)) (wp_password (wc_params c)) c w = (rc, c', w')"
      using assms(2) True by (simp add: wc_connect_def)
    from connect_to_cases [OF this] show ?thesis using assms(1) False by (auto simp: wifi_inv_def params_ok_def)
  qed
next
  case False
  then have "connect_to L ssid password c w = (rc, c', w')" using assms(2) by (simp add: wc_connect_def)
  from connect_to_cases [OF this] show ?thesis using assms(1) False by (auto simp: wifi_inv_def params_ok_def)
qed

lemma wifi_step_inv: "wifi_inv (fst st) \<Longrightarrow> wifi_inv (fst (wifi_step L ev st))"
proof (cases st)
  case (Pair c w)
  assume inv: "wifi_inv (fst st)"
  have conn: "wifi_inv (fst (snd (wc_connect L s p c w)))" for s p
    using wc_connect_inv [of c L s p w] inv Pair by (cases "wc_connect L s p c w") simp
  show ?thesis
  proof (cases ev)
    case (Connect s p)
    then show ?thesis using conn Pair by simp
  next
    case Reconnect
    then show ?thesis using conn Pair by (simp add: wc_reconnect_def)
  qed (use inv Pair in \<open>auto simp: wifi_inv_def params_ok_def wc_disconnect_def resetConnectionDetails_def
      wc_setParams_def getSignalIndicator_def split: prod.splits\<close>)
qed

lemma wifi_run_inv: "wifi_inv (fst (wifi_run L evs w))"
proof -
  have "wifi_inv (fst st) \<Longrightarrow> wifi_inv (fst (foldl (\<lambda>st ev. wifi_step L ev st) st evs))" for st
    by (induction evs arbitrary: st) (simp_all add: wifi_step_inv)
  then show ?thesis by (simp add: wifi_run_def wifi_inv_def WifiConnector_def)
qed

text \<open>Reconnecting never brings a lost connection back. Whatever a program did with the connector
  and whatever happened to the network: while the connector believes that it is connected (the flag
  follows the last successful \<open>connect\<close> or \<open>disconnect\<close>, not the link), \<open>reconnect\<close> reports success
  without a call to the WiFi library, even when other parameters were set in between; and after a
  successful \<open>disconnect\<close> the stored network is forgotten, so \<open>reconnect\<close> fails with
  \<open>RM_E_INVALID_PARAM\<close>, again without a call.\<close>

theorem reconnect_never_reconnects:
  "(case wifi_run L evs w0 of (c, w) \<Rightarrow>
      (if wc_connected c then wc_reconnect L c w = (RM_E_NONE, c, w)
       else \<forall>f. wc_reconnect L c (f w) = wc_connect L [] [] c (f w)) \<and>
      (case wc_disconnect L off c w of (rc, c', w') \<Rightarrow>
         if rc = RM_E_NONE then \<not> wc_connected c' \<and> wc_reconnect L c' w' = (RM_E_INVALID_PARAM, c', w')
         else c' = c))"
proof -
  obtain c w where cw: "wifi_run L evs w0 = (c, w)" by fastforce
  have inv: "wifi_inv c" using wifi_run_inv [of L evs w0] cw by simp
  have "wc_reconnect L c w = (RM_E_NONE, c, w)" if "wc_connected c"
    using inv that by (simp add: wifi_inv_def params_ok_def wc_reconnect_def wc_connect_def connect_to_def)
  moreover have "wc_reconnect L c v = wc_connect L [] [] c v" for v
    by (simp add: wc_reconnect_def wc_connect_def)
  moreover have "case wc_disconnect L off c w of (rc, c', w') \<Rightarrow>
      if rc = RM_E_NONE then \<not> wc_connected c' \<and> wc_reconnect L c' w' = (RM_E_INVALID_PARAM, c', w') else c' = c"
    by (auto simp: wc_disconnect_def resetConnectionDetails_def wc_reconnect_def wc_connect_def split: prod.splits)
  ultimately show ?thesis using cw by simp
qed

section \<open>The access point\<close>

record ap_params =
  ap_ssid :: string
  ap_password :: string
  ap_ipAddress :: string

record access_point =
  ap_params :: ap_params
  ap_started :: bool

text \<open>\<open>params = {"", "", {0, 0, 0, 0}}\<close>: the braces make the address a string of four NUL
  characters.\<close>

definition WifiAccessPoint :: access_point where
  "WifiAccessPoint = \<lparr>ap_params = \<lparr>ap_ssid = [], ap_password = [], ap_ipAddress = replicate 4 (CHR 0x00)\<rparr>,
     ap_started = False\<rparr>"

definition ap_isStarted :: "access_point \<Rightarrow> bool" where
  "ap_isStarted a = ap_started a"

definition ap_setParams :: "'w wifi_lib \<Rightarrow> ap_params \<Rightarrow> access_point \<Rightarrow> rc \<times> access_point" where
  "ap_setParams L p a =
     (if ap_ssid p = [] \<or> ap_password p = [] \<or> ap_ipAddress p = [] then (RM_E_INVALID_AP_PARAMS, a)
      else if length (ap_ssid p) > 64 then (RM_E_INVALID_AP_PARAMS, a)
      else if length (ap_password p) < 8 then (RM_E_INVALID_AP_PARAMS, a)
      else if wl_fromString L (c_str (ap_ipAddress p)) = None then (RM_E_INVALID_AP_PARAMS, a)
      else (RM_E_NONE, a\<lparr>ap_params := \<lparr>ap_ssid = ap_ssid p, ap_password = ap_password p, ap_ipAddress = ap_ipAddress p\<rparr>\<rparr>))"

definition ap_setup :: "'w wifi_lib \<Rightarrow> ap_params \<Rightarrow> access_point \<Rightarrow> rc \<times> access_point" where
  "ap_setup L p a =
     (if ap_isStarted a then (RM_E_WIFI_AP_ALREADY_STARTED, a)
      else if ap_ssid p = [] \<or> ap_password p = [] \<or> ap_ipAddress p = ''0.0.0.0'' then (RM_E_INVALID_PARAM, a)
      else if length (ap_ssid p) > 64 then (RM_E_INVALID_PARAM, a)
      else if length (ap_password p) < 8 then (RM_E_INVALID_PARAM, a)
      else if wl_fromString L (c_str (ap_ipAddress p)) = None then (RM_E_INVALID_AP_PARAMS, a)
      else (RM_E_NONE, a\<lparr>ap_params := \<lparr>ap_ssid = ap_ssid p, ap_password = ap_password p, ap_ipAddress = ap_ipAddress p\<rparr>\<rparr>))"

text \<open>\<open>setup()\<close> with the stored parameters.\<close>

definition ap_setup_stored :: "'w wifi_lib \<Rightarrow> access_point \<Rightarrow> rc \<times> access_point" where
  "ap_setup_stored L a = ap_setup L (ap_params a) a"

definition ap_start :: "'w wifi_lib \<Rightarrow> access_point \<Rightarrow> 'w \<Rightarrow> rc \<times> access_point \<times> 'w" where
  "ap_start L a w =
     (if ap_isStarted a then (RM_E_WIFI_AP_ALREADY_STARTED, a, w)
      else case wl_fromString L (c_str (ap_ipAddress (ap_params a))) of
        None \<Rightarrow> (RM_E_WIFI_AP_START_FAILED, a, w)
      | Some ip \<Rightarrow>
          let (ok, w1) = wl_mode_AP_STA L w
          in if \<not> ok then (RM_E_WIFI_AP_START_FAILED, a, w1)
             else let (ok, w2) = wl_softAP L (c_str (ap_ssid (ap_params a))) (c_str (ap_password (ap_params a))) w1
               in if \<not> ok then (RM_E_WIFI_AP_START_FAILED, a, w2)
                  else let (ok, w3) = wl_softAPConfig L ip ip (Id4 255 255 255 0) (wl_delay L 200 w2)
                    in if \<not> ok then (RM_E_WIFI_AP_START_FAILED, a, w3)
                       else (RM_E_NONE, a\<lparr>ap_started := True\<rparr>, w3))"

definition ap_stop :: "'w wifi_lib \<Rightarrow> bool \<Rightarrow> access_point \<Rightarrow> 'w \<Rightarrow> rc \<times> access_point \<times> 'w" where
  "ap_stop L wifiOff a w =
     (if \<not> ap_started a then (RM_E_NONE, a, w)
      else let (ok, w1) = wl_softAPdisconnect L wifiOff w
        in if \<not> ok then (RM_E_WIFI_AP_STOP_FAILED, a, w1)
           else (RM_E_NONE, a\<lparr>ap_started := False, ap_params := \<lparr>ap_ssid = [], ap_password = [], ap_ipAddress = ''0.0.0.0''\<rparr>\<rparr>, w1))"

text \<open>The stubs of a build without WiFi. The two members \<open>setParams\<close> and \<open>isStarted\<close> are written
  there as free functions, so the class has no definition of them.\<close>

definition ap_setup_stub :: "ap_params \<Rightarrow> access_point \<Rightarrow> rc \<times> access_point" where
  "ap_setup_stub p a = (RM_E_NOT_SUPPORTED, a)"

definition ap_start_stub :: "access_point \<Rightarrow> rc \<times> access_point" where
  "ap_start_stub a = (RM_E_NOT_SUPPORTED, a)"

definition ap_stop_stub :: "bool \<Rightarrow> access_point \<Rightarrow> rc \<times> access_point" where
  "ap_stop_stub wifiOff a = (RM_E_NOT_SUPPORTED, a)"

datatype 'w ap_event =
    ApSetParams ap_params
  | ApSetup ap_params
  | ApSetupStored
  | ApStart
  | ApStop bool
  | ApWorldChange "'w \<Rightarrow> 'w"

fun ap_step :: "'w wifi_lib \<Rightarrow> 'w ap_event \<Rightarrow> access_point \<times> 'w \<Rightarrow> access_point \<times> 'w" where
  "ap_step L (ApSetParams p) (a, w) = (snd (ap_setParams L p a), w)"
| "ap_step L (ApSetup p) (a, w) = (snd (ap_setup L p a), w)"
| "ap_step L ApSetupStored (a, w) = (snd (ap_setup_stored L a), w)"
| "ap_step L ApStart (a, w) = snd (ap_start L a w)"
| "ap_step L (ApStop off) (a, w) = snd (ap_stop L off a w)"
| "ap_step L (ApWorldChange f) (a, w) = (a, f w)"

definition ap_run :: "'w wifi_lib \<Rightarrow> 'w ap_event list \<Rightarrow> 'w \<Rightarrow> access_point \<times> 'w" where
  "ap_run L evs w = foldl (\<lambda>st ev. ap_step L ev st) (WifiAccessPoint, w) evs"

text \<open>Parameters a program passes are without NUL characters.\<close>

definition ap_plain :: "ap_params \<Rightarrow> bool" where
  "ap_plain p \<longleftrightarrow> CHR 0x00 \<notin> set (ap_ssid p) \<and> CHR 0x00 \<notin> set (ap_password p)"

fun ap_event_plain :: "'w ap_event \<Rightarrow> bool" where
  "ap_event_plain (ApSetParams p) = ap_plain p"
| "ap_event_plain (ApSetup p) = ap_plain p"
| "ap_event_plain _ = True"

text \<open>Documented behaviour of the library: \<open>softAP\<close> fails for an empty SSID.\<close>

definition softAP_law :: "'w wifi_lib \<Rightarrow> bool" where
  "softAP_law L \<longleftrightarrow> (\<forall>password w. \<not> fst (wl_softAP L [] password w))"

definition ap_protected :: "ap_params \<Rightarrow> bool" where
  "ap_protected p \<longleftrightarrow> ap_ssid p \<noteq> [] \<and> length (ap_ssid p) \<le> 64 \<and> 8 \<le> length (ap_password p) \<and> ap_plain p"

definition ap_inv :: "access_point \<Rightarrow> bool" where
  "ap_inv a \<longleftrightarrow> ap_protected (ap_params a) \<or> ap_ssid (ap_params a) = [] \<and> \<not> ap_started a"

lemma ap_start_cases:
  assumes "ap_start L a w = (rc, a', w')"
  shows "rc \<noteq> RM_E_NONE \<and> a' = a \<or>
    rc = RM_E_NONE \<and> a' = a\<lparr>ap_started := True\<rparr> \<and> \<not> ap_started a \<and>
      (\<exists>v. fst (wl_softAP L (c_str (ap_ssid (ap_params a))) (c_str (ap_password (ap_params a))) v))"
proof (cases "wl_mode_AP_STA L w")
  case (Pair ok w1)
  then show ?thesis
    using assms
    by (cases "wl_softAP L (c_str (ap_ssid (ap_params a))) (c_str (ap_password (ap_params a))) w1")
      (auto simp: ap_start_def ap_isStarted_def split: if_splits option.splits prod.splits
        intro: exI [of _ w1])
qed

lemma ap_step_inv:
  assumes "softAP_law L" "ap_event_plain ev" "ap_inv (fst st)"
  shows "ap_inv (fst (ap_step L ev st))"
proof (cases st)
  case (Pair a w)
  show ?thesis
  proof (cases ev)
    case ApStart
    obtain rc a' w' where s: "ap_start L a w = (rc, a', w')" by (cases "ap_start L a w")
    from ap_start_cases [OF s] show ?thesis using assms Pair ApStart s
      by (auto simp: ap_inv_def softAP_law_def)
  qed (use assms Pair in \<open>auto simp: ap_inv_def ap_protected_def ap_plain_def ap_setParams_def ap_setup_def
      ap_setup_stored_def ap_stop_def ap_isStarted_def split: prod.splits\<close>)
qed

lemma ap_run_inv:
  assumes "softAP_law L" "list_all ap_event_plain evs"
  shows "ap_inv (fst (ap_run L evs w))"
proof -
  have "list_all ap_event_plain evs \<Longrightarrow> ap_inv (fst st) \<Longrightarrow> ap_inv (fst (foldl (\<lambda>st ev. ap_step L ev st) st evs))" for st
    by (induction evs arbitrary: st) (simp_all add: ap_step_inv assms(1))
  then show ?thesis using assms(2) by (simp add: ap_run_def ap_inv_def WifiAccessPoint_def)
qed

text \<open>C29: An access point never comes up open. In every life of the access point, including starts
  without a setup, after a stop that cleared the parameters and with changes while it runs: whenever
  \<open>start\<close> succeeds, the network it has opened has a name of 1 to 64 characters and a passphrase of
  at least eight, and starting it again is refused until it is stopped; \<open>setup\<close> after a successful
  stop fails until new parameters are given.\<close>

theorem access_point_never_open:
  assumes law: "softAP_law L" and plain: "list_all ap_event_plain evs" and run: "ap_run L evs w0 = (a, w)"
  shows "(case ap_start L a w of (rc, a', w') \<Rightarrow> if rc = RM_E_NONE
      then (\<exists>ssid password v. fst (wl_softAP L ssid password v) \<and> ssid \<noteq> [] \<and> length ssid \<le> 64 \<and> 8 \<le> length password \<and>
              ssid = ap_ssid (ap_params a) \<and> password = ap_password (ap_params a)) \<and>
           ap_start L a' w' = (RM_E_WIFI_AP_ALREADY_STARTED, a', w') \<and> (\<forall>p. ap_setup L p a' = (RM_E_WIFI_AP_ALREADY_STARTED, a'))
      else a' = a) \<and>
    (case ap_stop L off a w of (rc, a', w') \<Rightarrow> if rc = RM_E_NONE
      then \<not> ap_started a' \<and> (if ap_started a then ap_setup_stored L a' = (RM_E_INVALID_PARAM, a') else a' = a)
      else a' = a \<and> ap_started a)"
proof -
  have inv: "ap_inv a" using ap_run_inv [OF law plain, of w0] run by simp
  obtain rc a' w' where s: "ap_start L a w = (rc, a', w')" by (cases "ap_start L a w")
  have start: "(\<exists>ssid password v. fst (wl_softAP L ssid password v) \<and> ssid \<noteq> [] \<and> length ssid \<le> 64 \<and> 8 \<le> length password \<and>
      ssid = ap_ssid (ap_params a) \<and> password = ap_password (ap_params a)) \<and> a' = a\<lparr>ap_started := True\<rparr>" if rc: "rc = RM_E_NONE"
  proof -
    from ap_start_cases [OF s] rc obtain v where v: "a' = a\<lparr>ap_started := True\<rparr>"
        "fst (wl_softAP L (c_str (ap_ssid (ap_params a))) (c_str (ap_password (ap_params a))) v)" by auto
    then have "ap_ssid (ap_params a) \<noteq> []" using law by (auto simp: softAP_law_def)
    then have p: "ap_protected (ap_params a)" using inv by (auto simp: ap_inv_def)
    then have "c_str (ap_ssid (ap_params a)) = ap_ssid (ap_params a)" "c_str (ap_password (ap_params a)) = ap_password (ap_params a)"
      by (simp_all add: ap_protected_def ap_plain_def c_str_plain)
    then show ?thesis using p v unfolding ap_protected_def by metis
  qed
  have "rc \<noteq> RM_E_NONE \<Longrightarrow> a' = a" using ap_start_cases [OF s] by auto
  moreover have "case ap_stop L off a w of (rc, a', w') \<Rightarrow> if rc = RM_E_NONE
      then \<not> ap_started a' \<and> (if ap_started a then ap_setup_stored L a' = (RM_E_INVALID_PARAM, a') else a' = a)
      else a' = a \<and> ap_started a"
    by (auto simp: ap_stop_def ap_setup_stored_def ap_setup_def ap_isStarted_def split: prod.splits)
  ultimately show ?thesis using start s by (auto simp: ap_start_def ap_setup_def ap_isStarted_def)
qed

text \<open>A library whose access point keeps the name and the passphrase it was started with; it
  understands one address.\<close>

definition toy_wifi :: "(string \<times> string) wifi_lib" where
  "toy_wifi = \<lparr>wl_scanNetworks = \<lambda>_ w. (0, w), wl_scannedSSID = \<lambda>_ _. [], wl_delay = \<lambda>_ w. w, wl_begin = \<lambda>_ _ w. w,
     wl_waitForConnectResult = \<lambda>_ w. w, wl_isConnected = \<lambda>_. False, wl_localIP = \<lambda>_. [], wl_macAddress = \<lambda>_. [],
     wl_SSID = \<lambda>_. [], wl_RSSI = \<lambda>_. 0, wl_disconnect = \<lambda>_ w. (True, w), wl_mode_AP_STA = \<lambda>w. (True, w),
     wl_softAP = \<lambda>s p w. (s \<noteq> [], (s, p)), wl_softAPConfig = \<lambda>_ _ _ w. (True, w), wl_softAPdisconnect = \<lambda>_ _. (True, ([], [])),
     wl_fromString = \<lambda>s. if s = ''10.0.0.1'' then Some (Id4 10 0 0 1) else None\<rparr>"

definition toy_ap_params :: ap_params where
  "toy_ap_params = \<lparr>ap_ssid = ''mesh'', ap_password = ''secret-123'', ap_ipAddress = ''10.0.0.1''\<rparr>"

lemma toy_ap_run:
  "ap_run toy_wifi [ApSetParams toy_ap_params] ([], []) = (\<lparr>ap_params = toy_ap_params, ap_started = False\<rparr>, ([], []))"
  by (simp add: ap_run_def WifiAccessPoint_def ap_setParams_def toy_ap_params_def toy_wifi_def c_str_def)

theorem access_point_never_open_witness:
  "(case ap_start toy_wifi \<lparr>ap_params = toy_ap_params, ap_started = False\<rparr> ([], []) of (rc, a', w') \<Rightarrow>
      rc = RM_E_NONE \<and> w' = (''mesh'', ''secret-123'') \<and> ap_start toy_wifi a' w' = (RM_E_WIFI_AP_ALREADY_STARTED, a', w'))"
proof -
  have "softAP_law toy_wifi" by (simp add: softAP_law_def toy_wifi_def)
  moreover have "list_all ap_event_plain [ApSetParams toy_ap_params]" by (simp add: ap_plain_def toy_ap_params_def)
  moreover have "ap_start toy_wifi \<lparr>ap_params = toy_ap_params, ap_started = False\<rparr> ([], [])
      = (RM_E_NONE, \<lparr>ap_params = toy_ap_params, ap_started = True\<rparr>, (''mesh'', ''secret-123''))"
    by (simp add: ap_start_def ap_isStarted_def toy_ap_params_def toy_wifi_def c_str_def)
  ultimately show ?thesis
    using access_point_never_open [OF _ _ toy_ap_run] by simp
qed

end
