(* ===== verification/RM_Display.thy ===== *)
theory RM_Display
  imports RM_Wifi
begin

text \<open>
  The OLED display: \<open>src/src/hardware/src/display/oled/OledDisplay.cpp\<close> with its header, the font
  numbers and \<open>OledDisplayParams\<close> of \<open>Definitions.h\<close>, and \<open>getVersion\<close> of \<open>Utils.cpp\<close>, which the
  display shows. The U8g2 library is a parameter: a state of the screen and a record of the calls
  the code makes. The display has no library object before \<open>setup\<close>.
\<close>

section \<open>Parameters and library\<close>

abbreviation (input) RM_FONT_TINY :: byte where "RM_FONT_TINY \<equiv> 1"
abbreviation (input) RM_FONT_SMALL :: byte where "RM_FONT_SMALL \<equiv> 2"
abbreviation (input) RM_FONT_MEDIUM :: byte where "RM_FONT_MEDIUM \<equiv> 3"
abbreviation (input) RM_FONT_LARGE :: byte where "RM_FONT_LARGE \<equiv> 4"
abbreviation (input) RM_FONT_BATTERY :: byte where "RM_FONT_BATTERY \<equiv> 5"

record oled_params =
  clockPin :: byte
  dataPin :: byte
  resetPin :: byte
  fontId :: byte

definition OledDisplayParams :: oled_params where
  "OledDisplayParams = \<lparr>clockPin = 0, dataPin = 0, resetPin = 0, fontId = RM_FONT_MEDIUM\<rparr>"

datatype u8g2_font = u8g2_font_5x7_tf | u8g2_font_6x13_tf | u8g2_font_8x13_tf | u8g2_font_10x20_tf | u8g2_font_battery19_tn

record 'd u8g2_lib =
  u8_new :: "byte \<Rightarrow> byte \<Rightarrow> byte \<Rightarrow> 'd option"
  u8_begin :: "'d \<Rightarrow> bool \<times> 'd"
  u8_setFont :: "u8g2_font \<Rightarrow> 'd \<Rightarrow> 'd"
  u8_clearDisplay :: "'d \<Rightarrow> 'd"
  u8_clear :: "'d \<Rightarrow> 'd"
  u8_setPowerSave :: "nat \<Rightarrow> 'd \<Rightarrow> 'd"
  u8_initDisplay :: "'d \<Rightarrow> 'd"
  u8_drawStr :: "byte \<Rightarrow> byte \<Rightarrow> string \<Rightarrow> 'd \<Rightarrow> nat \<times> 'd"
  u8_sendBuffer :: "'d \<Rightarrow> 'd"
  u8_setCursor :: "byte \<Rightarrow> byte \<Rightarrow> 'd \<Rightarrow> 'd"
  u8_print :: "string \<Rightarrow> 'd \<Rightarrow> 'd"
  u8_getCols :: "'d \<Rightarrow> byte"
  u8_getRows :: "'d \<Rightarrow> byte"

text \<open>\<open>width\<close> and \<open>height\<close> are not initialised before \<open>setup\<close>.\<close>

record 'd oled =
  displayParams :: oled_params
  u8g2 :: "'d option"
  ol_width :: "byte option"
  ol_height :: "byte option"

definition OledDisplay :: "'d oled" where
  "OledDisplay = \<lparr>displayParams = OledDisplayParams, u8g2 = None, ol_width = None, ol_height = None\<rparr>"

definition getVersion :: string where
  "getVersion = dec_string 0 @ ''.'' @ dec_string 0 @ ''.'' @ dec_string 10 @ ''-'' @ dec_string 0"

section \<open>Operations\<close>

definition oled_setParams :: "oled_params \<Rightarrow> 'd oled \<Rightarrow> rc \<times> 'd oled" where
  "oled_setParams p ol = (RM_E_NONE, ol\<lparr>displayParams := p\<rparr>)"

definition drawString_c :: "'d u8g2_lib \<Rightarrow> byte \<Rightarrow> byte \<Rightarrow> string \<Rightarrow> 'd oled \<Rightarrow> rc \<times> 'd oled" where
  "drawString_c L x y txt ol =
     (case u8g2 ol of
        None \<Rightarrow> (RM_E_DISPLAY_NOT_SETUP, ol)
      | Some d \<Rightarrow>
          let (res, d1) = u8_drawStr L x y txt d
          in if res = 0 then (RM_E_DISPLAY_DRAW_STRING, ol\<lparr>u8g2 := Some d1\<rparr>)
             else (RM_E_NONE, ol\<lparr>u8g2 := Some (u8_sendBuffer L d1)\<rparr>))"

definition drawString :: "'d u8g2_lib \<Rightarrow> byte \<Rightarrow> byte \<Rightarrow> string \<Rightarrow> 'd oled \<Rightarrow> rc \<times> 'd oled" where
  "drawString L x y txt ol =
     (if u8g2 ol = None then (RM_E_DISPLAY_NOT_SETUP, ol) else drawString_c L x y (c_str txt) ol)"

text \<open>\<open>%d\<close> of \<open>snprintf\<close>, and the part of a text that fits a buffer of \<open>n\<close> characters with
  its final NUL.\<close>

definition format_d :: "int \<Rightarrow> string" where
  "format_d n = (if n < 0 then CHR ''-'' # dec_string (nat (- n)) else dec_string (nat n))"

definition snprintf_d :: "nat \<Rightarrow> int \<Rightarrow> string" where
  "snprintf_d n i = take (n - 1) (format_d i)"

definition drawNumber :: "'d u8g2_lib \<Rightarrow> byte \<Rightarrow> byte \<Rightarrow> u32 \<Rightarrow> 'd oled \<Rightarrow> rc \<times> 'd oled" where
  "drawNumber L x y number ol =
     (if u8g2 ol = None then (RM_E_DISPLAY_NOT_SETUP, ol)
      else drawString_c L x y (snprintf_d 10 (sint number)) ol)"

definition font_of_id :: "byte \<Rightarrow> u8g2_font option" where
  "font_of_id i =
     (if i = RM_FONT_TINY then Some u8g2_font_5x7_tf
      else if i = RM_FONT_SMALL then Some u8g2_font_6x13_tf
      else if i = RM_FONT_MEDIUM then Some u8g2_font_8x13_tf
      else if i = RM_FONT_LARGE then Some u8g2_font_10x20_tf
      else if i = RM_FONT_BATTERY then Some u8g2_font_battery19_tn
      else None)"

definition setFont :: "'d u8g2_lib \<Rightarrow> byte \<Rightarrow> 'd oled \<Rightarrow> rc \<times> 'd oled" where
  "setFont L i ol =
     (case u8g2 ol of
        None \<Rightarrow> (RM_E_DISPLAY_NOT_SETUP, ol)
      | Some d \<Rightarrow> (case font_of_id i of
            None \<Rightarrow> (RM_E_DISPLAY_INVALID_FONT, ol)
          | Some f \<Rightarrow> (RM_E_NONE, ol\<lparr>u8g2 := Some (u8_setFont L f d)\<rparr>)))"

text \<open>An operation that runs a call of the library, if there is a display.\<close>

definition on_display :: "('d \<Rightarrow> 'd) \<Rightarrow> 'd oled \<Rightarrow> rc \<times> 'd oled" where
  "on_display f ol =
     (case u8g2 ol of
        None \<Rightarrow> (RM_E_DISPLAY_NOT_SETUP, ol)
      | Some d \<Rightarrow> (RM_E_NONE, ol\<lparr>u8g2 := Some (f d)\<rparr>))"

definition powerSave :: "'d u8g2_lib \<Rightarrow> bool \<Rightarrow> 'd oled \<Rightarrow> rc \<times> 'd oled" where
  "powerSave L sav ol = on_display (\<lambda>d. if sav then u8_setPowerSave L 1 (u8_clear L d) else u8_initDisplay L (u8_setPowerSave L 0 d)) ol"

definition setCursor :: "'d u8g2_lib \<Rightarrow> byte \<Rightarrow> byte \<Rightarrow> 'd oled \<Rightarrow> rc \<times> 'd oled" where
  "setCursor L x y ol = on_display (u8_setCursor L x y) ol"

definition oled_print :: "'d u8g2_lib \<Rightarrow> string \<Rightarrow> 'd oled \<Rightarrow> rc \<times> 'd oled" where
  "oled_print L txt ol = on_display (u8_print L (c_str txt)) ol"

definition oled_clear :: "'d u8g2_lib \<Rightarrow> 'd oled \<Rightarrow> rc \<times> 'd oled" where
  "oled_clear L ol = on_display (u8_clear L) ol"

definition oled_flush :: "'d u8g2_lib \<Rightarrow> 'd oled \<Rightarrow> rc \<times> 'd oled" where
  "oled_flush L ol = on_display (u8_sendBuffer L) ol"

definition showSplashScreen :: "'d oled \<Rightarrow> rc \<times> 'd oled" where
  "showSplashScreen ol = (RM_E_NOT_IMPLEMENTED, ol)"

definition getWidth :: "'d u8g2_lib \<Rightarrow> 'd oled \<Rightarrow> byte" where
  "getWidth L ol = (case u8g2 ol of None \<Rightarrow> 0 | Some d \<Rightarrow> u8_getCols L d)"

definition getHeight :: "'d u8g2_lib \<Rightarrow> 'd oled \<Rightarrow> byte" where
  "getHeight L ol = (case u8g2 ol of None \<Rightarrow> 0 | Some d \<Rightarrow> u8_getRows L d)"

definition setBrightness :: "byte \<Rightarrow> 'd oled \<Rightarrow> rc \<times> 'd oled" where
  "setBrightness b ol = (RM_E_NOT_SUPPORTED, ol)"

definition setRotation :: "byte \<Rightarrow> 'd oled \<Rightarrow> rc \<times> 'd oled" where
  "setRotation r ol = (RM_E_NOT_SUPPORTED, ol)"

text \<open>The end of \<open>setup\<close>: the two lines of text (their result is ignored) and the size.\<close>

definition show_banner :: "'d u8g2_lib \<Rightarrow> 'd oled \<Rightarrow> 'd oled" where
  "show_banner L ol =
     (let ol1 = snd (on_display (u8_clearDisplay L) ol);
          ol2 = snd (drawString_c L 5 40 ''RadioMesh'' ol1);
          ol3 = snd (drawString L 5 54 (''v'' @ getVersion) ol2)
      in ol3\<lparr>ol_width := map_option (u8_getCols L) (u8g2 ol3), ol_height := map_option (u8_getRows L) (u8g2 ol3)\<rparr>)"

definition oled_setup :: "'d u8g2_lib \<Rightarrow> 'd oled \<Rightarrow> rc \<times> 'd oled" where
  "oled_setup L ol =
     (case u8_new L (resetPin (displayParams ol)) (clockPin (displayParams ol)) (dataPin (displayParams ol)) of
        None \<Rightarrow> (RM_E_UNKNOWN, ol\<lparr>u8g2 := None\<rparr>)
      | Some d \<Rightarrow>
          let (ok, d1) = u8_begin L d; ol1 = ol\<lparr>u8g2 := Some d1\<rparr>
          in if \<not> ok then (RM_E_DISPLAY_SETUP, ol1)
             else let (rc, ol2) = setFont L (fontId (displayParams ol1)) ol1
               in if rc \<noteq> RM_E_NONE then (RM_E_DISPLAY_INVALID_FONT, ol2)
                  else (RM_E_NONE, show_banner L ol2))"

text \<open>The stubs of a build without a display.\<close>

definition oled_op_stub :: "'d oled \<Rightarrow> rc \<times> 'd oled" where
  "oled_op_stub ol = (RM_E_NOT_SUPPORTED, ol)"

definition oled_size_stub :: byte where
  "oled_size_stub = 0"

section \<open>Properties\<close>

lemmas oled_ops = drawString_c_def drawString_def drawNumber_def setFont_def on_display_def powerSave_def setCursor_def
  oled_print_def oled_clear_def oled_flush_def

text \<open>Before \<open>setup\<close>, and after a \<open>setup\<close> that found no memory, every operation is refused and
  nothing is drawn.\<close>

lemma display_not_setup:
  assumes "u8g2 ol = None"
  shows "drawString L x y txt ol = (RM_E_DISPLAY_NOT_SETUP, ol)" "drawString_c L x y txt ol = (RM_E_DISPLAY_NOT_SETUP, ol)"
    "drawNumber L x y n ol = (RM_E_DISPLAY_NOT_SETUP, ol)" "setFont L i ol = (RM_E_DISPLAY_NOT_SETUP, ol)"
    "powerSave L sav ol = (RM_E_DISPLAY_NOT_SETUP, ol)" "setCursor L x y ol = (RM_E_DISPLAY_NOT_SETUP, ol)"
    "oled_print L txt ol = (RM_E_DISPLAY_NOT_SETUP, ol)" "oled_clear L ol = (RM_E_DISPLAY_NOT_SETUP, ol)"
    "oled_flush L ol = (RM_E_DISPLAY_NOT_SETUP, ol)" "getWidth L ol = 0" "getHeight L ol = 0"
  using assms by (simp_all add: oled_ops getWidth_def getHeight_def)

text \<open>A \<open>setup\<close> that fails in the library's \<open>begin\<close> leaves the object behind: the operations
  are not refused afterwards.\<close>

lemma failed_setup_is_set_up:
  assumes "u8_new L (resetPin (displayParams ol)) (clockPin (displayParams ol)) (dataPin (displayParams ol)) = Some d"
    and "u8_begin L d = (False, d1)"
  shows "oled_setup L ol = (RM_E_DISPLAY_SETUP, ol\<lparr>u8g2 := Some d1\<rparr>)"
    and "fst (oled_clear L (snd (oled_setup L ol))) = RM_E_NONE"
  using assms by (simp_all add: oled_setup_def oled_ops)

lemma length_format_d: "length (format_d n) \<le> 9 \<longleftrightarrow> - 100000000 < n \<and> n < 1000000000"
  using length_dec_string [of "nat n" 8] length_dec_string [of "nat (- n)" 7]
  by (auto simp: format_d_def)

lemma format_d_inject [simp]: "format_d a = format_d b \<longleftrightarrow> a = b"
proof -
  have "dec_string i \<noteq> CHR ''-'' # xs" for i xs
    using dec_string_no_char(1) [of i] by auto
  then show ?thesis by (auto simp: format_d_def dest: sym)
qed

lemma format_d_plain: "CHR 0x00 \<notin> set (format_d n)"
  by (simp add: format_d_def dec_string_no_char)

lemma drawNumber_drawString: "drawNumber L x y n ol = drawString L x y (take 9 (format_d (sint n))) ol"
proof -
  have "CHR 0x00 \<notin> set (take 9 (format_d (sint n)))" using format_d_plain in_set_takeD by metis
  then show ?thesis by (simp add: drawNumber_def drawString_def snprintf_d_def c_str_plain)
qed

text \<open>Which numbers the display can show. The buffer of ten characters holds exactly the
  numbers above -100,000,000 and below 1,000,000,000: those are drawn with all their digits, and
  different numbers have different texts. Every other \<open>int\<close> loses its last digits, so that it is
  drawn like a smaller number, and different numbers (the last two here) become the same picture.\<close>

theorem numbers_drawn_in_full:
  "(if - 100000000 < sint n \<and> sint n < 1000000000
    then drawNumber L x y n ol = drawString L x y (format_d (sint n)) ol
    else length (format_d (sint n)) > 9 \<and> drawNumber L x y n ol = drawString L x y (take 9 (format_d (sint n))) ol) \<and>
   (format_d (sint n) = format_d (sint m) \<longleftrightarrow> n = m) \<and>
   drawNumber L x y 1234567890 ol = drawNumber L x y 1234567899 ol \<and>
   drawNumber L x y 1234567890 ol = drawNumber L x y (123456789 :: u32) ol"
proof -
  have s: "sint (1234567890 :: u32) = 1234567890" "sint (1234567899 :: u32) = 1234567899" "sint (123456789 :: u32) = 123456789"
    by (simp_all add: sint_uint signed_take_bit_int_eq_self)
  have t: "take 9 (format_d 1234567890) = take 9 (format_d 1234567899)" "take 9 (format_d 1234567890) = format_d 123456789"
      "length (format_d 123456789) = 9"
    by (simp_all add: format_d_def dec_string.simps)
  then have "take 9 (format_d 1234567890) = take 9 (format_d 123456789)" by simp
  then show ?thesis using length_format_d [of "sint n"] t
    by (auto simp: drawNumber_drawString s signed_word_eqI)
qed

end
