(* ===== verification/RM_Portal.thy ===== *)
theory RM_Portal
  imports RM_Wifi
begin

text \<open>
  The device portal: \<open>src/src/framework/device_portal/src/AsyncDevicePortal.cpp\<close> with its header and
  the portal types of \<open>Definitions.h\<close>. The DNS server, the web server and the web socket are
  libraries: a world of an arbitrary type and a record of the calls the code makes. A web socket
  client is the number the library gives it, a null client pointer is \<open>None\<close>. An event handler's
  callback changes the world (the program's own variables are part of it) and has no access to the
  private fields of the portal.
\<close>

section \<open>Finding text in text\<close>

text \<open>\<open>std::string::find(pattern, pos)\<close>.\<close>

fun find_at :: "string \<Rightarrow> string \<Rightarrow> nat \<Rightarrow> nat option" where
  "find_at pat [] i = (if pat = [] then Some i else None)"
| "find_at pat (c # cs) i = (if take (length pat) (c # cs) = pat then Some i else find_at pat cs (Suc i))"

definition str_find :: "string \<Rightarrow> string \<Rightarrow> nat \<Rightarrow> nat option" where
  "str_find s pat pos = (if pos \<le> length s then find_at pat (drop pos s) pos else None)"

definition substr :: "string \<Rightarrow> nat \<Rightarrow> nat \<Rightarrow> string" where
  "substr s pos n = take n (drop pos s)"

section \<open>State and libraries\<close>

text \<open>A \<open>PortalMessage\<close> is what its \<open>getType\<close> and \<open>serialize\<close> return.\<close>

record portal_message =
  getType :: string
  serialize :: string

record 'w event_handler =
  eh_event :: string
  eh_callback :: "u32 \<Rightarrow> bytes \<Rightarrow> 'w \<Rightarrow> 'w"

record 'w portal_params =
  pp_title :: string
  pp_indexHtml :: string
  pp_webPort :: u16
  pp_dnsPort :: u16
  pp_eventHandlers :: "'w event_handler list"

record client_info =
  ci_id :: u32
  ci_lastActive :: u32
  ci_lastPong :: u32

text \<open>\<open>pt_webSocket\<close> stands for the three owned servers: they are set and reset together.\<close>

record 'w portal =
  portalParams :: "'w portal_params"
  pt_running :: bool
  pt_webSocket :: bool
  clientInfo :: "u32 \<rightharpoonup> client_info"

definition AsyncDevicePortal :: "'w portal_params \<Rightarrow> 'w portal" where
  "AsyncDevicePortal p = \<lparr>portalParams = p, pt_running = False, pt_webSocket = False, clientInfo = Map.empty\<rparr>"

record 'w web_lib =
  web_open :: "u16 \<Rightarrow> 'w \<Rightarrow> 'w"
  web_softAPIP :: "'w \<Rightarrow> id4"
  web_dnsStart :: "u16 \<Rightarrow> string \<Rightarrow> id4 \<Rightarrow> 'w \<Rightarrow> 'w"
  web_begin :: "'w \<Rightarrow> 'w"
  web_end :: "'w \<Rightarrow> 'w"
  web_dnsStop :: "'w \<Rightarrow> 'w"
  web_closeAll :: "'w \<Rightarrow> 'w"
  web_textAll :: "string \<Rightarrow> 'w \<Rightarrow> 'w"
  web_text :: "u32 \<Rightarrow> string \<Rightarrow> 'w \<Rightarrow> bool \<times> 'w"
  web_count :: "'w \<Rightarrow> nat"
  web_canSend :: "u32 \<Rightarrow> 'w \<Rightarrow> bool"
  web_keepAlive :: "u32 \<Rightarrow> nat \<Rightarrow> 'w \<Rightarrow> 'w"

datatype ws_event_type = WS_EVT_CONNECT | WS_EVT_DISCONNECT | WS_EVT_DATA | WS_EVT_ERROR | WS_EVT_PONG | WS_EVT_OTHER

section \<open>Lifecycle\<close>

definition pt_setParams :: "'w portal_params \<Rightarrow> 'w portal \<Rightarrow> rc \<times> 'w portal" where
  "pt_setParams p pt =
     (if pp_webPort p = 0 \<or> pp_dnsPort p = 0 \<or> pp_indexHtml p = [] then (RM_E_INVALID_PARAM, pt)
      else (RM_E_NONE, pt\<lparr>portalParams := p\<rparr>))"

definition isRunning :: "'w portal \<Rightarrow> bool" where
  "isRunning pt = pt_running pt"

definition pt_start :: "'w web_lib \<Rightarrow> 'w portal \<Rightarrow> 'w \<Rightarrow> rc \<times> 'w portal \<times> 'w" where
  "pt_start L pt w =
     (if isRunning pt then (RM_E_NONE, pt, w)
      else let w1 = web_open L (pp_webPort (portalParams pt)) w;
               w2 = web_dnsStart L (pp_dnsPort (portalParams pt)) ''*'' (web_softAPIP L w1) w1;
               w3 = web_begin L w2
           in (RM_E_NONE, pt\<lparr>pt_webSocket := True, pt_running := True\<rparr>, w3))"

definition pt_stop :: "'w web_lib \<Rightarrow> 'w portal \<Rightarrow> 'w \<Rightarrow> rc \<times> 'w portal \<times> 'w" where
  "pt_stop L pt w =
     (if \<not> isRunning pt then (RM_E_INVALID_STATE, pt, w)
      else (RM_E_NONE, pt\<lparr>pt_webSocket := False, pt_running := False\<rparr>, web_closeAll L (web_dnsStop L (web_end L w))))"

definition getClientCount :: "'w web_lib \<Rightarrow> 'w portal \<Rightarrow> 'w \<Rightarrow> nat" where
  "getClientCount L pt w = (if pt_webSocket pt then web_count L w else 0)"

section \<open>Messages\<close>

definition portal_text :: "portal_message \<Rightarrow> string" where
  \<open>portal_text m = ''{"type":"'' @ getType m @ ''","data":"'' @ serialize m @ ''"}''\<close>

definition sendToClient :: "'w web_lib \<Rightarrow> u32 \<Rightarrow> portal_message \<Rightarrow> 'w portal \<Rightarrow> 'w \<Rightarrow> rc \<times> 'w" where
  "sendToClient L clientId m pt w =
     (if \<not> isRunning pt \<or> \<not> pt_webSocket pt then (RM_E_INVALID_STATE, w)
      else if clientInfo pt clientId = None then (RM_E_INVALID_PARAM, w)
      else let w1 = web_textAll L (c_str (portal_text m)) w;
               (ok, w2) = web_text L clientId (c_str (portal_text m)) w1
           in if \<not> ok then (RM_E_UNKNOWN, w2) else (RM_E_NONE, w2))"

definition sendToClients :: "'w web_lib \<Rightarrow> portal_message \<Rightarrow> 'w portal \<Rightarrow> 'w \<Rightarrow> rc \<times> 'w" where
  "sendToClients L m pt w =
     (if \<not> isRunning pt \<or> \<not> pt_webSocket pt then (RM_E_INVALID_STATE, w)
      else (RM_E_NONE, web_textAll L (c_str (portal_text m)) w))"

text \<open>What \<open>handleClientMessage\<close> reads out of a message: the event type and the data.\<close>

definition parse_message :: "string \<Rightarrow> (string \<times> string) option" where
  \<open>parse_message msg = do {
     typeStart \<leftarrow> str_find msg ''"type":"'' 0;
     typeEnd \<leftarrow> str_find msg ''"'' (typeStart + 8);
     dataStart \<leftarrow> str_find msg ''"data":"'' 0;
     dataEnd \<leftarrow> str_find msg ''"}'' (dataStart + 8);
     Some (substr msg (typeStart + 8) (typeEnd - (typeStart + 8)),
           substr msg (dataStart + 8) (dataEnd - (dataStart + 8))) }\<close>

fun dispatch :: "'w event_handler list \<Rightarrow> string \<Rightarrow> u32 \<Rightarrow> bytes \<Rightarrow> 'w \<Rightarrow> 'w" where
  "dispatch [] eventType client dataVec w = w"
| "dispatch (h # hs) eventType client dataVec w =
     (if eh_event h = eventType then eh_callback h client dataVec w
      else dispatch hs eventType client dataVec w)"

definition handleClientMessage :: "'w web_lib \<Rightarrow> u32 option \<Rightarrow> bytes option \<Rightarrow> 'w portal \<Rightarrow> 'w \<Rightarrow> 'w" where
  "handleClientMessage L client data pt w =
     (case client of
        None \<Rightarrow> w
      | Some cl \<Rightarrow>
          if \<not> web_canSend L cl w then w
          else case data of
              None \<Rightarrow> w
            | Some bs \<Rightarrow>
                if bs = [] then w
                else case parse_message (map char_of_byte bs) of
                    None \<Rightarrow> w
                  | Some (eventType, dataStr) \<Rightarrow>
                      dispatch (pp_eventHandlers (portalParams pt)) eventType cl (map byte_of_char dataStr) w)"

definition handleWebSocketEvent :: "'w web_lib \<Rightarrow> u32 \<Rightarrow> ws_event_type \<Rightarrow> u32 option \<Rightarrow> bytes option \<Rightarrow>
    'w portal \<Rightarrow> 'w \<Rightarrow> 'w portal \<times> 'w" where
  "handleWebSocketEvent L millis evt client data pt w =
     (case client of
        None \<Rightarrow> (pt, w)
      | Some cl \<Rightarrow> (case evt of
            WS_EVT_CONNECT \<Rightarrow>
              (pt\<lparr>clientInfo := (clientInfo pt)(cl \<mapsto> \<lparr>ci_id = cl, ci_lastActive = 0, ci_lastPong = 0\<rparr>)\<rparr>, web_keepAlive L cl 20 w)
          | WS_EVT_DISCONNECT \<Rightarrow> (pt\<lparr>clientInfo := (clientInfo pt)(cl := None)\<rparr>, w)
          | WS_EVT_DATA \<Rightarrow> (pt, handleClientMessage L client data pt w)
          | WS_EVT_ERROR \<Rightarrow> (pt, w)
          | WS_EVT_PONG \<Rightarrow> (case clientInfo pt cl of
                None \<Rightarrow> (pt, w)
              | Some ci \<Rightarrow> (pt\<lparr>clientInfo := (clientInfo pt)(cl \<mapsto> ci\<lparr>ci_lastPong := millis\<rparr>)\<rparr>, w))
          | WS_EVT_OTHER \<Rightarrow> (pt, w)))"

section \<open>The page\<close>

text \<open>The script that is put into the page, before and after the \<open>%d\<close> of the port.\<close>

definition ws_code_head :: string where
  \<open>ws_code_head = ''
    <script>
        let wsRetryCount = 0;
        const MAX_RETRIES = 3;
        let reconnectTimeout = null;

        function connectWebSocket() {
            if (reconnectTimeout) {
                clearTimeout(reconnectTimeout);
                reconnectTimeout = null;
            }

            const ws = new WebSocket('ws://' + window.location.hostname + ':''\<close>

definition ws_code_tail :: string where
  \<open>ws_code_tail = ''/ws');

            ws.onopen = () => window.dispatchEvent(new CustomEvent('WebSocket.open'));
            ws.onclose = (event) => {
                window.dispatchEvent(new CustomEvent('WebSocket.close'));
                if (event.code !== 1000 && wsRetryCount < MAX_RETRIES) {
                    wsRetryCount++;
                    reconnectTimeout = setTimeout(connectWebSocket, 2000 * wsRetryCount);
                }
            };
            ws.onerror = () => window.dispatchEvent(new CustomEvent('WebSocket.error'));
            ws.onmessage = (event) => {
                try {
                    const msg = JSON.parse(event.data);
                    if (msg && msg.type && msg.data) {
                        window.dispatchEvent(new CustomEvent(msg.type, {detail: msg.data}));
                    }
                } catch(e) {
                    console.error('Invalid message format:', e);
                }
            };
            window.devicePortalWs = ws;
        }

        window.addEventListener('load', connectWebSocket);
    </script>''\<close>

definition wsCode :: string where
  "wsCode = ws_code_head @ ''%d'' @ ws_code_tail"

text \<open>\<open>snprintf\<close> with this format into a buffer of 4096 characters.\<close>

definition formattedBuffer :: "u16 \<Rightarrow> string" where
  "formattedBuffer port = take 4095 (ws_code_head @ dec_string (unat port) @ ws_code_tail)"

definition injectWebSocketCode :: "u16 \<Rightarrow> string \<Rightarrow> string" where
  "injectWebSocketCode port html =
     (case str_find html ''</body>'' 0 of
        Some pos \<Rightarrow> substr html 0 pos @ formattedBuffer port @ drop pos html
      | None \<Rightarrow> html @ wsCode)"

text \<open>The answer to a request for the main page; every other request is redirected to it.\<close>

definition serve_page :: "'w portal \<Rightarrow> string" where
  "serve_page pt = c_str (injectWebSocketCode (pp_webPort (portalParams pt)) (pp_indexHtml (portalParams pt)))"

text \<open>The stubs of a build without WiFi.\<close>

definition pt_call_stub :: "'w portal \<Rightarrow> rc \<times> 'w portal" where
  "pt_call_stub pt = (RM_E_NOT_SUPPORTED, pt)"

definition pt_query_stub :: "bool \<times> nat" where
  "pt_query_stub = (False, 0)"

section \<open>Messages are read back\<close>

text \<open>The part of a text before the first quote that is followed by a closing brace.\<close>

fun cut_at_close :: "string \<Rightarrow> string" where
  "cut_at_close [] = []"
| "cut_at_close (c # cs) =
     (if c = CHR 0x22 \<and> cs \<noteq> [] \<and> hd cs = CHR ''}'' then [] else c # cut_at_close cs)"

lemma cut_at_close_prefix: "take (length (cut_at_close d)) d = cut_at_close d"
  by (induction d rule: cut_at_close.induct) auto

lemma cut_at_close_eq: "cut_at_close d = d \<longleftrightarrow> (\<nexists>xs ys. d = xs @ [CHR 0x22, CHR ''}''] @ ys)"
proof (induction d)
  case (Cons c cs)
  show ?case
  proof (cases "c = CHR 0x22 \<and> cs \<noteq> [] \<and> hd cs = CHR ''}''")
    case True
    then have "c # cs = [] @ [CHR 0x22, CHR ''}''] @ tl cs" by (cases cs) auto
    then show ?thesis using True by (metis cut_at_close.simps(2) list.distinct(1))
  next
    case False
    have "(\<exists>xs ys. c # cs = xs @ [CHR 0x22, CHR ''}''] @ ys) \<longleftrightarrow> (\<exists>xs ys. cs = xs @ [CHR 0x22, CHR ''}''] @ ys)"
      using False by (auto simp: Cons_eq_append_conv)
    then show ?thesis using False Cons.IH by auto
  qed
qed simp

text \<open>A pattern that begins with a quote is not found inside a text without quotes.\<close>

lemma find_at_skip:
  "CHR 0x22 \<notin> set t \<Longrightarrow> find_at (CHR 0x22 # p) (t @ ys) i = find_at (CHR 0x22 # p) ys (i + length t)"
  by (induction t arbitrary: i) auto

lemma find_at_close: "find_at [CHR 0x22, CHR ''}''] (d @ [CHR 0x22, CHR ''}'']) i = Some (i + length (cut_at_close d))"
proof (induction d arbitrary: i)
  case (Cons c cs)
  then show ?case by (cases cs) auto
qed simp

lemma data_key_not_in_type:
  \<open>CHR 0x22 \<notin> set t \<Longrightarrow> take (length ''data":"'') (t @ CHR 0x22 # CHR '','' # ys) \<noteq> ''data":"''\<close>
  by (cases t; cases "tl t"; cases "tl (tl t)"; cases "tl (tl (tl t))"; cases "tl (tl (tl (tl t)))") auto

text \<open>The message as one list of characters.\<close>

lemma portal_text_chars:
  \<open>portal_text m = ''{"type":"'' @ getType m @ CHR 0x22 # '',"data":"'' @ serialize m @ [CHR 0x22, CHR ''}'']\<close>
  by (simp add: portal_text_def)

lemma parse_portal_text:
  assumes t: "CHR 0x22 \<notin> set (getType m)"
  shows "parse_message (portal_text m) = Some (getType m, cut_at_close (serialize m))"
proof -
  let ?T = "getType m" and ?D = "serialize m"
  let ?n = "9 + length ?T"
  have ty: \<open>str_find (portal_text m) ''"type":"'' 0 = Some 1\<close>
    by (simp add: portal_text_chars str_find_def)
  have te: \<open>str_find (portal_text m) ''"'' (1 + 8) = Some ?n\<close>
    using t by (simp add: portal_text_chars str_find_def find_at_skip)
  have ds: \<open>str_find (portal_text m) ''"data":"'' 0 = Some (?n + 2)\<close>
    using t data_key_not_in_type [OF t] by (simp add: portal_text_chars str_find_def find_at_skip)
  let ?P = \<open>''{"type":"'' @ ?T @ ''","data":"''\<close>
  have "portal_text m = ?P @ ?D @ [CHR 0x22, CHR ''}'']" "length ?P = ?n + 10" by (simp_all add: portal_text_def)
  then have dd: "drop (?n + 10) (portal_text m) = ?D @ [CHR 0x22, CHR ''}'']" by (metis append_eq_conv_conj)
  have de: \<open>str_find (portal_text m) ''"}'' (?n + 2 + 8) = Some (?n + 10 + length (cut_at_close ?D))\<close>
    using dd by (simp add: str_find_def find_at_close) (simp add: portal_text_chars)
  have le: "length (cut_at_close ?D) \<le> length ?D" by (metis cut_at_close_prefix length_take min.cobounded1)
  have "substr (portal_text m) 9 (length ?T) = ?T" by (simp add: substr_def portal_text_chars)
  moreover have "substr (portal_text m) (?n + 10) (length (cut_at_close ?D)) = cut_at_close ?D"
    using dd le by (simp add: substr_def cut_at_close_prefix)
  ultimately show ?thesis
    using ty te ds de by (simp add: parse_message_def)
qed

lemma dispatch_find:
  "dispatch hs t cl bs w = (case List.find (\<lambda>h. eh_event h = t) hs of None \<Rightarrow> w | Some h \<Rightarrow> eh_callback h cl bs w)"
  by (induction hs) auto

text \<open>C18: A portal message in the format of the portal reaches its handler. When a client that can
  receive sends such a message and its type has no quote in it, the portal itself is unchanged, the
  callback of the first handler registered for exactly this type is called once, with the client and
  the data of the message, and no other handler is; without such a handler nothing happens. The data
  arrives up to the first quote that is followed by a closing brace: complete if and only if it
  contains no such pair, which every nested JSON object whose last member is a string does
  contain.\<close>

theorem portal_message_reaches_handler:
  assumes "CHR 0x22 \<notin> set (getType m)" and "web_canSend L cl w"
  shows "handleWebSocketEvent L t WS_EVT_DATA (Some cl) (Some (map byte_of_char (portal_text m))) pt w =
      (pt, case List.find (\<lambda>h. eh_event h = getType m) (pp_eventHandlers (portalParams pt)) of
         None \<Rightarrow> w
       | Some h \<Rightarrow> eh_callback h cl (map byte_of_char (cut_at_close (serialize m))) w) \<and>
    (cut_at_close (serialize m) = serialize m \<longleftrightarrow> (\<nexists>xs ys. serialize m = xs @ [CHR 0x22, CHR ''}''] @ ys))"
proof -
  have "map char_of_byte (map byte_of_char s) = s" for s by (simp add: comp_def)
  moreover have "portal_text m \<noteq> []" by (simp add: portal_text_def)
  ultimately show ?thesis
    using assms by (simp add: handleWebSocketEvent_def handleClientMessage_def parse_portal_text dispatch_find cut_at_close_eq)
qed

text \<open>A world for examples: the connected clients, what each has received, and the calls of event
  handlers.\<close>

record toy_web =
  tw_connected :: "u32 list"
  tw_inbox :: "u32 \<Rightarrow> string list"
  tw_calls :: "(nat \<times> u32 \<times> bytes) list"

definition toy_web_lib :: "toy_web web_lib" where
  "toy_web_lib = \<lparr>web_open = \<lambda>_ w. w, web_softAPIP = \<lambda>_. Id4 10 0 0 1, web_dnsStart = \<lambda>_ _ _ w. w, web_begin = \<lambda>w. w,
     web_end = \<lambda>w. w, web_dnsStop = \<lambda>w. w, web_closeAll = \<lambda>w. w\<lparr>tw_connected := []\<rparr>,
     web_textAll = \<lambda>m w. w\<lparr>tw_inbox := \<lambda>c. if c \<in> set (tw_connected w) then tw_inbox w c @ [m] else tw_inbox w c\<rparr>,
     web_text = \<lambda>c m w. (c \<in> set (tw_connected w), if c \<in> set (tw_connected w)
        then w\<lparr>tw_inbox := (tw_inbox w)(c := tw_inbox w c @ [m])\<rparr> else w),
     web_count = \<lambda>w. length (tw_connected w), web_canSend = \<lambda>c w. c \<in> set (tw_connected w), web_keepAlive = \<lambda>_ _ w. w\<rparr>"

definition toy_portal_params :: "toy_web portal_params" where
  "toy_portal_params = \<lparr>pp_title = ''hub'', pp_indexHtml = ''<body></body>'', pp_webPort = 80, pp_dnsPort = 53,
     pp_eventHandlers = [\<lparr>eh_event = ''led'', eh_callback = \<lambda>c bs w. w\<lparr>tw_calls := tw_calls w @ [(1, c, bs)]\<rparr>\<rparr>,
       \<lparr>eh_event = ''led'', eh_callback = \<lambda>c bs w. w\<lparr>tw_calls := tw_calls w @ [(2, c, bs)]\<rparr>\<rparr>]\<rparr>"

definition toy_web :: toy_web where
  "toy_web = \<lparr>tw_connected = [7, 8], tw_inbox = \<lambda>_. [], tw_calls = []\<rparr>"

theorem portal_message_reaches_handler_witness:
  "snd (handleWebSocketEvent toy_web_lib 0 WS_EVT_DATA (Some 7)
      (Some (map byte_of_char (portal_text \<lparr>getType = ''led'', serialize = ''on''\<rparr>))) (AsyncDevicePortal toy_portal_params) toy_web)
     = toy_web\<lparr>tw_calls := [(1, 7, map byte_of_char ''on'')]\<rparr> \<and>
   cut_at_close ''on'' = ''on''"
proof -
  have "CHR 0x22 \<notin> set (getType \<lparr>getType = ''led'', serialize = ''on''\<rparr>)" "web_canSend toy_web_lib 7 toy_web"
    by (simp_all add: toy_web_lib_def toy_web_def)
  from portal_message_reaches_handler [OF this, of 0 "AsyncDevicePortal toy_portal_params"] show ?thesis
    by (simp add: toy_portal_params_def AsyncDevicePortal_def toy_web_def)
qed

section \<open>Sessions\<close>

text \<open>What can happen to a portal: the calls of the program, the events of the web socket, and
  changes of the world (such as a client that connects) that no event has reported yet.\<close>

datatype 'w portal_event =
    PtSetParams "'w portal_params"
  | PtStart
  | PtStop
  | PtSend u32 portal_message
  | PtSendAll portal_message
  | PtSocket u32 ws_event_type "u32 option" "bytes option"
  | PtWorldChange "'w \<Rightarrow> 'w"

fun portal_step :: "'w web_lib \<Rightarrow> 'w portal_event \<Rightarrow> 'w portal \<times> 'w \<Rightarrow> 'w portal \<times> 'w" where
  "portal_step L (PtSetParams p) (pt, w) = (snd (pt_setParams p pt), w)"
| "portal_step L PtStart (pt, w) = snd (pt_start L pt w)"
| "portal_step L PtStop (pt, w) = snd (pt_stop L pt w)"
| "portal_step L (PtSend c m) (pt, w) = (pt, snd (sendToClient L c m pt w))"
| "portal_step L (PtSendAll m) (pt, w) = (pt, snd (sendToClients L m pt w))"
| "portal_step L (PtSocket t evt c bs) (pt, w) = handleWebSocketEvent L t evt c bs pt w"
| "portal_step L (PtWorldChange f) (pt, w) = (pt, f w)"

definition portal_run :: "'w web_lib \<Rightarrow> 'w portal_event list \<Rightarrow> 'w portal \<times> 'w \<Rightarrow> 'w portal \<times> 'w" where
  "portal_run L evs st = foldl (\<lambda>st ev. portal_step L ev st) st evs"

text \<open>The clients a portal knows, by the events alone.\<close>

fun known_after :: "'w portal_event \<Rightarrow> u32 set \<Rightarrow> u32 set" where
  "known_after (PtSocket t WS_EVT_CONNECT (Some c) bs) K = insert c K"
| "known_after (PtSocket t WS_EVT_DISCONNECT (Some c) bs) K = K - {c}"
| "known_after _ K = K"

definition known_clients :: "'w portal_event list \<Rightarrow> u32 set" where
  "known_clients evs = foldl (\<lambda>K ev. known_after ev K) {} evs"

lemma portal_step_known:
  "dom (clientInfo (fst (portal_step L ev st))) = known_after ev (dom (clientInfo (fst st)))"
proof (cases st)
  case (Pair pt w)
  show ?thesis
  proof (cases ev)
    case (PtSocket t evt c bs)
    then show ?thesis using Pair
      by (cases c; cases evt) (auto simp: handleWebSocketEvent_def split: option.splits)
  qed (simp_all add: Pair pt_setParams_def pt_start_def pt_stop_def Let_def)
qed

lemma portal_step_servers:
  "(pt_webSocket (fst st) \<longleftrightarrow> pt_running (fst st)) \<Longrightarrow>
   pt_webSocket (fst (portal_step L ev st)) \<longleftrightarrow> pt_running (fst (portal_step L ev st))"
proof (cases st)
  case (Pair pt w)
  assume "pt_webSocket (fst st) \<longleftrightarrow> pt_running (fst st)"
  then show ?thesis
  proof (cases ev)
    case (PtSocket t evt c bs)
    then show ?thesis using Pair \<open>pt_webSocket (fst st) \<longleftrightarrow> pt_running (fst st)\<close>
      by (cases c; cases evt) (auto simp: handleWebSocketEvent_def split: option.splits)
  qed (simp_all add: Pair pt_setParams_def pt_start_def pt_stop_def Let_def)
qed

lemma portal_run_inv:
  assumes "portal_run L evs (AsyncDevicePortal p, w0) = (pt, w)"
  shows "dom (clientInfo pt) = known_clients evs" and "pt_webSocket pt \<longleftrightarrow> pt_running pt"
proof -
  have "dom (clientInfo (fst (foldl (\<lambda>st ev. portal_step L ev st) st evs)))
      = foldl (\<lambda>K ev. known_after ev K) (dom (clientInfo (fst st))) evs" for st
    by (induction evs arbitrary: st) (simp_all add: portal_step_known)
  from this [of "(AsyncDevicePortal p, w0)"] show "dom (clientInfo pt) = known_clients evs"
    using assms by (simp add: portal_run_def known_clients_def AsyncDevicePortal_def)
  have "pt_webSocket (fst st) = pt_running (fst st) \<Longrightarrow>
      pt_webSocket (fst (foldl (\<lambda>st ev. portal_step L ev st) st evs)) = pt_running (fst (foldl (\<lambda>st ev. portal_step L ev st) st evs))" for st
    by (induction evs arbitrary: st) (simp_all add: portal_step_servers)
  from this [of "(AsyncDevicePortal p, w0)"] show "pt_webSocket pt \<longleftrightarrow> pt_running pt"
    using assms by (simp add: portal_run_def AsyncDevicePortal_def)
qed

text \<open>Documented behaviour of the web socket: \<open>textAll\<close> queues a text for every connected client,
  \<open>text\<close> for one, and neither changes who is connected.\<close>

definition socket_laws :: "'w web_lib \<Rightarrow> ('w \<Rightarrow> u32 set) \<Rightarrow> ('w \<Rightarrow> u32 \<Rightarrow> string list) \<Rightarrow> bool" where
  "socket_laws L connected inbox \<longleftrightarrow>
     (\<forall>m w. connected (web_textAll L m w) = connected w) \<and>
     (\<forall>m w c. inbox (web_textAll L m w) c = (if c \<in> connected w then inbox w c @ [m] else inbox w c)) \<and>
     (\<forall>c m w. fst (web_text L c m w) = (c \<in> connected w)) \<and>
     (\<forall>c m w c'. inbox (snd (web_text L c m w)) c' = (if c' = c \<and> c \<in> connected w then inbox w c' @ [m] else inbox w c'))"

text \<open>C28: A message to one client reaches them all. Whatever has happened to the portal:
  \<open>sendToClient\<close> is refused, and nobody receives anything, exactly when the portal is not running
  or no connect event without a later disconnect event named the client. Otherwise every connected
  client receives the message, the addressed one twice if it is still connected, and the result is
  success exactly in that case.\<close>

theorem private_messages_reach_everyone:
  assumes run: "portal_run L evs (AsyncDevicePortal p, w0) = (pt, w)" and laws: "socket_laws L connected inbox"
  shows "case sendToClient L c m pt w of (rc, w') \<Rightarrow>
    if \<not> isRunning pt then rc = RM_E_INVALID_STATE \<and> w' = w
    else if c \<notin> known_clients evs then rc = RM_E_INVALID_PARAM \<and> w' = w
    else (rc = RM_E_NONE \<longleftrightarrow> c \<in> connected w) \<and>
      (\<forall>c'. inbox w' c' = inbox w c' @
         (if c' \<notin> connected w then [] else if c' = c then [c_str (portal_text m), c_str (portal_text m)] else [c_str (portal_text m)]))"
proof -
  have known: "clientInfo pt c = None \<longleftrightarrow> c \<notin> known_clients evs"
    using portal_run_inv(1) [OF run] by (auto simp: domIff)
  obtain w1 where w1: "web_textAll L (c_str (portal_text m)) w = w1" by simp
  obtain ok w2 where w2: "web_text L c (c_str (portal_text m)) w1 = (ok, w2)" by fastforce
  have "connected w1 = connected w" "\<forall>c'. inbox w1 c' = (if c' \<in> connected w then inbox w c' @ [c_str (portal_text m)] else inbox w c')"
    using laws w1 by (auto simp: socket_laws_def)
  moreover have "ok = (c \<in> connected w1)"
      "\<forall>c'. inbox w2 c' = (if c' = c \<and> c \<in> connected w1 then inbox w1 c' @ [c_str (portal_text m)] else inbox w1 c')"
    using laws w2 unfolding socket_laws_def by (metis fst_conv, metis snd_conv)
  ultimately show ?thesis
    using known portal_run_inv(2) [OF run] w1 w2 by (simp add: sendToClient_def isRunning_def)
qed

definition toy_session :: "toy_web portal_event list" where
  "toy_session = [PtStart, PtSocket 0 WS_EVT_CONNECT (Some 7) None, PtSocket 0 WS_EVT_CONNECT (Some 8) None]"

lemma toy_socket_laws: "socket_laws toy_web_lib (\<lambda>w. set (tw_connected w)) tw_inbox"
  by (simp add: socket_laws_def toy_web_lib_def)

theorem private_messages_reach_everyone_witness:
  "let (pt, w) = portal_run toy_web_lib toy_session (AsyncDevicePortal toy_portal_params, toy_web);
       (rc, w') = sendToClient toy_web_lib 7 \<lparr>getType = ''pin'', serialize = ''1234''\<rparr> pt w
   in rc = RM_E_NONE \<and> length (tw_inbox w' 7) = 2 \<and> length (tw_inbox w' 8) = 1"
proof -
  obtain pt w where r: "portal_run toy_web_lib toy_session (AsyncDevicePortal toy_portal_params, toy_web) = (pt, w)" by fastforce
  obtain rc w' where s: "sendToClient toy_web_lib 7 \<lparr>getType = ''pin'', serialize = ''1234''\<rparr> pt w = (rc, w')" by fastforce
  have k: "known_clients toy_session = {7, 8}" by (auto simp: known_clients_def toy_session_def)
  have pt: "isRunning pt \<and> w = toy_web"
    using r by (simp add: portal_run_def toy_session_def AsyncDevicePortal_def pt_start_def isRunning_def
        handleWebSocketEvent_def toy_web_lib_def) auto
  from private_messages_reach_everyone [OF r toy_socket_laws, of 7 "\<lparr>getType = ''pin'', serialize = ''1234''\<rparr>"]
  show ?thesis using r s k pt by (simp add: toy_web_def)
qed

text \<open>The portal keeps no limit on its clients: \<open>MAX_CLIENTS\<close> is not used.\<close>

lemma clients_unlimited: "known_clients (map (\<lambda>c. PtSocket 0 WS_EVT_CONNECT (Some c) None) cs) = set cs"
proof -
  have "foldl (\<lambda>K ev. known_after ev K) K (map (\<lambda>c. PtSocket 0 WS_EVT_CONNECT (Some c) None) cs) = K \<union> set cs" for K
    by (induction cs arbitrary: K) auto
  from this [of "{}"] show ?thesis by (simp add: known_clients_def)
qed

section \<open>The served page\<close>

lemma find_at_plain:
  assumes "\<And>k. k < length xs \<Longrightarrow> take (length pat) (drop k (xs @ pat @ ys)) \<noteq> pat"
  shows "find_at pat (xs @ pat @ ys) i = Some (i + length xs)"
  using assms
proof (induction xs arbitrary: i)
  case Nil
  then show ?case by (cases pat; cases ys) auto
next
  case (Cons x xs)
  have "take (length pat) (x # xs @ pat @ ys) \<noteq> pat" using Cons.prems [of 0] by simp
  moreover have "find_at pat (xs @ pat @ ys) (Suc i) = Some (Suc i + length xs)"
    by (rule Cons.IH) (use Cons.prems [of "Suc _"] in force)
  ultimately show ?case by simp
qed

lemma length_port: "length (dec_string (unat (port :: u16))) \<le> 5"
proof -
  have "unat port < 65536" using unsigned_less [of port] by simp
  then show ?thesis using length_dec_string [of "unat port" 4] by simp
qed

text \<open>The script fits its buffer, so a page with a \<open></body>\<close> tag gets all of it, with the port
  number, before the first such tag; a page without one gets the text with the \<open>%d\<close> still in it.\<close>

lemma inject_before_body:
  assumes "\<And>k. k < length pre \<Longrightarrow> take (length ''</body>'') (drop k (pre @ ''</body>'' @ post)) \<noteq> ''</body>''"
  shows "injectWebSocketCode port (pre @ ''</body>'' @ post) =
    pre @ ws_code_head @ dec_string (unat port) @ ws_code_tail @ ''</body>'' @ post"
proof -
  have "find_at ''</body>'' (pre @ ''</body>'' @ post) 0 = Some (0 + length pre)"
    by (rule find_at_plain) (use assms in blast)
  moreover have "length ws_code_head + length ws_code_tail \<le> 4000" by (simp add: ws_code_head_def ws_code_tail_def)
  ultimately show ?thesis using length_port [of port]
    by (simp add: injectWebSocketCode_def str_find_def formattedBuffer_def substr_def)
qed

lemma inject_without_body:
  assumes "str_find html ''</body>'' 0 = None"
  shows "injectWebSocketCode port html = html @ ws_code_head @ ''%d'' @ ws_code_tail"
  using assms by (simp add: injectWebSocketCode_def wsCode_def)

end
