(* ===== verification/RM_Builder.thy ===== *)
theory RM_Builder
  imports RM_Relay RM_Display RM_Portal
begin

text \<open>
  How a device is put together: \<open>src/src/framework/builder/src/DeviceBuilder.cpp\<close> with its header,
  and the set-up of the display, WiFi and portal components in
  \<open>src/src/framework/device/src/Device.cpp\<close>. The components are singletons: the record \<open>board\<close> is
  what of them outlives a device. A device holds pointers to the singletons it uses; a pointer is a
  flag, a custom display is the program's own pointer. The services that the router points to are
  members of the device: when a device is deleted after it was initialised the router's pointers
  dangle until the next device is initialised, and nothing is routed in between.
\<close>

section \<open>The singletons and a device on them\<close>

record ('s, 'd, 'w) board =
  bo_net :: net
  bo_store :: 's
  bo_rng :: rng
  bo_oled :: "'d oled"
  bo_wifi :: wifi_connector
  bo_ap :: access_point
  bo_portal :: "'w portal"

record ('s, 'd, 'w, 'c) whole_device =
  wd_dev :: "'s device"
  wd_oled :: "'d oled"
  wd_wifi :: wifi_connector
  wd_ap :: access_point
  wd_portal :: "'w portal"
  oledDisplay :: bool
  customDisplay :: "'c option"
  wifiConnector :: bool
  wifiAccessPoint :: bool
  devicePortal :: bool

definition new_device :: "string \<Rightarrow> id4 \<Rightarrow> device_type \<Rightarrow> ('s, 'd, 'w) board \<Rightarrow> ('s, 'd, 'w, 'c) whole_device" where
  "new_device nm did dt bo = \<lparr>wd_dev = RadioMeshDevice nm did dt (bo_net bo) (bo_store bo) (bo_rng bo), wd_oled = bo_oled bo,
     wd_wifi = bo_wifi bo, wd_ap = bo_ap bo, wd_portal = bo_portal bo, oledDisplay = False, customDisplay = None,
     wifiConnector = False, wifiAccessPoint = False, devicePortal = False\<rparr>"

definition board_of :: "('s, 'd, 'w, 'c) whole_device \<Rightarrow> ('s, 'd, 'w) board" where
  "board_of h = \<lparr>bo_net = d_net (wd_dev h), bo_store = d_store (wd_dev h), bo_rng = d_rng (wd_dev h), bo_oled = wd_oled h,
     bo_wifi = wd_wifi h, bo_ap = wd_ap h, bo_portal = wd_portal h\<rparr>"

section \<open>Component set-up in the device\<close>

definition setCustomDisplay :: "'c option \<Rightarrow> ('s, 'd, 'w, 'c) whole_device \<Rightarrow> rc \<times> ('s, 'd, 'w, 'c) whole_device" where
  "setCustomDisplay display h =
     (if display = None then (RM_E_INVALID_PARAM, h) else (RM_E_NONE, h\<lparr>customDisplay := display\<rparr>))"

definition initializeOledDisplay :: "oled_params \<Rightarrow> ('s, 'd, 'w, 'c) whole_device \<Rightarrow> rc \<times> ('s, 'd, 'w, 'c) whole_device" where
  "initializeOledDisplay p h =
     (case oled_setParams p (wd_oled h) of
        (rc, ol) \<Rightarrow> (rc, h\<lparr>wd_oled := ol, oledDisplay := (rc = RM_E_NONE)\<rparr>))"

datatype 'c display_ref = NoDisplay | OledSingleton | CustomDisplay 'c

definition getDisplay :: "('s, 'd, 'w, 'c) whole_device \<Rightarrow> 'c display_ref" where
  "getDisplay h =
     (case customDisplay h of Some c \<Rightarrow> CustomDisplay c
      | None \<Rightarrow> if oledDisplay h then OledSingleton else NoDisplay)"

definition initializeWifi :: "wifi_params \<Rightarrow> ('s, 'd, 'w, 'c) whole_device \<Rightarrow> rc \<times> ('s, 'd, 'w, 'c) whole_device" where
  "initializeWifi p h =
     (case wc_setParams p (wd_wifi h) of
        (rc, c) \<Rightarrow> (rc, h\<lparr>wd_wifi := c, wifiConnector := (rc = RM_E_NONE)\<rparr>))"

definition getWifiConnector :: "('s, 'd, 'w, 'c) whole_device \<Rightarrow> wifi_connector option" where
  "getWifiConnector h = (if wifiConnector h then Some (wd_wifi h) else None)"

definition initializeWifiAccessPoint ::
  "'v wifi_lib \<Rightarrow> ap_params \<Rightarrow> ('s, 'd, 'w, 'c) whole_device \<Rightarrow> rc \<times> ('s, 'd, 'w, 'c) whole_device" where
  "initializeWifiAccessPoint L p h =
     (case ap_setParams L p (wd_ap h) of
        (rc, a) \<Rightarrow> (rc, h\<lparr>wd_ap := a, wifiAccessPoint := (rc = RM_E_NONE)\<rparr>))"

definition getWifiAccessPoint :: "('s, 'd, 'w, 'c) whole_device \<Rightarrow> access_point option" where
  "getWifiAccessPoint h = (if wifiAccessPoint h then Some (wd_ap h) else None)"

definition initializeDevicePortal :: "'w portal_params \<Rightarrow> ('s, 'd, 'w, 'c) whole_device \<Rightarrow> rc \<times> ('s, 'd, 'w, 'c) whole_device" where
  "initializeDevicePortal p h =
     (case pt_setParams p (wd_portal h) of
        (rc, pt) \<Rightarrow> (rc, h\<lparr>wd_portal := pt, devicePortal := (rc = RM_E_NONE)\<rparr>))"

definition getDevicePortal :: "('s, 'd, 'w, 'c) whole_device \<Rightarrow> 'w portal option" where
  "getDevicePortal h = (if devicePortal h then Some (wd_portal h) else None)"

text \<open>The versions of a build without a display or without WiFi accept everything and set nothing
  up; the pointers do not exist and the getters answer null.\<close>

definition initialize_component_stub :: "('s, 'd, 'w, 'c) whole_device \<Rightarrow> rc \<times> ('s, 'd, 'w, 'c) whole_device" where
  "initialize_component_stub h = (RM_E_NONE, h)"

definition get_component_stub :: "('s, 'd, 'w, 'c) whole_device \<Rightarrow> unit option" where
  "get_component_stub h = None"

section \<open>The builder\<close>

record ('w, 'c) builder =
  isBuilderStarted :: bool
  blueprint :: device_blueprint
  b_radioParams :: lora_params
  b_securityParams :: security_params
  b_oledParams :: oled_params
  b_wifiParams :: wifi_params
  b_apParams :: ap_params
  b_portalParams :: "'w portal_params"
  b_relayEnabled :: bool
  b_rxCallback :: bool
  b_txCallback :: bool
  b_customDisplay :: "'c option"
  b_useCustomDisplay :: bool

text \<open>A new builder: the blueprint and the ports of the portal parameters are not initialised.\<close>

definition DeviceBuilder :: "device_blueprint \<Rightarrow> 'w portal_params \<Rightarrow> ('w, 'c) builder" where
  "DeviceBuilder bp pp = \<lparr>isBuilderStarted = False, blueprint = bp, b_radioParams = LoraRadioParams,
     b_securityParams = default_security_params, b_oledParams = OledDisplayParams, b_wifiParams = \<lparr>wp_ssid = [], wp_password = []\<rparr>,
     b_apParams = \<lparr>ap_ssid = [], ap_password = [], ap_ipAddress = []\<rparr>, b_portalParams = pp, b_relayEnabled = False,
     b_rxCallback = False, b_txCallback = False, b_customDisplay = None, b_useCustomDisplay = False\<rparr>"

definition no_blueprint :: device_blueprint where
  "no_blueprint = \<lparr>hasRadio = False, canRelay = False, hasDisplay = False, usesCrypto = False, hasRxCallback = False,
     hasTxCallback = False, hasWifi = False, hasWifiAccessPoint = False, hasDevicePortal = False\<rparr>"

definition start :: "('w, 'c) builder \<Rightarrow> ('w, 'c) builder" where
  "start b = b\<lparr>blueprint := no_blueprint, b_relayEnabled := False, isBuilderStarted := True\<rparr>"

definition withRxPacketCallback :: "bool \<Rightarrow> ('w, 'c) builder \<Rightarrow> ('w, 'c) builder" where
  "withRxPacketCallback present b = b\<lparr>blueprint := (blueprint b)\<lparr>hasRxCallback := True\<rparr>, b_rxCallback := present\<rparr>"

definition withTxPacketCallback :: "bool \<Rightarrow> ('w, 'c) builder \<Rightarrow> ('w, 'c) builder" where
  "withTxPacketCallback present b = b\<lparr>blueprint := (blueprint b)\<lparr>hasTxCallback := True\<rparr>, b_txCallback := present\<rparr>"

definition withLoraRadio :: "lora_params \<Rightarrow> ('w, 'c) builder \<Rightarrow> ('w, 'c) builder" where
  "withLoraRadio p b = b\<lparr>blueprint := (blueprint b)\<lparr>hasRadio := True\<rparr>, b_radioParams := p\<rparr>"

definition withRelayEnabled :: "bool \<Rightarrow> ('w, 'c) builder \<Rightarrow> ('w, 'c) builder" where
  "withRelayEnabled enabled b = b\<lparr>blueprint := (blueprint b)\<lparr>canRelay := True\<rparr>, b_relayEnabled := enabled\<rparr>"

definition withSecureMessaging :: "security_params \<Rightarrow> ('w, 'c) builder \<Rightarrow> ('w, 'c) builder" where
  "withSecureMessaging p b = b\<lparr>blueprint := (blueprint b)\<lparr>usesCrypto := True\<rparr>,
     b_securityParams := \<lparr>sp_key = sp_key p, sp_iv = sp_iv p, sp_method = sp_method p\<rparr>\<rparr>"

definition withOledDisplay :: "oled_params \<Rightarrow> ('w, 'c) builder \<Rightarrow> ('w, 'c) builder" where
  "withOledDisplay p b = b\<lparr>blueprint := (blueprint b)\<lparr>hasDisplay := True\<rparr>, b_oledParams := p, b_useCustomDisplay := False\<rparr>"

definition withCustomDisplay :: "'c option \<Rightarrow> ('w, 'c) builder \<Rightarrow> ('w, 'c) builder" where
  "withCustomDisplay display b = b\<lparr>blueprint := (blueprint b)\<lparr>hasDisplay := True\<rparr>, b_useCustomDisplay := True,
     b_customDisplay := display\<rparr>"

definition withWifi :: "wifi_params \<Rightarrow> ('w, 'c) builder \<Rightarrow> ('w, 'c) builder" where
  "withWifi p b = b\<lparr>blueprint := (blueprint b)\<lparr>hasWifi := True\<rparr>, b_wifiParams := \<lparr>wp_ssid = wp_ssid p, wp_password = wp_password p\<rparr>\<rparr>"

definition withWifiAccessPoint :: "ap_params \<Rightarrow> ('w, 'c) builder \<Rightarrow> ('w, 'c) builder" where
  "withWifiAccessPoint p b = b\<lparr>blueprint := (blueprint b)\<lparr>hasWifiAccessPoint := True\<rparr>,
     b_apParams := \<lparr>ap_ssid = ap_ssid p, ap_password = ap_password p, ap_ipAddress = ap_ipAddress p\<rparr>\<rparr>"

definition withDevicePortal :: "'w portal_params \<Rightarrow> ('w, 'c) builder \<Rightarrow> ('w, 'c) builder" where
  "withDevicePortal p b = b\<lparr>blueprint := (blueprint b)\<lparr>hasDevicePortal := True\<rparr>, b_portalParams := p\<rparr>"

definition getBlueprint :: "('w, 'c) builder \<Rightarrow> device_blueprint" where
  "getBlueprint b = blueprint b"

text \<open>The stages of \<open>build\<close> after the device is initialised: each says whether to go on, with the
  device. The results of \<open>registerCallback\<close>, \<open>enableRelay\<close> and \<open>setCustomDisplay\<close> are not looked
  at.\<close>

definition upd_dev :: "('s device \<Rightarrow> 's device) \<Rightarrow> ('s, 'd, 'w, 'c) whole_device \<Rightarrow> ('s, 'd, 'w, 'c) whole_device" where
  "upd_dev f h = h\<lparr>wd_dev := f (wd_dev h)\<rparr>"

definition rx_stage :: "('w, 'c) builder \<Rightarrow> ('s, 'd, 'w, 'c) whole_device \<Rightarrow> bool \<times> ('s, 'd, 'w, 'c) whole_device" where
  "rx_stage b h =
     (if \<not> hasRxCallback (blueprint b) then (True, h)
      else if \<not> b_rxCallback b then (False, h)
      else (True, upd_dev (registerCallback (b_rxCallback b)) h))"

definition tx_stage :: "('w, 'c) builder \<Rightarrow> ('s, 'd, 'w, 'c) whole_device \<Rightarrow> bool \<times> ('s, 'd, 'w, 'c) whole_device" where
  "tx_stage b h =
     (if \<not> hasTxCallback (blueprint b) then (True, h)
      else if \<not> b_txCallback b then (False, h)
      else (True, upd_dev (registerTxCallback (b_txCallback b)) h))"

definition radio_stage :: "('w, 'c) builder \<Rightarrow> ('s, 'd, 'w, 'c) whole_device \<Rightarrow> bool \<times> ('s, 'd, 'w, 'c) whole_device" where
  "radio_stage b h =
     (if \<not> hasRadio (blueprint b) then (True, h)
      else case initializeRadio (b_radioParams b) (wd_dev h) of (rc, d) \<Rightarrow> (rc = RM_E_NONE, h\<lparr>wd_dev := d\<rparr>))"

definition relay_stage :: "('w, 'c) builder \<Rightarrow> ('s, 'd, 'w, 'c) whole_device \<Rightarrow> bool \<times> ('s, 'd, 'w, 'c) whole_device" where
  "relay_stage b h =
     (if \<not> canRelay (blueprint b) then (True, h) else (True, upd_dev (enableRelay (b_relayEnabled b)) h))"

definition crypto_stage :: "('w, 'c) builder \<Rightarrow> ('s, 'd, 'w, 'c) whole_device \<Rightarrow> bool \<times> ('s, 'd, 'w, 'c) whole_device" where
  "crypto_stage b h =
     (if \<not> usesCrypto (blueprint b) then (True, h)
      else case initializeAesCrypto (b_securityParams b) (wd_dev h) of (rc, d) \<Rightarrow> (rc = RM_E_NONE, h\<lparr>wd_dev := d\<rparr>))"

definition display_stage :: "('w, 'c) builder \<Rightarrow> ('s, 'd, 'w, 'c) whole_device \<Rightarrow> bool \<times> ('s, 'd, 'w, 'c) whole_device" where
  "display_stage b h =
     (if \<not> hasDisplay (blueprint b) then (True, h)
      else if b_useCustomDisplay b then
        (if b_customDisplay b = None then (False, h) else (True, snd (setCustomDisplay (b_customDisplay b) h)))
      else case initializeOledDisplay (b_oledParams b) h of (rc, h1) \<Rightarrow> (rc = RM_E_NONE, h1))"

definition wifi_stage :: "('w, 'c) builder \<Rightarrow> ('s, 'd, 'w, 'c) whole_device \<Rightarrow> bool \<times> ('s, 'd, 'w, 'c) whole_device" where
  "wifi_stage b h =
     (if \<not> hasWifi (blueprint b) then (True, h)
      else case initializeWifi (b_wifiParams b) h of (rc, h1) \<Rightarrow> (rc = RM_E_NONE, h1))"

definition ap_stage :: "'v wifi_lib \<Rightarrow> ('w, 'c) builder \<Rightarrow> ('s, 'd, 'w, 'c) whole_device \<Rightarrow> bool \<times> ('s, 'd, 'w, 'c) whole_device" where
  "ap_stage L b h =
     (if \<not> hasWifiAccessPoint (blueprint b) then (True, h)
      else case initializeWifiAccessPoint L (b_apParams b) h of (rc, h1) \<Rightarrow> (rc = RM_E_NONE, h1))"

definition portal_stage :: "('w, 'c) builder \<Rightarrow> ('s, 'd, 'w, 'c) whole_device \<Rightarrow> bool \<times> ('s, 'd, 'w, 'c) whole_device" where
  "portal_stage b h =
     (if \<not> hasDevicePortal (blueprint b) then (True, h)
      else if \<not> hasWifiAccessPoint (blueprint b) then (False, h)
      else case initializeDevicePortal (b_portalParams b) h of (rc, h1) \<Rightarrow> (rc = RM_E_NONE, h1))"

text \<open>The stages in order; the first that fails ends the build.\<close>

fun run_stages :: "('h \<Rightarrow> bool \<times> 'h) list \<Rightarrow> 'h \<Rightarrow> bool \<times> 'h" where
  "run_stages [] h = (True, h)"
| "run_stages (f # fs) h = (case f h of (ok, h1) \<Rightarrow> if ok then run_stages fs h1 else (False, h1))"

definition build_stages :: "'v wifi_lib \<Rightarrow> ('w, 'c) builder \<Rightarrow>
    (('s, 'd, 'w, 'c) whole_device \<Rightarrow> bool \<times> ('s, 'd, 'w, 'c) whole_device) list" where
  "build_stages L b = [rx_stage b, tx_stage b, radio_stage b, relay_stage b, crypto_stage b, display_stage b, wifi_stage b,
     ap_stage L b, portal_stage b]"

text \<open>The device, or \<open>None\<close> for a null pointer, the builder and the singletons.\<close>

definition build :: "'s env \<Rightarrow> 'v wifi_lib \<Rightarrow> string \<Rightarrow> id4 \<Rightarrow> device_type \<Rightarrow> ('w, 'c) builder \<Rightarrow> ('s, 'd, 'w) board \<Rightarrow>
    (('s, 'd, 'w, 'c) whole_device option \<times> ('w, 'c) builder \<times> ('s, 'd, 'w) board) option" where
  "build env L nm did dt b bo =
     (if \<not> isBuilderStarted b then Some (None, b, bo)
      else do {
        let h = new_device nm did dt bo;
        (rc, d) \<leftarrow> initialize env (wd_dev h);
        let h1 = h\<lparr>wd_dev := d\<rparr>;
        if rc \<noteq> RM_E_NONE then Some (None, b, board_of h1)
        else case run_stages (build_stages L b) (upd_dev (setDeviceType dt) h1) of
          (ok, h2) \<Rightarrow>
            Some (if ok then (Some h2, b\<lparr>isBuilderStarted := False\<rparr>, board_of h2) else (None, b, board_of h2)) })"

section \<open>What a build makes of its plan\<close>

text \<open>What \<open>initialize\<close> does not touch.\<close>

definition same_setup :: "'s device \<Rightarrow> 's device \<Rightarrow> bool" where
  "same_setup d d' \<longleftrightarrow> d_name d' = d_name d \<and> d_id d' = d_id d \<and> d_type d' = d_type d \<and> d_hasRadio d' = d_hasRadio d \<and>
     relayEnabled d' = relayEnabled d \<and> onPacketReceived d' = onPacketReceived d \<and> onPacketSent d' = onPacketSent d \<and>
     packetCounter d' = packetCounter d"

lemma same_setup_trans: "same_setup d d1 \<Longrightarrow> same_setup d1 d2 \<Longrightarrow> same_setup d d2"
  by (simp add: same_setup_def)

lemma InclusionController_setup:
  assumes "InclusionController env d = Some d'"
  shows "same_setup d d' \<and> d_hasStorage d' = d_hasStorage d \<and> d_ctl d' \<noteq> None"
  using assms by (auto simp: InclusionController_def same_setup_def Let_def split: prod.splits)

lemma loadAndApplyNetworkKey_setup:
  assumes "loadAndApplyNetworkKey env d = Some (rc, d')"
  shows "same_setup d d' \<and> d_store d' = d_store d"
  using assms by (auto simp: loadAndApplyNetworkKey_def same_setup_def updateSecurityParams_def Let_def bind_eq_Some_conv
      upd_es_def split: if_splits prod.splits)

text \<open>The middle of \<open>initialize\<close>: the services are registered and the stored private key is
  loaded.\<close>

definition register_services :: "'s env \<Rightarrow> 's device \<Rightarrow> 's device" where
  "register_services env d1 =
     (let d2 = d1\<lparr>d_net := setMicService (setEncryptionService (d_net d1))\<rparr>
      in case km_loadPrivateKey (e_ops env) [] (d_store d2) of
           (rc1, privateKey) \<Rightarrow>
             if rc1 = RM_E_NONE then
               (case derivePublicKey (env_lib env) privateKey of
                  Inr publicKey \<Rightarrow> upd_es (setDeviceKeys privateKey publicKey) d2
                | Inl _ \<Rightarrow> d2)
             else d2)"

lemma register_services_setup:
  "same_setup d (register_services env d) \<and> d_store (register_services env d) = d_store d \<and> d_ctl (register_services env d) = d_ctl d"
  by (auto simp: register_services_def same_setup_def Let_def upd_es_def split: prod.split sum.split)

lemma initialize_cases:
  obtains (storage) rc s2 where "bs_begin (e_ops env) (snd (e_setParams env (d_store d))) = (rc, s2)" "rc \<noteq> RM_E_NONE"
      "initialize env d = Some (rc, d\<lparr>d_store := s2, d_hasStorage := False\<rparr>)"
  | (ready) s2 d1 d2 where "bs_begin (e_ops env) (snd (e_setParams env (d_store d))) = (RM_E_NONE, s2)"
      "InclusionController env (d\<lparr>d_store := s2, d_hasStorage := True\<rparr>) = Some d1"
      "initialize env d = Some (RM_E_NONE, d2)" "same_setup d d2" "d_store d2 = d_store d1"
proof -
  obtain rc s2 where b: "bs_begin (e_ops env) (snd (e_setParams env (d_store d))) = (rc, s2)" by fastforce
  show thesis
  proof (cases "rc = RM_E_NONE")
    case False
    then show thesis using storage b by (simp add: initialize_def)
  next
    case True
    obtain d1 where d1: "InclusionController env (d\<lparr>d_store := s2, d_hasStorage := True\<rparr>) = Some d1"
      by (cases "InclusionController env (d\<lparr>d_store := s2, d_hasStorage := True\<rparr>)") (auto simp: InclusionController_def Let_def split: prod.splits)
    let ?d3 = "register_services env d1"
    have s1: "same_setup d ?d3" "d_store ?d3 = d_store d1" "d_ctl ?d3 = d_ctl d1"
      using InclusionController_setup [OF d1] register_services_setup [of d1 env] by (auto simp: same_setup_def)
    obtain c where c: "d_ctl d1 = Some c" using InclusionController_setup [OF d1] by auto
    have i: "initialize env d = do {
        d4 \<leftarrow> (if getState c = INCLUDED \<or> d_type ?d3 = HUB then map_option snd (loadAndApplyNetworkKey env ?d3) else Some ?d3);
        Some (RM_E_NONE, d4) }"
      using b True d1 c s1(3) by (simp add: initialize_def register_services_def Let_def)
    show thesis
    proof (cases "getState c = INCLUDED \<or> d_type ?d3 = HUB")
      case False
      then show thesis using i ready b True d1 s1 by simp
    next
      case True
      obtain rc4 d4 where l: "loadAndApplyNetworkKey env ?d3 = Some (rc4, d4)"
        using c s1(3) by (cases "loadAndApplyNetworkKey env ?d3") (auto simp: loadAndApplyNetworkKey_def split: if_splits prod.splits)
      then have "initialize env d = Some (RM_E_NONE, d4)" using i True by simp
      moreover have "same_setup d d4" "d_store d4 = d_store d1"
        using loadAndApplyNetworkKey_setup [OF l] s1 by (auto simp: same_setup_def)
      ultimately show thesis using ready b \<open>rc = RM_E_NONE\<close> d1 by simp
    qed
  qed
qed

text \<open>The plans that a builder can carry out.\<close>

definition ap_acceptable :: "'v wifi_lib \<Rightarrow> ap_params \<Rightarrow> bool" where
  "ap_acceptable L p \<longleftrightarrow> ap_ssid p \<noteq> [] \<and> length (ap_ssid p) \<le> 64 \<and> 8 \<le> length (ap_password p) \<and> ap_ipAddress p \<noteq> [] \<and>
     wl_fromString L (c_str (ap_ipAddress p)) \<noteq> None"

definition portal_acceptable :: "'w portal_params \<Rightarrow> bool" where
  "portal_acceptable p \<longleftrightarrow> pp_webPort p \<noteq> 0 \<and> pp_dnsPort p \<noteq> 0 \<and> pp_indexHtml p \<noteq> []"

definition buildable :: "'v wifi_lib \<Rightarrow> ('w, 'c) builder \<Rightarrow> bool" where
  "buildable L b \<longleftrightarrow>
     (hasRxCallback (blueprint b) \<longrightarrow> b_rxCallback b) \<and> (hasTxCallback (blueprint b) \<longrightarrow> b_txCallback b) \<and>
     (hasRadio (blueprint b) \<longrightarrow> checkLoraParameters (b_radioParams b) = RM_E_NONE) \<and>
     (hasDisplay (blueprint b) \<and> b_useCustomDisplay b \<longrightarrow> b_customDisplay b \<noteq> None) \<and>
     (hasWifi (blueprint b) \<longrightarrow> params_ok (b_wifiParams b)) \<and>
     (hasWifiAccessPoint (blueprint b) \<longrightarrow> ap_acceptable L (b_apParams b)) \<and>
     (hasDevicePortal (blueprint b) \<longrightarrow> hasWifiAccessPoint (blueprint b) \<and> portal_acceptable (b_portalParams b))"

text \<open>The whole device is what the plan makes of the initialised device \<open>d\<close> and of the singletons of the
  board: every part is there if and only if it was asked for, set to the parameters of the plan, and
  the parts that were not asked for are as they were. Two things are particular to the cipher: \<open>d\<close> may
  have it already, with the network key that initialisation applied, and a key or an initial vector of
  the wrong length is passed over in silence.\<close>

definition planned_aes :: "('w, 'c) builder \<Rightarrow> aes_crypto \<Rightarrow> aes_crypto" where
  "planned_aes b a =
     (if usesCrypto (blueprint b) \<and> length (sp_key (b_securityParams b)) = 32 \<and> length (sp_iv (b_securityParams b)) = 16
      then a\<lparr>aes_params := (aes_params a)\<lparr>sp_key := sp_key (b_securityParams b), sp_iv := sp_iv (b_securityParams b)\<rparr>\<rparr> else a)"

definition built_as :: "('w, 'c) builder \<Rightarrow> 's device \<Rightarrow> ('s, 'd, 'w) board \<Rightarrow> ('s, 'd, 'w, 'c) whole_device \<Rightarrow> bool" where
  "built_as b d bo h \<longleftrightarrow>
     d_hasRadio (wd_dev h) = hasRadio (blueprint b) \<and>
     d_hasCrypto (wd_dev h) = (usesCrypto (blueprint b) \<or> d_hasCrypto d) \<and>
     relayEnabled (wd_dev h) = (canRelay (blueprint b) \<and> b_relayEnabled b) \<and>
     onPacketReceived (wd_dev h) = hasRxCallback (blueprint b) \<and> onPacketSent (wd_dev h) = hasTxCallback (blueprint b) \<and>
     d_net (wd_dev h) = (d_net d)
       \<lparr>n_radio := if hasRadio (blueprint b) then (n_radio (d_net d))\<lparr>radioParams := b_radioParams b\<rparr> else n_radio (d_net d),
        n_aes := planned_aes b (n_aes (d_net d))\<rparr> \<and>
     getDisplay h = (if \<not> hasDisplay (blueprint b) then NoDisplay
       else if b_useCustomDisplay b then CustomDisplay (the (b_customDisplay b)) else OledSingleton) \<and>
     wd_oled h = (if hasDisplay (blueprint b) \<and> \<not> b_useCustomDisplay b
       then (bo_oled bo)\<lparr>displayParams := b_oledParams b\<rparr> else bo_oled bo) \<and>
     getWifiConnector h = (if hasWifi (blueprint b) then Some (wd_wifi h) else None) \<and>
     wd_wifi h = (if hasWifi (blueprint b) then (bo_wifi bo)\<lparr>wc_params := b_wifiParams b\<rparr> else bo_wifi bo) \<and>
     getWifiAccessPoint h = (if hasWifiAccessPoint (blueprint b) then Some (wd_ap h) else None) \<and>
     wd_ap h = (if hasWifiAccessPoint (blueprint b) then (bo_ap bo)\<lparr>ap_params := b_apParams b\<rparr> else bo_ap bo) \<and>
     getDevicePortal h = (if hasDevicePortal (blueprint b) then Some (wd_portal h) else None) \<and>
     wd_portal h = (if hasDevicePortal (blueprint b) then (bo_portal bo)\<lparr>portalParams := b_portalParams b\<rparr> else bo_portal bo)"

lemmas stage_defs = rx_stage_def tx_stage_def radio_stage_def relay_stage_def crypto_stage_def display_stage_def wifi_stage_def
  ap_stage_def portal_stage_def upd_dev_def initializeRadio_def initializeAesCrypto_def initializeOledDisplay_def
  initializeWifi_def initializeWifiAccessPoint_def initializeDevicePortal_def setCustomDisplay_def oled_setParams_def
  registerCallback_def registerTxCallback_def enableRelay_def

lemma wc_setParams_cases:
  "wc_setParams p c = (if params_ok p then (RM_E_NONE, c\<lparr>wc_params := p\<rparr>) else (RM_E_INVALID_WIFI_PARAMS, c))"
  by (cases p; cases "wc_params c") (auto simp: wc_setParams_def params_ok_def)

lemma ap_setParams_cases:
  "ap_setParams L p a = (if ap_acceptable L p then (RM_E_NONE, a\<lparr>ap_params := p\<rparr>) else (RM_E_INVALID_AP_PARAMS, a))"
  by (cases p) (auto simp: ap_setParams_def ap_acceptable_def)

lemma pt_setParams_cases:
  "pt_setParams p pt = (if portal_acceptable p then (RM_E_NONE, pt\<lparr>portalParams := p\<rparr>) else (RM_E_INVALID_PARAM, pt))"
  by (auto simp: pt_setParams_def portal_acceptable_def)

lemma radio_setParams_cases:
  "radio_setParams p r = (if checkLoraParameters p = RM_E_NONE then (RM_E_NONE, r\<lparr>radioParams := p\<rparr>) else (RM_E_INVALID_RADIO_PARAMS, r))"
  by (simp add: radio_setParams_def)

lemmas set_cases = wc_setParams_cases ap_setParams_cases pt_setParams_cases radio_setParams_cases

text \<open>Each stage: whether it goes on, and what it does to the device if it does.\<close>

lemma stage_ok:
  "fst (rx_stage b h) \<longleftrightarrow> (hasRxCallback (blueprint b) \<longrightarrow> b_rxCallback b)"
  "fst (tx_stage b h) \<longleftrightarrow> (hasTxCallback (blueprint b) \<longrightarrow> b_txCallback b)"
  "fst (radio_stage b h) \<longleftrightarrow> (hasRadio (blueprint b) \<longrightarrow> checkLoraParameters (b_radioParams b) = RM_E_NONE)"
  "fst (relay_stage b h)" "fst (crypto_stage b h)"
  "fst (display_stage b h) \<longleftrightarrow> (hasDisplay (blueprint b) \<and> b_useCustomDisplay b \<longrightarrow> b_customDisplay b \<noteq> None)"
  "fst (wifi_stage b h) \<longleftrightarrow> (hasWifi (blueprint b) \<longrightarrow> params_ok (b_wifiParams b))"
  "fst (ap_stage L b h) \<longleftrightarrow> (hasWifiAccessPoint (blueprint b) \<longrightarrow> ap_acceptable L (b_apParams b))"
  "fst (portal_stage b h) \<longleftrightarrow> (hasDevicePortal (blueprint b) \<longrightarrow> hasWifiAccessPoint (blueprint b) \<and> portal_acceptable (b_portalParams b))"
  by (auto simp: stage_defs set_cases)

lemma fst_run_stages: "fst (run_stages (f # fs) h) \<longleftrightarrow> fst (f h) \<and> fst (run_stages fs (snd (f h)))"
  by (cases "f h") auto

lemma snd_run_stages: "fst (f h) \<Longrightarrow> snd (run_stages (f # fs) h) = snd (run_stages fs (snd (f h)))"
  by (cases "f h") auto

lemma run_stages_ok: "fst (run_stages (build_stages L b) h) \<longleftrightarrow> buildable L b"
  by (simp add: build_stages_def fst_run_stages stage_ok buildable_def del: run_stages.simps(2))

lemma rx_stage_effect:
  "fst (rx_stage b h) \<Longrightarrow> snd (rx_stage b h) =
     h\<lparr>wd_dev := (wd_dev h)\<lparr>onPacketReceived := hasRxCallback (blueprint b) \<or> onPacketReceived (wd_dev h)\<rparr>\<rparr>"
  by (cases "hasRxCallback (blueprint b)") (simp_all add: rx_stage_def registerCallback_def upd_dev_def split: if_splits)

lemma tx_stage_effect:
  "fst (tx_stage b h) \<Longrightarrow> snd (tx_stage b h) =
     h\<lparr>wd_dev := (wd_dev h)\<lparr>onPacketSent := hasTxCallback (blueprint b) \<or> onPacketSent (wd_dev h)\<rparr>\<rparr>"
  by (cases "hasTxCallback (blueprint b)") (simp_all add: tx_stage_def registerTxCallback_def upd_dev_def split: if_splits)

lemma radio_stage_effect:
  assumes "fst (radio_stage b h)"
  shows "snd (radio_stage b h) =
     h\<lparr>wd_dev := if hasRadio (blueprint b) then (wd_dev h)\<lparr>d_hasRadio := True, d_net := (d_net (wd_dev h))
       \<lparr>n_radio := (n_radio (d_net (wd_dev h)))\<lparr>radioParams := b_radioParams b\<rparr>\<rparr>\<rparr> else wd_dev h\<rparr>"
proof (cases "hasRadio (blueprint b)")
  case False
  then show ?thesis by (simp add: radio_stage_def)
next
  case True
  then have "checkLoraParameters (b_radioParams b) = RM_E_NONE" using assms by (simp add: stage_ok)
  then show ?thesis using True by (simp only: radio_stage_def initializeRadio_def radio_setParams_def) simp
qed

lemma relay_stage_effect:
  "snd (relay_stage b h) =
     h\<lparr>wd_dev := (wd_dev h)\<lparr>relayEnabled := if canRelay (blueprint b) then b_relayEnabled b else relayEnabled (wd_dev h)\<rparr>\<rparr>"
  by (cases "canRelay (blueprint b)") (simp_all add: relay_stage_def enableRelay_def upd_dev_def split: if_splits)

lemma crypto_stage_effect:
  "snd (crypto_stage b h) =
     h\<lparr>wd_dev := if usesCrypto (blueprint b) then (wd_dev h)\<lparr>d_hasCrypto := True, d_net := (d_net (wd_dev h))
       \<lparr>n_aes := snd (setParams (b_securityParams b) (n_aes (d_net (wd_dev h))))\<rparr>\<rparr> else wd_dev h\<rparr>"
  by (simp add: crypto_stage_def initializeAesCrypto_def)

lemma display_stage_effect:
  "fst (display_stage b h) \<Longrightarrow> snd (display_stage b h) =
     h\<lparr>customDisplay := if hasDisplay (blueprint b) \<and> b_useCustomDisplay b then b_customDisplay b else customDisplay h,
       oledDisplay := hasDisplay (blueprint b) \<and> \<not> b_useCustomDisplay b \<or> oledDisplay h,
       wd_oled := if hasDisplay (blueprint b) \<and> \<not> b_useCustomDisplay b
         then (wd_oled h)\<lparr>displayParams := b_oledParams b\<rparr> else wd_oled h\<rparr>"
  by (cases "hasDisplay (blueprint b)"; cases "b_useCustomDisplay b") (auto simp: display_stage_def initializeOledDisplay_def setCustomDisplay_def oled_setParams_def)

lemma wifi_stage_effect:
  "fst (wifi_stage b h) \<Longrightarrow> snd (wifi_stage b h) =
     h\<lparr>wifiConnector := hasWifi (blueprint b) \<or> wifiConnector h,
       wd_wifi := if hasWifi (blueprint b) then (wd_wifi h)\<lparr>wc_params := b_wifiParams b\<rparr> else wd_wifi h\<rparr>"
  by (cases "hasWifi (blueprint b)") (simp_all add: wifi_stage_def initializeWifi_def set_cases split: if_splits)

lemma ap_stage_effect:
  "fst (ap_stage L b h) \<Longrightarrow> snd (ap_stage L b h) =
     h\<lparr>wifiAccessPoint := hasWifiAccessPoint (blueprint b) \<or> wifiAccessPoint h,
       wd_ap := if hasWifiAccessPoint (blueprint b) then (wd_ap h)\<lparr>ap_params := b_apParams b\<rparr> else wd_ap h\<rparr>"
  by (cases "hasWifiAccessPoint (blueprint b)") (simp_all add: ap_stage_def initializeWifiAccessPoint_def set_cases split: if_splits)

lemma portal_stage_effect:
  "fst (portal_stage b h) \<Longrightarrow> snd (portal_stage b h) =
     h\<lparr>devicePortal := hasDevicePortal (blueprint b) \<or> devicePortal h,
       wd_portal := if hasDevicePortal (blueprint b) then (wd_portal h)\<lparr>portalParams := b_portalParams b\<rparr> else wd_portal h\<rparr>"
  by (cases "hasDevicePortal (blueprint b)") (simp_all add: portal_stage_def initializeDevicePortal_def set_cases split: if_splits)

lemmas stage_effect = rx_stage_effect tx_stage_effect radio_stage_effect relay_stage_effect crypto_stage_effect display_stage_effect wifi_stage_effect ap_stage_effect portal_stage_effect

text \<open>The stages on the device proper, as functions.\<close>

definition plan_calls :: "('w, 'c) builder \<Rightarrow> 's device \<Rightarrow> 's device" where
  "plan_calls b d = d\<lparr>onPacketReceived := hasRxCallback (blueprint b) \<or> onPacketReceived d,
     onPacketSent := hasTxCallback (blueprint b) \<or> onPacketSent d\<rparr>"

definition plan_radio :: "('w, 'c) builder \<Rightarrow> 's device \<Rightarrow> 's device" where
  "plan_radio b d = (if hasRadio (blueprint b) then d\<lparr>d_hasRadio := True,
     d_net := (d_net d)\<lparr>n_radio := (n_radio (d_net d))\<lparr>radioParams := b_radioParams b\<rparr>\<rparr>\<rparr> else d)"

definition plan_relay :: "('w, 'c) builder \<Rightarrow> 's device \<Rightarrow> 's device" where
  "plan_relay b d = d\<lparr>relayEnabled := if canRelay (blueprint b) then b_relayEnabled b else relayEnabled d\<rparr>"

definition plan_crypto :: "('w, 'c) builder \<Rightarrow> 's device \<Rightarrow> 's device" where
  "plan_crypto b d = (if usesCrypto (blueprint b) then d\<lparr>d_hasCrypto := True,
     d_net := (d_net d)\<lparr>n_aes := snd (setParams (b_securityParams b) (n_aes (d_net d)))\<rparr>\<rparr> else d)"

definition plan_device :: "('w, 'c) builder \<Rightarrow> 's device \<Rightarrow> 's device" where
  "plan_device b d = plan_crypto b (plan_relay b (plan_radio b (plan_calls b d)))"

definition plan_display :: "('w, 'c) builder \<Rightarrow> ('s, 'd, 'w, 'c) whole_device \<Rightarrow> ('s, 'd, 'w, 'c) whole_device" where
  "plan_display b h = h\<lparr>customDisplay := if hasDisplay (blueprint b) \<and> b_useCustomDisplay b then b_customDisplay b else customDisplay h,
     oledDisplay := hasDisplay (blueprint b) \<and> \<not> b_useCustomDisplay b \<or> oledDisplay h,
     wd_oled := if hasDisplay (blueprint b) \<and> \<not> b_useCustomDisplay b
       then (wd_oled h)\<lparr>displayParams := b_oledParams b\<rparr> else wd_oled h\<rparr>"

definition plan_wifi :: "('w, 'c) builder \<Rightarrow> ('s, 'd, 'w, 'c) whole_device \<Rightarrow> ('s, 'd, 'w, 'c) whole_device" where
  "plan_wifi b h = h\<lparr>wifiConnector := hasWifi (blueprint b) \<or> wifiConnector h,
     wd_wifi := if hasWifi (blueprint b) then (wd_wifi h)\<lparr>wc_params := b_wifiParams b\<rparr> else wd_wifi h,
     wifiAccessPoint := hasWifiAccessPoint (blueprint b) \<or> wifiAccessPoint h,
     wd_ap := if hasWifiAccessPoint (blueprint b) then (wd_ap h)\<lparr>ap_params := b_apParams b\<rparr> else wd_ap h\<rparr>"

definition plan_portal :: "('w, 'c) builder \<Rightarrow> ('s, 'd, 'w, 'c) whole_device \<Rightarrow> ('s, 'd, 'w, 'c) whole_device" where
  "plan_portal b h = h\<lparr>devicePortal := hasDevicePortal (blueprint b) \<or> devicePortal h,
     wd_portal := if hasDevicePortal (blueprint b) then (wd_portal h)\<lparr>portalParams := b_portalParams b\<rparr> else wd_portal h\<rparr>"

lemma plan_device_fields [simp]:
  "onPacketReceived (plan_device b d) = (hasRxCallback (blueprint b) \<or> onPacketReceived d)"
  "onPacketSent (plan_device b d) = (hasTxCallback (blueprint b) \<or> onPacketSent d)"
  "d_hasRadio (plan_device b d) = (hasRadio (blueprint b) \<or> d_hasRadio d)"
  "relayEnabled (plan_device b d) = (if canRelay (blueprint b) then b_relayEnabled b else relayEnabled d)"
  "hasRadio (blueprint b) \<Longrightarrow> radioParams (n_radio (d_net (plan_device b d))) = b_radioParams b"
  "d_name (plan_device b d) = d_name d" "d_id (plan_device b d) = d_id d" "d_type (plan_device b d) = d_type d"
  "d_ctl (plan_device b d) = d_ctl d" "d_store (plan_device b d) = d_store d" "n_es (d_net (plan_device b d)) = n_es (d_net d)"
  by (auto simp: plan_device_def plan_calls_def plan_radio_def plan_relay_def plan_crypto_def)

lemma planned_aes_setParams: "planned_aes b a = (if usesCrypto (blueprint b) then snd (setParams (b_securityParams b) a) else a)"
  by (simp add: planned_aes_def setParams_cases)

lemma plan_device_net:
  "d_hasCrypto (plan_device b d) = (usesCrypto (blueprint b) \<or> d_hasCrypto d)"
  "d_net (plan_device b d) = (d_net d)
     \<lparr>n_radio := if hasRadio (blueprint b) then (n_radio (d_net d))\<lparr>radioParams := b_radioParams b\<rparr> else n_radio (d_net d),
      n_aes := planned_aes b (n_aes (d_net d))\<rparr>"
  by (simp_all add: plan_device_def plan_calls_def plan_radio_def plan_relay_def plan_crypto_def planned_aes_setParams)

lemma run_stages_plan:
  fixes h :: "('s, 'd, 'w, 'c) whole_device"
  assumes "buildable L b"
  shows "snd (run_stages (build_stages L b) h) = plan_portal b (plan_wifi b (plan_display b (h\<lparr>wd_dev := plan_device b (wd_dev h)\<rparr>)))"
proof -
  have ok: "fst (rx_stage b h1)" "fst (tx_stage b h1)" "fst (radio_stage b h1)" "fst (display_stage b h1)" "fst (wifi_stage b h1)"
      "fst (ap_stage L b h1)" "fst (portal_stage b h1)" "fst (relay_stage b h1)" "fst (crypto_stage b h1)" for h1 :: "('s, 'd, 'w, 'c) whole_device"
    using assms by (simp_all add: stage_ok buildable_def)
  have "snd (tx_stage b (snd (rx_stage b h))) = h\<lparr>wd_dev := plan_calls b (wd_dev h)\<rparr>"
    by (simp add: rx_stage_effect [OF ok(1)] tx_stage_effect [OF ok(2)] plan_calls_def)
  moreover have "snd (radio_stage b h1) = h1\<lparr>wd_dev := plan_radio b (wd_dev h1)\<rparr>" for h1 :: "('s, 'd, 'w, 'c) whole_device"
    by (simp only: radio_stage_effect [OF ok(3)] plan_radio_def)
  moreover have "snd (relay_stage b h1) = h1\<lparr>wd_dev := plan_relay b (wd_dev h1)\<rparr>" for h1 :: "('s, 'd, 'w, 'c) whole_device"
    by (simp only: relay_stage_effect plan_relay_def)
  moreover have "snd (crypto_stage b h1) = h1\<lparr>wd_dev := plan_crypto b (wd_dev h1)\<rparr>" for h1 :: "('s, 'd, 'w, 'c) whole_device"
    by (simp only: crypto_stage_effect plan_crypto_def)
  moreover have "snd (display_stage b h1) = plan_display b h1" for h1 :: "('s, 'd, 'w, 'c) whole_device"
    by (simp only: display_stage_effect [OF ok(4)] plan_display_def)
  moreover have "snd (ap_stage L b (snd (wifi_stage b h1))) = plan_wifi b h1" for h1 :: "('s, 'd, 'w, 'c) whole_device"
    by (simp add: wifi_stage_effect [OF ok(5)] ap_stage_effect [OF ok(6)] plan_wifi_def)
  moreover have "snd (portal_stage b h1) = plan_portal b h1" for h1 :: "('s, 'd, 'w, 'c) whole_device"
    by (simp only: portal_stage_effect [OF ok(7)] plan_portal_def)
  ultimately show ?thesis
    by (simp add: build_stages_def snd_run_stages ok plan_device_def del: run_stages.simps(2))
qed

text \<open>C16: A build makes exactly the device that was asked for, or none. Once the device is initialised,
  \<open>build\<close> returns a device if and only if every requested component has acceptable parameters and a
  requested portal comes with an access point (whatever was requested, whatever the builder was used
  for before). The device then has the name, identifier and type given, the identity state and the keys
  that initialisation loaded, and of radio, cipher, relay, callbacks, display, WiFi, access point and
  portal those that were requested and no others, each with the parameters given, while the components
  that were not requested are untouched, tracker and routes with them; the cipher may be there without
  being requested, set by initialisation to the stored network key, and keeps what it had if the
  requested key or initial vector has the wrong length. The builder is used up then; otherwise it is
  unchanged and can be corrected.\<close>

theorem build_makes_what_was_asked:
  fixes b :: "('w, 'c) builder" and bo :: "('s, 'd, 'w) board"
  assumes b: "isBuilderStarted b" and i: "initialize env (RadioMeshDevice nm did dt (bo_net bo) (bo_store bo) (bo_rng bo)) = Some (RM_E_NONE, d)"
  shows "case build env L nm did dt b bo of
      None \<Rightarrow> False
    | Some (None, b', bo') \<Rightarrow> \<not> buildable L b \<and> b' = b
    | Some (Some h, b', bo') \<Rightarrow> buildable L b \<and> built_as b d bo h \<and> b' = b\<lparr>isBuilderStarted := False\<rparr> \<and> bo' = board_of h \<and>
        d_name (wd_dev h) = nm \<and> d_id (wd_dev h) = did \<and> d_type (wd_dev h) = dt \<and> d_ctl (wd_dev h) = d_ctl d \<and>
        d_store (wd_dev h) = d_store d \<and> n_es (d_net (wd_dev h)) = n_es (d_net d)"
proof -
  let ?h = "upd_dev (setDeviceType dt) ((new_device nm did dt bo)\<lparr>wd_dev := d\<rparr>) :: ('s, 'd, 'w, 'c) whole_device"
  obtain ok h2 where r: "run_stages (build_stages L b) ?h = (ok, h2)" by fastforce
  have ok: "ok \<longleftrightarrow> buildable L b" using run_stages_ok [of L b ?h] r by simp
  have bld: "build env L nm did dt b bo = Some (if ok then (Some h2, b\<lparr>isBuilderStarted := False\<rparr>, board_of h2) else (None, b, board_of h2))"
    using b i r by (simp add: build_def new_device_def)
  have same: "same_setup (RadioMeshDevice nm did dt (bo_net bo) (bo_store bo) (bo_rng bo)) d"
    using i by (cases env "RadioMeshDevice nm did dt (bo_net bo) (bo_store bo) (bo_rng bo)" rule: initialize_cases) auto
  show ?thesis
  proof (cases ok)
    case True
    with ok run_stages_plan [of L b ?h] r
    have h2: "h2 = plan_portal b (plan_wifi b (plan_display b (?h\<lparr>wd_dev := plan_device b (wd_dev ?h)\<rparr>)))" by simp
    have "wd_dev h2 = plan_device b (setDeviceType dt d)"
      by (simp add: h2 plan_portal_def plan_wifi_def plan_display_def upd_dev_def new_device_def)
    moreover have "built_as b d bo h2"
      using same ok True by (auto simp: built_as_def plan_device_net h2 plan_portal_def plan_wifi_def plan_display_def upd_dev_def new_device_def
          same_setup_def RadioMeshDevice_def setDeviceType_def getDisplay_def getWifiConnector_def getWifiAccessPoint_def
          getDevicePortal_def buildable_def split: option.splits)
    ultimately show ?thesis using bld ok True same by (simp add: setDeviceType_def same_setup_def RadioMeshDevice_def)
  next
    case False
    then show ?thesis using bld ok by simp
  qed
qed

section \<open>One device per power cycle\<close>

text \<open>The environment of a board with the EEPROM storage.\<close>

definition eeprom_env :: "'e eeprom_lib \<Rightarrow> 'e storage env \<Rightarrow> bool" where
  "eeprom_env L env \<longleftrightarrow> e_ops env = eeprom_ops L \<and> e_setParams env = st_setParams EEPROM_STORAGE_MAX_SIZE"

lemma st_initialized_keeps:
  "st_initialized (snd (st_write L k x s)) = st_initialized s" "st_initialized (snd (st_commit L s)) = st_initialized s"
  "st_initialized (snd (st_writeAndCommit L k x s)) = st_initialized s"
proof -
  show c: "st_initialized (snd (st_commit L s)) = st_initialized s" for s :: "'a storage"
    by (auto simp: st_commit_def split: prod.splits)
  show w: "st_initialized (snd (st_write L k x s)) = st_initialized s"
    by (auto simp: st_write_def writeStorageHeader_def Let_def split: option.splits prod.splits)
  show "st_initialized (snd (st_writeAndCommit L k x s)) = st_initialized s"
    using w c [of "snd (st_write L k x s)"] by (auto simp: st_writeAndCommit_def split: prod.splits)
qed

lemma InclusionController_store:
  assumes keep: "\<And>k x s. P s \<Longrightarrow> P (snd (bs_writeAndCommit (e_ops env) k x s))"
    and "InclusionController env d = Some d'" and "P (d_store d)"
  shows "P (d_store d')"
proof -
  have 1: "P s \<Longrightarrow> P (snd (km_persistPrivateKey (e_ops env) k s))" for k s
    using keep by (simp add: km_persistPrivateKey_def persistPrivateKey_def)
  have 2: "P s \<Longrightarrow> P (snd (km_setNetworkKey (e_ops env) k s))" for k s
    using keep by (simp add: km_setNetworkKey_def km_persistNetworkKey_def persistNetworkKey_def case_prod_beta)
  have 3: "P s \<Longrightarrow> P (snd (initializeKeys env s))" for s
    using 1 by (simp add: initializeKeys_def case_prod_beta split: sum.split)
  have 4: "P s \<Longrightarrow> P (snd (snd (initializeForHub r (e_ops env) g s)))" for r g s
    using 2 by (simp add: initializeForHub_def case_prod_beta)
  show ?thesis
    using assms(2) 3 [OF assms(3)] 4 [OF 3 [OF assms(3)], of "e_rnd env" "d_rng d"] by (auto simp: InclusionController_def Let_def case_prod_beta split: if_splits)
qed

lemma st_begin_initializes: "st_begin L s = (RM_E_NONE, s') \<Longrightarrow> st_initialized s'"
proof -
  assume b: "st_begin L s = (RM_E_NONE, s')"
  let ?s1 = "s\<lparr>st_mem := snd (ee_begin L (st_size s) (st_mem s)), st_initialized := True\<rparr>"
  have "s' = ?s1 \<or> s' = snd (st_commit L (initializeStorageHeader L ?s1))"
    using b by (auto simp: st_begin_def Let_def case_prod_beta split: if_splits)
  then show ?thesis using st_initialized_keeps(2) [of L "initializeStorageHeader L ?s1"]
    by (auto simp: initializeStorageHeader_def)
qed

lemma stages_store: "d_store (wd_dev (snd (run_stages (build_stages L b) h))) = d_store (wd_dev h)"
proof -
  have s: "d_store (wd_dev (snd (f h))) = d_store (wd_dev h)" if "f \<in> set (build_stages L b)" for f h
    using that by (auto simp: build_stages_def stage_defs split: prod.splits)
  have "\<forall>f \<in> set fs. \<forall>h. d_store (wd_dev (snd (f h))) = d_store (wd_dev h) \<Longrightarrow>
      d_store (wd_dev (snd (run_stages fs h))) = d_store (wd_dev h)" for fs h
    by (induction fs arbitrary: h) (simp_all add: case_prod_beta)
  then show ?thesis using s by blast
qed

text \<open>An EEPROM that has not been used: it can be opened, holds no valid header, and can be
  written.\<close>

definition blank :: "'e eeprom_lib \<Rightarrow> 'e storage \<Rightarrow> bool" where
  "blank L s \<longleftrightarrow> \<not> st_initialized s \<and>
     (\<exists>m. ee_begin L EEPROM_STORAGE_MAX_SIZE (st_mem s) = (True, m) \<and>
        (let s1 = s\<lparr>st_size := EEPROM_STORAGE_MAX_SIZE, st_mem := m, st_initialized := True\<rparr>
         in \<not> isStorageValid L s1 \<and> fst (ee_commit L (st_mem (initializeStorageHeader L s1)))))"

lemma initialize_storage:
  assumes env: "eeprom_env L env" and i: "initialize env d = Some (rc, d')"
  shows "st_initialized (d_store d) \<Longrightarrow> rc \<noteq> RM_E_NONE \<and> st_initialized (d_store d')"
    and "rc = RM_E_NONE \<Longrightarrow> st_initialized (d_store d')"
    and "blank L (d_store d) \<Longrightarrow> rc \<noteq> RM_E_NONE \<and> st_initialized (d_store d')"
proof -
  let ?s = "d_store d\<lparr>st_size := EEPROM_STORAGE_MAX_SIZE\<rparr>"
  have b: "bs_begin (e_ops env) (snd (e_setParams env (d_store d))) = st_begin L ?s"
    using env by (simp add: eeprom_env_def eeprom_ops_def st_setParams_def EEPROM_STORAGE_MAX_SIZE_def)
  have up: "st_initialized (d_store d')" if "rc = RM_E_NONE"
  proof (cases env d rule: initialize_cases)
    case (storage rc1 s2)
    then show ?thesis using i that by simp
  next
    case (ready s2 d1 d2)
    then have "st_initialized s2" using st_begin_initializes b by metis
    then have "st_initialized (d_store d1)"
      using InclusionController_store [where P = st_initialized, OF _ ready(2)] env
      by (simp add: eeprom_env_def eeprom_ops_def st_initialized_keeps)
    then show ?thesis using ready i by simp
  qed
  have down: "rc \<noteq> RM_E_NONE \<and> st_initialized (d_store d')" if "st_begin L ?s = (RM_E_STORAGE_SETUP, s2)" "st_initialized s2" for s2
  proof (cases env d rule: initialize_cases)
    case (storage rc1 s2)
    then show ?thesis using i that b by simp
  next
    case (ready s2 d1 d2)
    then show ?thesis using that b by simp
  qed
  show "rc = RM_E_NONE \<Longrightarrow> st_initialized (d_store d')" by (rule up)
  show "rc \<noteq> RM_E_NONE \<and> st_initialized (d_store d')" if "st_initialized (d_store d)"
    by (rule down [of ?s]) (use that in \<open>simp_all add: st_begin_def\<close>)
  show "rc \<noteq> RM_E_NONE \<and> st_initialized (d_store d')" if bl: "blank L (d_store d)"
  proof -
    obtain m where m: "ee_begin L EEPROM_STORAGE_MAX_SIZE (st_mem (d_store d)) = (True, m)"
        "\<not> isStorageValid L (?s\<lparr>st_mem := m, st_initialized := True\<rparr>)"
        "fst (ee_commit L (st_mem (initializeStorageHeader L (?s\<lparr>st_mem := m, st_initialized := True\<rparr>))))" "\<not> st_initialized (d_store d)"
      using bl by (auto simp: blank_def Let_def)
    let ?s1 = "initializeStorageHeader L (?s\<lparr>st_mem := m, st_initialized := True\<rparr>)"
    have "st_initialized ?s1" by (simp add: initializeStorageHeader_def)
    then have "fst (st_commit L ?s1) = RM_E_NONE" using m(3) by (auto simp: st_commit_def split: prod.splits)
    then have "st_begin L ?s = (RM_E_STORAGE_SETUP, snd (st_commit L ?s1))"
      using m by (simp add: st_begin_def EEPROM_STORAGE_MAX_SIZE_def case_prod_beta Let_def)
    moreover have "st_initialized (snd (st_commit L ?s1))" by (simp add: st_initialized_keeps initializeStorageHeader_def)
    ultimately show ?thesis by (rule down)
  qed
qed

lemma build_storage:
  fixes b :: "('w, 'c) builder" and bo :: "('e storage, 'd, 'w) board"
  assumes env: "eeprom_env L env"
  obtains r b' bo' where "build env W nm did dt b bo = Some (r, b', bo')"
    "st_initialized (bo_store bo) \<Longrightarrow> r = None \<and> st_initialized (bo_store bo')" "r \<noteq> None \<Longrightarrow> st_initialized (bo_store bo')"
    "blank L (bo_store bo) \<Longrightarrow> r = None \<and> (st_initialized (bo_store bo') \<or> blank L (bo_store bo'))"
proof (cases "isBuilderStarted b")
  case False
  then show thesis using that by (simp add: build_def)
next
  case True
  let ?d = "RadioMeshDevice nm did dt (bo_net bo) (bo_store bo) (bo_rng bo)"
  have st: "d_store ?d = bo_store bo" by (simp add: RadioMeshDevice_def)
  obtain rc d where i: "initialize env ?d = Some (rc, d)" by (cases env ?d rule: initialize_cases) auto
  note laws = initialize_storage [OF env i, unfolded st]
  let ?h = "(new_device nm did dt bo)\<lparr>wd_dev := d\<rparr> :: ('e storage, 'd, 'w, 'c) whole_device"
  show thesis
  proof (cases "rc = RM_E_NONE")
    case False
    then have "build env W nm did dt b bo = Some (None, b, board_of ?h)" using True i by (simp add: build_def new_device_def)
    moreover have "bo_store (board_of ?h) = d_store d" by (simp add: board_of_def)
    ultimately show thesis using that laws by auto
  next
    case rc: True
    obtain ok h2 where r: "run_stages (build_stages W b) (upd_dev (setDeviceType dt) ?h) = (ok, h2)" by fastforce
    have "bo_store (board_of h2) = d_store d"
      using stages_store [of W b "upd_dev (setDeviceType dt) ?h"] r by (simp add: board_of_def upd_dev_def setDeviceType_def)
    moreover have "build env W nm did dt b bo = Some (if ok then (Some h2, b\<lparr>isBuilderStarted := False\<rparr>, board_of h2) else (None, b, board_of h2))"
      using True i r rc by (simp add: build_def new_device_def)
    ultimately show thesis using that laws rc by (auto split: if_splits)
  qed
qed

text \<open>The life of a builder between two resets: its methods in any order (\<open>Plan\<close> is any change of its
  members, so any of \<open>start\<close> and the \<open>with\<close> methods), builds, and whatever the program does to the
  components meanwhile. The result is the list of what the builds returned.\<close>

datatype ('e, 'd, 'w, 'c) builder_event =
    Plan "('w, 'c) builder \<Rightarrow> ('w, 'c) builder"
  | Build "'e storage env" string id4 device_type
  | Meanwhile "('e storage, 'd, 'w) board \<Rightarrow> ('e storage, 'd, 'w) board"

fun builder_life :: "'v wifi_lib \<Rightarrow> ('e, 'd, 'w, 'c) builder_event list \<Rightarrow> ('w, 'c) builder \<Rightarrow> ('e storage, 'd, 'w) board \<Rightarrow>
    ('e storage, 'd, 'w, 'c) whole_device option list" where
  "builder_life W [] b bo = []"
| "builder_life W (Plan f # es) b bo = builder_life W es (f b) bo"
| "builder_life W (Meanwhile g # es) b bo = builder_life W es b (g bo)"
| "builder_life W (Build env nm did dt # es) b bo =
     (case build env W nm did dt b bo of
        None \<Rightarrow> []
      | Some (r, b', bo') \<Rightarrow> r # builder_life W es b' bo')"

text \<open>Every build runs on the EEPROM, and the program does not close the storage (nor lets go of a
  blank one in another way).\<close>

fun event_ok :: "'e eeprom_lib \<Rightarrow> ('e, 'd, 'w, 'c) builder_event \<Rightarrow> bool" where
  "event_ok L (Plan f) \<longleftrightarrow> True"
| "event_ok L (Build env nm did dt) \<longleftrightarrow> eeprom_env L env"
| "event_ok L (Meanwhile g) \<longleftrightarrow> (\<forall>bo. st_initialized (bo_store bo) \<longrightarrow> st_initialized (bo_store (g bo))) \<and>
     (\<forall>bo. blank L (bo_store bo) \<longrightarrow> st_initialized (bo_store (g bo)) \<or> blank L (bo_store (g bo)))"

lemma spent_builds_nothing:
  fixes b :: "('w, 'c) builder" and bo :: "('e storage, 'd, 'w) board"
  assumes "list_all (event_ok L) es" and "st_initialized (bo_store bo) \<or> blank L (bo_store bo)"
  shows "\<forall>r \<in> set (builder_life W es b bo). r = None"
  using assms
proof (induction es arbitrary: b bo)
  case (Cons e es)
  show ?case
  proof (cases e)
    case (Build env nm did dt)
    then have "eeprom_env L env" using Cons.prems by simp
    then obtain r b' bo' where r: "build env W nm did dt b bo = Some (r, b', bo')"
        "st_initialized (bo_store bo) \<Longrightarrow> r = None \<and> st_initialized (bo_store bo')"
        "blank L (bo_store bo) \<Longrightarrow> r = None \<and> (st_initialized (bo_store bo') \<or> blank L (bo_store bo'))"
      by (rule build_storage [of L env W nm did dt b bo]) blast
    then have "st_initialized (bo_store bo') \<or> blank L (bo_store bo')" using Cons.prems(2) by blast
    then show ?thesis using Cons Build r by auto
  qed (use Cons in auto)
qed simp

lemma life_builds_once:
  fixes es :: "('e, 'd, 'w, 'c) builder_event list"
  assumes "list_all (event_ok L) es"
  shows "length (filter (\<lambda>r. r \<noteq> None) (builder_life W es b bo)) \<le> 1"
  using assms
proof (induction es arbitrary: b bo)
  case (Cons e es)
  show ?case
  proof (cases e)
    case (Build env nm did dt)
    then have "eeprom_env L env" using Cons.prems by simp
    then obtain r b' bo' where r: "build env W nm did dt b bo = Some (r, b', bo')" "r \<noteq> None \<Longrightarrow> st_initialized (bo_store bo')"
      by (rule build_storage [of L env W nm did dt b bo]) blast
    show ?thesis
    proof (cases r)
      case None
      then show ?thesis using Cons Build r by simp
    next
      case (Some h)
      then have "\<forall>r \<in> set (builder_life W es b' bo'). r = None"
        using spent_builds_nothing [of L es bo' W b'] Cons.prems r by simp
      then have "filter (\<lambda>r. r \<noteq> None) (builder_life W es b' bo') = []" by (simp add: filter_empty_conv)
      then show ?thesis using Build r Some by simp
    qed
  qed (use Cons in auto)
qed simp

text \<open>C17: A board builds at most one device per power cycle. In every life of a builder, however often
  it is started and with whatever plans, at most one \<open>build\<close> returns a device, because the storage
  that the first initialisation opened is never closed and \<open>begin\<close> refuses to open it again. So a
  build that failed for a wrong parameter cannot be repeated with the right one. On a blank EEPROM no
  build returns a device at all: the first one formats the storage and takes the success of that for a
  failure, and the later ones find it open.\<close>

theorem one_device_per_power_cycle:
  fixes es :: "('e, 'd, 'w, 'c) builder_event list"
  assumes "list_all (event_ok L) es"
  shows "length (filter (\<lambda>r. r \<noteq> None) (builder_life W es b bo)) \<le> 1 \<and>
    (blank L (bo_store bo) \<longrightarrow> (\<forall>r \<in> set (builder_life W es b bo). r = None))"
  using life_builds_once [OF assms] spent_builds_nothing [OF assms] by blast

section \<open>Examples\<close>

text \<open>An EEPROM with an empty storage that is not open yet, and a blank one.\<close>

definition closed_storage :: "bytes storage" where
  "closed_storage = (ram_storage 1024)\<lparr>st_initialized := False\<rparr>"

lemma ram_valid: "st_begin ram_eeprom closed_storage = (RM_E_NONE, ram_storage 1024)"
proof -
  have r: "repr ram_eeprom ram_opened (ram_storage 1024) []" by (rule ram_storage_repr) (simp_all add: SH_SIZE_def)
  then have "readStorageHeader ram_eeprom (ram_storage 1024) = Some (good_header 0)" using readStorageHeader_repr by fastforce
  then have "isStorageValid ram_eeprom (ram_storage 1024)" by (simp add: isStorageValid_def good_header_def)
  moreover have "length (st_mem (ram_storage 1024)) = 1024" using r by (simp add: repr_def ram_opened_def ram_storage_def)
  then have "ee_begin ram_eeprom 1024 (st_mem (ram_storage 1024)) = (True, st_mem (ram_storage 1024))" by (simp add: ram_eeprom_def)
  moreover have "st_size (ram_storage 1024) = 1024" "(ram_storage 1024)\<lparr>st_initialized := True\<rparr> = ram_storage 1024"
      "st_mem closed_storage = st_mem (ram_storage 1024)"
    by (simp_all add: ram_storage_def closed_storage_def)
  ultimately show ?thesis by (simp add: st_begin_def closed_storage_def)
qed

lemma toy_initialize: "\<exists>d. initialize toy_env (RadioMeshDevice nm did dt n closed_storage g) = Some (RM_E_NONE, d)"
proof -
  let ?d = "RadioMeshDevice nm did dt n closed_storage g"
  have "bs_begin (e_ops toy_env) (snd (e_setParams toy_env (d_store ?d))) = (RM_E_NONE, ram_storage 1024)"
    using ram_valid by (simp add: toy_env_def eeprom_ops_def st_setParams_def EEPROM_STORAGE_MAX_SIZE_def RadioMeshDevice_def
        closed_storage_def ram_storage_def)
  then show ?thesis by (cases toy_env ?d rule: initialize_cases) auto
qed

definition toy_board :: "bytes storage \<Rightarrow> (bytes storage, unit, toy_web) board" where
  "toy_board s = \<lparr>bo_net = toy_net, bo_store = s, bo_rng = (None, 0), bo_oled = OledDisplay, bo_wifi = WifiConnector,
     bo_ap = WifiAccessPoint, bo_portal = AsyncDevicePortal toy_portal_params\<rparr>"

definition toy_builder :: "(toy_web, unit) builder" where
  "toy_builder = withDevicePortal toy_portal_params (withWifiAccessPoint toy_ap_params (withLoraRadio LoraRadioParams
     (withRxPacketCallback True (start (DeviceBuilder no_blueprint toy_portal_params)))))"

lemma toy_eeprom_env: "eeprom_env ram_eeprom toy_env"
  by (simp add: eeprom_env_def toy_env_def)

lemma toy_builder_buildable: "buildable toy_wifi toy_builder"
  by (simp add: buildable_def toy_builder_def withDevicePortal_def withWifiAccessPoint_def withLoraRadio_def
      withRxPacketCallback_def start_def DeviceBuilder_def no_blueprint_def ap_acceptable_def toy_ap_params_def toy_wifi_def
      c_str_def portal_acceptable_def toy_portal_params_def checkLoraParameters_def LoraRadioParams_def)

definition toy_security :: security_params where
  "toy_security = \<lparr>sp_key = replicate 32 9, sp_iv = replicate 16 1, sp_method = SEC_AES\<rparr>"

theorem build_makes_what_was_asked_witness:
  "\<exists>h b' bo'. build toy_env toy_wifi ''hub'' (Id4 1 2 3 4) HUB (withSecureMessaging toy_security toy_builder)
       (toy_board closed_storage) = Some (Some h, b', bo') \<and>
     d_hasRadio (wd_dev h) \<and> getDevicePortal h \<noteq> None \<and> getDisplay h = NoDisplay \<and> \<not> isBuilderStarted b' \<and>
     d_hasCrypto (wd_dev h) \<and> sp_key (aes_params (n_aes (d_net (wd_dev h)))) = replicate 32 9 \<and>
     sp_iv (aes_params (n_aes (d_net (wd_dev h)))) = replicate 16 1"
proof -
  let ?bo = "toy_board closed_storage" and ?did = "Id4 1 2 3 4" and ?b = "withSecureMessaging toy_security toy_builder"
  let ?d = "RadioMeshDevice ''hub'' ?did HUB (bo_net ?bo) (bo_store ?bo) (bo_rng ?bo)"
  have "bo_store ?bo = closed_storage" by (simp add: toy_board_def)
  then obtain d where d: "initialize toy_env ?d = Some (RM_E_NONE, d)" using toy_initialize by metis
  have bp: "isBuilderStarted ?b" "hasRadio (blueprint ?b)" "hasDevicePortal (blueprint ?b)"
      "\<not> hasDisplay (blueprint ?b)" "usesCrypto (blueprint ?b)" "b_securityParams ?b = toy_security"
    by (simp_all add: toy_builder_def withDevicePortal_def withWifiAccessPoint_def withLoraRadio_def
      withRxPacketCallback_def start_def DeviceBuilder_def no_blueprint_def withSecureMessaging_def)
  have ok: "buildable toy_wifi ?b" using toy_builder_buildable by (simp add: buildable_def withSecureMessaging_def)
  note made = build_makes_what_was_asked [OF bp(1) d, of toy_wifi]
  obtain r b' bo' where b: "build toy_env toy_wifi ''hub'' ?did HUB ?b ?bo = Some (r, b', bo')"
    using made by (cases "build toy_env toy_wifi ''hub'' ?did HUB ?b ?bo") auto
  obtain h where r: "r = Some h" using made b ok by (cases r) auto
  have h: "built_as ?b d ?bo h" "b' = ?b\<lparr>isBuilderStarted := False\<rparr>" using made b r by simp_all
  have "d_hasRadio (wd_dev h) \<and> getDevicePortal h \<noteq> None \<and> getDisplay h = NoDisplay \<and> d_hasCrypto (wd_dev h)"
    using h(1) bp by (simp add: built_as_def)
  moreover have "n_aes (d_net (wd_dev h)) = planned_aes ?b (n_aes (d_net d))" using h(1) by (simp add: built_as_def)
  then have "sp_key (aes_params (n_aes (d_net (wd_dev h)))) = replicate 32 9 \<and> sp_iv (aes_params (n_aes (d_net (wd_dev h)))) = replicate 16 1"
    using bp by (simp add: planned_aes_def toy_security_def)
  ultimately show ?thesis using b r h(2) by auto
qed

lemma blank_eeprom: "blank ram_eeprom (EEPROMStorage [])"
proof -
  let ?s = "(EEPROMStorage [])\<lparr>st_size := 1024, st_mem := replicate 1024 0xFF, st_initialized := True\<rparr> :: bytes storage"
  have "ee_begin ram_eeprom 1024 [] = (True, replicate 1024 0xFF)" by (simp add: ram_eeprom_def)
  moreover have "[0..<8] = [0, 1, 2, 3, 4, 5, 6, 7 :: nat]" by (simp add: upt_rec)
  then have "read_bytes ram_eeprom (replicate 1024 0xFF) 0 8 = [0xFF, 0xFF, 0xFF, 0xFF, 0xFF, 0xFF, 0xFF, 0xFF]" by (simp add: read_bytes_def ram_eeprom_def)
  then have "\<not> isStorageValid ram_eeprom ?s"
    by (simp add: isStorageValid_def readStorageHeader_def storage_header_of_def SH_SIZE_def STORAGE_MAGIC_def be32_def)
  moreover have "fst (ee_commit ram_eeprom m)" for m by (simp add: ram_eeprom_def)
  ultimately show ?thesis by (simp add: blank_def EEPROMStorage_def EEPROM_STORAGE_MAX_SIZE_def Let_def)
qed

theorem one_device_per_power_cycle_witness:
  "builder_life toy_wifi [Build toy_env ''hub'' (Id4 1 2 3 4) HUB, Build toy_env ''hub'' (Id4 1 2 3 4) HUB]
     toy_builder (toy_board (EEPROMStorage [])) = [None, None]"
proof -
  let ?es = "[Build toy_env ''hub'' (Id4 1 2 3 4) HUB, Build toy_env ''hub'' (Id4 1 2 3 4) HUB]
    :: (bytes, unit, toy_web, unit) builder_event list"
  have "list_all (event_ok ram_eeprom) ?es" using toy_eeprom_env by simp
  from one_device_per_power_cycle [OF this, of toy_wifi toy_builder "toy_board (EEPROMStorage [])"]
  have n: "\<forall>r \<in> set (builder_life toy_wifi ?es toy_builder (toy_board (EEPROMStorage []))). r = None"
    using blank_eeprom by (simp add: toy_board_def)
  obtain r b' bo' where 1: "build toy_env toy_wifi ''hub'' (Id4 1 2 3 4) HUB toy_builder (toy_board (EEPROMStorage [])) = Some (r, b', bo')"
    using build_storage [OF toy_eeprom_env] by metis
  obtain r2 b2 bo2 where 2: "build toy_env toy_wifi ''hub'' (Id4 1 2 3 4) HUB b' bo' = Some (r2, b2, bo2)"
    using build_storage [OF toy_eeprom_env] by metis
  show ?thesis using n by (simp add: 1 2)
qed

end
