(* ===== verification/RM_MiniHub.thy ===== *)
theory RM_MiniHub
  imports RM_Builder "HOL-Library.Char_ord" "HOL-Library.List_Lexorder"
begin

text \<open>
  The hub application: \<open>src/examples/DeviceInclusion/MiniHub/MiniHub.ino\<close> and the C++ part of
  \<open>admin_panel.h\<close>, on top of the device, the portal and the builder. The application's global
  variables are the record \<open>hub_app\<close>; the device it drives is one of them, the portal is there as
  its pointer and its running flag, the web world as the state that the web library works on. The
  packet callback of the application runs inside the device's \<open>run\<close>; on a hub nothing follows it
  there before \<open>run\<close> goes on to the end of a transmission, so it is applied to the device's log of
  calls at that point. ArduinoJson's \<open>serializeJson\<close> is a parameter. Log output is left out, the
  script of the page is in the theory \<open>RM_Page\<close>.
\<close>

section \<open>Text for the web page\<close>

definition escape_char :: "char \<Rightarrow> string" where
  "escape_char c =
     (if c = CHR 0x22 then [CHR 0x5C, CHR 0x22]
      else if c = CHR 0x5C then [CHR 0x5C, CHR 0x5C]
      else if c = CHR 0x0A then [CHR 0x5C, CHR ''n'']
      else if c = CHR 0x0D then [CHR 0x5C, CHR ''r'']
      else if c = CHR 0x09 then [CHR 0x5C, CHR ''t'']
      else [c])"

definition escapeJsonString :: "string \<Rightarrow> string" where
  "escapeJsonString jsonData = foldl (\<lambda>escaped c. escaped @ escape_char c) [] jsonData"

text \<open>The four message classes differ in their type only.\<close>

definition StatusMessage :: "string \<Rightarrow> portal_message" where
  "StatusMessage data = \<lparr>getType = ''status_update'', serialize = escapeJsonString data\<rparr>"

definition DeviceListMessage :: "string \<Rightarrow> portal_message" where
  "DeviceListMessage data = \<lparr>getType = ''device_list'', serialize = escapeJsonString data\<rparr>"

definition LogMessage :: "string \<Rightarrow> portal_message" where
  "LogMessage data = \<lparr>getType = ''log_entry'', serialize = escapeJsonString data\<rparr>"

definition InclusionEventMessage :: "string \<Rightarrow> portal_message" where
  "InclusionEventMessage data = \<lparr>getType = ''inclusion_event'', serialize = escapeJsonString data\<rparr>"

datatype json = JStr string | JBool bool | JNum int | JObj "(string \<times> json) list" | JArr "json list"

section \<open>The application's state\<close>

datatype app_state = INITIALIZING | READY | INCLUSION_MODE_ACTIVE | APP_ERROR

record device_info =
  di_id :: string
  di_name :: string
  di_lastSeen :: u32
  di_rssi :: int

text \<open>\<open>std::map\<close> with its order of keys.\<close>

fun map_put :: "string \<Rightarrow> 'v \<Rightarrow> (string \<times> 'v) list \<Rightarrow> (string \<times> 'v) list" where
  "map_put k v [] = [(k, v)]"
| "map_put k v ((k', v') # m) =
     (if k = k' then (k, v) # m else if k < k' then (k, v) # (k', v') # m else (k', v') # map_put k v m)"

record ('s, 'w) hub_app =
  ha_device :: "'s device option"
  ha_radio :: bool
  ha_portal :: bool
  ha_portalRunning :: bool
  appState :: app_state
  lastStatusUpdate :: u32
  inclusionModeActive :: bool
  totalInclusionRequests :: int
  successfulInclusions :: int
  connectedDevicesMap :: "(string \<times> device_info) list"
  ha_web :: 'w

text \<open>What the application calls: the surroundings of the device, the web library, and the text
  that ArduinoJson writes.\<close>

record ('s, 'w) hub_env =
  he_env :: "'s env"
  he_web :: "'w web_lib"
  he_json :: "json \<Rightarrow> string"

abbreviation (input) he_now :: "('s, 'w) hub_env \<Rightarrow> u32" where "he_now H \<equiv> env_now (he_env H)"

section \<open>Handlers of the web page\<close>

definition hex_id :: "id4 \<Rightarrow> string" where
  "hex_id i = concat (map hex2 (id4_bytes i))"

text \<open>\<open>device->getDevicePortal()->sendToClients(msg)\<close>; a null portal is followed.\<close>

definition portal_send :: "('s, 'w) hub_env \<Rightarrow> portal_message \<Rightarrow> ('s, 'w) hub_app \<Rightarrow> ('s, 'w) hub_app option" where
  "portal_send H m a = do {
     guard_ok (ha_portal a);
     Some (if ha_portalRunning a then a\<lparr>ha_web := web_textAll (he_web H) (c_str (portal_text m)) (ha_web a)\<rparr> else a) }"

definition status_json :: "id4 \<Rightarrow> bool \<Rightarrow> nat \<Rightarrow> json" where
  "status_json did mode count =
     JObj ([(''hubId'', JStr (hex_id did)), (''inclusionMode'', JBool mode), (''deviceCount'', JNum (int count))]
       @ (if mode then [(''inclusionTimeRemaining'', JNum 0)] else []))"

definition handleGetStatus :: "('s, 'w) hub_env \<Rightarrow> ('s, 'w) hub_app \<Rightarrow> ('s, 'w) hub_app option" where
  "handleGetStatus H a =
     (case ha_device a of
        None \<Rightarrow> Some a
      | Some d \<Rightarrow> do {
          mode \<leftarrow> isInclusionModeEnabled d;
          portal_send H (StatusMessage (he_json H (status_json (getDeviceId d) mode (length (connectedDevicesMap a))))) a })"

definition device_json :: "string \<times> device_info \<Rightarrow> json" where
  "device_json pair = JObj [(''id'', JStr (di_id (snd pair))), (''name'', JStr (di_name (snd pair))),
     (''lastSeen'', JNum (uint (di_lastSeen (snd pair)))), (''rssi'', JNum (di_rssi (snd pair)))]"

definition handleGetDevices :: "('s, 'w) hub_env \<Rightarrow> ('s, 'w) hub_app \<Rightarrow> ('s, 'w) hub_app option" where
  "handleGetDevices H a =
     (case ha_device a of
        None \<Rightarrow> Some a
      | Some d \<Rightarrow> portal_send H (DeviceListMessage (he_json H
          (JObj [(''devices'', JArr (map device_json (connectedDevicesMap a)))]))) a)"

definition sendInclusionEvent :: "('s, 'w) hub_env \<Rightarrow> string \<Rightarrow> string \<Rightarrow> ('s, 'w) hub_app \<Rightarrow> ('s, 'w) hub_app option" where
  "sendInclusionEvent H event deviceId a =
     (if ha_device a = None \<or> \<not> ha_portal a then Some a
      else portal_send H (InclusionEventMessage (he_json H (JObj [(''event'', JStr event), (''deviceId'', JStr deviceId),
        (''timestamp'', JNum (uint (he_now H)))]))) a)"

section \<open>Inclusion mode\<close>

text \<open>The status goes to the clients if there is a running portal.\<close>

definition push_status :: "('s, 'w) hub_env \<Rightarrow> ('s, 'w) hub_app \<Rightarrow> ('s, 'w) hub_app option" where
  "push_status H a = (if ha_device a \<noteq> None \<and> ha_portal a \<and> ha_portalRunning a then handleGetStatus H a else Some a)"

definition startInclusionMode :: "('s, 'w) hub_env \<Rightarrow> ('s, 'w) hub_app \<Rightarrow> ('s, 'w) hub_app option" where
  "startInclusionMode H a =
     (if appState a \<noteq> READY then Some a
      else do {
        d \<leftarrow> ha_device a;
        (rc, d1) \<leftarrow> enableInclusionMode (he_env H) True d;
        if rc \<noteq> RM_E_NONE then Some (a\<lparr>ha_device := Some d1, appState := APP_ERROR\<rparr>)
        else do {
          (rc1, d2) \<leftarrow> sendInclusionOpen (he_env H) d1;
          if rc1 \<noteq> RM_E_NONE then do {
            (rc2, d3) \<leftarrow> enableInclusionMode (he_env H) False d2;
            Some (a\<lparr>ha_device := Some d3, appState := APP_ERROR\<rparr>) }
          else push_status H (a\<lparr>ha_device := Some d2, inclusionModeActive := True, appState := INCLUSION_MODE_ACTIVE,
            totalInclusionRequests := 0, successfulInclusions := 0\<rparr>) } })"

definition stopInclusionMode :: "('s, 'w) hub_env \<Rightarrow> ('s, 'w) hub_app \<Rightarrow> ('s, 'w) hub_app option" where
  "stopInclusionMode H a =
     (if \<not> inclusionModeActive a then Some a
      else do {
        d \<leftarrow> ha_device a;
        (rc, d1) \<leftarrow> enableInclusionMode (he_env H) False d;
        push_status H (a\<lparr>ha_device := Some d1, inclusionModeActive := False, appState := READY\<rparr>) })"

definition handleSetInclusionMode :: "('s, 'w) hub_env \<Rightarrow> bytes \<Rightarrow> ('s, 'w) hub_app \<Rightarrow> ('s, 'w) hub_app option" where
  "handleSetInclusionMode H data a =
     (if ha_device a = None then Some a
      else do {
        a1 \<leftarrow> (if map char_of_byte data = ''enable'' then startInclusionMode H a else stopInclusionMode H a);
        handleGetStatus H a1 })"

text \<open>The event handlers given to the portal. The world of the portal is the application, or
  \<open>None\<close> after undefined behaviour.\<close>

definition hub_handlers :: "('s, 'w) hub_env \<Rightarrow> ('s, 'w) hub_app option event_handler list" where
  "hub_handlers H =
     [\<lparr>eh_event = ''get_status'', eh_callback = \<lambda>client data w. Option.bind w (handleGetStatus H)\<rparr>,
      \<lparr>eh_event = ''set_inclusion_mode'', eh_callback = \<lambda>client data w. Option.bind w (handleSetInclusionMode H data)\<rparr>,
      \<lparr>eh_event = ''get_devices'', eh_callback = \<lambda>client data w. Option.bind w (handleGetDevices H)\<rparr>]"

section \<open>Packets\<close>

definition hub_rssi :: "('s, 'w) hub_env \<Rightarrow> ('s, 'w) hub_app \<Rightarrow> (int \<times> ('s, 'w) hub_app) option" where
  "hub_rssi H a =
     (if \<not> ha_radio a then Some (- 100, a)
      else do {
        d \<leftarrow> ha_device a;
        (rssi, r) \<leftarrow> radio_getRSSI (w_rl (e_world (he_env H))) (n_radio (d_net d));
        Some (rssi, a\<lparr>ha_device := Some (upd_radio r d)\<rparr>) })"

definition track_device :: "string \<Rightarrow> u32 \<Rightarrow> int \<Rightarrow> ('s, 'w) hub_app \<Rightarrow> ('s, 'w) hub_app" where
  "track_device deviceId now rssi a = a\<lparr>connectedDevicesMap := map_put deviceId
     \<lparr>di_id = deviceId, di_name = ''Device_'' @ substr deviceId 4 4, di_lastSeen = now, di_rssi = rssi\<rparr> (connectedDevicesMap a)\<rparr>"

definition refresh_device :: "string \<Rightarrow> u32 \<Rightarrow> int \<Rightarrow> ('s, 'w) hub_app \<Rightarrow> ('s, 'w) hub_app" where
  "refresh_device deviceId now rssi a =
     (case map_of (connectedDevicesMap a) deviceId of
        None \<Rightarrow> a
      | Some i \<Rightarrow> a\<lparr>connectedDevicesMap := map_put deviceId (i\<lparr>di_lastSeen := now, di_rssi := rssi\<rparr>) (connectedDevicesMap a)\<rparr>)"

definition hub_onPacketReceived :: "('s, 'w) hub_env \<Rightarrow> packet option \<times> rc \<Rightarrow> ('s, 'w) hub_app \<Rightarrow> ('s, 'w) hub_app option" where
  "hub_onPacketReceived H call a =
     (case call of
        (None, err) \<Rightarrow> Some a
      | (Some p, err) \<Rightarrow>
          if err \<noteq> RM_E_NONE then Some a
          else let deviceId = hex_id (p_source p) in
            if p_topic p = T_INCLUDE_REQUEST then
              sendInclusionEvent H ''request_received'' deviceId (a\<lparr>totalInclusionRequests := totalInclusionRequests a + 1\<rparr>)
            else if p_topic p = T_INCLUDE_CONFIRM then do {
              (rssi, a1) \<leftarrow> hub_rssi H (a\<lparr>successfulInclusions := successfulInclusions a + 1\<rparr>);
              a2 \<leftarrow> sendInclusionEvent H ''success'' deviceId (track_device deviceId (he_now H) rssi a1);
              a3 \<leftarrow> handleGetDevices H a2;
              stopInclusionMode H a3 }
            else if map_of (connectedDevicesMap a) deviceId \<noteq> None then do {
              (rssi, a1) \<leftarrow> hub_rssi H a;
              Some (refresh_device deviceId (he_now H) rssi a1) }
            else Some a)"

fun run_callbacks :: "('s, 'w) hub_env \<Rightarrow> (packet option \<times> rc) list \<Rightarrow> ('s, 'w) hub_app \<Rightarrow> ('s, 'w) hub_app option" where
  "run_callbacks H [] a = Some a"
| "run_callbacks H (c # cs) a = do { a1 \<leftarrow> hub_onPacketReceived H c a; run_callbacks H cs a1 }"

text \<open>\<open>device->run()\<close> with the application's callback in it.\<close>

definition hub_run :: "('s, 'w) hub_env \<Rightarrow> ('s, 'w) hub_app \<Rightarrow> (rc \<times> ('s, 'w) hub_app) option" where
  "hub_run H a = do {
     d \<leftarrow> ha_device a;
     (rc0, d1) \<leftarrow> checkProtocolTimeouts (he_env H) d;
     (rc, d2) \<leftarrow> run_rx (he_env H) d1;
     a1 \<leftarrow> run_callbacks H (drop (length (rxCalls d1)) (rxCalls d2)) (a\<lparr>ha_device := Some d2\<rparr>);
     if rc \<noteq> RM_E_NONE then Some (rc, a1)
     else do {
       d3 \<leftarrow> ha_device a1;
       (rc1, d4) \<leftarrow> run_tx (he_env H) d3;
       Some (rc1, a1\<lparr>ha_device := Some d4\<rparr>) } }"

section \<open>Main loop\<close>

abbreviation (input) STATUS_UPDATE_INTERVAL :: u32 where "STATUS_UPDATE_INTERVAL \<equiv> 2000"

text \<open>The application notices that the device has left inclusion mode.\<close>

definition sync_mode :: "('s, 'w) hub_app \<Rightarrow> ('s, 'w) hub_app option" where
  "sync_mode a =
     (if appState a \<noteq> INCLUSION_MODE_ACTIVE then Some a
      else do {
        d \<leftarrow> ha_device a;
        mode \<leftarrow> isInclusionModeEnabled d;
        Some (if \<not> mode then a\<lparr>appState := READY, inclusionModeActive := False\<rparr> else a) })"

definition hub_loop :: "('s, 'w) hub_env \<Rightarrow> ('s, 'w) hub_app \<Rightarrow> ('s, 'w) hub_app option" where
  "hub_loop H a =
     (if ha_device a = None then Some a
      else do {
        (rc, a1) \<leftarrow> hub_run H a;
        a2 \<leftarrow> sync_mode a1;
        if he_now H - lastStatusUpdate a2 \<ge> STATUS_UPDATE_INTERVAL then do {
          a3 \<leftarrow> push_status H a2;
          Some (a3\<lparr>lastStatusUpdate := he_now H\<rparr>) }
        else Some a2 })"

section \<open>Start\<close>

text \<open>What is not in the repository or is data only: the file \<open>device_info.h\<close> with the hub's name,
  identifier and access point, the text of the page, the WiFi library, and what uninitialised
  members of a new builder hold.\<close>

record ('v, 'p) hub_config =
  DEVICE_NAME :: string
  DEVICE_ID :: id4
  apParams :: ap_params
  ADMIN_PANEL_HTML :: string
  hc_wifi :: "'v wifi_lib"
  hc_blueprint :: device_blueprint
  hc_portalGarbage :: "'p portal_params"

text \<open>The web library on the world that the portal of this program has: the application.\<close>

definition on_web :: "('w \<Rightarrow> 'w) \<Rightarrow> ('s, 'w) hub_app option \<Rightarrow> ('s, 'w) hub_app option" where
  "on_web f = map_option (\<lambda>a. a\<lparr>ha_web := f (ha_web a)\<rparr>)"

definition hub_web :: "'w web_lib \<Rightarrow> ('s, 'w) hub_app option web_lib" where
  "hub_web L = \<lparr>web_open = \<lambda>port. on_web (web_open L port),
     web_softAPIP = \<lambda>x. (case x of Some a \<Rightarrow> web_softAPIP L (ha_web a) | None \<Rightarrow> Id4 0 0 0 0),
     web_dnsStart = \<lambda>port domain ip. on_web (web_dnsStart L port domain ip), web_begin = on_web (web_begin L),
     web_end = on_web (web_end L), web_dnsStop = on_web (web_dnsStop L), web_closeAll = on_web (web_closeAll L),
     web_textAll = \<lambda>m. on_web (web_textAll L m),
     web_text = \<lambda>c m x. (case x of Some a \<Rightarrow> (case web_text L c m (ha_web a) of (ok, w) \<Rightarrow> (ok, Some (a\<lparr>ha_web := w\<rparr>)))
       | None \<Rightarrow> (False, None)),
     web_count = \<lambda>x. (case x of Some a \<Rightarrow> web_count L (ha_web a) | None \<Rightarrow> 0),
     web_canSend = \<lambda>c x. (case x of Some a \<Rightarrow> web_canSend L c (ha_web a) | None \<Rightarrow> False),
     web_keepAlive = \<lambda>c n. on_web (web_keepAlive L c n)\<rparr>"

definition hub_portal_params :: "('s, 'w) hub_env \<Rightarrow> string \<Rightarrow> ('s, 'w) hub_app option portal_params" where
  "hub_portal_params H html = \<lparr>pp_title = ''MiniHub Admin'', pp_indexHtml = html, pp_webPort = 80, pp_dnsPort = 53,
     pp_eventHandlers = hub_handlers H\<rparr>"

text \<open>Four attempts at most. The operation is there, its call is commented out.\<close>

fun connect_retrying :: "nat \<Rightarrow> 'v wifi_lib \<Rightarrow> wifi_connector \<Rightarrow> 'v \<Rightarrow> bool \<times> wifi_connector \<times> 'v" where
  "connect_retrying 0 L c w = (False, c, w)"
| "connect_retrying (Suc n) L c w =
     (case wc_connect L [] [] c w of
        (rc, c1, w1) \<Rightarrow> if rc = RM_E_NONE then (True, c1, w1) else connect_retrying n L c1 w1)"

definition setupWifiConnector :: "'v wifi_lib \<Rightarrow> bool \<Rightarrow> wifi_connector \<Rightarrow> 'v \<Rightarrow> bool \<times> wifi_connector \<times> 'v" where
  "setupWifiConnector L present c w = (if \<not> present then (False, c, w) else connect_retrying 4 L c w)"

definition setupAccessPoint :: "'v wifi_lib \<Rightarrow> bool \<Rightarrow> access_point \<Rightarrow> 'v \<Rightarrow> bool \<times> access_point \<times> 'v" where
  "setupAccessPoint L present p w =
     (if \<not> present then (False, p, w)
      else case ap_setup_stored L p of
        (rc, p1) \<Rightarrow>
          if rc \<noteq> RM_E_NONE then (False, p1, w)
          else case ap_start L p1 w of (rc1, p2, w1) \<Rightarrow> (rc1 = RM_E_NONE, p2, w1))"

definition setupDevicePortal :: "'x web_lib \<Rightarrow> bool \<Rightarrow> 'x portal \<Rightarrow> 'x \<Rightarrow> bool \<times> 'x portal \<times> 'x" where
  "setupDevicePortal L present pt w =
     (if \<not> present then (False, pt, w) else case pt_start L pt w of (rc, pt1, w1) \<Rightarrow> (rc = RM_E_NONE, pt1, w1))"

definition hub_builder :: "('s, 'w) hub_env \<Rightarrow> ('v, ('s, 'w) hub_app option) hub_config \<Rightarrow> (('s, 'w) hub_app option, unit) builder" where
  "hub_builder H C = withRxPacketCallback True (withDevicePortal (hub_portal_params H (ADMIN_PANEL_HTML C))
     (withWifiAccessPoint (apParams C) (withLoraRadio HELTEC_WIFI_LORA_32_V3
       (start (DeviceBuilder (hc_blueprint C) (hc_portalGarbage C))))))"

text \<open>What start leaves besides the application: the access point, the portal and the WiFi world.\<close>

type_synonym ('s, 'w, 'v) hub_rest = "access_point \<times> ('s, 'w) hub_app option portal \<times> 'v"

definition initializeHardware :: "('s, 'w) hub_env \<Rightarrow> ('v, ('s, 'w) hub_app option) hub_config \<Rightarrow>
    ('s, 'd, ('s, 'w) hub_app option) board \<Rightarrow> 'v \<Rightarrow> ('s, 'w) hub_app \<Rightarrow> (bool \<times> ('s, 'w) hub_app \<times> ('s, 'w, 'v) hub_rest) option" where
  "initializeHardware H C bo v a = do {
     (built, b, bo1) \<leftarrow> build (he_env H) (hc_wifi C) (DEVICE_NAME C) (DEVICE_ID C) HUB (hub_builder H C) bo;
     case built of
       None \<Rightarrow> Some (False, a\<lparr>ha_device := None\<rparr>, bo_ap bo1, bo_portal bo1, v)
     | Some h \<Rightarrow> do {
         let a1 = a\<lparr>ha_device := Some (wd_dev h), ha_radio := d_hasRadio (wd_dev h), ha_portal := devicePortal h,
           ha_portalRunning := isRunning (wd_portal h)\<rparr>;
         if \<not> ha_radio a1 then Some (False, a1, wd_ap h, wd_portal h, v)
         else do {
           (rc, r) \<leftarrow> radio_setup_stored (w_rl (e_world (he_env H))) (n_radio (d_net (wd_dev h)));
           let a2 = a1\<lparr>ha_device := Some (upd_radio r (wd_dev h))\<rparr>;
           if rc \<noteq> RM_E_NONE then Some (False, a2, wd_ap h, wd_portal h, v)
           else case setupAccessPoint (hc_wifi C) (wifiAccessPoint h) (wd_ap h) v of
             (ok, p1, v1) \<Rightarrow>
               if \<not> ok then Some (False, a2, p1, wd_portal h, v1)
               else case setupDevicePortal (hub_web (he_web H)) (devicePortal h) (wd_portal h) (Some a2) of
                 (ok1, pt1, w1) \<Rightarrow> do { a3 \<leftarrow> w1; Some (ok1, a3\<lparr>ha_portalRunning := isRunning pt1\<rparr>, p1, pt1, v1) } } } }"

definition hub_setup :: "('s, 'w) hub_env \<Rightarrow> ('v, ('s, 'w) hub_app option) hub_config \<Rightarrow>
    ('s, 'd, ('s, 'w) hub_app option) board \<Rightarrow> 'v \<Rightarrow> ('s, 'w) hub_app \<Rightarrow> (('s, 'w) hub_app \<times> ('s, 'w, 'v) hub_rest) option" where
  "hub_setup H C bo v a = do {
     (ok, a1, rest) \<leftarrow> initializeHardware H C bo v a;
     Some (a1\<lparr>appState := if ok then READY else APP_ERROR\<rparr>, rest) }"

text \<open>The variables of a program that has not started.\<close>

definition hub_start :: "'w \<Rightarrow> ('s, 'w) hub_app" where
  "hub_start w = \<lparr>ha_device = None, ha_radio = False, ha_portal = False, ha_portalRunning = False, appState = INITIALIZING,
     lastStatusUpdate = 0, inclusionModeActive = False, totalInclusionRequests = 0, successfulInclusions = 0,
     connectedDevicesMap = [], ha_web = w\<rparr>"

section \<open>Sessions of the application\<close>

text \<open>What happens after start: an iteration of the main loop, or a message of a client that the
  portal hands to a handler. The handlers run between two iterations here.\<close>

datatype ('s, 'w) hub_event =
    HubLoop "('s, 'w) hub_env"
  | HubMessage "('s, 'w) hub_env" u32 string bytes

fun hub_event_step :: "('s, 'w) hub_event \<Rightarrow> ('s, 'w) hub_app option \<Rightarrow> ('s, 'w) hub_app option" where
  "hub_event_step (HubLoop H) x = Option.bind x (hub_loop H)"
| "hub_event_step (HubMessage H client t bs) x = dispatch (hub_handlers H) t client bs x"

definition hub_session :: "('s, 'w) hub_event list \<Rightarrow> ('s, 'w) hub_app option \<Rightarrow> ('s, 'w) hub_app option" where
  "hub_session evs x = foldl (\<lambda>x ev. hub_event_step ev x) x evs"

text \<open>What the application's state is allowed to do.\<close>

inductive app_move :: "app_state \<Rightarrow> app_state \<Rightarrow> bool" where
  begin_mode: "app_move READY INCLUSION_MODE_ACTIVE"
| cannot_begin: "app_move READY APP_ERROR"
| end_mode: "app_move INCLUSION_MODE_ACTIVE READY"

inductive_cases app_move_from_error: "app_move APP_ERROR s"

lemma error_is_final: "app_move\<^sup>*\<^sup>* APP_ERROR s \<Longrightarrow> s = APP_ERROR"
  by (induction rule: rtranclp_induct) (auto elim: app_move_from_error)

lemma never_initializing: "app_move\<^sup>*\<^sup>* s s' \<Longrightarrow> s \<noteq> INITIALIZING \<Longrightarrow> s' \<noteq> INITIALIZING"
  by (induction rule: rtranclp_induct) (auto elim: app_move.cases)

text \<open>The flag tells the state, and the mode is only on with a device.\<close>

definition app_ok :: "('s, 'w) hub_app \<Rightarrow> bool" where
  "app_ok a \<longleftrightarrow> (inclusionModeActive a \<longleftrightarrow> appState a = INCLUSION_MODE_ACTIVE) \<and>
     (appState a = INCLUSION_MODE_ACTIVE \<longrightarrow> ha_device a \<noteq> None)"

definition app_moves :: "('s, 'w) hub_app \<Rightarrow> ('s, 'w) hub_app \<Rightarrow> bool" where
  "app_moves a a' \<longleftrightarrow> (app_ok a \<longrightarrow> app_ok a' \<and> app_move\<^sup>*\<^sup>* (appState a) (appState a'))"

lemma app_moves_refl [simp]: "app_moves a a"
  by (simp add: app_moves_def)

lemma app_moves_trans [trans]: "app_moves a b \<Longrightarrow> app_moves b c \<Longrightarrow> app_moves a c"
  by (auto simp: app_moves_def)

text \<open>Operations that only write to the web world.\<close>

definition web_only :: "('s, 'w) hub_app \<Rightarrow> ('s, 'w) hub_app \<Rightarrow> bool" where
  "web_only a a' \<longleftrightarrow> (\<exists>w. a' = a\<lparr>ha_web := w\<rparr>)"

lemma web_only_refl [simp]: "web_only a a"
  unfolding web_only_def by (rule exI [of _ "ha_web a"]) simp

lemma web_only_upd [simp]: "web_only a (a\<lparr>ha_web := w\<rparr>)"
  unfolding web_only_def by blast

lemma portal_send_web: "portal_send H m a = Some a' \<Longrightarrow> web_only a a'"
  unfolding portal_send_def by (cases "ha_portal a"; cases "ha_portalRunning a") auto

lemma web_ops:
  "handleGetStatus H a = Some a' \<Longrightarrow> web_only a a'" "handleGetDevices H a = Some a' \<Longrightarrow> web_only a a'"
  "sendInclusionEvent H e i a = Some a' \<Longrightarrow> web_only a a'"
  by (auto simp: handleGetStatus_def handleGetDevices_def sendInclusionEvent_def bind_eq_Some_conv
      split: option.splits if_splits intro: portal_send_web)

lemma push_status_web: "push_status H a = Some a' \<Longrightarrow> web_only a a'"
  by (auto simp: push_status_def split: if_splits intro: web_ops)

lemma web_onlyD:
  "web_only a a' \<Longrightarrow> ha_device a' = ha_device a \<and> appState a' = appState a \<and> inclusionModeActive a' = inclusionModeActive a \<and>
     successfulInclusions a' = successfulInclusions a \<and> totalInclusionRequests a' = totalInclusionRequests a \<and>
     connectedDevicesMap a' = connectedDevicesMap a \<and> ha_portal a' = ha_portal a \<and> ha_radio a' = ha_radio a \<and>
     ha_portalRunning a' = ha_portalRunning a"
  by (auto simp: web_only_def)

lemma web_only_moves: "web_only a a' \<Longrightarrow> app_moves a a'"
  by (auto simp: app_moves_def app_ok_def dest: web_onlyD)

lemma start_moves:
  assumes "startInclusionMode H a = Some a'"
  shows "app_moves a a'"
proof (cases "appState a = READY")
  case True
  have "web_only a1 a' \<Longrightarrow> ha_device a1 \<noteq> None \<Longrightarrow> appState a1 = INCLUSION_MODE_ACTIVE \<Longrightarrow> inclusionModeActive a1 \<Longrightarrow> app_moves a a'" for a1
    using True by (auto simp: app_moves_def app_ok_def begin_mode dest!: web_onlyD)
  moreover have "app_moves a (a\<lparr>ha_device := x, appState := APP_ERROR\<rparr>)" for x
    using True by (auto simp: app_moves_def app_ok_def cannot_begin)
  ultimately show ?thesis using assms True
    by (auto simp: startInclusionMode_def bind_eq_Some_conv split: if_splits prod.splits dest!: push_status_web)
qed (use assms in \<open>simp add: startInclusionMode_def\<close>)

lemma stop_moves:
  assumes "stopInclusionMode H a = Some a'"
  shows "app_moves a a'"
proof (cases "inclusionModeActive a")
  case True
  have "web_only a1 a' \<Longrightarrow> appState a1 = READY \<Longrightarrow> \<not> inclusionModeActive a1 \<Longrightarrow> app_moves a a'" for a1
    using True by (auto simp: app_moves_def app_ok_def end_mode dest!: web_onlyD)
  then show ?thesis using assms True
    by (auto simp: stopInclusionMode_def bind_eq_Some_conv split: prod.splits dest!: push_status_web)
qed (use assms in \<open>simp add: stopInclusionMode_def\<close>)

lemma same_app_moves:
  "appState a' = appState a \<Longrightarrow> inclusionModeActive a' = inclusionModeActive a \<Longrightarrow> ha_device a' \<noteq> None \<or> ha_device a' = ha_device a \<Longrightarrow>
   app_moves a a'"
  by (auto simp: app_moves_def app_ok_def)

lemma hub_rssi_moves: "hub_rssi H a = Some (r, a') \<Longrightarrow> app_moves a a'"
  by (rule same_app_moves) (auto simp: hub_rssi_def bind_eq_Some_conv split: if_splits prod.splits)

lemma track_moves: "app_moves a (track_device i n r a)" "app_moves a (refresh_device i n r a)"
    "app_moves a (a\<lparr>totalInclusionRequests := x\<rparr>)" "app_moves a (a\<lparr>successfulInclusions := y\<rparr>)"
    "app_moves a (a\<lparr>ha_device := Some d\<rparr>)" "app_moves a (a\<lparr>lastStatusUpdate := t\<rparr>)"
  by (rule same_app_moves; simp add: track_device_def refresh_device_def split: option.split)+

lemmas app_op_moves = web_only_moves [OF web_ops(1)] web_only_moves [OF web_ops(2)] web_only_moves [OF web_ops(3)]
  web_only_moves [OF push_status_web] start_moves stop_moves hub_rssi_moves track_moves

lemma request_moves: "sendInclusionEvent H e i (a\<lparr>totalInclusionRequests := x\<rparr>) = Some a' \<Longrightarrow> app_moves a a'"
  using app_moves_trans [OF track_moves(3) app_op_moves(3)] by blast

lemma confirm_moves:
  assumes "hub_rssi H (a\<lparr>successfulInclusions := x\<rparr>) = Some (rssi, a1)" "sendInclusionEvent H e i (track_device i n rssi a1) = Some a2"
    "handleGetDevices H a2 = Some a3" "stopInclusionMode H a3 = Some a'"
  shows "app_moves a a'"
proof -
  have "app_moves a a1" using app_moves_trans [OF track_moves(4) hub_rssi_moves [OF assms(1)]] .
  also note app_moves_trans [OF track_moves(1) app_op_moves(3) [OF assms(2)]]
  also note app_op_moves(2) [OF assms(3)]
  also note stop_moves [OF assms(4)]
  finally show ?thesis .
qed

lemma refresh_moves: "hub_rssi H a = Some (r, a1) \<Longrightarrow> app_moves a (refresh_device i n r a1)"
  using app_moves_trans [OF hub_rssi_moves track_moves(2)] by blast

lemma onPacketReceived_moves: "hub_onPacketReceived H c a = Some a' \<Longrightarrow> app_moves a a'"
proof (cases c)
  case (Pair q err)
  assume "hub_onPacketReceived H c a = Some a'"
  then show ?thesis using Pair
    by (cases q) (auto simp: hub_onPacketReceived_def Let_def bind_eq_Some_conv split: if_splits prod.splits
        intro: request_moves confirm_moves refresh_moves)
qed

lemma run_callbacks_moves: "run_callbacks H cs a = Some a' \<Longrightarrow> app_moves a a'"
proof (induction cs arbitrary: a)
  case (Cons c cs)
  then obtain a1 where "hub_onPacketReceived H c a = Some a1" "run_callbacks H cs a1 = Some a'"
    by (auto simp: bind_eq_Some_conv)
  then show ?case using onPacketReceived_moves Cons.IH app_moves_trans by blast
qed simp

lemma hub_run_moves: "hub_run H a = Some (rc, a') \<Longrightarrow> app_moves a a'"
proof -
  have "run_callbacks H cs (a\<lparr>ha_device := Some d\<rparr>) = Some a1 \<Longrightarrow> app_moves a a1" for cs d a1
    using app_moves_trans [OF track_moves(5) run_callbacks_moves] by blast
  then have "run_callbacks H cs (a\<lparr>ha_device := Some d\<rparr>) = Some a1 \<Longrightarrow> app_moves a a1 \<and> app_moves a (a1\<lparr>ha_device := Some d'\<rparr>)" for cs d a1 d'
    using app_moves_trans [OF _ track_moves(5)] by blast
  then show "hub_run H a = Some (rc, a') \<Longrightarrow> ?thesis"
    by (auto simp: hub_run_def bind_eq_Some_conv split: if_splits)
qed

lemma sync_mode_moves:
  assumes "sync_mode a = Some a'"
  shows "app_moves a a'"
    and "appState a' = INCLUSION_MODE_ACTIVE \<Longrightarrow> \<exists>d. ha_device a' = Some d \<and> isInclusionModeEnabled d = Some True"
proof -
  have "app_moves a (a\<lparr>appState := READY, inclusionModeActive := False\<rparr>)" if "appState a = INCLUSION_MODE_ACTIVE"
    using that by (auto simp: app_moves_def app_ok_def end_mode)
  then show "app_moves a a'" using assms by (auto simp: sync_mode_def bind_eq_Some_conv split: if_splits)
  show "\<exists>d. ha_device a' = Some d \<and> isInclusionModeEnabled d = Some True" if "appState a' = INCLUSION_MODE_ACTIVE"
    using assms that by (auto simp: sync_mode_def bind_eq_Some_conv split: if_splits)
qed

lemma hub_loop_moves:
  assumes "hub_loop H a = Some a'"
  shows "app_moves a a'"
    and "app_ok a \<Longrightarrow> appState a' = INCLUSION_MODE_ACTIVE \<Longrightarrow> \<exists>d. ha_device a' = Some d \<and> isInclusionModeEnabled d = Some True"
proof -
  have "app_moves a a' \<and> (app_ok a \<longrightarrow> appState a' = INCLUSION_MODE_ACTIVE \<longrightarrow> (\<exists>d. ha_device a' = Some d \<and> isInclusionModeEnabled d = Some True))"
  proof (cases "ha_device a = None")
    case True
    then show ?thesis using assms by (auto simp: hub_loop_def app_ok_def)
  next
    case False
    then obtain rc a1 a2 where r: "hub_run H a = Some (rc, a1)" "sync_mode a1 = Some a2"
        "a' = a2 \<or> (\<exists>a3. push_status H a2 = Some a3 \<and> a' = a3\<lparr>lastStatusUpdate := he_now H\<rparr>)"
      using assms by (auto simp: hub_loop_def bind_eq_Some_conv split: if_splits prod.splits)
    have m: "app_moves a a2" using hub_run_moves [OF r(1)] sync_mode_moves(1) [OF r(2)] app_moves_trans by blast
    moreover have "app_moves a2 a'" using r(3) app_op_moves(4) track_moves(6) app_moves_trans by (metis app_moves_refl)
    moreover have "appState a' = appState a2 \<and> ha_device a' = ha_device a2" using r(3) by (auto dest!: push_status_web web_onlyD)
    ultimately show ?thesis using sync_mode_moves(2) [OF r(2)] app_moves_trans by metis
  qed
  then show "app_moves a a'" "app_ok a \<Longrightarrow> appState a' = INCLUSION_MODE_ACTIVE \<Longrightarrow> \<exists>d. ha_device a' = Some d \<and> isInclusionModeEnabled d = Some True"
    by blast+
qed

lemma handleSetInclusionMode_moves: "handleSetInclusionMode H bs a = Some a' \<Longrightarrow> app_moves a a'"
  by (auto simp: handleSetInclusionMode_def bind_eq_Some_conv split: if_splits
      intro: app_moves_trans [OF start_moves app_op_moves(1)] app_moves_trans [OF stop_moves app_op_moves(1)])

lemma event_moves:
  assumes "hub_event_step ev (Some a) = Some a'"
  shows "app_moves a a'"
proof (cases ev)
  case (HubMessage H cl t bs)
  then show ?thesis using assms
    by (auto simp: hub_handlers_def split: if_splits intro: app_op_moves handleSetInclusionMode_moves)
qed (use assms in \<open>auto intro: hub_loop_moves(1)\<close>)

lemma hub_session_None [simp]: "hub_session evs None = None"
proof (induction evs)
  case (Cons ev evs)
  then show ?case by (cases ev) (simp_all add: hub_session_def hub_handlers_def)
qed (simp add: hub_session_def)

lemma hub_session_Cons: "hub_session (ev # evs) x = hub_session evs (hub_event_step ev x)"
  by (simp add: hub_session_def)

lemma session_moves: "hub_session evs (Some a) = Some a' \<Longrightarrow> app_moves a a'"
proof (induction evs arbitrary: a)
  case (Cons ev evs)
  then obtain a1 where "hub_event_step ev (Some a) = Some a1" "hub_session evs (Some a1) = Some a'"
    by (cases "hub_event_step ev (Some a)") (auto simp: hub_session_Cons)
  then show ?case using event_moves Cons.IH app_moves_trans by blast
qed (simp add: hub_session_def)

section \<open>What the application shows\<close>

lemma setupDevicePortal_app:
  assumes "setupDevicePortal (hub_web L) present pt (Some a) = (ok, pt1, w1)"
  shows "(\<exists>w. w1 = Some (a\<lparr>ha_web := w\<rparr>)) \<and> (ok \<longrightarrow> present \<and> isRunning pt1)"
proof (cases "present \<and> \<not> isRunning pt")
  case True
  then show ?thesis using assms by (auto simp: setupDevicePortal_def pt_start_def Let_def hub_web_def on_web_def isRunning_def)
next
  case False
  have "a = a\<lparr>ha_web := ha_web a\<rparr>" by simp
  then have "\<exists>w. a = a\<lparr>ha_web := w\<rparr>" by metis
  with False show ?thesis using assms by (auto simp: setupDevicePortal_def pt_start_def split: if_splits)
qed

lemma hub_setup_result:
  assumes "hub_setup H C bo v (hub_start w) = Some (a, rest)"
  shows "app_ok a" and "appState a = READY \<and> ha_device a \<noteq> None \<and> ha_radio a \<and> ha_portal a \<and> ha_portalRunning a \<or> appState a = APP_ERROR"
proof -
  obtain ok a1 where i: "initializeHardware H C bo v (hub_start w) = Some (ok, a1, rest)"
      and a: "a = a1\<lparr>appState := if ok then READY else APP_ERROR\<rparr>"
    using assms by (auto simp: hub_setup_def bind_eq_Some_conv)
  obtain built b bo1 where b: "build (he_env H) (hc_wifi C) (DEVICE_NAME C) (DEVICE_ID C) HUB (hub_builder H C) bo = Some (built, b, bo1)"
    using i by (auto simp: initializeHardware_def bind_eq_Some_conv)
  have "\<not> inclusionModeActive a1 \<and> (ok \<longrightarrow> ha_device a1 \<noteq> None \<and> ha_radio a1 \<and> ha_portal a1 \<and> ha_portalRunning a1)"
  proof (cases built)
    case None
    then show ?thesis using i b by (auto simp: initializeHardware_def hub_start_def)
  next
    case (Some h)
    obtain okp p1 v1 where ap: "setupAccessPoint (hc_wifi C) (wifiAccessPoint h) (wd_ap h) v = (okp, p1, v1)" by (rule prod_cases3)
    show ?thesis using i b Some
      by (auto simp: initializeHardware_def hub_start_def bind_eq_Some_conv Let_def ap split: if_splits prod.split_asm
          dest!: setupDevicePortal_app)
  qed
  then show "app_ok a" "appState a = READY \<and> ha_device a \<noteq> None \<and> ha_radio a \<and> ha_portal a \<and> ha_portalRunning a \<or> appState a = APP_ERROR"
    by (auto simp: app_ok_def a)
qed

text \<open>C20: The hub application's state is in step with the device. However the hub was set up and
  whatever happened since: the flag of the web page and the state agree; the application is never
  initialising again; once it is in the error state (because the set-up or one attempt to open the
  network failed) it stays there until a reboot; and after an iteration of the main loop it only shows
  an active inclusion mode if the device really is in it.\<close>

theorem hub_application_states:
  assumes start: "hub_setup H C bo v (hub_start w) = Some (a0, rest)"
    and before: "hub_session evs (Some a0) = Some a" and more: "hub_session evs' (Some a) = Some a'"
  shows "(inclusionModeActive a' \<longleftrightarrow> appState a' = INCLUSION_MODE_ACTIVE) \<and> appState a' \<noteq> INITIALIZING \<and>
    (appState a = APP_ERROR \<longrightarrow> appState a' = APP_ERROR) \<and>
    (hub_loop H' a' = Some a'' \<longrightarrow> appState a'' = INCLUSION_MODE_ACTIVE \<longrightarrow>
       (\<exists>d. ha_device a'' = Some d \<and> isInclusionModeEnabled d = Some True))"
proof -
  note s = hub_setup_result [OF start]
  have a: "app_ok a" "app_move\<^sup>*\<^sup>* (appState a0) (appState a)" using session_moves [OF before] s(1) by (simp_all add: app_moves_def)
  have a': "app_ok a'" "app_move\<^sup>*\<^sup>* (appState a) (appState a')" using session_moves [OF more] a(1) by (simp_all add: app_moves_def)
  have "appState a' \<noteq> INITIALIZING" using s(2) never_initializing [OF rtranclp_trans [OF a(2) a'(2)]] by auto
  moreover have "appState a = APP_ERROR \<longrightarrow> appState a' = APP_ERROR" using a'(2) error_is_final by metis
  ultimately show ?thesis using a'(1) hub_loop_moves(2) by (auto simp: app_ok_def)
qed

text \<open>A device that has left inclusion mode, and is otherwise as it was.\<close>

definition left_mode :: "'s device \<Rightarrow> 's device \<Rightarrow> bool" where
  "left_mode d d' \<longleftrightarrow> isInclusionModeEnabled d' = Some False \<and> d_hasRadio d' = d_hasRadio d \<and>
     isSetup (n_radio (d_net d')) = isSetup (n_radio (d_net d)) \<and> sent_frames d' = sent_frames d \<and>
     (\<forall>key. networked d key \<longrightarrow> networked d' key) \<and> (\<forall>env. on_air env d \<longrightarrow> on_air env d')"

lemma exitInclusionMode_off:
  assumes "d_type d = HUB" and "d_ctl d = Some c"
  shows "\<exists>d1. exitInclusionMode env d = Some (RM_E_NONE, d1) \<and> isInclusionModeEnabled d1 = Some False \<and> d_net d1 = d_net d \<and>
    left_mode d d1"
proof -
  let ?c = "(transitionToState (env_now env) PROTOCOL_IDLE (c\<lparr>inclusionModeEnabled := False\<rparr>))\<lparr>retryCount := 0\<rparr>"
  obtain d1 where d1: "exitInclusionMode env d = Some (RM_E_NONE, d1)" "d_net d1 = d_net d" "d_type d1 = d_type d" "d_hasRadio d1 = d_hasRadio d"
      "\<exists>c1. d_ctl d1 = Some c1 \<and> ic_type c1 = ic_type c \<and> \<not> inclusionModeEnabled c1"
    using assms by (auto simp: exitInclusionMode_def resetProtocolState_def transitionToState_def Let_def)
  then have "left_mode d d1"
    using assms by (auto simp: left_mode_def isInclusionModeEnabled_def ic_isInclusionModeEnabled_def sent_frames_def networked_def on_air_def)
  then show ?thesis using d1 by (auto simp: left_mode_def)
qed

text \<open>C25: One failed attempt to open the network locks the hub. When the application is ready and its
  invitation cannot be sent (whatever the error, a radio that was busy once is enough), the attempt
  takes the device back out of inclusion mode and ends in the error state; whatever the clients ask for
  and however often the loop runs afterwards, inclusion mode cannot be started again.\<close>

theorem failed_opening_locks_the_hub:
  assumes a: "app_ok a" "appState a = READY" "ha_device a = Some d"
    and d: "d_type d = HUB" "enableInclusionMode (he_env H) True d = Some (RM_E_NONE, d1)"
    and failed: "sendInclusionOpen (he_env H) d1 = Some (rc, d2)" "rc \<noteq> RM_E_NONE" "d_type d2 = HUB" "d_ctl d2 \<noteq> None"
  shows "\<exists>a1 d3. startInclusionMode H a = Some a1 \<and> ha_device a1 = Some d3 \<and> isInclusionModeEnabled d3 = Some False \<and>
    (\<forall>evs a2. hub_session evs (Some a1) = Some a2 \<longrightarrow> appState a2 = APP_ERROR \<and> \<not> inclusionModeActive a2)"
proof -
  obtain c where "d_ctl d2 = Some c" using failed(4) by auto
  from exitInclusionMode_off [OF failed(3) this, of "he_env H"] obtain d3 where
      d3: "enableInclusionMode (he_env H) False d2 = Some (RM_E_NONE, d3)" "isInclusionModeEnabled d3 = Some False"
    by (auto simp: enableInclusionMode_def)
  let ?a1 = "a\<lparr>ha_device := Some d3, appState := APP_ERROR\<rparr>"
  have s: "startInclusionMode H a = Some ?a1" using a d failed d3(1) by (simp add: startInclusionMode_def)
  have "app_ok ?a1" using a(1,2) by (simp add: app_ok_def)
  then have "appState a2 = APP_ERROR \<and> \<not> inclusionModeActive a2" if "hub_session evs (Some ?a1) = Some a2" for evs a2
    using session_moves [OF that] error_is_final [of "appState a2"] by (auto simp: app_moves_def app_ok_def)
  then show ?thesis using s d3(2) by (intro exI [of _ ?a1] exI [of _ d3]) simp
qed

lemma map_of_map_put [simp]: "map_of (map_put k v m) = (map_of m)(k \<mapsto> v)"
  by (induction k v m rule: map_put.induct) (auto simp: fun_eq_iff)

lemma portal_send_total: "ha_portal a \<Longrightarrow> \<exists>a'. portal_send H m a = Some a'"
  by (simp add: portal_send_def)

lemma messages_total:
  "ha_portal a \<Longrightarrow> \<exists>a'. sendInclusionEvent H e i a = Some a'" "ha_portal a \<Longrightarrow> \<exists>a'. handleGetDevices H a = Some a'"
  by (auto simp: sendInclusionEvent_def handleGetDevices_def portal_send_total split: option.split)

lemma status_total:
  assumes "ha_device a = Some d" "d_ctl d \<noteq> None"
  shows "ha_portal a \<Longrightarrow> \<exists>b. handleGetStatus H a = Some b" and "\<exists>b. push_status H a = Some b"
proof -
  obtain c where "d_ctl d = Some c" using assms(2) by auto
  then show g: "\<exists>b. handleGetStatus H a = Some b" if "ha_portal a"
    using assms(1) portal_send_total [OF that] by (simp add: handleGetStatus_def isInclusionModeEnabled_def)
  show "\<exists>b. push_status H a = Some b"
    using g by (cases "ha_portal a \<and> ha_portalRunning a") (auto simp: push_status_def)
qed

lemma stop_total:
  assumes "ha_device a = Some d" "d_type d = HUB" "d_ctl d \<noteq> None" "inclusionModeActive a"
  shows "\<exists>a' d1. stopInclusionMode H a = Some a' \<and> ha_device a' = Some d1 \<and> isInclusionModeEnabled d1 = Some False \<and>
    \<not> inclusionModeActive a' \<and> appState a' = READY \<and> successfulInclusions a' = successfulInclusions a \<and>
    connectedDevicesMap a' = connectedDevicesMap a \<and> left_mode d d1"
proof -
  obtain c where "d_ctl d = Some c" using assms by auto
  from exitInclusionMode_off [OF assms(2) this, of "he_env H"] obtain d1 where
      d1: "enableInclusionMode (he_env H) False d = Some (RM_E_NONE, d1)" "isInclusionModeEnabled d1 = Some False"
      "left_mode d d1"
    by (auto simp: enableInclusionMode_def)
  let ?a1 = "a\<lparr>ha_device := Some d1, inclusionModeActive := False, appState := READY\<rparr>"
  obtain a' where a': "push_status H ?a1 = Some a'"
    using d1(2) portal_send_total [of ?a1 H] by (cases "ha_portal a \<and> ha_portalRunning a") (force simp: push_status_def handleGetStatus_def)+
  then show ?thesis using web_onlyD [OF push_status_web [OF a']] d1 assms by (auto simp: stopInclusionMode_def)
qed

lemma confirm_callback:
  assumes a: "ha_device a = Some d" "ha_portal a" "inclusionModeActive a"
    and d: "d_type d = HUB" "d_ctl d \<noteq> None" "ra_module (n_radio (d_net d))" and q: "p_topic q = T_INCLUDE_CONFIRM"
  shows "\<exists>a' d'. hub_onPacketReceived H (Some q, RM_E_NONE) a = Some a' \<and> successfulInclusions a' = successfulInclusions a + 1 \<and>
    map_of (connectedDevicesMap a') (hex_id (p_source q)) \<noteq> None \<and> \<not> inclusionModeActive a' \<and> appState a' = READY \<and>
    ha_device a' = Some d' \<and> isInclusionModeEnabled d' = Some False \<and> left_mode d d'"
proof -
  let ?i = "hex_id (p_source q)" and ?a0 = "a\<lparr>successfulInclusions := successfulInclusions a + 1\<rparr>"
  let ?d1 = "upd_radio (tick (n_radio (d_net d))) d"
  have "\<exists>rssi a1. hub_rssi H ?a0 = Some (rssi, a1) \<and> (a1 = ?a0 \<or> a1 = ?a0\<lparr>ha_device := Some ?d1\<rparr>)"
    using a d by (cases "ha_radio a") (simp_all add: hub_rssi_def radio_getRSSI_def)
  then obtain rssi a1 where r0: "hub_rssi H ?a0 = Some (rssi, a1)" "a1 = ?a0 \<or> a1 = ?a0\<lparr>ha_device := Some ?d1\<rparr>" by blast
  define d1 where "d1 = the (ha_device a1)"
  have r: "hub_rssi H ?a0 = Some (rssi, a1)" "ha_device a1 = Some d1" "d_type d1 = HUB" "d_ctl d1 \<noteq> None"
      "ha_portal a1" "inclusionModeActive a1" "successfulInclusions a1 = successfulInclusions a + 1" "d1 = d \<or> d1 = ?d1"
    using r0 a d by (auto simp: upd_radio_def d1_def)
  have "left_mode (upd_radio (tick (n_radio (d_net d))) d) x = left_mode d x" for x
    by (simp add: left_mode_def upd_radio_def sent_frames_def networked_def on_air_def net_inv_def radio_inv_def)
  then have same: "left_mode d1 x \<Longrightarrow> left_mode d x" for x using r(8) by metis
  let ?t = "track_device ?i (he_now H) rssi a1"
  obtain a2 where a2: "sendInclusionEvent H ''success'' ?i ?t = Some a2"
    using messages_total(1) [of ?t H] r(5) by (auto simp: track_device_def)
  note w2 = web_onlyD [OF web_ops(3) [OF a2]]
  have "ha_device a2 = Some d1" "ha_portal a2" using w2 r by (simp_all add: track_device_def)
  then obtain a3 where a3: "handleGetDevices H a2 = Some a3"
    using messages_total(2) by blast
  note w3 = web_onlyD [OF web_ops(2) [OF a3]]
  obtain a' d' where s: "stopInclusionMode H a3 = Some a'" "ha_device a' = Some d'" "isInclusionModeEnabled d' = Some False"
      "\<not> inclusionModeActive a'" "appState a' = READY" "successfulInclusions a' = successfulInclusions a3"
      "connectedDevicesMap a' = connectedDevicesMap a3" "left_mode d1 d'"
    using stop_total [of a3 d1 H] w2 w3 r by (auto simp: track_device_def)
  have "hub_onPacketReceived H (Some q, RM_E_NONE) a = Some a'"
    using q r(1) a2 a3 s(1) by (simp add: hub_onPacketReceived_def Let_def)
  then show ?thesis using s w2 w3 r(7) same by (auto simp: track_device_def)
qed

text \<open>C19: A device that failed to prove itself is listed as joined. When a hub in inclusion mode hears a
  confirmation that it must refuse (because none is due or because the number in it is not the
  challenge plus one) the device operation does report an error, but the application has already been
  told of the packet as a good one: it counts a successful inclusion, lists the sender as a connected
  device, ends inclusion mode and shows the ready state.\<close>

theorem refused_confirmation_counts_as_joined:
  assumes a: "ha_device a = Some d" "ha_portal a" "inclusionModeActive a"
    and d: "networked d key" "d_type d = HUB" "d_ctl d = Some c" "onPacketReceived d" "ra_module (n_radio (d_net d))"
    and p: "p_topic p = T_INCLUDE_CONFIRM" "p_data p \<noteq> []"
    and refused: "protocolState c \<noteq> WAITING_FOR_CONFIRMATION \<or>
      (bytesToNumber (unbox (env_lib (he_env H)) key (p_data p)) :: u32) \<noteq> bytesToNumber (currentNonce c) + 1"
  shows "\<exists>rc d2 a' d'. deliver (he_env H) p d = Some (rc, d2) \<and> rc \<noteq> RM_E_NONE \<and>
    run_callbacks H (drop (length (rxCalls d)) (rxCalls d2)) (a\<lparr>ha_device := Some d2\<rparr>) = Some a' \<and>
    successfulInclusions a' = successfulInclusions a + 1 \<and> map_of (connectedDevicesMap a') (hex_id (p_source p)) \<noteq> None \<and>
    \<not> inclusionModeActive a' \<and> appState a' = READY \<and> ha_device a' = Some d' \<and> isInclusionModeEnabled d' = Some False"
proof -
  have t: "p_topic p \<notin> {T_INCLUDE_OPEN, T_INCLUDE_REQUEST, T_INCLUDE_RESPONSE}" "isInclusionMessage (p_topic p)"
    using p(1) by (simp_all add: isInclusionMessage_def)
  let ?q = "p\<lparr>p_data := unbox (env_lib (he_env H)) key (p_data p)\<rparr>"
  obtain aes where dec: "device_decrypt (he_env H) p d = Some (?q, d\<lparr>d_net := (d_net d)\<lparr>n_aes := aes\<rparr>\<rparr>)"
    using device_decrypt_AES [OF d(1) t(1), of "he_env H"] p(2) by auto
  let ?d1 = "d\<lparr>d_net := (d_net d)\<lparr>n_aes := aes\<rparr>\<rparr>"
  have "ic_type c = HUB" using d(1-3) by (auto simp: networked_def)
  then have "\<exists>rc. handleInclusionMessage (he_env H) ?q ?d1 = Some (rc, ?d1) \<and> rc \<noteq> RM_E_NONE"
    using d(3) refused p(1) by (cases "protocolState c = WAITING_FOR_CONFIRMATION") (auto simp: handleInclusionMessage_def hub_handleInclusionMessage_def)
  then obtain rc where h: "handleInclusionMessage (he_env H) ?q ?d1 = Some (rc, ?d1)" "rc \<noteq> RM_E_NONE" by blast
  let ?d2 = "notify (Some ?q) RM_E_NONE ?d1"
  have del: "deliver (he_env H) p d = Some (rc, ?d2)" using dec h t(2) by (simp add: deliver_def)
  have calls: "drop (length (rxCalls d)) (rxCalls ?d2) = [(Some ?q, RM_E_NONE)]" using d(4) by (simp add: notify_def)
  from confirm_callback [of "a\<lparr>ha_device := Some ?d2\<rparr>" ?d2 ?q H] a d p
  obtain a' d' where "hub_onPacketReceived H (Some ?q, RM_E_NONE) (a\<lparr>ha_device := Some ?d2\<rparr>) = Some a'"
      "successfulInclusions a' = successfulInclusions a + 1" "map_of (connectedDevicesMap a') (hex_id (p_source p)) \<noteq> None"
      "\<not> inclusionModeActive a'" "appState a' = READY" "ha_device a' = Some d'" "isInclusionModeEnabled d' = Some False"
    by auto
  with del h(2) calls show ?thesis by (intro exI [of _ rc] exI [of _ ?d2] exI [of _ a'] exI [of _ d']) simp
qed

section \<open>The page reads its messages\<close>

text \<open>A string literal as JSON defines it, after its opening quote, up to the closing one: the text and
  what follows. Control characters are not allowed in it; the escapes by number are left out, the hub
  does not write any.\<close>

fun json_escape :: "char \<Rightarrow> char option" where
  "json_escape c =
     (if c \<in> {CHR 0x22, CHR 0x5C, CHR ''/''} then Some c
      else if c = CHR ''b'' then Some (CHR 0x08)
      else if c = CHR ''f'' then Some (CHR 0x0C)
      else if c = CHR ''n'' then Some (CHR 0x0A)
      else if c = CHR ''r'' then Some (CHR 0x0D)
      else if c = CHR ''t'' then Some (CHR 0x09)
      else None)"

fun json_text :: "string \<Rightarrow> (string \<times> string) option" where
  "json_text [] = None"
| "json_text [c] = (if c = CHR 0x22 then Some ([], []) else None)"
| "json_text (c # e # cs) =
     (if c = CHR 0x22 then Some ([], e # cs)
      else if c = CHR 0x5C then do { x \<leftarrow> json_escape e; (t, rest) \<leftarrow> json_text cs; Some (x # t, rest) }
      else if c < CHR 0x20 then None
      else do { (t, rest) \<leftarrow> json_text (e # cs); Some (c # t, rest) })"

lemma escapeJsonString_concat: "escapeJsonString s = concat (map escape_char s)"
proof -
  have "foldl (\<lambda>escaped c. escaped @ escape_char c) t s = t @ concat (map escape_char s)" for t
    by (induction s arbitrary: t) simp_all
  from this [of "[]"] show ?thesis by (simp add: escapeJsonString_def)
qed

lemma json_text_plain:
  "xs \<noteq> [] \<Longrightarrow> json_text (c # xs) =
     (if c = CHR 0x22 then Some ([], xs)
      else if c = CHR 0x5C then do { x \<leftarrow> json_escape (hd xs); (t, rest) \<leftarrow> json_text (tl xs); Some (x # t, rest) }
      else if c < CHR 0x20 then None
      else do { (t, rest) \<leftarrow> json_text xs; Some (c # t, rest) })"
  by (cases xs) auto

lemma json_text_escape_char:
  "json_text (escape_char c @ s @ CHR 0x22 # rest) =
     (if c < CHR 0x20 \<and> c \<notin> {CHR 0x0A, CHR 0x0D, CHR 0x09} then None
      else do { (t, r) \<leftarrow> json_text (s @ CHR 0x22 # rest); Some (c # t, r) })"
  by (auto simp: escape_char_def json_text_plain less_char_def)

lemma json_text_escapeJsonString:
  "json_text (escapeJsonString s @ CHR 0x22 # rest) =
     (if list_all (\<lambda>c. c \<ge> CHR 0x20 \<or> c \<in> {CHR 0x0A, CHR 0x0D, CHR 0x09}) s then Some (s, rest) else None)"
  unfolding escapeJsonString_concat
proof (induction s)
  case Nil
  then show ?case by (cases rest) auto
next
  case (Cons c s)
  then show ?case by (auto simp: json_text_escape_char not_less)
qed

text \<open>The page reads exactly the text the hub meant, or nothing. The data of a portal message of the
  application, read by the rules of JSON, is the original text whatever quotes, backslashes, tabs and
  line ends it contains, and reading stops exactly at the end of the message; with any other control
  character in it the message is not valid JSON. The four kinds of messages do not differ in
  this.\<close>

theorem page_reads_what_was_sent:
  "json_text (serialize (StatusMessage s) @ CHR 0x22 # rest) =
     (if list_all (\<lambda>c. c \<ge> CHR 0x20 \<or> c \<in> {CHR 0x0A, CHR 0x0D, CHR 0x09}) s then Some (s, rest) else None) \<and>
   serialize (DeviceListMessage s) = serialize (StatusMessage s) \<and> serialize (LogMessage s) = serialize (StatusMessage s) \<and>
   serialize (InclusionEventMessage s) = serialize (StatusMessage s)"
  by (simp add: StatusMessage_def DeviceListMessage_def LogMessage_def InclusionEventMessage_def json_text_escapeJsonString)

section \<open>A concrete hub\<close>

definition toy_hub_env :: "(bytes storage, toy_web) hub_env" where
  "toy_hub_env = \<lparr>he_env = toy_env, he_web = toy_web_lib, he_json = \<lambda>_. ''{}''\<rparr>"

definition toy_hub_config :: "(string \<times> string, (bytes storage, toy_web) hub_app option) hub_config" where
  "toy_hub_config = \<lparr>DEVICE_NAME = ''hub'', DEVICE_ID = Id4 1 2 3 4, apParams = toy_ap_params, ADMIN_PANEL_HTML = ''<body></body>'',
     hc_wifi = toy_wifi, hc_blueprint = no_blueprint, hc_portalGarbage = hub_portal_params toy_hub_env []\<rparr>"

definition toy_hub_board :: "(bytes storage, unit, (bytes storage, toy_web) hub_app option) board" where
  "toy_hub_board = \<lparr>bo_net = toy_net, bo_store = closed_storage, bo_rng = (None, 0), bo_oled = OledDisplay, bo_wifi = WifiConnector,
     bo_ap = WifiAccessPoint, bo_portal = AsyncDevicePortal (hub_portal_params toy_hub_env [])\<rparr>"

lemma hub_builder_plan:
  "isBuilderStarted (hub_builder H C)"
  "blueprint (hub_builder H C) = no_blueprint\<lparr>hasRadio := True, hasWifiAccessPoint := True, hasDevicePortal := True, hasRxCallback := True\<rparr>"
  "b_radioParams (hub_builder H C) = HELTEC_WIFI_LORA_32_V3"
  "b_apParams (hub_builder H C) = apParams C" "b_portalParams (hub_builder H C) = hub_portal_params H (ADMIN_PANEL_HTML C)"
  "b_rxCallback (hub_builder H C)"
  by (simp_all add: hub_builder_def withDevicePortal_def withWifiAccessPoint_def withLoraRadio_def withRxPacketCallback_def
      start_def DeviceBuilder_def no_blueprint_def)

lemma hub_buildable:
  "ap_acceptable (hc_wifi C) (apParams C) \<Longrightarrow> ADMIN_PANEL_HTML C \<noteq> [] \<Longrightarrow> buildable (hc_wifi C) (hub_builder H C)"
  using presets_ok by (simp add: buildable_def hub_builder_plan no_blueprint_def portal_acceptable_def hub_portal_params_def)

lemma quiet_setup: "radioParams r = HELTEC_WIFI_LORA_32_V3 \<Longrightarrow> \<exists>r'. radio_setup_stored quiet_driver r = Some (RM_E_NONE, r')"
  using presets_ok
  by (simp add: radio_setup_stored_def radio_setup_def createModule_cases config_call_def quiet_driver_def startReceive_def tick_def)
    (simp add: HELTEC_WIFI_LORA_32_V3_def)

lemma toy_hub_ready:
  "\<exists>a rest. hub_setup toy_hub_env toy_hub_config toy_hub_board ([], []) (hub_start toy_web) = Some (a, rest) \<and> appState a = READY"
proof -
  let ?b = "hub_builder toy_hub_env toy_hub_config" and ?h = "new_device ''hub'' (Id4 1 2 3 4) HUB toy_hub_board ::
    (bytes storage, unit, (bytes storage, toy_web) hub_app option, unit) whole_device"
  obtain d where d: "initialize toy_env (wd_dev ?h) = Some (RM_E_NONE, d)"
    using toy_initialize [of "''hub''" "Id4 1 2 3 4" HUB toy_net "(None, 0)"] by (auto simp: new_device_def toy_hub_board_def)
  have bld: "buildable toy_wifi ?b"
    using hub_buildable [of toy_hub_config]
    by (simp add: toy_hub_config_def ap_acceptable_def toy_ap_params_def toy_wifi_def c_str_def)
  let ?h1 = "upd_dev (setDeviceType HUB) (?h\<lparr>wd_dev := d\<rparr>)"
  let ?h2 = "plan_portal ?b (plan_wifi ?b (plan_display ?b (?h1\<lparr>wd_dev := plan_device ?b (wd_dev ?h1)\<rparr>)))"
  have "run_stages (build_stages toy_wifi ?b) ?h1 = (True, ?h2)"
    by (rule prod_eqI) (simp_all only: run_stages_ok run_stages_plan [OF bld] bld fst_conv snd_conv)
  then have b: "build toy_env toy_wifi ''hub'' (Id4 1 2 3 4) HUB ?b toy_hub_board
      = Some (Some ?h2, ?b\<lparr>isBuilderStarted := False\<rparr>, board_of ?h2)"
    using d by (simp add: build_def hub_builder_plan(1) Let_def)
  have h2: "d_hasRadio (wd_dev ?h2)" "radioParams (n_radio (d_net (wd_dev ?h2))) = HELTEC_WIFI_LORA_32_V3" "devicePortal ?h2"
      "wifiAccessPoint ?h2" "wd_ap ?h2 = \<lparr>ap_params = toy_ap_params, ap_started = False\<rparr>"
    by (simp_all add: plan_portal_def plan_wifi_def plan_display_def upd_dev_def hub_builder_plan no_blueprint_def new_device_def
        toy_hub_board_def WifiAccessPoint_def toy_hub_config_def)
  obtain r where r: "radio_setup_stored quiet_driver (n_radio (d_net (wd_dev ?h2))) = Some (RM_E_NONE, r)"
    using quiet_setup [OF h2(2)] by blast
  obtain p1 v1 where ap: "setupAccessPoint toy_wifi (wifiAccessPoint ?h2) (wd_ap ?h2) ([], []) = (True, p1, v1)"
    using h2(4,5) by (auto simp: setupAccessPoint_def ap_setup_stored_def ap_setup_def ap_start_def ap_isStarted_def toy_ap_params_def
        toy_wifi_def c_str_def)
  let ?a1 = "(hub_start toy_web)\<lparr>ha_device := Some (wd_dev ?h2), ha_radio := d_hasRadio (wd_dev ?h2), ha_portal := devicePortal ?h2,
    ha_portalRunning := isRunning (wd_portal ?h2)\<rparr> :: (bytes storage, toy_web) hub_app"
  let ?a2 = "?a1\<lparr>ha_device := Some (upd_radio r (wd_dev ?h2))\<rparr>"
  obtain ok pt1 w1 where pt: "setupDevicePortal (hub_web toy_web_lib) (devicePortal ?h2) (wd_portal ?h2) (Some ?a2) = (ok, pt1, w1)"
    by (rule prod_cases3)
  moreover from this obtain a3 where "w1 = Some a3" using setupDevicePortal_app by blast
  moreover have ok using pt h2(3) by (auto simp: setupDevicePortal_def pt_start_def Let_def split: if_splits)
  ultimately have "initializeHardware toy_hub_env toy_hub_config toy_hub_board ([], []) (hub_start toy_web)
      = Some (True, a3\<lparr>ha_portalRunning := isRunning pt1\<rparr>, p1, pt1, v1)"
    using b r ap h2(1) by (simp add: initializeHardware_def toy_hub_env_def toy_hub_config_def toy_env_def toy_world_def Let_def)
  then show ?thesis by (simp add: hub_setup_def)
qed

theorem hub_application_states_witness:
  "\<exists>a rest a'. hub_setup toy_hub_env toy_hub_config toy_hub_board ([], []) (hub_start toy_web) = Some (a, rest) \<and>
     hub_session [HubMessage toy_hub_env 7 ''get_devices'' []] (Some a) = Some a' \<and>
     appState a' \<noteq> INITIALIZING \<and> (inclusionModeActive a' \<longleftrightarrow> appState a' = INCLUSION_MODE_ACTIVE)"
proof -
  obtain a rest where a: "hub_setup toy_hub_env toy_hub_config toy_hub_board ([], []) (hub_start toy_web) = Some (a, rest)"
      "appState a = READY" using toy_hub_ready by blast
  have "ha_portal a" using hub_setup_result(2) [OF a(1)] a(2) by auto
  then obtain a' where a': "handleGetDevices toy_hub_env a = Some a'" using messages_total(2) by blast
  have s: "hub_session [] (Some a) = Some a" "hub_session [HubMessage toy_hub_env 7 ''get_devices'' []] (Some a) = Some a'"
    using a' by (simp_all add: hub_session_def hub_handlers_def)
  from hub_application_states [OF a(1) s] show ?thesis using a(1) s(2) by blast
qed

text \<open>A hub whose storage is closed cannot send its invitation; a hub in inclusion mode that nobody has
  asked for admission hears a confirmation.\<close>

definition toy_app :: "bytes storage device \<Rightarrow> (bytes storage, toy_web) hub_app" where
  "toy_app d = (hub_start toy_web)\<lparr>ha_device := Some d, ha_radio := True, ha_portal := True, ha_portalRunning := True\<rparr>"

theorem failed_opening_locks_the_hub_witness:
  "\<exists>a1. startInclusionMode toy_hub_env ((toy_app ((toy_included HUB)\<lparr>d_store := closed_storage\<rparr>))\<lparr>appState := READY\<rparr>) = Some a1 \<and>
     (\<forall>a2. hub_session [HubMessage toy_hub_env 7 ''set_inclusion_mode'' (map byte_of_char ''enable'')] (Some a1) = Some a2 \<longrightarrow>
        appState a2 = APP_ERROR)"
proof -
  let ?d = "(toy_included HUB)\<lparr>d_store := closed_storage\<rparr>" and ?a = "(toy_app ((toy_included HUB)\<lparr>d_store := closed_storage\<rparr>))\<lparr>appState := READY\<rparr>"
  obtain c where c: "d_ctl ?d = Some c" using toy_included_ok(2) [of HUB] by (auto simp: networked_def)
  let ?d1 = "?d\<lparr>d_ctl := Some (c\<lparr>inclusionModeEnabled := True\<rparr>)\<rparr>"
  have t: "d_type ?d = HUB" using toy_included_ok(3) [of HUB] by simp
  have e: "enableInclusionMode (he_env toy_hub_env) True ?d = Some (RM_E_NONE, ?d1)"
    using t c by (simp add: enableInclusionMode_def enterInclusionMode_def)
  have "getPublicKey (he_env toy_hub_env) closed_storage = Inl RM_E_STORAGE_NOT_INIT"
    by (simp add: getPublicKey_def km_loadPrivateKey_def loadPrivateKey_def toy_hub_env_def toy_env_def eeprom_ops_def st_read_def
        closed_storage_def)
  then have "\<exists>d2. sendInclusionOpen (he_env toy_hub_env) ?d1 = Some (RM_E_STORAGE_NOT_INIT, d2) \<and> d_type d2 = HUB \<and> d_ctl d2 \<noteq> None"
    using t by (simp add: sendInclusionOpen_def ic_sendInclusionOpen_def)
  then obtain d2 where o: "sendInclusionOpen (he_env toy_hub_env) ?d1 = Some (RM_E_STORAGE_NOT_INIT, d2)" "d_type d2 = HUB" "d_ctl d2 \<noteq> None"
    by blast
  have a: "app_ok ?a" "appState ?a = READY" "ha_device ?a = Some ?d" by (simp_all add: app_ok_def toy_app_def hub_start_def)
  from failed_opening_locks_the_hub [OF a t e o(1) _ o(2,3)] show ?thesis by auto
qed

theorem refused_confirmation_counts_as_joined_witness:
  "\<exists>rc d2 a'. deliver toy_env (default_packet\<lparr>p_topic := T_INCLUDE_CONFIRM, p_data := [7], p_source := Id4 6 6 6 6\<rparr>) (toy_included HUB)
       = Some (rc, d2) \<and> rc \<noteq> RM_E_NONE \<and>
     run_callbacks toy_hub_env (drop (length (rxCalls (toy_included HUB))) (rxCalls d2))
       ((toy_app (toy_included HUB))\<lparr>inclusionModeActive := True, appState := INCLUSION_MODE_ACTIVE, ha_device := Some d2\<rparr>) = Some a' \<and>
     successfulInclusions a' = 1 \<and> map_of (connectedDevicesMap a') ''06060606'' \<noteq> None \<and> appState a' = READY"
proof -
  let ?a = "(toy_app (toy_included HUB))\<lparr>inclusionModeActive := True, appState := INCLUSION_MODE_ACTIVE\<rparr>"
  let ?p = "default_packet\<lparr>p_topic := T_INCLUDE_CONFIRM, p_data := [7], p_source := Id4 6 6 6 6\<rparr>"
  have a: "ha_device ?a = Some (toy_included HUB)" "ha_portal ?a" "inclusionModeActive ?a" by (simp_all add: toy_app_def)
  obtain c where c: "d_ctl (toy_included HUB) = Some c" "protocolState c \<noteq> WAITING_FOR_CONFIRMATION"
    by (simp add: toy_included_def fresh_controller_def)
  have m: "ra_module (n_radio (d_net (toy_included HUB)))" using toy_included_ok(1) by (auto simp: on_air_def)
  have h: "hex_id (Id4 6 6 6 6) = ''06060606''" by code_simp
  from refused_confirmation_counts_as_joined [OF a toy_included_ok(2,3) c(1) toy_included_ok(4) m, of ?p toy_hub_env] c(2) h
  show ?thesis by (simp add: toy_hub_env_def toy_app_def hub_start_def) blast
qed

end
