(* ===== verification/RM_StandardDevice.thy ===== *)
theory RM_StandardDevice
  imports RM_Builder
begin

text \<open>
  The application of a standard device: \<open>src/examples/DeviceInclusion/Standard/StandardDevice.ino\<close>,
  a sensor that joins a network and then reports a value. The global variables are the record
  \<open>std_app\<close>. The macro \<open>USE_DISPLAY\<close> is the flag \<open>se_useDisplay\<close>; with the flag the display is the
  singleton of the builder. The packet callback of this application writes log lines only. The
  factory reset in \<open>setup\<close> is compiled out. The clock has one value in an iteration of the loop.
\<close>

section \<open>State\<close>

datatype std_state = SD_INITIALIZING | SD_NOT_INCLUDED | SD_INCLUSION_PENDING | SD_INCLUDED | SD_ERROR

record ('s, 'd) std_app =
  sa_device :: "'s device option"
  sa_display :: bool
  sa_oled :: "'d oled"
  sa_state :: std_state
  sa_lastStatusUpdate :: u32
  lastSensorData :: u32
  sensorValue :: int

text \<open>What the application calls: the surroundings of the device, the display library, and the
  number that \<open>random(20, 30)\<close> gives.\<close>

record ('s, 'd) std_env =
  se_env :: "'s env"
  se_useDisplay :: bool
  se_u8g2 :: "'d u8g2_lib"
  se_random :: int

abbreviation (input) se_now :: "('s, 'd) std_env \<Rightarrow> u32" where "se_now E \<equiv> env_now (se_env E)"

abbreviation (input) SD_STATUS_UPDATE_INTERVAL :: u32 where "SD_STATUS_UPDATE_INTERVAL \<equiv> 3000"
abbreviation (input) SENSOR_DATA_INTERVAL :: u32 where "SENSOR_DATA_INTERVAL \<equiv> 10000"

section \<open>Display\<close>

definition state_lines :: "std_state \<Rightarrow> int \<Rightarrow> (byte \<times> string) list" where
  "state_lines st v =
     (case st of
        SD_INITIALIZING \<Rightarrow> [(20, ''Initializing...'')]
      | SD_NOT_INCLUDED \<Rightarrow> [(20, ''Listening for hub''), (30, ''Not connected'')]
      | SD_INCLUSION_PENDING \<Rightarrow> [(20, ''Joining network...''), (30, ''Please wait'')]
      | SD_INCLUDED \<Rightarrow> [(20, ''Connected!''), (30, ''Temp: '' @ format_d v @ ''C'')]
      | SD_ERROR \<Rightarrow> [(20, ''ERROR''), (30, ''Check config'')])"

definition draw_lines :: "'d u8g2_lib \<Rightarrow> (byte \<times> string) list \<Rightarrow> 'd oled \<Rightarrow> 'd oled" where
  "draw_lines L ls ol = foldl (\<lambda>ol (y, txt). snd (drawString L 0 y txt ol)) ol ls"

definition updateDisplay :: "('s, 'd) std_env \<Rightarrow> ('s, 'd) std_app \<Rightarrow> ('s, 'd) std_app" where
  "updateDisplay E a =
     (if \<not> sa_display a then a
      else a\<lparr>sa_oled := draw_lines (se_u8g2 E) ((0, ''RadioMesh Sensor'') # state_lines (sa_state a) (sensorValue a))
        (snd (oled_clear (se_u8g2 E) (sa_oled a)))\<rparr>)"

definition show_state :: "('s, 'd) std_env \<Rightarrow> ('s, 'd) std_app \<Rightarrow> ('s, 'd) std_app" where
  "show_state E a = (if se_useDisplay E then updateDisplay E a else a)"

section \<open>Main loop\<close>

definition updateAppState :: "('s, 'd) std_env \<Rightarrow> ('s, 'd) std_app \<Rightarrow> ('s, 'd) std_app option" where
  "updateAppState E a = do {
     d \<leftarrow> sa_device a;
     included \<leftarrow> isIncluded d;
     let newState = (if included then SD_INCLUDED else SD_NOT_INCLUDED);
     Some (if newState \<noteq> sa_state a then show_state E (a\<lparr>sa_state := newState\<rparr>) else a) }"

definition sendSensorData :: "('s, 'd) std_env \<Rightarrow> ('s, 'd) std_app \<Rightarrow> ('s, 'd) std_app option" where
  "sendSensorData E a =
     (if sa_state a \<noteq> SD_INCLUDED then Some a
      else if se_now E - lastSensorData a < SENSOR_DATA_INTERVAL then Some a
      else do {
        d \<leftarrow> sa_device a;
        (rc, d1) \<leftarrow> sendData (se_env E) 0x10 [word_of_int (se_random E)] (Id4 0xFF 0xFF 0xFF 0xFF) d;
        Some (show_state E (a\<lparr>sensorValue := se_random E, sa_device := Some d1, lastSensorData := se_now E\<rparr>)) })"

definition printStatus :: "('s, 'd) std_env \<Rightarrow> ('s, 'd) std_app \<Rightarrow> ('s, 'd) std_app" where
  "printStatus E a = (if se_now E - sa_lastStatusUpdate a < SD_STATUS_UPDATE_INTERVAL then a else a\<lparr>sa_lastStatusUpdate := se_now E\<rparr>)"

definition std_loop :: "('s, 'd) std_env \<Rightarrow> ('s, 'd) std_app \<Rightarrow> ('s, 'd) std_app option" where
  "std_loop E a =
     (case sa_device a of
        None \<Rightarrow> Some a
      | Some d \<Rightarrow> do {
          (rc, d1) \<leftarrow> run (se_env E) d;
          a1 \<leftarrow> updateAppState E (a\<lparr>sa_device := Some d1\<rparr>);
          a2 \<leftarrow> sendSensorData E a1;
          Some (printStatus E a2) })"

section \<open>Start\<close>

text \<open>The file \<open>device_info.h\<close> is not in the repository: the name, the identifier and the parameters of
  the board are given. The last two fields are what a new builder holds uninitialised.\<close>

record 'p std_config =
  sc_name :: string
  sc_id :: id4
  sc_radioParams :: lora_params
  sc_displayParams :: oled_params
  sc_blueprint :: device_blueprint
  sc_portalGarbage :: "'p portal_params"

definition std_builder :: "bool \<Rightarrow> 'p std_config \<Rightarrow> ('p, unit) builder" where
  "std_builder useDisplay C =
     (let b = withLoraRadio (sc_radioParams C) (start (DeviceBuilder (sc_blueprint C) (sc_portalGarbage C)))
      in withRxPacketCallback True (if useDisplay then withOledDisplay (sc_displayParams C) b else b))"

text \<open>The display part of the set-up, with its first two lines of text.\<close>

definition std_setup_display :: "('s, 'd) std_env \<Rightarrow> ('s, 'd, 'p, unit) whole_device \<Rightarrow> ('s, 'd) std_app \<Rightarrow> bool \<times> ('s, 'd) std_app" where
  "std_setup_display E h a =
     (if getDisplay h = NoDisplay then (False, a)
      else case oled_setup (se_u8g2 E) (wd_oled h) of
        (rc, ol) \<Rightarrow>
          if rc \<noteq> RM_E_NONE then (False, a\<lparr>sa_display := True, sa_oled := ol\<rparr>)
          else (True, a\<lparr>sa_display := True, sa_oled := draw_lines (se_u8g2 E) [(0, ''RadioMesh Sensor''), (10, ''Initializing...'')]
            (snd (oled_clear (se_u8g2 E) ol))\<rparr>))"

definition std_initializeHardware :: "('s, 'd) std_env \<Rightarrow> 'v wifi_lib \<Rightarrow> 'p std_config \<Rightarrow> ('s, 'd, 'p) board \<Rightarrow>
    ('s, 'd) std_app \<Rightarrow> (bool \<times> ('s, 'd) std_app) option" where
  "std_initializeHardware E W C bo a = do {
     (built, b, bo1) \<leftarrow> build (se_env E) W (sc_name C) (sc_id C) STANDARD (std_builder (se_useDisplay E) C) bo;
     case built of
       None \<Rightarrow> Some (False, a\<lparr>sa_device := None\<rparr>)
     | Some h \<Rightarrow>
         let a1 = a\<lparr>sa_device := Some (wd_dev h)\<rparr> in
         if \<not> d_hasRadio (wd_dev h) then Some (False, a1)
         else case (if se_useDisplay E then std_setup_display E h a1 else (True, a1)) of
           (ok, a2) \<Rightarrow>
             if \<not> ok then Some (False, a2)
             else do {
               (rc, r) \<leftarrow> radio_setup_stored (w_rl (e_world (se_env E))) (n_radio (d_net (wd_dev h)));
               Some (rc = RM_E_NONE, a2\<lparr>sa_device := Some (upd_radio r (wd_dev h))\<rparr>) } }"

definition std_setup :: "('s, 'd) std_env \<Rightarrow> 'v wifi_lib \<Rightarrow> 'p std_config \<Rightarrow> ('s, 'd, 'p) board \<Rightarrow>
    ('s, 'd) std_app \<Rightarrow> ('s, 'd) std_app option" where
  "std_setup E W C bo a = do {
     (ok, a1) \<leftarrow> std_initializeHardware E W C bo a;
     Some (if \<not> ok then a1\<lparr>sa_state := SD_ERROR\<rparr> else show_state E a1) }"

definition std_start :: "'d oled \<Rightarrow> ('s, 'd) std_app" where
  "std_start ol = \<lparr>sa_device = None, sa_display = False, sa_oled = ol, sa_state = SD_INITIALIZING, sa_lastStatusUpdate = 0,
     lastSensorData = 0, sensorValue = 0\<rparr>"

section \<open>Properties\<close>

lemma show_state_simps [simp]:
  "sa_device (show_state E a) = sa_device a" "sa_state (show_state E a) = sa_state a"
  "lastSensorData (show_state E a) = lastSensorData a" "sensorValue (show_state E a) = sensorValue a"
  by (simp_all add: show_state_def updateDisplay_def)

lemma printStatus_simps [simp]:
  "sa_device (printStatus E a) = sa_device a" "sa_state (printStatus E a) = sa_state a"
  "lastSensorData (printStatus E a) = lastSensorData a"
  by (simp_all add: printStatus_def)

text \<open>The parts of an iteration with a device.\<close>

lemma std_loop_cases:
  assumes "std_loop E a = Some a'" and "sa_device a = Some d"
  obtains d1 c where "d_ctl d1 = Some c" "\<exists>rc. run (se_env E) d = Some (rc, d1)"
    "sa_state a' = (if getState c = INCLUDED then SD_INCLUDED else SD_NOT_INCLUDED)"
    "getState c \<noteq> INCLUDED \<or> se_now E - lastSensorData a < 10000 \<Longrightarrow> sa_device a' = Some d1 \<and> lastSensorData a' = lastSensorData a"
    "getState c = INCLUDED \<Longrightarrow> 10000 \<le> se_now E - lastSensorData a \<Longrightarrow>
       lastSensorData a' = se_now E \<and> (\<exists>rc d2. sendData (se_env E) 0x10 [word_of_int (se_random E)] BROADCAST_ADDR d1 = Some (rc, d2) \<and>
         sa_device a' = Some d2)"
proof -
  obtain rc d1 a1 a2 where 1: "run (se_env E) d = Some (rc, d1)" "updateAppState E (a\<lparr>sa_device := Some d1\<rparr>) = Some a1"
      "sendSensorData E a1 = Some a2" "a' = printStatus E a2"
    using assms by (auto simp: std_loop_def bind_eq_Some_conv)
  obtain c where c: "d_ctl d1 = Some c" using 1(2) by (auto simp: updateAppState_def isIncluded_def bind_eq_Some_conv)
  have a1: "sa_device a1 = Some d1" "sa_state a1 = (if getState c = INCLUDED then SD_INCLUDED else SD_NOT_INCLUDED)"
      "lastSensorData a1 = lastSensorData a"
    using 1(2) c by (auto simp: updateAppState_def isIncluded_def split: if_splits)
  show thesis
  proof (rule that [OF c])
    show "\<exists>rc. run (se_env E) d = Some (rc, d1)" using 1(1) by blast
    show "sa_state a' = (if getState c = INCLUDED then SD_INCLUDED else SD_NOT_INCLUDED)"
      using 1(3,4) a1 by (auto simp: sendSensorData_def bind_eq_Some_conv split: if_splits)
    show "sa_device a' = Some d1 \<and> lastSensorData a' = lastSensorData a"
      if "getState c \<noteq> INCLUDED \<or> se_now E - lastSensorData a < 10000"
      using 1(3,4) a1 that by (auto simp: sendSensorData_def split: if_splits)
    show "lastSensorData a' = se_now E \<and> (\<exists>rc d2. sendData (se_env E) 0x10 [word_of_int (se_random E)] BROADCAST_ADDR d1 = Some (rc, d2) \<and>
         sa_device a' = Some d2)" if "getState c = INCLUDED" "10000 \<le> se_now E - lastSensorData a"
      using 1(3,4) a1 that by (auto simp: sendSensorData_def bind_eq_Some_conv BROADCAST_ADDR_def not_le split: if_splits)
  qed
qed

lemma std_loop_shows:
  assumes "std_loop E a = Some a'" and "sa_device a = Some d"
  shows "\<exists>d'. sa_device a' = Some d' \<and> isIncluded d' = Some (sa_state a' = SD_INCLUDED) \<and> sa_state a' \<in> {SD_INCLUDED, SD_NOT_INCLUDED}"
  using assms
proof (cases rule: std_loop_cases)
  case (1 d1 c)
  show ?thesis
  proof (cases "getState c = INCLUDED \<and> 10000 \<le> se_now E - lastSensorData a")
    case True
    then obtain rc d2 where d2: "sendData (se_env E) 0x10 [word_of_int (se_random E)] BROADCAST_ADDR d1 = Some (rc, d2)" "sa_device a' = Some d2"
      using 1(5) by blast
    have "d_ctl d2 = Some c" using send_frameD(1) [OF sendData_frame [OF d2(1)]] 1(1) by simp
    then show ?thesis using 1(3) d2(2) by (simp add: isIncluded_def)
  next
    case False
    then have "sa_device a' = Some d1" using 1(4) by (auto simp: not_le)
    then show ?thesis using 1(1,3) by (auto simp: isIncluded_def)
  qed
qed

definition std_session :: "('s, 'd) std_env list \<Rightarrow> ('s, 'd) std_app \<Rightarrow> ('s, 'd) std_app option" where
  "std_session Es a = foldl (\<lambda>x E. Option.bind x (std_loop E)) (Some a) Es"

lemma std_session_snoc: "std_session (Es @ [E]) a = Option.bind (std_session Es a) (std_loop E)"
  by (simp add: std_session_def)

lemma std_session_device:
  assumes "std_session Es a = Some a'" and "sa_device a \<noteq> None"
  shows "sa_device a' \<noteq> None"
  using assms(1)
proof (induction Es arbitrary: a' rule: rev_induct)
  case Nil
  then show ?case using assms(2) by (simp add: std_session_def)
next
  case (snoc E Es)
  then obtain b where "std_session Es a = Some b" "std_loop E b = Some a'" by (auto simp: std_session_snoc bind_eq_Some_conv)
  moreover from this snoc.IH obtain d where "sa_device b = Some d" by auto
  ultimately show ?case using std_loop_shows by fastforce
qed

text \<open>The standard device shows whether it is included, and nothing else. With a device, and whatever
  state the set-up ended in, every iteration of the main loop leaves the application in the state
  \<open>INCLUDED\<close> if the device is included and in \<open>NOT_INCLUDED\<close> if it is not. So the text ``Joining
  network'' is never shown, and the error of a radio that could not be set up is replaced by
  ``Listening for hub'' in the first iteration.\<close>

theorem standard_device_shows_inclusion:
  assumes "sa_device a \<noteq> None" and "std_session (Es @ [E]) a = Some a'"
  shows "\<exists>d'. sa_device a' = Some d' \<and> isIncluded d' = Some (sa_state a' = SD_INCLUDED) \<and> sa_state a' \<in> {SD_INCLUDED, SD_NOT_INCLUDED}"
proof -
  obtain b where b: "std_session Es a = Some b" "std_loop E b = Some a'"
    using assms(2) by (auto simp: std_session_snoc bind_eq_Some_conv)
  obtain d where "sa_device b = Some d" using std_session_device [OF b(1) assms(1)] by auto
  then show ?thesis using std_loop_shows b(2) by blast
qed

text \<open>A report is due in an iteration when the device is included after \<open>run\<close> and 10 seconds have
  passed; the times of the reports in a session.\<close>

definition report_due :: "('s, 'd) std_env \<Rightarrow> ('s, 'd) std_app \<Rightarrow> bool" where
  "report_due E a =
     (case sa_device a of None \<Rightarrow> False
      | Some d \<Rightarrow> (case run (se_env E) d of None \<Rightarrow> False
          | Some (rc, d1) \<Rightarrow> isIncluded d1 = Some True \<and> 10000 \<le> se_now E - lastSensorData a))"

fun report_times :: "('s, 'd) std_env list \<Rightarrow> ('s, 'd) std_app \<Rightarrow> u32 list" where
  "report_times [] a = []"
| "report_times (E # Es) a =
     (case std_loop E a of
        None \<Rightarrow> []
      | Some a' \<Rightarrow> (if report_due E a then [se_now E] else []) @ report_times Es a')"

lemma std_loop_reports:
  assumes "std_loop E a = Some a'"
  shows "if report_due E a
    then lastSensorData a' = se_now E \<and> 10000 \<le> se_now E - lastSensorData a \<and>
      (\<exists>d rc1 d1 rc d2. sa_device a = Some d \<and> run (se_env E) d = Some (rc1, d1) \<and> isIncluded d1 = Some True \<and> sa_device a' = Some d2 \<and>
        sendData (se_env E) 0x10 [word_of_int (se_random E)] BROADCAST_ADDR d1 = Some (rc, d2))
    else lastSensorData a' = lastSensorData a \<and> sa_device a' = Option.bind (sa_device a) (\<lambda>d. map_option snd (run (se_env E) d))"
proof (cases "sa_device a")
  case None
  then show ?thesis using assms by (simp add: report_due_def std_loop_def)
next
  case (Some d)
  from std_loop_cases [OF assms this] obtain d1 c where 1: "d_ctl d1 = Some c" "\<exists>rc. run (se_env E) d = Some (rc, d1)"
      "getState c \<noteq> INCLUDED \<or> se_now E - lastSensorData a < 10000 \<Longrightarrow> sa_device a' = Some d1 \<and> lastSensorData a' = lastSensorData a"
      "getState c = INCLUDED \<Longrightarrow> 10000 \<le> se_now E - lastSensorData a \<Longrightarrow>
       lastSensorData a' = se_now E \<and> (\<exists>rc d2. sendData (se_env E) 0x10 [word_of_int (se_random E)] BROADCAST_ADDR d1 = Some (rc, d2) \<and>
         sa_device a' = Some d2)"
    by metis
  then obtain rc where rc: "run (se_env E) d = Some (rc, d1)" by blast
  have due: "report_due E a \<longleftrightarrow> getState c = INCLUDED \<and> 10000 \<le> se_now E - lastSensorData a"
    using Some rc 1(1) by (simp add: report_due_def isIncluded_def)
  show ?thesis
  proof (cases "report_due E a")
    case True
    with due 1(4) have "lastSensorData a' = se_now E" "\<exists>rc d2. sendData (se_env E) 0x10 [word_of_int (se_random E)] BROADCAST_ADDR d1 = Some (rc, d2) \<and>
         sa_device a' = Some d2" by blast+
    then show ?thesis using True due Some rc 1(1) by (auto simp: isIncluded_def)
  next
    case False
    with due 1(3) have "sa_device a' = Some d1 \<and> lastSensorData a' = lastSensorData a" by (auto simp: not_le)
    then show ?thesis using False Some rc by simp
  qed
qed

text \<open>C26: The sensor reports are at least ten seconds apart and only sent by an included device. Over any
  session, across any number of wrap-arounds of the clock, the times at which reports go to the radio
  are each at least 10,000 ms (modulo \<open>2 ^ 32\<close>) after the one before, and the first is that long after
  the start. In an iteration in which no report is due the device does what \<open>run\<close> did and nothing else;
  in one in which it is due the included device sends exactly one message, on topic \<open>0x10\<close>, to all.\<close>

theorem sensor_reports_are_spaced:
  "successively (\<lambda>t u. 10000 \<le> u - t) (lastSensorData a # report_times Es a) \<and>
   (case std_loop E a of
      None \<Rightarrow> True
    | Some a' \<Rightarrow>
        if report_due E a
        then \<exists>d rc1 d1 rc d2. sa_device a = Some d \<and> run (se_env E) d = Some (rc1, d1) \<and> isIncluded d1 = Some True \<and>
          sa_device a' = Some d2 \<and> sendData (se_env E) 0x10 [word_of_int (se_random E)] BROADCAST_ADDR d1 = Some (rc, d2)
        else sa_device a' = Option.bind (sa_device a) (\<lambda>d. map_option snd (run (se_env E) d)))"
proof
  show "successively (\<lambda>t u. 10000 \<le> u - t) (lastSensorData a # report_times Es a)"
  proof (induction Es arbitrary: a)
    case (Cons E Es)
    show ?case
    proof (cases "std_loop E a")
      case (Some a')
      then show ?thesis using std_loop_reports [OF Some] Cons.IH [of a'] by (auto split: if_splits)
    qed simp
  qed simp
  show "case std_loop E a of
      None \<Rightarrow> True
    | Some a' \<Rightarrow>
        if report_due E a
        then \<exists>d rc1 d1 rc d2. sa_device a = Some d \<and> run (se_env E) d = Some (rc1, d1) \<and> isIncluded d1 = Some True \<and>
          sa_device a' = Some d2 \<and> sendData (se_env E) 0x10 [word_of_int (se_random E)] BROADCAST_ADDR d1 = Some (rc, d2)
        else sa_device a' = Option.bind (sa_device a) (\<lambda>d. map_option snd (run (se_env E) d))"
  proof (cases "std_loop E a")
    case (Some a')
    note r = std_loop_reports [OF Some]
    show ?thesis using r Some by (cases "report_due E a") (simp_all, blast?)
  qed simp
qed

section \<open>A concrete device\<close>

definition toy_std_env :: "unit u8g2_lib \<Rightarrow> (bytes storage, unit) std_env" where
  "toy_std_env L = \<lparr>se_env = toy_env, se_useDisplay = False, se_u8g2 = L, se_random = 25\<rparr>"

text \<open>A device whose radio could not be set up forgets it.\<close>

theorem standard_device_shows_inclusion_witness:
  "\<forall>L. \<exists>a'. std_session [toy_std_env L] ((std_start OledDisplay)\<lparr>sa_device := Some (toy_included STANDARD), sa_state := SD_ERROR\<rparr>) = Some a' \<and>
     sa_state a' = SD_INCLUDED"
proof
  fix L :: "unit u8g2_lib"
  let ?a = "(std_start OledDisplay)\<lparr>sa_device := Some (toy_included STANDARD), sa_state := SD_ERROR\<rparr> :: (bytes storage, unit) std_app"
  let ?d = "toy_included STANDARD"
  have d: "d_ctl ?d = Some (fresh_controller INCLUDED STANDARD)" "d_hasRadio ?d" "n_radio (d_net ?d) = n_radio toy_net"
    by (simp_all add: toy_included_def toy_dev_def RadioMeshDevice_def upd_es_def)
  have "checkAndClearRxFlag (n_radio toy_net) = (False, n_radio toy_net)" "checkAndClearTxFlag (n_radio toy_net) = (False, n_radio toy_net)"
    by (simp_all add: checkAndClearRxFlag_def checkAndClearTxFlag_def toy_net_def LoraRadio_def)
  then obtain d1 where r: "run toy_env ?d = Some (RM_E_NONE, d1)" "d_ctl d1 = Some (fresh_controller INCLUDED STANDARD)"
    using d by (simp add: run_def checkProtocolTimeouts_def isStateTimedOut_def fresh_controller_def run_rx_def run_tx_def upd_radio_def)
  then obtain a' where a': "std_loop (toy_std_env L) ?a = Some a'"
    by (simp add: std_loop_def toy_std_env_def updateAppState_def isIncluded_def getState_def fresh_controller_def sendSensorData_def
        std_start_def show_state_def toy_env_lib toy_world_def)
  then have s: "std_session ([] @ [toy_std_env L]) ?a = Some a'" by (simp add: std_session_def)
  have "sa_device ?a \<noteq> None" by simp
  from standard_device_shows_inclusion [OF this s] obtain d' where
      d': "sa_device a' = Some d'" "isIncluded d' = Some (sa_state a' = SD_INCLUDED)" by blast
  have "\<not> report_due (toy_std_env L) ?a"
    by (simp add: report_due_def toy_std_env_def std_start_def toy_env_lib toy_world_def split: option.split)
  then have "d' = d1" using std_loop_reports [OF a'] d'(1) r(1) by (simp add: toy_std_env_def)
  then show "\<exists>a'. std_session [toy_std_env L] ?a = Some a' \<and> sa_state a' = SD_INCLUDED"
    using s d' r(2) by (simp add: isIncluded_def getState_def fresh_controller_def)
qed

end
