(* ===== verification/RM_Field.thy ===== *)
theory RM_Field
  imports RM_MiniHub RM_StandardDevice
begin

text \<open>
  The two example applications with each other (\<open>RM_MiniHub\<close>, \<open>RM_StandardDevice\<close>): a hub with its
  page and a sensor, each running its own main loop, with nothing between them but frames. A frame is
  heard in an iteration of the loop: the interrupt of the radio comes before it, the driver hands the
  frame over in it. Between two frames a node waits: iterations in which nothing is received and ends
  of its own transmissions.
\<close>

section \<open>What handling a packet leaves alone\<close>

definition beside :: "'s device \<Rightarrow> 's device \<Rightarrow> bool" where
  "beside d d' \<longleftrightarrow> d_id d' = d_id d \<and> d_type d' = d_type d \<and> d_hasRadio d' = d_hasRadio d \<and>
     isSetup (n_radio (d_net d')) = isSetup (n_radio (d_net d)) \<and> onPacketReceived d' = onPacketReceived d \<and>
     rxCalls d' = rxCalls d"

lemma beside_refl [simp]: "beside d d"
  by (simp add: beside_def)

lemma beside_trans [trans]: "beside a b \<Longrightarrow> beside b c \<Longrightarrow> beside a c"
  by (simp add: beside_def)

lemma beside_send: "send_frame d d' \<Longrightarrow> beside d d'"
  by (simp add: beside_def send_frameD)

lemma beside_updates [simp]:
  "beside a (b\<lparr>d_ctl := x\<rparr>) = beside a b" "beside a (b\<lparr>d_store := s\<rparr>) = beside a b" "beside a (b\<lparr>d_rng := g\<rparr>) = beside a b"
  "beside a (upd_es f b) = beside a b" "beside a (b\<lparr>d_net := (d_net b)\<lparr>n_aes := aes\<rparr>\<rparr>) = beside a b"
  "beside a (snd (updateSecurityParams sp b)) = beside a b"
  by (simp_all add: beside_def updateSecurityParams_def Let_def upd_es_def)

lemma beside_response:
  assumes "ic_sendInclusionResponse env p d = Some (rc, d')"
  shows "beside d d'"
proof -
  obtain nonce g where g: "generateNonce (e_rnd env) (d_rng d) = (nonce, g)" by (metis surj_pair)
  from assms consider "d' = d"
    | nk c where "sendData env T_INCLUDE_RESPONSE (nk @ nonce) BROADCAST_ADDR
        ((upd_es (setNetworkKey nk) (upd_es (setTempDevicePublicKey (p_data p)) d))
          \<lparr>d_rng := g, d_ctl := c\<rparr>) = Some (rc, d')"
    by (auto simp: ic_sendInclusionResponse_def g Let_def bind_eq_Some_conv split: if_splits prod.splits)
  then show ?thesis
  proof cases
    case (2 nk c)
    have "beside d ((upd_es (setNetworkKey nk) (upd_es (setTempDevicePublicKey (p_data p)) d))\<lparr>d_rng := g, d_ctl := c\<rparr>)" by simp
    also note beside_send [OF sendData_frame [OF 2]]
    finally show ?thesis .
  qed simp
qed

lemma beside_after: "beside d d1 \<Longrightarrow> send_frame d1 d' \<Longrightarrow> beside d d'"
  using beside_send beside_trans by blast

lemma beside_handle:
  assumes "handleInclusionMessage env p d = Some (rc, d')"
  shows "beside d d'"
proof -
  obtain c where c: "d_ctl d = Some c" using assms by (auto simp: handleInclusionMessage_def bind_eq_Some_conv)
  from assms c consider (hub) "hub_handleInclusionMessage env p c d = Some (rc, d')" | (opn) "device_handleOpen env p c d = Some (rc, d')"
    | (response) "device_handleResponse env p c d = Some (rc, d')" | (success) "device_handleSuccess env c d = Some (rc, d')" | (none) "d' = d"
    by (auto simp: handleInclusionMessage_def split: if_splits)
  then show ?thesis
  proof cases
    case hub
    then consider "d' = d" | x where "ic_sendInclusionResponse env p (d\<lparr>d_ctl := x\<rparr>) = Some (rc, d')"
      | x where "ic_sendInclusionSuccess env (d\<lparr>d_ctl := x\<rparr>) = Some (rc, d')"
      by (auto simp: hub_handleInclusionMessage_def split: if_splits)
    then show ?thesis
    proof cases
      case (2 x)
      have "beside d (d\<lparr>d_ctl := x\<rparr>)" by simp
      also note beside_response [OF 2]
      finally show ?thesis .
    next
      case (3 x)
      have "beside d (d\<lparr>d_ctl := x\<rparr>)" by simp
      then show ?thesis using beside_after plain_sends(3) [OF 3] by blast
    qed simp
  next
    case opn
    then consider "d' = d" | e s x where "ic_sendInclusionRequest env ((upd_es e d)\<lparr>d_store := s, d_ctl := x\<rparr>) = Some (rc, d')"
      by (auto simp: device_handleOpen_def Let_def split: if_splits)
    then show ?thesis
    proof cases
      case (2 e s x)
      have "beside d ((upd_es e d)\<lparr>d_store := s, d_ctl := x\<rparr>)" by simp
      then show ?thesis using beside_after plain_sends(1) [OF 2] by blast
    qed simp
  next
    case response
    then consider "d' = d" | n s where "d' = d\<lparr>d_ctl := n, d_store := s\<rparr>"
      | k s x where "ic_sendInclusionConfirm env (upd_es k (d\<lparr>d_store := s, d_ctl := x\<rparr>)) = Some (rc, d')"
      by (auto simp: device_handleResponse_def Let_def split: if_splits prod.splits)
    then show ?thesis
    proof cases
      case (3 k s x)
      have "beside d (upd_es k (d\<lparr>d_store := s, d_ctl := x\<rparr>))" by simp
      then show ?thesis using beside_after plain_sends(2) [OF 3] by blast
    qed simp_all
  next
    case success
    then show ?thesis by (auto simp: device_handleSuccess_def Let_def split: if_splits prod.splits)
  qed simp
qed

text \<open>A packet that makes the node transmit has been shown to the application.\<close>

lemma decrypt_beside: "device_decrypt env p d = Some (q, d1) \<Longrightarrow> beside d d1 \<and> p_topic q = p_topic p \<and> p_source q = p_source p \<and>
    sent_frames d1 = sent_frames d"
  by (auto simp: device_decrypt_def bind_eq_Some_conv sent_frames_def)

lemma notify_calls: "rxCalls (notify p rc d) = (if onPacketReceived d then rxCalls d @ [(p, rc)] else rxCalls d)"
  by (simp add: notify_def)

lemma inclusion_notified:
  assumes r: "receive_packet env q d = Some (rc, d')" and sent: "sent_frames d' \<noteq> sent_frames d"
    and topic: "isInclusionMessage (p_topic q)"
  shows "\<exists>p. rxCalls d' = (if onPacketReceived d then rxCalls d @ [(Some p, RM_E_NONE)] else rxCalls d) \<and>
    p_topic p = p_topic q \<and> p_source p = p_source q"
proof -
  obtain seen n where f: "isPacketFoundInTracker q (d_net d) = Some (seen, n)" "n_radio n = n_radio (d_net d)"
    using r by (auto simp: receive_packet_def isPacketFoundInTracker_def bind_eq_Some_conv)
  have same: "sent_frames (d\<lparr>d_net := n\<rparr>) = sent_frames d" using f(2) by (simp add: sent_frames_def)
  then obtain q1 d2 where q1: "verifyAndStripReceivedPacketMIC env q (d\<lparr>d_net := n\<rparr>) = Some (Some q1)"
      "learn_route env q1 (d\<lparr>d_net := n\<rparr>) = Some d2" "deliver env q1 d2 = Some (rc, d')"
    using r f(1) sent by (auto simp: receive_packet_def Let_def bind_eq_Some_conv split: if_splits option.splits)
  have q1': "p_topic q1 = p_topic q \<and> p_source q1 = p_source q"
    using q1(1) by (auto simp: verifyAndStripReceivedPacketMIC_def Let_def bind_eq_Some_conv split: if_splits)
  have d2: "rxCalls d2 = rxCalls d" "onPacketReceived d2 = onPacketReceived d"
    using q1(2) by (auto simp: learn_route_def bind_eq_Some_conv)
  obtain p d3 rc3 d4 where p: "device_decrypt env q1 d2 = Some (p, d3)" "handleInclusionMessage env p d3 = Some (rc3, d4)"
      "d' = notify (Some p) RM_E_NONE d4"
    using q1(3) q1' topic by (auto simp: deliver_def bind_eq_Some_conv)
  have "rxCalls d4 = rxCalls d \<and> onPacketReceived d4 = onPacketReceived d"
    using decrypt_beside [OF p(1)] beside_handle [OF p(2)] d2 by (simp add: beside_def)
  then show ?thesis using p(3) q1' decrypt_beside [OF p(1)] by (intro exI [of _ p]) (simp add: notify_calls)
qed

text \<open>What stays after any packet.\<close>

definition same_node :: "'s device \<Rightarrow> 's device \<Rightarrow> bool" where
  "same_node d d' \<longleftrightarrow> d_id d' = d_id d \<and> d_type d' = d_type d \<and> d_hasRadio d' = d_hasRadio d \<and>
     isSetup (n_radio (d_net d')) = isSetup (n_radio (d_net d)) \<and> onPacketReceived d' = onPacketReceived d"

lemma same_node_refl [simp]: "same_node d d"
  by (simp add: same_node_def)

lemma same_node_trans [trans]: "same_node a b \<Longrightarrow> same_node b c \<Longrightarrow> same_node a c"
  by (simp add: same_node_def)

lemma same_node_beside: "beside d d' \<Longrightarrow> same_node d d'"
  by (simp add: beside_def same_node_def)

lemma same_node_notify [simp]: "same_node a (notify p rc b) = same_node a b"
  by (simp add: same_node_def notify_def)

lemma same_node_deliver:
  assumes "deliver env p d = Some (rc, d')"
  shows "same_node d d'"
proof (cases "isInclusionMessage (p_topic p)")
  case True
  with assms obtain q d1 rc1 d2 where 1: "device_decrypt env p d = Some (q, d1)"
      "handleInclusionMessage env q d1 = Some (rc1, d2)" "d' = notify (Some q) RM_E_NONE d2"
    by (auto simp: deliver_def bind_eq_Some_conv)
  have "beside d d2" using decrypt_beside [OF 1(1)] beside_handle [OF 1(2)] beside_trans by blast
  then show ?thesis using 1(3) same_node_beside by simp
next
  case False
  with assms obtain q d1 where 1: "device_decrypt env p d = Some (q, d1) \<or> q = p \<and> d1 = d"
      "d' = notify (Some q) RM_E_NONE d1 \<or> device_route env q (notify (Some q) RM_E_NONE d1) = Some (rc, d')"
    by (auto simp: deliver_def bind_eq_Some_conv Let_def split: if_splits)
  have "same_node d d1" using 1(1) decrypt_beside [of env p d q d1] same_node_beside [of d d1] by auto
  moreover have "same_node (notify (Some q) RM_E_NONE d1) d'"
    using 1(2) same_node_beside [OF beside_send [OF device_route_frame(1)]] by auto
  ultimately show ?thesis by (auto simp: same_node_def notify_def split: if_splits)
qed

lemma same_node_receive:
  assumes "receive_packet env p d = Some (rc, d')"
  shows "same_node d d'"
proof -
  obtain seen n where f: "isPacketFoundInTracker p (d_net d) = Some (seen, n)" "n_radio n = n_radio (d_net d)"
    using assms by (auto simp: receive_packet_def isPacketFoundInTracker_def bind_eq_Some_conv)
  have s: "same_node d (d\<lparr>d_net := n\<rparr>)" using f(2) by (simp add: same_node_def)
  from assms f(1) consider "d' = d\<lparr>d_net := n\<rparr>"
    | q d2 where "learn_route env q (d\<lparr>d_net := n\<rparr>) = Some d2" "deliver env q d2 = Some (rc, d')"
    by (auto simp: receive_packet_def bind_eq_Some_conv Let_def split: if_splits option.splits)
  then show ?thesis
  proof cases
    case (2 q d2)
    have "same_node (d\<lparr>d_net := n\<rparr>) d2"
      using 2(1) by (auto simp: learn_route_def radio_getRSSI_def same_node_def bind_eq_Some_conv)
    then show ?thesis using s same_node_deliver [OF 2(2)] same_node_trans by blast
  qed (use s in simp)
qed

section \<open>Hearing a frame\<close>

text \<open>The driver hands over this frame; the interrupts that go with it and with the end of a
  transmission.\<close>

definition with_frame :: "bytes \<Rightarrow> 's env \<Rightarrow> 's env" where
  "with_frame f env = env\<lparr>e_world := (e_world env)\<lparr>w_rl := (w_rl (e_world env))
     \<lparr>rl_getPacketLength := \<lambda>_. int (length f), rl_readData := \<lambda>_ n. (take n f, ERR_NONE)\<rparr>\<rparr>\<rparr>"

definition rx_done :: irq_flags where
  "rx_done = \<lparr>IRQ_RX_DONE = True, IRQ_TX_DONE = False, IRQ_TIMEOUT = False, IRQ_CRC_ERR = False, IRQ_HEADER_ERR = False\<rparr>"

definition tx_done :: irq_flags where
  "tx_done = \<lparr>IRQ_RX_DONE = False, IRQ_TX_DONE = True, IRQ_TIMEOUT = False, IRQ_CRC_ERR = False, IRQ_HEADER_ERR = False\<rparr>"

lemma with_frame_simps [simp]:
  "env_lib (with_frame f env) = env_lib env" "e_ops (with_frame f env) = e_ops env" "env_now (with_frame f env) = env_now env"
  "accepting (w_rl (e_world (with_frame f env))) = accepting (w_rl (e_world env))"
  "serves lib ops (with_frame f env) = serves lib ops env" "on_air (with_frame f env) d = on_air env d"
  by (simp_all add: with_frame_def accepting_def serves_def on_air_def)

text \<open>The radio of a device that runs, and a device that differs in its radio's flags and counters and
  in the log of sent packets only.\<close>

definition up :: "'s device \<Rightarrow> bool" where
  "up d \<longleftrightarrow> d_hasRadio d \<and> isSetup (n_radio (d_net d)) \<and> ra_module (n_radio (d_net d))"

definition still :: "'s device \<Rightarrow> 's device \<Rightarrow> bool" where
  "still d d' \<longleftrightarrow> (\<exists>r t. d' = (upd_radio r d)\<lparr>txCalls := t\<rparr> \<and> ra_module r = ra_module (n_radio (d_net d)) \<and>
     isSetup r = isSetup (n_radio (d_net d)) \<and> ra_sent r = ra_sent (n_radio (d_net d)))"

lemma still_refl [simp]: "still d d"
  unfolding still_def by (rule exI [of _ "n_radio (d_net d)"], rule exI [of _ "txCalls d"]) (simp add: upd_radio_def)

lemma still_trans [trans]: "still a b \<Longrightarrow> still b c \<Longrightarrow> still a c"
proof -
  assume "still a b" "still b c"
  then obtain r t r' t' where "b = (upd_radio r a)\<lparr>txCalls := t\<rparr>" "c = (upd_radio r' b)\<lparr>txCalls := t'\<rparr>"
      "ra_module r = ra_module (n_radio (d_net a))" "isSetup r = isSetup (n_radio (d_net a))" "ra_sent r = ra_sent (n_radio (d_net a))"
      "ra_module r' = ra_module (n_radio (d_net b))" "isSetup r' = isSetup (n_radio (d_net b))" "ra_sent r' = ra_sent (n_radio (d_net b))"
    unfolding still_def by blast
  then show "still a c" unfolding still_def by (intro exI [of _ r'] exI [of _ t']) (simp add: upd_radio_def)
qed

lemma stillI: "ra_module r = ra_module (n_radio (d_net d)) \<Longrightarrow> isSetup r = isSetup (n_radio (d_net d)) \<Longrightarrow>
    ra_sent r = ra_sent (n_radio (d_net d)) \<Longrightarrow> still d ((upd_radio r d)\<lparr>txCalls := t\<rparr>)"
  unfolding still_def by blast

lemma still_radio: "ra_module r = ra_module (n_radio (d_net d)) \<Longrightarrow> isSetup r = isSetup (n_radio (d_net d)) \<Longrightarrow>
    ra_sent r = ra_sent (n_radio (d_net d)) \<Longrightarrow> still d (upd_radio r d)"
  unfolding still_def by (intro exI [of _ r] exI [of _ "txCalls d"]) (simp add: upd_radio_def)

lemma stillD:
  assumes "still d d'"
  shows "d_ctl d' = d_ctl d" "d_store d' = d_store d" "d_id d' = d_id d" "d_type d' = d_type d" "rxCalls d' = rxCalls d"
    "onPacketReceived d' = onPacketReceived d" "n_es (d_net d') = n_es (d_net d)" "sent_frames d' = sent_frames d"
    "up d' = up d" "same_node d d'" "fresh q d' = fresh q d" "timely_device now d' = timely_device now d"
    "isIncluded d' = isIncluded d" "isInclusionModeEnabled d' = isInclusionModeEnabled d"
    "node_ok keeps contents priv d' = node_ok keeps contents priv d" "hub_at contents nk st d' = hub_at contents nk st d"
    "device_at ist st d' = device_at ist st d" "networked d' nk = networked d nk" "on_air env d' = on_air env d"
    "ready d' = ready d"
proof -
  obtain r t where e: "d' = (upd_radio r d)\<lparr>txCalls := t\<rparr>" and r: "ra_module r = ra_module (n_radio (d_net d))"
      "isSetup r = isSetup (n_radio (d_net d))" "ra_sent r = ra_sent (n_radio (d_net d))"
    using assms by (auto simp: still_def)
  have p: "d_ctl d' = d_ctl d" "d_store d' = d_store d" "d_id d' = d_id d" "d_type d' = d_type d" "rxCalls d' = rxCalls d"
    "onPacketReceived d' = onPacketReceived d" "d_hasRadio d' = d_hasRadio d" "d_net d' = (d_net d)\<lparr>n_radio := r\<rparr>"
    unfolding e by (simp_all add: upd_radio_def)
  show "d_ctl d' = d_ctl d" "d_store d' = d_store d" "d_id d' = d_id d" "d_type d' = d_type d" "rxCalls d' = rxCalls d"
    "onPacketReceived d' = onPacketReceived d" by (rule p)+
  show "n_es (d_net d') = n_es (d_net d)" "sent_frames d' = sent_frames d" "up d' = up d" "same_node d d'"
      "timely_device now d' = timely_device now d" "isIncluded d' = isIncluded d"
      "isInclusionModeEnabled d' = isInclusionModeEnabled d" "fresh q d' = fresh q d"
    by (simp_all add: p r sent_frames_def up_def same_node_def timely_device_def isIncluded_def isInclusionModeEnabled_def fresh_def)
  have "net_inv (d_net d') = net_inv (d_net d)" by (simp add: p r net_inv_def radio_inv_def)
  then show "ready d' = ready d" "on_air env d' = on_air env d" by (simp_all add: p r ready_def on_air_def)
  then show "node_ok keeps contents priv d' = node_ok keeps contents priv d" by (simp add: node_ok_def p)
  show "hub_at contents nk st d' = hub_at contents nk st d" "device_at ist st d' = device_at ist st d" "networked d' nk = networked d nk"
    by (simp_all add: hub_at_def device_at_def networked_def p)
qed

lemma rx_interrupt: "ra_module r \<Longrightarrow> onInterrupt rx_done r = Some (r\<lparr>rxDone := True\<rparr>)"
  by (simp add: onInterrupt_def rx_done_def)

lemma tx_interrupt: "onInterrupt tx_done r = Some r' \<Longrightarrow> r' = r\<lparr>txDone := True\<rparr>"
  by (auto simp: onInterrupt_def tx_done_def Let_def)

lemma radio_error_clear:
  assumes "ra_module r" "isSetup r"
  shows "\<exists>r'. getRadioStateError rl r = Some (RM_E_NONE, r') \<and> ra_module r' \<and> isSetup r' \<and> ra_sent r' = ra_sent r"
  using assms
  by (cases "rl_startReceive rl (ra_calls r) = ERR_NONE")
    (auto simp: getRadioStateError_def switchToReceiveMode_def startReceive_def Let_def)

lemma run_rx_hears:
  assumes "up d" and "rxDone (n_radio (d_net d))" and "fromByteBuffer f = Some q"
  shows "\<exists>d0. still d d0 \<and> run_rx (with_frame f env) d =
    do { (rc, d3) \<leftarrow> receive_packet (with_frame f env) q d0; Some (rc, if rc \<noteq> RM_E_NONE then notify None rc d3 else d3) }"
proof -
  let ?r = "(n_radio (d_net d))\<lparr>rxDone := False\<rparr>" and ?rl = "w_rl (e_world (with_frame f env))"
  obtain r1 where r1: "getRadioStateError ?rl ?r = Some (RM_E_NONE, r1)" "ra_module r1" "isSetup r1" "ra_sent r1 = ra_sent ?r"
    using radio_error_clear [of ?r ?rl] assms(1) by (auto simp: up_def)
  let ?r2 = "resetRadioState RX_TX_STATE (tick (tick r1))"
  have "readReceivedData ?rl [] r1 = Some (RM_E_NONE, f, ?r2)"
    using r1 by (simp add: readReceivedData_def with_frame_def Let_def)
  then have "handleReceivedData (with_frame f env) (upd_radio r1 (upd_radio ?r d)) = receive_packet (with_frame f env) q (upd_radio ?r2 d)"
    using assms by (simp add: handleReceivedData_def up_def upd_radio_def Let_def)
  moreover have "still d (upd_radio ?r2 d)"
    using assms(1) r1(2-4) by (intro still_radio) (simp_all add: up_def)
  ultimately show ?thesis
    using assms(1,2) r1(1) by (intro exI [of _ "upd_radio ?r2 d"]) (simp add: run_rx_def checkAndClearRxFlag_def up_def upd_radio_def Let_def)
qed

lemma run_rx_quiet:
  assumes "up d" and "\<not> rxDone (n_radio (d_net d))"
  shows "\<exists>d0. still d d0 \<and> run_rx env d = Some (RM_E_NONE, d0)"
  using assms still_radio [of "n_radio (d_net d)" d] by (simp add: run_rx_def checkAndClearRxFlag_def up_def)

lemma run_tx_still:
  assumes "up d"
  shows "\<exists>d'. run_tx env d = Some (RM_E_NONE, d') \<and> still d d'"
proof (cases "txDone (n_radio (d_net d))")
  case False
  then show ?thesis using assms still_radio [of "n_radio (d_net d)" d] by (simp add: run_tx_def checkAndClearTxFlag_def up_def)
next
  case True
  let ?r = "(n_radio (d_net d))\<lparr>txDone := False\<rparr>" and ?rl = "w_rl (e_world env)"
  obtain r1 where r1: "getRadioStateError ?rl ?r = Some (RM_E_NONE, r1)" "ra_module r1" "isSetup r1" "ra_sent r1 = ra_sent ?r"
    using radio_error_clear [of ?r ?rl] assms by (auto simp: up_def)
  obtain rc r2 where r2: "startReceive ?rl r1 = Some (rc, r2)" "ra_module r2 = ra_module r1" "isSetup r2 = isSetup r1" "ra_sent r2 = ra_sent r1"
    using r1(2,3) by (auto simp: startReceive_def Let_def)
  let ?t = "if onPacketSent d then txCalls d @ [(txPacket d, RM_E_NONE)] else txCalls d"
  have "run_tx env d = Some (RM_E_NONE, (upd_radio r2 d)\<lparr>txCalls := ?t\<rparr>)"
    using True assms r1(1) r2(1) by (simp add: run_tx_def checkAndClearTxFlag_def up_def upd_radio_def Let_def)
  moreover have "still d ((upd_radio r2 d)\<lparr>txCalls := ?t\<rparr>)"
    using assms r1 r2 by (intro stillI) (simp_all add: up_def)
  ultimately show ?thesis by blast
qed

lemma no_timeout: "timely_device (env_now env) d \<Longrightarrow> checkProtocolTimeouts env d = Some (RM_E_NONE, d)"
  by (auto simp: timely_device_def timely_iff checkProtocolTimeouts_def)

section \<open>The standard device\<close>

definition std_frame :: "bytes \<Rightarrow> ('s, 'd) std_env \<Rightarrow> ('s, 'd) std_env" where
  "std_frame f E = E\<lparr>se_env := with_frame f (se_env E)\<rparr>"

text \<open>Waiting: iterations of the loop in which nothing is received and no time-out expires, and the ends
  of transmissions.\<close>

inductive std_waits :: "('s, 'd) std_app \<Rightarrow> ('s, 'd) std_app \<Rightarrow> bool" for a where
  now: "std_waits a a"
| pass: "std_waits a b \<Longrightarrow> sa_device b = Some d \<Longrightarrow> \<not> rxDone (n_radio (d_net d)) \<Longrightarrow> timely_device (se_now E) d \<Longrightarrow>
    std_loop E b = Some c \<Longrightarrow> std_waits a c"
| sent: "std_waits a b \<Longrightarrow> sa_device b = Some d \<Longrightarrow> onInterrupt tx_done (n_radio (d_net d)) = Some r \<Longrightarrow>
    std_waits a (b\<lparr>sa_device := Some (upd_radio r d)\<rparr>)"

text \<open>After any such wait a frame arrives that the tracker does not take for a duplicate, before a time-out
  expires: the next iteration of the loop returns, with a result that satisfies \<open>P\<close>.\<close>

definition std_hears :: "('s, 'd) std_env \<Rightarrow> bytes \<Rightarrow> ('s, 'd) std_app \<Rightarrow> (('s, 'd) std_app \<Rightarrow> bool) \<Rightarrow> bool" where
  "std_hears E f a P \<longleftrightarrow> (\<exists>q. fromByteBuffer f = Some q \<and>
     (\<forall>b d. std_waits a b \<longrightarrow> sa_device b = Some d \<longrightarrow> fresh q d \<longrightarrow> timely_device (se_now E) d \<longrightarrow>
        (\<exists>r c. onInterrupt rx_done (n_radio (d_net d)) = Some r \<and>
           std_loop (std_frame f E) (b\<lparr>sa_device := Some (upd_radio r d)\<rparr>) = Some c \<and> P c)))"

lemma run_quiet:
  assumes "up d" "\<not> rxDone (n_radio (d_net d))" "timely_device (env_now env) d"
  shows "\<exists>d'. run env d = Some (RM_E_NONE, d') \<and> still d d'"
proof -
  obtain d0 where d0: "run_rx env d = Some (RM_E_NONE, d0)" "still d d0" using run_rx_quiet [OF assms(1,2)] by blast
  obtain d' where d': "run_tx env d0 = Some (RM_E_NONE, d')" "still d0 d'"
    using run_tx_still [of d0 env] stillD(9) [OF d0(2)] assms(1) by auto
  have "run env d = Some (RM_E_NONE, d')" using d0(1) d'(1) no_timeout [OF assms(3)] by (simp add: run_def)
  then show ?thesis using still_trans [OF d0(2) d'(2)] by blast
qed

lemma tx_still: "onInterrupt tx_done (n_radio (d_net d)) = Some r \<Longrightarrow> still d (upd_radio r d)"
  using tx_interrupt [of "n_radio (d_net d)" r] by (intro still_radio) simp_all

lemma std_waits_still:
  assumes "std_waits a b" and "sa_device a = Some d" "up d" "isIncluded d = Some False"
  shows "\<exists>d'. sa_device b = Some d' \<and> still d d'"
  using assms(1)
proof (induction rule: std_waits.induct)
  case now
  show ?case using assms(2) by simp
next
  case (pass b d1 E c)
  then have st: "still d d1" by simp
  obtain d2 where d2: "run (se_env E) d1 = Some (RM_E_NONE, d2)" "still d1 d2"
    using run_quiet [of d1 "se_env E"] stillD(9) [OF st] assms(3) pass.hyps(3,4) by auto
  have "isIncluded d2 = Some False" using stillD(13) [OF d2(2)] stillD(13) [OF st] assms(4) by simp
  from std_loop_cases [OF pass.hyps(5,2)] obtain d3 ctl where r: "d_ctl d3 = Some ctl" "\<exists>rc. run (se_env E) d1 = Some (rc, d3)"
      "getState ctl \<noteq> INCLUDED \<Longrightarrow> sa_device c = Some d3" by metis
  then have "d3 = d2" using d2(1) by simp
  with r \<open>isIncluded d2 = Some False\<close> have "sa_device c = Some d2" by (simp add: isIncluded_def)
  then show ?case using still_trans [OF st d2(2)] by simp
next
  case (sent b d1 r)
  then show ?case using still_trans [OF _ tx_still] by simp
qed

lemma std_loop_hears:
  fixes a :: "('s, 'd) std_app"
  assumes a: "sa_device a = Some d" and d: "up d" "rxDone (n_radio (d_net d))" "timely_device (se_now E) d"
    and q: "fromByteBuffer f = Some q"
    and r: "\<And>d0. still d d0 \<Longrightarrow> \<exists>d1. receive_packet (with_frame f (se_env E)) q d0 = Some (RM_E_NONE, d1) \<and> P d1"
    and stable: "\<And>d1 d2. P d1 \<Longrightarrow> still d1 d2 \<Longrightarrow> P d2" and ctl: "\<And>d1. P d1 \<Longrightarrow> ready d1 \<and> d_ctl d1 \<noteq> None"
    and report: "\<And>d1. P d1 \<Longrightarrow> up d1 \<Longrightarrow> isIncluded d1 = Some True \<Longrightarrow>
      \<exists>rc d2. sendData (with_frame f (se_env E)) 0x10 [word_of_int (se_random E)] BROADCAST_ADDR d1 = Some (rc, d2) \<and> P d2 \<and> d_ctl d2 = d_ctl d1"
  shows "\<exists>c d'. std_loop (std_frame f E) a = Some c \<and> sa_device c = Some d' \<and> P d' \<and>
    isIncluded d' = Some (sa_state c = SD_INCLUDED)"
proof -
  let ?env = "with_frame f (se_env E)"
  obtain d0 where d0: "still d d0" "run_rx ?env d =
    do { (rc, d3) \<leftarrow> receive_packet ?env q d0; Some (rc, if rc \<noteq> RM_E_NONE then notify None rc d3 else d3) }"
    using run_rx_hears [OF d(1,2) q] by blast
  obtain d1 where d1: "receive_packet ?env q d0 = Some (RM_E_NONE, d1)" "P d1" using r [OF d0(1)] by blast
  have "up d1" using same_node_receive [OF d1(1)] stillD(9) [OF d0(1)] d(1) ctl [OF d1(2)] by (simp add: same_node_def up_def ready_def)
  then obtain d2 where d2: "run_tx ?env d1 = Some (RM_E_NONE, d2)" "still d1 d2" using run_tx_still by blast
  have run: "run ?env d = Some (RM_E_NONE, d2)" using d0(2) d1(1) d2(1) no_timeout [of ?env d] d(3) by (simp add: run_def)
  have P2: "P d2" "up d2" using stable [OF d1(2) d2(2)] stillD(9) [OF d2(2)] \<open>up d1\<close> by simp_all
  obtain ctl where c: "d_ctl d2 = Some ctl" using ctl [OF P2(1)] by auto
  let ?E = "std_frame f E"
  have E: "se_env ?E = ?env" "se_random ?E = se_random E" by (simp_all add: std_frame_def)
  obtain a1 where a1: "updateAppState ?E (a\<lparr>sa_device := Some d2\<rparr>) = Some a1" "sa_device a1 = Some d2"
      "sa_state a1 = (if getState ctl = INCLUDED then SD_INCLUDED else SD_NOT_INCLUDED)"
    using c by (auto simp: updateAppState_def isIncluded_def Let_def)
  have "\<exists>a2 d'. sendSensorData ?E a1 = Some a2 \<and> sa_device a2 = Some d' \<and> P d' \<and> d_ctl d' = d_ctl d2 \<and> sa_state a2 = sa_state a1"
  proof (cases "sa_state a1 \<noteq> SD_INCLUDED \<or> se_now ?E - lastSensorData a1 < 10000")
    case True
    then show ?thesis using a1(2) P2(1) by (auto simp: sendSensorData_def)
  next
    case False
    then have "isIncluded d2 = Some True" using a1(3) c by (auto simp: isIncluded_def split: if_splits)
    from report [OF P2 this] obtain rc d' where
        "sendData ?env 0x10 [word_of_int (se_random E)] BROADCAST_ADDR d2 = Some (rc, d')" "P d'" "d_ctl d' = d_ctl d2" by blast
    then show ?thesis using False a1(2) E by (simp add: sendSensorData_def BROADCAST_ADDR_def)
  qed
  then obtain a2 d' where a2: "sendSensorData ?E a1 = Some a2" "sa_device a2 = Some d'" "P d'" "d_ctl d' = d_ctl d2" "sa_state a2 = sa_state a1"
    by blast
  have "std_loop ?E a = Some (printStatus ?E a2)" using a run a1(1) a2(1) E by (simp add: std_loop_def)
  then show ?thesis using a2 a1(3) c by (auto simp: isIncluded_def)
qed

lemma std_hearsI:
  fixes a :: "('s, 'd) std_app"
  assumes a: "sa_device a = Some d" "up d" "isIncluded d = Some False"
    and r: "\<And>d0. still d d0 \<Longrightarrow> fresh q d0 \<Longrightarrow> \<exists>d1. receive_packet (with_frame (toByteBuffer q) (se_env E)) q d0 = Some (RM_E_NONE, d1) \<and> P d1"
    and stable: "\<And>d1 d2. P d1 \<Longrightarrow> still d1 d2 \<Longrightarrow> P d2" and ctl: "\<And>d1. P d1 \<Longrightarrow> ready d1 \<and> d_ctl d1 \<noteq> None"
    and report: "\<And>d1. P d1 \<Longrightarrow> up d1 \<Longrightarrow> isIncluded d1 = Some True \<Longrightarrow>
      \<exists>rc d2. sendData (with_frame (toByteBuffer q) (se_env E)) 0x10 [word_of_int (se_random E)] BROADCAST_ADDR d1 = Some (rc, d2) \<and>
        P d2 \<and> d_ctl d2 = d_ctl d1"
    and Q: "\<And>c d'. sa_device c = Some d' \<Longrightarrow> P d' \<Longrightarrow> same_node d d' \<Longrightarrow> isIncluded d' = Some (sa_state c = SD_INCLUDED) \<Longrightarrow> Q c"
  shows "std_hears E (toByteBuffer q) a Q"
proof -
  have q: "fromByteBuffer (toByteBuffer q) = Some q" by (simp add: wire.dec_iff)
  have "\<exists>r c. onInterrupt rx_done (n_radio (d_net d1)) = Some r \<and>
      std_loop (std_frame (toByteBuffer q) E) (b\<lparr>sa_device := Some (upd_radio r d1)\<rparr>) = Some c \<and> Q c"
    if b: "std_waits a b" "sa_device b = Some d1" and fr: "fresh q d1" and t: "timely_device (se_now E) d1" for b d1
  proof -
  have st: "still d d1" using std_waits_still [OF b(1) a(1-3)] b(2) by simp
  let ?r = "(n_radio (d_net d1))\<lparr>rxDone := True\<rparr>"
  let ?d = "upd_radio ?r d1"
  have u: "up d1" using stillD(9) [OF st] a(2) by simp
  have irq: "onInterrupt rx_done (n_radio (d_net d1)) = Some ?r" using u rx_interrupt by (simp add: up_def)
  have sd: "still d1 ?d" by (rule still_radio) simp_all
  let ?P = "\<lambda>d'. P d' \<and> same_node d d'"
  have "\<exists>c d'. std_loop (std_frame (toByteBuffer q) E) (b\<lparr>sa_device := Some ?d\<rparr>) = Some c \<and> sa_device c = Some d' \<and> ?P d' \<and>
    isIncluded d' = Some (sa_state c = SD_INCLUDED)"
  proof (rule std_loop_hears [where d = ?d])
    show "up ?d" "timely_device (se_now E) ?d" using stillD(9,12) [OF sd] u t by simp_all
    show "rxDone (n_radio (d_net ?d))" by (simp add: upd_radio_def)
    show "\<exists>d2. receive_packet (with_frame (toByteBuffer q) (se_env E)) q d0 = Some (RM_E_NONE, d2) \<and> ?P d2" if "still ?d d0" for d0
    proof -
      have s0: "still d d0" using still_trans [OF still_trans [OF st sd] that] .
      moreover have "fresh q d0" using stillD(11) [OF sd] stillD(11) [OF that] fr by simp
      ultimately obtain d2 where d2: "receive_packet (with_frame (toByteBuffer q) (se_env E)) q d0 = Some (RM_E_NONE, d2)" "P d2"
        using r by blast
      then show ?thesis using same_node_trans [OF stillD(10) [OF s0] same_node_receive [OF d2(1)]] by blast
    qed
    show "?P d2" if "?P d'" "still d' d2" for d' d2 using that stable stillD(10) same_node_trans by blast
    show "\<exists>rc d2. sendData (with_frame (toByteBuffer q) (se_env E)) 0x10 [word_of_int (se_random E)] BROADCAST_ADDR d' = Some (rc, d2) \<and>
        ?P d2 \<and> d_ctl d2 = d_ctl d'" if "?P d'" "up d'" "isIncluded d' = Some True" for d'
      using report [of d'] that same_node_trans same_node_beside [OF beside_send [OF sendData_frame]] by blast
  qed (use q ctl in simp_all)
  then show ?thesis using irq Q by blast
  qed
  then show ?thesis unfolding std_hears_def using q by blast
qed

section \<open>The hub\<close>

definition hub_frame :: "bytes \<Rightarrow> ('s, 'w) hub_env \<Rightarrow> ('s, 'w) hub_env" where
  "hub_frame f H = H\<lparr>he_env := with_frame f (he_env H)\<rparr>"

text \<open>The hub waits like the device; its clients may ask for the state and for the list meanwhile.\<close>

inductive hub_waits :: "('s, 'w) hub_app \<Rightarrow> ('s, 'w) hub_app \<Rightarrow> bool" for a where
  now: "hub_waits a a"
| pass: "hub_waits a b \<Longrightarrow> ha_device b = Some d \<Longrightarrow> \<not> rxDone (n_radio (d_net d)) \<Longrightarrow> timely_device (he_now H) d \<Longrightarrow>
    hub_loop H b = Some c \<Longrightarrow> hub_waits a c"
| sent: "hub_waits a b \<Longrightarrow> ha_device b = Some d \<Longrightarrow> onInterrupt tx_done (n_radio (d_net d)) = Some r \<Longrightarrow>
    hub_waits a (b\<lparr>ha_device := Some (upd_radio r d)\<rparr>)"
| asked: "hub_waits a b \<Longrightarrow> t \<noteq> ''set_inclusion_mode'' \<Longrightarrow> hub_event_step (HubMessage H client t bs) (Some b) = Some c \<Longrightarrow>
    hub_waits a c"

definition hub_hears :: "('s, 'w) hub_env \<Rightarrow> bytes \<Rightarrow> ('s, 'w) hub_app \<Rightarrow> (('s, 'w) hub_app \<Rightarrow> bool) \<Rightarrow> bool" where
  "hub_hears H f a P \<longleftrightarrow> (\<exists>q. fromByteBuffer f = Some q \<and>
     (\<forall>b d. hub_waits a b \<longrightarrow> ha_device b = Some d \<longrightarrow> fresh q d \<longrightarrow> timely_device (he_now H) d \<longrightarrow>
        (\<exists>r c. onInterrupt rx_done (n_radio (d_net d)) = Some r \<and>
           hub_loop (hub_frame f H) (b\<lparr>ha_device := Some (upd_radio r d)\<rparr>) = Some c \<and> P c)))"

definition hub_same :: "('s, 'w) hub_app \<Rightarrow> ('s, 'w) hub_app \<Rightarrow> bool" where
  "hub_same a b \<longleftrightarrow> appState b = appState a \<and> inclusionModeActive b = inclusionModeActive a \<and>
     totalInclusionRequests b = totalInclusionRequests a \<and> successfulInclusions b = successfulInclusions a \<and>
     connectedDevicesMap b = connectedDevicesMap a \<and> ha_portal b = ha_portal a"

lemma hub_same_refl [simp]: "hub_same a a"
  by (simp add: hub_same_def)

lemma hub_same_trans [trans]: "hub_same a b \<Longrightarrow> hub_same b c \<Longrightarrow> hub_same a c"
  by (simp add: hub_same_def)

lemma hub_same_updates [simp]:
  "hub_same a (b\<lparr>ha_device := x\<rparr>) = hub_same a b" "hub_same a (b\<lparr>lastStatusUpdate := t\<rparr>) = hub_same a b"
  "hub_same (a\<lparr>ha_device := x\<rparr>) b = hub_same a b"
  by (simp_all add: hub_same_def)

lemma web_only_same: "web_only a b \<Longrightarrow> hub_same a b \<and> ha_device b = ha_device a"
  by (auto simp: hub_same_def dest: web_onlyD)

text \<open>The state of the page is that of the device.\<close>

definition in_step :: "('s, 'w) hub_app \<Rightarrow> 's device \<Rightarrow> bool" where
  "in_step a d \<longleftrightarrow> (appState a = INCLUSION_MODE_ACTIVE \<longrightarrow> isInclusionModeEnabled d = Some True)"

lemma hub_loop_after:
  assumes run: "hub_run H a = Some (rc, a1)" and a: "ha_device a \<noteq> None" and d: "ha_device a1 = Some d" "d_ctl d \<noteq> None" "in_step a1 d"
  shows "\<exists>c. hub_loop H a = Some c \<and> ha_device c = Some d \<and> hub_same a1 c"
proof -
  obtain ctl where ctl: "d_ctl d = Some ctl" using d(2) by auto
  have "sync_mode a1 = Some a1" using d ctl by (auto simp: sync_mode_def in_step_def isInclusionModeEnabled_def)
  moreover obtain b where b: "push_status H a1 = Some b" using status_total(2) [OF d(1,2)] by blast
  ultimately show ?thesis using run a d(1) web_only_same [OF push_status_web [OF b]] by (auto simp: hub_loop_def)
qed

lemma hub_run_quiet:
  assumes "ha_device a = Some d" "up d" "\<not> rxDone (n_radio (d_net d))" "timely_device (he_now H) d"
  shows "\<exists>d'. hub_run H a = Some (RM_E_NONE, a\<lparr>ha_device := Some d'\<rparr>) \<and> still d d'"
proof -
  obtain d0 where d0: "run_rx (he_env H) d = Some (RM_E_NONE, d0)" "still d d0" using run_rx_quiet [OF assms(2,3)] by blast
  obtain d' where d': "run_tx (he_env H) d0 = Some (RM_E_NONE, d')" "still d0 d'"
    using run_tx_still [of d0 "he_env H"] stillD(9) [OF d0(2)] assms(2) by auto
  have "hub_run H a = Some (RM_E_NONE, a\<lparr>ha_device := Some d'\<rparr>)"
    using assms(1) d0 d' no_timeout [OF assms(4)] stillD(5) [OF d0(2)] by (simp add: hub_run_def)
  then show ?thesis using still_trans [OF d0(2) d'(2)] by blast
qed

lemma query_same: "t \<noteq> ''set_inclusion_mode'' \<Longrightarrow> hub_event_step (HubMessage H client t bs) (Some b) = Some c \<Longrightarrow>
    hub_same b c \<and> ha_device c = ha_device b"
proof -
  assume t: "t \<noteq> ''set_inclusion_mode''" and e: "hub_event_step (HubMessage H client t bs) (Some b) = Some c"
  have "web_only b c"
  proof (cases "t = ''get_status'' \<or> t = ''get_devices''")
    case True
    then show ?thesis
    proof
      assume "t = ''get_status''"
      then have "handleGetStatus H b = Some c" using e by (simp add: hub_handlers_def)
      then show ?thesis by (rule web_ops(1))
    next
      assume "t = ''get_devices''"
      then have "handleGetDevices H b = Some c" using e by (simp add: hub_handlers_def)
      then show ?thesis by (rule web_ops(2))
    qed
  next
    case False
    then have "''get_status'' \<noteq> t" "''get_devices'' \<noteq> t" "''set_inclusion_mode'' \<noteq> t" using t by metis+
    then have "c = b" using e by (simp add: hub_handlers_def)
    then show ?thesis by simp
  qed
  then show "hub_same b c \<and> ha_device c = ha_device b" by (rule web_only_same)
qed

lemma hub_waits_still:
  assumes "hub_waits a b" and "ha_device a = Some d" "up d" "d_ctl d \<noteq> None" "in_step a d"
  shows "\<exists>d'. ha_device b = Some d' \<and> still d d' \<and> hub_same a b"
  using assms(1)
proof (induction rule: hub_waits.induct)
  case now
  show ?case using assms(2) by simp
next
  case (pass b d1 H c)
  then have st: "still d d1" and same: "hub_same a b" by simp_all
  obtain d2 where d2: "hub_run H b = Some (RM_E_NONE, b\<lparr>ha_device := Some d2\<rparr>)" "still d1 d2"
    using hub_run_quiet [OF pass.hyps(2)] stillD(9) [OF st] assms(3) pass.hyps(3,4) by auto
  have s2: "still d d2" by (rule still_trans [OF st d2(2)])
  have "d_ctl d2 \<noteq> None" "in_step (b\<lparr>ha_device := Some d2\<rparr>) d2"
    using assms(4,5) same stillD(1,14) [OF s2] by (simp_all add: in_step_def hub_same_def)
  then obtain c' where "hub_loop H b = Some c'" "ha_device c' = Some d2" "hub_same (b\<lparr>ha_device := Some d2\<rparr>) c'"
    using hub_loop_after [OF d2(1)] pass.hyps(2) by auto
  then show ?case using s2 hub_same_trans [OF same] pass.hyps(5) by simp
next
  case (sent b d1 r)
  then have "still d d1" "hub_same a b" by simp_all
  then show ?case using still_trans [OF _ tx_still [OF sent.hyps(3)]] by simp
next
  case (asked b t H client bs c)
  then obtain d' where "ha_device b = Some d'" "still d d'" "hub_same a b" by blast
  then show ?case using query_same [OF asked.hyps(2,3)] hub_same_trans [of a b c] by simp
qed

lemma hub_loop_hears:
  assumes a: "ha_device a = Some d" and d: "up d" "rxDone (n_radio (d_net d))" "timely_device (he_now H) d"
    and q: "fromByteBuffer f = Some q"
    and r: "\<And>d0. still d d0 \<Longrightarrow> \<exists>d1 calls a1 d2. receive_packet (with_frame f (he_env H)) q d0 = Some (RM_E_NONE, d1) \<and>
      rxCalls d1 = rxCalls d0 @ calls \<and> run_callbacks (hub_frame f H) calls (a\<lparr>ha_device := Some d1\<rparr>) = Some a1 \<and>
      ha_device a1 = Some d2 \<and> up d2 \<and> d_ctl d2 \<noteq> None \<and> in_step a1 d2 \<and> P a1 d2"
  shows "\<exists>c a1 d2 d3. hub_loop (hub_frame f H) a = Some c \<and> ha_device c = Some d3 \<and> still d2 d3 \<and> hub_same a1 c \<and> P a1 d2"
proof -
  let ?env = "with_frame f (he_env H)" and ?H = "hub_frame f H"
  have E: "he_env ?H = ?env" by (simp add: hub_frame_def)
  obtain d0 where d0: "still d d0" "run_rx ?env d =
    do { (rc, d3) \<leftarrow> receive_packet ?env q d0; Some (rc, if rc \<noteq> RM_E_NONE then notify None rc d3 else d3) }"
    using run_rx_hears [OF d(1,2) q] by blast
  obtain d1 calls a1 d2 where 1: "receive_packet ?env q d0 = Some (RM_E_NONE, d1)" "rxCalls d1 = rxCalls d0 @ calls"
      "run_callbacks ?H calls (a\<lparr>ha_device := Some d1\<rparr>) = Some a1" "ha_device a1 = Some d2" "up d2" "d_ctl d2 \<noteq> None"
      "in_step a1 d2" "P a1 d2"
    using r [OF d0(1)] by blast
  obtain d3 where d3: "run_tx ?env d2 = Some (RM_E_NONE, d3)" "still d2 d3" using run_tx_still [OF 1(5)] by blast
  have "hub_run ?H a = Some (RM_E_NONE, a1\<lparr>ha_device := Some d3\<rparr>)"
    using a d0(2) 1(1-4) d3(1) no_timeout [of ?env d] d(3) stillD(5) [OF d0(1)] E by (simp add: hub_run_def)
  then obtain c where "hub_loop ?H a = Some c" "ha_device c = Some d3" "hub_same (a1\<lparr>ha_device := Some d3\<rparr>) c"
    using hub_loop_after [of ?H a RM_E_NONE "a1\<lparr>ha_device := Some d3\<rparr>" d3] a 1(6,7) stillD(1,14) [OF d3(2)] by (auto simp: in_step_def)
  then show ?thesis using d3(2) 1(8) by auto
qed

lemma hub_hearsI:
  assumes a: "ha_device a = Some d" "up d" "d_ctl d \<noteq> None" "in_step a d"
    and r: "\<And>b d0. still d d0 \<Longrightarrow> fresh q d0 \<Longrightarrow> hub_same a b \<Longrightarrow> \<exists>d1 calls a1 d2.
      receive_packet (with_frame (toByteBuffer q) (he_env H)) q d0 = Some (RM_E_NONE, d1) \<and> rxCalls d1 = rxCalls d0 @ calls \<and>
      run_callbacks (hub_frame (toByteBuffer q) H) calls (b\<lparr>ha_device := Some d1\<rparr>) = Some a1 \<and>
      ha_device a1 = Some d2 \<and> up d2 \<and> d_ctl d2 \<noteq> None \<and> in_step a1 d2 \<and> P a1 d2"
    and Q: "\<And>c a1 d2 d3. P a1 d2 \<Longrightarrow> ha_device c = Some d3 \<Longrightarrow> still d2 d3 \<Longrightarrow> hub_same a1 c \<Longrightarrow> Q c"
  shows "hub_hears H (toByteBuffer q) a Q"
proof -
  let ?f = "toByteBuffer q"
  have q: "fromByteBuffer ?f = Some q" by (simp add: wire.dec_iff)
  have "\<exists>r c. onInterrupt rx_done (n_radio (d_net d1)) = Some r \<and> hub_loop (hub_frame ?f H) (b\<lparr>ha_device := Some (upd_radio r d1)\<rparr>) = Some c \<and> Q c"
    if b: "hub_waits a b" "ha_device b = Some d1" and fr: "fresh q d1" and t: "timely_device (he_now H) d1" for b d1
  proof -
    have st: "still d d1" "hub_same a b" using hub_waits_still [OF b(1) a] b(2) by simp_all
    let ?r = "(n_radio (d_net d1))\<lparr>rxDone := True\<rparr>"
    let ?d = "upd_radio ?r d1"
    have u: "up d1" using stillD(9) [OF st(1)] a(2) by simp
    have irq: "onInterrupt rx_done (n_radio (d_net d1)) = Some ?r" using u rx_interrupt by (simp add: up_def)
    have sd: "still d1 ?d" by (rule still_radio) simp_all
    have "\<exists>c a1 d2 d3. hub_loop (hub_frame ?f H) (b\<lparr>ha_device := Some ?d\<rparr>) = Some c \<and> ha_device c = Some d3 \<and> still d2 d3 \<and>
        hub_same a1 c \<and> P a1 d2"
    proof (rule hub_loop_hears [where d = ?d, OF _ _ _ _ q])
      show "up ?d" "timely_device (he_now H) ?d" using stillD(9,12) [OF sd] u t by simp_all
      show "rxDone (n_radio (d_net ?d))" by (simp add: upd_radio_def)
      show "\<exists>d1 calls a1 d2. receive_packet (with_frame ?f (he_env H)) q d0 = Some (RM_E_NONE, d1) \<and>
          rxCalls d1 = rxCalls d0 @ calls \<and> run_callbacks (hub_frame ?f H) calls (b\<lparr>ha_device := Some ?d, ha_device := Some d1\<rparr>) = Some a1 \<and>
          ha_device a1 = Some d2 \<and> up d2 \<and> d_ctl d2 \<noteq> None \<and> in_step a1 d2 \<and> P a1 d2" if "still ?d d0" for d0
        using r [OF still_trans [OF still_trans [OF st(1) sd] that] _ st(2)] stillD(11) [OF sd] stillD(11) [OF that] fr by simp
    qed simp
    then show ?thesis using irq Q by blast
  qed
  then show ?thesis unfolding hub_hears_def using q by blast
qed

end
