(* ===== verification/RM_Network.thy ===== *)
theory RM_Network
  imports RM_Field
begin

text \<open>
  The network of the two examples: what each step of the inclusion protocol does to the standard device
  and to the hub when it is a frame that \<open>RM_Field\<close> lets them hear, the whole inclusion from the click on
  the page to the device that sends reports, and the way of a report to the hub's table.
\<close>

section \<open>The steps of the device\<close>

lemma still_emits: "still d' d2 \<Longrightarrow> emits d d' f = emits d d2 f"
  by (simp add: emits_def stillD)

lemma still_emits_from: "still d d0 \<Longrightarrow> emits d0 d' f = emits d d' f"
  by (simp add: emits_def stillD)

lemma up_again: "same_node d d' \<Longrightarrow> up d \<Longrightarrow> ready d' \<Longrightarrow> up d'"
  by (simp add: same_node_def up_def ready_def)

lemma device_at_not_included: "device_at ist st d \<Longrightarrow> ist \<noteq> INCLUDED \<Longrightarrow> isIncluded d = Some False"
  by (auto simp: device_at_def isIncluded_def getState_def)

lemma device_at_ctl: "device_at ist st d \<Longrightarrow> d_ctl d \<noteq> None"
  by (auto simp: device_at_def)

lemma node_ok_ready: "node_ok keeps contents priv d \<Longrightarrow> ready d"
  by (simp add: node_ok_def)

lemma still_awaits:
  assumes "still d d'"
  shows "awaits_response keeps contents priv hub d' = awaits_response keeps contents priv hub d"
    "awaits_confirmation keeps contents priv nk nonce d' = awaits_confirmation keeps contents priv nk nonce d"
    "awaits_success keeps contents priv nk d' = awaits_success keeps contents priv nk d"
  using stillD [OF assms] by (simp_all add: awaits_response_def awaits_confirmation_def awaits_success_def)

lemma std_invited:
  assumes env: "serves lib (eeprom_ops L) (se_env E)" "lib_laws lib" and s: "sa_device s = Some d" "up d"
    and d: "node_ok (eeprom_inv L ol) (eeprom_contents L) priv d" "device_at NOT_INCLUDED PROTOCOL_IDLE d" "keypair_of lib priv pub"
    and q: "clear q" "p_topic q = T_INCLUDE_OPEN" "length (p_data q) = 32"
    and Q: "\<And>s1 d1 q'. sa_device s1 = Some d1 \<Longrightarrow> up d1 \<Longrightarrow> same_node d d1 \<Longrightarrow> emits d d1 (toByteBuffer q') \<Longrightarrow> clear q' \<Longrightarrow>
      p_topic q' = T_INCLUDE_REQUEST \<Longrightarrow> p_data q' = pub \<Longrightarrow>
      awaits_response (eeprom_inv L ol) (eeprom_contents L) priv (p_data q) d1 \<Longrightarrow> Q s1"
  shows "std_hears E (toByteBuffer q) s Q"
proof -
  let ?P = "\<lambda>d1. \<exists>q'. emits d d1 (toByteBuffer q') \<and> clear q' \<and> p_topic q' = T_INCLUDE_REQUEST \<and> p_data q' = pub \<and>
    awaits_response (eeprom_inv L ol) (eeprom_contents L) priv (p_data q) d1"
  have e: "serves lib (eeprom_ops L) (with_frame (toByteBuffer q) (se_env E))" using env(1) by simp
  show ?thesis
  proof (rule std_hearsI [OF s(1,2) device_at_not_included [OF d(2)], where P = ?P])
    show "\<exists>d1. receive_packet (with_frame (toByteBuffer q) (se_env E)) q d0 = Some (RM_E_NONE, d1) \<and> ?P d1"
      if d0: "still d d0" "fresh q d0" for d0
      using node.device_invited [OF e env(2) _ _ d(3) q d0(2), of ol] d(1,2) stillD(15,17) [OF d0(1)] still_emits_from [OF d0(1)]
      unfolding awaits_response_def by metis
    show "?P d2" if "?P d1" "still d1 d2" for d1 d2
      using that still_emits [OF that(2)] still_awaits(1) [OF that(2)] by simp
    show "Q c" if "sa_device c = Some d'" "?P d'" "same_node d d'" for c d'
      using that Q up_again [OF that(3) s(2)] node_ok_ready unfolding awaits_response_def by blast
  qed (auto simp: awaits_response_def dest: node_ok_ready device_at_ctl device_at_not_included)
qed

lemma std_confirms:
  assumes env: "serves lib (eeprom_ops L) (se_env E)" "lib_laws lib" and com: "commits (eeprom_ops L) (eeprom_inv L ol)"
    and s: "sa_device s = Some d" "up d"
    and d: "awaits_response (eeprom_inv L ol) (eeprom_contents L) priv hub d"
    and kp: "keypair_of lib priv pub" "length hub = 32" "cl_curve lib priv hub = Some sec" "length nk = 32" "length nonce = 4"
    and q: "sealed lib (cl_sha256 lib sec) (box lib (cl_sha256 lib sec) (nk @ nonce)) q" "p_topic q = T_INCLUDE_RESPONSE"
    and Q: "\<And>s1 d1 q'. sa_device s1 = Some d1 \<Longrightarrow> up d1 \<Longrightarrow> emits d d1 (toByteBuffer q') \<Longrightarrow> p_topic q' = T_INCLUDE_CONFIRM \<Longrightarrow>
      p_source q' = d_id d \<Longrightarrow> sealed lib nk (box lib nk (numberToBytes ((bytesToNumber nonce :: u32) + 1))) q' \<Longrightarrow>
      awaits_success (eeprom_inv L ol) (eeprom_contents L) priv nk d1 \<Longrightarrow> Q s1"
  shows "std_hears E (toByteBuffer q) s Q"
proof -
  let ?P = "\<lambda>d1. \<exists>q'. emits d d1 (toByteBuffer q') \<and> p_topic q' = T_INCLUDE_CONFIRM \<and> p_source q' = d_id d \<and>
    sealed lib nk (box lib nk (numberToBytes ((bytesToNumber nonce :: u32) + 1))) q' \<and>
    awaits_success (eeprom_inv L ol) (eeprom_contents L) priv nk d1"
  have e: "serves lib (eeprom_ops L) (with_frame (toByteBuffer q) (se_env E))" using env(1) by simp
  show ?thesis
  proof (rule std_hearsI [OF s(1,2) device_at_not_included [of INCLUSION_PENDING WAITING_FOR_RESPONSE], where P = ?P])
    show "\<exists>d1. receive_packet (with_frame (toByteBuffer q) (se_env E)) q d0 = Some (RM_E_NONE, d1) \<and> ?P d1"
      if d0: "still d d0" "fresh q d0" for d0
    proof -
      note sd = stillD [OF d0(1)]
      have "node_ok (eeprom_inv L ol) (eeprom_contents L) priv d0" "device_at INCLUSION_PENDING WAITING_FOR_RESPONSE d0"
          "hubPublicKey (n_es (d_net d0)) = hub" using d sd by (simp_all add: awaits_response_def)
      from node.device_confirms [OF e env(2) com this kp q d0(2)] show ?thesis using sd(3) still_emits_from [OF d0(1)]
        unfolding awaits_success_def by metis
    qed
    show "?P d2" if "?P d1" "still d1 d2" for d1 d2
      using that still_emits [OF that(2)] still_awaits(3) [OF that(2)] by simp
    show "Q c" if "sa_device c = Some d'" "?P d'" "same_node d d'" for c d'
      using that Q up_again [OF that(3) s(2)] node_ok_ready unfolding awaits_success_def by blast
  qed (use d in \<open>auto simp: awaits_response_def awaits_success_def dest: node_ok_ready device_at_ctl device_at_not_included\<close>)
qed

text \<open>With the last frame the device is included; if a report is due it is sent in the same iteration.\<close>

lemma std_included:
  assumes env: "serves lib (eeprom_ops L) (se_env E)" "lib_laws lib" and com: "commits (eeprom_ops L) (eeprom_inv L ol)"
    and s: "sa_device s = Some d" "up d"
    and w: "awaits_success (eeprom_inv L ol) (eeprom_contents L) priv nk d" and len: "length nk = 32"
    and q: "sealed lib nk [] q" "p_topic q = T_INCLUDE_SUCCESS"
    and Q: "\<And>s1 d1. sa_device s1 = Some d1 \<Longrightarrow> sa_state s1 = SD_INCLUDED \<Longrightarrow> isIncluded d1 = Some True \<Longrightarrow>
      networked d1 nk \<Longrightarrow> on_air (se_env E) d1 \<Longrightarrow> loadNetworkKey (eeprom_ops L) [] (d_store d1) = (RM_E_NONE, nk) \<Longrightarrow>
      loadState (eeprom_ops L) NOT_INCLUDED (d_store d1) = (RM_E_NONE, INCLUDED) \<Longrightarrow> Q s1"
  shows "std_hears E (toByteBuffer q) s Q"
proof -
  have d: "node_ok (eeprom_inv L ol) (eeprom_contents L) priv d" "device_at INCLUSION_PENDING WAITING_FOR_SUCCESS d"
      "networkKey (n_es (d_net d)) = nk" "eeprom_contents L (d_store d) NKEY = Some nk" "length nk = 32"
    using w len by (simp_all add: awaits_success_def)
  let ?P = "\<lambda>d1. node_ok (eeprom_inv L ol) (eeprom_contents L) priv d1 \<and> device_at INCLUDED PROTOCOL_IDLE d1 \<and>
      networkKey (n_es (d_net d1)) = nk \<and> eeprom_contents L (d_store d1) NKEY = Some nk \<and>
      eeprom_contents L (d_store d1) STATE_KEY = Some [inclusion_state_code INCLUDED]"
  let ?env = "with_frame (toByteBuffer q) (se_env E)"
  have e: "serves lib (eeprom_ops L) ?env" using env(1) by simp
  have lib: "ctr_laws (env_lib ?env)" "cipher_laws (cl_aes (env_lib ?env))" using env by (simp_all add: lib_laws_def serves_def)
  show ?thesis
  proof (rule std_hearsI [OF s(1,2) device_at_not_included [OF d(2)], where P = ?P])
    show "\<exists>d1. receive_packet ?env q d0 = Some (RM_E_NONE, d1) \<and> ?P d1" if d0: "still d d0" "fresh q d0" for d0
    proof -
      note sd = stillD [OF d0(1)]
      have "node_ok (eeprom_inv L ol) (eeprom_contents L) priv d0" "device_at INCLUSION_PENDING WAITING_FOR_SUCCESS d0"
          "networkKey (n_es (d_net d0)) = nk" "eeprom_contents L (d_store d0) NKEY = Some nk" using d sd by simp_all
      from node.device_included [OF e env(2) com this q d0(2)] show ?thesis by blast
    qed
    show "?P d2" if "?P d1" "still d1 d2" for d1 d2
      using that stillD(2,7,15,17) [OF that(2)] by simp
    show "\<exists>rc d2. sendData ?env 0x10 [word_of_int (se_random E)] BROADCAST_ADDR d1 = Some (rc, d2) \<and> ?P d2 \<and> d_ctl d2 = d_ctl d1"
      if P: "?P d1" for d1
    proof -
      have nw: "networked d1 nk" using P included_networked d(5) by blast
      have air: "on_air ?env d1" using P ready_on_air [OF node_ok_ready e] by blast
      obtain d2 where d2: "sendData ?env 0x10 [word_of_int (se_random E)] BROADCAST_ADDR d1 = Some (RM_E_NONE, d2)" "send_frame d1 d2"
        using network_send [OF lib air nw, of "0x10" "[word_of_int (se_random E)]" BROADCAST_ADDR] by auto
      have "?P d2" using P node_send [OF d2(2)] at_send(2) [OF d2(2)] send_frameD(2,10) [OF d2(2)] by simp
      then show ?thesis using d2 send_frameD(1) [OF d2(2)] by blast
    qed
    show "Q c" if c: "sa_device c = Some d'" "?P d'" "same_node d d'" "isIncluded d' = Some (sa_state c = SD_INCLUDED)" for c d'
    proof -
      have "isIncluded d' = Some True" using c(2) by (auto simp: device_at_def isIncluded_def getState_def)
      moreover from this have "sa_state c = SD_INCLUDED" using c(4) by simp
      moreover have "networked d' nk" "on_air (se_env E) d'"
        using c(2) included_networked [OF _ _ len] ready_on_air [OF node_ok_ready env(1)] by blast+
      ultimately show ?thesis using c(1,2) Q included_loads by blast
    qed
  qed (auto dest: node_ok_ready device_at_ctl)
qed

section \<open>The steps of the hub\<close>

text \<open>What the page of the hub's clients sends for its button.\<close>

definition mode_button :: portal_message where
  "mode_button = \<lparr>getType = ''set_inclusion_mode'', serialize = ''enable''\<rparr>"

lemma beside_open:
  assumes "ic_sendInclusionOpen env d = Some (rc, d')"
  shows "beside d d'"
proof -
  from assms consider "d' = d" | c where "d' = d\<lparr>d_ctl := c\<rparr>" | k c where "sendData env T_INCLUDE_OPEN k BROADCAST_ADDR (d\<lparr>d_ctl := c\<rparr>) = Some (rc, d')"
    by (auto simp: ic_sendInclusionOpen_def Let_def bind_eq_Some_conv split: sum.splits if_splits)
  then show ?thesis
  proof cases
    case (3 k c)
    have "beside d (d\<lparr>d_ctl := c\<rparr>)" by simp
    then show ?thesis using beside_after sendData_frame [OF 3] by blast
  qed simp_all
qed

lemma hub_invites:
  assumes env: "serves lib (eeprom_ops L) (he_env H)" "lib_laws lib"
    and a: "ha_device a = Some h" "appState a = READY" "ha_portal a" and up: "up h"
    and h: "node_ok (eeprom_inv L ol) (eeprom_contents L) priv h" "d_type h = HUB" "eeprom_contents L (d_store h) NKEY = Some nk"
      "d_ctl h = Some c" "ic_type c = HUB" "keypair_of lib priv pub"
    and page: "pp_eventHandlers (portalParams pt) = hub_handlers H" "web_canSend W cl (ha_web a)"
  shows "\<exists>a1 h1 q. handleWebSocketEvent (hub_web W) t WS_EVT_DATA (Some cl) (Some (map byte_of_char (portal_text mode_button))) pt (Some a)
        = (pt, Some a1) \<and>
    ha_device a1 = Some h1 \<and> up h1 \<and> same_node h h1 \<and> appState a1 = INCLUSION_MODE_ACTIVE \<and> inclusionModeActive a1 \<and>
    ha_portal a1 \<and> totalInclusionRequests a1 = 0 \<and> successfulInclusions a1 = 0 \<and> emits h h1 (toByteBuffer q) \<and> clear q \<and>
    p_topic q = T_INCLUDE_OPEN \<and> p_data q = pub \<and> node_ok (eeprom_inv L ol) (eeprom_contents L) priv h1 \<and>
    hub_at (eeprom_contents L) nk WAITING_FOR_REQUEST h1"
proof -
  let ?h = "h\<lparr>d_ctl := Some (c\<lparr>inclusionModeEnabled := True\<rparr>)\<rparr>"
  have en: "enableInclusionMode (he_env H) True h = Some (RM_E_NONE, ?h)"
    using h(2,4) by (simp add: enableInclusionMode_def enterInclusionMode_def)
  have "node_ok (eeprom_inv L ol) (eeprom_contents L) priv ?h" using h(1) by (simp add: node_ok_def ready_def)
  moreover have "hub_at (eeprom_contents L) nk (protocolState c) ?h" using h(2-5) by (simp add: hub_at_def)
  ultimately obtain h1 q where o: "sendInclusionOpen (he_env H) ?h = Some (RM_E_NONE, h1)" "emits ?h h1 (toByteBuffer q)" "clear q"
      "p_topic q = T_INCLUDE_OPEN" "p_data q = pub" "node_ok (eeprom_inv L ol) (eeprom_contents L) priv h1"
      "hub_at (eeprom_contents L) nk WAITING_FOR_REQUEST h1"
    using node.hub_opens [OF env _ _ h(6)] by blast
  have "same_node ?h h1" using o(1) same_node_beside [OF beside_open] by (simp add: sendInclusionOpen_def)
  then have sn: "same_node h h1" by (simp add: same_node_def)
  let ?a = "a\<lparr>ha_device := Some h1, inclusionModeActive := True, appState := INCLUSION_MODE_ACTIVE,
      totalInclusionRequests := 0, successfulInclusions := 0\<rparr>"
  have c1: "d_ctl h1 \<noteq> None" using o(7) by (auto simp: hub_at_def)
  obtain a0 where a0: "push_status H ?a = Some a0" using status_total(2) [of ?a h1 H] c1 by auto
  have st: "startInclusionMode H a = Some a0" using a en o(1) a0 by (simp add: startInclusionMode_def)
  note w0 = web_onlyD [OF push_status_web [OF a0]]
  have "ha_device a0 = Some h1" "ha_portal a0" using w0 a(3) by simp_all
  then obtain a1 where a1: "handleGetStatus H a0 = Some a1" using status_total(1) c1 by blast
  note w1 = web_onlyD [OF web_ops(1) [OF a1]]
  have "handleSetInclusionMode H (map byte_of_char ''enable'') a = Some a1"
    using a(1) st a1 by (simp add: handleSetInclusionMode_def comp_def)
  moreover have "cut_at_close ''enable'' = ''enable''" by (simp add: cut_at_close_eq)
  moreover have "CHR 0x22 \<notin> set (getType mode_button)" by (simp add: mode_button_def)
  from parse_portal_text [OF this] have "parse_message (portal_text mode_button) = Some (''set_inclusion_mode'', cut_at_close ''enable'')"
    by (simp add: mode_button_def)
  moreover have "portal_text mode_button \<noteq> []" by (simp add: portal_text_def)
  moreover have "map char_of_byte (map byte_of_char s) = s" for s by (simp add: comp_def)
  ultimately have "handleWebSocketEvent (hub_web W) t WS_EVT_DATA (Some cl) (Some (map byte_of_char (portal_text mode_button))) pt (Some a)
      = (pt, Some a1)"
    using page by (simp add: handleWebSocketEvent_def handleClientMessage_def hub_handlers_def hub_web_def)
  then show ?thesis using w0 w1 a(3) o(2-7) sn up_again [OF sn up] node_ok_ready [OF o(6)]
    by (intro exI [of _ a1] exI [of _ h1] exI [of _ q]) (simp add: emits_def sent_frames_def)
qed

lemma request_callback:
  assumes "ha_portal a" and "p_topic p = T_INCLUDE_REQUEST"
  shows "\<exists>a1. run_callbacks H [(Some p, RM_E_NONE)] a = Some a1 \<and> ha_device a1 = ha_device a \<and>
    hub_same (a\<lparr>totalInclusionRequests := totalInclusionRequests a + 1\<rparr>) a1"
proof -
  let ?a = "a\<lparr>totalInclusionRequests := totalInclusionRequests a + 1\<rparr>"
  obtain a1 where a1: "sendInclusionEvent H ''request_received'' (hex_id (p_source p)) ?a = Some a1"
    using messages_total(1) [of ?a H] assms(1) by fastforce
  then show ?thesis using assms(2) web_only_same [OF web_ops(3) [OF a1]] by (simp add: hub_onPacketReceived_def Let_def)
qed

lemma emits_sent: "emits d d' f \<Longrightarrow> sent_frames d' \<noteq> sent_frames d"
  by (simp add: emits_def)

lemma hub_at_mode: "hub_at contents nk st d \<Longrightarrow> isInclusionModeEnabled d = Some True \<and> d_ctl d \<noteq> None"
  by (auto simp: hub_at_def isInclusionModeEnabled_def ic_isInclusionModeEnabled_def)

lemma hub_requested:
  assumes env: "serves lib (eeprom_ops L) (he_env H)" "lib_laws lib"
    and a: "ha_device a = Some h" "ha_portal a" and up: "up h" "onPacketReceived h"
    and h: "node_ok (eeprom_inv L ol) (eeprom_contents L) priv h" "hub_at (eeprom_contents L) nk WAITING_FOR_REQUEST h"
    and kp: "keypair_of lib priv pub" "keypair_of lib dpriv (p_data q)" "cl_curve lib priv (p_data q) = Some sec"
    and q: "clear q" "p_topic q = T_INCLUDE_REQUEST"
    and Q: "\<And>a1 h1 q' nonce. ha_device a1 = Some h1 \<Longrightarrow> up h1 \<Longrightarrow> same_node h h1 \<Longrightarrow>
      hub_same (a\<lparr>totalInclusionRequests := totalInclusionRequests a + 1\<rparr>) a1 \<Longrightarrow> emits h h1 (toByteBuffer q') \<Longrightarrow>
      p_topic q' = T_INCLUDE_RESPONSE \<Longrightarrow> length nonce = 4 \<Longrightarrow> sealed lib (cl_sha256 lib sec) (box lib (cl_sha256 lib sec) (nk @ nonce)) q' \<Longrightarrow>
      awaits_confirmation (eeprom_inv L ol) (eeprom_contents L) priv nk nonce h1 \<Longrightarrow> Q a1"
  shows "hub_hears H (toByteBuffer q) a Q"
proof -
  let ?f = "toByteBuffer q"
  let ?D = "\<lambda>h1. \<exists>q' nonce. emits h h1 (toByteBuffer q') \<and> p_topic q' = T_INCLUDE_RESPONSE \<and> length nonce = 4 \<and>
    sealed lib (cl_sha256 lib sec) (box lib (cl_sha256 lib sec) (nk @ nonce)) q' \<and>
    awaits_confirmation (eeprom_inv L ol) (eeprom_contents L) priv nk nonce h1"
  let ?a = "a\<lparr>totalInclusionRequests := totalInclusionRequests a + 1\<rparr>"
  let ?P = "\<lambda>a1 h1. hub_same ?a a1 \<and> same_node h h1 \<and> up h1 \<and> ?D h1"
  have e: "serves lib (eeprom_ops L) (with_frame ?f (he_env H))" using env(1) by simp
  show ?thesis
  proof (rule hub_hearsI [OF a(1) up(1), where P = ?P])
    show "d_ctl h \<noteq> None" "in_step a h" using hub_at_mode [OF h(2)] by (simp_all add: in_step_def)
    fix b d0 assume d0: "still h d0" "fresh q d0" and b: "hub_same a b"
    note sd = stillD [OF d0(1)]
    have n0: "node_ok (eeprom_inv L ol) (eeprom_contents L) priv d0" "hub_at (eeprom_contents L) nk WAITING_FOR_REQUEST d0" using h sd by simp_all
    obtain d1 where d1: "receive_packet (with_frame ?f (he_env H)) q d0 = Some (RM_E_NONE, d1)" "?D d1"
      using node.hub_answers [OF e env(2) n0 kp q d0(2)] still_emits_from [OF d0(1)]
      unfolding awaits_confirmation_def by metis
    have sn: "same_node h d1" using same_node_trans [OF sd(10) same_node_receive [OF d1(1)]] .
    have u: "up d1" using up_again [OF sn up(1)] d1(2) node_ok_ready unfolding awaits_confirmation_def by blast
    have "sent_frames d1 \<noteq> sent_frames d0" using d1(2) sd(8) emits_sent by metis
    then obtain p where p: "rxCalls d1 = rxCalls d0 @ [(Some p, RM_E_NONE)]" "p_topic p = T_INCLUDE_REQUEST"
      using inclusion_notified [OF d1(1)] q(2) up(2) sd(6) by (auto simp: isInclusionMessage_def)
    obtain a1 where a1: "run_callbacks (hub_frame ?f H) [(Some p, RM_E_NONE)] (b\<lparr>ha_device := Some d1\<rparr>) = Some a1" "ha_device a1 = Some d1"
        "hub_same (b\<lparr>ha_device := Some d1, totalInclusionRequests := totalInclusionRequests b + 1\<rparr>) a1"
      using request_callback [of "b\<lparr>ha_device := Some d1\<rparr>" p "hub_frame ?f H"] p(2) a(2) b by (auto simp: hub_same_def)
    have "hub_same ?a a1" using a1(3) b by (simp add: hub_same_def)
    moreover have "d_ctl d1 \<noteq> None \<and> in_step a1 d1" using d1(2) hub_at_mode unfolding in_step_def awaits_confirmation_def by blast
    ultimately show "\<exists>d1 calls a1 d2. receive_packet (with_frame ?f (he_env H)) q d0 = Some (RM_E_NONE, d1) \<and> rxCalls d1 = rxCalls d0 @ calls \<and>
        run_callbacks (hub_frame ?f H) calls (b\<lparr>ha_device := Some d1\<rparr>) = Some a1 \<and>
        ha_device a1 = Some d2 \<and> up d2 \<and> d_ctl d2 \<noteq> None \<and> in_step a1 d2 \<and> ?P a1 d2"
      using d1 p(1) a1(1,2) sn u by blast
  next
    fix c a1 d2 d3 assume P: "?P a1 d2" and c: "ha_device c = Some d3" "still d2 d3" "hub_same a1 c"
    note sd = stillD [OF c(2)]
    have "?D d3" using P still_awaits(2) [OF c(2)] still_emits [OF c(2)] by simp
    moreover have "hub_same ?a c" "same_node h d3" "up d3" using P c(3) hub_same_trans sd(9,10) same_node_trans by blast+
    ultimately show "Q c" using Q [OF c(1)] by blast
  qed
qed

lemma hub_confirmed:
  fixes a :: "('e storage, 'w) hub_app" and L :: "'e eeprom_lib"
  assumes env: "serves lib (eeprom_ops L) (he_env H)" "lib_laws lib"
    and a: "ha_device a = Some h" "ha_portal a" "inclusionModeActive a" and up: "up h" "onPacketReceived h"
    and w: "awaits_confirmation (eeprom_inv L ol) (eeprom_contents L) priv nk nonce h" and len: "length nk = 32"
    and q: "sealed lib nk (box lib nk (numberToBytes ((bytesToNumber nonce :: u32) + 1))) q" "p_topic q = T_INCLUDE_CONFIRM"
    and Q: "\<And>a1 h1 q'. ha_device a1 = Some h1 \<Longrightarrow> up h1 \<Longrightarrow> successfulInclusions a1 = successfulInclusions a + 1 \<Longrightarrow>
      map_of (connectedDevicesMap a1) (hex_id (p_source q)) \<noteq> None \<Longrightarrow> appState a1 = READY \<Longrightarrow> \<not> inclusionModeActive a1 \<Longrightarrow>
      emits h h1 (toByteBuffer q') \<Longrightarrow> p_topic q' = T_INCLUDE_SUCCESS \<Longrightarrow> sealed lib nk [] q' \<Longrightarrow>
      isInclusionModeEnabled h1 = Some False \<Longrightarrow> networked h1 nk \<Longrightarrow> on_air (he_env H) h1 \<Longrightarrow> Q a1"
  shows "hub_hears H (toByteBuffer q) a Q"
proof -
  obtain c where h: "node_ok (eeprom_inv L ol) (eeprom_contents L) priv h" "hub_at (eeprom_contents L) nk WAITING_FOR_CONFIRMATION h"
      "networkKey (n_es (d_net h)) = nk" "d_ctl h = Some c" "currentNonce c = nonce" "length nk = 32"
    using w len by (auto simp: awaits_confirmation_def)
  let ?f = "toByteBuffer q"
  let ?D = "\<lambda>h1. \<exists>q'. emits h h1 (toByteBuffer q') \<and> p_topic q' = T_INCLUDE_SUCCESS \<and> sealed lib nk [] q'"
  let ?P = "\<lambda>(a1 :: ('e storage, 'w) hub_app) h1. up h1 \<and> successfulInclusions a1 = successfulInclusions a + 1 \<and>
    map_of (connectedDevicesMap a1) (hex_id (p_source q)) \<noteq> None \<and> appState a1 = READY \<and> \<not> inclusionModeActive a1 \<and>
    isInclusionModeEnabled h1 = Some False \<and> networked h1 nk \<and> on_air (he_env H) h1 \<and> ?D h1"
  have e: "serves lib (eeprom_ops L) (with_frame ?f (he_env H))" using env(1) by simp
  show ?thesis
  proof (rule hub_hearsI [OF a(1) up(1), where P = ?P])
    show "d_ctl h \<noteq> None" "in_step a h" using hub_at_mode [OF h(2)] by (simp_all add: in_step_def)
    fix b d0 assume d0: "still h d0" "fresh q d0" and b: "hub_same a b"
    note sd = stillD [OF d0(1)]
    have n0: "node_ok (eeprom_inv L ol) (eeprom_contents L) priv d0" "hub_at (eeprom_contents L) nk WAITING_FOR_CONFIRMATION d0"
        "networkKey (n_es (d_net d0)) = nk" "d_ctl d0 = Some c" using h sd by simp_all
    obtain d1 q' where d1: "receive_packet (with_frame ?f (he_env H)) q d0 = Some (RM_E_NONE, d1)" "emits d0 d1 (toByteBuffer q')"
        "p_topic q' = T_INCLUDE_SUCCESS" "sealed lib nk [] q'" "node_ok (eeprom_inv L ol) (eeprom_contents L) priv d1"
        "hub_at (eeprom_contents L) nk PROTOCOL_IDLE d1" "networkKey (n_es (d_net d1)) = nk"
      using node.hub_completes [OF e env(2) n0 h(5) q d0(2)] by blast
    have sn: "same_node h d1" using same_node_trans [OF sd(10) same_node_receive [OF d1(1)]] .
    have u: "up d1" using up_again [OF sn up(1) node_ok_ready [OF d1(5)]] .
    obtain p where p: "rxCalls d1 = rxCalls d0 @ [(Some p, RM_E_NONE)]" "p_topic p = T_INCLUDE_CONFIRM" "p_source p = p_source q"
      using inclusion_notified [OF d1(1) emits_sent [OF d1(2)]] q(2) up(2) sd(6) by (auto simp: isInclusionMessage_def)
    let ?b = "b\<lparr>ha_device := Some d1\<rparr>"
    have "ha_device ?b = Some d1" "ha_portal ?b" "inclusionModeActive ?b" using a b by (simp_all add: hub_same_def)
    moreover have "d_type d1 = HUB" "d_ctl d1 \<noteq> None" using d1(6) by (auto simp: hub_at_def)
    moreover have "ra_module (n_radio (d_net d1))" using u by (simp add: up_def)
    ultimately obtain a1 d2 where a1: "hub_onPacketReceived (hub_frame ?f H) (Some p, RM_E_NONE) ?b = Some a1"
        "successfulInclusions a1 = successfulInclusions ?b + 1" "map_of (connectedDevicesMap a1) (hex_id (p_source p)) \<noteq> None"
        "\<not> inclusionModeActive a1" "appState a1 = READY" "ha_device a1 = Some d2" "isInclusionModeEnabled d2 = Some False" "left_mode d1 d2"
      using confirm_callback [OF _ _ _ _ _ _ p(2)] by blast
    have nw: "networked d2 nk" using a1(8) hub_networked [OF d1(6,7) h(6)] by (simp add: left_mode_def)
    have "on_air (with_frame ?f (he_env H)) d1" using ready_on_air [OF node_ok_ready [OF d1(5)] e] .
    then have air: "on_air (he_env H) d2" using a1(8) by (simp add: left_mode_def)
    have "up d2" using a1(8) u air by (simp add: left_mode_def up_def on_air_def)
    moreover have "emits h d2 (toByteBuffer q')" using d1(2) a1(8) sd(8) by (simp add: emits_def left_mode_def)
    moreover have "d_ctl d2 \<noteq> None" using a1(7) by (auto simp: isInclusionModeEnabled_def)
    ultimately have "up d2 \<and> d_ctl d2 \<noteq> None \<and> in_step a1 d2 \<and> ?P a1 d2"
      using a1 b nw air d1(3,4) p(3) by (auto simp: hub_same_def in_step_def)
    moreover have "run_callbacks (hub_frame ?f H) [(Some p, RM_E_NONE)] ?b = Some a1" using a1(1) by simp
    ultimately show "\<exists>d1 calls a1 d2. receive_packet (with_frame ?f (he_env H)) q d0 = Some (RM_E_NONE, d1) \<and> rxCalls d1 = rxCalls d0 @ calls \<and>
        run_callbacks (hub_frame ?f H) calls (b\<lparr>ha_device := Some d1\<rparr>) = Some a1 \<and>
        ha_device a1 = Some d2 \<and> up d2 \<and> d_ctl d2 \<noteq> None \<and> in_step a1 d2 \<and> ?P a1 d2"
      using d1(1) p(1) a1(6) by blast
  next
    fix c a1 :: "('e storage, 'w) hub_app" and d2 d3 assume P: "?P a1 d2" and c: "ha_device c = Some d3" "still d2 d3" "hub_same a1 c"
    note sd = stillD [OF c(2)]
    have "?D d3" using P still_emits [OF c(2)] by simp
    then show "Q c" using Q [OF c(1)] P c(3) sd(9,14,18,19) by (auto simp: hub_same_def)
  qed
qed

section \<open>The network comes about\<close>

text \<open>C1: One click forms the network. A sensor that is not included and a hub that shows the ready state,
  each running its main loop, with nothing in common but the air: when a client of the hub's page clicks
  the button, the message goes through the portal to its handler and the hub puts its invitation on the
  air; from there on, however long each side waits (iterations of the loop, ends of transmissions,
  questions of the clients) and whatever the clocks and random sources give, the next frame that the
  other side hears before the time-out and does not take for a duplicate is handled within one iteration
  and answered, and the page counts one request; after the confirmation the hub lists the sensor's
  identifier, counts one success, has left inclusion mode and shows the ready state; after the fifth
  frame the sensor shows that it is included, holds the hub's network key in its service and in its
  store, and both can exchange reports (\<open>sensor_report_reaches_hub\<close>).\<close>

theorem examples_form_a_network:
  fixes Lh :: "'e eeprom_lib" and Ld :: "'f eeprom_lib" and s :: "('f storage, 'u) std_app" and a :: "('e storage, 'w) hub_app"
  assumes lib: "lib_laws lib" and envs: "\<forall>H \<in> {H1, H3, H5}. serves lib (eeprom_ops Lh) (he_env H)"
      "\<forall>E \<in> {E2, E4, E6}. serves lib (eeprom_ops Ld) (se_env E)"
    and durable: "\<And>m. fst (ee_commit Ld m)"
    and hub: "ha_device a = Some h" "appState a = READY" "ha_portal a" "up h" "onPacketReceived h"
      "node_ok (eeprom_inv Lh oh) (eeprom_contents Lh) hpriv h" "d_type h = HUB" "eeprom_contents Lh (d_store h) NKEY = Some nk"
      "d_ctl h = Some c" "ic_type c = HUB" "keypair_of lib hpriv hpub"
    and page: "pp_eventHandlers (portalParams pt) = hub_handlers H1" "web_canSend W cl (ha_web a)"
    and dev: "sa_device s = Some d" "up d" "node_ok (eeprom_inv Ld od) (eeprom_contents Ld) dpriv d"
      "device_at NOT_INCLUDED PROTOCOL_IDLE d" "keypair_of lib dpriv dpub"
  shows "\<exists>a1 h1 f1. handleWebSocketEvent (hub_web W) t WS_EVT_DATA (Some cl)
        (Some (map byte_of_char (portal_text \<lparr>getType = ''set_inclusion_mode'', serialize = ''enable''\<rparr>))) pt (Some a) = (pt, Some a1) \<and>
      ha_device a1 = Some h1 \<and> appState a1 = INCLUSION_MODE_ACTIVE \<and> emits h h1 f1 \<and>
    std_hears E2 f1 s (\<lambda>s1. \<exists>d1 f2. sa_device s1 = Some d1 \<and> emits d d1 f2 \<and>
    hub_hears H3 f2 a1 (\<lambda>a2. \<exists>h2 f3. ha_device a2 = Some h2 \<and> emits h1 h2 f3 \<and> totalInclusionRequests a2 = 1 \<and>
    std_hears E4 f3 s1 (\<lambda>s2. \<exists>d2 f4. sa_device s2 = Some d2 \<and> emits d1 d2 f4 \<and>
    hub_hears H5 f4 a2 (\<lambda>a3. \<exists>h3 f5. ha_device a3 = Some h3 \<and> emits h2 h3 f5 \<and>
      successfulInclusions a3 = 1 \<and> map_of (connectedDevicesMap a3) (hex_id (d_id d)) \<noteq> None \<and> appState a3 = READY \<and>
      isInclusionModeEnabled h3 = Some False \<and> networked h3 nk \<and> on_air (he_env H5) h3 \<and>
    std_hears E6 f5 s2 (\<lambda>s3. \<exists>d3. sa_device s3 = Some d3 \<and> sa_state s3 = SD_INCLUDED \<and> isIncluded d3 = Some True \<and>
      networked d3 nk \<and> on_air (se_env E6) d3 \<and>
      loadNetworkKey (eeprom_ops Ld) [] (d_store d3) = (RM_E_NONE, nk) \<and>
      loadState (eeprom_ops Ld) NOT_INCLUDED (d_store d3) = (RM_E_NONE, INCLUDED))))))"
    (is "\<exists>a1 h1 f1. _ a1 \<and> _ a1 h1 \<and> _ a1 \<and> _ h1 f1 \<and> std_hears _ f1 _ (?P2 a1 h1)")
proof -
  have e: "serves lib (eeprom_ops Lh) (he_env H1)" "serves lib (eeprom_ops Lh) (he_env H3)" "serves lib (eeprom_ops Lh) (he_env H5)"
      "serves lib (eeprom_ops Ld) (se_env E2)" "serves lib (eeprom_ops Ld) (se_env E4)" "serves lib (eeprom_ops Ld) (se_env E6)"
    using envs by simp_all
  have com: "commits (eeprom_ops Ld) (eeprom_inv Ld od)" by (rule eeprom_commits) (rule durable)
  have len: "length hpub = 32" "length dpub = 32" "length nk = 32"
    using keypair_length [OF lib] hub(11) dev(5) eeprom.slot_law [of Lh oh "d_store h" NKEY nk] hub(6,8)
    by (auto simp: node_ok_def)
  obtain sec where sec: "cl_curve lib hpriv dpub = Some sec" "cl_curve lib dpriv hpub = Some sec"
    using agreement [OF lib hub(11) dev(5)] by blast
  let ?H = "node_ok (eeprom_inv Lh oh) (eeprom_contents Lh) hpriv"
  obtain a1 h1 q1 where 1: "handleWebSocketEvent (hub_web W) t WS_EVT_DATA (Some cl) (Some (map byte_of_char (portal_text mode_button))) pt (Some a)
        = (pt, Some a1)" "ha_device a1 = Some h1" "up h1" "same_node h h1" "appState a1 = INCLUSION_MODE_ACTIVE" "inclusionModeActive a1"
      "ha_portal a1" "totalInclusionRequests a1 = 0" "successfulInclusions a1 = 0" "emits h h1 (toByteBuffer q1)" "clear q1"
      "p_topic q1 = T_INCLUDE_OPEN" "p_data q1 = hpub" "?H h1" "hub_at (eeprom_contents Lh) nk WAITING_FOR_REQUEST h1"
    using hub_invites [OF e(1) lib hub(1-4,6-11) page] by blast
  have q1: "length (p_data q1) = 32" and rx1: "onPacketReceived h1" using 1(4,13) hub(5) len(1) by (simp_all add: same_node_def)
  have "std_hears E2 (toByteBuffer q1) s (?P2 a1 h1)"
  proof (rule std_invited [OF e(4) lib dev 1(11,12) q1])
    fix s1 :: "('f storage, 'u) std_app" and d1 q2 assume s1: "sa_device s1 = Some d1" "up d1" "same_node d d1" "emits d d1 (toByteBuffer q2)" "clear q2"
      "p_topic q2 = T_INCLUDE_REQUEST" "p_data q2 = dpub" "awaits_response (eeprom_inv Ld od) (eeprom_contents Ld) dpriv (p_data q1) d1"
    have kp: "keypair_of lib dpriv (p_data q2)" "cl_curve lib hpriv (p_data q2) = Some sec" using dev(5) sec(1) s1(7) by simp_all
    show "?P2 a1 h1 s1" (is "\<exists>d1 f2. _ d1 \<and> _ d1 f2 \<and> hub_hears _ f2 _ (?P3 d1)")
    proof (intro exI conjI, rule s1(1), rule s1(4), rule hub_requested [OF e(2) lib 1(2,7,3) rx1 1(14,15) hub(11) kp s1(5,6)])
      fix a2 :: "('e storage, 'w) hub_app" and h2 q3 nonce assume 2: "ha_device a2 = Some h2" "up h2" "same_node h1 h2"
        "hub_same (a1\<lparr>totalInclusionRequests := totalInclusionRequests a1 + 1\<rparr>) a2" "emits h1 h2 (toByteBuffer q3)"
        "p_topic q3 = T_INCLUDE_RESPONSE" "length nonce = 4" "sealed lib (cl_sha256 lib sec) (box lib (cl_sha256 lib sec) (nk @ nonce)) q3"
        "awaits_confirmation (eeprom_inv Lh oh) (eeprom_contents Lh) hpriv nk nonce h2"
      have a2: "ha_portal a2" "inclusionModeActive a2" "successfulInclusions a2 = 0" "totalInclusionRequests a2 = 1" "onPacketReceived h2"
        using 2(3,4) 1(6-9) rx1 by (simp_all add: hub_same_def same_node_def)
      show "?P3 d1 a2" (is "\<exists>h2 f3. _ h2 \<and> _ h2 f3 \<and> _ \<and> std_hears _ f3 _ (?P4 h2)")
      proof (intro exI conjI, rule 2(1), rule 2(5), rule a2(4),
          rule std_confirms [OF e(5) lib com s1(1,2) s1(8) [unfolded 1(13)] dev(5) len(1) sec(2) len(3) 2(7,8,6)])
        fix s2 :: "('f storage, 'u) std_app" and d2 q4 assume s2: "sa_device s2 = Some d2" "up d2" "emits d1 d2 (toByteBuffer q4)" "p_topic q4 = T_INCLUDE_CONFIRM"
          "p_source q4 = d_id d1" "sealed lib nk (box lib nk (numberToBytes ((bytesToNumber nonce :: u32) + 1))) q4"
          "awaits_success (eeprom_inv Ld od) (eeprom_contents Ld) dpriv nk d2"
        show "?P4 h2 s2" (is "\<exists>d2 f4. _ d2 \<and> _ d2 f4 \<and> hub_hears _ f4 _ (?P5 d2)")
        proof (intro exI conjI, rule s2(1), rule s2(3), rule hub_confirmed [OF e(3) lib 2(1) a2(1,2) 2(2) a2(5) 2(9) len(3) s2(6,4)])
          fix a3 :: "('e storage, 'w) hub_app" and h3 q5 assume 3: "ha_device a3 = Some h3" "successfulInclusions a3 = successfulInclusions a2 + 1"
            "map_of (connectedDevicesMap a3) (hex_id (p_source q4)) \<noteq> None" "appState a3 = READY" "emits h2 h3 (toByteBuffer q5)"
            "p_topic q5 = T_INCLUDE_SUCCESS" "sealed lib nk [] q5" "isInclusionModeEnabled h3 = Some False" "networked h3 nk" "on_air (he_env H5) h3"
          have "p_source q4 = d_id d" using s2(5) s1(3) by (simp add: same_node_def)
          then have "successfulInclusions a3 = 1" "map_of (connectedDevicesMap a3) (hex_id (d_id d)) \<noteq> None" using 3(2,3) a2(3) by simp_all
          then show "?P5 d2 a3"
            by (intro exI conjI) (rule 3 | assumption | rule std_included [OF e(6) lib com s2(1,2,7) len(3) 3(7,6)], blast)+
        qed
      qed
    qed
  qed
  then show ?thesis using 1(1,2,5,10) unfolding mode_button_def by blast
qed

section \<open>Reports\<close>

lemma report_callback:
  assumes a: "ha_device a = Some d" "up d" and p: "p_topic p = 0x10"
  shows "\<exists>a1 d1 rssi. run_callbacks H [(Some p, RM_E_NONE)] a = Some a1 \<and> ha_device a1 = Some d1 \<and> still d d1 \<and> appState a1 = appState a \<and>
    (\<forall>i. map_of (connectedDevicesMap a1) i = (if i = hex_id (p_source p)
      then map_option (\<lambda>e. e\<lparr>di_lastSeen := he_now H, di_rssi := rssi\<rparr>) (map_of (connectedDevicesMap a) i)
      else map_of (connectedDevicesMap a) i))"
proof (cases "map_of (connectedDevicesMap a) (hex_id (p_source p))")
  case None
  then show ?thesis using a p by (intro exI [of _ a] exI [of _ d]) (simp add: hub_onPacketReceived_def Let_def)
next
  case (Some info)
  let ?r = "tick (n_radio (d_net d))"
  have st: "still d (upd_radio ?r d)" by (rule still_radio) simp_all
  have m: "ra_module (n_radio (d_net d))" using a(2) by (simp add: up_def)
  have "\<exists>rssi a1 d1. hub_rssi H a = Some (rssi, a1) \<and> ha_device a1 = Some d1 \<and> still d d1 \<and> appState a1 = appState a \<and>
      connectedDevicesMap a1 = connectedDevicesMap a"
    using a m st by (cases "ha_radio a") (simp_all add: hub_rssi_def radio_getRSSI_def)
  then obtain rssi a1 d1 where r: "hub_rssi H a = Some (rssi, a1)" "ha_device a1 = Some d1" "still d d1" "appState a1 = appState a"
      "connectedDevicesMap a1 = connectedDevicesMap a" by blast
  let ?a = "refresh_device (hex_id (p_source p)) (he_now H) rssi a1"
  have "run_callbacks H [(Some p, RM_E_NONE)] a = Some ?a"
    using p Some r(1) by (simp add: hub_onPacketReceived_def Let_def)
  then show ?thesis using r Some by (intro exI [of _ ?a] exI [of _ d1] exI [of _ rssi]) (auto simp: refresh_device_def)
qed

lemma std_loop_report:
  fixes s :: "('s, 'u) std_app"
  assumes lib: "ctr_laws (env_lib (se_env E))" "cipher_laws (cl_aes (env_lib (se_env E)))"
    and s: "sa_device s = Some d" "up d" "\<not> rxDone (n_radio (d_net d))" "timely_device (se_now E) d" "on_air (se_env E) d"
      "networked d key" "isIncluded d = Some True" and due: "10000 \<le> se_now E - lastSensorData s"
  shows "\<exists>s' d' q. std_loop E s = Some s' \<and> sa_device s' = Some d' \<and> lastSensorData s' = se_now E \<and> emits d d' (toByteBuffer q) \<and>
    p_topic q = 0x10 \<and> p_source q = d_id d \<and>
    sealed (env_lib (se_env E)) key (box (env_lib (se_env E)) key [word_of_int (se_random E)]) q"
proof -
  obtain d0 where d0: "run (se_env E) d = Some (RM_E_NONE, d0)" "still d d0" using run_quiet [OF s(2-4)] by blast
  note sd = stillD [OF d0(2)]
  have air: "on_air (se_env E) d0" "networked d0 key" using s(5,6) sd by simp_all
  obtain d1 q where d1: "sendData (se_env E) 0x10 [word_of_int (se_random E)] BROADCAST_ADDR d0 = Some (RM_E_NONE, d1)"
      "sent_frames d1 = sent_frames d0 @ [toByteBuffer q]" "originated d0 0x10 BROADCAST_ADDR q"
      "sealed (env_lib (se_env E)) key (box (env_lib (se_env E)) key [word_of_int (se_random E)]) q"
    using network_send [OF lib air, of "0x10" "[word_of_int (se_random E)]" BROADCAST_ADDR] by auto
  have inc: "isIncluded d0 = Some True" using s(7) sd(13) by simp
  obtain a1 where a1: "updateAppState E (s\<lparr>sa_device := Some d0\<rparr>) = Some a1" "sa_device a1 = Some d0" "sa_state a1 = SD_INCLUDED"
      "lastSensorData a1 = lastSensorData s"
    using inc by (auto simp: updateAppState_def Let_def)
  have nd: "\<not> se_now E - lastSensorData s < 10000" using due by (simp add: not_less)
  obtain a2 where a2: "sendSensorData E a1 = Some a2" "sa_device a2 = Some d1" "lastSensorData a2 = se_now E"
    using a1 nd d1(1) by (simp add: sendSensorData_def BROADCAST_ADDR_def)
  have "std_loop E s = Some (printStatus E a2)" using s(1) d0(1) a1(1) a2(1) by (simp add: std_loop_def)
  then show ?thesis using a2 d1 sd(3,8) by (intro exI [of _ "printStatus E a2"] exI [of _ d1] exI [of _ q]) (simp add: emits_def originated_def)
qed

text \<open>C27: Reports reach the hub. In the first quiet iteration of a sensor's main loop in which a report is
  due and the device is included, exactly one frame goes on the air; a hub that shares the key and has
  waited for however long refreshes, in the iteration in which it hears that frame, the time and the
  signal strength of this sensor's entry if the sensor is listed, touches no other entry, lists nobody
  and stays in its state. The reported value is not looked at.\<close>

theorem sensor_report_reaches_hub:
  fixes s :: "('s, 'u) std_app" and a :: "('t, 'w) hub_app"
  assumes lib: "ctr_laws (env_lib (se_env E))" "cipher_laws (cl_aes (env_lib (se_env E)))" "env_lib (he_env H) = env_lib (se_env E)"
    and s: "sa_device s = Some d" "up d" "\<not> rxDone (n_radio (d_net d))" "timely_device (se_now E) d" "on_air (se_env E) d"
      "networked d key" "isIncluded d = Some True" and due: "10000 \<le> se_now E - lastSensorData s"
    and a: "ha_device a = Some h" "up h" "onPacketReceived h" "networked h key" "d_type h = HUB" "net_inv (d_net h)"
      "appState a = INCLUSION_MODE_ACTIVE \<Longrightarrow> isInclusionModeEnabled h = Some True"
  shows "\<exists>s' d' f. std_loop E s = Some s' \<and> sa_device s' = Some d' \<and> lastSensorData s' = se_now E \<and> emits d d' f \<and>
    hub_hears H f a (\<lambda>a'. appState a' = appState a \<and>
      (\<exists>rssi. \<forall>i. map_of (connectedDevicesMap a') i = (if i = hex_id (d_id d)
        then map_option (\<lambda>e. e\<lparr>di_lastSeen := he_now H, di_rssi := rssi\<rparr>) (map_of (connectedDevicesMap a) i)
        else map_of (connectedDevicesMap a) i)))"
proof -
  obtain s' d' q where r: "std_loop E s = Some s'" "sa_device s' = Some d'" "lastSensorData s' = se_now E" "emits d d' (toByteBuffer q)"
      "p_topic q = 0x10" "p_source q = d_id d" "sealed (env_lib (he_env H)) key (box (env_lib (he_env H)) key [word_of_int (se_random E)]) q"
    using std_loop_report [OF lib(1,2) s due] lib(3) by auto
  let ?env = "with_frame (toByteBuffer q) (he_env H)" and ?H = "hub_frame (toByteBuffer q) H"
  let ?M = "\<lambda>(a' :: ('t, 'w) hub_app) (b :: ('t, 'w) hub_app). appState a' = appState b \<and> (\<exists>rssi. \<forall>i. map_of (connectedDevicesMap a') i = (if i = hex_id (d_id d)
        then map_option (\<lambda>e. e\<lparr>di_lastSeen := he_now H, di_rssi := rssi\<rparr>) (map_of (connectedDevicesMap b) i)
        else map_of (connectedDevicesMap b) i))"
  have "hub_hears H (toByteBuffer q) a (\<lambda>a'. ?M a' a)"
  proof (rule hub_hearsI [OF a(1,2), where P = "\<lambda>a' d'. ?M a' a"])
    show "d_ctl h \<noteq> None" "in_step a h" using a(4,7) by (auto simp: networked_def in_step_def)
    fix b d0 assume d0: "still h d0" "fresh q d0" and b: "hub_same a b"
    note sd = stillD [OF d0(1)]
    have i0: "net_inv (d_net d0)" using d0(1) a(6) by (auto simp: still_def upd_radio_def net_inv_def radio_inv_def)
    have n0: "networked d0 key" "ra_module (n_radio (d_net d0))" "onPacketReceived d0" "d_type d0 = HUB"
      using a(2-5) sd by (simp_all add: up_def)
    obtain d1 where d1: "receive_packet ?env q d0 = Some (RM_E_NONE, d1)"
        "rxCalls d1 = rxCalls d0 @ [(Some (q\<lparr>p_data := [word_of_int (se_random E)]\<rparr>), RM_E_NONE)]" "d_ctl d1 = d_ctl d0"
        "ra_module (n_radio (d_net d1))"
      using network_receive [of ?env d0 key "[word_of_int (se_random E)]" q] lib n0 i0 r(5,7) d0(2) by auto
    have u: "up d1" using same_node_receive [OF d1(1)] sd(9) a(2) d1(4) by (simp add: same_node_def up_def)
    let ?p = "q\<lparr>p_data := [word_of_int (se_random E)]\<rparr>" and ?b = "b\<lparr>ha_device := Some d1\<rparr>"
    have pre: "ha_device ?b = Some d1" "p_topic ?p = 0x10" using r(5) by simp_all
    from report_callback [OF pre(1) u pre(2), of ?H] obtain a1 d2 rssi where x: "run_callbacks ?H [(Some ?p, RM_E_NONE)] ?b = Some a1"
        "ha_device a1 = Some d2" "still d1 d2" "appState a1 = appState ?b"
        "\<forall>i. map_of (connectedDevicesMap a1) i = (if i = hex_id (p_source ?p)
          then map_option (\<lambda>e. e\<lparr>di_lastSeen := he_now ?H, di_rssi := rssi\<rparr>) (map_of (connectedDevicesMap ?b) i)
          else map_of (connectedDevicesMap ?b) i)" by blast
    have M: "?M a1 b" using x(4,5) r(6) by (auto simp: hub_frame_def)
    note a1 = x(1-3) M
    have "d_ctl d2 = d_ctl h" using stillD(1) [OF a1(3)] d1(3) sd(1) by simp
    moreover from this have "isInclusionModeEnabled d2 = isInclusionModeEnabled h" by (simp add: isInclusionModeEnabled_def)
    ultimately have "d_ctl d2 \<noteq> None" "in_step a1 d2" "up d2" "?M a1 a"
      using a(4,7) a1(4) b u stillD(9) [OF a1(3)] by (auto simp: networked_def in_step_def hub_same_def)
    then show "\<exists>d1 calls a1 d2. receive_packet ?env q d0 = Some (RM_E_NONE, d1) \<and> rxCalls d1 = rxCalls d0 @ calls \<and>
        run_callbacks ?H calls (b\<lparr>ha_device := Some d1\<rparr>) = Some a1 \<and> ha_device a1 = Some d2 \<and> up d2 \<and> d_ctl d2 \<noteq> None \<and>
        in_step a1 d2 \<and> ?M a1 a"
      using d1(1,2) a1(1,2) by blast
  next
    fix c a1 :: "('t, 'w) hub_app" and d2 d3 assume "?M a1 a" "hub_same a1 c"
    then show "?M c a" by (simp add: hub_same_def)
  qed
  then show ?thesis using r(1-4) by blast
qed

section \<open>A concrete hub and a concrete sensor\<close>

definition field_hub_device :: "bytes storage device" where
  "field_hub_device = toy_node HUB (fresh_controller INCLUDED HUB) (replicate 32 1) toy_hub_store"

definition field_sensor_device :: "bytes storage device" where
  "field_sensor_device = toy_node STANDARD (fresh_controller NOT_INCLUDED STANDARD) (replicate 32 2) (toy_node_store (replicate 32 2))"

definition field_hub :: "(bytes storage, toy_web) hub_app" where
  "field_hub = (toy_app field_hub_device)\<lparr>appState := READY\<rparr>"

definition field_sensor :: "bytes storage device \<Rightarrow> u32 \<Rightarrow> (bytes storage, unit) std_app" where
  "field_sensor d t = (std_start OledDisplay)\<lparr>sa_device := Some d, lastSensorData := t\<rparr>"

lemma field_nodes:
  "node_ok (eeprom_inv ram_eeprom ram_opened) (eeprom_contents ram_eeprom) (replicate 32 1) field_hub_device"
  "node_ok (eeprom_inv ram_eeprom ram_opened) (eeprom_contents ram_eeprom) (replicate 32 2) field_sensor_device"
  unfolding field_hub_device_def field_sensor_device_def
  by (rule toy_node_ok [OF _ toy_hub_store_ok(1,2)], simp, rule toy_node_ok [OF _ toy_node_store_ok], simp_all)

lemma toy_node_simps:
  "d_type (toy_node dt c priv st) = dt" "d_ctl (toy_node dt c priv st) = Some c" "d_store (toy_node dt c priv st) = st"
  "onPacketReceived (toy_node dt c priv st)" "up (toy_node dt c priv st)"
  by (simp_all add: toy_node_def toy_dev_def RadioMeshDevice_def up_def toy_net_def upd_es_def)

theorem examples_form_a_network_witness:
  "\<forall>L. let E = toy_std_env L; H = toy_hub_env; nk = replicate 32 5; pt = AsyncDevicePortal (hub_portal_params toy_hub_env ''<body></body>'') in
    \<exists>a1 h1 f1. handleWebSocketEvent (hub_web toy_web_lib) 0 WS_EVT_DATA (Some 7)
        (Some (map byte_of_char (portal_text \<lparr>getType = ''set_inclusion_mode'', serialize = ''enable''\<rparr>))) pt (Some field_hub) = (pt, Some a1) \<and>
      ha_device a1 = Some h1 \<and> appState a1 = INCLUSION_MODE_ACTIVE \<and> emits field_hub_device h1 f1 \<and>
    std_hears E f1 (field_sensor field_sensor_device 0) (\<lambda>s1. \<exists>d1 f2. sa_device s1 = Some d1 \<and> emits field_sensor_device d1 f2 \<and>
    hub_hears H f2 a1 (\<lambda>a2. \<exists>h2 f3. ha_device a2 = Some h2 \<and> emits h1 h2 f3 \<and> totalInclusionRequests a2 = 1 \<and>
    std_hears E f3 s1 (\<lambda>s2. \<exists>d2 f4. sa_device s2 = Some d2 \<and> emits d1 d2 f4 \<and>
    hub_hears H f4 a2 (\<lambda>a3. \<exists>h3 f5. ha_device a3 = Some h3 \<and> emits h2 h3 f5 \<and>
      successfulInclusions a3 = 1 \<and> map_of (connectedDevicesMap a3) (hex_id (d_id field_sensor_device)) \<noteq> None \<and> appState a3 = READY \<and>
      isInclusionModeEnabled h3 = Some False \<and> networked h3 nk \<and> on_air (he_env H) h3 \<and>
    std_hears E f5 s2 (\<lambda>s3. \<exists>d3. sa_device s3 = Some d3 \<and> sa_state s3 = SD_INCLUDED \<and> isIncluded d3 = Some True \<and>
      networked d3 nk \<and> on_air (se_env E) d3 \<and>
      loadNetworkKey (eeprom_ops ram_eeprom) [] (d_store d3) = (RM_E_NONE, nk) \<and>
      loadState (eeprom_ops ram_eeprom) NOT_INCLUDED (d_store d3) = (RM_E_NONE, INCLUDED))))))"
  unfolding Let_def
proof (rule allI, rule examples_form_a_network [OF toy_lib_laws])
  fix L :: "unit u8g2_lib"
  show "ha_device field_hub = Some field_hub_device" "appState field_hub = READY" "ha_portal field_hub"
      "sa_device (field_sensor field_sensor_device 0) = Some field_sensor_device"
    by (simp_all add: field_hub_def toy_app_def field_sensor_def)
  show "\<forall>H\<in>{toy_hub_env, toy_hub_env, toy_hub_env}. serves toy_lib (eeprom_ops ram_eeprom) (he_env H)"
      "\<forall>E\<in>{toy_std_env L, toy_std_env L, toy_std_env L}. serves toy_lib (eeprom_ops ram_eeprom) (se_env E)"
    using toy_serves by (simp_all add: toy_hub_env_def toy_std_env_def)
  show "web_canSend toy_web_lib 7 (ha_web field_hub)"
    by (simp add: toy_web_lib_def field_hub_def toy_app_def hub_start_def toy_web_def)
  show "device_at NOT_INCLUDED PROTOCOL_IDLE field_sensor_device"
    by (simp add: device_at_def field_sensor_device_def toy_node_simps fresh_controller_def)
  show "eeprom_contents ram_eeprom (d_store field_hub_device) NKEY = Some (replicate 32 5)"
    using toy_hub_store_ok(3) by (simp add: field_hub_device_def toy_node_simps)
  show "keypair_of toy_lib (replicate 32 1) (replicate 32 1)" "keypair_of toy_lib (replicate 32 2) (replicate 32 2)"
    by (simp_all add: keypair_of_def toy_lib_def)
  show "d_ctl field_hub_device = Some (fresh_controller INCLUDED HUB)" "d_type field_hub_device = HUB"
      "onPacketReceived field_hub_device" "up field_hub_device" "up field_sensor_device"
    by (simp_all only: field_hub_device_def field_sensor_device_def toy_node_simps)
  show "ic_type (fresh_controller INCLUDED HUB) = HUB" by (simp add: fresh_controller_def)
  show "pp_eventHandlers (portalParams (AsyncDevicePortal (hub_portal_params toy_hub_env ''<body></body>''))) = hub_handlers toy_hub_env"
    by (simp add: AsyncDevicePortal_def hub_portal_params_def)
qed (rule field_nodes | simp add: ram_eeprom_def)+

theorem sensor_report_reaches_hub_witness:
  "\<forall>L. \<exists>s' d' f. std_loop (toy_std_env L) (field_sensor (toy_included STANDARD) (- 9000)) = Some s' \<and> sa_device s' = Some d' \<and>
     emits (toy_included STANDARD) d' f \<and> hub_hears toy_hub_env f (track_device ''09090909'' 5 (- 70) (toy_app (toy_included HUB)))
       (\<lambda>a'. \<exists>e. map_of (connectedDevicesMap a') ''09090909'' = Some e \<and> di_lastSeen e = 1000)"
proof
  fix L :: "unit u8g2_lib"
  let ?s = "field_sensor (toy_included STANDARD) (- 9000)" and ?a = "track_device ''09090909'' 5 (- 70) (toy_app (toy_included HUB))"
  let ?E = "toy_std_env L"
  have E: "se_env ?E = toy_env" "he_env toy_hub_env = toy_env" by (simp_all add: toy_std_env_def toy_hub_env_def)
  have lib: "ctr_laws (env_lib (se_env ?E))" "cipher_laws (cl_aes (env_lib (se_env ?E)))" "env_lib (he_env toy_hub_env) = env_lib (se_env ?E)"
    using toy_ctr_laws toy_cl_aes by (simp_all add: E toy_env_lib)
  have c: "d_ctl (toy_included dt) = Some (fresh_controller INCLUDED dt)" "up (toy_included dt)" "\<not> rxDone (n_radio (d_net (toy_included dt)))" for dt
    by (simp_all add: toy_included_def toy_dev_def RadioMeshDevice_def upd_es_def up_def toy_net_def LoraRadio_def)
  have s: "sa_device ?s = Some (toy_included STANDARD)" "timely_device (se_now ?E) (toy_included STANDARD)"
      "on_air (se_env ?E) (toy_included STANDARD)" "isIncluded (toy_included STANDARD) = Some True" "10000 \<le> se_now ?E - lastSensorData ?s"
    using c(1) toy_included_ok(1) by (simp_all add: field_sensor_def E timely_device_def timely_def fresh_controller_def isIncluded_def getState_def
        toy_env_lib toy_world_def)
  have a: "ha_device ?a = Some (toy_included HUB)" "appState ?a \<noteq> INCLUSION_MODE_ACTIVE"
      "map_of (connectedDevicesMap ?a) ''09090909'' \<noteq> None"
    by (simp_all add: toy_app_def hub_start_def track_device_def)
  have h: "net_inv (d_net (toy_included HUB))" using toy_included_ok(1) [of HUB] by (simp add: on_air_def)
  have i: "hex_id (d_id (toy_included STANDARD)) = ''09090909''"
  proof -
    have "d_id (toy_included STANDARD) = Id4 9 9 9 9" by (simp add: toy_included_def toy_dev_def RadioMeshDevice_def upd_es_def)
    moreover have "hex_id (Id4 9 9 9 9) = ''09090909''" by code_simp
    ultimately show ?thesis by simp
  qed
  have now: "he_now toy_hub_env = 1000" by (simp add: E toy_env_lib toy_world_def)
  obtain s' d' f where r: "std_loop ?E ?s = Some s'" "sa_device s' = Some d'" "emits (toy_included STANDARD) d' f"
      "hub_hears toy_hub_env f ?a (\<lambda>a'. appState a' = appState ?a \<and>
      (\<exists>rssi. \<forall>i. map_of (connectedDevicesMap a') i = (if i = hex_id (d_id (toy_included STANDARD))
        then map_option (\<lambda>e. e\<lparr>di_lastSeen := he_now toy_hub_env, di_rssi := rssi\<rparr>) (map_of (connectedDevicesMap ?a) i)
        else map_of (connectedDevicesMap ?a) i)))"
    using sensor_report_reaches_hub [OF lib s(1) c(2,3) s(2,3) toy_included_ok(2) s(4,5) a(1) c(2) toy_included_ok(4) toy_included_ok(2,3) h] a(2)
    by blast
  have "hub_hears toy_hub_env f ?a (\<lambda>a'. \<exists>e. map_of (connectedDevicesMap a') ''09090909'' = Some e \<and> di_lastSeen e = 1000)"
    using r(4) a(3) i now unfolding hub_hears_def by fastforce
  then show "\<exists>s' d' f. std_loop ?E ?s = Some s' \<and> sa_device s' = Some d' \<and> emits (toy_included STANDARD) d' f \<and>
      hub_hears toy_hub_env f ?a (\<lambda>a'. \<exists>e. map_of (connectedDevicesMap a') ''09090909'' = Some e \<and> di_lastSeen e = 1000)"
    using r(1-3) by blast
qed

end
