(* ===== verification/RM_Keystream.thy ===== *)
theory RM_Keystream
  imports RM_Network
begin

text \<open>
  What the radio traffic tells somebody who has no key. The encryption service sets the same
  initialization vector, sixteen zero bytes, before every message (\<open>encryptAES\<close> in
  \<open>src/src/core/protocol/src/crypto/EncryptionService.cpp\<close>), and all devices share one network key; in
  counter mode every message of the network is then combined with the same keystream. \<open>stream_laws\<close>
  is the documentation of the mode: a byte of the output is the byte of the input combined with a byte
  that depends on key, vector and position only.
\<close>

section \<open>Counter mode as a stream cipher\<close>

definition stream_laws :: "crypto_lib \<Rightarrow> bool" where
  "stream_laws lib \<longleftrightarrow>
     (\<exists>ks. \<forall>dir key iv n h x. length (cl_ctr lib dir key iv n h x) = length x \<and>
        (\<forall>i < length x. cl_ctr lib dir key iv n h x ! i = x ! i XOR ks key iv n (map length h) i))"

lemma stream_ctr_laws:
  assumes "stream_laws lib"
  shows "ctr_laws lib"
proof -
  obtain ks where ks: "\<And>dir key iv n h x. length (cl_ctr lib dir key iv n h x) = length x"
      "\<And>dir key iv n h x i. i < length x \<Longrightarrow> cl_ctr lib dir key iv n h x ! i = x ! i XOR ks key iv n (map length h) i"
    using assms unfolding stream_laws_def by blast
  have "cl_ctr lib False key iv n h' (cl_ctr lib True key iv n h x) = x" if "map length h = map length h'" for key iv n h h' x
    by (rule nth_equalityI) (simp_all add: ks that xor.assoc)
  then show ?thesis using ks(1) by (simp add: ctr_laws_def)
qed

lemma toy_stream_laws: "stream_laws toy_lib"
  unfolding stream_laws_def
  by (rule exI [of _ "\<lambda>key iv n hs i. of_nat (sum_list (map unat key) + sum_list hs)"]) (simp add: toy_lib_def)

text \<open>The loop over the blocks is one stream: the position is the number of full blocks before and the place
  in the block.\<close>

lemma ctr_loop_stream:
  assumes ks: "\<And>dir key iv n h x. length (cl_ctr lib dir key iv n h x) = length x"
      "\<And>dir key iv n h x i. i < length x \<Longrightarrow> cl_ctr lib dir key iv n h x ! i = x ! i XOR ks key iv n (map length h) i"
    and lib: "ctr_laws lib"
  shows "i < length data \<Longrightarrow> ctr_loop lib dir key iv h data ! i =
    data ! i XOR ks key iv AES_COUNTER_SIZE (map length h @ replicate (i div 16) 16) (i mod 16)"
proof (induction data arbitrary: h i rule: length_induct)
  case (1 data)
  let ?x = "take AES_BLOCK_SIZE data" and ?y = "drop AES_BLOCK_SIZE data"
  have e: "ctr_loop lib dir key iv h data = cl_ctr lib dir key iv AES_COUNTER_SIZE h ?x @ ctr_loop lib dir key iv (h @ [?x]) ?y"
    using 1(2) by (subst ctr_loop.simps) auto
  show ?case
  proof (cases "i < 16")
    case True
    then show ?thesis using 1(2) by (simp add: e nth_append ks AES_BLOCK_SIZE_def)
  next
    case False
    then have l: "length ?y < length data" "i - 16 < length ?y" "length ?x = 16" using 1(2) by (auto simp: AES_BLOCK_SIZE_def)
    have i: "(i - 16) div 16 = i div 16 - 1" "(i - 16) mod 16 = i mod 16" "0 < i div 16"
      using False by (auto simp: le_div_geq le_mod_geq)
    have "map length (h @ [?x]) @ replicate ((i - 16) div 16) 16 = map length h @ replicate (i div 16) 16"
      using i l(3) by (cases "i div 16") simp_all
    moreover have "ctr_loop lib dir key iv h data ! i = ctr_loop lib dir key iv (h @ [?x]) ?y ! (i - 16)"
      using False l(3) by (simp add: e nth_append ks del: length_take)
    ultimately show ?thesis using 1(1) l(1,2) i(2) False 1(2) by (simp add: AES_BLOCK_SIZE_def)
  qed
qed

text \<open>So one keystream serves all messages under a key.\<close>

lemma box_stream:
  assumes "stream_laws lib"
  shows "\<exists>pad. \<forall>data. box lib key data = map (\<lambda>i. data ! i XOR pad i) [0..<length data]"
proof -
  obtain ks where ks: "\<And>dir key iv n h x. length (cl_ctr lib dir key iv n h x) = length x"
      "\<And>dir key iv n h x i. i < length x \<Longrightarrow> cl_ctr lib dir key iv n h x ! i = x ! i XOR ks key iv n (map length h) i"
    using assms unfolding stream_laws_def by blast
  note lib = stream_ctr_laws [OF assms]
  have "box lib key data = map (\<lambda>i. data ! i XOR ks key (replicate 16 0) AES_COUNTER_SIZE (replicate (i div 16) 16) (i mod 16)) [0..<length data]" for data
    by (rule nth_equalityI) (simp_all add: length_box [OF lib], simp add: box_def ctr_loop_stream [OF ks lib, where h = "[]", simplified])
  then show ?thesis by (intro exI allI)
qed

section \<open>The observer\<close>

text \<open>Everything the observer computes: it combines two payloads, without their codes, with a text it knows.\<close>

definition combine :: "bytes \<Rightarrow> bytes \<Rightarrow> bytes" where
  "combine = map2 (XOR)"

definition open_with :: "bytes \<Rightarrow> packet \<Rightarrow> packet \<Rightarrow> bytes" where
  "open_with known q1 q2 = combine known (combine (getDataWithoutMIC q1) (getDataWithoutMIC q2))"

lemma sealed_payload: "sealed lib key c q \<Longrightarrow> getDataWithoutMIC q = c"
  by (auto simp: sealed_def getDataWithoutMIC_def hasMIC_def requiresMIC_def)

lemma combine_boxes:
  assumes "stream_laws lib"
  shows "combine (box lib key x) (box lib key y) = combine x y"
proof -
  obtain pad where pad: "\<And>data. box lib key data = map (\<lambda>i. data ! i XOR pad i) [0..<length data]"
    using box_stream [OF assms] by blast
  have x: "(a XOR p) XOR (b XOR p) = a XOR b" for a b p :: byte
    by (metis xor.assoc xor.commute xor_self_eq xor.right_neutral)
  show ?thesis unfolding combine_def pad by (rule nth_equalityI) (simp_all only: length_map length_zip length_upt minus_nat.diff_0 nth_map nth_zip
        min_less_iff_conj prod.case nth_upt add_0 x)
qed

lemma combine_known: "length y \<le> length x \<Longrightarrow> combine x (combine x y) = y"
  by (simp add: combine_def list_eq_iff_nth_eq flip: xor.assoc)

lemma open_with_sealed:
  assumes "stream_laws lib" "sealed lib key (box lib key x) q1" "sealed lib key (box lib key y) q2" "length y \<le> length x"
  shows "open_with x q1 q2 = y"
  using assms by (simp add: open_with_def sealed_payload combine_boxes combine_known)

text \<open>C13: One known message opens the others. Any two devices of a network, or one device twice, send an
  application message each. Then an observer without any key gets from the two frames the combination of
  the two texts; and if it knows or guesses one of them, for instance the reading of a sensor that it can
  see, it reads every other message of the network that is not longer.\<close>

theorem known_message_opens_others:
  assumes lib: "stream_laws lib" "cipher_laws (cl_aes lib)" "env_lib ea = lib" "env_lib eb = lib"
    and a: "on_air ea a" "networked a key" and b: "on_air eb b" "networked b key"
    and x: "T_MAX_RESERVED < topic" "length x \<le> 217" and y: "T_MAX_RESERVED < topic'" "length y \<le> 217"
  shows "\<exists>a' b' q1 q2. sendData ea topic x target a = Some (RM_E_NONE, a') \<and> sent_frames a' = sent_frames a @ [toByteBuffer q1] \<and>
    sendData eb topic' y target' b = Some (RM_E_NONE, b') \<and> sent_frames b' = sent_frames b @ [toByteBuffer q2] \<and>
    combine (getDataWithoutMIC q1) (getDataWithoutMIC q2) = combine x y \<and>
    (length y \<le> length x \<longrightarrow> open_with x q1 q2 = y)"
proof -
  have ea: "ctr_laws (env_lib ea)" "cipher_laws (cl_aes (env_lib ea))" and eb: "ctr_laws (env_lib eb)" "cipher_laws (cl_aes (env_lib eb))"
    using lib stream_ctr_laws by simp_all
  obtain a' q1 where q1: "sendData ea topic x target a = Some (RM_E_NONE, a')" "sent_frames a' = sent_frames a @ [toByteBuffer q1]"
      "sealed lib key (box lib key x) q1"
    using network_send [OF ea a x, of target] unfolding lib(3) by blast
  obtain b' q2 where q2: "sendData eb topic' y target' b = Some (RM_E_NONE, b')" "sent_frames b' = sent_frames b @ [toByteBuffer q2]"
      "sealed lib key (box lib key y) q2"
    using network_send [OF eb b y, of target'] unfolding lib(4) by blast
  have "combine (getDataWithoutMIC q1) (getDataWithoutMIC q2) = combine x y"
    using combine_boxes [OF lib(1)] sealed_payload [OF q1(3)] sealed_payload [OF q2(3)] by simp
  then show ?thesis using q1 q2 open_with_sealed [OF lib(1) q1(3) q2(3)] by blast
qed

theorem known_message_opens_others_witness:
  "\<exists>a' b' q1 q2. sendData toy_env 0x10 [25] BROADCAST_ADDR (toy_included STANDARD) = Some (RM_E_NONE, a') \<and>
     sent_frames a' = sent_frames (toy_included STANDARD) @ [toByteBuffer q1] \<and>
     sendData toy_env 0x11 [99] BROADCAST_ADDR (toy_included HUB) = Some (RM_E_NONE, b') \<and>
     sent_frames b' = sent_frames (toy_included HUB) @ [toByteBuffer q2] \<and>
     combine (getDataWithoutMIC q1) (getDataWithoutMIC q2) = combine [25] [99] \<and> open_with [25] q1 q2 = [99]"
proof -
  have "env_lib toy_env = toy_lib" by (rule toy_env_lib)
  from known_message_opens_others [OF toy_stream_laws toy_cl_aes this this toy_included_ok(1,2) [of STANDARD] toy_included_ok(1,2) [of HUB],
      where topic = "0x10" and x = "[25]" and topic' = "0x11" and y = "[99]" and target = BROADCAST_ADDR and target' = BROADCAST_ADDR]
  show ?thesis by simp
qed

section \<open>The sensors of the example\<close>

text \<open>A report is a single byte, so the payload of a report is the reading combined with one constant of the
  network: equal readings are equal on the air, whoever sends them and whenever, and one reading that is
  known tells all of them.\<close>

theorem reports_are_comparable:
  fixes s :: "('s, 'u) std_app" and s' :: "('t, 'w) std_app"
  assumes lib: "stream_laws (env_lib (se_env E))" "cipher_laws (cl_aes (env_lib (se_env E)))" "env_lib (se_env E') = env_lib (se_env E)"
    and s: "sa_device s = Some d" "up d" "\<not> rxDone (n_radio (d_net d))" "timely_device (se_now E) d" "on_air (se_env E) d"
      "networked d key" "isIncluded d = Some True" and due: "10000 \<le> se_now E - lastSensorData s"
    and s': "sa_device s' = Some d'" "up d'" "\<not> rxDone (n_radio (d_net d'))" "timely_device (se_now E') d'" "on_air (se_env E') d'"
      "networked d' key" "isIncluded d' = Some True" and due': "10000 \<le> se_now E' - lastSensorData s'"
  shows "\<exists>t t' e e' q q'. std_loop E s = Some t \<and> sa_device t = Some e \<and> emits d e (toByteBuffer q) \<and>
    std_loop E' s' = Some t' \<and> sa_device t' = Some e' \<and> emits d' e' (toByteBuffer q') \<and>
    open_with [word_of_int (se_random E)] q q' = [word_of_int (se_random E')] \<and>
    (getDataWithoutMIC q = getDataWithoutMIC q' \<longleftrightarrow> (word_of_int (se_random E) :: byte) = word_of_int (se_random E'))"
proof -
  let ?lib = "env_lib (se_env E)" and ?x = "[word_of_int (se_random E)] :: bytes" and ?y = "[word_of_int (se_random E')] :: bytes"
  note ctr = stream_ctr_laws [OF lib(1)]
  obtain t e q where q: "std_loop E s = Some t" "sa_device t = Some e" "emits d e (toByteBuffer q)" "sealed ?lib key (box ?lib key ?x) q"
    using std_loop_report [OF ctr lib(2) s due] by blast
  have lib': "ctr_laws (env_lib (se_env E'))" "cipher_laws (cl_aes (env_lib (se_env E')))" using ctr lib(2,3) by simp_all
  obtain t' e' q' where q': "std_loop E' s' = Some t'" "sa_device t' = Some e'" "emits d' e' (toByteBuffer q')" "sealed ?lib key (box ?lib key ?y) q'"
    using std_loop_report [OF lib' s' due'] lib(3) by auto
  have "open_with ?x q q' = ?y" by (rule open_with_sealed [OF lib(1) q(4) q'(4)]) simp
  moreover have "getDataWithoutMIC q = getDataWithoutMIC q' \<longleftrightarrow> ?x = ?y"
    using sealed_payload [OF q(4)] sealed_payload [OF q'(4)] unbox_box [OF ctr] by metis
  ultimately show ?thesis using q q' by blast
qed

end
