(* ===== verification/RM_PowerOn.thy ===== *)
theory RM_PowerOn
  imports RM_MiniHub RM_StandardDevice
begin

text \<open>
  From power on: what \<open>initialize\<close>, a build and the set-up of the radio leave, for any board and any
  answers of the drivers, and the life of the hub application on it. The life of an application is the
  sequence of what happens to it after \<open>setup\<close>: iterations of \<open>loop\<close>, messages of the web page, radio
  interrupts. No component is assumed to have started well; what \<open>RM_Session\<close> shows of a started device
  is shown here to be what starting leads to.
\<close>

section \<open>Start of a device\<close>

context device_store
begin

lemma initializeKeys_inv:
  assumes "inv s" and "e_ops env = ops"
  shows "inv (snd (initializeKeys env s))"
  using assms(1) bs_keep(1) [of s PRIV_KEY]
  by (auto simp: initializeKeys_def assms(2) km_persistPrivateKey_def persistPrivateKey_def validatePrivateKey_def PRIVATE_KEY_SIZE_def
      case_prod_beta split: sum.split)

lemma controller_started:
  assumes "InclusionController env d = Some d'" and "inv (d_store d)" and "e_ops env = ops"
  shows "inv (d_store d') \<and> d_net d' = d_net d \<and> (\<exists>c. d_ctl d' = Some c \<and> protocolState c = PROTOCOL_IDLE)"
proof -
  obtain rc s1 where s1: "initializeKeys env (d_store d) = (rc, s1)" by fastforce
  have i1: "inv s1" using initializeKeys_inv [OF assms(2,3)] s1 by simp
  obtain rc2 g s2 where s2: "initializeForHub (e_rnd env) ops (d_rng d) s1 = (rc2, g, s2)" by (metis surj_pair)
  have "inv s2" by (rule initializeForHub_law(1) [OF i1 slot_length_simps(3) s2])
  then show ?thesis using assms(1,3) s1 s2 i1
    by (cases "d_type d = HUB") (auto simp: InclusionController_def split: if_splits)
qed

end

text \<open>A device that has been initialised, whatever its radio.\<close>

definition started :: "('s \<Rightarrow> bool) \<Rightarrow> 's device \<Rightarrow> bool" where
  "started keeps d \<longleftrightarrow> net_inv (d_net d) \<and> n_esPtr (d_net d) \<and> n_micPtr (d_net d) \<and> key_length (networkKey (n_es (d_net d))) \<and>
     keeps (d_store d) \<and> (\<exists>c. d_ctl d = Some c \<and> protocolState c = PROTOCOL_IDLE)"

lemma started_steady:
  "started keeps d \<Longrightarrow> d_hasRadio d \<Longrightarrow> ra_module (n_radio (d_net d)) \<Longrightarrow> steady keeps d"
  by (auto simp: started_def steady_def ready_def)

lemma initialize_parts:
  assumes "initialize env d = Some (RM_E_NONE, d')"
  obtains s2 d1 where "bs_begin (e_ops env) (snd (e_setParams env (d_store d))) = (RM_E_NONE, s2)"
    "InclusionController env (d\<lparr>d_store := s2, d_hasStorage := True\<rparr>) = Some d1"
    "d' = register_services env d1 \<or> (\<exists>rc. loadAndApplyNetworkKey env (register_services env d1) = Some (rc, d'))"
proof -
  obtain rc s2 where b: "bs_begin (e_ops env) (snd (e_setParams env (d_store d))) = (rc, s2)" by fastforce
  then have rc: "rc = RM_E_NONE" using assms by (auto simp: initialize_def split: if_splits)
  then obtain d1 where d1: "InclusionController env (d\<lparr>d_store := s2, d_hasStorage := True\<rparr>) = Some d1"
    using b assms by (auto simp: initialize_def bind_eq_Some_conv)
  have "d' = register_services env d1 \<or> (\<exists>rc. loadAndApplyNetworkKey env (register_services env d1) = Some (rc, d'))"
    using assms b rc d1 by (auto simp: initialize_def register_services_def Let_def bind_eq_Some_conv split: if_splits)
  then show thesis using that b rc d1 by simp
qed

context device_store
begin

lemma register_started:
  assumes "net_inv (d_net d)" and "key_length (networkKey (n_es (d_net d)))" and "inv (d_store d)"
    and "\<exists>c. d_ctl d = Some c \<and> protocolState c = PROTOCOL_IDLE"
  shows "started inv (register_services env d) \<and> n_radio (d_net (register_services env d)) = n_radio (d_net d)"
  using assms es_inv_setters [of "n_es (d_net d)"]
  by (auto simp: started_def register_services_def Let_def net_inv_def setEncryptionService_def setMicService_def upd_es_def
      setDeviceKeys_def split: prod.split sum.split)

lemma apply_key_started:
  assumes "loadAndApplyNetworkKey env d = Some (rc, d')" and "started inv d" and "e_ops env = ops"
  shows "started inv d' \<and> n_radio (d_net d') = n_radio (d_net d)"
proof -
  obtain rc1 nk where nk: "getCurrentNetworkKey ops [] (d_store d) = (rc1, nk)" by fastforce
  have i: "inv (d_store d)" using assms(2) by (simp add: started_def)
  show ?thesis
    using assms nk getCurrentNetworkKey_length [OF i nk] es_inv_setters(1) [of "n_es (d_net d)" nk]
    by (auto simp: loadAndApplyNetworkKey_def updateSecurityParams_def Let_def bind_eq_Some_conv started_def net_inv_def setNetworkKey_def
        split: if_splits)
qed

lemma initialize_started:
  assumes "initialize env (RadioMeshDevice nm did dt n s g) = Some (RM_E_NONE, d)" and "e_ops env = ops" and "net_inv n"
    and boots: "\<And>s'. bs_begin ops (snd (e_setParams env s)) = (RM_E_NONE, s') \<Longrightarrow> inv s'"
  shows "started inv d \<and> n_radio (d_net d) = n_radio n"
proof -
  let ?d = "RadioMeshDevice nm did dt n s g"
  obtain s2 d1 where i: "bs_begin ops (snd (e_setParams env s)) = (RM_E_NONE, s2)"
      "InclusionController env (?d\<lparr>d_store := s2, d_hasStorage := True\<rparr>) = Some d1"
      "d = register_services env d1 \<or> (\<exists>rc. loadAndApplyNetworkKey env (register_services env d1) = Some (rc, d))"
    using assms(1,2) by (auto simp: RadioMeshDevice_def elim: initialize_parts)
  have c: "inv (d_store d1)" "d_net d1 = n\<lparr>n_es := EncryptionService\<rparr>" "\<exists>c. d_ctl d1 = Some c \<and> protocolState c = PROTOCOL_IDLE"
    using controller_started [OF i(2) _ assms(2)] boots [OF i(1)] by (simp_all add: RadioMeshDevice_def)
  have "started inv (register_services env d1) \<and> n_radio (d_net (register_services env d1)) = n_radio n"
    using register_started [of d1 env] c assms(3) es_inv_init by (simp add: net_inv_def key_length_def EncryptionService_def)
  then show ?thesis using i(3) apply_key_started assms(2) by metis
qed

end

section \<open>Set-up of the radio\<close>

lemma config_call_fine:
  assumes "\<And>r. ra_module r \<Longrightarrow> \<exists>rc r'. cont r = Some (rc, r') \<and> ra_module r'" and "ra_module r"
  shows "\<exists>rc r'. config_call f bad cont r = Some (rc, r') \<and> ra_module r'"
  using assms by (simp add: config_call_def)

lemma startReceive_fine: "ra_module r \<Longrightarrow> \<exists>rc r'. startReceive rl r = Some (rc, r') \<and> ra_module r'"
  by (simp add: startReceive_def)

lemma radio_setup_stored_fine:
  assumes "lp_ss (radioParams r) \<noteq> 0"
  shows "\<exists>rc r'. radio_setup_stored rl r = Some (rc, r') \<and> ra_module r'"
proof -
  let ?p = "radioParams r"
  have fin: "\<exists>rc r'. (do {
          (rc1, r2) \<leftarrow> startReceive rl (r1\<lparr>isSetup := True\<rparr>);
          Some (if rc1 \<noteq> RM_E_NONE then (rc1, r2) else (RM_E_NONE, r2\<lparr>radioParams := ?p\<rparr>)) }) = Some (rc, r') \<and> ra_module r'"
    if "ra_module r1" for r1
    using startReceive_fine [of "r1\<lparr>isSetup := True\<rparr>" rl] that by auto
  show ?thesis
    unfolding radio_setup_stored_def radio_setup_def createModule_cases
    using assms by (auto intro!: config_call_fine fin)
qed

section \<open>What a build leaves\<close>

lemma initialize_total: "\<exists>rc d'. initialize env d = Some (rc, d')"
  by (cases env d rule: initialize_cases) auto

text \<open>The device of a build, stage by stage.\<close>

lemma build_parts:
  fixes bo :: "('s, 'd, 'w) board" and b :: "('w, 'c) builder"
  assumes "isBuilderStarted b"
  obtains (none) b' bo' where "build env L nm did dt b bo = Some (None, b', bo')"
      "buildable L b \<Longrightarrow> \<not> (\<exists>d. initialize env (RadioMeshDevice nm did dt (bo_net bo) (bo_store bo) (bo_rng bo)) = Some (RM_E_NONE, d))"
  | (device) d h b' bo' where "initialize env (RadioMeshDevice nm did dt (bo_net bo) (bo_store bo) (bo_rng bo)) = Some (RM_E_NONE, d)"
      "build env L nm did dt b bo = Some (Some h, b', bo')" "wd_dev h = plan_device b (setDeviceType dt d)"
      "devicePortal h = hasDevicePortal (blueprint b)"
      "hasDisplay (blueprint b) \<Longrightarrow> \<not> b_useCustomDisplay b \<Longrightarrow> getDisplay h = OledSingleton \<and> wd_oled h = (bo_oled bo)\<lparr>displayParams := b_oledParams b\<rparr>"
proof -
  let ?d0 = "RadioMeshDevice nm did dt (bo_net bo) (bo_store bo) (bo_rng bo)"
  obtain rc d where i: "initialize env ?d0 = Some (rc, d)" using initialize_total [of env ?d0] by blast
  let ?h = "upd_dev (setDeviceType dt) ((new_device nm did dt bo)\<lparr>wd_dev := d\<rparr>) :: ('s, 'd, 'w, 'c) whole_device"
  obtain ok h2 where r: "run_stages (build_stages L b) ?h = (ok, h2)" by fastforce
  show thesis
  proof (cases "rc = RM_E_NONE \<and> ok")
    case True
    then have "buildable L b" using run_stages_ok [of L b ?h] r by simp
    from run_stages_plan [OF this, of ?h] r
    have h2: "h2 = plan_portal b (plan_wifi b (plan_display b (?h\<lparr>wd_dev := plan_device b (wd_dev ?h)\<rparr>)))" by simp
    show thesis
    proof (rule device)
      show "initialize env ?d0 = Some (RM_E_NONE, d)" using i True by simp
      show "build env L nm did dt b bo = Some (Some h2, b\<lparr>isBuilderStarted := False\<rparr>, board_of h2)"
        using assms i r True by (simp add: build_def new_device_def)
    qed (simp_all add: h2 plan_portal_def plan_wifi_def plan_display_def upd_dev_def new_device_def getDisplay_def)
  next
    case False
    moreover have "ok \<longleftrightarrow> buildable L b" using run_stages_ok [of L b ?h] r by simp
    ultimately have no: "buildable L b \<Longrightarrow> \<not> (\<exists>d. initialize env ?d0 = Some (RM_E_NONE, d))" using i by auto
    from False have "\<exists>b' bo'. build env L nm did dt b bo = Some (None :: ('s, 'd, 'w, 'c) whole_device option, b', bo')"
      using assms i r by (auto simp: build_def new_device_def Let_def)
    then show thesis using none no by blast
  qed
qed

lemma plan_device_started:
  "started keeps d \<Longrightarrow> started keeps (plan_device b (setDeviceType dt d))"
  by (simp add: started_def plan_device_def plan_calls_def plan_radio_def plan_relay_def plan_crypto_def setDeviceType_def net_inv_def radio_inv_def)

lemma plan_device_radio:
  "hasRadio (blueprint b) \<Longrightarrow> n_radio (d_net (plan_device b (setDeviceType dt d))) = (n_radio (d_net d))\<lparr>radioParams := b_radioParams b\<rparr>"
  by (simp add: plan_device_def plan_calls_def plan_radio_def plan_relay_def plan_crypto_def setDeviceType_def)

lemma started_radio: "started keeps d \<Longrightarrow> radio_inv r \<Longrightarrow> started keeps (upd_radio r d)"
  by (simp add: started_def upd_radio_def net_inv_def)

text \<open>A board at power on: the components as constructed, and an EEPROM whose content, if it is taken
  for valid, was written by the storage.\<close>

definition powered :: "'e eeprom_lib \<Rightarrow> ('e \<Rightarrow> nat \<Rightarrow> bool) \<Rightarrow> ('e storage, 'd, 'w) board \<Rightarrow> bool" where
  "powered L opened bo \<longleftrightarrow> net_inv (bo_net bo) \<and> n_radio (bo_net bo) = LoraRadio \<and>
     (\<forall>s. st_begin L ((bo_store bo)\<lparr>st_size := EEPROM_STORAGE_MAX_SIZE\<rparr>) = (RM_E_NONE, s) \<longrightarrow> eeprom_inv L opened s)"

text \<open>Surroundings in which the libraries keep their laws, on the EEPROM.\<close>

definition lawful_board :: "'e eeprom_lib \<Rightarrow> 'e storage env \<Rightarrow> bool" where
  "lawful_board L env \<longleftrightarrow> eeprom_env L env \<and> lawful (eeprom_ops L) env \<and> full_frames (w_rl (e_world env))"

section \<open>The hub application keeps running\<close>

definition returns :: "('a \<Rightarrow> bool) \<Rightarrow> 'a option \<Rightarrow> bool" where
  "returns P x \<longleftrightarrow> (\<exists>a. x = Some a \<and> P a)"

lemma returns_Some [simp]: "returns P (Some a) = P a"
  by (simp add: returns_def)

lemma returns_bind: "returns P x \<Longrightarrow> (\<And>a. P a \<Longrightarrow> returns Q (f a)) \<Longrightarrow> returns Q (Option.bind x f)"
  by (auto simp: returns_def)

lemma returns_safe: "safe P r \<Longrightarrow> (\<And>rc d. P d \<Longrightarrow> returns Q (f (rc, d))) \<Longrightarrow> returns Q (Option.bind r f)"
  by (auto simp: safe_def)

text \<open>A hub application with a device that is in order.\<close>

definition hub_live :: "('s \<Rightarrow> bool) \<Rightarrow> ('s, 'w) hub_app \<Rightarrow> bool" where
  "hub_live keeps a \<longleftrightarrow> app_ok a \<and> ha_portal a \<and> (\<exists>d. ha_device a = Some d \<and> steady keeps d)"

lemma hub_live_web: "web_only a a' \<Longrightarrow> hub_live keeps a \<Longrightarrow> hub_live keeps a'"
  by (auto simp: hub_live_def app_ok_def dest: web_onlyD)

lemma steady_mode: "steady keeps d \<Longrightarrow> \<exists>m. isInclusionModeEnabled d = Some m"
  by (auto simp: isInclusionModeEnabled_def steady_def)

lemma live_device: "hub_live keeps a \<Longrightarrow> \<exists>d m. ha_device a = Some d \<and> steady keeps d \<and> isInclusionModeEnabled d = Some m"
  using steady_mode by (fastforce simp: hub_live_def)

lemma returns_web:
  assumes "hub_live keeps a" and "\<exists>a'. x = Some a'" and "\<And>a'. x = Some a' \<Longrightarrow> web_only a a'"
  shows "returns (hub_live keeps) x"
  using assms hub_live_web by (auto simp: returns_def)

lemma live_messages:
  assumes "hub_live keeps a"
  shows "returns (hub_live keeps) (portal_send H m a)" "returns (hub_live keeps) (handleGetStatus H a)"
    "returns (hub_live keeps) (handleGetDevices H a)" "returns (hub_live keeps) (sendInclusionEvent H e i a)"
    "returns (hub_live keeps) (push_status H a)"
proof -
  obtain d m where a: "ha_portal a" "ha_device a = Some d" "isInclusionModeEnabled d = Some m"
    using assms live_device [OF assms] by (auto simp: hub_live_def)
  show "returns (hub_live keeps) (portal_send H m a)" for m
    by (rule returns_web [OF assms portal_send_total [OF a(1)] portal_send_web])
  have s: "\<exists>a'. handleGetStatus H a = Some a'" using a portal_send_total [OF a(1)] by (simp add: handleGetStatus_def)
  then show "returns (hub_live keeps) (handleGetStatus H a)" by (rule returns_web [OF assms _ web_ops(1)])
  show "returns (hub_live keeps) (handleGetDevices H a)"
    by (rule returns_web [OF assms messages_total(2) [OF a(1)] web_ops(2)])
  show "returns (hub_live keeps) (sendInclusionEvent H e i a)"
    by (rule returns_web [OF assms messages_total(1) [OF a(1)] web_ops(3)])
  have "\<exists>a'. push_status H a = Some a'" using s by (simp add: push_status_def)
  then show "returns (hub_live keeps) (push_status H a)" by (rule returns_web [OF assms _ push_status_web])
qed

lemma hub_live_updates [simp]:
  "hub_live keeps a \<Longrightarrow> steady keeps d \<Longrightarrow> hub_live keeps (a\<lparr>ha_device := Some d\<rparr>)"
  "hub_live keeps (a\<lparr>totalInclusionRequests := x\<rparr>) = hub_live keeps a"
  "hub_live keeps (a\<lparr>successfulInclusions := x\<rparr>) = hub_live keeps a"
  "hub_live keeps (a\<lparr>lastStatusUpdate := t\<rparr>) = hub_live keeps a"
  "hub_live keeps (a\<lparr>connectedDevicesMap := m\<rparr>) = hub_live keeps a"
  "hub_live keeps (track_device i t r a) = hub_live keeps a"
  "hub_live keeps (refresh_device i t r a) = hub_live keeps a"
  by (auto simp: hub_live_def app_ok_def track_device_def refresh_device_def split: option.splits)

lemma live_rssi:
  assumes "hub_live keeps a"
  shows "\<exists>rssi a'. hub_rssi H a = Some (rssi, a') \<and> hub_live keeps a'"
proof (cases "ha_radio a")
  case True
  obtain d where d: "ha_device a = Some d" "steady keeps d" using assms by (auto simp: hub_live_def)
  then have r: "ra_module (n_radio (d_net d))" by (simp add: steady_def ready_def)
  have "steady keeps (upd_radio (tick (n_radio (d_net d))) d)"
    using d(2) by (simp add: steady_def ready_def net_inv_def upd_radio_def radio_inv_def)
  then show ?thesis using True d(1) r assms by (simp add: hub_rssi_def radio_getRSSI_def)
qed (use assms in \<open>simp add: hub_rssi_def\<close>)

context device_store
begin

lemma live_start:
  assumes a: "hub_live inv a" and env: "lawful ops (he_env H)"
  shows "returns (hub_live inv) (startInclusionMode H a)"
proof (cases "appState a = READY")
  case True
  obtain d where d: "ha_device a = Some d" "steady inv d" using a by (auto simp: hub_live_def)
  have no: "\<not> inclusionModeActive a" using a True by (simp add: hub_live_def app_ok_def)
  have err: "hub_live inv (a\<lparr>ha_device := Some d', appState := APP_ERROR\<rparr>)" if "steady inv d'" for d'
    using that a no by (simp add: hub_live_def app_ok_def)
  have act: "hub_live inv (a\<lparr>ha_device := Some d', inclusionModeActive := True, appState := INCLUSION_MODE_ACTIVE,
      totalInclusionRequests := 0, successfulInclusions := 0\<rparr>)" if "steady inv d'" for d'
    using that a by (simp add: hub_live_def app_ok_def)
  show ?thesis
    using True d by (auto simp: startInclusionMode_def sendInclusionOpen_def
        intro!: returns_safe [OF safe_mode [OF _ env]] returns_safe [OF safe_open [OF _ env]] err live_messages(5) act)
qed (use a in \<open>simp add: startInclusionMode_def\<close>)

lemma live_stop:
  assumes a: "hub_live inv a" and env: "lawful ops (he_env H)"
  shows "returns (hub_live inv) (stopInclusionMode H a)"
proof (cases "inclusionModeActive a")
  case True
  obtain d where d: "ha_device a = Some d" "steady inv d" using a by (auto simp: hub_live_def)
  have "hub_live inv (a\<lparr>ha_device := Some d', inclusionModeActive := False, appState := READY\<rparr>)" if "steady inv d'" for d'
    using that a by (simp add: hub_live_def app_ok_def)
  then show ?thesis
    using True d by (auto simp: stopInclusionMode_def intro!: returns_safe [OF safe_mode [OF _ env]] live_messages(5))
qed (use a in \<open>simp add: stopInclusionMode_def\<close>)

lemma live_callback:
  assumes a: "hub_live inv a" and env: "lawful ops (he_env H)"
  shows "returns (hub_live inv) (hub_onPacketReceived H call a)"
proof (cases call)
  case (Pair q err)
  show ?thesis
  proof (cases q)
    case (Some p)
    obtain r1 b1 where b1: "hub_rssi H (a\<lparr>successfulInclusions := successfulInclusions a + 1\<rparr>) = Some (r1, b1)" "hub_live inv b1"
      using live_rssi [of inv "a\<lparr>successfulInclusions := successfulInclusions a + 1\<rparr>" H] a by auto
    obtain r2 b2 where b2: "hub_rssi H a = Some (r2, b2)" "hub_live inv b2" using live_rssi [OF a] by blast
    show ?thesis using Pair Some a b1 b2
      by (auto simp: hub_onPacketReceived_def Let_def intro!: returns_bind [OF live_messages(4)] returns_bind [OF live_messages(3)]
          live_messages(4) live_stop [OF _ env])
  qed (use Pair a in \<open>simp add: hub_onPacketReceived_def\<close>)
qed

lemma live_callbacks:
  assumes "hub_live inv a" and env: "lawful ops (he_env H)"
  shows "returns (hub_live inv) (run_callbacks H cs a)"
  using assms(1)
proof (induction cs arbitrary: a)
  case (Cons c cs)
  then show ?case by (auto intro!: returns_bind [OF live_callback [OF _ env]])
qed simp

lemma live_run:
  assumes a: "hub_live inv a" and env: "lawful ops (he_env H)" and full: "full_frames (w_rl (e_world (he_env H)))"
  shows "\<exists>rc a'. hub_run H a = Some (rc, a') \<and> hub_live inv a'"
proof -
  obtain d where d: "ha_device a = Some d" "steady inv d" using a by (auto simp: hub_live_def)
  obtain rc0 d1 where d1: "checkProtocolTimeouts (he_env H) d = Some (rc0, d1)" "steady inv d1"
    using safe_timeouts [OF d(2) env] by (auto simp: safe_def)
  obtain rc d2 where d2: "run_rx (he_env H) d1 = Some (rc, d2)" "steady inv d2"
    using safe_run_rx [OF d1(2) env full] by (auto simp: safe_def)
  obtain a1 where a1: "run_callbacks H (drop (length (rxCalls d1)) (rxCalls d2)) (a\<lparr>ha_device := Some d2\<rparr>) = Some a1" "hub_live inv a1"
    using live_callbacks [OF hub_live_updates(1) [OF a d2(2)] env] by (auto simp: returns_def)
  obtain d3 where d3: "ha_device a1 = Some d3" "steady inv d3" using a1(2) by (auto simp: hub_live_def)
  obtain rc1 d4 where d4: "run_tx (he_env H) d3 = Some (rc1, d4)" "steady inv d4"
    using safe_run_tx [OF d3(2) env] by (auto simp: safe_def)
  show ?thesis using d(1) d1 d2 a1 d3 d4 by (simp add: hub_run_def)
qed

lemma live_loop:
  assumes a: "hub_live inv a" and env: "lawful ops (he_env H)" and full: "full_frames (w_rl (e_world (he_env H)))"
  shows "returns (hub_live inv) (hub_loop H a)"
proof -
  obtain rc a1 where a1: "hub_run H a = Some (rc, a1)" "hub_live inv a1" using live_run [OF assms] by blast
  obtain d m where d: "ha_device a1 = Some d" "isInclusionModeEnabled d = Some m"
    using live_device [OF a1(2)] by auto
  have "\<exists>a2. sync_mode a1 = Some a2 \<and> hub_live inv a2"
    using d a1(2) by (auto simp: sync_mode_def hub_live_def app_ok_def)
  then obtain a2 where a2: "sync_mode a1 = Some a2" "hub_live inv a2" by blast
  have "ha_device a \<noteq> None" using a by (auto simp: hub_live_def)
  then show ?thesis using a1(1) a2 by (auto simp: hub_loop_def intro!: returns_bind [OF live_messages(5)])
qed

lemma live_event:
  assumes a: "hub_live inv a"
  shows "lawful ops (he_env H) \<Longrightarrow> full_frames (w_rl (e_world (he_env H))) \<Longrightarrow> returns (hub_live inv) (hub_event_step (HubLoop H) (Some a))"
    "lawful ops (he_env H) \<Longrightarrow> returns (hub_live inv) (hub_event_step (HubMessage H client t bs) (Some a))"
proof -
  have "ha_device a \<noteq> None" using a by (auto simp: hub_live_def)
  then have "returns (hub_live inv) (handleSetInclusionMode H bs a)" if "lawful ops (he_env H)"
    using that a by (auto simp: handleSetInclusionMode_def
        intro!: returns_bind [OF live_start] returns_bind [OF live_stop] live_messages(2))
  then show "lawful ops (he_env H) \<Longrightarrow> returns (hub_live inv) (hub_event_step (HubMessage H client t bs) (Some a))"
    using live_messages(2,3) [OF a] a by (simp add: hub_handlers_def)
qed (use live_loop [OF a] in simp)

end

section \<open>The life of a hub\<close>

text \<open>The interrupt handler is attached when the radio is set up.\<close>

definition device_interrupt :: "irq_flags \<Rightarrow> 's device \<Rightarrow> 's device option" where
  "device_interrupt irq d =
     (if isSetup (n_radio (d_net d)) then map_option (\<lambda>r. upd_radio r d) (onInterrupt irq (n_radio (d_net d))) else Some d)"

datatype ('s, 'w) hub_happening = HubEvent "('s, 'w) hub_event" | HubInterrupt irq_flags

fun hub_happens :: "('s, 'w) hub_happening \<Rightarrow> ('s, 'w) hub_app option \<Rightarrow> ('s, 'w) hub_app option" where
  "hub_happens (HubEvent ev) x = hub_event_step ev x"
| "hub_happens (HubInterrupt irq) x = do {
     a \<leftarrow> x;
     case ha_device a of
       None \<Rightarrow> Some a
     | Some d \<Rightarrow> do { d1 \<leftarrow> device_interrupt irq d; Some (a\<lparr>ha_device := Some d1\<rparr>) } }"

definition hub_life :: "('s, 'w) hub_happening list \<Rightarrow> ('s, 'w) hub_app option \<Rightarrow> ('s, 'w) hub_app option" where
  "hub_life evs x = foldl (\<lambda>x ev. hub_happens ev x) x evs"

fun hub_happening_ok :: "'e eeprom_lib \<Rightarrow> ('e storage, 'w) hub_happening \<Rightarrow> bool" where
  "hub_happening_ok L (HubEvent (HubLoop H)) = lawful_board L (he_env H)"
| "hub_happening_ok L (HubEvent (HubMessage H client t bs)) = lawful_board L (he_env H)"
| "hub_happening_ok L (HubInterrupt irq) = True"

lemma steady_device_interrupt:
  fixes L :: "'e eeprom_lib"
  assumes "steady (eeprom_inv L opened) d"
  shows "\<exists>d'. device_interrupt irq d = Some d' \<and> steady (eeprom_inv L opened) d'"
proof (cases "isSetup (n_radio (d_net d))")
  case True
  have "ra_module (n_radio (d_net d))" using assms by (simp add: steady_def ready_def)
  then have "\<exists>r. onInterrupt irq (n_radio (d_net d)) = Some r" by (simp add: onInterrupt_def Let_def)
  then obtain r where r: "onInterrupt irq (n_radio (d_net d)) = Some r" by blast
  then show ?thesis using True node.steady_interrupt [OF assms r] by (simp add: device_interrupt_def)
qed (use assms in \<open>simp add: device_interrupt_def\<close>)

text \<open>The two ways in which a hub lives: with a device in order, or without one.\<close>

definition hub_sound :: "('s \<Rightarrow> bool) \<Rightarrow> ('s, 'w) hub_app \<Rightarrow> bool" where
  "hub_sound keeps a \<longleftrightarrow> hub_live keeps a \<or> ha_device a = None"

lemma without_device:
  assumes "ha_device a = None"
  shows "hub_happens ev (Some a) = Some a"
proof (cases ev)
  case (HubEvent e)
  then show ?thesis using assms
    by (cases e) (auto simp: hub_loop_def hub_handlers_def handleGetStatus_def handleGetDevices_def handleSetInclusionMode_def)
qed (use assms in simp)

lemma sound_happens:
  fixes L :: "'e eeprom_lib"
  assumes "hub_happening_ok L ev" and "hub_live (eeprom_inv L opened) a"
  shows "returns (hub_live (eeprom_inv L opened)) (hub_happens ev (Some a))"
proof (cases ev)
  case (HubEvent e)
  then show ?thesis using assms node.live_event [OF assms(2)] by (cases e) (auto simp: lawful_board_def)
next
  case (HubInterrupt irq)
  obtain d where d: "ha_device a = Some d" "steady (eeprom_inv L opened) d" using assms(2) by (auto simp: hub_live_def)
  then show ?thesis using HubInterrupt steady_device_interrupt [OF d(2), of irq] assms(2) by auto
qed

lemma sound_life:
  fixes L :: "'e eeprom_lib"
  assumes "\<forall>ev \<in> set evs. hub_happening_ok L ev" and "hub_sound (eeprom_inv L opened) a"
  shows "\<exists>a'. hub_life evs (Some a) = Some a' \<and> hub_sound (eeprom_inv L opened) a' \<and> (ha_device a' = None \<longleftrightarrow> ha_device a = None)"
  using assms
proof (induction evs arbitrary: a)
  case Nil
  then show ?case by (simp add: hub_life_def)
next
  case (Cons ev evs)
  have "\<exists>a1. hub_happens ev (Some a) = Some a1 \<and> hub_sound (eeprom_inv L opened) a1 \<and> (ha_device a1 = None \<longleftrightarrow> ha_device a = None)"
  proof (cases "ha_device a = None")
    case True
    then show ?thesis using without_device [of a ev] by (auto simp: hub_sound_def)
  next
    case False
    then have "hub_live (eeprom_inv L opened) a" using Cons.prems(2) by (auto simp: hub_sound_def)
    then show ?thesis using sound_happens [of L ev opened a] Cons.prems(1) False by (auto simp: hub_sound_def returns_def hub_live_def)
  qed
  then obtain a1 where a1: "hub_happens ev (Some a) = Some a1" "hub_sound (eeprom_inv L opened) a1"
      "(ha_device a1 = None) = (ha_device a = None)" by (elim exE conjE) (rule that)
  have "hub_life (ev # evs) (Some a) = hub_life evs (Some a1)" using a1(1) by (simp add: hub_life_def)
  moreover obtain a' where "hub_life evs (Some a1) = Some a'" "hub_sound (eeprom_inv L opened) a'" "ha_device a' = None \<longleftrightarrow> ha_device a1 = None"
    using Cons.IH [OF _ a1(2)] Cons.prems(1) by auto
  ultimately have "hub_life (ev # evs) (Some a) = Some a'" "hub_sound (eeprom_inv L opened) a'" "(ha_device a' = None) = (ha_device a = None)"
    using a1(3) by simp_all
  then show ?case by (intro exI [of _ a'] conjI)
qed

section \<open>From power on\<close>

lemma powered_start:
  fixes L :: "'e eeprom_lib"
  assumes "initialize env (RadioMeshDevice nm did dt (bo_net bo) (bo_store bo) (bo_rng bo)) = Some (RM_E_NONE, d)"
    and "powered L opened bo" and "lawful_board L env"
  shows "started (eeprom_inv L opened) d \<and> n_radio (d_net d) = LoraRadio"
proof -
  have "started (eeprom_inv L opened) d \<and> n_radio (d_net d) = n_radio (bo_net bo)"
    by (rule node.initialize_started [OF assms(1)])
      (use assms(2,3) in \<open>auto simp: powered_def lawful_board_def lawful_def eeprom_env_def eeprom_ops_def st_setParams_def EEPROM_STORAGE_MAX_SIZE_def\<close>)
  then show ?thesis using assms(2) by (simp add: powered_def)
qed

text \<open>The device of a build with a radio, after its radio has been set up.\<close>

lemma built_radio:
  assumes "started keeps d" and "n_radio (d_net d) = LoraRadio" and "hasRadio (blueprint b)"
    and "lp_ss (b_radioParams b) \<noteq> 0" and h: "h = plan_device b (setDeviceType dt d)"
  shows "\<exists>rc r. radio_setup_stored rl (n_radio (d_net h)) = Some (rc, r) \<and> steady keeps (upd_radio r h)"
proof -
  have r: "n_radio (d_net h) = LoraRadio\<lparr>radioParams := b_radioParams b\<rparr>" using plan_device_radio [OF assms(3), of dt d] assms(2) h by simp
  then obtain rc r' where r': "radio_setup_stored rl (n_radio (d_net h)) = Some (rc, r')" "ra_module r'"
    using radio_setup_stored_fine [of "n_radio (d_net h)" rl] assms(4) by auto
  have "started keeps (upd_radio r' h)"
    using started_radio [OF plan_device_started [OF assms(1)], of r' b dt] r'(2) h by (simp add: radio_inv_def)
  then have "steady keeps (upd_radio r' h)"
    using started_steady r'(2) assms(3) h by (fastforce simp: upd_radio_def)
  then show ?thesis using r'(1) by blast
qed

lemma hub_setup_sound:
  fixes L :: "'e eeprom_lib"
  assumes "powered L opened bo" and "lawful_board L (he_env H)"
  shows "\<exists>a rest. hub_setup H C bo v (hub_start w) = Some (a, rest) \<and> hub_sound (eeprom_inv L opened) a"
proof (cases rule: build_parts [where b = "hub_builder H C" and env = "he_env H" and nm = "DEVICE_NAME C" and did = "DEVICE_ID C"
      and dt = HUB and bo = bo and L = "hc_wifi C", OF hub_builder_plan(1)])
  case (1 b' bo')
  then show ?thesis by (auto simp: hub_setup_def initializeHardware_def hub_sound_def)
next
  case (2 d h b' bo')
  have bp: "hasRadio (blueprint (hub_builder H C))" "hasDevicePortal (blueprint (hub_builder H C))"
      "lp_ss (b_radioParams (hub_builder H C)) \<noteq> 0"
    by (simp_all add: hub_builder_plan HELTEC_WIFI_LORA_32_V3_def)
  note st = powered_start [OF 2(1) assms]
  obtain rc r where r: "radio_setup_stored (w_rl (e_world (he_env H))) (n_radio (d_net (wd_dev h))) = Some (rc, r)"
      "steady (eeprom_inv L opened) (upd_radio r (wd_dev h))"
    using built_radio [OF _ _ bp(1,3) 2(3)] st by blast
  have radio: "d_hasRadio (wd_dev h)" using 2(3) bp(1) by simp
  have portal: "devicePortal h" using 2(4) bp(2) by simp
  let ?a1 = "(hub_start w)\<lparr>ha_device := Some (wd_dev h), ha_radio := d_hasRadio (wd_dev h), ha_portal := devicePortal h,
    ha_portalRunning := isRunning (wd_portal h)\<rparr> :: ('e storage, 'b) hub_app"
  let ?a2 = "?a1\<lparr>ha_device := Some (upd_radio r (wd_dev h))\<rparr>"
  obtain okp p1 v1 where ap: "setupAccessPoint (hc_wifi C) (wifiAccessPoint h) (wd_ap h) v = (okp, p1, v1)" by (rule prod_cases3)
  obtain ok pt1 w1 where pt: "setupDevicePortal (hub_web (he_web H)) (devicePortal h) (wd_portal h) (Some ?a2) = (ok, pt1, w1)"
    by (rule prod_cases3)
  from setupDevicePortal_app [OF pt] obtain w' where w': "w1 = Some (?a2\<lparr>ha_web := w'\<rparr>)" by blast
  have live: "hub_live (eeprom_inv L opened) a"
    if "ha_device a = Some (upd_radio r (wd_dev h))" "ha_portal a" "\<not> inclusionModeActive a" "appState a \<noteq> INCLUSION_MODE_ACTIVE"
    for a :: "('e storage, 'b) hub_app"
    using that r(2) by (simp add: hub_live_def app_ok_def)
  show ?thesis
    using 2(2) r(1) radio ap pt w' portal
    by (cases "rc = RM_E_NONE"; cases okp)
      (simp_all add: hub_setup_def initializeHardware_def Let_def hub_sound_def live hub_start_def)
qed

text \<open>An EEPROM that a storage has written, after its next start; and one with anything else on it, which
  is formatted.\<close>

lemma boots_stored:
  assumes "eeprom_inv L opened s" and "ee_begin L EEPROM_STORAGE_MAX_SIZE m = (True, st_mem s)"
  shows "st_begin L (s\<lparr>st_mem := m, st_initialized := False\<rparr>) = (RM_E_NONE, s)"
proof -
  obtain es where r: "repr L opened s es" and sz: "st_size s = EEPROM_STORAGE_MAX_SIZE" using assms(1) by (auto simp: eeprom_inv_def)
  have i: "s\<lparr>st_initialized := True\<rparr> = s" using r by (simp add: repr_def)
  have "isStorageValid L s" using readStorageHeader_repr [OF r] by (simp add: isStorageValid_def good_header_def)
  then show ?thesis using assms(2) sz i by (simp add: st_begin_def EEPROM_STORAGE_MAX_SIZE_def)
qed

lemma boots_fresh:
  assumes "eeprom_laws L opened" and "\<not> st_initialized s" and "st_size s = EEPROM_STORAGE_MAX_SIZE"
    and "ee_begin L (st_size s) (st_mem s) = (True, m)" and "\<not> isStorageValid L (s\<lparr>st_mem := m, st_initialized := True\<rparr>)"
    and "st_begin L s = (RM_E_NONE, s')"
  shows "eeprom_inv L opened s'"
proof -
  have "SH_SIZE \<le> st_size s" "st_size s \<le> EEPROM_STORAGE_MAX_SIZE" using assms(3) by (simp_all add: SH_SIZE_def EEPROM_STORAGE_MAX_SIZE_def)
  from st_begin_fresh [OF assms(1,2) this assms(4,5)] assms(6) have "repr L opened s' []" "st_size s' = st_size s" by auto
  then show ?thesis using assms(1,3) by (auto simp: eeprom_inv_def eeprom_layout_def)
qed

text \<open>A board that is started with the EEPROM that an earlier run has left.\<close>

definition unplugged :: "'e eeprom_lib \<Rightarrow> ('e \<Rightarrow> nat \<Rightarrow> bool) \<Rightarrow> 'e storage \<Rightarrow> ('e storage, 'd, 'w) board \<Rightarrow> bool" where
  "unplugged L opened s bo \<longleftrightarrow> eeprom_inv L opened s \<and> net_inv (bo_net bo) \<and> n_radio (bo_net bo) = LoraRadio \<and>
     (\<exists>m. bo_store bo = s\<lparr>st_mem := m, st_initialized := False\<rparr> \<and> ee_begin L EEPROM_STORAGE_MAX_SIZE m = (True, st_mem s))"

lemma unplugged_powered:
  assumes "unplugged L opened s bo"
  shows "powered L opened bo"
proof -
  obtain m where m: "bo_store bo = s\<lparr>st_mem := m, st_initialized := False\<rparr>" "ee_begin L EEPROM_STORAGE_MAX_SIZE m = (True, st_mem s)"
      "eeprom_inv L opened s" using assms by (auto simp: unplugged_def)
  have "(bo_store bo)\<lparr>st_size := EEPROM_STORAGE_MAX_SIZE\<rparr> = bo_store bo" using m(1,3) by (cases s) (simp add: eeprom_inv_def)
  then show ?thesis using boots_stored [OF m(3,2)] m(1,3) assms by (simp add: powered_def unplugged_def)
qed

text \<open>C3: The hub application never runs into undefined behaviour, from power on. On any board whose EEPROM
  was written by the storage or is not taken for valid, the set-up returns, whether the build, the radio,
  the access point and the portal succeed or not, and whatever happens afterwards in any order
  (iterations of the main loop, messages of clients with any type and content, interrupts, received
  frames of any content that hold a header, any times, noise and errors of the drivers and the
  EEPROM) returns as well. No null pointer is followed and nothing is read out of bounds; a hub that
  was built keeps its device in order, one that was not stays without.\<close>

theorem hub_never_faults:
  fixes L :: "'e eeprom_lib"
  assumes "powered L opened bo" and "lawful_board L (he_env H)" and "\<forall>ev \<in> set evs. hub_happening_ok L ev"
  shows "\<exists>a rest a'. hub_setup H C bo v (hub_start w) = Some (a, rest) \<and> hub_life evs (Some a) = Some a' \<and>
    (ha_device a' = None \<longleftrightarrow> ha_device a = None) \<and> (\<forall>d. ha_device a' = Some d \<longrightarrow> steady (eeprom_inv L opened) d)"
proof -
  obtain a rest where a: "hub_setup H C bo v (hub_start w) = Some (a, rest)" "hub_sound (eeprom_inv L opened) a"
    using hub_setup_sound [OF assms(1,2), of C v w] by blast
  obtain a' where a': "hub_life evs (Some a) = Some a'" "hub_sound (eeprom_inv L opened) a'" "(ha_device a' = None) = (ha_device a = None)"
    using sound_life [OF assms(3) a(2)] by (elim exE conjE) (rule that)
  have "\<forall>d. ha_device a' = Some d \<longrightarrow> steady (eeprom_inv L opened) d" using a'(2) by (auto simp: hub_sound_def hub_live_def)
  with a(1) a'(1,3) show ?thesis by (intro exI [of _ a] exI [of _ rest] exI [of _ a'] conjI)
qed

section \<open>Concrete boards\<close>

definition toy_power_env :: "(bytes storage, toy_web) hub_env" where
  "toy_power_env = toy_hub_env\<lparr>he_env := toy_air\<rparr>"

lemma toy_air_board: "lawful_board ram_eeprom toy_air" "lawful_board ram_eeprom (later t toy_air)"
  using toy_air_ok toy_eeprom_env by (simp_all add: lawful_board_def lawful_def eeprom_env_def later_def toy_air_def)

definition power_net :: net where
  "power_net = toy_net\<lparr>n_radio := LoraRadio\<rparr>"

lemma power_net_ok: "net_inv power_net" "n_radio power_net = LoraRadio"
  using toy_net_inv by (simp_all add: power_net_def net_inv_def radio_inv_init)

definition power_board :: "bytes storage \<Rightarrow> 'w portal \<Rightarrow> (bytes storage, unit, 'w) board" where
  "power_board s pt = \<lparr>bo_net = power_net, bo_store = s\<lparr>st_initialized := False\<rparr>, bo_rng = (None, 0), bo_oled = OledDisplay,
     bo_wifi = WifiConnector, bo_ap = WifiAccessPoint, bo_portal = pt\<rparr>"

lemma power_board_unplugged:
  assumes "eeprom_inv ram_eeprom ram_opened s"
  shows "unplugged ram_eeprom ram_opened s (power_board s pt)"
proof -
  have "length (st_mem s) = EEPROM_STORAGE_MAX_SIZE" using assms by (auto simp: eeprom_inv_def repr_def ram_opened_def)
  then have "ee_begin ram_eeprom EEPROM_STORAGE_MAX_SIZE (st_mem s) = (True, st_mem s)" by (simp add: ram_eeprom_def)
  moreover have "s\<lparr>st_initialized := False\<rparr> = s\<lparr>st_mem := st_mem s, st_initialized := False\<rparr>" by simp
  ultimately show ?thesis using assms power_net_ok unfolding unplugged_def power_board_def by (auto intro!: exI [of _ "st_mem s"])
qed

definition rx_done :: irq_flags where
  "rx_done = \<lparr>IRQ_RX_DONE = True, IRQ_TX_DONE = False, IRQ_TIMEOUT = False, IRQ_CRC_ERR = False, IRQ_HEADER_ERR = False\<rparr>"

abbreviation (input) toy_hub_portal :: "(bytes storage, toy_web) hub_app option portal" where
  "toy_hub_portal \<equiv> AsyncDevicePortal (hub_portal_params toy_hub_env [])"

theorem hub_never_faults_witness:
  "\<exists>a rest a'. hub_setup toy_power_env toy_hub_config (power_board (ram_storage 1024) toy_hub_portal) ([], []) (hub_start toy_web) = Some (a, rest) \<and>
     hub_life [HubInterrupt rx_done, HubEvent (HubLoop toy_power_env),
       HubEvent (HubMessage toy_power_env 7 ''set_inclusion_mode'' (map byte_of_char ''enable'')), HubEvent (HubLoop toy_power_env)] (Some a) = Some a'"
proof -
  have p: "powered ram_eeprom ram_opened (power_board (ram_storage 1024) toy_hub_portal)"
    by (rule unplugged_powered [OF power_board_unplugged [OF ram_device_inv]])
  have e: "lawful_board ram_eeprom (he_env toy_power_env)" using toy_air_board(1) by (simp add: toy_power_env_def)
  let ?evs = "[HubInterrupt rx_done, HubEvent (HubLoop toy_power_env),
       HubEvent (HubMessage toy_power_env 7 ''set_inclusion_mode'' (map byte_of_char ''enable'')), HubEvent (HubLoop toy_power_env)]"
  have "\<forall>ev \<in> set ?evs. hub_happening_ok ram_eeprom ev" using e by simp
  from hub_never_faults [OF p e this, of toy_hub_config "([], [])" toy_web] show ?thesis by metis
qed

end
