(* ===== verification/RM_Restart.thy ===== *)
theory RM_Restart
  imports RM_PowerOn
begin

text \<open>
  The life of the sensor application, and what a restart keeps. The sensor goes on after a failed
  set-up: with its radio object made nothing goes wrong, without it the first report of an included
  sensor does. A network survives a power cut: each node finds its membership in its EEPROM.
\<close>

section \<open>The life of a sensor\<close>

datatype ('s, 'd) std_happening = StdLoop "('s, 'd) std_env" | StdInterrupt irq_flags

fun std_happens :: "('s, 'd) std_happening \<Rightarrow> ('s, 'd) std_app option \<Rightarrow> ('s, 'd) std_app option" where
  "std_happens (StdLoop E) x = Option.bind x (std_loop E)"
| "std_happens (StdInterrupt irq) x = do {
     a \<leftarrow> x;
     case sa_device a of
       None \<Rightarrow> Some a
     | Some d \<Rightarrow> do { d1 \<leftarrow> device_interrupt irq d; Some (a\<lparr>sa_device := Some d1\<rparr>) } }"

definition std_life :: "('s, 'd) std_happening list \<Rightarrow> ('s, 'd) std_app option \<Rightarrow> ('s, 'd) std_app option" where
  "std_life evs x = foldl (\<lambda>x ev. std_happens ev x) x evs"

fun std_happening_ok :: "'e eeprom_lib \<Rightarrow> ('e storage, 'd) std_happening \<Rightarrow> bool" where
  "std_happening_ok L (StdLoop E) = lawful_board L (se_env E)"
| "std_happening_ok L (StdInterrupt irq) = True"

lemma std_life_Cons: "std_life (ev # evs) x = std_life evs (std_happens ev x)"
  by (simp add: std_life_def)

lemma std_life_None [simp]: "std_life evs None = None"
proof (induction evs)
  case (Cons ev evs)
  then show ?case by (cases ev) (simp_all add: std_life_Cons)
qed (simp add: std_life_def)

lemma std_life_Nil [simp]: "std_life [] x = x"
  by (simp add: std_life_def)

text \<open>With a device in order every event returns.\<close>

lemma sensor_event:
  fixes L :: "'e eeprom_lib"
  assumes "std_happening_ok L ev" and a: "sa_device a = Some d" "steady (eeprom_inv L opened) d"
  shows "\<exists>a' d'. std_happens ev (Some a) = Some a' \<and> sa_device a' = Some d' \<and> steady (eeprom_inv L opened) d'"
proof (cases ev)
  case (StdInterrupt irq)
  then show ?thesis using steady_device_interrupt [OF a(2), of irq] a(1) by auto
next
  case (StdLoop E)
  have E: "lawful (eeprom_ops L) (se_env E)" "full_frames (w_rl (e_world (se_env E)))"
    using assms(1) StdLoop by (simp_all add: lawful_board_def)
  obtain rc d1 where d1: "run (se_env E) d = Some (rc, d1)" "steady (eeprom_inv L opened) d1"
    using node.safe_run [OF a(2) E] by (auto simp: safe_def)
  obtain c where c: "d_ctl d1 = Some c" using steady_ctl [OF d1(2)] by blast
  obtain rc2 d2 where d2: "sendData (se_env E) 0x10 [word_of_int (se_random E)] (Id4 0xFF 0xFF 0xFF 0xFF) d1 = Some (rc2, d2)"
      "steady (eeprom_inv L opened) d2"
    using safe_sendData [OF d1(2) E(1)] by (metis safe_def)
  have "\<exists>a1. updateAppState E (a\<lparr>sa_device := Some d1\<rparr>) = Some a1 \<and> sa_device a1 = Some d1"
    using c by (simp add: updateAppState_def isIncluded_def)
  then obtain a1 where a1: "updateAppState E (a\<lparr>sa_device := Some d1\<rparr>) = Some a1" "sa_device a1 = Some d1" by blast
  have "\<exists>a2. sendSensorData E a1 = Some a2 \<and> (sa_device a2 = Some d1 \<or> sa_device a2 = Some d2)"
    using a1(2) d2(1) by (simp add: sendSensorData_def)
  then show ?thesis using StdLoop a(1) d1 d2(2) a1(1) by (auto simp: std_loop_def)
qed

lemma sensor_life:
  fixes L :: "'e eeprom_lib"
  assumes "\<forall>ev \<in> set evs. std_happening_ok L ev" and "sa_device a = Some d" "steady (eeprom_inv L opened) d"
  shows "std_life evs (Some a) \<noteq> None"
  using assms
proof (induction evs arbitrary: a d)
  case (Cons ev evs)
  obtain a' d' where e: "std_happens ev (Some a) = Some a'" "sa_device a' = Some d'" "steady (eeprom_inv L opened) d'"
    using sensor_event [OF _ Cons.prems(2,3)] Cons.prems(1) by (metis list.set_intros(1))
  then show ?case using Cons.IH [OF _ e(2,3)] Cons.prems(1) by (simp add: std_life_Cons)
qed simp

lemma no_device_life:
  assumes "sa_device a = None"
  shows "std_life evs (Some a) = Some a"
proof (induction evs)
  case (Cons ev evs)
  then show ?case using assms by (cases ev) (simp_all add: std_life_Cons std_loop_def)
qed simp

text \<open>A device whose radio object was never made: no interrupts, and \<open>run\<close> does nothing.\<close>

definition deaf :: "('s \<Rightarrow> bool) \<Rightarrow> 's device \<Rightarrow> bool" where
  "deaf keeps d \<longleftrightarrow> started keeps d \<and> d_hasRadio d \<and> \<not> ra_module (n_radio (d_net d)) \<and> \<not> rxDone (n_radio (d_net d)) \<and>
     \<not> txDone (n_radio (d_net d))"

lemma deaf_run: "deaf keeps d \<Longrightarrow> run env d = Some (RM_E_NONE, d)"
  by (auto simp: deaf_def started_def run_def checkProtocolTimeouts_def isStateTimedOut_def run_rx_def run_tx_def
      checkAndClearRxFlag_def checkAndClearTxFlag_def upd_radio_def)

lemma deaf_interrupt: "deaf keeps d \<Longrightarrow> device_interrupt irq d = Some d"
  by (auto simp: deaf_def started_def device_interrupt_def net_inv_def radio_inv_def)

text \<open>Routing on it follows the null pointer, unless there is no key for the code of the packet.\<close>

lemma deaf_route:
  assumes d: "deaf keeps d" and env: "lawful ops env" and p: "p_hops p = 0" "p_topic p = 0x10" "state_or_not_included d = INCLUDED"
  shows "if networkKey (n_es (d_net d)) = [] then \<exists>rc d'. device_route env p d = Some (rc, d') \<and> deaf keeps d'
    else device_route env p d = None"
proof -
  let ?n = "d_net d" and ?w = "e_world env"
  have key: "key_length (networkKey (n_es ?n))" "net_inv ?n" "n_micPtr ?n" "\<not> ra_module (n_radio ?n)"
    using d by (simp_all add: deaf_def started_def)
  have lib: "sha_laws (w_lib ?w)" "cipher_laws (cl_aes (w_lib ?w))" using env by (simp_all add: lawful_def)
  obtain q n1 where prep: "prepare_packet ?w (d_id d) (d_type d) INCLUDED p ?n = Some (q, n1)" using prepare_packet_total [OF key(1) lib(1)] by blast
  note f = prepare_packet_frame [OF prep]
  have n1: "n_es n1 = n_es ?n" "n_radio n1 = n_radio ?n" "n_micPtr n1" "p_topic q = 0x10" "net_inv n1" "n_esPtr n1 = n_esPtr ?n"
    using f key(2,3) p(2) by (simp_all add: same_core_def same_identity_def net_inv_def)
  have mk: "getMICKey (w_lib ?w) (Some (n_es n1)) (p_topic q) (d_type d) INCLUDED = networkKey (n_es ?n)"
    using n1(1,4) by (simp add: getMICKey_def)
  have hops: "\<not> checkMaxHops p" using p(1) by (simp add: checkMaxHops_def MAX_HOPS_def)
  show ?thesis
  proof (cases "networkKey (n_es ?n) = []")
    case True
    then have "computeAndAppendMIC (w_lib ?w) (d_type d) INCLUDED q n1 = Some (RM_E_AUTH_FAILED, q)"
      using n1 mk by (simp add: computeAndAppendMIC_def computePacketMIC_def)
    then have "device_route env p d = Some (RM_E_AUTH_FAILED, d\<lparr>d_net := n1\<rparr>)"
      using prep hops p(3) by (simp add: device_route_def routePacket_def)
    moreover have "deaf keeps (d\<lparr>d_net := n1\<rparr>)" using d n1 by (simp add: deaf_def started_def)
    ultimately show ?thesis using True by simp
  next
    case False
    then have len: "length (networkKey (n_es ?n)) = 32" using key(1) by (simp add: key_length_def)
    obtain mic where "computeMIC (cl_aes (w_lib ?w)) (networkKey (n_es ?n)) (getHeaderBytes q @ p_data q) = Some mic" "length mic = 4"
      using computeMIC_total [OF lib(2), of "networkKey (n_es ?n)"] len by blast
    then have "computeAndAppendMIC (w_lib ?w) (d_type d) INCLUDED q n1 = Some (RM_E_NONE, packet_appendMIC q mic)"
      using n1 mk False by (auto simp: computeAndAppendMIC_def computePacketMIC_def requiresMIC_def)
    then have "device_route env p d = None"
      using prep hops p(3) n1(2) key(4)
      by (simp add: device_route_def routePacket_def router_sendPacket_def radio_sendPacket_def startTransmitPacket_def Let_def guard_ok_def)
    then show ?thesis using False by simp
  qed
qed

lemma deaf_send:
  assumes d: "deaf keeps d" and env: "lawful ops env" and inc: "isIncluded d = Some True"
  shows "if networkKey (n_es (d_net d)) = [] then \<exists>rc d'. sendData env 0x10 [x] BROADCAST_ADDR d = Some (rc, d') \<and> deaf keeps d' \<and>
      isIncluded d' = Some True \<and> networkKey (n_es (d_net d')) = []
    else sendData env 0x10 [x] BROADCAST_ADDR d = None"
proof -
  obtain pid g where pid: "getRandomBytesArray (e_rnd env) (e_sample env) (env_now env) = (pid, g)" by (metis surj_pair)
  let ?p = "new_packet d 0x10 [x] BROADCAST_ADDR pid"
  let ?d = "d\<lparr>packetCounter := packetCounter d + 1, txPacket := ?p, d_rng := g\<rparr>"
  obtain c where c: "d_ctl d = Some c" "getState c = INCLUDED" using inc by (auto simp: isIncluded_def)
  have s: "sendData env 0x10 [x] BROADCAST_ADDR d = device_route env ?p ?d"
    using c pid by (simp add: sendData_def canSendMessage_def ic_canSendMessage_def getState_def MAX_DATA_LENGTH_def DEV_ID_LENGTH_def Let_def)
  have "deaf keeps ?d" using d by (simp add: deaf_def started_def)
  from deaf_route [OF this env, of ?p] have r: "if networkKey (n_es (d_net d)) = [] then \<exists>rc d'. device_route env ?p ?d = Some (rc, d') \<and> deaf keeps d'
      else device_route env ?p ?d = None"
    using c by (simp add: new_packet_def state_or_not_included_def)
  show ?thesis
  proof (cases "networkKey (n_es (d_net d)) = []")
    case True
    then obtain rc d' where d': "device_route env ?p ?d = Some (rc, d')" "deaf keeps d'" using r by auto
    have "d_ctl d' = d_ctl d" "n_es (d_net d') = n_es (d_net d)" using send_frameD(1,10) [OF device_route_frame(1) [OF d'(1)]] by simp_all
    then show ?thesis using True d' s inc by (simp add: isIncluded_def)
  qed (use r s in simp)
qed

text \<open>An iteration of the main loop with it.\<close>

definition can_fall :: "'s device \<Rightarrow> bool" where
  "can_fall d \<longleftrightarrow> isIncluded d = Some True \<and> networkKey (n_es (d_net d)) \<noteq> []"

lemma deaf_event:
  fixes L :: "'e eeprom_lib"
  assumes ev: "std_happening_ok L ev" and a: "sa_device a = Some d" "deaf keeps d"
  shows "if can_fall d \<and> (\<exists>E. ev = StdLoop E \<and> 10000 \<le> se_now E - lastSensorData a) then std_happens ev (Some a) = None
    else \<exists>a' d'. std_happens ev (Some a) = Some a' \<and> sa_device a' = Some d' \<and> deaf keeps d' \<and> can_fall d' = can_fall d \<and>
      (can_fall d \<longrightarrow> lastSensorData a' = lastSensorData a)"
proof (cases ev)
  case (StdInterrupt irq)
  then show ?thesis using a deaf_interrupt [OF a(2)] by simp
next
  case (StdLoop E)
  have env: "lawful (eeprom_ops L) (se_env E)" using ev StdLoop by (simp add: lawful_board_def)
  obtain c where c: "d_ctl d = Some c" using a(2) by (auto simp: deaf_def started_def)
  let ?inc = "getState c = INCLUDED"
  have inc: "isIncluded d = Some ?inc" using c by (simp add: isIncluded_def)
  obtain a1 where a1: "updateAppState E (a\<lparr>sa_device := Some d\<rparr>) = Some a1" "sa_device a1 = Some d"
      "sa_state a1 = (if ?inc then SD_INCLUDED else SD_NOT_INCLUDED)" "lastSensorData a1 = lastSensorData a"
    using inc by (simp add: updateAppState_def Let_def)
  have loop: "std_happens ev (Some a) = map_option (printStatus E) (sendSensorData E a1)"
    using StdLoop a(1) deaf_run [OF a(2), of "se_env E"] a1(1) by (simp add: std_loop_def map_option_case split: option.split)
  show ?thesis
  proof (cases "?inc \<and> 10000 \<le> se_now E - lastSensorData a")
    case False
    then have "sendSensorData E a1 = Some a1" using a1 by (auto simp: sendSensorData_def not_le)
    then show ?thesis using False loop a1 a inc StdLoop by (auto simp: can_fall_def)
  next
    case True
    let ?s = "sendData (se_env E) 0x10 [word_of_int (se_random E)] BROADCAST_ADDR d"
    have send: "sendSensorData E a1 = map_option (\<lambda>(rc, d1). show_state E (a1\<lparr>sensorValue := se_random E, sa_device := Some d1,
        lastSensorData := se_now E\<rparr>)) ?s"
      using True a1 by (auto simp: sendSensorData_def not_le BROADCAST_ADDR_def map_option_case split: option.split)
    show ?thesis
    proof (cases "networkKey (n_es (d_net d)) = []")
      case True
      then obtain rc d' where "?s = Some (rc, d')" "deaf keeps d'" "isIncluded d' = Some True" "networkKey (n_es (d_net d')) = []"
        using deaf_send [OF a(2) env, of "word_of_int (se_random E)"] inc \<open>?inc \<and> _\<close> by auto
      then show ?thesis using True loop send by (simp add: can_fall_def)
    next
      case False
      then have "?s = None" using deaf_send [OF a(2) env, of "word_of_int (se_random E)"] inc True by simp
      then show ?thesis using False True inc loop send StdLoop by (simp add: can_fall_def)
    qed
  qed
qed

lemma deaf_life:
  fixes L :: "'e eeprom_lib"
  assumes "\<forall>ev \<in> set evs. std_happening_ok L ev" and "sa_device a = Some d" "deaf keeps d"
  shows "std_life evs (Some a) = None \<longleftrightarrow> can_fall d \<and> (\<exists>E. StdLoop E \<in> set evs \<and> 10000 \<le> se_now E - lastSensorData a)"
  using assms
proof (induction evs arbitrary: a d)
  case (Cons ev evs)
  show ?case
  proof (cases "can_fall d \<and> (\<exists>E. ev = StdLoop E \<and> 10000 \<le> se_now E - lastSensorData a)")
    case True
    then show ?thesis using deaf_event [OF _ Cons.prems(2,3), of L ev] Cons.prems(1) by (auto simp: std_life_Cons)
  next
    case False
    then obtain a' d' where e: "std_happens ev (Some a) = Some a'" "sa_device a' = Some d'" "deaf keeps d'" "can_fall d' = can_fall d"
        "can_fall d \<longrightarrow> lastSensorData a' = lastSensorData a"
      using deaf_event [OF _ Cons.prems(2,3), of L ev] Cons.prems(1) by (auto split: if_splits)
    then show ?thesis using Cons.IH [OF _ e(2,3)] Cons.prems(1) False by (auto simp: std_life_Cons)
  qed
qed simp

lemma std_builder_plan:
  "isBuilderStarted (std_builder u C)" "hasRadio (blueprint (std_builder u C))" "b_radioParams (std_builder u C) = sc_radioParams C"
  "hasDisplay (blueprint (std_builder u C)) = u" "\<not> b_useCustomDisplay (std_builder u C)"
  "u \<Longrightarrow> b_oledParams (std_builder u C) = sc_displayParams C"
  by (simp_all add: std_builder_def Let_def withLoraRadio_def withOledDisplay_def withRxPacketCallback_def start_def DeviceBuilder_def
      no_blueprint_def)

text \<open>The set-up comes to the radio, and the radio object is made.\<close>

definition radio_reached :: "('s, 'd) std_env \<Rightarrow> 'p std_config \<Rightarrow> 'd oled \<Rightarrow> bool" where
  "radio_reached E C ol \<longleftrightarrow> lp_ss (sc_radioParams C) \<noteq> PIN_UNDEFINED \<and>
     (se_useDisplay E \<longrightarrow> fst (oled_setup (se_u8g2 E) (ol\<lparr>displayParams := sc_displayParams C\<rparr>)) = RM_E_NONE)"

lemma built_deaf:
  assumes "started keeps d" and "n_radio (d_net d) = LoraRadio" and "hasRadio (blueprint b)" and h: "h = plan_device b (setDeviceType dt d)"
  shows "deaf keeps h"
    and "lp_ss (b_radioParams b) = 0 \<Longrightarrow> \<exists>rc r. radio_setup_stored rl (n_radio (d_net h)) = Some (rc, r) \<and> deaf keeps (upd_radio r h)"
proof -
  have r: "n_radio (d_net h) = LoraRadio\<lparr>radioParams := b_radioParams b\<rparr>" using plan_device_radio [OF assms(3), of dt d] assms(2) h by simp
  show d: "deaf keeps h" using plan_device_started [OF assms(1), of b dt] r assms(3) h by (simp add: deaf_def LoraRadio_def)
  have same: "upd_radio (n_radio (d_net h)) h = h" by (simp add: upd_radio_def)
  show "\<exists>rc r. radio_setup_stored rl (n_radio (d_net h)) = Some (rc, r) \<and> deaf keeps (upd_radio r h)" if "lp_ss (b_radioParams b) = 0"
    using that r d same by (simp add: radio_setup_stored_def radio_setup_def createModule_cases)
qed

lemma std_setup_result:
  fixes L :: "'e eeprom_lib"
  assumes "powered L opened bo" and "lawful_board L (se_env E)"
  shows "\<exists>a. std_setup E W C bo (std_start ol) = Some a \<and> lastSensorData a = 0 \<and>
    (sa_device a = None \<or> (\<exists>d. sa_device a = Some d \<and>
       (if radio_reached E C (bo_oled bo) then steady (eeprom_inv L opened) d else deaf (eeprom_inv L opened) d)))"
proof (cases rule: build_parts [where b = "std_builder (se_useDisplay E) C" and env = "se_env E" and nm = "sc_name C" and did = "sc_id C"
      and dt = STANDARD and bo = bo and L = W, OF std_builder_plan(1)])
  case (1 b' bo')
  then show ?thesis by (simp add: std_setup_def std_initializeHardware_def std_start_def)
next
  case (2 d h b' bo')
  note st = powered_start [OF 2(1) assms] and bp = std_builder_plan [of "se_useDisplay E" C]
  let ?a1 = "(std_start ol)\<lparr>sa_device := Some (wd_dev h)\<rparr> :: ('e storage, 'a) std_app"
  obtain ok a2 where a2: "(if se_useDisplay E then std_setup_display E h ?a1 else (True, ?a1)) = (ok, a2)" by fastforce
  have ok: "ok \<longleftrightarrow> (se_useDisplay E \<longrightarrow> fst (oled_setup (se_u8g2 E) ((bo_oled bo)\<lparr>displayParams := sc_displayParams C\<rparr>)) = RM_E_NONE)"
      "sa_device a2 = Some (wd_dev h) \<and> lastSensorData a2 = 0"
    using a2 2(5) bp by (auto simp: std_setup_display_def std_start_def split: if_splits prod.splits)
  obtain rc r where r: "radio_setup_stored (w_rl (e_world (se_env E))) (n_radio (d_net (wd_dev h))) = Some (rc, r)"
      "if lp_ss (sc_radioParams C) \<noteq> 0 then steady (eeprom_inv L opened) (upd_radio r (wd_dev h)) else deaf (eeprom_inv L opened) (upd_radio r (wd_dev h))"
    using built_radio [OF _ _ bp(2) _ 2(3)] built_deaf(2) [OF _ _ bp(2) 2(3)] st bp(3) by (cases "lp_ss (sc_radioParams C) = 0") (simp, metis)+
  have deaf: "deaf (eeprom_inv L opened) (wd_dev h)" using built_deaf(1) [OF _ _ bp(2) 2(3)] st by blast
  have radio: "d_hasRadio (wd_dev h)" using 2(3) bp(2) by simp
  show ?thesis
  proof (cases ok)
    case True
    then show ?thesis using 2(2) a2 ok r radio
      by (simp add: std_setup_def std_initializeHardware_def Let_def radio_reached_def PIN_UNDEFINED_def)
  next
    case False
    then show ?thesis using 2(2) a2 ok deaf radio
      by (simp add: std_setup_def std_initializeHardware_def Let_def radio_reached_def)
  qed
qed

text \<open>C6: The sensor application runs into undefined behaviour in exactly one way. Its main loop does not ask
  whether the set-up succeeded. If the display was asked for and did not start (a wrong font number
  is enough), or the select pin of the radio is not defined, the set-up ends before the radio object is
  made; a sensor that was included in an earlier run and has its network key then shows that it is
  included, and the first iteration of the loop ten seconds after the start follows the null pointer of
  the radio to send its report. In every other case, whatever fails and whatever happens afterwards,
  everything returns.\<close>

theorem sensor_faults_only_without_radio:
  fixes L :: "'e eeprom_lib"
  assumes "powered L opened bo" and "lawful_board L (se_env E)" and "\<forall>ev \<in> set evs. std_happening_ok L ev"
  shows "\<exists>a. std_setup E W C bo (std_start ol) = Some a \<and>
    (std_life evs (Some a) = None \<longleftrightarrow>
       \<not> radio_reached E C (bo_oled bo) \<and>
       (\<exists>d. sa_device a = Some d \<and> isIncluded d = Some True \<and> networkKey (n_es (d_net d)) \<noteq> []) \<and>
       (\<exists>E'. StdLoop E' \<in> set evs \<and> 10000 \<le> se_now E'))"
proof -
  obtain a where a: "std_setup E W C bo (std_start ol) = Some a" "lastSensorData a = 0"
      "sa_device a = None \<or> (\<exists>d. sa_device a = Some d \<and>
       (if radio_reached E C (bo_oled bo) then steady (eeprom_inv L opened) d else deaf (eeprom_inv L opened) d))"
    using std_setup_result [OF assms(1,2), of W C ol] by blast
  have "std_life evs (Some a) = None \<longleftrightarrow>
       \<not> radio_reached E C (bo_oled bo) \<and> (\<exists>d. sa_device a = Some d \<and> can_fall d) \<and> (\<exists>E'. StdLoop E' \<in> set evs \<and> 10000 \<le> se_now E')"
  proof (cases "sa_device a")
    case None
    then show ?thesis using no_device_life [OF None] by simp
  next
    case (Some d)
    show ?thesis
    proof (cases "radio_reached E C (bo_oled bo)")
      case True
      then show ?thesis using a(3) Some sensor_life [OF assms(3) Some] by simp
    next
      case False
      then have "deaf (eeprom_inv L opened) d" using a(3) Some by simp
      from deaf_life [OF assms(3) Some this] show ?thesis using False Some a(2) by simp
    qed
  qed
  then show ?thesis using a(1) by (intro exI [of _ a] conjI) (simp_all add: can_fall_def)
qed

section \<open>Membership survives a restart\<close>

lemma loadState_default:
  assumes "eeprom_inv L opened s" and "loadState (eeprom_ops L) st0 s = (RM_E_NONE, st)"
  shows "loadState (eeprom_ops L) st1 s = (RM_E_NONE, st)"
  using assms(2) eeprom.read_law [OF assms(1), of STATE_KEY] eeprom.slot_law [OF assms(1), of STATE_KEY]
  by (auto simp: loadState_def split: option.splits if_splits)

lemma member_restarts:
  fixes L :: "'e eeprom_lib"
  assumes s: "eeprom_inv L opened s" and m: "ee_begin L EEPROM_STORAGE_MAX_SIZE m = (True, st_mem s)"
    and nk: "loadNetworkKey (eeprom_ops L) [] s = (RM_E_NONE, nk)" and pub: "getPublicKey env s = Inr pub"
    and st: "dt = HUB \<or> dt = STANDARD \<and> loadState (eeprom_ops L) st0 s = (RM_E_NONE, INCLUDED)"
    and env: "lawful_board L env"
  shows "\<exists>d. initialize env (RadioMeshDevice nm did dt n (s\<lparr>st_mem := m, st_initialized := False\<rparr>) g) = Some (RM_E_NONE, d) \<and>
    networked d nk \<and> d_type d = dt"
proof -
  let ?d = "RadioMeshDevice nm did dt n (s\<lparr>st_mem := m, st_initialized := False\<rparr>) g"
  have e: "e_ops env = eeprom_ops L" "e_setParams env = st_setParams EEPROM_STORAGE_MAX_SIZE"
    using env by (simp_all add: lawful_board_def eeprom_env_def)
  have sz: "s\<lparr>st_mem := m, st_initialized := False, st_size := EEPROM_STORAGE_MAX_SIZE\<rparr> = s\<lparr>st_mem := m, st_initialized := False\<rparr>"
    using s by (cases s) (simp add: eeprom_inv_def)
  obtain priv where priv: "km_loadPrivateKey (eeprom_ops L) [] s = (RM_E_NONE, priv)" "derivePublicKey (env_lib env) priv = Inr pub"
    using pub e by (auto simp: getPublicKey_def split: prod.splits if_splits)
  have len: "length nk = 32"
    using eeprom.slot_law [OF s, of NKEY nk] eeprom.read_law [OF s, of NKEY "[]"] nk by (auto simp: loadNetworkKey_def split: option.splits)
  have keys: "initializeKeys env s = (RM_E_NONE, s)" using priv e by (simp add: initializeKeys_def)
  have hub: "initializeForHub r (eeprom_ops L) g s = (RM_E_NONE, g, s)" for r g
    using nk len by (simp add: initializeForHub_def hasNetworkKey_def km_loadNetworkKey_def validateNetworkKey_def NETWORK_KEY_SIZE_def)
  have included: "dt \<noteq> HUB \<Longrightarrow> dt = STANDARD \<and> loadState (eeprom_ops L) g s = (RM_E_NONE, INCLUDED)" for g
    using st loadState_default [OF s, of st0 INCLUDED g] by blast
  have b: "bs_begin (e_ops env) (snd (e_setParams env (d_store ?d))) = (RM_E_NONE, s)"
    using boots_stored [OF s m] e sz [unfolded EEPROM_STORAGE_MAX_SIZE_def]
    by (simp add: eeprom_ops_def RadioMeshDevice_def st_setParams_def EEPROM_STORAGE_MAX_SIZE_def)
  obtain d1 where d1: "InclusionController env (?d\<lparr>d_store := s, d_hasStorage := True\<rparr>) = Some d1" "d_store d1 = s" "d_type d1 = dt"
      "\<exists>c. d_ctl d1 = Some c \<and> ic_state c = INCLUDED \<and> ic_type c = dt"
    using included keys hub e by (cases "dt = HUB") (simp_all add: InclusionController_def RadioMeshDevice_def)
  let ?d2 = "register_services env d1"
  obtain c where c: "d_ctl ?d2 = Some c" "ic_state c = INCLUDED" "ic_type c = dt" "d_type ?d2 = dt" "d_store ?d2 = s"
    using register_services_setup [of d1 env] d1(2-4) by (auto simp: same_setup_def)
  have i: "initialize env ?d = do {
      d4 \<leftarrow> (if getState c = INCLUDED \<or> d_type ?d2 = HUB then map_option snd (loadAndApplyNetworkKey env ?d2) else Some ?d2);
      Some (RM_E_NONE, d4) }"
    using b d1(1) c(1) by (simp add: initialize_def register_services_def Let_def)
  let ?d = "snd (updateSecurityParams \<lparr>sp_key = nk, sp_iv = replicate 16 0, sp_method = SEC_AES\<rparr> ?d2)"
  have l: "loadAndApplyNetworkKey env ?d2 = Some (RM_E_NONE, ?d)"
    using c nk e by (simp add: loadAndApplyNetworkKey_def getCurrentNetworkKey_def updateSecurityParams_def Let_def)
  have "networked ?d nk" "d_type ?d = dt"
    using c len by (simp_all add: updateSecurityParams_def Let_def networked_def setNetworkKey_def)
  moreover have "initialize env (RadioMeshDevice nm did dt n (s\<lparr>st_mem := m, st_initialized := False\<rparr>) g) = Some (RM_E_NONE, ?d)"
    using i l c(2) by (simp add: getState_def)
  ultimately show ?thesis by (intro exI [of _ ?d] conjI)
qed

text \<open>What the store of a member holds.\<close>

definition member_store :: "'e eeprom_lib \<Rightarrow> 'e storage env \<Rightarrow> bytes \<Rightarrow> device_type \<Rightarrow> 'e storage \<Rightarrow> bool" where
  "member_store L env nk dt s \<longleftrightarrow> loadNetworkKey (eeprom_ops L) [] s = (RM_E_NONE, nk) \<and> (\<exists>pub. getPublicKey env s = Inr pub) \<and>
     (dt = HUB \<or> dt = STANDARD \<and> loadState (eeprom_ops L) NOT_INCLUDED s = (RM_E_NONE, INCLUDED))"

lemma unplugged_starts:
  fixes L :: "'e eeprom_lib"
  assumes "unplugged L opened s bo" and "member_store L env nk dt s" and "lawful_board L env"
  shows "\<exists>d. initialize env (RadioMeshDevice nm did dt (bo_net bo) (bo_store bo) (bo_rng bo)) = Some (RM_E_NONE, d) \<and>
    networked d nk \<and> d_type d = dt"
  using assms by (auto simp: unplugged_def member_store_def intro!: member_restarts)

lemma networked_built:
  "networked d nk \<Longrightarrow> d_type d = dt \<Longrightarrow> networked (plan_device b (setDeviceType dt d)) nk"
  "networked (upd_radio r h) nk = networked h nk"
  by (simp_all add: networked_def setDeviceType_def upd_radio_def)

lemma sensor_restarts:
  fixes L :: "'e eeprom_lib"
  assumes u: "unplugged L opened s bo" and ms: "member_store L (se_env E) nk STANDARD s" and env: "lawful_board L (se_env E)"
    and ok: "checkLoraParameters (sc_radioParams C) = RM_E_NONE"
  shows "\<exists>a d. std_setup E W C bo (std_start ol) = Some a \<and> sa_device a = Some d \<and> networked d nk \<and> d_type d = STANDARD"
proof -
  obtain d where d: "initialize (se_env E) (RadioMeshDevice (sc_name C) (sc_id C) STANDARD (bo_net bo) (bo_store bo) (bo_rng bo)) = Some (RM_E_NONE, d)"
      "networked d nk" "d_type d = STANDARD"
    using unplugged_starts [OF u ms env] by blast
  note bp = std_builder_plan [of "se_useDisplay E" C]
  have bld: "buildable W (std_builder (se_useDisplay E) C)"
    using ok bp by (simp add: buildable_def) (simp add: std_builder_def Let_def withLoraRadio_def withOledDisplay_def
      withRxPacketCallback_def start_def DeviceBuilder_def no_blueprint_def)
  show ?thesis
  proof (cases rule: build_parts [where b = "std_builder (se_useDisplay E) C" and env = "se_env E" and nm = "sc_name C" and did = "sc_id C"
      and dt = STANDARD and bo = bo and L = W, OF bp(1)])
    case (1 b' bo')
    then show ?thesis using bld d(1) by blast
  next
    case (2 d' h b' bo')
    then have h: "wd_dev h = plan_device (std_builder (se_useDisplay E) C) (setDeviceType STANDARD d)" using d(1) by simp
    have nw: "networked (wd_dev h) nk" "d_type (wd_dev h) = STANDARD" "d_type (upd_radio r (wd_dev h)) = STANDARD" for r
      using networked_built(1) [OF d(2,3)] h d(3) by (simp_all add: setDeviceType_def upd_radio_def)
    let ?a1 = "(std_start ol)\<lparr>sa_device := Some (wd_dev h)\<rparr> :: ('e storage, 'a) std_app"
    obtain okd a2 where a2: "(if se_useDisplay E then std_setup_display E h ?a1 else (True, ?a1)) = (okd, a2)" by fastforce
    have a2': "sa_device a2 = Some (wd_dev h)"
      using a2 by (auto simp: std_setup_display_def std_start_def split: if_splits prod.splits)
    have radio: "d_hasRadio (wd_dev h)" using h bp(2) by simp
    have st: "n_radio (d_net d) = LoraRadio" "started (eeprom_inv L opened) d"
      using powered_start [OF d(1) unplugged_powered [OF u] env] by simp_all
    have "\<exists>rc r. radio_setup_stored (w_rl (e_world (se_env E))) (n_radio (d_net (wd_dev h))) = Some (rc, r)"
      using built_radio [OF st(2,1) bp(2) _ h] built_deaf(2) [OF st(2,1) bp(2) h] by (cases "lp_ss (b_radioParams (std_builder (se_useDisplay E) C)) = 0") blast+
    then obtain rc r where r: "radio_setup_stored (w_rl (e_world (se_env E))) (n_radio (d_net (wd_dev h))) = Some (rc, r)" by blast
    show ?thesis using 2(2) a2 a2' r radio nw networked_built(2) [of r "wd_dev h" nk]
      by (cases okd) (simp_all add: std_setup_def std_initializeHardware_def Let_def)
  qed
qed

lemma hub_restarts:
  fixes L :: "'e eeprom_lib"
  assumes u: "unplugged L opened s bo" and ms: "member_store L (he_env H) nk HUB s" and env: "lawful_board L (he_env H)"
    and ok: "ap_acceptable (hc_wifi C) (apParams C)" "ADMIN_PANEL_HTML C \<noteq> []"
  shows "\<exists>a rest d. hub_setup H C bo v (hub_start w) = Some (a, rest) \<and> ha_device a = Some d \<and> networked d nk"
proof -
  obtain d where d: "initialize (he_env H) (RadioMeshDevice (DEVICE_NAME C) (DEVICE_ID C) HUB (bo_net bo) (bo_store bo) (bo_rng bo)) = Some (RM_E_NONE, d)"
      "networked d nk" "d_type d = HUB"
    using unplugged_starts [OF u ms env] by blast
  have bp: "hasRadio (blueprint (hub_builder H C))" "lp_ss (b_radioParams (hub_builder H C)) \<noteq> 0"
    by (simp_all add: hub_builder_plan HELTEC_WIFI_LORA_32_V3_def)
  show ?thesis
  proof (cases rule: build_parts [where b = "hub_builder H C" and env = "he_env H" and nm = "DEVICE_NAME C" and did = "DEVICE_ID C"
      and dt = HUB and bo = bo and L = "hc_wifi C", OF hub_builder_plan(1)])
    case (1 b' bo')
    then show ?thesis using hub_buildable [OF ok] d(1) by blast
  next
    case (2 d' h b' bo')
    then have h: "wd_dev h = plan_device (hub_builder H C) (setDeviceType HUB d)" using d(1) by simp
    have st: "n_radio (d_net d) = LoraRadio" "started (eeprom_inv L opened) d"
      using powered_start [OF d(1) unplugged_powered [OF u] env] by simp_all
    obtain rc r where r: "radio_setup_stored (w_rl (e_world (he_env H))) (n_radio (d_net (wd_dev h))) = Some (rc, r)"
      using built_radio [OF st(2,1) bp h] by blast
    have nw: "networked (upd_radio r (wd_dev h)) nk" using networked_built(1) [OF d(2,3), of "hub_builder H C"] h networked_built(2) [of r "wd_dev h" nk] by simp
    have radio: "d_hasRadio (wd_dev h)" using h bp(1) by simp
    let ?a1 = "(hub_start w)\<lparr>ha_device := Some (wd_dev h), ha_radio := d_hasRadio (wd_dev h), ha_portal := devicePortal h,
      ha_portalRunning := isRunning (wd_portal h)\<rparr> :: ('e storage, 'b) hub_app"
    let ?a2 = "?a1\<lparr>ha_device := Some (upd_radio r (wd_dev h))\<rparr>"
    obtain okp p1 v1 where ap: "setupAccessPoint (hc_wifi C) (wifiAccessPoint h) (wd_ap h) v = (okp, p1, v1)" by (rule prod_cases3)
    obtain okq pt1 w1 where pt: "setupDevicePortal (hub_web (he_web H)) (devicePortal h) (wd_portal h) (Some ?a2) = (okq, pt1, w1)"
      by (rule prod_cases3)
    from setupDevicePortal_app [OF pt] obtain w' where w': "w1 = Some (?a2\<lparr>ha_web := w'\<rparr>)" by blast
    show ?thesis using 2(2) r ap pt w' radio nw
      by (cases "rc = RM_E_NONE"; cases okp) (simp_all add: hub_setup_def initializeHardware_def Let_def)
  qed
qed

text \<open>C5: A network survives a power cut. A hub and a sensor whose EEPROMs hold what inclusion stored (the
  hub its network key, the sensor the state and the same key, both their private keys) come out of
  \<open>setup\<close> as members of the same network, with that key in use and in order to run, if their components
  can be built; whatever the access point, the portal, the drivers and the clock do meanwhile, and
  without any message on the air.\<close>

theorem network_survives_power_cut:
  fixes L :: "'e eeprom_lib" and M :: "'f eeprom_lib"
  assumes hub: "unplugged L lo sh bh" "member_store L (he_env H) nk HUB sh" "lawful_board L (he_env H)"
      "ap_acceptable (hc_wifi CH) (apParams CH)" "ADMIN_PANEL_HTML CH \<noteq> []"
    and dev: "unplugged M mo sd bd" "member_store M (se_env E) nk STANDARD sd" "lawful_board M (se_env E)"
      "checkLoraParameters (sc_radioParams CD) = RM_E_NONE" "radio_reached E CD (bo_oled bd)"
  shows "\<exists>a rest h b d. hub_setup H CH bh v (hub_start w) = Some (a, rest) \<and> ha_device a = Some h \<and> networked h nk \<and>
    steady (eeprom_inv L lo) h \<and>
    std_setup E W CD bd (std_start ol) = Some b \<and> sa_device b = Some d \<and> networked d nk \<and> steady (eeprom_inv M mo) d"
proof -
  obtain a rest h where h: "hub_setup H CH bh v (hub_start w) = Some (a, rest)" "ha_device a = Some h" "networked h nk"
    using hub_restarts [OF hub, of v w] by blast
  have "hub_sound (eeprom_inv L lo) a"
    using hub_setup_sound [OF unplugged_powered [OF hub(1)] hub(3), of CH v w] h(1) by simp
  then have sh: "steady (eeprom_inv L lo) h" using h(2) by (auto simp: hub_sound_def hub_live_def)
  obtain b d where d: "std_setup E W CD bd (std_start ol) = Some b" "sa_device b = Some d" "networked d nk"
    using sensor_restarts [OF dev(1-4), of W ol] by blast
  have "steady (eeprom_inv M mo) d"
    using std_setup_result [OF unplugged_powered [OF dev(1)] dev(3), of W CD ol] dev(5) d(1,2) by auto
  with h sh d show ?thesis
    by (intro exI [of _ a] exI [of _ rest] exI [of _ h] exI [of _ b] exI [of _ d] conjI)
qed

section \<open>Concrete members\<close>

definition toy_member_store :: "bytes storage" where
  "toy_member_store = snd (persistState (eeprom_ops ram_eeprom) INCLUDED toy_hub_store)"

lemma toy_member_store_ok:
  "eeprom_inv ram_eeprom ram_opened toy_member_store"
  "env_lib env = toy_lib \<Longrightarrow> e_ops env = eeprom_ops ram_eeprom \<Longrightarrow> dt \<in> {HUB, STANDARD} \<Longrightarrow>
     member_store ram_eeprom env (replicate 32 5) dt toy_member_store"
proof -
  have k: "STATE_KEY \<noteq> PRIV_KEY" "STATE_KEY \<noteq> NKEY" by (simp_all add: device_keys)
  note h = eeprom.bs_keep [OF toy_hub_store_ok(1), of STATE_KEY "[inclusion_state_code INCLUDED]"]
  show i: "eeprom_inv ram_eeprom ram_opened toy_member_store" using h by (simp add: toy_member_store_def persistState_def)
  have c: "eeprom_contents ram_eeprom toy_member_store PRIV_KEY = Some (replicate 32 1)"
      "eeprom_contents ram_eeprom toy_member_store NKEY = Some (replicate 32 5)"
      "eeprom_contents ram_eeprom toy_member_store STATE_KEY = Some [inclusion_state_code INCLUDED]"
    using h(2) toy_hub_store_ok(2,3) k by (simp_all add: toy_member_store_def persistState_def)
  note rd = eeprom.load_after [OF i]
  have "loadState (eeprom_ops ram_eeprom) NOT_INCLUDED toy_member_store = (RM_E_NONE, INCLUDED)"
    using eeprom.loadState_present [OF i c(3)] by (simp add: inclusion_state_of_byte_code named_state_def del: inclusion_state_code.simps)
  then show "env_lib env = toy_lib \<Longrightarrow> e_ops env = eeprom_ops ram_eeprom \<Longrightarrow> dt \<in> {HUB, STANDARD} \<Longrightarrow>
     member_store ram_eeprom env (replicate 32 5) dt toy_member_store"
    by (auto simp: member_store_def loadNetworkKey_def rd [OF _ c(2)] getPublicKey_def km_loadPrivateKey_def loadPrivateKey_def
        rd [OF _ c(1)] derivePublicKey_def toy_lib_def)
qed

definition toy_u8g2 :: "unit u8g2_lib" where
  "toy_u8g2 = \<lparr>u8_new = \<lambda>_ _ _. Some (), u8_begin = \<lambda>d. (True, d), u8_setFont = \<lambda>_ d. d, u8_clearDisplay = \<lambda>d. d, u8_clear = \<lambda>d. d,
     u8_setPowerSave = \<lambda>_ d. d, u8_initDisplay = \<lambda>d. d, u8_drawStr = \<lambda>_ _ _ d. (0, d), u8_sendBuffer = \<lambda>d. d,
     u8_setCursor = \<lambda>_ _ d. d, u8_print = \<lambda>_ d. d, u8_getCols = \<lambda>_. 16, u8_getRows = \<lambda>_. 8\<rparr>"

definition toy_sensor_env :: "u32 \<Rightarrow> (bytes storage, unit) std_env" where
  "toy_sensor_env t = \<lparr>se_env = later t toy_air, se_useDisplay = True, se_u8g2 = toy_u8g2, se_random = 25\<rparr>"

definition toy_sensor_config :: "byte \<Rightarrow> toy_web std_config" where
  "toy_sensor_config font = \<lparr>sc_name = ''sensor'', sc_id = Id4 5 6 7 8, sc_radioParams = HELTEC_CUBECELL,
     sc_displayParams = OledDisplayParams\<lparr>fontId := font\<rparr>, sc_blueprint = no_blueprint, sc_portalGarbage = toy_portal_params\<rparr>"

abbreviation (input) toy_sensor_board :: "(bytes storage, unit, toy_web) board" where
  "toy_sensor_board \<equiv> power_board toy_member_store (AsyncDevicePortal toy_portal_params)"

lemma toy_sensor_member: "member_store ram_eeprom (se_env (toy_sensor_env t)) (replicate 32 5) STANDARD toy_member_store"
  by (rule toy_member_store_ok) (simp_all add: toy_sensor_env_def later_def toy_air_def toy_env_def toy_world_def)

lemma toy_sensor_radio: "checkLoraParameters (sc_radioParams (toy_sensor_config font)) = RM_E_NONE"
  using presets_ok by (simp add: toy_sensor_config_def)

lemma toy_fonts:
  "radio_reached (toy_sensor_env t) (toy_sensor_config RM_FONT_MEDIUM) (bo_oled toy_sensor_board)"
  "\<not> radio_reached (toy_sensor_env t) (toy_sensor_config 99) (bo_oled toy_sensor_board)"
  using presets_ok
  by (simp_all add: radio_reached_def toy_sensor_env_def toy_sensor_config_def power_board_def oled_setup_def toy_u8g2_def OledDisplay_def
      OledDisplayParams_def setFont_def font_of_id_def Let_def)

theorem sensor_faults_only_without_radio_witness:
  "\<exists>a. std_setup (toy_sensor_env 0) toy_wifi (toy_sensor_config 99) toy_sensor_board (std_start OledDisplay) = Some a \<and>
     std_life [StdLoop (toy_sensor_env 9999)] (Some a) \<noteq> None \<and>
     std_life [StdLoop (toy_sensor_env 9999), StdLoop (toy_sensor_env 10000)] (Some a) = None"
proof -
  have u: "unplugged ram_eeprom ram_opened toy_member_store toy_sensor_board" by (rule power_board_unplugged [OF toy_member_store_ok(1)])
  have e: "lawful_board ram_eeprom (se_env (toy_sensor_env t))" for t using toy_air_board(2) by (simp add: toy_sensor_env_def)
  obtain a d where a: "std_setup (toy_sensor_env 0) toy_wifi (toy_sensor_config 99) toy_sensor_board (std_start OledDisplay) = Some a"
      "sa_device a = Some d" "networked d (replicate 32 5)" "d_type d = STANDARD"
    using sensor_restarts [OF u toy_sensor_member e toy_sensor_radio] by blast
  have d: "isIncluded d = Some True" "networkKey (n_es (d_net d)) \<noteq> []"
    using a(3,4) by (auto simp: networked_def isIncluded_def getState_def)
  have falls: "std_life evs (Some a) = None \<longleftrightarrow> (\<exists>E'. StdLoop E' \<in> set evs \<and> 10000 \<le> se_now E')"
    if "\<forall>ev \<in> set evs. std_happening_ok ram_eeprom ev" for evs
    using sensor_faults_only_without_radio [OF unplugged_powered [OF u] e [of 0] that, of toy_wifi "toy_sensor_config 99" OledDisplay] a(1,2) d toy_fonts(2)
    by auto
  have t: "se_now (toy_sensor_env t) = t" for t by (simp add: toy_sensor_env_def later_def)
  show ?thesis using a(1) falls [of "[StdLoop (toy_sensor_env 9999)]"] falls [of "[StdLoop (toy_sensor_env 9999), StdLoop (toy_sensor_env 10000)]"] e t
    by auto
qed

theorem network_survives_power_cut_witness:
  "\<exists>a rest h b d. hub_setup toy_power_env toy_hub_config (power_board toy_member_store toy_hub_portal) ([], []) (hub_start toy_web) = Some (a, rest) \<and>
     ha_device a = Some h \<and> networked h (replicate 32 5) \<and>
     std_setup (toy_sensor_env 0) toy_wifi (toy_sensor_config RM_FONT_MEDIUM) toy_sensor_board (std_start OledDisplay) = Some b \<and>
     sa_device b = Some d \<and> networked d (replicate 32 5)"
proof -
  have hub: "unplugged ram_eeprom ram_opened toy_member_store (power_board toy_member_store toy_hub_portal)"
      "member_store ram_eeprom (he_env toy_power_env) (replicate 32 5) HUB toy_member_store" "lawful_board ram_eeprom (he_env toy_power_env)"
      "ap_acceptable (hc_wifi toy_hub_config) (apParams toy_hub_config)" "ADMIN_PANEL_HTML toy_hub_config \<noteq> []"
    using power_board_unplugged [OF toy_member_store_ok(1)] toy_air_board(1)
    by (simp_all add: toy_power_env_def toy_member_store_ok(2) toy_air_def toy_env_def toy_world_def toy_hub_config_def ap_acceptable_def
        toy_ap_params_def toy_wifi_def c_str_def)
  have dev: "unplugged ram_eeprom ram_opened toy_member_store toy_sensor_board" "lawful_board ram_eeprom (se_env (toy_sensor_env 0))"
    using power_board_unplugged [OF toy_member_store_ok(1)] toy_air_board(2) by (simp_all add: toy_sensor_env_def)
  from network_survives_power_cut [OF hub dev(1) toy_sensor_member dev(2) toy_sensor_radio toy_fonts(1), of "([], [])" toy_web toy_wifi OledDisplay]
  show ?thesis by blast
qed

end
