(* ===== verification/RM_Json.thy ===== *)
theory RM_Json
  imports RM_MiniHub
begin

text \<open>
  The part of the script language that the admin page of the hub uses on the texts it receives and
  sends: values, reading of properties, conversion to text, \<open>JSON.parse\<close> and \<open>JSON.stringify\<close>. All
  of this is the standard library of the language of the page. Two restrictions: the numbers are
  integers (a number with a fraction or an exponent is not read), and in strings the escapes by number
  are left out; the hub writes neither.
\<close>

section \<open>Values\<close>

datatype js =
    JSUndefined
  | JSNull
  | JSBool bool
  | JSNum int
  | JSStr string
  | JSArr "js list"
  | JSObj "(string \<times> js) list"

text \<open>Reading a property of \<open>undefined\<close> or \<open>null\<close> is an error. Of two members with one name
  \<open>JSON.parse\<close> keeps the last. None of the properties that the page reads exists on strings, numbers,
  Boolean values or lists.\<close>

fun js_nullish :: "js \<Rightarrow> bool" where
  "js_nullish JSUndefined = True"
| "js_nullish JSNull = True"
| "js_nullish v = False"

fun js_get :: "js \<Rightarrow> string \<Rightarrow> js" where
  "js_get (JSObj ms) p = (case map_of (rev ms) p of None \<Rightarrow> JSUndefined | Some v \<Rightarrow> v)"
| "js_get v p = JSUndefined"

fun js_truthy :: "js \<Rightarrow> bool" where
  "js_truthy JSUndefined = False"
| "js_truthy JSNull = False"
| "js_truthy (JSBool b) = b"
| "js_truthy (JSNum n) = (n \<noteq> 0)"
| "js_truthy (JSStr s) = (s \<noteq> [])"
| "js_truthy v = True"

text \<open>\<open>a || b\<close>.\<close>

definition js_or :: "js \<Rightarrow> js \<Rightarrow> js" where
  "js_or a b = (if js_truthy a then a else b)"

definition int_text :: "int \<Rightarrow> string" where
  "int_text n = (if n < 0 then CHR ''-'' # dec_string (nat (- n)) else dec_string (nat n))"

fun joined :: "string list \<Rightarrow> string" where
  "joined [] = []"
| "joined [s] = s"
| "joined (s # t # ss) = s @ CHR '','' # joined (t # ss)"

text \<open>Conversion to text, as in a template.\<close>

fun js_text :: "js \<Rightarrow> string" where
  "js_text JSUndefined = ''undefined''"
| "js_text JSNull = ''null''"
| "js_text (JSBool b) = (if b then ''true'' else ''false'')"
| "js_text (JSNum n) = int_text n"
| "js_text (JSStr s) = s"
| "js_text (JSArr vs) = joined (map (\<lambda>v. if js_nullish v then [] else js_text v) vs)"
| "js_text (JSObj ms) = ''[object Object]''"

section \<open>Texts that are values\<close>

abbreviation (input) js_blank :: "char \<Rightarrow> bool" where
  "js_blank c \<equiv> c \<in> {CHR 0x20, CHR 0x09, CHR 0x0A, CHR 0x0D}"

definition skip_blanks :: "string \<Rightarrow> string" where
  "skip_blanks s = dropWhile js_blank s"

text \<open>The next character after blanks has to be the given one; what follows it.\<close>

definition expect :: "char \<Rightarrow> string \<Rightarrow> string option" where
  "expect c s = (case skip_blanks s of [] \<Rightarrow> None | x # r \<Rightarrow> if x = c then Some r else None)"

definition js_digit :: "char \<Rightarrow> bool" where
  "js_digit c \<longleftrightarrow> CHR ''0'' \<le> c \<and> c \<le> CHR ''9''"

definition digits_value :: "string \<Rightarrow> nat" where
  "digits_value s = foldl (\<lambda>v c. 10 * v + (of_char c - 48)) 0 s"

definition json_number :: "string \<Rightarrow> (js \<times> string) option" where
  "json_number s =
     (let neg = (s \<noteq> [] \<and> hd s = CHR ''-''); s1 = (if neg then tl s else s);
          ds = takeWhile js_digit s1; r = dropWhile js_digit s1
      in if ds = [] \<or> (hd ds = CHR ''0'' \<and> length ds > 1) \<or> (r \<noteq> [] \<and> hd r \<in> {CHR ''.'', CHR ''e'', CHR ''E''}) then None
         else Some (JSNum (if neg then - int (digits_value ds) else int (digits_value ds)), r))"

definition json_word :: "string \<Rightarrow> js \<Rightarrow> string \<Rightarrow> (js \<times> string) option" where
  "json_word w v s = (if take (length w) s = w then Some (v, drop (length w) s) else None)"

fun json_value :: "nat \<Rightarrow> string \<Rightarrow> (js \<times> string) option"
  and json_elements :: "nat \<Rightarrow> string \<Rightarrow> (js list \<times> string) option"
  and json_members :: "nat \<Rightarrow> string \<Rightarrow> ((string \<times> js) list \<times> string) option" where
  "json_value 0 s = None"
| "json_value (Suc n) s =
     (case skip_blanks s of
        [] \<Rightarrow> None
      | c # cs \<Rightarrow>
          if c = CHR 0x22 then map_option (\<lambda>(t, r). (JSStr t, r)) (json_text cs)
          else if c = CHR ''{'' then
            (case expect (CHR ''}'') cs of
               Some r \<Rightarrow> Some (JSObj [], r)
             | None \<Rightarrow> map_option (\<lambda>(ms, r). (JSObj ms, r)) (json_members n cs))
          else if c = CHR ''['' then
            (case expect (CHR '']'') cs of
               Some r \<Rightarrow> Some (JSArr [], r)
             | None \<Rightarrow> map_option (\<lambda>(vs, r). (JSArr vs, r)) (json_elements n cs))
          else if c = CHR ''t'' then json_word ''true'' (JSBool True) (c # cs)
          else if c = CHR ''f'' then json_word ''false'' (JSBool False) (c # cs)
          else if c = CHR ''n'' then json_word ''null'' JSNull (c # cs)
          else json_number (c # cs))"
| "json_elements 0 s = None"
| "json_elements (Suc n) s =
     (case json_value n s of
        None \<Rightarrow> None
      | Some (v, r) \<Rightarrow>
          (case expect (CHR '']'') r of
             Some r1 \<Rightarrow> Some ([v], r1)
           | None \<Rightarrow>
               (case expect (CHR '','') r of
                  None \<Rightarrow> None
                | Some r1 \<Rightarrow> map_option (\<lambda>(vs, r2). (v # vs, r2)) (json_elements n r1))))"
| "json_members 0 s = None"
| "json_members (Suc n) s =
     (case Option.bind (expect (CHR 0x22) s) json_text of
        None \<Rightarrow> None
      | Some (k, r) \<Rightarrow>
          (case Option.bind (expect (CHR '':'') r) (json_value n) of
             None \<Rightarrow> None
           | Some (v, r1) \<Rightarrow>
               (case expect (CHR ''}'') r1 of
                  Some r2 \<Rightarrow> Some ([(k, v)], r2)
                | None \<Rightarrow>
                    (case expect (CHR '','') r1 of
                       None \<Rightarrow> None
                     | Some r2 \<Rightarrow> map_option (\<lambda>(ms, r3). ((k, v) # ms, r3)) (json_members n r2)))))"

text \<open>\<open>JSON.parse\<close>; \<open>None\<close> is the exception. The fuel is enough for every text, see below.\<close>

definition JSON_parse :: "string \<Rightarrow> js option" where
  "JSON_parse s =
     (case json_value (2 * length s + 2) s of
        None \<Rightarrow> None
      | Some (v, r) \<Rightarrow> if skip_blanks r = [] then Some v else None)"

section \<open>Values as texts\<close>

definition json_quote :: "string \<Rightarrow> string" where
  "json_quote s = CHR 0x22 # escapeJsonString s @ [CHR 0x22]"

definition pair_text :: "string \<times> string \<Rightarrow> string" where
  "pair_text p = json_quote (fst p) @ CHR '':'' # snd p"

text \<open>\<open>JSON.stringify\<close> without indentation. \<open>undefined\<close> inside of a list is written as \<open>null\<close>.\<close>

primrec JSON_stringify :: "js \<Rightarrow> string" where
  "JSON_stringify JSUndefined = ''null''"
| "JSON_stringify JSNull = ''null''"
| "JSON_stringify (JSBool b) = (if b then ''true'' else ''false'')"
| "JSON_stringify (JSNum n) = int_text n"
| "JSON_stringify (JSStr s) = json_quote s"
| "JSON_stringify (JSArr vs) = CHR ''['' # joined (map JSON_stringify vs) @ '']''"
| "JSON_stringify (JSObj ms) = CHR ''{'' # joined (map (\<lambda>p. pair_text p) (map (map_prod id JSON_stringify) ms)) @ ''}''"

text \<open>The documents of the hub as values of the page.\<close>

primrec js_of_json :: "json \<Rightarrow> js" where
  "js_of_json (json.JStr s) = JSStr s"
| "js_of_json (json.JBool b) = JSBool b"
| "js_of_json (json.JNum n) = JSNum n"
| "js_of_json (json.JObj ms) = JSObj (map (map_prod id js_of_json) ms)"
| "js_of_json (json.JArr vs) = JSArr (map js_of_json vs)"

section \<open>Reading what was written\<close>

lemma skip_blanks_Cons: "skip_blanks (c # s) = (if js_blank c then skip_blanks s else c # s)"
  by (simp add: skip_blanks_def)

lemma expect_Cons [simp]: "\<not> js_blank x \<Longrightarrow> expect c (x # s) = (if x = c then Some s else None)"
  by (simp add: expect_def skip_blanks_Cons)

lemma js_digit_code: "js_digit c \<longleftrightarrow> 48 \<le> (of_char c :: nat) \<and> (of_char c :: nat) < 58"
  by (auto simp: js_digit_def less_eq_char_def)

lemma dec_string_js_digits: "list_all js_digit (dec_string n)"
  using dec_string_digits [of _ n] by (auto simp: list_all_iff js_digit_code)

lemma dec_string_hd: "0 < n \<Longrightarrow> dec_string n \<noteq> [] \<and> hd (dec_string n) \<noteq> CHR ''0''"
proof (induction n rule: dec_string.induct)
  case (1 n)
  show ?case
  proof (cases "n < 10")
    case True
    have "(of_char (char_of (48 + n) :: char) :: nat) = 48 + n" using True by simp
    moreover have "(of_char (CHR ''0'') :: nat) = 48" by simp
    ultimately have "(char_of (48 + n) :: char) \<noteq> CHR ''0''" using 1 by (metis add_cancel_right_right neq0_conv)
    then show ?thesis using True by (simp add: dec_string.simps [of n])
  qed (use 1 in \<open>auto simp: dec_string.simps [of n]\<close>)
qed

lemma dec_string_nonempty [simp]: "dec_string n \<noteq> []"
  by (simp add: dec_string.simps [of n])

lemma dec_string_leading: "\<not> (hd (dec_string n) = CHR ''0'' \<and> length (dec_string n) > 1)"
  by (cases "n = 0") (use dec_string_hd [of n] in \<open>auto simp: dec_string.simps [of 0]\<close>)

text \<open>What can follow a value: nothing, or the end or the next part of what it is in.\<close>

definition json_stop :: "string \<Rightarrow> bool" where
  "json_stop r \<longleftrightarrow> r = [] \<or> hd r \<in> {CHR '','', CHR '']'', CHR ''}''}"

lemma json_number_digits:
  assumes ds: "list_all js_digit ds" "ds \<noteq> []" "\<not> (hd ds = CHR ''0'' \<and> length ds > 1)" and r: "json_stop r"
  shows "json_number (ds @ r) = Some (JSNum (int (digits_value ds)), r)"
    and "json_number (CHR ''-'' # ds @ r) = Some (JSNum (- int (digits_value ds)), r)"
proof -
  have stop: "takeWhile js_digit r = []" "dropWhile js_digit r = r" "\<not> (r \<noteq> [] \<and> hd r \<in> {CHR ''.'', CHR ''e'', CHR ''E''})"
    using r by (cases r; auto simp: json_stop_def js_digit_def less_eq_char_def)+
  have t: "takeWhile js_digit (ds @ r) = ds" "dropWhile js_digit (ds @ r) = r"
    using ds(1) stop by (simp_all add: list_all_iff)
  have h: "ds @ r \<noteq> [] \<and> hd (ds @ r) \<noteq> CHR ''-''"
    using ds(1,2) by (cases ds) (auto simp: js_digit_def less_eq_char_def)
  show "json_number (ds @ r) = Some (JSNum (int (digits_value ds)), r)"
    unfolding json_number_def Let_def using h ds stop(3) by (simp only: t if_False simp_thms)
  show "json_number (CHR ''-'' # ds @ r) = Some (JSNum (- int (digits_value ds)), r)"
    unfolding json_number_def Let_def using ds stop(3) by (simp only: t list.sel list.distinct if_True if_False simp_thms)
qed

lemma json_number_int_text: "json_stop r \<Longrightarrow> json_number (int_text n @ r) = Some (JSNum n, r)"
  using json_number_digits [OF dec_string_js_digits dec_string_nonempty dec_string_leading, of r]
  by (simp add: int_text_def digits_value_def dec_string_value)

lemma int_text_hd: "\<exists>c cs. int_text n = c # cs \<and> (js_digit c \<or> c = CHR ''-'')"
proof -
  have "\<exists>c cs. dec_string m = c # cs \<and> js_digit c" for m
    using dec_string_js_digits [of m] by (cases "dec_string m") auto
  then show ?thesis by (cases "n < 0") (simp_all add: int_text_def, metis)
qed

text \<open>The values that can be written and read: no \<open>undefined\<close>, and in strings no control characters
  besides tab and line ends.\<close>

definition plain_text :: "string \<Rightarrow> bool" where
  "plain_text s \<longleftrightarrow> list_all (\<lambda>c. c \<ge> CHR 0x20 \<or> c \<in> {CHR 0x0A, CHR 0x0D, CHR 0x09}) s"

fun readable :: "js \<Rightarrow> bool" where
  "readable JSUndefined = False"
| "readable (JSStr s) = plain_text s"
| "readable (JSArr vs) = list_all readable vs"
| "readable (JSObj ms) = list_all (\<lambda>p. plain_text (fst p) \<and> readable (snd p)) ms"
| "readable v = True"

lemma json_text_quote: "plain_text s \<Longrightarrow> json_text (escapeJsonString s @ CHR 0x22 # r) = Some (s, r)"
  by (simp add: json_text_escapeJsonString plain_text_def)

lemma stringify_hd:
  "\<exists>c cs. JSON_stringify v = c # cs \<and> \<not> js_blank c \<and> c \<noteq> CHR '']'' \<and> c \<noteq> CHR ''}''"
proof (cases v)
  case (JSNum n)
  then show ?thesis using int_text_hd [of n] by (auto simp: js_digit_def less_eq_char_def)
qed (auto simp: json_quote_def)

lemma joined_Cons: "joined (s # ss) = s @ (if ss = [] then [] else CHR '','' # joined ss)"
  by (cases ss) simp_all

lemma json_value_Suc: "\<not> js_blank c \<Longrightarrow> json_value (Suc n) (c # cs) =
   (if c = CHR 0x22 then map_option (\<lambda>(t, r). (JSStr t, r)) (json_text cs)
    else if c = CHR ''{'' then (case expect (CHR ''}'') cs of Some r \<Rightarrow> Some (JSObj [], r)
      | None \<Rightarrow> map_option (\<lambda>(ms, r). (JSObj ms, r)) (json_members n cs))
    else if c = CHR ''['' then (case expect (CHR '']'') cs of Some r \<Rightarrow> Some (JSArr [], r)
      | None \<Rightarrow> map_option (\<lambda>(vs, r). (JSArr vs, r)) (json_elements n cs))
    else if c = CHR ''t'' then json_word ''true'' (JSBool True) (c # cs)
    else if c = CHR ''f'' then json_word ''false'' (JSBool False) (c # cs)
    else if c = CHR ''n'' then json_word ''null'' JSNull (c # cs)
    else json_number (c # cs))"
  by (simp add: skip_blanks_Cons)

text \<open>One element, and one member, given that its value is read.\<close>

lemma json_elements_step:
  assumes v: "\<And>r. json_stop r \<Longrightarrow> json_value n (JSON_stringify v @ r) = Some (v, r)"
  shows "json_elements (Suc n) (JSON_stringify v @ CHR '']'' # r) = Some ([v], r)"
    and "json_elements (Suc n) (JSON_stringify v @ CHR '','' # r) = map_option (\<lambda>(vs, r2). (v # vs, r2)) (json_elements n r)"
  using v [of "CHR '']'' # r"] v [of "CHR '','' # r"] by (simp_all add: json_stop_def)

lemma json_members_step:
  assumes v: "\<And>r. json_stop r \<Longrightarrow> json_value n (JSON_stringify v @ r) = Some (v, r)" and k: "plain_text k"
  shows "json_members (Suc n) (json_quote k @ CHR '':'' # JSON_stringify v @ CHR ''}'' # r) = Some ([(k, v)], r)"
    and "json_members (Suc n) (json_quote k @ CHR '':'' # JSON_stringify v @ CHR '','' # r)
      = map_option (\<lambda>(ms, r2). ((k, v) # ms, r2)) (json_members n r)"
  using v [of "CHR ''}'' # r"] v [of "CHR '','' # r"] json_text_quote [OF k]
  by (simp_all add: json_stop_def json_quote_def)

lemma json_elements_read:
  assumes "\<And>v n r. v \<in> set vs \<Longrightarrow> json_stop r \<Longrightarrow> 2 * length (JSON_stringify v) \<le> n \<Longrightarrow> json_value n (JSON_stringify v @ r) = Some (v, r)"
    and "vs \<noteq> []" and "2 * length (joined (map JSON_stringify vs)) < n"
  shows "json_elements n (joined (map JSON_stringify vs) @ CHR '']'' # r) = Some (vs, r)"
  using assms
proof (induction vs arbitrary: n)
  case (Cons v vs)
  obtain m where m: "n = Suc m" using Cons.prems(3) by (cases n) auto
  have v: "json_stop r' \<Longrightarrow> json_value m (JSON_stringify v @ r') = Some (v, r')" for r'
    using Cons.prems(1) [of v r' m] Cons.prems(3) m by (simp add: joined_Cons)
  show ?case
  proof (cases "vs = []")
    case True
    then show ?thesis using json_elements_step(1) [of m v r] v m by simp
  next
    case False
    have "json_elements m (joined (map JSON_stringify vs) @ CHR '']'' # r) = Some (vs, r)"
      by (rule Cons.IH) (use Cons.prems False m in \<open>auto simp: joined_Cons\<close>)
    then show ?thesis using json_elements_step(2) [of m v] v m False by (simp add: joined_Cons)
  qed
qed simp

abbreviation (input) member_text :: "string \<times> js \<Rightarrow> string" where
  "member_text p \<equiv> pair_text (map_prod id JSON_stringify p)"

lemma json_members_read:
  assumes "\<And>p n r. p \<in> set ms \<Longrightarrow> json_stop r \<Longrightarrow> 2 * length (JSON_stringify (snd p)) \<le> n \<Longrightarrow>
      json_value n (JSON_stringify (snd p) @ r) = Some (snd p, r)"
    and "ms \<noteq> []" and "list_all (\<lambda>p. plain_text (fst p)) ms" and "2 * length (joined (map member_text ms)) < n"
  shows "json_members n (joined (map member_text ms) @ CHR ''}'' # r) = Some (ms, r)"
  using assms
proof (induction ms arbitrary: n)
  case (Cons p ms)
  obtain k v where p: "p = (k, v)" by fastforce
  obtain m where m: "n = Suc m" using Cons.prems(4) by (cases n) auto
  have v: "json_stop r' \<Longrightarrow> json_value m (JSON_stringify v @ r') = Some (v, r')" for r'
    using Cons.prems(1) [of p r' m] Cons.prems(4) m p by (simp add: joined_Cons pair_text_def)
  have k: "plain_text k" using Cons.prems(3) p by simp
  show ?case
  proof (cases "ms = []")
    case True
    then show ?thesis using json_members_step(1) [of m v k r] v m k p by (simp add: pair_text_def)
  next
    case False
    have "json_members m (joined (map member_text ms) @ CHR ''}'' # r) = Some (ms, r)"
      by (rule Cons.IH) (use Cons.prems False m in \<open>auto simp: joined_Cons\<close>)
    then show ?thesis using json_members_step(2) [of m v k] v m k p False by (simp add: joined_Cons pair_text_def)
  qed
qed simp

lemma json_value_stringify:
  "readable v \<Longrightarrow> json_stop r \<Longrightarrow> 2 * length (JSON_stringify v) \<le> n \<Longrightarrow> json_value n (JSON_stringify v @ r) = Some (v, r)"
proof (induction v arbitrary: n r)
  case (JSNum i)
  obtain c cs where c: "int_text i = c # cs" "js_digit c \<or> c = CHR ''-''" using int_text_hd by blast
  moreover have "\<not> js_blank c" "c \<notin> {CHR 0x22, CHR ''{'', CHR ''['', CHR ''t'', CHR ''f'', CHR ''n''}"
    using c(2) by (auto simp: js_digit_def less_eq_char_def)
  moreover obtain m where "n = Suc m" using JSNum.prems c by (cases n) auto
  ultimately show ?case using json_number_int_text [OF JSNum.prems(2), of i]
    by (simp add: json_value_Suc del: json_value.simps)
next
  case (JSStr s)
  then obtain m where "n = Suc m" by (cases n) (auto simp: json_quote_def)
  then show ?case using JSStr json_text_quote [of s r] by (simp add: json_quote_def json_value_Suc del: json_value.simps)
next
  case (JSArr vs)
  then obtain m where m: "n = Suc m" by (cases n) auto
  show ?case
  proof (cases vs)
    case Nil
    then show ?thesis using m by (simp add: json_value_Suc del: json_value.simps)
  next
    case (Cons v ws)
    then have e: "json_elements m (joined (map JSON_stringify vs) @ CHR '']'' # r) = Some (vs, r)"
      using JSArr m by (intro json_elements_read) (auto simp: list_all_iff)
    moreover have "expect (CHR '']'') (joined (map JSON_stringify vs) @ CHR '']'' # r) = None"
      using stringify_hd [of v] Cons by (auto simp: joined_Cons)
    ultimately show ?thesis using m by (simp add: json_value_Suc del: json_value.simps)
  qed
next
  case (JSObj ms)
  then obtain m where m: "n = Suc m" by (cases n) auto
  show ?case
  proof (cases ms)
    case Nil
    then show ?thesis using m by (simp add: json_value_Suc del: json_value.simps)
  next
    case (Cons p ps)
    have mem: "q \<in> set ms \<Longrightarrow> snd q \<in> Basic_BNFs.snds q \<and> readable (snd q)" for q
      using JSObj.prems(1) by (auto simp: list_all_iff snds.simps)
    have "json_members m (joined (map member_text ms) @ CHR ''}'' # r) = Some (ms, r)"
      by (rule json_members_read) (use JSObj mem m Cons in \<open>auto simp: list_all_iff comp_def\<close>)
    moreover have "expect (CHR ''}'') (joined (map member_text ms) @ CHR ''}'' # r) = None"
      using Cons by (simp add: joined_Cons pair_text_def json_quote_def)
    ultimately show ?thesis using m by (simp add: json_value_Suc comp_def del: json_value.simps)
  qed
next
  case (JSBool b)
  then obtain m where "n = Suc m" by (cases n) (auto split: if_splits)
  then show ?case by (simp add: json_value_Suc json_word_def del: json_value.simps)
next
  case JSNull
  then obtain m where "n = Suc m" by (cases n) auto
  then show ?case by (simp add: json_value_Suc json_word_def del: json_value.simps)
qed simp

lemma JSON_parse_stringify: "readable v \<Longrightarrow> JSON_parse (JSON_stringify v) = Some v"
  using json_value_stringify [of v "[]" "2 * length (JSON_stringify v) + 2"]
  by (simp add: JSON_parse_def json_stop_def skip_blanks_def)

section \<open>The fuel is enough\<close>

lemma skip_blanks_length: "length (skip_blanks s) \<le> length s"
  by (simp add: skip_blanks_def length_dropWhile_le)

lemma skip_blanks_shorter: "skip_blanks s = c # cs \<Longrightarrow> length cs < length s"
  using skip_blanks_length [of s] by simp

lemma expect_shorter: "expect c s = Some r \<Longrightarrow> length r < length s"
  using skip_blanks_length [of s] by (auto simp: expect_def split: list.splits if_splits)

lemma json_text_shorter: "json_text s = Some (t, r) \<Longrightarrow> length r < length s"
  by (induction s arbitrary: t r rule: json_text.induct) (auto simp: bind_eq_Some_conv split: if_splits, fastforce+)

lemma json_number_shorter: "json_number s = Some (v, r) \<Longrightarrow> length r < length s"
proof -
  have "takeWhile js_digit u \<noteq> [] \<Longrightarrow> length (dropWhile js_digit u) < length u" for u
    by (cases u) (auto simp: length_dropWhile_le le_imp_less_Suc split: if_splits)
  from this [of s] this [of "tl s"] show "json_number s = Some (v, r) \<Longrightarrow> ?thesis"
    by (cases s) (auto simp: json_number_def Let_def split: if_splits)
qed

lemma json_word_shorter: "json_word w u s = Some (v, r) \<Longrightarrow> w \<noteq> [] \<Longrightarrow> s \<noteq> [] \<Longrightarrow> length r < length s"
  by (auto simp: json_word_def split: if_splits)

lemma json_shorter:
  "json_value n s = Some (v, r) \<Longrightarrow> length r < length s"
  "json_elements n s = Some (vs, r) \<Longrightarrow> length r < length s"
  "json_members n s = Some (ms, r) \<Longrightarrow> length r < length s"
proof (induction n s and n s and n s arbitrary: v r and vs r and ms r rule: json_value_json_elements_json_members.induct)
  case (2 n s)
  obtain c cs where c: "skip_blanks s = c # cs" using 2(3) by (cases "skip_blanks s") auto
  have "length r < Suc (length cs)"
    using 2(1) [OF c] 2(2) [OF c] 2(3) c
    by (auto dest!: expect_shorter json_text_shorter json_number_shorter json_word_shorter
        split: if_splits option.splits)
  then show ?case using skip_blanks_shorter [OF c] skip_blanks_length [of s] c by simp
next
  case (4 n s)
  obtain w r0 where w: "json_value n s = Some (w, r0)" using 4(3) by (cases "json_value n s") auto
  show ?case
  proof (cases "expect (CHR '']'') r0")
    case None
    then obtain r1 ws where "expect (CHR '','') r0 = Some r1" "json_elements n r1 = Some (ws, r)"
      using 4(3) w by (auto split: option.splits)
    then show ?thesis using 4(1) [OF w] 4(2) [OF w refl None] expect_shorter [of "CHR '',''" r0 r1] by fastforce
  qed (use 4(1) [OF w] 4(3) w expect_shorter in fastforce)
next
  case (6 n s)
  obtain r0 k r1 where k: "expect (CHR 0x22) s = Some r0" "json_text r0 = Some (k, r1)"
    using 6(3) by (cases "expect (CHR 0x22) s") (auto split: option.splits)
  then have b: "Option.bind (expect (CHR 0x22) s) json_text = Some (k, r1)" by simp
  obtain r2 w r3 where w: "expect (CHR '':'') r1 = Some r2" "json_value n r2 = Some (w, r3)"
    using 6(3) b by (cases "expect (CHR '':'') r1") (auto split: option.splits)
  have l: "length r3 < length s"
    using 6(1) [OF b refl w] expect_shorter [OF k(1)] json_text_shorter [OF k(2)] expect_shorter [OF w(1)] by simp
  show ?case
  proof (cases "expect (CHR ''}'') r3")
    case None
    then obtain r4 ns where "expect (CHR '','') r3 = Some r4" "json_members n r4 = Some (ns, r)"
      using 6(3) b w by (auto split: option.splits)
    then show ?thesis using l 6(2) [OF b refl _ refl None] w expect_shorter [of "CHR '',''" r3 r4] by fastforce
  qed (use l 6(3) b w expect_shorter in fastforce)
qed auto

lemma json_more_fuel:
  "2 * length s + 1 \<le> n \<Longrightarrow> json_value (Suc n) s = json_value n s"
  "2 * length s + 2 \<le> n \<Longrightarrow> json_elements (Suc n) s = json_elements n s"
  "2 * length s + 1 \<le> n \<Longrightarrow> json_members (Suc n) s = json_members n s"
proof (induction n arbitrary: s)
  case (Suc n)
  case 1
  have "length cs < length s \<Longrightarrow> json_elements (Suc n) cs = json_elements n cs \<and> json_members (Suc n) cs = json_members n cs" for cs
    using Suc.IH(2,3) [of cs] 1 by simp
  from this [OF skip_blanks_shorter] show ?case
    by (subst (1 2) json_value.simps(2)) (auto split: list.split option.split)
next
  case (Suc n)
  case 2
  have "json_value (Suc n) s = json_value n s" using Suc.IH(1) 2 by simp
  moreover have "json_elements (Suc n) r1 = json_elements n r1" if "json_value n s = Some (v, r)" "expect c r = Some r1" for v r c r1
    using Suc.IH(2) [of r1] 2 json_shorter(1) [OF that(1)] expect_shorter [OF that(2)] by simp
  ultimately show ?case
    by (subst (1 2) json_elements.simps(2)) (auto split: option.split)
next
  case (Suc n)
  case 3
  have v: "json_value (Suc n) r2 = json_value n r2" if "length r2 < length s" for r2
    using Suc.IH(1) [of r2] 3 that by simp
  have m: "json_members (Suc n) r2 = json_members n r2" if "length r2 < length s" for r2
    using Suc.IH(3) [of r2] 3 that by simp
  show ?case
  proof (cases "Option.bind (expect (CHR 0x22) s) json_text")
    case None
    then show ?thesis by (subst (1 2) json_members.simps(2)) simp
  next
    case (Some a)
    then obtain r0 k r1 where k: "expect (CHR 0x22) s = Some r0" "json_text r0 = Some (k, r1)" "a = (k, r1)"
      by (cases a) (auto simp: bind_eq_Some_conv)
    have l: "length r1 < length s" using expect_shorter [OF k(1)] json_text_shorter [OF k(2)] by simp
    have b: "Option.bind (expect (CHR '':'') r1) (json_value (Suc n)) = Option.bind (expect (CHR '':'') r1) (json_value n)"
      using l v expect_shorter by (cases "expect (CHR '':'') r1") fastforce+
    have "json_members (Suc n) r4 = json_members n r4"
      if w: "Option.bind (expect (CHR '':'') r1) (json_value n) = Some (w, r3)" and e: "expect c r3 = Some r4" for w r3 c r4
    proof -
      obtain r2 where r2: "expect (CHR '':'') r1 = Some r2" "json_value n r2 = Some (w, r3)"
        using w by (auto simp: bind_eq_Some_conv)
      show ?thesis using l m expect_shorter [OF r2(1)] json_shorter(1) [OF r2(2)] expect_shorter [OF e] by simp
    qed
    then show ?thesis using Some k(3) b
      by (subst (1 2) json_members.simps(2)) (auto split: option.split)
  qed
qed simp_all

lemma json_value_fuel: "2 * length s + 1 \<le> n \<Longrightarrow> json_value n s = json_value (2 * length s + 2) s"
proof -
  have "json_value (2 * length s + 1 + k) s = json_value (2 * length s + 1) s" for k
    by (induction k) (simp_all add: json_more_fuel(1) del: json_value.simps)
  from this [of "n - (2 * length s + 1)"] this [of 1] show "2 * length s + 1 \<le> n \<Longrightarrow> ?thesis" by simp
qed

lemma JSON_parse_total: "2 * length s + 1 \<le> n \<Longrightarrow> JSON_parse s =
   (case json_value n s of None \<Rightarrow> None | Some (v, r) \<Rightarrow> if skip_blanks r = [] then Some v else None)"
  by (simp add: JSON_parse_def json_value_fuel)

end
