(* ===== verification/RM_Page.thy ===== *)
theory RM_Page
  imports RM_Json
begin

text \<open>
  The admin page of the hub: the script of \<open>admin_panel.h\<close> together with the script that
  \<open>AsyncDevicePortal::injectWebSocketCode\<close> adds to every page it serves. The variables of both
  scripts, the parts of the page they change and what the browser keeps for them (web sockets, pending
  timers, the listener for the end of loading) are one record. The browser runs one handler at a time;
  which one comes next is up to it, so a run is any sequence of events. Console output and scrolling
  are left out. Where a handler ends with an exception the state is the one reached by then.
\<close>

section \<open>The page in the browser\<close>

text \<open>Both scripts declare a function \<open>connectWebSocket\<close>; a function is known by its script.\<close>

datatype script = PageScript | PortalScript

datatype ready_state = CONNECTING | OPEN | CLOSED

record web_socket =
  so_url :: string
  so_handlers :: script
  so_readyState :: ready_state
  so_sent :: "string list"

record page =
  ws :: "nat option"
  inclusionActive :: js
  countdownInterval :: "nat option"
  devices :: "(js \<times> js) list"
  el_buttonText :: string
  el_buttonClass :: string
  el_statusText :: string
  el_statusClass :: string
  el_countdownDisplay :: string
  el_hubId :: string
  el_tableDisplay :: string
  el_noDevicesDisplay :: string
  el_deviceList :: "string list"
  el_activityLog :: "string list"

record tab = page +
  sockets :: "web_socket list"
  timers :: "(nat \<times> script) list"
  nextTimer :: nat
  fn_connectWebSocket :: script
  loadListener :: "script option"
  portalScriptRun :: bool
  wsRetryCount :: nat
  reconnectTimeout :: "nat option"
  devicePortalWs :: "nat option"

text \<open>The surroundings: the time now and the text of a time, which depends on the settings of the browser,
  the host that the page came from and the port that the hub has written into its script.\<close>

record browser =
  br_now :: js
  br_toLocaleTimeString :: "js \<Rightarrow> string"
  br_hostname :: string
  br_port :: u16

section \<open>Parts of the page\<close>

definition formatTime :: "browser \<Rightarrow> js \<Rightarrow> string" where
  "formatTime B timestamp = br_toLocaleTimeString B timestamp"

definition addLogEntry :: "browser \<Rightarrow> js \<Rightarrow> js \<Rightarrow> tab \<Rightarrow> tab" where
  \<open>addLogEntry B message level t =
     (let level1 = (if level = JSUndefined then JSStr ''info'' else level)
      in t\<lparr>el_activityLog := el_activityLog t @
        [''<span class="log-time">'' @ formatTime B (br_now B) @ ''</span><span class="log-'' @ js_text level1 @ ''">'' @
         js_text message @ ''</span>'']\<rparr>)\<close>

text \<open>A value as a number, \<open>None\<close> if it is none.\<close>

definition text_number :: "string \<Rightarrow> int option" where
  "text_number s =
     (let s1 = skip_blanks (rev (skip_blanks (rev s)))
      in if s1 = [] then Some 0
         else if hd s1 = CHR ''-'' \<and> tl s1 \<noteq> [] \<and> list_all js_digit (tl s1) then Some (- int (digits_value (tl s1)))
         else if list_all js_digit s1 then Some (int (digits_value s1)) else None)"

fun js_number :: "js \<Rightarrow> int option" where
  "js_number JSUndefined = None"
| "js_number JSNull = Some 0"
| "js_number (JSBool b) = Some (if b then 1 else 0)"
| "js_number (JSNum n) = Some n"
| "js_number v = text_number (js_text v)"

definition js_greater :: "js \<Rightarrow> int \<Rightarrow> bool" where
  "js_greater v k = (case js_number v of None \<Rightarrow> False | Some n \<Rightarrow> n > k)"

definition getRssiClass :: "js \<Rightarrow> string" where
  "getRssiClass rssi = (if js_greater rssi (- 60) then ''good'' else if js_greater rssi (- 80) then ''fair'' else ''poor'')"

definition device_row :: "browser \<Rightarrow> js \<times> js \<Rightarrow> string" where
  \<open>device_row B entry = (case entry of (key, device) \<Rightarrow> ''
                        <td class="device-id">'' @ js_text key @ ''</td>
                        <td>'' @ js_text (js_or (js_get device ''name'') (JSStr ''Unknown'')) @ ''</td>
                        <td>'' @ formatTime B (js_get device ''lastSeen'') @ ''</td>
                        <td class="rssi '' @ getRssiClass (js_get device ''rssi'') @ ''">'' @ js_text (js_get device ''rssi'') @ '' dBm</td>
                    '')\<close>

definition updateDeviceTable :: "browser \<Rightarrow> tab \<Rightarrow> tab" where
  "updateDeviceTable B t =
     (if devices t = [] then t\<lparr>el_tableDisplay := ''none'', el_noDevicesDisplay := ''block''\<rparr>
      else t\<lparr>el_tableDisplay := ''table'', el_noDevicesDisplay := ''none'', el_deviceList := map (device_row B) (devices t)\<rparr>)"

definition updateInclusionStatus :: "js \<Rightarrow> tab \<Rightarrow> tab" where
  "updateInclusionStatus active t =
     (if js_truthy active
      then t\<lparr>inclusionActive := active, el_buttonText := ''Disable Inclusion Mode'', el_buttonClass := ''toggle-button disable'',
        el_statusText := ''Active'', el_statusClass := ''status-indicator status-active'', el_countdownDisplay := ''none''\<rparr>
      else t\<lparr>inclusionActive := active, el_buttonText := ''Enable Inclusion Mode'', el_buttonClass := ''toggle-button enable'',
        el_statusText := ''Inactive'', el_statusClass := ''status-indicator status-inactive'', el_countdownDisplay := ''none'',
        countdownInterval := None\<rparr>)"

section \<open>Sending\<close>

text \<open>\<open>send\<close> of a socket: an error while it is connecting (\<open>None\<close>), nothing once it is closed.\<close>

definition so_send :: "nat \<Rightarrow> string \<Rightarrow> tab \<Rightarrow> tab option" where
  "so_send i m t =
     (case so_readyState (sockets t ! i) of
        CONNECTING \<Rightarrow> None
      | OPEN \<Rightarrow> Some (t\<lparr>sockets := (sockets t)[i := (sockets t ! i)\<lparr>so_sent := so_sent (sockets t ! i) @ [m]\<rparr>]\<rparr>)
      | CLOSED \<Rightarrow> Some t)"

text \<open>The messages of the page.\<close>

definition get_status_text :: string where
  "get_status_text = JSON_stringify (JSObj [(''type'', JSStr ''get_status''), (''data'', JSObj [])])"

definition get_devices_text :: string where
  "get_devices_text = JSON_stringify (JSObj [(''type'', JSStr ''get_devices''), (''data'', JSStr ''request'')])"

definition toggle_text :: "js \<Rightarrow> string" where
  "toggle_text active = JSON_stringify (JSObj [(''type'', JSStr ''set_inclusion_mode''),
     (''data'', if \<not> js_truthy active then JSStr ''enable'' else JSStr ''disable'')])"

definition toggleInclusionMode :: "tab \<Rightarrow> tab" where
  "toggleInclusionMode t =
     (case ws t of
        None \<Rightarrow> t
      | Some i \<Rightarrow>
          if so_readyState (sockets t ! i) = OPEN
          then (case so_send i (toggle_text (inclusionActive t)) t of None \<Rightarrow> t | Some t1 \<Rightarrow> t1) else t)"

section \<open>Messages of the hub\<close>

text \<open>Setting an entry of a map: keys are equal if they are the same primitive value; an object read from a
  text is no other's equal.\<close>

fun js_primitive :: "js \<Rightarrow> bool" where
  "js_primitive (JSArr vs) = False"
| "js_primitive (JSObj ms) = False"
| "js_primitive v = True"

fun js_map_set :: "js \<Rightarrow> js \<Rightarrow> (js \<times> js) list \<Rightarrow> (js \<times> js) list" where
  "js_map_set k v [] = [(k, v)]"
| "js_map_set k v ((k', v') # m) = (if js_primitive k \<and> k = k' then (k, v) # m else (k', v') # js_map_set k v m)"

text \<open>The loop over a list of devices; it stops with an exception at a value without properties.\<close>

fun set_devices :: "js list \<Rightarrow> (js \<times> js) list \<Rightarrow> bool \<times> (js \<times> js) list" where
  "set_devices [] m = (True, m)"
| "set_devices (d # ds) m = (if js_nullish d then (False, m) else set_devices ds (js_map_set (js_get d ''id'') d m))"

definition on_status_update :: "js \<Rightarrow> tab \<Rightarrow> tab" where
  "on_status_update statusData t =
     (if js_nullish statusData then t
      else (updateInclusionStatus (js_get statusData ''inclusionMode'') t)
        \<lparr>el_hubId := js_text (js_or (js_get statusData ''hubId'') (JSStr ''Unknown''))\<rparr>)"

definition on_device_list :: "browser \<Rightarrow> js \<Rightarrow> tab \<Rightarrow> tab" where
  "on_device_list B deviceData t =
     (let t1 = t\<lparr>devices := []\<rparr>
      in if js_nullish deviceData then t1
         else case js_get deviceData ''devices'' of
             JSArr ds \<Rightarrow> (case set_devices ds [] of
                 (done, m) \<Rightarrow> if done then updateDeviceTable B (t1\<lparr>devices := m\<rparr>) else t1\<lparr>devices := m\<rparr>)
           | _ \<Rightarrow> t1)"

text \<open>\<open>includes('success')\<close>, which only texts and lists have.\<close>

definition includes_success :: "js \<Rightarrow> bool option" where
  "includes_success v =
     (case v of
        JSStr s \<Rightarrow> Some (str_find s ''success'' 0 \<noteq> None)
      | JSArr vs \<Rightarrow> Some (JSStr ''success'' \<in> set vs)
      | _ \<Rightarrow> None)"

definition on_inclusion_event :: "browser \<Rightarrow> js \<Rightarrow> tab \<Rightarrow> tab" where
  "on_inclusion_event B eventData t =
     (if js_nullish eventData then t
      else case includes_success (js_get eventData ''event'') of
          None \<Rightarrow> t
        | Some ok \<Rightarrow> addLogEntry B (JSStr (''Inclusion: '' @ js_text (js_get eventData ''event'') @ '' from device '' @
            js_text (js_get eventData ''deviceId''))) (JSStr (if ok then ''success'' else ''info'')) t)"

definition on_device_added :: "browser \<Rightarrow> js \<Rightarrow> tab \<Rightarrow> tab" where
  "on_device_added B addedData t =
     (if js_nullish addedData then t
      else addLogEntry B (JSStr (''Device '' @ js_text (js_get addedData ''id'') @ '' added to network'')) (JSStr ''success'')
        (updateDeviceTable B (t\<lparr>devices := js_map_set (js_get addedData ''id'') addedData (devices t)\<rparr>)))"

definition on_log_entry :: "browser \<Rightarrow> js \<Rightarrow> tab \<Rightarrow> tab" where
  "on_log_entry B logData t =
     (if js_nullish logData then t else addLogEntry B (js_get logData ''message'') (js_get logData ''level'') t)"

definition page_onmessage :: "browser \<Rightarrow> string \<Rightarrow> tab \<Rightarrow> tab" where
  "page_onmessage B text t =
     (case JSON_parse text of
        None \<Rightarrow> t
      | Some msg \<Rightarrow>
          if js_nullish msg then t
          else let ty = js_get msg ''type''; data = JSON_parse (js_text (js_get msg ''data''))
               in if ty \<notin> JSStr ` {''status_update'', ''device_list'', ''inclusion_event'', ''device_added'', ''log_entry''} then t
                  else case data of
                      None \<Rightarrow> t
                    | Some v \<Rightarrow>
                        if ty = JSStr ''status_update'' then on_status_update v t
                        else if ty = JSStr ''device_list'' then on_device_list B v t
                        else if ty = JSStr ''inclusion_event'' then on_inclusion_event B v t
                        else if ty = JSStr ''device_added'' then on_device_added B v t
                        else on_log_entry B v t)"

section \<open>The connection of the page\<close>

definition setTimeout :: "script \<Rightarrow> tab \<Rightarrow> nat \<times> tab" where
  "setTimeout f t = (nextTimer t, t\<lparr>timers := timers t @ [(nextTimer t, f)], nextTimer := Suc (nextTimer t)\<rparr>)"

definition new_socket :: "string \<Rightarrow> script \<Rightarrow> tab \<Rightarrow> tab" where
  "new_socket url f t = t\<lparr>sockets := sockets t @ [\<lparr>so_url = url, so_handlers = f, so_readyState = CONNECTING, so_sent = []\<rparr>]\<rparr>"

definition page_connectWebSocket :: "browser \<Rightarrow> tab \<Rightarrow> tab" where
  "page_connectWebSocket B t =
     (new_socket (''ws://'' @ br_hostname B @ ''/ws'') PageScript t)\<lparr>ws := Some (length (sockets t))\<rparr>"

text \<open>The messages go to the socket of the variable, whichever socket has opened.\<close>

definition page_onopen :: "browser \<Rightarrow> tab \<Rightarrow> tab" where
  "page_onopen B t =
     (let t1 = addLogEntry B (JSStr ''Connected to hub'') (JSStr ''success'') t
      in case ws t1 of
          None \<Rightarrow> t1
        | Some i \<Rightarrow> (case so_send i get_status_text t1 of
              None \<Rightarrow> t1
            | Some t2 \<Rightarrow> (case so_send i get_devices_text t2 of None \<Rightarrow> t2 | Some t3 \<Rightarrow> t3)))"

definition page_onclose :: "browser \<Rightarrow> tab \<Rightarrow> tab" where
  "page_onclose B t = snd (setTimeout (fn_connectWebSocket t)
     (updateInclusionStatus (JSBool False) (addLogEntry B (JSStr ''Disconnected from hub'') (JSStr ''error'') t)))"

definition page_onerror :: "browser \<Rightarrow> tab \<Rightarrow> tab" where
  "page_onerror B t = addLogEntry B (JSStr ''Connection error'') (JSStr ''error'') t"

text \<open>The page as it is written, and what its script does at the end.\<close>

definition blank_tab :: tab where
  "blank_tab = \<lparr>ws = None, inclusionActive = JSBool False, countdownInterval = None, devices = [],
     el_buttonText = ''
                    Enable Inclusion Mode
                '', el_buttonClass = ''toggle-button enable'', el_statusText = ''Inactive'',
     el_statusClass = ''status-indicator status-inactive'', el_countdownDisplay = ''none'', el_hubId = ''Loading...'',
     el_tableDisplay = ''none'', el_noDevicesDisplay = [], el_deviceList = [], el_activityLog = [],
     sockets = [], timers = [], nextTimer = 1, fn_connectWebSocket = PageScript, loadListener = None, portalScriptRun = False,
     wsRetryCount = 0, reconnectTimeout = None, devicePortalWs = None\<rparr>"

definition page_script :: "browser \<Rightarrow> tab" where
  "page_script B = addLogEntry B (JSStr ''Admin panel initialized'') (JSStr ''info'') (page_connectWebSocket B blank_tab)"

section \<open>The script of the portal\<close>

text \<open>Its declaration replaces the function of the page's script. Its handlers raise events on the window
  that nothing on the page listens to.\<close>

definition portal_script :: "tab \<Rightarrow> tab" where
  "portal_script t = t\<lparr>fn_connectWebSocket := PortalScript, wsRetryCount := 0, reconnectTimeout := None,
     loadListener := Some PortalScript, portalScriptRun := True\<rparr>"

definition clearTimeout :: "nat \<Rightarrow> tab \<Rightarrow> tab" where
  "clearTimeout i t = t\<lparr>timers := filter (\<lambda>e. fst e \<noteq> i) (timers t)\<rparr>"

definition portal_connectWebSocket :: "browser \<Rightarrow> tab \<Rightarrow> tab" where
  "portal_connectWebSocket B t =
     (let t1 = (case reconnectTimeout t of None \<Rightarrow> t | Some i \<Rightarrow> (clearTimeout i t)\<lparr>reconnectTimeout := None\<rparr>)
      in (new_socket (''ws://'' @ br_hostname B @ '':'' @ dec_string (unat (br_port B)) @ ''/ws'') PortalScript t1)
           \<lparr>devicePortalWs := Some (length (sockets t1))\<rparr>)"

definition portal_onclose :: "nat \<Rightarrow> tab \<Rightarrow> tab" where
  "portal_onclose code t =
     (if code \<noteq> 1000 \<and> wsRetryCount t < 3
      then case setTimeout (fn_connectWebSocket t) (t\<lparr>wsRetryCount := wsRetryCount t + 1\<rparr>) of
          (i, t1) \<Rightarrow> t1\<lparr>reconnectTimeout := Some i\<rparr>
      else t)"

section \<open>Events of the browser\<close>

datatype tab_event =
    RunPortalScript
  | Load
  | SocketOpen nat
  | SocketMessage nat string
  | SocketError nat
  | SocketClose nat nat
  | Timeout nat
  | Click

definition call_connect :: "browser \<Rightarrow> script \<Rightarrow> tab \<Rightarrow> tab" where
  "call_connect B f t = (case f of PageScript \<Rightarrow> page_connectWebSocket B t | PortalScript \<Rightarrow> portal_connectWebSocket B t)"

definition set_ready :: "nat \<Rightarrow> ready_state \<Rightarrow> tab \<Rightarrow> tab" where
  "set_ready i r t = t\<lparr>sockets := (sockets t)[i := (sockets t ! i)\<lparr>so_readyState := r\<rparr>]\<rparr>"

definition socket_is :: "nat \<Rightarrow> ready_state \<Rightarrow> tab \<Rightarrow> bool" where
  "socket_is i r t \<longleftrightarrow> i < length (sockets t) \<and> so_readyState (sockets t ! i) = r"

text \<open>Events that cannot happen in a state change nothing.\<close>

fun tab_step :: "browser \<Rightarrow> tab_event \<Rightarrow> tab \<Rightarrow> tab" where
  "tab_step B RunPortalScript t = (if portalScriptRun t then t else portal_script t)"
| "tab_step B Load t = (case loadListener t of None \<Rightarrow> t | Some f \<Rightarrow> call_connect B f (t\<lparr>loadListener := None\<rparr>))"
| "tab_step B (SocketOpen i) t =
     (if \<not> socket_is i CONNECTING t then t
      else case so_handlers (sockets t ! i) of PageScript \<Rightarrow> page_onopen B (set_ready i OPEN t) | PortalScript \<Rightarrow> set_ready i OPEN t)"
| "tab_step B (SocketMessage i m) t =
     (if \<not> socket_is i OPEN t then t
      else case so_handlers (sockets t ! i) of PageScript \<Rightarrow> page_onmessage B m t | PortalScript \<Rightarrow> t)"
| "tab_step B (SocketError i) t =
     (if \<not> socket_is i CONNECTING t \<and> \<not> socket_is i OPEN t then t
      else case so_handlers (sockets t ! i) of PageScript \<Rightarrow> page_onerror B t | PortalScript \<Rightarrow> t)"
| "tab_step B (SocketClose i code) t =
     (if \<not> socket_is i CONNECTING t \<and> \<not> socket_is i OPEN t then t
      else case so_handlers (sockets t ! i) of
          PageScript \<Rightarrow> page_onclose B (set_ready i CLOSED t) | PortalScript \<Rightarrow> portal_onclose code (set_ready i CLOSED t))"
| "tab_step B (Timeout n) t =
     (case map_of (timers t) n of None \<Rightarrow> t | Some f \<Rightarrow> call_connect B f (clearTimeout n t))"
| "tab_step B Click t = toggleInclusionMode t"

definition tab_run :: "browser \<Rightarrow> tab_event list \<Rightarrow> tab \<Rightarrow> tab" where
  "tab_run B evs t = foldl (\<lambda>t ev. tab_step B ev t) t evs"

section \<open>What the handlers of messages leave alone\<close>

definition connection :: "tab \<Rightarrow> nat option \<times> web_socket list \<times> (nat \<times> script) list \<times> script \<times> script option \<times> bool \<times> nat" where
  "connection t = (ws t, sockets t, timers t, fn_connectWebSocket t, loadListener t, portalScriptRun t, wsRetryCount t)"

lemma connection_parts [simp]:
  "connection (addLogEntry B m l t) = connection t" "connection (updateDeviceTable B t) = connection t"
  "connection (updateInclusionStatus v t) = connection t"
  by (simp_all add: connection_def addLogEntry_def updateDeviceTable_def updateInclusionStatus_def Let_def)

lemma connection_message [simp]: "connection (page_onmessage B m t) = connection t"
proof -
  have "connection (on_status_update v t) = connection t" for v
    using connection_parts(3) [of "js_get v ''inclusionMode''" t] by (simp add: on_status_update_def connection_def)
  moreover have "connection (on_device_list B v t) = connection t" for v
    by (auto simp: on_device_list_def Let_def connection_def updateDeviceTable_def split: js.split prod.split)
  moreover have "connection (on_inclusion_event B v t) = connection t" for v
    by (simp add: on_inclusion_event_def split: option.split)
  moreover have "connection (on_device_added B v t) = connection t" for v
    by (simp add: on_device_added_def) (simp add: connection_def)
  ultimately show ?thesis by (simp add: page_onmessage_def on_log_entry_def Let_def split: option.split)
qed

section \<open>One connection of the page at a time\<close>

definition live_of :: "script \<Rightarrow> web_socket \<Rightarrow> bool" where
  "live_of f s \<longleftrightarrow> so_handlers s = f \<and> so_readyState s \<noteq> CLOSED"

abbreviation page_live :: "tab \<Rightarrow> nat" where
  "page_live t \<equiv> length (filter (live_of PageScript) (sockets t))"

abbreviation page_timers :: "tab \<Rightarrow> nat" where
  "page_timers t \<equiv> length (filter (\<lambda>e. snd e = PageScript) (timers t))"

text \<open>The variable \<open>ws\<close> holds the newest socket of the page's script.\<close>

definition tab_ok :: "tab \<Rightarrow> bool" where
  "tab_ok t \<longleftrightarrow> page_live t + page_timers t \<le> 1 \<and> loadListener t \<noteq> Some PageScript \<and>
     (portalScriptRun t \<longleftrightarrow> fn_connectWebSocket t = PortalScript) \<and>
     (\<exists>i. ws t = Some i \<and> i < length (sockets t) \<and> so_handlers (sockets t ! i) = PageScript \<and>
        (\<forall>j < length (sockets t). live_of PageScript (sockets t ! j) \<longrightarrow> j = i))"

text \<open>Nothing is left that could bring the page's own handlers back.\<close>

definition tab_dead :: "tab \<Rightarrow> bool" where
  "tab_dead t \<longleftrightarrow> tab_ok t \<and> page_live t = 0 \<and> page_timers t = 0 \<and> portalScriptRun t"

lemma filter_update_length:
  assumes "i < length xs"
  shows "length (filter P (xs[i := y])) + (if P (xs ! i) then 1 else 0) = length (filter P xs) + (if P y then 1 else 0)"
proof -
  have "xs = take i xs @ xs ! i # drop (Suc i) xs" using assms id_take_nth_drop by blast
  then have "length (filter P xs) = length (filter P (take i xs)) + length (filter P (xs ! i # drop (Suc i) xs))"
    by (metis filter_append length_append)
  moreover have "xs[i := y] = take i xs @ y # drop (Suc i) xs" using assms by (simp add: upd_conv_take_nth_drop)
  ultimately show ?thesis by simp
qed

lemma filter_timers_le: "length (filter (\<lambda>e. Q e \<and> P e) xs) \<le> length (filter P xs)"
  by (induction xs) auto

lemma filter_timer_less:
  "map_of ts n = Some f \<Longrightarrow> length (filter (\<lambda>e. snd e = f) (filter (\<lambda>e. fst e \<noteq> n) ts)) < length (filter (\<lambda>e. snd e = f) ts)"
proof (induction ts)
  case (Cons e ts)
  then show ?case using filter_timers_le [of "\<lambda>e. fst e \<noteq> n" "\<lambda>e. snd e = f" ts]
    by (cases e) (auto split: if_splits simp: less_Suc_eq_le)
qed simp

lemma tab_ok_connection: "connection t = connection t' \<Longrightarrow> tab_ok t = tab_ok t'"
  by (simp add: tab_ok_def connection_def)

lemma tab_ok_start: "tab_ok (page_script B)"
  by (simp add: page_script_def tab_ok_connection [OF connection_parts(1)])
    (simp add: tab_ok_def page_connectWebSocket_def new_socket_def blank_tab_def live_of_def)

text \<open>The events one by one.\<close>

lemma tab_ok_socket:
  assumes ok: "tab_ok t" and s: "so_handlers s = so_handlers (sockets t ! i)" "live_of PageScript s \<Longrightarrow> live_of PageScript (sockets t ! i)"
  shows "tab_ok (t\<lparr>sockets := (sockets t)[i := s]\<rparr>)"
    and "page_live (t\<lparr>sockets := (sockets t)[i := s]\<rparr>) \<le> page_live t"
proof -
  show le: "page_live (t\<lparr>sockets := (sockets t)[i := s]\<rparr>) \<le> page_live t"
  proof (cases "i < length (sockets t)")
    case True
    then show ?thesis using s(2) filter_update_length [of i "sockets t" "live_of PageScript" s] by (simp split: if_splits)
  qed (simp add: list_update_beyond)
  have l: "live_of PageScript ((sockets t)[i := s] ! j) \<Longrightarrow> j < length (sockets t) \<Longrightarrow> live_of PageScript (sockets t ! j)" for j
    using s(2) by (cases "j = i") simp_all
  have h: "j < length (sockets t) \<Longrightarrow> so_handlers ((sockets t)[i := s] ! j) = so_handlers (sockets t ! j)" for j
    using s(1) by (cases "j = i") simp_all
  obtain k where k: "ws t = Some k" "k < length (sockets t)" "so_handlers (sockets t ! k) = PageScript"
      "\<forall>j < length (sockets t). live_of PageScript (sockets t ! j) \<longrightarrow> j = k"
    using ok by (auto simp: tab_ok_def)
  have "so_handlers ((sockets t)[i := s] ! k) = PageScript" by (rule trans [OF h [OF k(2)] k(3)])
  then have "\<exists>k. ws t = Some k \<and> k < length (sockets t) \<and> so_handlers ((sockets t)[i := s] ! k) = PageScript \<and>
      (\<forall>j < length (sockets t). live_of PageScript ((sockets t)[i := s] ! j) \<longrightarrow> j = k)"
    using k(1,2,4) l by blast
  then show "tab_ok (t\<lparr>sockets := (sockets t)[i := s]\<rparr>)" using ok le by (simp add: tab_ok_def)
qed

lemma tab_ok_send:
  assumes "tab_ok t" "so_send i m t = Some t'"
  shows "tab_ok t' \<and> ws t' = ws t"
proof (cases "so_readyState (sockets t ! i) = OPEN")
  case True
  then have "t' = t\<lparr>sockets := (sockets t)[i := (sockets t ! i)\<lparr>so_sent := so_sent (sockets t ! i) @ [m]\<rparr>]\<rparr>"
    using assms(2) by (simp add: so_send_def)
  then show ?thesis using tab_ok_socket(1) [OF assms(1), of "(sockets t ! i)\<lparr>so_sent := so_sent (sockets t ! i) @ [m]\<rparr>" i]
    by (simp add: live_of_def)
qed (use assms in \<open>auto simp: so_send_def split: ready_state.splits\<close>)

lemma tab_ok_click: "tab_ok t \<Longrightarrow> tab_ok (toggleInclusionMode t)"
  by (simp add: toggleInclusionMode_def tab_ok_send split: option.split)

lemma tab_ok_log: "tab_ok t \<Longrightarrow> tab_ok (addLogEntry B m l t)"
  using tab_ok_connection [OF connection_parts(1)] by blast

lemma tab_ok_onopen: "tab_ok t \<Longrightarrow> tab_ok (page_onopen B t)"
proof -
  assume "tab_ok t"
  then have ok: "tab_ok (addLogEntry B (JSStr ''Connected to hub'') (JSStr ''success'') t)" by (rule tab_ok_log)
  then show ?thesis by (simp add: page_onopen_def Let_def tab_ok_send [OF tab_ok_send [OF ok, THEN conjunct1]] tab_ok_send [OF ok] split: option.split)
qed

lemma tab_ok_ready:
  assumes "tab_ok t" "so_readyState (sockets t ! i) \<noteq> CLOSED"
  shows "tab_ok (set_ready i r t)"
  using tab_ok_socket(1) [OF assms(1), of "(sockets t ! i)\<lparr>so_readyState := r\<rparr>" i] assms(2) by (simp add: set_ready_def live_of_def)

lemma page_live_closing:
  assumes ok: "tab_ok t" and i: "i < length (sockets t)" "live_of PageScript (sockets t ! i)"
  shows "page_live (set_ready i CLOSED t) = 0 \<and> page_timers t = 0"
proof -
  have "sockets t ! i \<in> set (filter (live_of PageScript) (sockets t))" using i by simp
  then have "0 < page_live t" by (rule length_pos_if_in_set)
  moreover have "page_live t + page_timers t \<le> 1" using ok by (simp add: tab_ok_def)
  ultimately have "page_live t = 1" "page_timers t = 0" by linarith+
  then show ?thesis using i filter_update_length [of i "sockets t" "live_of PageScript" "(sockets t ! i)\<lparr>so_readyState := CLOSED\<rparr>"]
    by (simp add: set_ready_def live_of_def)
qed

lemma tab_ok_timeout:
  "tab_ok t \<Longrightarrow> page_live t' = page_live t \<Longrightarrow> page_live t + page_timers t' \<le> 1 \<Longrightarrow> ws t' = ws t \<Longrightarrow> sockets t' = sockets t \<Longrightarrow>
   loadListener t' = loadListener t \<Longrightarrow> fn_connectWebSocket t' = fn_connectWebSocket t \<Longrightarrow> portalScriptRun t' = portalScriptRun t \<Longrightarrow> tab_ok t'"
  by (simp add: tab_ok_def)

lemma tab_ok_onclose:
  assumes ok: "tab_ok t" and i: "i < length (sockets t)" "live_of PageScript (sockets t ! i)"
  shows "tab_ok (page_onclose B (set_ready i CLOSED t))"
proof (rule tab_ok_timeout [OF tab_ok_ready [OF ok, of i CLOSED]])
  show "so_readyState (sockets t ! i) \<noteq> CLOSED" using i by (simp add: live_of_def)
qed (use page_live_closing [OF assms] in
    \<open>simp_all add: page_onclose_def setTimeout_def addLogEntry_def updateInclusionStatus_def set_ready_def Let_def\<close>)

lemma tab_ok_page_connect:
  assumes ok: "tab_ok t" "page_live t + page_timers t = 0"
  shows "tab_ok (page_connectWebSocket B t)"
proof -
  have "\<not> live_of PageScript (sockets t ! j)" if "j < length (sockets t)" for j
    using ok(2) that nth_mem [OF that] by (auto simp: filter_empty_conv)
  then show ?thesis using ok
    by (auto simp: tab_ok_def page_connectWebSocket_def new_socket_def nth_append less_Suc_eq)
qed

lemma tab_ok_portal_connect:
  assumes ok: "tab_ok t"
  shows "tab_ok (portal_connectWebSocket B t)" and "page_live (portal_connectWebSocket B t) = page_live t"
    and "page_timers (portal_connectWebSocket B t) \<le> page_timers t" and "page.truncate (portal_connectWebSocket B t) = page.truncate t"
proof -
  obtain k where k: "ws t = Some k" "k < length (sockets t)" "so_handlers (sockets t ! k) = PageScript"
      "\<forall>j < length (sockets t). live_of PageScript (sockets t ! j) \<longrightarrow> j = k"
    using ok by (auto simp: tab_ok_def)
  let ?s = "\<lparr>so_url = ''ws://'' @ br_hostname B @ '':'' @ dec_string (unat (br_port B)) @ ''/ws'', so_handlers = PortalScript,
    so_readyState = CONNECTING, so_sent = []\<rparr>"
  have c: "ws (portal_connectWebSocket B t) = ws t" "sockets (portal_connectWebSocket B t) = sockets t @ [?s]"
      "loadListener (portal_connectWebSocket B t) = loadListener t" "portalScriptRun (portal_connectWebSocket B t) = portalScriptRun t"
      "fn_connectWebSocket (portal_connectWebSocket B t) = fn_connectWebSocket t"
    by (simp_all add: portal_connectWebSocket_def new_socket_def clearTimeout_def Let_def split: option.split)
  show t: "page_timers (portal_connectWebSocket B t) \<le> page_timers t"
    by (simp add: portal_connectWebSocket_def new_socket_def clearTimeout_def Let_def filter_timers_le split: option.split)
  have n: "\<not> live_of PageScript ?s" by (simp add: live_of_def)
  then show "page_live (portal_connectWebSocket B t) = page_live t" using c by simp
  have "\<exists>k. ws t = Some k \<and> k < length (sockets t @ [?s]) \<and> so_handlers ((sockets t @ [?s]) ! k) = PageScript \<and>
      (\<forall>j < length (sockets t @ [?s]). live_of PageScript ((sockets t @ [?s]) ! j) \<longrightarrow> j = k)"
    using k n by (intro exI [of _ k]) (simp add: nth_append less_Suc_eq)
  then show "tab_ok (portal_connectWebSocket B t)" using ok t n c unfolding tab_ok_def by simp
  show "page.truncate (portal_connectWebSocket B t) = page.truncate t"
    by (simp add: portal_connectWebSocket_def new_socket_def clearTimeout_def page.truncate_def Let_def split: option.split)
qed

text \<open>Before the script of the portal has run there is nothing of it.\<close>

definition portal_late :: "tab \<Rightarrow> bool" where
  "portal_late t \<longleftrightarrow> portalScriptRun t \<or> (loadListener t = None \<and> fn_connectWebSocket t = PageScript \<and>
     PortalScript \<notin> set (map so_handlers (sockets t)) \<and> PortalScript \<notin> set (map snd (timers t)))"

lemma portal_late_connection: "connection t = connection t' \<Longrightarrow> portal_late t = portal_late t'"
  by (simp add: portal_late_def connection_def)

lemma handlers_update:
  "so_handlers s = so_handlers (ss ! i) \<Longrightarrow> map so_handlers (ss[i := s]) = map so_handlers ss"
  by (metis list_update_beyond list_update_id map_update not_less)

lemma so_send_handlers:
  "so_send i m t = Some t' \<Longrightarrow> map so_handlers (sockets t') = map so_handlers (sockets t) \<and> timers t' = timers t \<and>
     loadListener t' = loadListener t \<and> portalScriptRun t' = portalScriptRun t \<and> fn_connectWebSocket t' = fn_connectWebSocket t"
  by (auto simp: so_send_def handlers_update split: ready_state.splits)

lemma portal_late_send: "portal_late t \<Longrightarrow> so_send i m t = Some t' \<Longrightarrow> portal_late t'"
  using so_send_handlers [of i m t t'] unfolding portal_late_def by metis

lemma portal_late_parts:
  assumes "portal_late t"
  shows "portal_late (set_ready i r t)" "portal_late (addLogEntry B m l t)" "portal_late (page_onmessage B text t)"
    "portal_late (toggleInclusionMode t)" "portal_late (page_onopen B t)" "portal_late (page_onclose B t)"
    "portal_late (clearTimeout n t)" "portal_late (page_connectWebSocket B t)"
proof -
  show "portal_late (set_ready i r t)" using assms by (simp add: portal_late_def set_ready_def handlers_update)
  show log: "portal_late (addLogEntry B m l t)" for m l using assms portal_late_connection [OF connection_parts(1)] by blast
  show "portal_late (page_onmessage B text t)" using assms portal_late_connection [OF connection_message] by blast
  show "portal_late (toggleInclusionMode t)" using assms by (simp add: toggleInclusionMode_def portal_late_send split: option.split)
  show "portal_late (page_onopen B t)"
    by (simp add: page_onopen_def Let_def log portal_late_send [OF log] portal_late_send [OF portal_late_send [OF log]] split: option.split)
  show "portal_late (page_onclose B t)" "portal_late (clearTimeout n t)" "portal_late (page_connectWebSocket B t)"
    using assms by (auto simp: portal_late_def page_onclose_def setTimeout_def addLogEntry_def updateInclusionStatus_def Let_def
        clearTimeout_def page_connectWebSocket_def new_socket_def)
qed

lemma tab_step_ok:
  assumes ok: "tab_ok t" and late: "portal_late t"
  shows "tab_ok (tab_step B ev t) \<and> portal_late (tab_step B ev t)"
proof (cases ev)
  case RunPortalScript
  then show ?thesis using ok late by (simp add: tab_ok_def portal_late_def portal_script_def)
next
  case Load
  show ?thesis
  proof (cases "loadListener t")
    case (Some f)
    then have f: "f = PortalScript" "portalScriptRun t" using ok late by (cases f; simp add: tab_ok_def portal_late_def)+
    have "tab_ok (t\<lparr>loadListener := None\<rparr>)" using ok by (simp add: tab_ok_def)
    moreover have "portalScriptRun (portal_connectWebSocket B (t\<lparr>loadListener := None\<rparr>))"
      using f(2) by (simp add: portal_connectWebSocket_def new_socket_def clearTimeout_def Let_def split: option.split)
    ultimately show ?thesis using Load Some f tab_ok_portal_connect(1) by (simp add: call_connect_def portal_late_def)
  qed (use Load assms in simp)
next
  case (SocketOpen i)
  then show ?thesis using assms tab_ok_ready [OF ok, of i OPEN]
    by (simp add: socket_is_def portal_late_parts tab_ok_onopen split: script.split)
next
  case (SocketMessage i m)
  then show ?thesis using assms tab_ok_connection [OF connection_message [of B m t]]
    by (simp add: portal_late_parts split: script.split)
next
  case (SocketError i)
  then show ?thesis using assms by (simp add: page_onerror_def portal_late_parts tab_ok_log split: script.split)
next
  case (SocketClose i code)
  show ?thesis
  proof (cases "socket_is i CONNECTING t \<or> socket_is i OPEN t")
    case True
    then have i: "i < length (sockets t)" "so_readyState (sockets t ! i) \<noteq> CLOSED" by (auto simp: socket_is_def)
    show ?thesis
    proof (cases "so_handlers (sockets t ! i)")
      case PageScript
      then show ?thesis using SocketClose True i tab_ok_onclose [OF ok i(1)] ok late by (simp add: live_of_def portal_late_parts)
    next
      case PortalScript
      have "PortalScript \<in> set (map so_handlers (sockets t))" using PortalScript i(1) by (metis length_map nth_map nth_mem)
      then have p: "portalScriptRun t" "fn_connectWebSocket t = PortalScript" using ok late by (auto simp: portal_late_def tab_ok_def)
      have "tab_ok (portal_onclose code (set_ready i CLOSED t))"
        by (rule tab_ok_timeout [OF tab_ok_ready [OF ok i(2), of CLOSED]])
          (use p tab_ok_ready [OF ok i(2), of CLOSED] in
            \<open>auto simp: portal_onclose_def setTimeout_def set_ready_def tab_ok_def\<close>)
      moreover have "portalScriptRun (portal_onclose code (set_ready i CLOSED t))"
        using p by (simp add: portal_onclose_def setTimeout_def set_ready_def)
      ultimately show ?thesis using SocketClose True PortalScript ok late by (simp add: portal_late_def)
    qed
  qed (use SocketClose assms in simp)
next
  case (Timeout n)
  show ?thesis
  proof (cases "map_of (timers t) n")
    case (Some f)
    have le: "page_timers (clearTimeout n t) \<le> page_timers t" by (simp add: clearTimeout_def filter_timers_le)
    then have c: "tab_ok (clearTimeout n t)" using ok by (simp add: tab_ok_def clearTimeout_def)
    show ?thesis
    proof (cases f)
      case PageScript
      then have "page_timers (clearTimeout n t) < page_timers t" using filter_timer_less [of "timers t" n PageScript] Some
        by (simp add: clearTimeout_def)
      moreover have "page_live t + page_timers t \<le> 1" "page_live (clearTimeout n t) = page_live t"
        using ok by (simp_all add: tab_ok_def clearTimeout_def)
      ultimately have "page_live (clearTimeout n t) + page_timers (clearTimeout n t) = 0" by linarith
      then show ?thesis using Timeout Some PageScript tab_ok_page_connect [OF c] late by (simp add: call_connect_def portal_late_parts)
    next
      case PortalScript
      have "PortalScript \<in> set (map snd (timers t))" using Some PortalScript map_of_SomeD by (metis image_eqI set_map snd_conv)
      then have "portalScriptRun t" using late by (simp add: portal_late_def)
      then have "portalScriptRun (portal_connectWebSocket B (clearTimeout n t))"
        by (simp add: portal_connectWebSocket_def new_socket_def clearTimeout_def Let_def split: option.split)
      then show ?thesis using Timeout Some PortalScript tab_ok_portal_connect(1) [OF c] by (simp add: call_connect_def portal_late_def)
    qed
  qed (use Timeout assms in simp)
next
  case Click
  then show ?thesis using assms by (simp add: tab_ok_click portal_late_parts)
qed

lemma tab_run_ok: "tab_ok (tab_run B evs (page_script B)) \<and> portal_late (tab_run B evs (page_script B))"
proof -
  have "tab_ok t \<Longrightarrow> portal_late t \<Longrightarrow> tab_ok (foldl (\<lambda>t ev. tab_step B ev t) t evs) \<and> portal_late (foldl (\<lambda>t ev. tab_step B ev t) t evs)" for t
    by (induction evs arbitrary: t) (simp_all add: tab_step_ok del: tab_step.simps)
  moreover have "portal_late (page_script B)"
    unfolding page_script_def by (intro portal_late_parts) (simp add: portal_late_def blank_tab_def)
  ultimately show ?thesis using tab_ok_start by (simp add: tab_run_def)
qed

text \<open>How many connections can still be tried after the page's own is gone.\<close>

definition attempts :: "tab \<Rightarrow> nat" where
  "attempts t = length (sockets t) + length (timers t) + (if loadListener t = None then 0 else 1) + (3 - wsRetryCount t)"

lemma attempts_bounds: "length (sockets t) \<le> attempts t" "attempts t \<le> length (sockets t) + length (timers t) + 4"
  by (cases "loadListener t"; simp add: attempts_def)+

lemma dead_socket: "tab_dead t \<Longrightarrow> i < length (sockets t) \<Longrightarrow> so_handlers (sockets t ! i) = PageScript \<Longrightarrow> so_readyState (sockets t ! i) = CLOSED"
  using nth_mem [of i "sockets t"] by (auto simp: tab_dead_def live_of_def filter_empty_conv)

lemma dead_click: "tab_dead t \<Longrightarrow> toggleInclusionMode t = t"
proof -
  assume d: "tab_dead t"
  then obtain k where "ws t = Some k" "k < length (sockets t)" "so_handlers (sockets t ! k) = PageScript"
    by (auto simp: tab_dead_def tab_ok_def)
  then show ?thesis using dead_socket [OF d] by (simp add: toggleInclusionMode_def)
qed

lemma portal_connect_attempts:
  "attempts (portal_connectWebSocket B t) \<le> Suc (attempts t)" "portalScriptRun (portal_connectWebSocket B t) = portalScriptRun t"
  by (auto simp: attempts_def portal_connectWebSocket_def new_socket_def clearTimeout_def Let_def
      intro: order.trans [OF length_filter_le] split: option.split)

lemma portal_onclose_attempts: "attempts (portal_onclose code t) = attempts t"
  by (cases "loadListener t") (auto simp: portal_onclose_def setTimeout_def attempts_def)

lemma tab_dead_step:
  assumes d: "tab_dead t" and late: "portal_late t"
  shows "tab_dead (tab_step B ev t) \<and> page.truncate (tab_step B ev t) = page.truncate t \<and> attempts (tab_step B ev t) \<le> attempts t"
proof -
  have ok: "tab_ok t" "page_live t = 0" "page_timers t = 0" "portalScriptRun t" "fn_connectWebSocket t = PortalScript"
    using d unfolding tab_dead_def tab_ok_def by blast+
  have okn: "tab_ok (tab_step B ev t)" using tab_step_ok [OF ok(1) late] by simp
  have ready: "page_live (set_ready i r t) = 0 \<and> attempts (set_ready i r t) = attempts t" if "so_readyState (sockets t ! i) \<noteq> CLOSED" for i r
    using tab_ok_socket(2) [OF ok(1), of "(sockets t ! i)\<lparr>so_readyState := r\<rparr>" i] that ok(2)
    by (simp add: set_ready_def live_of_def attempts_def)
  show ?thesis
  proof (cases ev)
    case Load
    show ?thesis
    proof (cases "loadListener t")
      case (Some f)
      let ?t = "t\<lparr>loadListener := None\<rparr>"
      have t: "tab_ok ?t" "f = PortalScript" "Suc (attempts ?t) = attempts t" "page.truncate ?t = page.truncate t"
        using ok(1) Some by (cases f; simp add: tab_ok_def attempts_def page.truncate_def)+
      have s: "tab_step B ev t = portal_connectWebSocket B ?t" using Load Some t(2) by (simp add: call_connect_def)
      show ?thesis
        using okn ok(2-4) tab_ok_portal_connect(2-4) [OF t(1), of B] portal_connect_attempts [of B ?t] t(3,4) unfolding s tab_dead_def
        by simp
    qed (use Load d in simp)
  next
    case (SocketOpen i)
    then show ?thesis using d dead_socket [OF d, of i] ready [of i OPEN] okn ok
      by (cases "so_handlers (sockets t ! i)") (auto simp: socket_is_def tab_dead_def set_ready_def page.truncate_def)
  next
    case (SocketMessage i m)
    then show ?thesis using d dead_socket [OF d, of i] by (cases "so_handlers (sockets t ! i)") (auto simp: socket_is_def)
  next
    case (SocketError i)
    then show ?thesis using d dead_socket [OF d, of i] by (cases "so_handlers (sockets t ! i)") (auto simp: socket_is_def)
  next
    case (SocketClose i code)
    show ?thesis
    proof (cases "(socket_is i CONNECTING t \<or> socket_is i OPEN t) \<and> so_handlers (sockets t ! i) = PortalScript")
      case True
      let ?t = "set_ready i CLOSED t"
      have r: "page_live ?t = 0" "attempts ?t = attempts t" "page.truncate ?t = page.truncate t" "timers ?t = timers t"
          "portalScriptRun ?t" "fn_connectWebSocket ?t = PortalScript"
        using ready [of i CLOSED] True ok by (auto simp: socket_is_def set_ready_def page.truncate_def)
      have "page_live (portal_onclose code ?t) = page_live ?t" "page_timers (portal_onclose code ?t) = page_timers ?t"
          "portalScriptRun (portal_onclose code ?t)" "page.truncate (portal_onclose code ?t) = page.truncate ?t"
          "attempts (portal_onclose code ?t) = attempts ?t"
        using r(5,6) by (simp_all add: portal_onclose_attempts) (simp_all add: portal_onclose_def setTimeout_def page.truncate_def)
      moreover have "tab_step B ev t = portal_onclose code ?t" using SocketClose True by auto
      ultimately show ?thesis using okn r ok(3) by (simp add: tab_dead_def)
    next
      case False
      have "so_handlers (sockets t ! i) = PageScript \<Longrightarrow> \<not> socket_is i CONNECTING t \<and> \<not> socket_is i OPEN t"
        using dead_socket [OF d, of i] by (auto simp: socket_is_def)
      then have "tab_step B ev t = t" using SocketClose False by (cases "so_handlers (sockets t ! i)") auto
      then show ?thesis using d by simp
    qed
  next
    case (Timeout n)
    show ?thesis
    proof (cases "map_of (timers t) n")
      case (Some f)
      let ?t = "clearTimeout n t"
      have f: "f = PortalScript" using Some ok(3) map_of_SomeD [OF Some] by (cases f) (auto simp: filter_empty_conv)
      have t: "tab_ok ?t" "page_timers ?t = 0" "page_live ?t = 0" "portalScriptRun ?t" "page.truncate ?t = page.truncate t"
        using ok filter_timers_le [of "\<lambda>e. fst e \<noteq> n" "\<lambda>e. snd e = PageScript" "timers t"]
        by (simp_all add: tab_ok_def clearTimeout_def page.truncate_def)
      have "length (filter (\<lambda>e. fst e \<noteq> n) (timers t)) < length (timers t)"
        using map_of_SomeD [OF Some] by (intro length_filter_less [of "(n, f)"]) simp_all
      then have a: "Suc (attempts ?t) \<le> attempts t" by (simp add: attempts_def clearTimeout_def)
      have s: "tab_step B ev t = portal_connectWebSocket B ?t" using Timeout Some f by (simp add: call_connect_def)
      show ?thesis
        using okn t(2-5) tab_ok_portal_connect(2-4) [OF t(1), of B] portal_connect_attempts [of B ?t] a unfolding s tab_dead_def
        by simp
    qed (use Timeout d in simp)
  qed (use d ok dead_click [OF d] in simp_all)
qed

lemma tab_dead_run:
  "tab_dead t \<Longrightarrow> portal_late t \<Longrightarrow> tab_dead (tab_run B evs t) \<and> page.truncate (tab_run B evs t) = page.truncate t \<and>
     attempts (tab_run B evs t) \<le> attempts t"
proof (induction evs arbitrary: t)
  case (Cons ev evs)
  have "tab_run B (ev # evs) t = tab_run B evs (tab_step B ev t)" by (simp add: tab_run_def)
  moreover have "portal_late (tab_step B ev t)" using Cons.prems tab_step_ok by (simp add: tab_dead_def)
  ultimately show ?case using Cons.IH [of "tab_step B ev t"] tab_dead_step [OF Cons.prems, of B ev] by simp
qed (simp add: tab_run_def)

section \<open>The page after its connection is lost\<close>

lemma tab_dead_onclose:
  assumes ok: "tab_ok t" "portalScriptRun t" and i: "ws t = Some i" "so_readyState (sockets t ! i) \<noteq> CLOSED"
  shows "tab_dead (tab_step B (SocketClose i code) t)"
    and "tab_step B (SocketClose i code) t = page_onclose B (set_ready i CLOSED t)"
proof -
  have s: "i < length (sockets t)" "so_handlers (sockets t ! i) = PageScript" "fn_connectWebSocket t = PortalScript"
    using ok i(1) by (auto simp: tab_ok_def)
  then have "socket_is i CONNECTING t \<or> socket_is i OPEN t"
    using i(2) by (cases "so_readyState (sockets t ! i)") (simp_all add: socket_is_def)
  then show eq: "tab_step B (SocketClose i code) t = page_onclose B (set_ready i CLOSED t)" using s(2) by auto
  have "page_live (page_onclose B (set_ready i CLOSED t)) = page_live (set_ready i CLOSED t)"
      "page_timers (page_onclose B (set_ready i CLOSED t)) = page_timers t"
      "portalScriptRun (page_onclose B (set_ready i CLOSED t)) = portalScriptRun t"
    using s(3) by (simp_all add: page_onclose_def setTimeout_def addLogEntry_def updateInclusionStatus_def set_ready_def Let_def)
  then show "tab_dead (tab_step B (SocketClose i code) t)"
    using page_live_closing [OF ok(1) s(1)] tab_ok_onclose [OF ok(1) s(1)] s(2) i(2) ok(2) unfolding eq tab_dead_def
    by (simp add: live_of_def)
qed

text \<open>C21: A page that loses its connection is lost until it is loaded again. Whatever has happened in a
  browser that has run both scripts of a served page: when the connection of the page closes, with any
  code, the page shows the inclusion mode as inactive, and from then on no event of any kind changes
  anything on it again, no state, no table of devices, no entry of the log, and its button does nothing,
  although its script has set a timer to connect again: the timer calls the function of the portal's
  script, which has the same name. That script gives up after a bounded number of further
  connections.\<close>

theorem page_never_recovers:
  assumes run: "tab_run B evs (page_script B) = t" and script: "portalScriptRun t"
    and socket: "ws t = Some i" "so_readyState (sockets t ! i) \<noteq> CLOSED"
  shows "let t1 = tab_step B (SocketClose i code) t in
    inclusionActive t1 = JSBool False \<and> el_statusText t1 = ''Inactive'' \<and> timers t1 = timers t @ [(nextTimer t, PortalScript)] \<and>
    (\<forall>evs'. let t2 = tab_run B evs' t1 in page.truncate t2 = page.truncate t1 \<and> tab_step B Click t2 = t2 \<and>
       length (sockets t2) \<le> length (sockets t1) + length (timers t1) + 4)"
proof -
  let ?t1 = "tab_step B (SocketClose i code) t"
  have t: "tab_ok t" "portal_late t" using tab_run_ok [of B evs] run by simp_all
  note d = tab_dead_onclose [OF t(1) script socket, of B code]
  have l: "portal_late ?t1" by (rule tab_step_ok [OF t, THEN conjunct2])
  have f: "fn_connectWebSocket t = PortalScript" using t(1) script by (simp add: tab_ok_def)
  have v: "inclusionActive ?t1 = JSBool False" "el_statusText ?t1 = ''Inactive''" "timers ?t1 = timers t @ [(nextTimer t, PortalScript)]"
    unfolding d(2) using f
    by (simp_all add: page_onclose_def setTimeout_def addLogEntry_def updateInclusionStatus_def set_ready_def Let_def)
  have "page.truncate (tab_run B evs' ?t1) = page.truncate ?t1 \<and> tab_step B Click (tab_run B evs' ?t1) = tab_run B evs' ?t1 \<and>
      length (sockets (tab_run B evs' ?t1)) \<le> length (sockets ?t1) + length (timers ?t1) + 4" for evs'
  proof -
    note r = tab_dead_run [OF d(1) l, of B evs']
    have "length (sockets (tab_run B evs' ?t1)) \<le> attempts ?t1"
      by (rule order.trans [OF attempts_bounds(1) conjunct2 [OF conjunct2 [OF r]]])
    also note attempts_bounds(2)
    finally show ?thesis using r dead_click unfolding tab_step.simps by blast
  qed
  then show ?thesis unfolding Let_def using v by blast
qed

definition toy_browser :: browser where
  "toy_browser = \<lparr>br_now = JSNum 0, br_toLocaleTimeString = \<lambda>v. js_text v, br_hostname = ''192.168.4.1'', br_port = 80\<rparr>"

lemma toy_page_runs:
  "portalScriptRun (tab_run toy_browser [RunPortalScript, Load, SocketOpen 0] (page_script toy_browser))"
  "ws (tab_run toy_browser [RunPortalScript, Load, SocketOpen 0] (page_script toy_browser)) = Some 0"
  "so_readyState (sockets (tab_run toy_browser [RunPortalScript, Load, SocketOpen 0] (page_script toy_browser)) ! 0) = OPEN"
  by (simp_all add: tab_run_def page_script_def addLogEntry_def page_connectWebSocket_def new_socket_def blank_tab_def portal_script_def
      call_connect_def portal_connectWebSocket_def socket_is_def set_ready_def page_onopen_def so_send_def Let_def)

theorem page_never_recovers_witness:
  "inclusionActive (tab_step toy_browser (SocketClose 0 1006)
      (tab_run toy_browser [RunPortalScript, Load, SocketOpen 0] (page_script toy_browser))) = JSBool False"
  using page_never_recovers [OF refl toy_page_runs(1,2), of 1006] toy_page_runs(3) by (simp add: Let_def)

text \<open>The page's script alone would have connected again.\<close>

lemma page_alone_reconnects:
  "so_handlers (last (sockets (tab_run B [SocketClose 0 1006, Timeout 1] (page_script B)))) = PageScript \<and>
   ws (tab_run B [SocketClose 0 1006, Timeout 1] (page_script B)) = Some 1"
  by (simp add: tab_run_def page_script_def addLogEntry_def page_connectWebSocket_def new_socket_def blank_tab_def
      call_connect_def socket_is_def set_ready_def page_onclose_def setTimeout_def updateInclusionStatus_def clearTimeout_def Let_def)

text \<open>Every page that has finished loading holds two connections, the second of them without use.\<close>

lemma loaded_page_connects_twice:
  "map so_handlers (sockets (tab_run B [RunPortalScript, Load] (page_script B))) = [PageScript, PortalScript]"
  by (simp add: tab_run_def page_script_def addLogEntry_def page_connectWebSocket_def new_socket_def blank_tab_def portal_script_def
      call_connect_def portal_connectWebSocket_def Let_def)

end
