(* ===== verification/RM_AdminPanel.thy ===== *)
theory RM_AdminPanel
  imports RM_Page
begin

text \<open>
  The hub and its admin page together: what the page makes of the messages the hub sends it, and what
  the hub makes of the messages of the page. ArduinoJson's \<open>serializeJson\<close>, which writes the documents
  of the hub, stays a parameter; its documented behaviour is that the text it writes is read back as
  the document. The printer of the page's own language has this property.
\<close>

section \<open>Texts of the hub\<close>

abbreviation json_plain :: "json \<Rightarrow> bool" where
  "json_plain j \<equiv> readable (js_of_json j)"

definition json_writer :: "(json \<Rightarrow> string) \<Rightarrow> bool" where
  "json_writer W \<longleftrightarrow> (\<forall>j. json_plain j \<longrightarrow> JSON_parse (W j) = Some (js_of_json j) \<and> plain_text (W j))"

lemma plain_text_simps [simp]:
  "plain_text []" "plain_text (c # s) \<longleftrightarrow> (c \<ge> CHR 0x20 \<or> c \<in> {CHR 0x0A, CHR 0x0D, CHR 0x09}) \<and> plain_text s"
  "plain_text (s @ t) \<longleftrightarrow> plain_text s \<and> plain_text t"
  by (simp_all add: plain_text_def)

lemma plain_text_subset: "plain_text s \<Longrightarrow> set t \<subseteq> set s \<Longrightarrow> plain_text t"
  by (auto simp: plain_text_def list_all_iff)

lemma plain_text_no_null: "plain_text s \<Longrightarrow> CHR 0x00 \<notin> set s"
  by (auto simp: plain_text_def list_all_iff less_eq_char_def)

lemma plain_escape: "plain_text s \<Longrightarrow> plain_text (escapeJsonString s)"
proof -
  have "plain_text [c] \<Longrightarrow> plain_text (escape_char c)" for c by (auto simp: escape_char_def less_eq_char_def)
  then show "plain_text s \<Longrightarrow> ?thesis" unfolding escapeJsonString_concat by (induction s) auto
qed

lemma plain_int_text [simp]: "plain_text (int_text n)"
proof -
  have "plain_text (dec_string m)" for m
    using dec_string_js_digits [of m] by (auto simp: plain_text_def list_all_iff js_digit_def less_eq_char_def)
  then show ?thesis by (simp add: int_text_def less_eq_char_def)
qed

lemma plain_joined: "list_all plain_text ss \<Longrightarrow> plain_text (joined ss)"
  by (induction ss rule: joined.induct) (simp_all add: less_eq_char_def)

lemma plain_quote: "plain_text s \<Longrightarrow> plain_text (json_quote s)"
  by (simp add: json_quote_def plain_escape less_eq_char_def)

lemma plain_stringify: "readable v \<Longrightarrow> plain_text (JSON_stringify v)"
proof (induction v)
  case (JSArr vs)
  then show ?case by (simp add: less_eq_char_def plain_joined list_all_iff)
next
  case (JSObj ms)
  have "q \<in> set ms \<Longrightarrow> snd q \<in> Basic_BNFs.snds q \<and> readable (snd q) \<and> plain_text (fst q)" for q
    using JSObj.prems by (auto simp: list_all_iff snds.simps)
  then have "list_all plain_text (map (\<lambda>p. pair_text p) (map (map_prod id JSON_stringify) ms))"
    using JSObj.IH by (auto simp: list_all_iff pair_text_def plain_quote less_eq_char_def)
  then show ?case by (simp add: less_eq_char_def plain_joined comp_def)
qed (auto simp: less_eq_char_def plain_quote)

lemma stringify_writes: "json_writer (\<lambda>j. JSON_stringify (js_of_json j))"
  by (simp add: json_writer_def JSON_parse_stringify plain_stringify)

lemma plain_hex_id [simp]: "plain_text (hex_id i)"
proof -
  have "plain_text hex_digits" by (simp add: hex_digits_def less_eq_char_def)
  moreover have "set (hex2 b) \<subseteq> set hex_digits" for b
  proof -
    have "length hex_digits = 16" by (simp add: hex_digits_def)
    then show ?thesis using nibble_less [of b] nibble_less [of "drop_bit 4 b"] by (simp add: hex2_def del: nth_mem) (metis nth_mem)
  qed
  ultimately have "plain_text (hex2 b)" for b by (rule plain_text_subset)
  then show ?thesis by (cases i) (simp add: hex_id_def)
qed

text \<open>A message of the portal is a text of the page's language.\<close>

lemma portal_text_stringify:
  "escapeJsonString ty = ty \<Longrightarrow> portal_text \<lparr>getType = ty, serialize = escapeJsonString d\<rparr>
     = JSON_stringify (JSObj [(''type'', JSStr ty), (''data'', JSStr d)])"
  by (simp add: portal_text_def pair_text_def json_quote_def) (simp add: escapeJsonString_def escape_char_def)

lemma portal_text_read:
  assumes "escapeJsonString ty = ty" "plain_text ty" "plain_text d"
  shows "JSON_parse (c_str (portal_text \<lparr>getType = ty, serialize = escapeJsonString d\<rparr>))
    = Some (JSObj [(''type'', JSStr ty), (''data'', JSStr d)])"
proof -
  have r: "readable (JSObj [(''type'', JSStr ty), (''data'', JSStr d)])" using assms by (simp add: less_eq_char_def)
  show ?thesis
    using JSON_parse_stringify [OF r] c_str_plain [OF plain_text_no_null [OF plain_stringify [OF r]]]
    by (simp only: portal_text_stringify [OF assms(1)])
qed

lemma message_types:
  "escapeJsonString ''status_update'' = ''status_update''" "plain_text ''status_update''"
  "escapeJsonString ''device_list'' = ''device_list''" "plain_text ''device_list''"
  "escapeJsonString ''inclusion_event'' = ''inclusion_event''" "plain_text ''inclusion_event''"
  by (simp_all add: escapeJsonString_def escape_char_def less_eq_char_def)

lemma page_reads:
  assumes "plain_text d"
  shows "page_onmessage B (c_str (portal_text (StatusMessage d))) t = (case JSON_parse d of None \<Rightarrow> t | Some v \<Rightarrow> on_status_update v t)"
    and "page_onmessage B (c_str (portal_text (DeviceListMessage d))) t = (case JSON_parse d of None \<Rightarrow> t | Some v \<Rightarrow> on_device_list B v t)"
    and "page_onmessage B (c_str (portal_text (InclusionEventMessage d))) t = (case JSON_parse d of None \<Rightarrow> t | Some v \<Rightarrow> on_inclusion_event B v t)"
  using portal_text_read [OF message_types(1,2) assms] portal_text_read [OF message_types(3,4) assms]
    portal_text_read [OF message_types(5,6) assms]
  by (cases "JSON_parse d"; simp add: StatusMessage_def DeviceListMessage_def InclusionEventMessage_def page_onmessage_def Let_def)+

section \<open>Texts of the page\<close>

lemma toggle_text_portal:
  "toggle_text active = portal_text \<lparr>getType = ''set_inclusion_mode'', serialize = if js_truthy active then ''disable'' else ''enable''\<rparr>"
  by (simp add: toggle_text_def portal_text_def pair_text_def json_quote_def escapeJsonString_def escape_char_def)

lemma get_devices_text_portal: "get_devices_text = portal_text \<lparr>getType = ''get_devices'', serialize = ''request''\<rparr>"
  by (simp add: get_devices_text_def portal_text_def pair_text_def json_quote_def escapeJsonString_def escape_char_def)

lemma get_status_text_chars: \<open>get_status_text = ''{"type":"get_status","data":{}}''\<close>
  by (simp add: get_status_text_def pair_text_def json_quote_def escapeJsonString_def escape_char_def)

lemma get_status_unreadable: "parse_message get_status_text = None"
  unfolding get_status_text_chars by code_simp

text \<open>A text of the page that a client sends, at the portal of the hub.\<close>

lemma portal_hears:
  assumes "web_canSend L cl w" "m \<noteq> []"
  shows "handleWebSocketEvent L now WS_EVT_DATA (Some cl) (Some (map byte_of_char m)) pt w =
    (pt, case parse_message m of None \<Rightarrow> w
       | Some (ty, d) \<Rightarrow> dispatch (pp_eventHandlers (portalParams pt)) ty cl (map byte_of_char d) w)"
proof -
  have "map char_of_byte (map byte_of_char s) = s" for s by (simp add: comp_def)
  then show ?thesis using assms by (simp add: handleWebSocketEvent_def handleClientMessage_def)
qed

lemma hub_hears_toggle:
  assumes "web_canSend L cl (Some a)" "pp_eventHandlers (portalParams pt) = hub_handlers H" "ha_device a \<noteq> None"
  shows "handleWebSocketEvent L now WS_EVT_DATA (Some cl) (Some (map byte_of_char (toggle_text active))) pt (Some a) =
    (pt, Option.bind (if js_truthy active then stopInclusionMode H a else startInclusionMode H a) (handleGetStatus H))"
proof -
  let ?d = "if js_truthy active then ''disable'' else ''enable''"
  have p: "parse_message (toggle_text active) = Some (''set_inclusion_mode'', ?d)"
    unfolding toggle_text_portal by (simp add: parse_portal_text)
  have n: "toggle_text active \<noteq> []" by (simp add: toggle_text_def)
  have "handleSetInclusionMode H (map byte_of_char ?d) a =
      Option.bind (if js_truthy active then stopInclusionMode H a else startInclusionMode H a) (handleGetStatus H)"
    using assms(3) by (auto simp: handleSetInclusionMode_def comp_def)
  then show ?thesis using assms(1,2) n by (simp add: portal_hears p hub_handlers_def)
qed

section \<open>The page and the hub\<close>

lemma portal_send_running:
  "ha_portal a \<Longrightarrow> ha_portalRunning a \<Longrightarrow>
   portal_send H m a = Some (a\<lparr>ha_web := web_textAll (he_web H) (c_str (portal_text m)) (ha_web a)\<rparr>)"
  by (simp add: portal_send_def)

lemma status_json_js:
  "js_of_json (status_json did mode n) = JSObj ([(''hubId'', JSStr (hex_id did)), (''inclusionMode'', JSBool mode), (''deviceCount'', JSNum (int n))]
     @ (if mode then [(''inclusionTimeRemaining'', JSNum 0)] else []))"
  by (simp add: status_json_def)

lemma status_json_plain: "json_plain (status_json did mode n)"
  by (simp add: status_json_js less_eq_char_def)

lemma hex_id_nonempty: "hex_id i \<noteq> []"
  by (cases i) (simp add: hex_id_def hex2_def)

text \<open>The page after a status of the hub.\<close>

definition status_shown :: "bool \<Rightarrow> string \<Rightarrow> tab \<Rightarrow> tab" where
  "status_shown mode text t = (updateInclusionStatus (JSBool mode) t)\<lparr>el_hubId := text\<rparr>"

lemma page_shows_status:
  assumes "json_writer (he_json H)" "ha_device a = Some d" "isInclusionModeEnabled d = Some mode" "ha_portal a" "ha_portalRunning a"
  obtains m where "handleGetStatus H a = Some (a\<lparr>ha_web := web_textAll (he_web H) m (ha_web a)\<rparr>)"
    and "\<And>B t. page_onmessage B m t = status_shown mode (hex_id (getDeviceId d)) t"
proof -
  let ?j = "status_json (getDeviceId d) mode (length (connectedDevicesMap a))"
  have j: "JSON_parse (he_json H ?j) = Some (js_of_json ?j)" "plain_text (he_json H ?j)"
    using assms(1) status_json_plain by (auto simp: json_writer_def)
  show ?thesis
  proof (rule that)
    show "handleGetStatus H a = Some (a\<lparr>ha_web := web_textAll (he_web H) (c_str (portal_text (StatusMessage (he_json H ?j)))) (ha_web a)\<rparr>)"
      using assms by (simp add: handleGetStatus_def portal_send_running)
    show "page_onmessage B (c_str (portal_text (StatusMessage (he_json H ?j)))) t = status_shown mode (hex_id (getDeviceId d)) t" for B t
      using j hex_id_nonempty by (simp add: page_reads status_json_js on_status_update_def js_or_def status_shown_def)
  qed
qed

text \<open>What the two operations of the button come to. Opening sends the invitation: if that fails the mode
  is off again and the application is in its error state. The application does not open unless it is
  ready, and does not close unless it is open.\<close>

lemma start_result:
  assumes a: "appState a = READY" "ha_device a = Some d" "d_type d = HUB" "d_ctl d = Some c"
    and o: "sendInclusionOpen (he_env H) (d\<lparr>d_ctl := Some (c\<lparr>inclusionModeEnabled := True\<rparr>)\<rparr>) = Some (rc, sent)"
  shows "\<exists>a' d'. startInclusionMode H a = Some a' \<and> ha_device a' = Some d' \<and> ha_portal a' = ha_portal a \<and>
    ha_portalRunning a' = ha_portalRunning a \<and>
    (if rc = RM_E_NONE then d' = sent \<and> isInclusionModeEnabled d' = Some True \<and> appState a' = INCLUSION_MODE_ACTIVE
     else isInclusionModeEnabled d' = Some False \<and> appState a' = APP_ERROR)"
proof -
  let ?d = "d\<lparr>d_ctl := Some (c\<lparr>inclusionModeEnabled := True\<rparr>)\<rparr>"
  have en: "enableInclusionMode (he_env H) True d = Some (RM_E_NONE, ?d)"
    using a by (simp add: enableInclusionMode_def enterInclusionMode_def)
  obtain c1 where c1: "d_ctl sent = Some c1" "inclusionModeEnabled c1" "d_type sent = HUB"
    using sendOpen_result [OF o [unfolded sendInclusionOpen_def]] a by auto
  show ?thesis
  proof (cases "rc = RM_E_NONE")
    case True
    let ?a = "a\<lparr>ha_device := Some sent, inclusionModeActive := True, appState := INCLUSION_MODE_ACTIVE,
      totalInclusionRequests := 0, successfulInclusions := 0\<rparr>"
    obtain a' where a': "push_status H ?a = Some a'" using status_total(2) [of ?a sent H] c1 by auto
    then show ?thesis
      using a en o True web_onlyD [OF push_status_web [OF a']] c1
      by (auto simp: startInclusionMode_def isInclusionModeEnabled_def ic_isInclusionModeEnabled_def)
  next
    case False
    obtain d3 where "enableInclusionMode (he_env H) False sent = Some (RM_E_NONE, d3)" "isInclusionModeEnabled d3 = Some False"
      using exitInclusionMode_off [OF c1(3,1), of "he_env H"] by (auto simp: enableInclusionMode_def)
    then show ?thesis using a en o False by (simp add: startInclusionMode_def)
  qed
qed

text \<open>What a click on the button does: \<open>pressed\<close> relates the application before and after it, given
  the mode the page shows and what sending the invitation comes to.\<close>

definition pressed :: "bool \<Rightarrow> rc \<times> 's device \<Rightarrow> ('s, 'w) hub_app \<Rightarrow> ('s, 'w) hub_app \<Rightarrow> bool" where
  "pressed mode invite a a' \<longleftrightarrow>
     (if mode \<and> appState a = INCLUSION_MODE_ACTIVE then
        Option.bind (ha_device a') isInclusionModeEnabled = Some False \<and> appState a' = READY
      else if \<not> mode \<and> appState a = READY then
        (if fst invite = RM_E_NONE
         then ha_device a' = Some (snd invite) \<and> isInclusionModeEnabled (snd invite) = Some True \<and> appState a' = INCLUSION_MODE_ACTIVE
         else Option.bind (ha_device a') isInclusionModeEnabled = Some False \<and> appState a' = APP_ERROR)
      else web_only a a')"

lemma button_result:
  assumes a: "app_ok a" "ha_device a = Some d" "d_type d = HUB" "d_ctl d = Some c" "inclusionModeEnabled c = mode"
    and o: "\<not> mode \<Longrightarrow> appState a = READY \<Longrightarrow>
      sendInclusionOpen (he_env H) (d\<lparr>d_ctl := Some (c\<lparr>inclusionModeEnabled := True\<rparr>)\<rparr>) = Some invite"
  obtains a' d' mode' where "(if mode then stopInclusionMode H a else startInclusionMode H a) = Some a'" "ha_device a' = Some d'"
    "isInclusionModeEnabled d' = Some mode'" "ha_portal a' = ha_portal a" "ha_portalRunning a' = ha_portalRunning a" "pressed mode invite a a'"
proof -
  have m: "isInclusionModeEnabled d = Some mode"
    using a(4,5) by (simp add: isInclusionModeEnabled_def ic_isInclusionModeEnabled_def)
  consider (stop) "mode" "appState a = INCLUSION_MODE_ACTIVE" | (start) "\<not> mode" "appState a = READY"
    | (nothing) "(if mode then stopInclusionMode H a else startInclusionMode H a) = Some a" "pressed mode invite a a"
    using a(1) by (cases mode; cases "appState a") (auto simp: stopInclusionMode_def startInclusionMode_def app_ok_def pressed_def)
  then show thesis
  proof cases
    case stop
    then have "inclusionModeActive a" using a(1) by (simp add: app_ok_def)
    from stop_total [OF a(2,3) _ this, of H] a(4) obtain a' d1 where s: "stopInclusionMode H a = Some a'" "ha_device a' = Some d1"
        "isInclusionModeEnabled d1 = Some False" "appState a' = READY"
      by auto
    moreover have "ha_portal a' = ha_portal a \<and> ha_portalRunning a' = ha_portalRunning a"
      using s(1) by (auto simp: stopInclusionMode_def bind_eq_Some_conv split: if_splits dest!: push_status_web web_onlyD)
    ultimately show thesis using that [of a' d1 False] stop by (simp add: pressed_def)
  next
    case start
    obtain rc sent where op: "invite = (rc, sent)" by fastforce
    from start_result [OF start(2) a(2-4) o [OF start, unfolded op]] obtain a' d' where s: "startInclusionMode H a = Some a'"
        "ha_device a' = Some d'" "ha_portal a' = ha_portal a" "ha_portalRunning a' = ha_portalRunning a"
        "if rc = RM_E_NONE then d' = sent \<and> isInclusionModeEnabled d' = Some True \<and> appState a' = INCLUSION_MODE_ACTIVE
         else isInclusionModeEnabled d' = Some False \<and> appState a' = APP_ERROR"
      by blast
    then have "pressed mode invite a a'" using start op by (auto simp: pressed_def)
    then show thesis using that [of a' d' "rc = RM_E_NONE"] s start(1) by (auto split: if_splits)
  next
    case nothing
    then show thesis using that a(2) m by blast
  qed
qed

text \<open>C22: The page shows the mode of the hub and its button reverses that mode. Let the hub send its status, as
  it does every two seconds and after every change, and let the page receive it: the page then shows
  the mode the device is in and the identifier of the hub. A click on the button sends one text. Let
  the hub hear it, at once or at any later moment at which its device is still in the mode shown. If the
  page showed the mode as active and the application knows it is, the hub leaves it and is ready; if the
  page showed it as inactive and the application is ready, the hub sends its invitation and, if
  that goes out, is in inclusion mode (if it does not, the mode is off and the application is in its
  error state). Otherwise, that is in the error state, and between a time-out of the device and the
  next loop of the application, the button does nothing. In each case the hub ends by sending its
  status, and the page that receives it shows the mode the hub is in now. That holds for every JSON
  writer with the documented behaviour.\<close>

theorem page_controls_hub:
  assumes writer: "json_writer (he_json H)" "json_writer (he_json H')"
    and hub: "ha_device a = Some d" "isInclusionModeEnabled d = Some mode" "ha_portal a" "ha_portalRunning a"
    and socket: "socket_is i OPEN t" "so_handlers (sockets t ! i) = PageScript" "ws t = Some i"
    and same_hub: "ha_device a1 = Some d1" "getDeviceId d1 = getDeviceId d" "d_type d1 = HUB" "d_ctl d1 = Some c1"
      "inclusionModeEnabled c1 = mode" "app_ok a1" "ha_portal a1" "ha_portalRunning a1"
    and invite: "\<not> mode \<Longrightarrow> appState a1 = READY \<Longrightarrow>
      sendInclusionOpen (he_env H') (d1\<lparr>d_ctl := Some (c1\<lparr>inclusionModeEnabled := True\<rparr>)\<rparr>) = Some invite"
    and portal: "pp_eventHandlers (portalParams pt) = hub_handlers H'" "web_canSend L cl (Some a1)"
  shows "\<exists>m c. handleGetStatus H a = Some (a\<lparr>ha_web := web_textAll (he_web H) m (ha_web a)\<rparr>) \<and>
    (let t1 = tab_step B (SocketMessage i m) t; t2 = tab_step B Click t1
     in inclusionActive t1 = JSBool mode \<and> el_statusText t1 = (if mode then ''Active'' else ''Inactive'') \<and>
        el_hubId t1 = hex_id (getDeviceId d) \<and> sockets t2 = (sockets t)[i := (sockets t ! i)\<lparr>so_sent := so_sent (sockets t ! i) @ [c]\<rparr>] \<and>
        (\<exists>a2 mode' m' w. handleWebSocketEvent L now WS_EVT_DATA (Some cl) (Some (map byte_of_char c)) pt (Some a1) = (pt, Some a2) \<and>
           pressed mode invite a1 a2 \<and> Option.bind (ha_device a2) isInclusionModeEnabled = Some mode' \<and>
           ha_web a2 = web_textAll (he_web H') m' w \<and>
           (let t3 = tab_step B (SocketMessage i m') t2
            in inclusionActive t3 = JSBool mode' \<and> el_statusText t3 = (if mode' then ''Active'' else ''Inactive''))))"
proof -
  obtain m where m: "handleGetStatus H a = Some (a\<lparr>ha_web := web_textAll (he_web H) m (ha_web a)\<rparr>)"
      "\<And>B t. page_onmessage B m t = status_shown mode (hex_id (getDeviceId d)) t"
    using page_shows_status [OF writer(1) hub] by blast
  let ?t1 = "status_shown mode (hex_id (getDeviceId d)) t" and ?c = "toggle_text (JSBool mode)"
  have t1: "tab_step B (SocketMessage i m) t = ?t1" using socket(1,2) m(2) by simp
  have v: "inclusionActive ?t1 = JSBool mode" "el_statusText ?t1 = (if mode then ''Active'' else ''Inactive'')"
      "el_hubId ?t1 = hex_id (getDeviceId d)" "sockets ?t1 = sockets t" "ws ?t1 = Some i"
    using socket(3) by (simp_all add: status_shown_def updateInclusionStatus_def)
  have t2: "sockets (tab_step B Click ?t1) = (sockets t)[i := (sockets t ! i)\<lparr>so_sent := so_sent (sockets t ! i) @ [?c]\<rparr>]"
    using socket(1) v by (simp add: toggleInclusionMode_def so_send_def socket_is_def)
  then have open2: "socket_is i OPEN (tab_step B Click ?t1)" "so_handlers (sockets (tab_step B Click ?t1) ! i) = PageScript"
    using socket(1,2) by (simp_all add: socket_is_def del: tab_step.simps)
  obtain a2 d2 mode' where a2: "(if mode then stopInclusionMode H' a1 else startInclusionMode H' a1) = Some a2" "ha_device a2 = Some d2"
      "isInclusionModeEnabled d2 = Some mode'" "ha_portal a2" "ha_portalRunning a2" "pressed mode invite a1 a2"
    using button_result [OF same_hub(6,1,3-5) invite] same_hub(7,8) by metis
  obtain m' where m': "handleGetStatus H' a2 = Some (a2\<lparr>ha_web := web_textAll (he_web H') m' (ha_web a2)\<rparr>)"
      "\<And>B t. page_onmessage B m' t = status_shown mode' (hex_id (getDeviceId d2)) t"
    using page_shows_status [OF writer(2) a2(2-5)] by blast
  let ?a3 = "a2\<lparr>ha_web := web_textAll (he_web H') m' (ha_web a2)\<rparr>"
  have heard: "handleWebSocketEvent L now WS_EVT_DATA (Some cl) (Some (map byte_of_char ?c)) pt (Some a1) = (pt, Some ?a3)"
    using hub_hears_toggle [OF portal(2,1), of now "JSBool mode"] same_hub(1) a2(1) m'(1) by simp
  have "web_only a1 a2 \<Longrightarrow> web_only a1 ?a3" by (auto simp: web_only_def)
  then have "pressed mode invite a1 ?a3" using a2(6) by (auto simp: pressed_def)
  moreover have "tab_step B (SocketMessage i m') (tab_step B Click ?t1) = status_shown mode' (hex_id (getDeviceId d2)) (tab_step B Click ?t1)"
    using open2 m'(2) by simp
  then have "inclusionActive (tab_step B (SocketMessage i m') (tab_step B Click ?t1)) = JSBool mode'"
      "el_statusText (tab_step B (SocketMessage i m') (tab_step B Click ?t1)) = (if mode' then ''Active'' else ''Inactive'')"
    by (simp_all add: status_shown_def updateInclusionStatus_def del: tab_step.simps)
  ultimately have after: "\<exists>a2 mode' m' w. handleWebSocketEvent L now WS_EVT_DATA (Some cl) (Some (map byte_of_char ?c)) pt (Some a1) = (pt, Some a2) \<and>
      pressed mode invite a1 a2 \<and> Option.bind (ha_device a2) isInclusionModeEnabled = Some mode' \<and>
      ha_web a2 = web_textAll (he_web H') m' w \<and>
      inclusionActive (tab_step B (SocketMessage i m') (tab_step B Click ?t1)) = JSBool mode' \<and>
      el_statusText (tab_step B (SocketMessage i m') (tab_step B Click ?t1)) = (if mode' then ''Active'' else ''Inactive'')"
    using heard a2(2,3) by (intro exI [of _ ?a3] exI [of _ mode'] exI [of _ m'] exI [of _ "ha_web a2"]) (simp del: tab_step.simps)
  show ?thesis
    using m(1) v(1-3) t2 after unfolding Let_def by (intro exI [of _ m] exI [of _ ?c]) (simp only: t1 simp_thms)
qed

text \<open>C24: The first thing the page asks is never answered. When its connection opens, the page sends two
  requests, the status and the list of devices, and nothing else. A portal with the handlers of the hub
  drops the first without calling any handler, since its data is an object and not a text; it hands
  the second to the handler for the list. So the page learns the mode of the hub only from the next
  message that the hub sends by itself.\<close>

theorem status_request_is_dropped:
  assumes socket: "socket_is i CONNECTING t" "so_handlers (sockets t ! i) = PageScript" "ws t = Some i"
    and portal: "pp_eventHandlers (portalParams pt) = hub_handlers H" "web_canSend L cl (Some a)"
  shows "\<exists>c1 c2. so_sent (sockets (tab_step B (SocketOpen i) t) ! i) = so_sent (sockets t ! i) @ [c1, c2] \<and>
      inclusionActive (tab_step B (SocketOpen i) t) = inclusionActive t \<and>
      handleWebSocketEvent L now WS_EVT_DATA (Some cl) (Some (map byte_of_char c1)) pt (Some a) = (pt, Some a) \<and>
      handleWebSocketEvent L now WS_EVT_DATA (Some cl) (Some (map byte_of_char c2)) pt (Some a) = (pt, handleGetDevices H a)"
proof (intro exI conjI)
  have i: "i < length (sockets t)" using socket(1) by (simp add: socket_is_def)
  show "so_sent (sockets (tab_step B (SocketOpen i) t) ! i) = so_sent (sockets t ! i) @ [get_status_text, get_devices_text]"
      "inclusionActive (tab_step B (SocketOpen i) t) = inclusionActive t"
    using socket i by (simp_all add: page_onopen_def addLogEntry_def set_ready_def so_send_def Let_def)
  show "handleWebSocketEvent L now WS_EVT_DATA (Some cl) (Some (map byte_of_char get_status_text)) pt (Some a) = (pt, Some a)"
    using portal_hears [OF portal(2), of get_status_text] by (simp add: get_status_unreadable) (simp add: get_status_text_chars)
  have "parse_message get_devices_text = Some (''get_devices'', ''request'')"
    unfolding get_devices_text_portal by (simp add: parse_portal_text)
  moreover have "get_devices_text \<noteq> []" by (simp add: get_devices_text_def)
  ultimately show "handleWebSocketEvent L now WS_EVT_DATA (Some cl) (Some (map byte_of_char get_devices_text)) pt (Some a) = (pt, handleGetDevices H a)"
    using portal by (simp add: portal_hears hub_handlers_def)
qed

section \<open>The table of devices\<close>

text \<open>The table of the application: ordered by its keys, which are identifiers; every entry has the key as its
  identifier and the name made from it.\<close>

definition listed :: "(string \<times> device_info) list \<Rightarrow> bool" where
  "listed m \<longleftrightarrow> sorted_wrt (<) (map fst m) \<and>
     (\<forall>p \<in> set m. (\<exists>did. fst p = hex_id did) \<and> di_id (snd p) = fst p \<and> di_name (snd p) = ''Device_'' @ substr (fst p) 4 4)"

lemma map_put_set: "set (map_put k v m) \<subseteq> insert (k, v) (set m)"
  by (induction k v m rule: map_put.induct) auto

lemma map_put_keys: "sorted_wrt (<) (map fst m) \<Longrightarrow> sorted_wrt (<) (map fst (map_put k v m))"
proof (induction k v m rule: map_put.induct)
  case (2 k v k' v' m)
  have "k' < fst p" if "p \<in> set (map_put k v m)" "k \<noteq> k'" "\<not> k < k'" for p
  proof (cases "p = (k, v)")
    case True
    then show ?thesis using that(2,3) by (simp add: not_less order.not_eq_order_implies_strict)
  next
    case False
    then have "p \<in> set m" using map_put_set [of k v m] that(1) by blast
    then show ?thesis using 2(2) by simp
  qed
  then show ?case using 2 by (cases "k = k'"; cases "k < k'") (auto intro: order.strict_trans)
qed simp

lemma listed_put:
  assumes "listed m" "k = hex_id did" "di_id i = k" "di_name i = ''Device_'' @ substr k 4 4"
  shows "listed (map_put k i m)"
  using assms map_put_keys [of m k i] map_put_set [of k i m] by (fastforce simp: listed_def)

definition list_moves :: "('s, 'w) hub_app \<Rightarrow> ('s, 'w) hub_app \<Rightarrow> bool" where
  "list_moves a a' \<longleftrightarrow> (listed (connectedDevicesMap a) \<longrightarrow> listed (connectedDevicesMap a'))"

lemma list_moves_same: "connectedDevicesMap a' = connectedDevicesMap a \<Longrightarrow> list_moves a a'"
  by (simp add: list_moves_def)

lemma list_moves_trans: "list_moves a b \<Longrightarrow> list_moves b c \<Longrightarrow> list_moves a c"
  by (simp add: list_moves_def)

lemma list_moves_track:
  "list_moves a (track_device (hex_id did) n r a)" "list_moves a (refresh_device (hex_id did) n r a)"
proof -
  show "list_moves a (track_device (hex_id did) n r a)" by (simp add: list_moves_def track_device_def listed_put)
  show "list_moves a (refresh_device (hex_id did) n r a)"
  proof (cases "map_of (connectedDevicesMap a) (hex_id did)")
    case (Some i)
    have "listed (connectedDevicesMap a) \<Longrightarrow> di_id i = hex_id did \<and> di_name i = ''Device_'' @ substr (hex_id did) 4 4"
      using map_of_SomeD [OF Some] by (fastforce simp: listed_def)
    then show ?thesis using Some by (simp add: list_moves_def refresh_device_def listed_put)
  qed (simp add: list_moves_def refresh_device_def)
qed

lemma same_list:
  "web_only a a' \<Longrightarrow> connectedDevicesMap a' = connectedDevicesMap a"
  "startInclusionMode H a = Some a' \<Longrightarrow> connectedDevicesMap a' = connectedDevicesMap a"
  "stopInclusionMode H a = Some a' \<Longrightarrow> connectedDevicesMap a' = connectedDevicesMap a"
  "hub_rssi H a = Some (r, a') \<Longrightarrow> connectedDevicesMap a' = connectedDevicesMap a"
  "sync_mode a = Some a' \<Longrightarrow> connectedDevicesMap a' = connectedDevicesMap a"
proof -
  show "web_only a a' \<Longrightarrow> connectedDevicesMap a' = connectedDevicesMap a" by (simp add: web_onlyD)
  show "startInclusionMode H a = Some a' \<Longrightarrow> connectedDevicesMap a' = connectedDevicesMap a"
    by (auto simp: startInclusionMode_def bind_eq_Some_conv split: if_splits prod.splits dest!: push_status_web web_onlyD)
  show "stopInclusionMode H a = Some a' \<Longrightarrow> connectedDevicesMap a' = connectedDevicesMap a"
    by (auto simp: stopInclusionMode_def bind_eq_Some_conv split: if_splits prod.splits dest!: push_status_web web_onlyD)
  show "hub_rssi H a = Some (r, a') \<Longrightarrow> connectedDevicesMap a' = connectedDevicesMap a"
    by (auto simp: hub_rssi_def bind_eq_Some_conv split: if_splits prod.splits)
  show "sync_mode a = Some a' \<Longrightarrow> connectedDevicesMap a' = connectedDevicesMap a"
    by (auto simp: sync_mode_def bind_eq_Some_conv split: if_splits)
qed

lemma confirm_lists:
  assumes "hub_rssi H (a\<lparr>successfulInclusions := x\<rparr>) = Some (rssi, a1)"
    "sendInclusionEvent H e i (track_device (hex_id did) n rssi a1) = Some a2" "handleGetDevices H a2 = Some a3"
    "stopInclusionMode H a3 = Some a'"
  shows "list_moves a a'"
proof -
  have "list_moves a a1" using same_list(4) [OF assms(1)] by (simp add: list_moves_def)
  moreover have "list_moves a1 a2"
    using list_moves_trans [OF list_moves_track(1) list_moves_same [OF same_list(1) [OF web_ops(3) [OF assms(2)]]]] .
  moreover have "list_moves a2 a'"
    using same_list(1) [OF web_ops(2) [OF assms(3)]] same_list(3) [OF assms(4)] by (simp add: list_moves_def)
  ultimately show ?thesis using list_moves_trans by blast
qed

lemma callback_lists: "hub_onPacketReceived H c a = Some a' \<Longrightarrow> list_moves a a'"
proof (cases c)
  case (Pair q err)
  assume r: "hub_onPacketReceived H c a = Some a'"
  show ?thesis
  proof (cases "q = None \<or> err \<noteq> RM_E_NONE")
    case False
    then obtain p where p: "q = Some p" "err = RM_E_NONE" by auto
    consider (request) "p_topic p = T_INCLUDE_REQUEST" | (confirm) "p_topic p \<noteq> T_INCLUDE_REQUEST" "p_topic p = T_INCLUDE_CONFIRM"
      | (other) "p_topic p \<noteq> T_INCLUDE_REQUEST" "p_topic p \<noteq> T_INCLUDE_CONFIRM" by blast
    then show ?thesis
    proof cases
      case request
      then show ?thesis using r Pair p by (auto simp: hub_onPacketReceived_def Let_def list_moves_def dest!: web_ops(3) web_onlyD)
    next
      case confirm
      then show ?thesis using r Pair p by (auto simp: hub_onPacketReceived_def Let_def bind_eq_Some_conv intro: confirm_lists)
    next
      case other
      then show ?thesis using r Pair p
        by (auto simp: hub_onPacketReceived_def Let_def bind_eq_Some_conv split: if_splits
            intro: list_moves_same list_moves_trans [OF list_moves_same [OF same_list(4)] list_moves_track(2)])
    qed
  qed (use r Pair in \<open>auto simp: hub_onPacketReceived_def list_moves_def split: option.splits\<close>)
qed

lemma callbacks_list: "run_callbacks H cs a = Some a' \<Longrightarrow> list_moves a a'"
proof (induction cs arbitrary: a)
  case (Cons c cs)
  then obtain a1 where "hub_onPacketReceived H c a = Some a1" "run_callbacks H cs a1 = Some a'"
    by (auto simp: bind_eq_Some_conv)
  then show ?case using callback_lists Cons.IH list_moves_trans by blast
qed (simp add: list_moves_def)

lemma run_lists: "hub_run H a = Some (rc, a') \<Longrightarrow> list_moves a a'"
proof -
  have "run_callbacks H cs (a\<lparr>ha_device := Some d\<rparr>) = Some a1 \<Longrightarrow> list_moves a a1" for cs d a1
    using callbacks_list [of H cs "a\<lparr>ha_device := Some d\<rparr>" a1] by (simp add: list_moves_def)
  then have "run_callbacks H cs (a\<lparr>ha_device := Some d\<rparr>) = Some a1 \<Longrightarrow> list_moves a a1 \<and> list_moves a (a1\<lparr>ha_device := Some d'\<rparr>)" for cs d a1 d'
    by (simp add: list_moves_def)
  then show "hub_run H a = Some (rc, a') \<Longrightarrow> ?thesis"
    by (auto simp: hub_run_def bind_eq_Some_conv split: if_splits)
qed

lemma loop_lists:
  assumes "hub_loop H a = Some a'"
  shows "list_moves a a'"
proof (cases "ha_device a = None")
  case False
  then obtain rc a1 a2 where r: "hub_run H a = Some (rc, a1)" "sync_mode a1 = Some a2"
      "a' = a2 \<or> (\<exists>a3. push_status H a2 = Some a3 \<and> a' = a3\<lparr>lastStatusUpdate := he_now H\<rparr>)"
    using assms by (auto simp: hub_loop_def bind_eq_Some_conv split: if_splits prod.splits)
  have "connectedDevicesMap a' = connectedDevicesMap a2" using r(3) same_list(1) [OF push_status_web] by auto
  then show ?thesis using run_lists [OF r(1)] same_list(5) [OF r(2)] by (simp add: list_moves_def)
qed (use assms in \<open>simp add: hub_loop_def list_moves_def\<close>)

lemma event_lists:
  assumes "hub_event_step ev (Some a) = Some a'"
  shows "list_moves a a'"
proof (cases ev)
  case (HubMessage H cl t bs)
  have "list_moves a a'" if m: "handleSetInclusionMode H bs a = Some a'"
  proof (cases "ha_device a = None")
    case False
    then obtain a1 where "startInclusionMode H a = Some a1 \<or> stopInclusionMode H a = Some a1" "handleGetStatus H a1 = Some a'"
      using m by (auto simp: handleSetInclusionMode_def bind_eq_Some_conv split: if_splits)
    then show ?thesis using same_list(2,3) [of H a a1] same_list(1) [OF web_ops(1), of H a1 a'] by (intro list_moves_same) auto
  qed (use m in \<open>simp add: handleSetInclusionMode_def list_moves_def\<close>)
  moreover have "list_moves a a'" if "handleGetStatus H a = Some a' \<or> handleGetDevices H a = Some a'"
    using that same_list(1) [OF web_ops(1)] same_list(1) [OF web_ops(2)] by (intro list_moves_same) blast
  ultimately show ?thesis using assms HubMessage
    by (simp add: hub_handlers_def list_moves_same split: if_splits)
qed (use assms in \<open>auto intro: loop_lists\<close>)

lemma session_lists: "hub_session evs (Some a) = Some a' \<Longrightarrow> list_moves a a'"
proof (induction evs arbitrary: a)
  case (Cons ev evs)
  then obtain a1 where "hub_event_step ev (Some a) = Some a1" "hub_session evs (Some a1) = Some a'"
    by (cases "hub_event_step ev (Some a)") (auto simp: hub_session_Cons)
  then show ?case using event_lists Cons.IH list_moves_trans by blast
qed (simp add: hub_session_def list_moves_def)

lemma hub_setup_list:
  assumes "hub_setup H C bo v (hub_start w) = Some (a, rest)"
  shows "connectedDevicesMap a = []"
proof -
  obtain ok a1 where i: "initializeHardware H C bo v (hub_start w) = Some (ok, a1, rest)"
      and a: "a = a1\<lparr>appState := if ok then READY else APP_ERROR\<rparr>"
    using assms by (auto simp: hub_setup_def bind_eq_Some_conv)
  obtain built b bo1 where b: "build (he_env H) (hc_wifi C) (DEVICE_NAME C) (DEVICE_ID C) HUB (hub_builder H C) bo = Some (built, b, bo1)"
    using i by (auto simp: initializeHardware_def bind_eq_Some_conv)
  have "connectedDevicesMap a1 = []"
  proof (cases built)
    case None
    then show ?thesis using i b by (auto simp: initializeHardware_def hub_start_def)
  next
    case (Some h)
    obtain okp p1 v1 where ap: "setupAccessPoint (hc_wifi C) (wifiAccessPoint h) (wd_ap h) v = (okp, p1, v1)" by (rule prod_cases3)
    show ?thesis using i b Some
      by (auto simp: initializeHardware_def hub_start_def bind_eq_Some_conv Let_def ap split: if_splits prod.split_asm
          dest!: setupDevicePortal_app)
  qed
  then show ?thesis by (simp add: a)
qed

text \<open>A row of the table for an entry of the hub: identifier, name, time, strength of the signal.\<close>

definition expected_row :: "browser \<Rightarrow> string \<times> device_info \<Rightarrow> string" where
  \<open>expected_row B p = (let rssi = di_rssi (snd p) in ''
                        <td class="device-id">'' @ fst p @ ''</td>
                        <td>'' @ ''Device_'' @ substr (fst p) 4 4 @ ''</td>
                        <td>'' @ br_toLocaleTimeString B (JSNum (uint (di_lastSeen (snd p)))) @ ''</td>
                        <td class="rssi '' @ (if rssi > - 60 then ''good'' else if rssi > - 80 then ''fair'' else ''poor'') @ ''">'' @
                          int_text rssi @ '' dBm</td>
                    '')\<close>

abbreviation (input) device_entry :: "string \<times> device_info \<Rightarrow> js \<times> js" where
  "device_entry p \<equiv> (JSStr (di_id (snd p)), js_of_json (device_json p))"

lemma device_json_get:
  "js_get (js_of_json (device_json p)) ''id'' = JSStr (di_id (snd p))" "js_get (js_of_json (device_json p)) ''name'' = JSStr (di_name (snd p))"
  "js_get (js_of_json (device_json p)) ''lastSeen'' = JSNum (uint (di_lastSeen (snd p)))"
  "js_get (js_of_json (device_json p)) ''rssi'' = JSNum (di_rssi (snd p))" "\<not> js_nullish (js_of_json (device_json p))"
  by (simp_all add: device_json_def)

lemma js_map_set_new: "k \<notin> fst ` set m \<Longrightarrow> js_map_set k v m = m @ [(k, v)]"
  by (induction k v m rule: js_map_set.induct) auto

lemma set_devices_entries:
  "distinct (map (di_id \<circ> snd) ps) \<Longrightarrow> (\<forall>p \<in> set ps. JSStr (di_id (snd p)) \<notin> fst ` set m) \<Longrightarrow>
   set_devices (map (\<lambda>p. js_of_json (device_json p)) ps) m = (True, m @ map device_entry ps)"
proof (induction ps arbitrary: m)
  case (Cons p ps)
  have "JSStr (di_id (snd p)) \<notin> fst ` set m" using Cons.prems(2) by simp
  moreover have "set_devices (map (\<lambda>p. js_of_json (device_json p)) ps) (m @ [device_entry p]) = (True, (m @ [device_entry p]) @ map device_entry ps)"
  proof (rule Cons.IH)
    show "distinct (map (di_id \<circ> snd) ps)" using Cons.prems(1) by (simp add: comp_def)
    have n: "di_id (snd p) \<notin> (\<lambda>q. di_id (snd q)) ` set ps" using Cons.prems(1) by (simp add: comp_def)
    have "di_id (snd q) \<noteq> di_id (snd p)" if "q \<in> set ps" for q
    proof
      assume "di_id (snd q) = di_id (snd p)"
      then show False using n imageI [OF that, of "\<lambda>q. di_id (snd q)"] by simp
    qed
    then show "\<forall>q \<in> set ps. JSStr (di_id (snd q)) \<notin> fst ` set (m @ [device_entry p])" using Cons.prems(2) by simp
  qed
  ultimately show ?case by (simp add: device_json_get js_map_set_new)
qed simp

lemma listed_ids: "listed m \<Longrightarrow> map (di_id \<circ> snd) m = map fst m"
  by (auto simp: listed_def)

lemma listed_distinct: "listed m \<Longrightarrow> distinct (map fst m)"
  using strict_sorted_iff by (auto simp: listed_def)

lemma plain_substr: "plain_text s \<Longrightarrow> plain_text (substr s i n)"
  unfolding substr_def by (rule plain_text_subset [of s]) (auto dest: in_set_takeD in_set_dropD)

lemma listed_plain: "listed m \<Longrightarrow> json_plain (json.JObj [(''devices'', json.JArr (map device_json m))])"
proof -
  assume m: "listed m"
  have "json_plain (device_json p)" if "p \<in> set m" for p
    using m that plain_substr [OF plain_hex_id] by (fastforce simp: listed_def device_json_def less_eq_char_def)
  then show ?thesis by (simp add: less_eq_char_def list_all_iff)
qed

lemma listed_rows:
  assumes "listed m" "p \<in> set m"
  shows "device_row B (device_entry p) = expected_row B p"
proof -
  have "di_id (snd p) = fst p" "di_name (snd p) = ''Device_'' @ substr (fst p) 4 4" using assms by (auto simp: listed_def)
  then show ?thesis
    by (simp add: device_row_def device_json_get expected_row_def Let_def js_or_def formatTime_def getRssiClass_def js_greater_def)
qed

lemma on_device_list_listed:
  assumes "listed m"
  shows "on_device_list B (js_of_json (json.JObj [(''devices'', json.JArr (map device_json m))])) t
    = updateDeviceTable B (t\<lparr>devices := map device_entry m\<rparr>)"
proof -
  have "set_devices (map (\<lambda>p. js_of_json (device_json p)) m) [] = (True, map device_entry m)"
    using set_devices_entries [of m "[]"] listed_ids [OF assms] listed_distinct [OF assms] by simp
  then show ?thesis by (simp add: on_device_list_def Let_def comp_def)
qed

text \<open>C23: The page lists exactly the devices the hub knows. At any time after the start of the hub, whatever it
  has heard and been told, let it answer a request for the list of devices and let the page receive the
  answer. If the hub knows no device, the page hides its table and says so; otherwise the table has one
  row for each entry of the hub, in the order of the identifiers, with the identifier, the name, the
  time of the last packet and the class and the value of its signal strength, and no two rows have the
  same identifier. The time is shown as a time of day, although the hub sends the milliseconds since its
  start.\<close>

theorem page_lists_devices:
  assumes start: "hub_setup H0 C bo v (hub_start w) = Some (a0, rest)" and session: "hub_session evs (Some a0) = Some a"
    and writer: "json_writer (he_json H)" and hub: "ha_device a \<noteq> None" "ha_portal a" "ha_portalRunning a"
    and socket: "socket_is i OPEN t" "so_handlers (sockets t ! i) = PageScript"
  shows "\<exists>m. handleGetDevices H a = Some (a\<lparr>ha_web := web_textAll (he_web H) m (ha_web a)\<rparr>) \<and>
    (let t1 = tab_step B (SocketMessage i m) t
     in (if connectedDevicesMap a = [] then el_tableDisplay t1 = ''none'' \<and> el_noDevicesDisplay t1 = ''block''
         else el_tableDisplay t1 = ''table'' \<and> el_noDevicesDisplay t1 = ''none'' \<and>
           el_deviceList t1 = map (expected_row B) (connectedDevicesMap a)) \<and>
        length (devices t1) = length (connectedDevicesMap a) \<and> distinct (map fst (connectedDevicesMap a)))"
proof -
  let ?D = "connectedDevicesMap a" and ?j = "json.JObj [(''devices'', json.JArr (map device_json (connectedDevicesMap a)))]"
  have "connectedDevicesMap a0 = []"
    using hub_setup_list [OF start] by (simp add: hub_start_def)
  then have l: "listed ?D" using session_lists [OF session] by (simp add: list_moves_def listed_def)
  have j: "JSON_parse (he_json H ?j) = Some (js_of_json ?j)" "plain_text (he_json H ?j)"
    using writer listed_plain [OF l] unfolding json_writer_def by blast+
  let ?m = "c_str (portal_text (DeviceListMessage (he_json H ?j)))"
  have g: "handleGetDevices H a = Some (a\<lparr>ha_web := web_textAll (he_web H) ?m (ha_web a)\<rparr>)"
    using hub by (auto simp: handleGetDevices_def portal_send_running)
  have "tab_step B (SocketMessage i ?m) t = on_device_list B (js_of_json ?j) t"
    using socket by (simp only: tab_step.simps page_reads(2) [OF j(2)] j(1) not_True_eq_False if_False option.case script.case)
  then have s: "tab_step B (SocketMessage i ?m) t = updateDeviceTable B (t\<lparr>devices := map device_entry ?D\<rparr>)"
    by (simp only: on_device_list_listed [OF l])
  have "map (\<lambda>p. device_row B (device_entry p)) ?D = map (expected_row B) ?D" using listed_rows [OF l] by simp
  then show ?thesis
    using listed_distinct [OF l] by (intro exI [of _ ?m] conjI g) (simp add: s updateDeviceTable_def Let_def comp_def del: tab_step.simps)
qed

section \<open>A page at a hub\<close>

definition panel_env :: "(bytes storage, toy_web) hub_env" where
  "panel_env = toy_hub_env\<lparr>he_json := \<lambda>j. JSON_stringify (js_of_json j)\<rparr>"

lemma panel_writer: "json_writer (he_json panel_env)"
  by (simp add: panel_env_def stringify_writes)

definition panel_app :: "(bytes storage, toy_web) hub_app" where
  "panel_app = (toy_app (toy_included HUB))\<lparr>ha_web := toy_web\<rparr>"

definition panel_portal :: "(bytes storage, toy_web) hub_app option portal" where
  "panel_portal = AsyncDevicePortal (hub_portal_params panel_env ''<body></body>'')"

lemma panel_ok:
  "ha_device panel_app = Some (toy_included HUB)" "ha_portal panel_app" "ha_portalRunning panel_app"
  "pp_eventHandlers (portalParams panel_portal) = hub_handlers panel_env" "web_canSend (hub_web toy_web_lib) 7 (Some panel_app)"
  by (simp_all add: panel_app_def toy_app_def hub_start_def panel_portal_def AsyncDevicePortal_def hub_portal_params_def
      hub_web_def toy_web_lib_def toy_web_def)

lemma panel_page:
  "socket_is 0 CONNECTING (page_script toy_browser)" "so_handlers (sockets (page_script toy_browser) ! 0) = PageScript"
  "ws (page_script toy_browser) = Some 0"
  "socket_is 0 OPEN (tab_step toy_browser (SocketOpen 0) (page_script toy_browser))"
  "so_handlers (sockets (tab_step toy_browser (SocketOpen 0) (page_script toy_browser)) ! 0) = PageScript"
  "ws (tab_step toy_browser (SocketOpen 0) (page_script toy_browser)) = Some 0"
  by (simp_all add: page_script_def addLogEntry_def page_connectWebSocket_def new_socket_def blank_tab_def socket_is_def set_ready_def
      page_onopen_def so_send_def Let_def)

text \<open>A hub that is ready, with keys to invite with: one click opens it.\<close>

definition panel_hub :: "(bytes storage, toy_web) hub_app" where
  "panel_hub = (toy_app (toy_node HUB (fresh_controller INCLUDED HUB) (replicate 32 1) toy_hub_store))\<lparr>appState := READY\<rparr>"

theorem page_controls_hub_witness:
  "\<exists>m c a2 m'.
    (let t1 = tab_step toy_browser (SocketMessage 0 m) (tab_step toy_browser (SocketOpen 0) (page_script toy_browser));
         t2 = tab_step toy_browser Click t1; t3 = tab_step toy_browser (SocketMessage 0 m') t2
     in inclusionActive t1 = JSBool False \<and> el_hubId t1 = ''09090909'' \<and>
        handleWebSocketEvent (hub_web toy_web_lib) 0 WS_EVT_DATA (Some 7) (Some (map byte_of_char c)) panel_portal (Some panel_hub)
          = (panel_portal, Some a2) \<and>
        appState a2 = INCLUSION_MODE_ACTIVE \<and> inclusionActive t3 = JSBool True)"
proof -
  let ?c = "fresh_controller INCLUDED HUB"
  let ?d = "toy_node HUB ?c (replicate 32 1) toy_hub_store" and ?on = "toy_node HUB (?c\<lparr>inclusionModeEnabled := True\<rparr>) (replicate 32 1) toy_hub_store"
  have hub: "ha_device panel_hub = Some ?d" "ha_portal panel_hub" "ha_portalRunning panel_hub" "appState panel_hub = READY" "app_ok panel_hub"
      "web_canSend (hub_web toy_web_lib) 7 (Some panel_hub)"
    by (simp_all add: panel_hub_def toy_app_def hub_start_def app_ok_def hub_web_def toy_web_lib_def toy_web_def)
  have d: "d_type ?d = HUB" "d_ctl ?d = Some ?c" "\<not> inclusionModeEnabled ?c" "d_id ?d = Id4 9 9 9 9" "d_ctl ?on = Some (?c\<lparr>inclusionModeEnabled := True\<rparr>)"
    by (simp_all add: toy_node_def toy_dev_def RadioMeshDevice_def upd_es_def fresh_controller_def)
  then have mode: "isInclusionModeEnabled ?d = Some False" by (simp add: isInclusionModeEnabled_def ic_isInclusionModeEnabled_def)
  have hid: "hex_id (getDeviceId ?d) = ''09090909''" unfolding getDeviceId_def d(4) by code_simp
  have on: "?on = ?d\<lparr>d_ctl := Some (?c\<lparr>inclusionModeEnabled := True\<rparr>)\<rparr>" by (simp add: toy_node_def upd_es_def)
  have "node_ok (eeprom_inv ram_eeprom ram_opened) (eeprom_contents ram_eeprom) (replicate 32 1) ?on"
    by (rule toy_node_ok [OF _ toy_hub_store_ok(1,2)]) simp
  moreover have "hub_at (eeprom_contents ram_eeprom) (replicate 32 5) PROTOCOL_IDLE ?on"
    using toy_hub_store_ok(3) by (auto simp: hub_at_def toy_node_def toy_dev_def RadioMeshDevice_def fresh_controller_def upd_es_def)
  moreover have "keypair_of toy_lib (replicate 32 1) (replicate 32 1)" by (simp add: keypair_of_def toy_lib_def)
  ultimately obtain sent where o: "sendInclusionOpen toy_env ?on = Some (RM_E_NONE, sent)"
    using node.hub_opens [OF toy_serves toy_lib_laws] by blast
  then have o': "sendInclusionOpen (he_env panel_env) (?d\<lparr>d_ctl := Some (?c\<lparr>inclusionModeEnabled := True\<rparr>)\<rparr>) = Some (RM_E_NONE, sent)"
    unfolding on by (simp add: panel_env_def toy_hub_env_def)
  note p = page_controls_hub [OF panel_writer panel_writer hub(1) mode hub(2,3) panel_page(4-6) hub(1) refl d(1,2) _ hub(5,2,3) o' panel_ok(4) hub(6),
      of toy_browser 0]
  from p d(3) obtain m c a2 mode' m' where q: "let t1 = tab_step toy_browser (SocketMessage 0 m) (tab_step toy_browser (SocketOpen 0) (page_script toy_browser));
         t2 = tab_step toy_browser Click t1; t3 = tab_step toy_browser (SocketMessage 0 m') t2
     in inclusionActive t1 = JSBool False \<and> el_hubId t1 = hex_id (getDeviceId ?d) \<and>
        handleWebSocketEvent (hub_web toy_web_lib) 0 WS_EVT_DATA (Some 7) (Some (map byte_of_char c)) panel_portal (Some panel_hub)
          = (panel_portal, Some a2) \<and> pressed False (RM_E_NONE, sent) panel_hub a2 \<and>
        Option.bind (ha_device a2) isInclusionModeEnabled = Some mode' \<and> inclusionActive t3 = JSBool mode'"
    unfolding Let_def by blast
  then have "appState a2 = INCLUSION_MODE_ACTIVE \<and> mode'" using hub(4) by (auto simp: Let_def pressed_def simp del: tab_step.simps)
  with q show ?thesis unfolding Let_def hid
    by - (rule exI [of _ m], rule exI [of _ c], rule exI [of _ a2], rule exI [of _ m'], simp del: tab_step.simps)
qed

theorem status_request_is_dropped_witness:
  "\<exists>c1 c2. so_sent (sockets (tab_step toy_browser (SocketOpen 0) (page_script toy_browser)) ! 0)
      = so_sent (sockets (page_script toy_browser) ! 0) @ [c1, c2] \<and>
    handleWebSocketEvent (hub_web toy_web_lib) 0 WS_EVT_DATA (Some 7) (Some (map byte_of_char c1)) panel_portal (Some panel_app)
      = (panel_portal, Some panel_app)"
  using status_request_is_dropped [OF panel_page(1-3) panel_ok(4,5), of toy_browser 0] by blast

theorem page_lists_devices_witness:
  "\<exists>a rest m. hub_setup toy_hub_env toy_hub_config toy_hub_board ([], []) (hub_start toy_web) = Some (a, rest) \<and>
     handleGetDevices panel_env a = Some (a\<lparr>ha_web := web_textAll (he_web panel_env) m (ha_web a)\<rparr>) \<and>
     el_noDevicesDisplay (tab_step toy_browser (SocketMessage 0 m) (tab_step toy_browser (SocketOpen 0) (page_script toy_browser))) = ''block''"
proof -
  obtain a rest where a: "hub_setup toy_hub_env toy_hub_config toy_hub_board ([], []) (hub_start toy_web) = Some (a, rest)"
      "appState a = READY" using toy_hub_ready by blast
  have f: "ha_device a \<noteq> None" "ha_portal a" "ha_portalRunning a" using hub_setup_result(2) [OF a(1)] a(2) by auto
  have s: "hub_session [] (Some a) = Some a" by (simp add: hub_session_def)
  show ?thesis
    using page_lists_devices [OF a(1) s panel_writer f panel_page(4,5), of toy_browser] a(1)
    unfolding Let_def hub_setup_list [OF a(1)] by (simp only: simp_thms if_True) blast
qed

end
