(* ===== verification/RM_Examples.thy ===== *)
theory RM_Examples
  imports RM_AdminPanel RM_StandardDevice
begin

text \<open>
  The sample configurations of the two applications, \<open>device_info_example.h\<close> of \<open>MiniHub\<close> and of
  \<open>Standard\<close>, which a user copies to \<open>device_info.h\<close>: their values, that both applications can be built
  with them, and what happens when a hub and its sensors are set up from them unchanged. The board is
  chosen by a build switch; the pins of its display are constants of the board. The constants that
  exist only with a display or with WiFi are here with both switched on.
\<close>

section \<open>The two files\<close>

datatype target_board = USE_HELTEC_WIFI_LORA_32_V3 | USE_XIAO_ESP32S3_WIO_SX1262 | USE_CUBECELL

record device_info_file =
  fi_id :: id4
  fi_name :: string
  fi_radioParams :: lora_params
  fi_displayParams :: oled_params
  fi_wifiParams :: wifi_params
  fi_apParams :: ap_params

definition hub_info_example :: "target_board \<Rightarrow> byte \<Rightarrow> byte \<Rightarrow> byte \<Rightarrow> device_info_file" where
  "hub_info_example board SCL_OLED SDA_OLED RST_OLED =
     \<lparr>fi_id = Id4 0x77 0x77 0x77 0x77, fi_name = ''MiniHub'',
      fi_radioParams = (case board of
          USE_HELTEC_WIFI_LORA_32_V3 \<Rightarrow> HELTEC_WIFI_LORA_32_V3
        | USE_XIAO_ESP32S3_WIO_SX1262 \<Rightarrow> XIAO_ESP32S3_WIO_SX1262
        | USE_CUBECELL \<Rightarrow> HELTEC_CUBECELL),
      fi_displayParams = \<lparr>clockPin = SCL_OLED, dataPin = SDA_OLED, resetPin = RST_OLED, fontId = RM_FONT_SMALL\<rparr>,
      fi_wifiParams = \<lparr>wp_ssid = ''your_wifi_ssid'', wp_password = ''your_wifi_password''\<rparr>,
      fi_apParams = \<lparr>ap_ssid = ''MiniHubAP'', ap_password = ''firefly2517'', ap_ipAddress = ''192.168.20.1''\<rparr>\<rparr>"

definition standard_info_example :: "target_board \<Rightarrow> byte \<Rightarrow> byte \<Rightarrow> byte \<Rightarrow> device_info_file" where
  "standard_info_example board SCL_OLED SDA_OLED RST_OLED =
     \<lparr>fi_id = Id4 0x77 0x77 0x77 0x77, fi_name = ''MiniHub'',
      fi_radioParams = (case board of
          USE_HELTEC_WIFI_LORA_32_V3 \<Rightarrow> HELTEC_WIFI_LORA_32_V3
        | USE_XIAO_ESP32S3_WIO_SX1262 \<Rightarrow> XIAO_ESP32S3_WIO_SX1262
        | USE_CUBECELL \<Rightarrow> HELTEC_CUBECELL),
      fi_displayParams = \<lparr>clockPin = SCL_OLED, dataPin = SDA_OLED, resetPin = RST_OLED, fontId = RM_FONT_SMALL\<rparr>,
      fi_wifiParams = \<lparr>wp_ssid = ''your_wifi_ssid'', wp_password = ''your_wifi_password''\<rparr>,
      fi_apParams = \<lparr>ap_ssid = ''MiniHubAP'', ap_password = ''firefly2517'', ap_ipAddress = ''192.168.20.1''\<rparr>\<rparr>"

text \<open>The constants that the applications take from the file.\<close>

definition hub_uses :: "device_info_file \<Rightarrow> ('v, 'p) hub_config \<Rightarrow> ('v, 'p) hub_config" where
  "hub_uses f C = C\<lparr>DEVICE_NAME := fi_name f, DEVICE_ID := fi_id f, apParams := fi_apParams f\<rparr>"

definition standard_uses :: "device_info_file \<Rightarrow> 'p std_config \<Rightarrow> 'p std_config" where
  "standard_uses f C = C\<lparr>sc_name := fi_name f, sc_id := fi_id f, sc_radioParams := fi_radioParams f,
     sc_displayParams := fi_displayParams f\<rparr>"

section \<open>They can be used\<close>

lemma example_values_accepted:
  "wl_fromString L ''192.168.20.1'' \<noteq> None \<Longrightarrow> ap_acceptable L (fi_apParams (hub_info_example b c d r))"
  "params_ok (fi_wifiParams (hub_info_example b c d r))"
  "checkLoraParameters (fi_radioParams (hub_info_example b c d r)) = RM_E_NONE"
  using presets_ok
  by (cases b; simp add: hub_info_example_def ap_acceptable_def c_str_def params_ok_def)+

lemma example_hub_buildable:
  assumes "wl_fromString (hc_wifi C) ''192.168.20.1'' \<noteq> None" "ADMIN_PANEL_HTML C \<noteq> []"
  shows "buildable (hc_wifi C) (hub_builder H (hub_uses (hub_info_example b c d r) C))"
  using hub_buildable [of "hub_uses (hub_info_example b c d r) C" H] example_values_accepted(1) [OF assms(1), of b c d r] assms(2)
  by (simp add: hub_uses_def)

lemma example_files_agree: "standard_info_example = hub_info_example"
  by (simp add: fun_eq_iff standard_info_example_def hub_info_example_def)

lemma example_sensor_buildable:
  "buildable W (std_builder useDisplay (standard_uses (standard_info_example b c d r) C))"
proof -
  have "checkLoraParameters (sc_radioParams (standard_uses (standard_info_example b c d r) C)) = RM_E_NONE"
    using example_values_accepted(3) [of b c d r] by (simp add: standard_uses_def example_files_agree)
  then show ?thesis
    by (cases useDisplay) (simp_all add: buildable_def std_builder_def withRxPacketCallback_def withOledDisplay_def withLoraRadio_def
        start_def DeviceBuilder_def no_blueprint_def Let_def)
qed

section \<open>Everyone has the same identifier\<close>

text \<open>What a callback of the hub does to the keys of its table.\<close>

definition keys_within :: "string set \<Rightarrow> ('s, 'w) hub_app \<Rightarrow> bool" where
  "keys_within S a \<longleftrightarrow> fst ` set (connectedDevicesMap a) \<subseteq> S"

lemma keys_within_same: "connectedDevicesMap a' = connectedDevicesMap a \<Longrightarrow> keys_within S a' = keys_within S a"
  by (simp add: keys_within_def)

lemma keys_within_track:
  "keys_within S a \<Longrightarrow> k \<in> S \<Longrightarrow> keys_within S (track_device k n r a)" "keys_within S a \<Longrightarrow> keys_within S (refresh_device k n r a)"
proof -
  have put: "fst ` set (map_put k v (connectedDevicesMap a)) \<subseteq> S" if "keys_within S a" "k \<in> S" for v
    using map_put_set [of k v "connectedDevicesMap a"] that by (force simp: keys_within_def)
  then show "keys_within S a \<Longrightarrow> k \<in> S \<Longrightarrow> keys_within S (track_device k n r a)"
    by (simp add: keys_within_def track_device_def)
  show "keys_within S (refresh_device k n r a)" if s: "keys_within S a"
  proof (cases "map_of (connectedDevicesMap a) k")
    case (Some i)
    then have "k \<in> S" using map_of_SomeD [OF Some] s by (force simp: keys_within_def)
    from put [OF s this] show ?thesis using Some by (simp add: keys_within_def refresh_device_def)
  qed (use s in \<open>simp add: refresh_device_def\<close>)
qed

lemma callback_keys:
  assumes r: "hub_onPacketReceived H (Some p, err) a = Some a'" and k: "keys_within S a" "hex_id (p_source p) \<in> S"
  shows "keys_within S a'"
proof (cases "err = RM_E_NONE")
  case True
  consider (request) "p_topic p = T_INCLUDE_REQUEST" | (confirm) "p_topic p \<noteq> T_INCLUDE_REQUEST" "p_topic p = T_INCLUDE_CONFIRM"
    | (other) "p_topic p \<noteq> T_INCLUDE_REQUEST" "p_topic p \<noteq> T_INCLUDE_CONFIRM" by blast
  then show ?thesis
  proof cases
    case request
    then have "sendInclusionEvent H ''request_received'' (hex_id (p_source p)) (a\<lparr>totalInclusionRequests := totalInclusionRequests a + 1\<rparr>) = Some a'"
      using r True by (simp add: hub_onPacketReceived_def Let_def)
    then have "connectedDevicesMap a' = connectedDevicesMap a" by (auto dest!: web_ops(3) web_onlyD)
    then show ?thesis using k(1) keys_within_same by blast
  next
    case confirm
    then obtain rssi a1 a2 a3 where s: "hub_rssi H (a\<lparr>successfulInclusions := successfulInclusions a + 1\<rparr>) = Some (rssi, a1)"
        "sendInclusionEvent H ''success'' (hex_id (p_source p)) (track_device (hex_id (p_source p)) (he_now H) rssi a1) = Some a2"
        "handleGetDevices H a2 = Some a3" "stopInclusionMode H a3 = Some a'"
      using r True by (auto simp: hub_onPacketReceived_def Let_def bind_eq_Some_conv)
    have "keys_within S a1" using same_list(4) [OF s(1)] k(1) by (simp add: keys_within_def)
    then have "keys_within S (track_device (hex_id (p_source p)) (he_now H) rssi a1)" using k(2) by (rule keys_within_track)
    moreover have "connectedDevicesMap a' = connectedDevicesMap (track_device (hex_id (p_source p)) (he_now H) rssi a1)"
      using same_list(1) [OF web_ops(3) [OF s(2)]] same_list(1) [OF web_ops(2) [OF s(3)]] same_list(3) [OF s(4)] by simp
    ultimately show ?thesis using keys_within_same by blast
  next
    case other
    show ?thesis
    proof (cases "map_of (connectedDevicesMap a) (hex_id (p_source p)) = None")
      case False
      then obtain rssi a1 where s: "hub_rssi H a = Some (rssi, a1)" "a' = refresh_device (hex_id (p_source p)) (he_now H) rssi a1"
        using r True other by (auto simp: hub_onPacketReceived_def Let_def bind_eq_Some_conv)
      have "keys_within S a1" using same_list(4) [OF s(1)] k(1) by (simp add: keys_within_def)
      then show ?thesis unfolding s(2) by (rule keys_within_track)
    qed (use r True other k in \<open>simp add: hub_onPacketReceived_def Let_def\<close>)
  qed
qed (use r k in \<open>simp add: hub_onPacketReceived_def\<close>)

lemma callbacks_keys:
  "run_callbacks H calls a = Some a' \<Longrightarrow> keys_within S a \<Longrightarrow>
   (\<forall>p err. (Some p, err) \<in> set calls \<longrightarrow> hex_id (p_source p) \<in> S) \<Longrightarrow> keys_within S a'"
proof (induction calls arbitrary: a)
  case (Cons c cs)
  obtain q err where c: "c = (q, err)" by fastforce
  obtain a1 where a1: "hub_onPacketReceived H c a = Some a1" "run_callbacks H cs a1 = Some a'"
    using Cons.prems(1) by (auto simp: bind_eq_Some_conv)
  have "keys_within S a1"
  proof (cases q)
    case None
    then show ?thesis using a1(1) Cons.prems(2) c by (simp add: hub_onPacketReceived_def)
  next
    case (Some p)
    show ?thesis by (rule callback_keys [of H p err a]) (use a1(1) c Some Cons.prems(2,3) in auto)
  qed
  moreover have "\<forall>p err. (Some p, err) \<in> set cs \<longrightarrow> hex_id (p_source p) \<in> S" using Cons.prems(3) by auto
  ultimately show ?case using Cons.IH [OF a1(2)] by blast
qed simp

text \<open>A network of copies of the sample file. However many sensors with the sample configuration the hub
  admits and hears, its table, and so its page, has one entry at most, under the identifier that is
  also the hub's own.\<close>

theorem sample_sensors_share_one_entry:
  assumes calls: "run_callbacks H calls a = Some a'" and empty: "connectedDevicesMap a = []"
    and sensors: "\<forall>p err. (Some p, err) \<in> set calls \<longrightarrow> p_source p = fi_id (standard_info_example b c d r)"
  shows "length (connectedDevicesMap a') \<le> 1 \<and>
    (\<forall>e \<in> set (connectedDevicesMap a'). fst e = hex_id (fi_id (hub_info_example b' c' d' r')))"
proof -
  let ?k = "hex_id (Id4 0x77 0x77 0x77 0x77)"
  have s: "fi_id (standard_info_example b c d r) = Id4 0x77 0x77 0x77 0x77" "fi_id (hub_info_example b' c' d' r') = Id4 0x77 0x77 0x77 0x77"
    by (simp_all add: standard_info_example_def hub_info_example_def)
  have "keys_within {?k} a" using empty by (simp add: keys_within_def)
  moreover have "\<forall>p err. (Some p, err) \<in> set calls \<longrightarrow> hex_id (p_source p) \<in> {?k}" using sensors s(1) by simp
  ultimately have k: "keys_within {?k} a'" using callbacks_keys [OF calls] by blast
  have "listed (connectedDevicesMap a')" using callbacks_list [OF calls] empty by (simp add: list_moves_def listed_def)
  then have "distinct (map fst (connectedDevicesMap a'))" by (rule listed_distinct)
  then have "length (connectedDevicesMap a') = card (fst ` set (connectedDevicesMap a'))" by (metis distinct_card length_map set_map)
  also have "\<dots> \<le> card {?k}" using k by (intro card_mono) (simp_all add: keys_within_def)
  finally have "length (connectedDevicesMap a') \<le> 1" by simp
  moreover have "fst e = ?k" if "e \<in> set (connectedDevicesMap a')" for e using k that by (auto simp: keys_within_def)
  ultimately show ?thesis unfolding s(2) by blast
qed

theorem sample_sensors_share_one_entry_witness:
  "\<exists>a'. run_callbacks panel_env [(Some (default_packet\<lparr>p_topic := T_INCLUDE_CONFIRM, p_source := Id4 0x77 0x77 0x77 0x77\<rparr>), RM_E_NONE)]
      (panel_app\<lparr>inclusionModeActive := True, appState := INCLUSION_MODE_ACTIVE\<rparr>) = Some a' \<and> length (connectedDevicesMap a') = 1"
proof -
  let ?p = "default_packet\<lparr>p_topic := T_INCLUDE_CONFIRM, p_source := Id4 0x77 0x77 0x77 0x77\<rparr>"
  let ?a = "panel_app\<lparr>inclusionModeActive := True, appState := INCLUSION_MODE_ACTIVE\<rparr>"
  have a: "ha_device ?a = Some (toy_included HUB)" "ha_portal ?a" "inclusionModeActive ?a" "connectedDevicesMap ?a = []"
    by (simp_all add: panel_app_def toy_app_def hub_start_def)
  have d: "d_type (toy_included HUB) = HUB" "d_ctl (toy_included HUB) \<noteq> None" "ra_module (n_radio (d_net (toy_included HUB)))"
    using toy_included_ok(1-3) [of HUB] by (auto simp: networked_def on_air_def)
  obtain a' where a': "hub_onPacketReceived panel_env (Some ?p, RM_E_NONE) ?a = Some a'" "map_of (connectedDevicesMap a') (hex_id (p_source ?p)) \<noteq> None"
    using confirm_callback [OF a(1-3) d, of ?p panel_env] by auto
  have r: "run_callbacks panel_env [(Some ?p, RM_E_NONE)] ?a = Some a'" using a'(1) by simp
  have "\<forall>p err. (Some p, err) \<in> set [(Some ?p, RM_E_NONE)] \<longrightarrow> p_source p = fi_id (standard_info_example USE_CUBECELL 0 0 0)"
    by (simp add: standard_info_example_def)
  from sample_sensors_share_one_entry [OF r a(4) this] have "length (connectedDevicesMap a') \<le> 1" by blast
  moreover have "connectedDevicesMap a' \<noteq> []" using a'(2) by auto
  ultimately have "length (connectedDevicesMap a') = 1" by (cases "connectedDevicesMap a'") auto
  then show ?thesis using r by blast
qed

end
