(* ===== verification/RM_Logger.thy ===== *)
theory RM_Logger
  imports RM_Display RM_KeyManager RM_RoutingTable
begin

text \<open>
  The log: \<open>src/src/common/inc/Logger.h\<close>, and the operations that exist to write log lines:
  \<open>RadioMeshPacket::log\<close>, \<open>RoutingTable::printRoutes\<close>, and the generation of the device's keys, whose
  debug line is more than a remark. The other theories leave log lines out. The serial port and the
  heap are parameters; the macros that the build defines are a list of names, so that the preprocessor
  branches of the header are branches here. \<open>vsnprintf\<close> is written out for the conversions that log
  lines use: \<open>%s\<close>, \<open>%d\<close>, \<open>%u\<close> and \<open>%X\<close>, with a width, a zero flag and the length \<open>l\<close>.
\<close>

section \<open>Formatted text\<close>

text \<open>An argument, after its promotion: a number of 32 bits, or text.\<close>

datatype printf_arg = PNum u32 | PStr string

fun hex_string :: "nat \<Rightarrow> string" where
  "hex_string n =
     (if n < 16 then [hex_digits ! n] else hex_string (n div 16) @ [hex_digits ! (n mod 16)])"

declare hex_string.simps [simp del]

text \<open>A conversion that does not fit its argument is undefined behaviour.\<close>

fun convert :: "char \<Rightarrow> printf_arg \<Rightarrow> string option" where
  "convert c (PNum v) =
     (if c = CHR ''d'' then Some (format_d (sint v))
      else if c = CHR ''u'' then Some (dec_string (unat v))
      else if c = CHR ''X'' then Some (hex_string (unat v))
      else None)"
| "convert c (PStr s) = (if c = CHR ''s'' then Some (c_str s) else None)"

definition pad :: "bool \<Rightarrow> nat \<Rightarrow> string \<Rightarrow> string" where
  "pad zero width s = replicate (width - length s) (if zero then CHR ''0'' else CHR '' '') @ s"

abbreviation (input) is_digit :: "char \<Rightarrow> bool" where
  "is_digit c \<equiv> 48 \<le> (of_char c :: nat) \<and> (of_char c :: nat) < 58"

definition dec_value :: "string \<Rightarrow> nat" where
  "dec_value s = foldl (\<lambda>v c. 10 * v + (of_char c - 48)) 0 s"

text \<open>What follows the percent sign: the zero flag, the width, the conversion, and the rest.\<close>

definition parse_spec :: "string \<Rightarrow> (bool \<times> nat \<times> char \<times> string) option" where
  "parse_spec fmt =
     (let rest = dropWhile is_digit fmt;
          rest1 = (if rest \<noteq> [] \<and> hd rest = CHR ''l'' then tl rest else rest)
      in if rest1 = [] then None
         else Some (fmt \<noteq> [] \<and> hd fmt = CHR ''0'', dec_value (takeWhile is_digit fmt), hd rest1, tl rest1))"

lemma parse_spec_shorter: "parse_spec fmt = Some (z, n, c, rest) \<Longrightarrow> length rest < length fmt"
proof -
  assume a: "parse_spec fmt = Some (z, n, c, rest)"
  let ?r = "dropWhile is_digit fmt"
  have l: "length ?r \<le> length fmt" by (rule length_dropWhile_le)
  show ?thesis using a l by (cases ?r; cases "tl ?r") (auto simp: parse_spec_def Let_def split: if_splits)
qed

function printf :: "string \<Rightarrow> printf_arg list \<Rightarrow> string option" where
  "printf [] args = Some []"
| "printf (c # fmt) args =
     (if c \<noteq> CHR ''%'' then map_option ((#) c) (printf fmt args)
      else case parse_spec fmt of
        None \<Rightarrow> None
      | Some (zero, width, conv, rest) \<Rightarrow>
          (case args of
             [] \<Rightarrow> None
           | a # args1 \<Rightarrow> do { s \<leftarrow> convert conv a; t \<leftarrow> printf rest args1; Some (pad zero width s @ t) }))"
  by pat_completeness auto
termination
  by (relation "measure (length \<circ> fst)") (auto dest: parse_spec_shorter)

text \<open>What \<open>vsnprintf\<close> stores in a buffer of \<open>n\<close> characters before the final NUL, and what it
  returns: the length of the whole text, negative if that is no \<open>int\<close>.\<close>

definition vsnprintf :: "nat \<Rightarrow> string \<Rightarrow> string \<times> int" where
  "vsnprintf n txt = (take (n - 1) txt, if length txt < 2 ^ 31 then int (length txt) else - 1)"

section \<open>Printing\<close>

text \<open>The serial port, whether the heap has so many bytes, and the macros of the build.\<close>

record 'p log_env =
  le_write :: "string \<Rightarrow> 'p \<Rightarrow> u32 \<times> 'p"
  le_alloc :: "u32 \<Rightarrow> bool"
  le_flags :: "string list"

text \<open>\<open>rmPrintf\<close>: a buffer of 64 characters, one on the heap for a longer text. \<open>None\<close> is a read past
  the end of the buffer, or a format that does not fit its arguments.\<close>

definition rmPrintf :: "'p log_env \<Rightarrow> string \<Rightarrow> printf_arg list \<Rightarrow> 'p \<Rightarrow> (u32 \<times> 'p) option" where
  "rmPrintf L format args w = do {
     txt \<leftarrow> printf format args;
     let (temp, result) = vsnprintf 64 txt;
     let len = (word_of_int result :: u32);
     if len > 63 then
       (if \<not> le_alloc L (len + 1) then Some (0, w)
        else do {
          let (buffer, result1) = vsnprintf (unat (len + 1)) txt;
          guard_ok (unat len \<le> length buffer);
          Some (le_write L (take (unat len) buffer) w) })
     else do {
       guard_ok (unat len \<le> length temp);
       Some (le_write L (take (unat len) temp) w) } }"

text \<open>The statements of a macro, one after the other.\<close>

fun prints :: "'p log_env \<Rightarrow> (string \<times> printf_arg list) list \<Rightarrow> 'p \<Rightarrow> 'p option" where
  "prints L [] w = Some w"
| "prints L ((format, args) # calls) w = do { (n, w1) \<leftarrow> rmPrintf L format args w; prints L calls w1 }"

section \<open>Levels\<close>

text \<open>The macros that the header defines, by the option of the build.\<close>

definition level_macros :: "string list \<Rightarrow> string list" where
  "level_macros flags =
     (if ''RM_LOG_VERBOSE'' \<in> set flags then [''LOG_ERROR'', ''LOG_WARN'', ''LOG_INFO'', ''LOG_DEBUG'', ''LOG_TRACE''] else []) @
     (if ''RM_LOG_DEBUG'' \<in> set flags then [''LOG_ERROR'', ''LOG_WARN'', ''LOG_INFO'', ''LOG_DEBUG''] else []) @
     (if ''RM_LOG_INFO'' \<in> set flags then [''LOG_ERROR'', ''LOG_WARN'', ''LOG_INFO''] else []) @
     (if ''RM_LOG_CRITICAL'' \<in> set flags then [''LOG_ERROR'', ''LOG_WARN''] else [])"

definition macro_defined :: "'p log_env \<Rightarrow> string \<Rightarrow> bool" where
  "macro_defined L m \<longleftrightarrow> m \<in> set (le_flags L @ level_macros (le_flags L))"

text \<open>\<open>__FILENAME__\<close>; the place of a log statement is its file and line.\<close>

definition file_name :: "string \<Rightarrow> string" where
  "file_name path =
     (if CHR ''/'' \<in> set path then rev (takeWhile (\<lambda>c. c \<noteq> CHR ''/'') (rev path)) else path)"

type_synonym place = "string \<times> u32"

abbreviation (input) newline :: string where "newline \<equiv> [CHR 0x0A]"

text \<open>The macro of each level; the flag tells the variant that ends the line.\<close>

definition logerr :: "'p log_env \<Rightarrow> bool \<Rightarrow> place \<Rightarrow> string \<Rightarrow> printf_arg list \<Rightarrow> 'p \<Rightarrow> 'p option" where
  "logerr L ln at format args w =
     (if macro_defined L ''LOG_ERROR''
      then prints L ([(''[E]'', []), (''[** %s : %d] '', [PStr (file_name (fst at)), PNum (snd at)]), (format, args)]
        @ (if ln then [(newline, [])] else [])) w
      else Some w)"

definition logwarn :: "'p log_env \<Rightarrow> bool \<Rightarrow> place \<Rightarrow> string \<Rightarrow> printf_arg list \<Rightarrow> 'p \<Rightarrow> 'p option" where
  "logwarn L ln at format args w =
     (if macro_defined L ''LOG_WARN''
      then prints L ([(''[W]'', []), (''[%s : %d] '', [PStr (file_name (fst at)), PNum (snd at)]), (format, args)]
        @ (if ln then [(newline, [])] else [])) w
      else Some w)"

definition loginfo :: "'p log_env \<Rightarrow> bool \<Rightarrow> string \<Rightarrow> string \<Rightarrow> printf_arg list \<Rightarrow> 'p \<Rightarrow> 'p option" where
  "loginfo L ln path format args w =
     (if macro_defined L ''LOG_INFO''
      then prints L ([(''[I]'', []), (''[%s] '', [PStr (file_name path)]), (format, args)]
        @ (if ln then [(newline, [])] else [])) w
      else Some w)"

definition logdbg :: "'p log_env \<Rightarrow> bool \<Rightarrow> string \<Rightarrow> string \<Rightarrow> printf_arg list \<Rightarrow> 'p \<Rightarrow> 'p option" where
  "logdbg L ln path format args w =
     (if macro_defined L ''LOG_DEBUG''
      then prints L ([(''[D]'', []), (''[%s] '', [PStr (file_name path)]), (format, args)]
        @ (if ln then [(newline, [])] else [])) w
      else Some w)"

text \<open>The header asks for \<open>LOG_TARCE\<close> here.\<close>

definition logtrace :: "'p log_env \<Rightarrow> bool \<Rightarrow> string \<Rightarrow> string \<Rightarrow> printf_arg list \<Rightarrow> 'p \<Rightarrow> 'p option" where
  "logtrace L ln path format args w =
     (if macro_defined L ''LOG_TARCE''
      then prints L ([(''[T]'', []), (''[%s] '', [PStr (file_name path)]), (format, args)]
        @ (if ln then [(newline, [])] else [])) w
      else Some w)"


section \<open>Operations that write the log\<close>

text \<open>\<open>convertToHex(v.data(), v.size()).c_str()\<close>\<close>

definition hex_arg :: "bytes \<Rightarrow> printf_arg" where
  "hex_arg bs = PStr (concat (map hex2 bs))"

lemma convertToHex_whole: "convertToHex bs (length bs) = Some s \<Longrightarrow> hex_arg bs = PStr s"
  by (simp add: convertToHex_def hex_arg_def)

fun logdbg_lines :: "'p log_env \<Rightarrow> string \<Rightarrow> (string \<times> printf_arg list) list \<Rightarrow> 'p \<Rightarrow> 'p option" where
  "logdbg_lines L path [] w = Some w"
| "logdbg_lines L path ((format, args) # lines) w =
     do { w1 \<leftarrow> logdbg L True path format args w; logdbg_lines L path lines w1 }"

definition packet_dump :: "packet \<Rightarrow> (string \<times> printf_arg list) list" where
  "packet_dump p =
     [(''Packet dump:'', []),
      (''  Protocol Version: %d'', [PNum (ucast (p_version p))]),
      (''  Source ID: %s'', [hex_arg (id4_bytes (p_source p))]),
      (''  Dest ID: %s'', [hex_arg (id4_bytes (p_dest p))]),
      (''  Packet ID: 0x%s'', [hex_arg (id4_bytes (p_id p))]),
      (''  Topic: %s'', [PStr (topicToString (p_topic p))]),
      (''  Device Type: %d'', [PNum (ucast (p_devtype p))]),
      (''  Hop Count: %d'', [PNum (ucast (p_hops p))]),
      (''  CRC: 0x%04X'', [PNum (p_crc p)]),
      (''  Frame Counter: %d'', [PNum (p_fcounter p)]),
      (''  Last Hop: %s'', [hex_arg (id4_bytes (p_lastHop p))]),
      (''  Next Hop: %s'', [hex_arg (id4_bytes (p_nextHop p))]),
      (''  Reserved: %s'', [hex_arg (rsv3_bytes (p_reserved p))]),
      (''  Data Length: %d bytes'', [PNum (of_nat (length (p_data p)))])] @
     (if p_data p \<noteq> [] then [(''  Data: %s'', [hex_arg (p_data p)])] else [])"

definition packet_log :: "'p log_env \<Rightarrow> packet \<Rightarrow> 'p \<Rightarrow> 'p option" where
  "packet_log L p w = logdbg_lines L ''Packet.h'' (packet_dump p) w"

definition route_line :: "u32 \<Rightarrow> nat \<Rightarrow> route_entry \<Rightarrow> string \<times> printf_arg list" where
  "route_line now i r =
     (''Route %d: Dest=%s NextHop=%s Hops=%d RSSI=%d Age=%lums'',
      [PNum (of_nat i), hex_arg (id4_bytes (re_destId r)), hex_arg (id4_bytes (re_nextHopId r)), PNum (ucast (re_hops r)),
       PNum (scast (re_rssi r)), PNum (now - re_lastSeen r)])"

fun routes_from :: "'p log_env \<Rightarrow> u32 \<Rightarrow> nat \<Rightarrow> route_entry list \<Rightarrow> 'p \<Rightarrow> 'p option" where
  "routes_from L now i [] w = Some w"
| "routes_from L now i (r # rs) w = do {
     w1 \<leftarrow> (if re_active r then case route_line now i r of (format, args) \<Rightarrow> loginfo L True ''RoutingTable.cpp'' format args w
            else Some w);
     routes_from L now (i + 1) rs w1 }"

definition printRoutes :: "'p log_env \<Rightarrow> u32 \<Rightarrow> route_entry list \<Rightarrow> 'p \<Rightarrow> 'p option" where
  "printRoutes L now routes w = do {
     w1 \<leftarrow> loginfo L True ''RoutingTable.cpp'' ''Current Routes:'' [] w;
     routes_from L now 0 routes w1 }"

text \<open>The generation of the device's keys with its log lines.\<close>

definition seed_format :: string where
  "seed_format = ''Generating deterministic key with chipID-based seed: 0x%08X''"

definition generateDeterministicKey_log :: "'p log_env \<Rightarrow> 64 word option \<Rightarrow> nat \<Rightarrow> 'p \<Rightarrow> (bytes \<times> 'p) option" where
  "generateDeterministicKey_log L chip keySize w = do {
     w1 \<leftarrow> logdbg L True ''KeyManager.cpp'' seed_format [PNum (key_seed chip)] w;
     Some (generateDeterministicKey chip keySize, w1) }"

definition generateKeyPair_log :: "'p log_env \<Rightarrow> crypto_lib \<Rightarrow> 64 word option \<Rightarrow> 'p \<Rightarrow> ((rc + bytes \<times> bytes) \<times> 'p) option" where
  "generateKeyPair_log L lib chip w = do {
     (privateKey, w1) \<leftarrow> generateDeterministicKey_log L chip 32 w;
     case cl_curve_base lib privateKey of
       None \<Rightarrow> do {
         w2 \<leftarrow> logerr L True (''KeyManager.cpp'', 49) ''Failed to generate Curve25519 public key from private key'' [] w1;
         Some (Inl RM_E_CRYPTO_SETUP, w2) }
     | Some publicKey \<Rightarrow> do {
         w2 \<leftarrow> logdbg L True ''KeyManager.cpp'' ''Generated deterministic Curve25519 key pair based on ESP32 chipID'' [] w1;
         Some (Inr (publicKey, privateKey), w2) } }"

section \<open>What a log statement prints\<close>

text \<open>The port takes all it is given: \<open>text\<close> is what it has put out so far.\<close>

definition prints_all :: "'p log_env \<Rightarrow> ('p \<Rightarrow> string) \<Rightarrow> bool" where
  "prints_all L text \<longleftrightarrow> (\<forall>t w. text (snd (le_write L t w)) = text w @ t)"

text \<open>A text that does not fit the small buffer is dropped when the heap has no room for it.\<close>

definition shown :: "'p log_env \<Rightarrow> string \<Rightarrow> string" where
  "shown L t = (if length t \<le> 63 \<or> le_alloc L (word_of_nat (length t) + 1) then t else [])"

lemma shown_short [simp]: "length t \<le> 63 \<Longrightarrow> shown L t = t"
  by (simp add: shown_def)

lemma text_length:
  assumes "length (t :: string) < 2 ^ 31"
  shows "unat (word_of_nat (length t) :: u32) = length t" "unat (word_of_nat (length t) + 1 :: u32) = length t + 1"
proof -
  show 1: "unat (word_of_nat (length t) :: u32) = length t" using assms by (simp add: unat_of_nat)
  have "unat (word_of_nat (length t) + 1 :: u32) = unat (word_of_nat (length t + 1) :: u32)" by (simp add: add.commute)
  also have "\<dots> = length t + 1" using assms by (simp add: unat_of_nat del: of_nat_Suc of_nat_add)
  finally show "unat (word_of_nat (length t) + 1 :: u32) = length t + 1" .
qed

lemma rmPrintf_shown:
  assumes "printf format args = Some t" and "length t < 2 ^ 31"
  shows "rmPrintf L format args w = Some (if shown L t = t then le_write L t w else (0, w))"
proof -
  note len = text_length [OF assms(2)]
  have "(word_of_nat (length t) :: u32) > 63 \<longleftrightarrow> length t > 63" using len(1) by (simp add: word_less_nat_alt)
  then show ?thesis using assms len by (auto simp: rmPrintf_def vsnprintf_def Let_def shown_def)
qed

lemma rmPrintf_text:
  assumes "prints_all L text" and "printf format args = Some t" and "length t < 2 ^ 31"
  shows "\<exists>n w'. rmPrintf L format args w = Some (n, w') \<and> text w' = text w @ shown L t"
proof -
  obtain n w' where "le_write L t w = (n, w')" by (metis surj_pair)
  moreover from this have "text w' = text w @ t" using assms(1) unfolding prints_all_def by (metis snd_conv)
  ultimately show ?thesis using rmPrintf_shown [OF assms(2,3), of L w] by (auto simp: shown_def)
qed

lemma prints_text:
  assumes "prints_all L text"
  shows "list_all2 (\<lambda>(f, a) t. printf f a = Some t \<and> length t < 2 ^ 31) calls ts \<Longrightarrow>
    \<exists>w'. prints L calls w = Some w' \<and> text w' = text w @ concat (map (shown L) ts)"
proof (induction calls ts arbitrary: w rule: list_all2_induct)
  case (Cons c calls t ts)
  obtain f a where c: "c = (f, a)" by (cases c)
  with Cons.hyps obtain n w1 where "rmPrintf L f a w = Some (n, w1)" "text w1 = text w @ shown L t"
    using rmPrintf_text [OF assms, of f a t w] by auto
  with c Cons.IH [of w1] show ?case by auto
qed simp


lemma printf_parts:
  "printf ''[E]'' [] = Some ''[E]''" "printf ''[W]'' [] = Some ''[W]''" "printf ''[I]'' [] = Some ''[I]''"
  "printf ''[D]'' [] = Some ''[D]''" "printf ''[T]'' [] = Some ''[T]''" "printf newline [] = Some newline"
  "printf ''[%s] '' [PStr f] = Some (''['' @ c_str f @ ''] '')"
  "printf ''[** %s : %d] '' [PStr f, PNum n] = Some (''[** '' @ c_str f @ '' : '' @ format_d (sint n) @ ''] '')"
  "printf ''[%s : %d] '' [PStr f, PNum n] = Some (''['' @ c_str f @ '' : '' @ format_d (sint n) @ ''] '')"
  by (simp_all add: parse_spec_def Let_def pad_def dec_value_def)

lemma length_line_number: "length (format_d (sint (n :: u32))) \<le> 11"
proof -
  have "sint n < 2 ^ 31" "- (2 ^ 31) \<le> sint n" using sint_lt [of n] sint_ge [of n] by simp_all
  moreover from this have "nat (sint n) < 10 ^ Suc 9" "nat (- sint n) < 10 ^ Suc 9" by auto
  ultimately have "length (dec_string (nat (sint n))) \<le> Suc 9" "length (dec_string (nat (- sint n))) \<le> Suc 9"
    using length_dec_string by blast+
  then show ?thesis by (simp add: format_d_def)
qed

lemma file_name_plain: "CHR 0x00 \<notin> set path \<Longrightarrow> c_str (file_name path) = file_name path"
  by (rule c_str_plain) (auto simp: file_name_def dest: set_takeWhileD)


declare printf.simps [simp del] prints.simps [simp del]

lemma line_text:
  assumes "prints_all L text" and "printf tag [] = Some tag" "printf pf pargs = Some pre" "length tag \<le> 63" "length pre \<le> 63"
    and "printf format args = Some msg" "length msg < 2 ^ 31"
  shows "\<exists>w'. prints L ([(tag, []), (pf, pargs), (format, args)] @ [(newline, [])]) w = Some w' \<and>
    text w' = text w @ tag @ pre @ shown L msg @ newline"
  using prints_text [OF assms(1), of "[(tag, []), (pf, pargs), (format, args)] @ [(newline, [])]" "[tag, pre, msg, newline]" w] assms(2-7)
  by (simp add: printf_parts(6))

text \<open>The line of each level.\<close>

lemma error_line_text:
  assumes "prints_all L text" and "printf format args = Some msg" "length msg < 2 ^ 31"
    and "CHR 0x00 \<notin> set path" "length (file_name path) \<le> 43"
  shows "\<exists>w'. logerr L True (path, line) format args w = Some w' \<and> text w' = text w @ (if macro_defined L ''LOG_ERROR''
      then ''[E][** '' @ file_name path @ '' : '' @ format_d (sint line) @ ''] '' @ shown L msg @ newline else [])"
    and "\<exists>w'. logwarn L True (path, line) format args w = Some w' \<and> text w' = text w @ (if macro_defined L ''LOG_WARN''
      then ''[W]['' @ file_name path @ '' : '' @ format_d (sint line) @ ''] '' @ shown L msg @ newline else [])"
proof -
  let ?f = "file_name path"
  note n = length_line_number [of line]
  have pre: "printf ''[** %s : %d] '' [PStr ?f, PNum line] = Some (''[** '' @ ?f @ '' : '' @ format_d (sint line) @ ''] '')"
      "printf ''[%s : %d] '' [PStr ?f, PNum line] = Some (''['' @ ?f @ '' : '' @ format_d (sint line) @ ''] '')"
    using printf_parts(8,9) file_name_plain [OF assms(4)] by metis+
  note l = line_text [OF assms(1) _ _ _ _ assms(2,3), of _ _ _ _ w]
  show "\<exists>w'. logerr L True (path, line) format args w = Some w' \<and> text w' = text w @ (if macro_defined L ''LOG_ERROR''
      then ''[E][** '' @ file_name path @ '' : '' @ format_d (sint line) @ ''] '' @ shown L msg @ newline else [])"
    using l [OF printf_parts(1) pre(1)] assms(5) n by (simp add: logerr_def)
  show "\<exists>w'. logwarn L True (path, line) format args w = Some w' \<and> text w' = text w @ (if macro_defined L ''LOG_WARN''
      then ''[W]['' @ file_name path @ '' : '' @ format_d (sint line) @ ''] '' @ shown L msg @ newline else [])"
    using l [OF printf_parts(2) pre(2)] assms(5) n by (simp add: logwarn_def)
qed

lemma info_line_text:
  assumes "prints_all L text" and "printf format args = Some msg" "length msg < 2 ^ 31"
    and "CHR 0x00 \<notin> set path" "length (file_name path) \<le> 43"
  shows "\<exists>w'. loginfo L True path format args w = Some w' \<and> text w' = text w @ (if macro_defined L ''LOG_INFO''
      then ''[I]['' @ file_name path @ ''] '' @ shown L msg @ newline else [])"
    and "\<exists>w'. logdbg L True path format args w = Some w' \<and> text w' = text w @ (if macro_defined L ''LOG_DEBUG''
      then ''[D]['' @ file_name path @ ''] '' @ shown L msg @ newline else [])"
    and "\<exists>w'. logtrace L True path format args w = Some w' \<and> text w' = text w @ (if macro_defined L ''LOG_TARCE''
      then ''[T]['' @ file_name path @ ''] '' @ shown L msg @ newline else [])"
proof -
  have pre: "printf ''[%s] '' [PStr (file_name path)] = Some (''['' @ file_name path @ ''] '')"
    using printf_parts(7) file_name_plain [OF assms(4)] by metis
  note l = line_text [OF assms(1) _ pre _ _ assms(2,3), of _ w]
  show "\<exists>w'. loginfo L True path format args w = Some w' \<and> text w' = text w @ (if macro_defined L ''LOG_INFO''
      then ''[I]['' @ file_name path @ ''] '' @ shown L msg @ newline else [])"
    using l [OF printf_parts(3)] assms(5) by (simp add: loginfo_def)
  show "\<exists>w'. logdbg L True path format args w = Some w' \<and> text w' = text w @ (if macro_defined L ''LOG_DEBUG''
      then ''[D]['' @ file_name path @ ''] '' @ shown L msg @ newline else [])"
    using l [OF printf_parts(4)] assms(5) by (simp add: logdbg_def)
  show "\<exists>w'. logtrace L True path format args w = Some w' \<and> text w' = text w @ (if macro_defined L ''LOG_TARCE''
      then ''[T]['' @ file_name path @ ''] '' @ shown L msg @ newline else [])"
    using l [OF printf_parts(5)] assms(5) by (simp add: logtrace_def)
qed

text \<open>A log line is printed whole, at the levels the build asks for. With a serial port that takes
  what it is given: a statement whose level is on adds exactly one line, with the level, the file, for
  errors and warnings the line number, and the text of the message whatever its length; only the
  message is missing if it has more than 63 characters and the heap has no room for it. A statement
  whose level is off adds nothing. No buffer is overrun.\<close>

theorem log_line_is_printed:
  assumes port: "prints_all L text" and msg: "printf format args = Some msg" "length msg < 2 ^ 31"
    and path: "CHR 0x00 \<notin> set path" "length (file_name path) \<le> 43"
  shows "\<exists>w1 w2 w3 w4 w5.
    logerr L True (path, line) format args w = Some w1 \<and> text w1 = text w @ (if macro_defined L ''LOG_ERROR''
      then ''[E][** '' @ file_name path @ '' : '' @ format_d (sint line) @ ''] '' @ shown L msg @ newline else []) \<and>
    logwarn L True (path, line) format args w = Some w2 \<and> text w2 = text w @ (if macro_defined L ''LOG_WARN''
      then ''[W]['' @ file_name path @ '' : '' @ format_d (sint line) @ ''] '' @ shown L msg @ newline else []) \<and>
    loginfo L True path format args w = Some w3 \<and> text w3 = text w @ (if macro_defined L ''LOG_INFO''
      then ''[I]['' @ file_name path @ ''] '' @ shown L msg @ newline else []) \<and>
    logdbg L True path format args w = Some w4 \<and> text w4 = text w @ (if macro_defined L ''LOG_DEBUG''
      then ''[D]['' @ file_name path @ ''] '' @ shown L msg @ newline else []) \<and>
    logtrace L True path format args w = Some w5 \<and> text w5 = text w @ (if macro_defined L ''LOG_TARCE''
      then ''[T]['' @ file_name path @ ''] '' @ shown L msg @ newline else [])"
  using error_line_text [OF assms] info_line_text [OF assms] by metis

text \<open>A port that collects what it is given, and an ESP32 with enough heap.\<close>

definition toy_log :: "string list \<Rightarrow> string log_env" where
  "toy_log flags = \<lparr>le_write = (\<lambda>t w. (word_of_nat (length t), w @ t)), le_alloc = (\<lambda>n. n \<le> 256), le_flags = flags\<rparr>"

lemma toy_log_prints: "prints_all (toy_log flags) (\<lambda>w. w)"
  by (simp add: prints_all_def toy_log_def)

theorem log_line_is_printed_witness:
  "let L = toy_log [''RM_LOG_INFO''] in
    logerr L True (''src/Device.cpp'', 49) ''Route %d via %s'' [PNum 3, PStr ''0A'' ] [] = Some (''[E][** Device.cpp : 49] Route 3 via 0A'' @ newline) \<and>
    loginfo L True ''src/Device.cpp'' ''Route %d via %s'' [PNum 3, PStr ''0A'' ] [] = Some (''[I][Device.cpp] Route 3 via 0A'' @ newline) \<and>
    logdbg L True ''src/Device.cpp'' ''Route %d via %s'' [PNum 3, PStr ''0A'' ] [] = Some []"
proof -
  let ?L = "toy_log [''RM_LOG_INFO'']" and ?t = "''Route 3 via 0A''"
  have d: "format_d 49 = ''49''" "format_d 3 = ''3''" by code_simp+
  have p: "printf ''Route %d via %s'' [PNum 3, PStr ''0A''] = Some ?t"
    by (simp add: printf.simps parse_spec_def Let_def pad_def dec_value_def d c_str_def)
  have f: "file_name ''src/Device.cpp'' = ''Device.cpp''" by (simp add: file_name_def)
  have l: "length ?t < 2 ^ 31" "CHR 0x00 \<notin> set ''src/Device.cpp''" "length (file_name ''src/Device.cpp'') \<le> 43" "shown ?L ?t = ?t"
    by (simp_all add: f)
  have m: "macro_defined ?L ''LOG_ERROR''" "macro_defined ?L ''LOG_INFO''" "\<not> macro_defined ?L ''LOG_DEBUG''"
    by (simp_all add: macro_defined_def level_macros_def toy_log_def)
  show ?thesis
    using log_line_is_printed [OF toy_log_prints [of "[''RM_LOG_INFO'']"] p l(1-3), where w = "[]" and line = 49] l(4) m d(1) f by (simp add: Let_def)
qed

text \<open>The levels by the option of the build. A trace line is not printed whatever the option.\<close>

lemma levels_of_build:
  "le_flags L = [''RM_LOG_VERBOSE''] \<Longrightarrow> macro_defined L ''LOG_DEBUG'' \<and> macro_defined L ''LOG_TRACE''"
  "le_flags L = [''RM_LOG_DEBUG''] \<Longrightarrow> macro_defined L ''LOG_DEBUG'' \<and> \<not> macro_defined L ''LOG_TRACE''"
  "le_flags L = [''RM_LOG_INFO''] \<Longrightarrow> macro_defined L ''LOG_INFO'' \<and> \<not> macro_defined L ''LOG_DEBUG''"
  "le_flags L = [''RM_LOG_CRITICAL''] \<Longrightarrow> macro_defined L ''LOG_WARN'' \<and> macro_defined L ''LOG_ERROR'' \<and> \<not> macro_defined L ''LOG_INFO''"
  by (simp_all add: macro_defined_def level_macros_def)

lemma trace_is_never_printed:
  "set (le_flags L) \<subseteq> {''RM_LOG_VERBOSE'', ''RM_LOG_DEBUG'', ''RM_LOG_INFO'', ''RM_LOG_CRITICAL''} \<Longrightarrow>
     logtrace L ln path format args w = Some w"
  by (auto simp: logtrace_def macro_defined_def level_macros_def)

section \<open>Reading a log\<close>

definition hex_digit_value :: "char \<Rightarrow> nat" where
  "hex_digit_value c = (if is_digit c then of_char c - 48 else of_char c - 55)"

definition hex_value :: "string \<Rightarrow> nat" where
  "hex_value s = foldl (\<lambda>v c. 16 * v + hex_digit_value c) 0 s"

lemma hex_digit_value_digit: "n < 16 \<Longrightarrow> hex_digit_value (hex_digits ! n) = n"
proof -
  have "\<forall>n \<in> set [0..<16]. hex_digit_value (hex_digits ! n) = n"
    by (simp add: hex_digits_def hex_digit_value_def upt_rec)
  then show "n < 16 \<Longrightarrow> ?thesis" by simp
qed

lemma hex_value_hex_string: "hex_value (hex_string n) = n"
proof (induction n rule: hex_string.induct)
  case (1 n)
  then show ?case by (cases "n < 16") (simp_all add: hex_string.simps [of n] hex_value_def hex_digit_value_digit)
qed

lemma hex_value_zeros: "hex_value (replicate k CHR ''0'' @ s) = hex_value s"
  by (induction k) (simp_all add: hex_value_def hex_digit_value_def)

lemma length_hex_string: "length (hex_string n) \<le> Suc k \<longleftrightarrow> n < 16 ^ Suc k"
proof (induction k arbitrary: n)
  case 0
  then show ?case by (subst hex_string.simps) (auto simp: hex_string.simps [of "n div 16"])
next
  case (Suc k)
  show ?case
  proof (cases "n < 16")
    case True
    then have "n < 16 ^ Suc (Suc k)" by (rule less_le_trans) simp
    then show ?thesis using True by (simp add: hex_string.simps [of n])
  next
    case False
    then have "length (hex_string n) \<le> Suc (Suc k) \<longleftrightarrow> length (hex_string (n div 16)) \<le> Suc k"
      by (simp add: hex_string.simps [of n])
    also have "\<dots> \<longleftrightarrow> n div 16 < 16 ^ Suc k" by (rule Suc.IH)
    also have "\<dots> \<longleftrightarrow> n < 16 ^ Suc (Suc k)" by (simp add: div_less_iff_less_mult mult.commute)
    finally show ?thesis .
  qed
qed

text \<open>\<open>%08X\<close>\<close>

lemma hex8: "length (pad True 8 (hex_string (unat (v :: u32)))) = 8" "hex_value (pad True 8 (hex_string (unat v))) = unat v"
proof -
  have "unat v < 16 ^ Suc 7" using unsigned_less [of v] by simp
  then have "length (hex_string (unat v)) \<le> Suc 7" using length_hex_string by blast
  then show "length (pad True 8 (hex_string (unat v))) = 8" by (simp add: pad_def)
  show "hex_value (pad True 8 (hex_string (unat v))) = unat v" by (simp add: pad_def hex_value_zeros hex_value_hex_string)
qed

text \<open>A reader of the log: the eight digits behind the seed's mark, and the key that the generator makes
  of this seed.\<close>

fun seed_from_log :: "string \<Rightarrow> u32 option" where
  "seed_from_log [] = None"
| "seed_from_log (c # cs) =
     (if take 8 (c # cs) = ''seed: 0x'' then Some (word_of_nat (hex_value (take 8 (drop 8 (c # cs))))) else seed_from_log cs)"

definition key_from_log :: "string \<Rightarrow> bytes option" where
  "key_from_log txt = map_option (\<lambda>seed. clamp_key (lcg_bytes 32 seed)) (seed_from_log txt)"

lemma seed_format_text: "printf seed_format [PNum v] =
    Some (''Generating deterministic key with chipID-based seed: 0x'' @ pad True 8 (hex_string (unat v)))"
  by (simp add: seed_format_def printf.simps parse_spec_def Let_def dec_value_def)

lemma seed_from_line:
  "seed_from_log (''[D][KeyManager.cpp] Generating deterministic key with chipID-based seed: 0x''
     @ pad True 8 (hex_string (unat v)) @ rest) = Some v"
  using hex8 [of v] by simp

text \<open>C39: A debug build tells the device's private key. With the debug level on, the first line that the
  generation of the key pair prints lets every reader of the serial port compute the private key:
  what the line shows is the seed, and the seed is all that the key depends on. The line fits the small
  buffer, so no lack of memory suppresses it; the keys that are returned are those of a silent build.\<close>

theorem debug_log_tells_private_key:
  assumes port: "prints_all L text" and debug: "macro_defined L ''LOG_DEBUG''"
  shows "\<exists>w' t. generateKeyPair_log L lib chip w = Some (generateKeyPair lib chip, w') \<and> text w' = text w @ t \<and>
    (\<forall>pub priv. generateKeyPair lib chip = Inr (pub, priv) \<longrightarrow> key_from_log t = Some priv)"
proof -
  let ?msg = "''Generating deterministic key with chipID-based seed: 0x'' @ pad True 8 (hex_string (unat (key_seed chip)))"
  have msg: "length ?msg = 63" "printf seed_format [PNum (key_seed chip)] = Some ?msg"
    using hex8(1) [of "key_seed chip"] seed_format_text by simp_all
  have sh: "shown L ?msg = ?msg" by (rule shown_short) (simp only: msg)
  have f: "file_name ''KeyManager.cpp'' = ''KeyManager.cpp''" by (simp add: file_name_def)
  obtain w1 where 1: "logdbg L True ''KeyManager.cpp'' seed_format [PNum (key_seed chip)] w = Some w1"
      "text w1 = text w @ ''[D]['' @ ''KeyManager.cpp'' @ ''] '' @ ?msg @ newline"
    using info_line_text(2) [OF port msg(2), of "''KeyManager.cpp''" w] msg(1) debug f sh by auto
  let ?pairs = "generateKeyPair lib chip"
  obtain w2 t where 2: "generateKeyPair_log L lib chip w = Some (?pairs, w2)" "text w2 = text w1 @ t"
  proof (cases "cl_curve_base lib (generateDeterministicKey chip 32)")
    case None
    let ?e = "''Failed to generate Curve25519 public key from private key''"
    have "printf ?e [] = Some ?e" by (simp add: printf.simps)
    then obtain w2 t where "logerr L True (''KeyManager.cpp'', 49) ?e [] w1 = Some w2" "text w2 = text w1 @ t"
      using error_line_text(1) [OF port, of ?e "[]" ?e "''KeyManager.cpp''" 49 w1] f by auto
    then show thesis using that None 1(1) by (simp add: generateKeyPair_log_def generateDeterministicKey_log_def generateKeyPair_def Let_def)
  next
    case (Some pub)
    let ?e = "''Generated deterministic Curve25519 key pair based on ESP32 chipID''"
    have "printf ?e [] = Some ?e" by (simp add: printf.simps)
    then obtain w2 t where "logdbg L True ''KeyManager.cpp'' ?e [] w1 = Some w2" "text w2 = text w1 @ t"
      using info_line_text(2) [OF port, of ?e "[]" ?e "''KeyManager.cpp''" w1] f by auto
    then show thesis using that Some 1(1) by (simp add: generateKeyPair_log_def generateDeterministicKey_log_def generateKeyPair_def Let_def)
  qed
  have "key_from_log (''[D]['' @ ''KeyManager.cpp'' @ ''] '' @ ?msg @ newline @ t) = Some (generateDeterministicKey chip 32)"
    using seed_from_line [of "key_seed chip" "newline @ t"] by (simp add: key_from_log_def generateDeterministicKey_def Let_def)
  moreover have "text w2 = text w @ (''[D]['' @ ''KeyManager.cpp'' @ ''] '' @ ?msg @ newline @ t)" using 1(2) 2(2) by simp
  moreover have "generateKeyPair lib chip = Inr (pub, priv) \<Longrightarrow> priv = generateDeterministicKey chip 32" for pub priv
    by (auto simp: generateKeyPair_def Let_def split: option.splits)
  ultimately show ?thesis using 2(1) by blast
qed

theorem debug_log_tells_private_key_witness:
  "\<exists>w'. generateKeyPair_log (toy_log [''RM_LOG_DEBUG'']) toy_lib (Some 0x1234) [] = Some (generateKeyPair toy_lib (Some 0x1234), w') \<and>
    key_from_log w' = Some (generateDeterministicKey (Some 0x1234) 32)"
proof -
  have m: "macro_defined (toy_log [''RM_LOG_DEBUG'']) ''LOG_DEBUG''" by (simp add: macro_defined_def level_macros_def toy_log_def)
  have k: "generateKeyPair toy_lib c = Inr (generateDeterministicKey c 32, generateDeterministicKey c 32)" for c
    by (simp add: generateKeyPair_def toy_lib_def Let_def)
  show ?thesis using debug_log_tells_private_key [OF toy_log_prints m, of toy_lib "Some 0x1234" "[]"] k by auto
qed

section \<open>The dumps\<close>

text \<open>Every format of the dumps fits its arguments, and every line has a bounded length: a dump is
  printed to its end, whatever the packet and the table.\<close>

lemma length_hex_bytes: "length (concat (map hex2 bs)) = 2 * length bs"
  by (induction bs) (simp_all add: hex2_def)

lemma length_c_str: "length (c_str s) \<le> length s"
  by (simp add: c_str_def length_takeWhile_le)

lemma length_hex_id: "length (c_str (concat (map hex2 (id4_bytes i)))) \<le> 8" "length (c_str (concat (map hex2 (rsv3_bytes r)))) \<le> 6"
  "length (c_str (concat (map hex2 bs))) \<le> 2 * length bs"
  using length_c_str [of "concat (map hex2 (id4_bytes i))"] length_c_str [of "concat (map hex2 (rsv3_bytes r))"]
    length_c_str [of "concat (map hex2 bs)"] by (simp_all add: length_hex_bytes)

lemma length_topic: "length (c_str (topicToString t)) \<le> 16"
proof -
  have "unat t < 2 ^ LENGTH(8)" by (rule unsigned_less)
  then have "unat t < 10 ^ Suc 2" by simp
  then have "length (dec_string (unat t)) \<le> Suc 2" using length_dec_string by blast
  then have "length (topicToString t) \<le> 16" by (simp add: topicToString_def)
  then show ?thesis using length_c_str [of "topicToString t"] by simp
qed

lemma packet_dump_fits:
  assumes "call \<in> set (packet_dump p)"
  shows "\<exists>t. printf (fst call) (snd call) = Some t \<and> length t \<le> 60 + 2 * length (p_data p)"
proof -
  have x: "4 - length (hex_string (unat (p_crc p))) + length (hex_string (unat (p_crc p))) \<le> 8"
    using hex8(1) [of "p_crc p"] by (simp add: pad_def split: nat_diff_split)
  note n = order_trans [OF length_line_number] order_trans [OF length_hex_id(1)] order_trans [OF length_hex_id(2)]
    order_trans [OF length_hex_id(3)] order_trans [OF length_topic] order_trans [OF x]
  show ?thesis
    using assms by (auto simp: packet_dump_def hex_arg_def printf.simps parse_spec_def Let_def dec_value_def pad_def
        intro!: n split: if_splits)
qed

lemma logdbg_lines_return:
  assumes "\<And>call. call \<in> set calls \<Longrightarrow> \<exists>t. printf (fst call) (snd call) = Some t \<and> length t < 2 ^ 31"
    and "CHR 0x00 \<notin> set path" "length (file_name path) \<le> 43" and "prints_all L text"
  shows "\<exists>w'. logdbg_lines L path calls w = Some w'"
  using assms(1)
proof (induction calls arbitrary: w)
  case (Cons call calls)
  from Cons.prems [of call] obtain t where t: "printf (fst call) (snd call) = Some t" "length t < 2 ^ 31" by fastforce
  obtain w1 where "logdbg L True path (fst call) (snd call) w = Some w1"
    using info_line_text(2) [OF assms(4) t assms(2,3), of w] by blast
  with Cons.IH [of w1] Cons.prems show ?case by (cases call) auto
qed simp

lemma packet_log_returns:
  assumes "prints_all L text" and "length (p_data p) < 2 ^ 29"
  shows "\<exists>w'. packet_log L p w = Some w'"
  unfolding packet_log_def
proof (rule logdbg_lines_return [OF _ _ _ assms(1)])
  fix call assume "call \<in> set (packet_dump p)"
  then obtain t where "printf (fst call) (snd call) = Some t" "length t \<le> 60 + 2 * length (p_data p)" using packet_dump_fits by blast
  with assms(2) show "\<exists>t. printf (fst call) (snd call) = Some t \<and> length t < 2 ^ 31" by simp
qed (simp_all add: file_name_def)

lemma route_line_fits: "\<exists>t. printf (fst (route_line now i r)) (snd (route_line now i r)) = Some t \<and> length t < 2 ^ 31"
proof -
  have u: "length (dec_string (unat (v :: u32))) \<le> 10" for v
  proof -
    have "unat v < 2 ^ LENGTH(32)" by (rule unsigned_less)
    then have "unat v < 10 ^ Suc 9" by simp
    then show ?thesis using length_dec_string [of "unat v" 9] by simp
  qed
  show ?thesis
    using length_line_number [of "of_nat i"] length_line_number [of "ucast (re_hops r)"] length_line_number [of "scast (re_rssi r)"]
      length_hex_id(1) [of "re_destId r"] length_hex_id(1) [of "re_nextHopId r"] u [of "now - re_lastSeen r"]
    by (simp add: route_line_def hex_arg_def printf.simps parse_spec_def Let_def dec_value_def pad_def)
qed

lemma printRoutes_returns:
  assumes "prints_all L text"
  shows "\<exists>w'. printRoutes L now routes w = Some w'"
proof -
  have "\<exists>w'. routes_from L now i routes w = Some w'" for i w
  proof (induction routes arbitrary: i w)
    case (Cons r rs)
    obtain t where t: "printf (fst (route_line now i r)) (snd (route_line now i r)) = Some t" "length t < 2 ^ 31"
      using route_line_fits by blast
    obtain w1 where "loginfo L True ''RoutingTable.cpp'' (fst (route_line now i r)) (snd (route_line now i r)) w = Some w1"
      using info_line_text(1) [OF assms t, of "''RoutingTable.cpp''" w] by (auto simp: file_name_def)
    with Cons.IH show ?case by (simp add: case_prod_beta)
  qed simp
  moreover obtain w1 where "loginfo L True ''RoutingTable.cpp'' ''Current Routes:'' [] w = Some w1"
    using info_line_text(1) [OF assms, of "''Current Routes:''" "[]" "''Current Routes:''" "''RoutingTable.cpp''" w]
    by (auto simp: file_name_def printf.simps)
  ultimately show ?thesis by (simp add: printRoutes_def)
qed

end
