(* ===== verification/RM_Console.thy ===== *)
theory RM_Console
  imports RM_Logger RM_MiniHub RM_StandardDevice
begin

text \<open>
  The status lines of the examples: \<open>displayStatus\<close> of the hub (\<open>MiniHub.ino\<close>), \<open>printStatus\<close> and the packet
  callback of the standard device (\<open>StandardDevice.ino\<close>), which only write to the log
  (\<open>RM_Logger\<close>). \<open>None\<close> is a null device or a format that does not fit.
\<close>

section \<open>Definitions\<close>

definition displayStatus :: "'p log_env \<Rightarrow> ('s, 'w) hub_app \<Rightarrow> 'p \<Rightarrow> 'p option" where
  "displayStatus L a w =
     (case appState a of
        INITIALIZING \<Rightarrow> loginfo L True ''MiniHub.ino'' ''Status: Initializing...'' [] w
      | READY \<Rightarrow> do {
          d \<leftarrow> ha_device a;
          txt \<leftarrow> printf ''%02X%02X%02X%02X'' (map (\<lambda>b. PNum (ucast b)) (id4_bytes (d_id d)));
          let deviceIdStr = fst (vsnprintf 16 txt);
          loginfo L True ''MiniHub.ino'' ''Status: Hub Ready - Device ID: %s, Connected Devices: %d''
            [PStr deviceIdStr, PNum (word_of_nat (length (connectedDevicesMap a)))] w }
      | INCLUSION_MODE_ACTIVE \<Rightarrow>
          loginfo L True ''MiniHub.ino'' ''Status: Inclusion Active - Requests: %d, Success: %d''
            [PNum (word_of_int (totalInclusionRequests a)), PNum (word_of_int (successfulInclusions a))] w
      | APP_ERROR \<Rightarrow> loginfo L True ''MiniHub.ino'' ''Status: ERROR - Check logs'' [] w)"

definition std_onPacketReceived :: "'p log_env \<Rightarrow> packet option \<Rightarrow> rc \<Rightarrow> 'p \<Rightarrow> 'p option" where
  "std_onPacketReceived L packet err w =
     (case packet of
        None \<Rightarrow> logerr L True (''StandardDevice.ino'', 83) ''RX Failed [%d]'' [PNum (word_of_int (rc_code err))] w
      | Some p \<Rightarrow>
          if err \<noteq> RM_E_NONE then logerr L True (''StandardDevice.ino'', 83) ''RX Failed [%d]'' [PNum (word_of_int (rc_code err))] w
          else if p_topic p = T_INCLUDE_OPEN then
            loginfo L True ''StandardDevice.ino'' ''Received INCLUDE_OPEN from hub'' [] w
          else if p_topic p = T_INCLUDE_RESPONSE then
            loginfo L True ''StandardDevice.ino'' ''Received INCLUDE_RESPONSE from hub'' [] w
          else if p_topic p = T_INCLUDE_SUCCESS then
            loginfo L True ''StandardDevice.ino'' ''Inclusion completed successfully! Device is now part of the network'' [] w
          else loginfo L True ''StandardDevice.ino'' ''Received application message, topic: 0x%02X'' [PNum (ucast (p_topic p))] w)"

definition status_line :: "std_state \<Rightarrow> int \<Rightarrow> string \<times> printf_arg list" where
  "status_line st v =
     (case st of
        SD_INITIALIZING \<Rightarrow> (''Status: Initializing device...'', [])
      | SD_NOT_INCLUDED \<Rightarrow> (''Status: Not included - listening for hub inclusion broadcasts'', [])
      | SD_INCLUSION_PENDING \<Rightarrow> (''Status: Inclusion in progress - automatic protocol handling'', [])
      | SD_INCLUDED \<Rightarrow>
          (''Status: Included in network - sending sensor data (last: %d'' @ [CHR 0xC2, CHR 0xB0] @ ''C)'', [PNum (word_of_int v)])
      | SD_ERROR \<Rightarrow> (''Status: ERROR - check device configuration'', []))"

text \<open>\<open>printStatus\<close> with its line; without it it is the \<open>printStatus\<close> of \<open>RM_StandardDevice\<close>.\<close>

definition printStatus_log :: "'p log_env \<Rightarrow> ('s, 'd) std_env \<Rightarrow> ('s, 'd) std_app \<Rightarrow> 'p \<Rightarrow> (('s, 'd) std_app \<times> 'p) option" where
  "printStatus_log L E a w =
     (if se_now E - sa_lastStatusUpdate a < SD_STATUS_UPDATE_INTERVAL then Some (a, w)
      else case status_line (sa_state a) (sensorValue a) of
        (format, args) \<Rightarrow> do {
          w1 \<leftarrow> loginfo L True ''StandardDevice.ino'' format args w;
          Some (a\<lparr>sa_lastStatusUpdate := se_now E\<rparr>, w1) })"

section \<open>What is printed\<close>

lemma hex2_by_format: "pad True 2 (hex_string (unat (ucast b :: u32))) = hex2 b"
proof -
  have "unat b < 2 ^ LENGTH(8)" by (rule unsigned_less)
  then have b: "unat b < 256" by simp
  then have u: "unat (ucast b :: u32) = unat b" by (simp add: unsigned_ucast_eq take_bit_nat_eq_self)
  have lt: "unat b div 16 < 16" using b by simp
  have m: "n AND 15 = n mod 16" for n :: nat
    using take_bit_eq_mask [of 4 n] by (simp add: mask_eq_exp_minus_1 take_bit_eq_mod)
  have hi: "unat (drop_bit 4 b AND 0x0F) = unat b div 16"
    using lt by (simp add: unsigned_and_eq m unat_drop_bit_eq drop_bit_eq_div [where 'a = nat])
  have lo: "unat (b AND 0x0F) = unat b mod 16"
    by (simp add: unsigned_and_eq m)
  have z: "hex_digits ! 0 = CHR ''0''" by (simp add: hex_digits_def)
  show ?thesis
    using lt by (simp add: u hex2_def hi lo hex_string.simps [of "unat b"] hex_string.simps [of "unat b div 16"] pad_def z)
qed

lemma hex2_no_NUL: "CHR 0x00 \<notin> set (hex2 b)"
proof -
  have "CHR 0x00 \<notin> set hex_digits" by (simp add: hex_digits_def)
  moreover have "hex_digits ! unat (v AND 0x0F) \<in> set hex_digits" for v :: byte
    using nibble_less [of v] by (intro nth_mem) (simp add: hex_digits_def)
  ultimately show ?thesis unfolding hex2_def by (metis empty_iff insert_iff list.set(1) list.simps(15))
qed

lemma hub_status_line:
  assumes port: "prints_all L text" and on: "macro_defined L ''LOG_INFO''" and room: "\<And>n. le_alloc L n"
    and dev: "ha_device a = Some d"
  shows "\<exists>w'. displayStatus L a w = Some w' \<and> text w' = text w @ ''[I][MiniHub.ino] Status: '' @
    (case appState a of
       INITIALIZING \<Rightarrow> ''Initializing...''
     | READY \<Rightarrow> ''Hub Ready - Device ID: '' @ hex_id (d_id d) @ '', Connected Devices: '' @
         format_d (sint (word_of_nat (length (connectedDevicesMap a)) :: u32))
     | INCLUSION_MODE_ACTIVE \<Rightarrow> ''Inclusion Active - Requests: '' @ format_d (sint (word_of_int (totalInclusionRequests a) :: u32)) @
         '', Success: '' @ format_d (sint (word_of_int (successfulInclusions a) :: u32))
     | APP_ERROR \<Rightarrow> ''ERROR - Check logs'') @ newline"
proof -
  have f: "CHR 0x00 \<notin> set ''MiniHub.ino''" "length (file_name ''MiniHub.ino'') \<le> 43" "file_name ''MiniHub.ino'' = ''MiniHub.ino''"
    by (simp_all add: file_name_def)
  have sh: "shown L t = t" for t by (simp add: shown_def room)
  have line: "\<exists>w'. loginfo L True ''MiniHub.ino'' format args w = Some w' \<and> text w' = text w @ ''[I][MiniHub.ino] '' @ t @ newline"
    if "printf format args = Some t" "length t < 2 ^ 31" for format args t
    using info_line_text(1) [OF port that f(1,2), of w] on sh f(3) by auto
  have id: "printf ''%02X%02X%02X%02X'' (map (\<lambda>b. PNum (ucast b)) (id4_bytes (d_id d))) = Some (hex_id (d_id d))"
    by (cases "d_id d") (simp add: printf.simps parse_spec_def Let_def dec_value_def hex2_by_format hex_id_def)
  show ?thesis
  proof (cases "appState a")
    case READY
    let ?i = "hex_id (d_id d)"
    have i: "fst (vsnprintf 16 ?i) = ?i" "c_str ?i = ?i" "length ?i = 8"
      by (simp_all add: hex_id_def length_hex_bytes vsnprintf_def c_str_plain hex2_no_NUL)
    let ?n = "word_of_nat (length (connectedDevicesMap a)) :: u32"
    have t: "printf ''Status: Hub Ready - Device ID: %s, Connected Devices: %d'' [PStr ?i, PNum ?n] =
        Some (''Status: Hub Ready - Device ID: '' @ ?i @ '', Connected Devices: '' @ format_d (sint ?n))"
      by (simp add: printf.simps parse_spec_def Let_def dec_value_def pad_def i(2))
    have len: "length (''Status: Hub Ready - Device ID: '' @ ?i @ '', Connected Devices: '' @ format_d (sint ?n)) < 2 ^ 31"
      using length_line_number [of ?n] i(3) by simp
    show ?thesis using READY dev id i(1) line [OF t len] by (simp add: displayStatus_def)
  next
    case INCLUSION_MODE_ACTIVE
    let ?r = "word_of_int (totalInclusionRequests a) :: u32" and ?s = "word_of_int (successfulInclusions a) :: u32"
    have t: "printf ''Status: Inclusion Active - Requests: %d, Success: %d'' [PNum ?r, PNum ?s] =
        Some (''Status: Inclusion Active - Requests: '' @ format_d (sint ?r) @ '', Success: '' @ format_d (sint ?s))"
      by (simp add: printf.simps parse_spec_def Let_def dec_value_def pad_def)
    have len: "length (''Status: Inclusion Active - Requests: '' @ format_d (sint ?r) @ '', Success: '' @ format_d (sint ?s)) < 2 ^ 31"
      using length_line_number [of ?r] length_line_number [of ?s] by simp
    show ?thesis using INCLUSION_MODE_ACTIVE line [OF t len] by (simp add: displayStatus_def)
  next
    case INITIALIZING
    then show ?thesis using line [of "''Status: Initializing...''" "[]"] by (simp add: displayStatus_def printf.simps)
  next
    case APP_ERROR
    then show ?thesis using line [of "''Status: ERROR - Check logs''" "[]"] by (simp add: displayStatus_def printf.simps)
  qed
qed

text \<open>\<open>printStatus\<close> with its log is \<open>printStatus\<close>, and it always returns.\<close>

lemma printStatus_log_state:
  assumes "prints_all L text"
  shows "\<exists>w'. printStatus_log L E a w = Some (printStatus E a, w')"
proof -
  obtain format args where f: "status_line (sa_state a) (sensorValue a) = (format, args)" by (metis surj_pair)
  have "\<exists>t. printf format args = Some t \<and> length t < 2 ^ 31"
    using f length_line_number [of "word_of_int (sensorValue a)"]
    by (auto simp: status_line_def printf.simps parse_spec_def Let_def dec_value_def pad_def split: std_state.splits)
  then obtain t where t: "printf format args = Some t" "length t < 2 ^ 31" by blast
  obtain w1 where "loginfo L True ''StandardDevice.ino'' format args w = Some w1"
    using info_line_text(1) [OF assms t, of "''StandardDevice.ino''" w] by (auto simp: file_name_def)
  then show ?thesis using f by (simp add: printStatus_log_def printStatus_def)
qed

lemma std_callback_returns:
  assumes "prints_all L text"
  shows "\<exists>w'. std_onPacketReceived L packet err w = Some w'"
proof -
  have f: "CHR 0x00 \<notin> set ''StandardDevice.ino''" "length (file_name ''StandardDevice.ino'') \<le> 43" by (simp_all add: file_name_def)
  have info: "\<exists>w'. loginfo L True ''StandardDevice.ino'' format args w = Some w'"
    if "printf format args = Some t" "length t < 2 ^ 31" for format args t
    using info_line_text(1) [OF assms that f, of w] by blast
  have e: "printf ''RX Failed [%d]'' [PNum v] = Some (''RX Failed ['' @ format_d (sint v) @ '']'')" for v
    by (simp add: printf.simps parse_spec_def Let_def dec_value_def pad_def)
  have err: "\<exists>w'. logerr L True (''StandardDevice.ino'', 83) ''RX Failed [%d]'' [PNum v] w = Some w'" for v
    using error_line_text(1) [OF assms e [of v] _ f, of 83 w] length_line_number [of v] by auto
  have h: "pad True 2 (hex_string (unat (ucast b :: u32))) = hex2 b" for b :: byte by (rule hex2_by_format)
  have d: "printf ''Received application message, topic: 0x%02X'' [PNum (ucast b)] =
      Some (''Received application message, topic: 0x'' @ hex2 b)" for b :: byte
    by (simp add: printf.simps parse_spec_def Let_def dec_value_def h)
  have other: "\<exists>w'. loginfo L True ''StandardDevice.ino'' ''Received application message, topic: 0x%02X'' [PNum (ucast b)] w = Some w'" for b :: byte
    by (rule info [OF d]) (simp add: hex2_def)
  show ?thesis using err other
    by (auto simp: std_onPacketReceived_def printf.simps split: option.split intro!: info)
qed

end
