(* ===== verification/RM_Timer.thy ===== *)
theory RM_Timer
  imports RM_Prelude
begin

text \<open>
  The timer library in the repository: \<open>src/lib/arduino-timer/src/arduino-timer.h\<close>, a table of tasks that the
  main loop polls. The time function, the handlers and the value \<open>T()\<close> of the handlers' argument are
  parameters: reading the clock may change the world \<open>'s\<close>, a handler may change the world and the
  timer itself, as it can call every operation of it. \<open>unsigned long\<close> has 32 bits.
\<close>

section \<open>Tasks\<close>

record ('h, 'o) timer_task =
  tk_handler :: "'h option"
  tk_opaque :: 'o
  tk_start :: u32
  tk_expires :: u32
  tk_repeat :: u32

type_synonym ('h, 'o) timer = "('h, 'o) timer_task list"

record ('h, 'o, 's) timer_env =
  te_time :: "'s \<Rightarrow> u32 \<times> 's"
  te_call :: "'h \<Rightarrow> 'o \<Rightarrow> ('h, 'o) timer \<times> 's \<Rightarrow> bool \<times> ('h, 'o) timer \<times> 's"
  te_none :: 'o

definition free_task :: "('h, 'o, 's) timer_env \<Rightarrow> ('h, 'o) timer_task" where
  "free_task E = \<lparr>tk_handler = None, tk_opaque = te_none E, tk_start = 0, tk_expires = 0, tk_repeat = 0\<rparr>"

text \<open>The constructor; \<open>tasks{}\<close> zeroes every field.\<close>

definition Timer :: "('h, 'o, 's) timer_env \<Rightarrow> nat \<Rightarrow> ('h, 'o) timer" where
  "Timer E max_tasks = replicate max_tasks (free_task E)"

definition timer_create_default :: "('h, 'o, 's) timer_env \<Rightarrow> ('h, 'o) timer" where
  "timer_create_default E = Timer E 0x10"

definition remove_task :: "('h, 'o, 's) timer_env \<Rightarrow> nat \<Rightarrow> ('h, 'o) timer \<Rightarrow> ('h, 'o) timer" where
  "remove_task E i ts = ts[i := free_task E]"

fun slot_from :: "nat \<Rightarrow> ('h, 'o) timer \<Rightarrow> nat option" where
  "slot_from i [] = None"
| "slot_from i (t # ts) = (if tk_handler t = None then Some i else slot_from (i + 1) ts)"

definition next_task_slot :: "('h, 'o) timer \<Rightarrow> nat option" where
  "next_task_slot ts = slot_from 0 ts"

text \<open>A task handle is the index of the slot, or no slot.\<close>

definition add_task :: "u32 \<Rightarrow> u32 \<Rightarrow> 'h option \<Rightarrow> 'o \<Rightarrow> bool \<Rightarrow> ('h, 'o) timer \<Rightarrow> nat option \<times> ('h, 'o) timer" where
  "add_task start expires h opaque repeat ts =
     (case next_task_slot ts of
        None \<Rightarrow> (None, ts)
      | Some i \<Rightarrow> (Some i, ts[i := \<lparr>tk_handler = h, tk_opaque = opaque, tk_start = start, tk_expires = expires,
          tk_repeat = of_bool repeat\<rparr>]))"

section \<open>Operations\<close>

definition timer_in :: "('h, 'o, 's) timer_env \<Rightarrow> u32 \<Rightarrow> 'h option \<Rightarrow> 'o \<Rightarrow> ('h, 'o) timer \<times> 's \<Rightarrow>
    nat option \<times> ('h, 'o) timer \<times> 's" where
  "timer_in E delay h opaque x =
     (let (ts, s) = x; (now, s1) = te_time E s; (task, ts1) = add_task now delay h opaque False ts in (task, ts1, s1))"

definition timer_at :: "('h, 'o, 's) timer_env \<Rightarrow> u32 \<Rightarrow> 'h option \<Rightarrow> 'o \<Rightarrow> ('h, 'o) timer \<times> 's \<Rightarrow>
    nat option \<times> ('h, 'o) timer \<times> 's" where
  "timer_at E time h opaque x =
     (let (ts, s) = x; (now, s1) = te_time E s; (task, ts1) = add_task now (time - now) h opaque False ts in (task, ts1, s1))"

text \<open>The interval is passed twice; the second time it becomes a \<open>bool\<close>.\<close>

definition timer_every :: "('h, 'o, 's) timer_env \<Rightarrow> u32 \<Rightarrow> 'h option \<Rightarrow> 'o \<Rightarrow> ('h, 'o) timer \<times> 's \<Rightarrow>
    nat option \<times> ('h, 'o) timer \<times> 's" where
  "timer_every E interval h opaque x =
     (let (ts, s) = x; (now, s1) = te_time E s; (task, ts1) = add_task now interval h opaque (interval \<noteq> 0) ts in (task, ts1, s1))"

text \<open>The handle is passed by reference.\<close>

definition timer_cancel :: "('h, 'o, 's) timer_env \<Rightarrow> nat option \<Rightarrow> ('h, 'o) timer \<Rightarrow> bool \<times> nat option \<times> ('h, 'o) timer" where
  "timer_cancel E task ts =
     (case task of
        None \<Rightarrow> (False, task, ts)
      | Some i \<Rightarrow> if i < length ts \<and> tk_handler (ts ! i) \<noteq> None then (True, None, remove_task E i ts) else (False, task, ts))"

definition timer_cancel_all :: "('h, 'o, 's) timer_env \<Rightarrow> ('h, 'o) timer \<Rightarrow> ('h, 'o) timer" where
  "timer_cancel_all E ts = foldl (\<lambda>ts i. remove_task E i ts) ts [0..<length ts]"

text \<open>One pass over the slots. The field \<open>repeat\<close> is read after the handler has returned, in the same
  slot, whatever the handler put there.\<close>

definition tick_slot :: "('h, 'o, 's) timer_env \<Rightarrow> nat \<Rightarrow> ('h, 'o) timer \<times> 's \<Rightarrow> ('h, 'o) timer \<times> 's" where
  "tick_slot E i x =
     (let (ts, s) = x; task = ts ! i in
      case tk_handler task of
        None \<Rightarrow> (ts, s)
      | Some h \<Rightarrow>
          let (t, s1) = te_time E s; duration = t - tk_start task in
          if duration \<ge> tk_expires task then
            let (again, ts1, s2) = te_call E h (tk_opaque task) (ts, s1);
                rep = of_bool (again \<and> tk_repeat (ts1 ! i) \<noteq> 0) in
            if rep \<noteq> (0 :: u32) then (ts1[i := (ts1 ! i)\<lparr>tk_repeat := rep, tk_start := t\<rparr>], s2)
            else (remove_task E i ts1, s2)
          else (ts, s1))"

definition tick_void :: "('h, 'o, 's) timer_env \<Rightarrow> ('h, 'o) timer \<times> 's \<Rightarrow> ('h, 'o) timer \<times> 's" where
  "tick_void E x = foldl (\<lambda>x i. tick_slot E i x) x [0..<length (fst x)]"

text \<open>The loop of \<open>ticks\<close>, which a task that is due ends.\<close>

fun ticks_loop :: "('h, 'o, 's) timer_env \<Rightarrow> ('h, 'o) timer \<Rightarrow> u32 \<Rightarrow> 's \<Rightarrow> u32 \<times> 's" where
  "ticks_loop E [] ticks s = (ticks, s)"
| "ticks_loop E (task # ts) ticks s =
     (case tk_handler task of
        None \<Rightarrow> ticks_loop E ts ticks s
      | Some h \<Rightarrow>
          let (t, s1) = te_time E s; duration = t - tk_start task in
          if duration \<ge> tk_expires task then (0, s1)
          else let remaining = tk_expires task - duration in
            ticks_loop E ts (if remaining < ticks then remaining else ticks) s1)"

definition timer_ticks :: "('h, 'o, 's) timer_env \<Rightarrow> ('h, 'o) timer \<Rightarrow> 's \<Rightarrow> u32 \<times> 's" where
  "timer_ticks E ts s =
     (let (start, s1) = te_time E s; (ticks, s2) = ticks_loop E ts (- 1) s1; (t, s3) = te_time E s2; elapsed = t - start in
      (if elapsed \<ge> ticks \<or> ticks = - 1 then 0 else ticks - elapsed, s3))"

definition timer_tick :: "('h, 'o, 's) timer_env \<Rightarrow> ('h, 'o) timer \<times> 's \<Rightarrow> u32 \<times> ('h, 'o) timer \<times> 's" where
  "timer_tick E x = (let (ts, s) = tick_void E x; (n, s1) = timer_ticks E ts s in (n, ts, s1))"

definition timer_size :: "('h, 'o) timer \<Rightarrow> nat" where
  "timer_size ts = foldl (\<lambda>s t. if tk_handler t \<noteq> None then s + 1 else s) 0 ts"

definition timer_empty :: "('h, 'o) timer \<Rightarrow> bool" where
  "timer_empty ts \<longleftrightarrow> \<not> list_ex (\<lambda>t. tk_handler t \<noteq> None) ts"

section \<open>The table\<close>

abbreviation (input) active :: "('h, 'o) timer_task \<Rightarrow> bool" where "active t \<equiv> tk_handler t \<noteq> None"

lemma slot_from_bound: "slot_from i ts = Some j \<Longrightarrow> i \<le> j \<and> j < i + length ts \<and> \<not> active (ts ! (j - i)) \<and> (\<forall>k < j - i. active (ts ! k))"
proof (induction i ts rule: slot_from.induct)
  case (2 i t ts)
  show ?case
  proof (cases "active t")
    case True
    then have "slot_from (i + 1) ts = Some j" using 2(2) by (simp split: if_splits)
    note h = 2(1) [OF True this]
    then have "i + 1 \<le> j" by simp
    then have m: "j - i = Suc (j - (i + 1))" by simp
    show ?thesis unfolding m using h True by (auto simp: less_Suc_eq_0_disj)
  qed (use 2(2) in simp)
qed simp

lemma slot_from_None: "slot_from i ts = None \<longleftrightarrow> (\<forall>t \<in> set ts. active t)"
  by (induction i ts rule: slot_from.induct) auto

text \<open>The first free slot, if there is one.\<close>

lemma next_task_slot_Some:
  "next_task_slot ts = Some i \<Longrightarrow> i < length ts \<and> \<not> active (ts ! i) \<and> (\<forall>k < i. active (ts ! k))"
  using slot_from_bound [of 0 ts i] by (simp add: next_task_slot_def)

lemma next_task_slot_None: "next_task_slot ts = None \<longleftrightarrow> (\<forall>t \<in> set ts. active t)"
  by (simp add: next_task_slot_def slot_from_None)

lemma timer_size_filter: "timer_size ts = length (filter active ts)"
proof -
  have "foldl (\<lambda>s t. if active t then s + 1 else s) n ts = n + length (filter active ts)" for n
    by (induction ts arbitrary: n) simp_all
  from this [of 0] show ?thesis by (simp add: timer_size_def)
qed

lemma timer_empty_size: "timer_empty ts \<longleftrightarrow> timer_size ts = 0"
  by (simp add: timer_empty_def timer_size_filter list_ex_iff filter_empty_conv)

lemma filter_upd_length:
  "i < length xs \<Longrightarrow> length (filter P (xs[i := x])) + of_bool (P (xs ! i)) = length (filter P xs) + of_bool (P x)"
proof (induction xs arbitrary: i)
  case (Cons y ys)
  then show ?case by (cases i) auto
qed simp

text \<open>Adding a task takes one slot, unless the table is full; then it changes nothing.\<close>

lemma add_task_size:
  assumes "add_task start expires (Some h) opaque repeat ts = (task, ts1)"
  shows "case task of None \<Rightarrow> timer_size ts = length ts \<and> ts1 = ts
    | Some i \<Rightarrow> i < length ts \<and> timer_size ts1 = timer_size ts + 1 \<and> tk_handler (ts1 ! i) = Some h \<and>
        (\<forall>j. j \<noteq> i \<longrightarrow> ts1 ! j = ts ! j) \<and> length ts1 = length ts"
proof (cases "next_task_slot ts")
  case None
  then have "\<forall>t \<in> set ts. active t" by (simp only: next_task_slot_None)
  then have "filter active ts = ts" by (intro filter_True) simp
  then show ?thesis using assms None by (auto simp: add_task_def timer_size_filter)
next
  case (Some i)
  note i = next_task_slot_Some [OF Some]
  let ?t = "\<lparr>tk_handler = Some h, tk_opaque = opaque, tk_start = start, tk_expires = expires, tk_repeat = of_bool repeat\<rparr>"
  have "task = Some i" "ts1 = ts[i := ?t]" using assms Some by (simp_all add: add_task_def)
  moreover have "timer_size (ts[i := ?t]) = timer_size ts + 1"
    using filter_upd_length [of i ts active ?t] i by (simp add: timer_size_filter)
  ultimately show ?thesis using i by simp
qed

lemma cancel_size:
  "timer_cancel E task ts = (True, task', ts1) \<Longrightarrow> task' = None \<and> timer_size ts = timer_size ts1 + 1"
proof -
  assume a: "timer_cancel E task ts = (True, task', ts1)"
  then obtain i where i: "task = Some i" "i < length ts" "active (ts ! i)" "ts1 = remove_task E i ts" "task' = None"
    by (auto simp: timer_cancel_def split: option.splits if_splits)
  then show ?thesis using filter_upd_length [of i ts active "free_task E"]
    by (simp add: timer_size_filter remove_task_def free_task_def)
qed

lemma cancel_all_empties: "timer_cancel_all E ts = replicate (length ts) (free_task E)"
proof -
  have "k \<le> length ts \<Longrightarrow> foldl (\<lambda>ts i. remove_task E i ts) ts [0..<k] = replicate k (free_task E) @ drop k ts" for k
  proof (induction k)
    case (Suc k)
    then show ?case by (simp add: remove_task_def list_update_append Cons_nth_drop_Suc [symmetric] replicate_append_same [symmetric])
  qed simp
  then show ?thesis by (simp add: timer_cancel_all_def)
qed

section \<open>Ticking\<close>

text \<open>Handlers that leave the timer alone, whatever else they do: their answer depends on what was called
  before. The clock reads the same throughout the pass; the world is the list of calls.\<close>

definition watch :: "u32 \<Rightarrow> (('h \<times> 'o) list \<Rightarrow> 'h \<Rightarrow> 'o \<Rightarrow> bool) \<Rightarrow> 'o \<Rightarrow> ('h, 'o, ('h \<times> 'o) list) timer_env" where
  "watch now answer none = \<lparr>te_time = \<lambda>log. (now, log),
     te_call = \<lambda>h opaque (ts, log). (answer log h opaque, ts, log @ [(h, opaque)]), te_none = none\<rparr>"

definition due :: "u32 \<Rightarrow> ('h, 'o) timer_task \<Rightarrow> bool" where
  "due now t \<longleftrightarrow> active t \<and> tk_expires t \<le> now - tk_start t"

definition due_calls :: "u32 \<Rightarrow> ('h, 'o) timer \<Rightarrow> ('h \<times> 'o) list" where
  "due_calls now ts = map (\<lambda>t. (the (tk_handler t), tk_opaque t)) (filter (due now) ts)"

text \<open>What becomes of a task, given the answer of its handler.\<close>

definition after_tick :: "u32 \<Rightarrow> 'o \<Rightarrow> bool \<Rightarrow> ('h, 'o) timer_task \<Rightarrow> ('h, 'o) timer_task" where
  "after_tick now none again t =
     (if \<not> due now t then t
      else if again \<and> tk_repeat t \<noteq> 0 then t\<lparr>tk_repeat := 1, tk_start := now\<rparr>
      else \<lparr>tk_handler = None, tk_opaque = none, tk_start = 0, tk_expires = 0, tk_repeat = 0\<rparr>)"

lemma tick_slot_watch:
  "tick_slot (watch now answer none) i (ts, log) =
     (ts[i := after_tick now none (answer log (the (tk_handler (ts ! i))) (tk_opaque (ts ! i))) (ts ! i)],
      log @ due_calls now [ts ! i])"
  by (cases "tk_handler (ts ! i)")
    (auto simp: tick_slot_def watch_def Let_def after_tick_def due_def due_calls_def remove_task_def free_task_def)

lemma due_calls_append: "due_calls now (ts @ us) = due_calls now ts @ due_calls now us"
  by (simp add: due_calls_def)

lemma tick_upto:
  assumes "k \<le> length ts"
  shows "\<exists>us. foldl (\<lambda>x i. tick_slot (watch now answer none) i x) (ts, log) [0..<k] = (us @ drop k ts, log @ due_calls now (take k ts)) \<and>
    length us = k \<and> (\<forall>i < k. us ! i = after_tick now none
      (answer (log @ due_calls now (take i ts)) (the (tk_handler (ts ! i))) (tk_opaque (ts ! i))) (ts ! i))"
  using assms
proof (induction k)
  case (Suc k)
  then obtain us where us: "foldl (\<lambda>x i. tick_slot (watch now answer none) i x) (ts, log) [0..<k]
        = (us @ drop k ts, log @ due_calls now (take k ts))" "length us = k"
      "\<forall>i < k. us ! i = after_tick now none
        (answer (log @ due_calls now (take i ts)) (the (tk_handler (ts ! i))) (tk_opaque (ts ! i))) (ts ! i)" by auto
  let ?t = "after_tick now none (answer (log @ due_calls now (take k ts)) (the (tk_handler (ts ! k))) (tk_opaque (ts ! k))) (ts ! k)"
  have k: "(us @ drop k ts) ! k = ts ! k" "(us @ drop k ts)[k := x] = (us @ [x]) @ drop (Suc k) ts" for x
    using Suc.prems us(2) by (simp_all add: nth_append list_update_append Cons_nth_drop_Suc [symmetric])
  have t: "take (Suc k) ts = take k ts @ [ts ! k]" using Suc.prems by (simp add: take_Suc_conv_app_nth)
  have "foldl (\<lambda>x i. tick_slot (watch now answer none) i x) (ts, log) [0..<Suc k]
      = ((us @ [?t]) @ drop (Suc k) ts, log @ due_calls now (take (Suc k) ts))"
    using us(1) by (simp add: tick_slot_watch k t due_calls_append)
  moreover have "\<forall>i < Suc k. (us @ [?t]) ! i = after_tick now none
        (answer (log @ due_calls now (take i ts)) (the (tk_handler (ts ! i))) (tk_opaque (ts ! i))) (ts ! i)"
    using us(2,3) by (auto simp: nth_append less_Suc_eq)
  ultimately show ?case using us(2) by (intro exI [of _ "us @ [?t]"]) simp
qed (simp add: due_calls_def)

text \<open>One pass calls exactly the tasks that are due, in the order of the slots, each once.\<close>

lemma tick_void_watch:
  "\<exists>us. tick_void (watch now answer none) (ts, log) = (us, log @ due_calls now ts) \<and> length us = length ts \<and>
    (\<forall>i < length ts. us ! i = after_tick now none
       (answer (log @ due_calls now (take i ts)) (the (tk_handler (ts ! i))) (tk_opaque (ts ! i))) (ts ! i))"
  using tick_upto [of "length ts" ts now answer none log] by (auto simp: tick_void_def)

section \<open>Sleeping\<close>

text \<open>Only a task with an interval repeats; every operation keeps this.\<close>

definition tasks_ok :: "('h, 'o) timer \<Rightarrow> bool" where
  "tasks_ok ts \<longleftrightarrow> (\<forall>t \<in> set ts. tk_repeat t \<noteq> 0 \<longrightarrow> tk_expires t \<noteq> 0)"

lemma tasks_ok_update: "tasks_ok ts \<Longrightarrow> (tk_repeat t \<noteq> 0 \<Longrightarrow> tk_expires t \<noteq> 0) \<Longrightarrow> tasks_ok (ts[i := t])"
  unfolding tasks_ok_def using set_update_subset_insert [of ts i t] by blast

lemma tasks_ok_Timer: "tasks_ok (Timer E n)"
  by (auto simp: tasks_ok_def Timer_def free_task_def)

lemma tasks_ok_add: "tasks_ok ts \<Longrightarrow> (repeat \<Longrightarrow> expires \<noteq> 0) \<Longrightarrow> tasks_ok (snd (add_task start expires h opaque repeat ts))"
  by (auto simp: add_task_def intro: tasks_ok_update split: option.split)

lemma tasks_ok_operations:
  assumes "tasks_ok (fst x)"
  shows "tasks_ok (fst (snd (timer_in E delay h opaque x)))" "tasks_ok (fst (snd (timer_at E time h opaque x)))"
    "tasks_ok (fst (snd (timer_every E interval h opaque x)))" "tasks_ok (snd (snd (timer_cancel E task (fst x))))"
    "tasks_ok (timer_cancel_all E (fst x))"
proof -
  note add = tasks_ok_add [OF assms]
  show "tasks_ok (fst (snd (timer_in E delay h opaque x)))" "tasks_ok (fst (snd (timer_at E time h opaque x)))"
    "tasks_ok (fst (snd (timer_every E interval h opaque x)))"
    using add by (auto simp: timer_in_def timer_at_def timer_every_def Let_def case_prod_beta)
  show "tasks_ok (snd (snd (timer_cancel E task (fst x))))"
    using assms by (auto simp: timer_cancel_def remove_task_def free_task_def intro: tasks_ok_update split: option.split)
  show "tasks_ok (timer_cancel_all E (fst x))" by (auto simp: cancel_all_empties tasks_ok_def free_task_def)
qed

lemma after_tick_not_due:
  assumes "tk_repeat t \<noteq> 0 \<longrightarrow> tk_expires t \<noteq> 0"
  shows "\<not> due now (after_tick now none again t)"
  using assms by (auto simp: after_tick_def due_def)

lemma tasks_ok_tick:
  assumes "tasks_ok ts" "tick_void (watch now answer none) (ts, log) = (us, log')"
  shows "tasks_ok us" and "\<forall>t \<in> set us. \<not> due now t"
proof -
  from tick_void_watch [of now answer none ts log] assms(2)
  have us: "length us = length ts" "\<And>i. i < length ts \<Longrightarrow> \<exists>a. us ! i = after_tick now none a (ts ! i)" by auto
  have ok: "i < length ts \<Longrightarrow> tk_repeat (ts ! i) \<noteq> 0 \<longrightarrow> tk_expires (ts ! i) \<noteq> 0" for i
    using assms(1) by (simp add: tasks_ok_def)
  show "tasks_ok us" unfolding tasks_ok_def
  proof
    fix t assume "t \<in> set us"
    then obtain i where "i < length ts" "t = us ! i" by (metis us(1) in_set_conv_nth)
    then show "tk_repeat t \<noteq> 0 \<longrightarrow> tk_expires t \<noteq> 0" using us(2) [of i] ok [of i] by (auto simp: after_tick_def split: if_splits)
  qed
  show "\<forall>t \<in> set us. \<not> due now t"
  proof
    fix t assume "t \<in> set us"
    then obtain i where "i < length ts" "t = us ! i" by (metis us(1) in_set_conv_nth)
    then show "\<not> due now t" using us(2) [of i] after_tick_not_due [OF ok [of i]] by auto
  qed
qed

text \<open>How long an active task that is not due still waits.\<close>

definition waits :: "u32 \<Rightarrow> ('h, 'o) timer_task \<Rightarrow> u32" where
  "waits now t = tk_expires t - (now - tk_start t)"

lemma due_later:
  assumes "active t" "\<not> due now t"
  shows "d < waits now t \<Longrightarrow> \<not> due (now + d) t" and "due (now + waits now t) t" and "waits now t \<noteq> 0"
proof -
  let ?e = "tk_expires t" and ?p = "now - tk_start t"
  have lt: "?p < ?e" using assms by (simp add: due_def)
  have w: "waits now t = ?e - ?p" by (simp add: waits_def)
  have "?p + (?e - ?p) = ?e" by simp
  then have "now + waits now t - tk_start t = ?e" unfolding w by (simp add: algebra_simps)
  then show "due (now + waits now t) t" using assms(1) by (simp add: due_def)
  show "waits now t \<noteq> 0" using lt by (auto simp: w)
  assume "d < waits now t"
  then have "unat ?p + unat d < unat ?e" using lt by (simp add: w word_less_nat_alt unat_sub)
  then have "?p + d < ?e" by (simp add: word_less_nat_alt unat_word_ariths unsigned_less order_le_less_trans [OF mod_less_eq_dividend])
  moreover have "now + d - tk_start t = ?p + d" by simp
  ultimately have "now + d - tk_start t < ?e" by (simp only:)
  then show "\<not> due (now + d) t" unfolding due_def by (metis not_le)
qed

lemma ticks_loop_watch:
  assumes "\<forall>t \<in> set ts. \<not> due now t"
  shows "ticks_loop (watch now answer none) ts n log = (foldl min n (map (waits now) (filter active ts)), log)"
  using assms
proof (induction ts arbitrary: n)
  case (Cons t ts)
  show ?case
  proof (cases "tk_handler t")
    case (Some h)
    then have "\<not> tk_expires t \<le> now - tk_start t" using Cons.prems by (simp add: due_def)
    moreover have "min n (waits now t) = (if waits now t < n then waits now t else n)" by (auto simp: min_def)
    ultimately show ?thesis using Some Cons by (simp add: watch_def waits_def Let_def)
  qed (use Cons in simp)
qed simp

lemma foldl_min_le: "foldl min (n :: 'a :: linorder) xs \<le> n" "x \<in> set xs \<Longrightarrow> foldl min n xs \<le> x" "foldl min n xs = n \<or> foldl min n xs \<in> set xs"
proof -
  show le: "foldl min (n :: 'a :: linorder) xs \<le> n" for n xs
  proof (induction xs arbitrary: n)
    case (Cons y ys)
    from order_trans [OF Cons.IH [of "min n y"]] show ?case by simp
  qed simp
  show "x \<in> set xs \<Longrightarrow> foldl min n xs \<le> x" by (induction xs arbitrary: n) (auto intro: order_trans [OF le])
  show "foldl min n xs = n \<or> foldl min n xs \<in> set xs"
  proof (induction xs arbitrary: n)
    case (Cons y ys)
    from Cons.IH [of "min n y"] show ?case by (auto simp: min_def split: if_splits)
  qed simp
qed

text \<open>Polling calls what is due, and its result says how long to sleep. A pass at a time \<open>now\<close> calls the
  handlers of exactly the tasks whose delay has elapsed, once each, in the order of the slots, also
  across a rollover of the clock; every other task stays as it is, and a task that was called stays,
  restarted, exactly if it repeats and its handler asks for it. If the result is not 0, a poll at any
  earlier moment than that many units later calls nobody and one at that moment calls somebody. If it
  is 0 there is no task left to wait for, or only tasks that wait for \<open>ULONG_MAX\<close> units.\<close>

theorem timer_polls_on_time:
  assumes ok: "tasks_ok ts" and tick: "timer_tick (watch now answer none) (ts, log) = (n, us, log')"
  shows "log' = log @ due_calls now ts \<and> length us = length ts \<and>
    (\<forall>i < length ts. us ! i = after_tick now none
       (answer (log @ due_calls now (take i ts)) (the (tk_handler (ts ! i))) (tk_opaque (ts ! i))) (ts ! i)) \<and>
    (n \<noteq> 0 \<longrightarrow> (\<forall>d < n. due_calls (now + d) us = []) \<and> due_calls (now + n) us \<noteq> []) \<and>
    (n = 0 \<longrightarrow> (\<forall>t \<in> set us. tk_handler t \<noteq> None \<longrightarrow> waits now t = - 1))"
proof -
  obtain vs where v: "tick_void (watch now answer none) (ts, log) = (vs, log @ due_calls now ts)" "length vs = length ts"
    "\<forall>i < length ts. vs ! i = after_tick now none
       (answer (log @ due_calls now (take i ts)) (the (tk_handler (ts ! i))) (tk_opaque (ts ! i))) (ts ! i)"
    using tick_void_watch [of now answer none ts log] by blast
  note nd = tasks_ok_tick(2) [OF ok v(1)]
  let ?ws = "map (waits now) (filter active vs)"
  let ?m = "foldl min (- 1) ?ws"
  have m: "timer_ticks (watch now answer none) vs l = (if ?m = - 1 then 0 else ?m, l)" for l
    using ticks_loop_watch [OF nd, of answer none "- 1" l] due_later(3) nd foldl_min_le(3) [of "- 1" ?ws]
    by (auto simp: timer_ticks_def watch_def Let_def)
  have u: "us = vs" "log' = log @ due_calls now ts" "n = (if ?m = - 1 then 0 else ?m)"
    using tick v(1) m by (auto simp: timer_tick_def Let_def)
  have le: "?m \<le> waits now t" if "t \<in> set vs" "active t" for t using foldl_min_le(2) [of "waits now t" ?ws] that by simp
  have "(\<forall>d < n. due_calls (now + d) us = []) \<and> due_calls (now + n) us \<noteq> []" if n: "n \<noteq> 0"
  proof
    have mn: "?m = n" "?m \<noteq> - 1" using n u(3) by (auto split: if_splits)
    show "\<forall>d < n. due_calls (now + d) us = []"
      using due_later(1) nd le unfolding u(1) mn(1) by (fastforce simp: due_calls_def filter_empty_conv due_def)
    obtain t where t: "t \<in> set vs" "active t" "waits now t = n" using foldl_min_le(3) [of "- 1" ?ws] mn by auto
    have "due (now + n) t" using due_later(2) [of t now] nd t by auto
    then show "due_calls (now + n) us \<noteq> []" using t(1) u(1) by (auto simp: due_calls_def filter_empty_conv)
  qed
  moreover have "waits now t = - 1" if "n = 0" "t \<in> set us" "active t" for t
  proof -
    have "?m = - 1"
    proof (rule ccontr)
      assume "?m \<noteq> - 1"
      then have "?m \<in> set ?ws" "?m = 0" using foldl_min_le(3) [of "- 1" ?ws] u(3) that(1) by auto
      then obtain t where t: "t \<in> set vs" "active t" "waits now t = 0" by auto
      with nd due_later(3) [of t now] show False by blast
    qed
    then show ?thesis using le [of t] that(2,3) u(1) word_order.extremum_uniqueI by metis
  qed
  ultimately show ?thesis using v(2,3) u(1,2) by blast
qed

theorem timer_polls_on_time_witness:
  "let ts = [\<lparr>tk_handler = Some ''blink'', tk_opaque = (), tk_start = - 100, tk_expires = 150, tk_repeat = 1\<rparr>,
             \<lparr>tk_handler = Some ''print'', tk_opaque = (), tk_start = 10, tk_expires = 90, tk_repeat = 0\<rparr>];
       E = watch 60 (\<lambda>_ _ _. True) () in
   \<exists>us. timer_tick E (ts, []) = (40, us, [(''blink'', ())]) \<and> due_calls 99 us = [] \<and> due_calls 100 us \<noteq> []"
proof -
  let ?ts = "[\<lparr>tk_handler = Some ''blink'', tk_opaque = (), tk_start = - 100, tk_expires = 150, tk_repeat = 1\<rparr>,
             \<lparr>tk_handler = Some ''print'', tk_opaque = (), tk_start = 10, tk_expires = 90, tk_repeat = 0\<rparr>]"
  let ?E = "watch 60 (\<lambda>_ _ _. True) () :: (string, unit, (string \<times> unit) list) timer_env"
  have ok: "tasks_ok ?ts" by (simp add: tasks_ok_def)
  obtain us log where t: "timer_tick ?E (?ts, []) = (40, us, log)"
    by (simp add: timer_tick_def tick_void_def tick_slot_def watch_def timer_ticks_def remove_task_def Let_def)
  have "due_calls 60 ?ts = [(''blink'', ())]" by (simp add: due_calls_def due_def)
  with timer_polls_on_time [OF ok t] have r: "log = [(''blink'', ())]" "\<forall>d < 40. due_calls (60 + d) us = []" "due_calls (60 + 40) us \<noteq> []"
    by simp_all
  have "due_calls 99 us = []" using spec [OF r(2), of 39] by simp
  then show ?thesis using t r(1,3) by (simp add: Let_def)
qed

section \<open>Handlers that use the timer\<close>

text \<open>A handler that ends its own task and plans another one loses the new task: the new task gets the
  slot that was freed, and when the handler returns the pass frees this slot. Here the handler cancels the
  task in slot 0, whose handle it was given, and asks for a call in 500 units; both calls report success.\<close>

definition at_100 :: "(nat, nat option, unit) timer_env" where
  "at_100 = \<lparr>te_time = \<lambda>s. (100, s), te_call = \<lambda>h opaque x. (True, x), te_none = None\<rparr>"

definition replan :: "(nat, nat option, unit) timer_env" where
  "replan = at_100\<lparr>te_call := \<lambda>h opaque (ts, s).
     (let (cancelled, task, ts1) = timer_cancel at_100 opaque ts;
          (new, ts2, s1) = timer_in at_100 500 (Some (h + 1)) None (ts1, s) in (cancelled \<and> new \<noteq> None, ts2, s1))\<rparr>"

lemma replanned_task_is_lost:
  "tick_void replan ([\<lparr>tk_handler = Some 1, tk_opaque = Some 0, tk_start = 0, tk_expires = 50, tk_repeat = 1\<rparr>], ())
     = ([free_task replan], ())"
  by (simp add: tick_void_def tick_slot_def replan_def at_100_def timer_in_def timer_cancel_def add_task_def next_task_slot_def remove_task_def free_task_def Let_def)

text \<open>A handle outlives its task: once the slot is used again, it cancels a task of somebody else.\<close>

lemma stale_handle_cancels_another_task:
  assumes gone: "ts ! i = free_task E" and first: "next_task_slot ts = Some i"
    and new: "timer_in E' delay (Some h) opaque (ts, s) = (task, ts1, s1)"
  shows "\<exists>ts2. timer_cancel E (Some i) ts1 = (True, None, ts2) \<and> task = Some i \<and> ts2 ! i = free_task E"
proof -
  obtain now where "ts1 = ts[i := \<lparr>tk_handler = Some h, tk_opaque = opaque, tk_start = now, tk_expires = delay, tk_repeat = 0\<rparr>]" "task = Some i"
    using new first by (auto simp: timer_in_def add_task_def Let_def split: prod.splits)
  then show ?thesis using next_task_slot_Some [OF first] by (simp add: timer_cancel_def remove_task_def)
qed

end
