(* ===== verification/RM_Tests.thy ===== *)
theory RM_Tests
  imports RM_Builder
begin

text \<open>
  The repository's own tests, \<open>src/test\<close>, run against the model. The EEPROM suite
  (\<open>test_EEPROMStorage.cpp\<close>) is a script of calls with the results that it asserts; scripts run the same on
  the bytes of any lawful EEPROM and on the list of entries, so the suite is decided on the list.
  The packet tracker suite (\<open>test_PacketTracker.cpp\<close>) is evaluated. Of the other suites the assertions
  are shown that cannot hold in the code: those of \<open>test_DeviceBuilder.cpp\<close> that build a second device,
  and those of \<open>test_InclusionProtocol.cpp\<close> that encrypt with public keys of 64 bytes.
\<close>

section \<open>Scripts for the storage\<close>

text \<open>A call and what the test asserts of its result. \<open>ReadsAs\<close> starts from an empty vector; \<open>Fill\<close> writes
  all that is available but an overhead.\<close>

datatype storage_check =
    Clears rc
  | Writes string bytes rc
  | Fills string nat byte rc
  | WritesCommits string bytes rc
  | Commits rc
  | Removes string rc
  | Exists string bool
  | ReadsAs string rc bytes
  | Counts nat
  | HasRoom
  | HasLeft nat
  | IsFull bool

fun check_step :: "'e eeprom_lib \<Rightarrow> storage_check \<Rightarrow> 'e storage \<Rightarrow> bool \<times> 'e storage" where
  "check_step L (Clears rc) s = (case st_clear L s of (r, s1) \<Rightarrow> (r = rc, s1))"
| "check_step L (Writes key data rc) s = (case st_write L key data s of (r, s1) \<Rightarrow> (r = rc, s1))"
| "check_step L (Fills key overhead b rc) s =
     (case st_write L key (replicate (unat (available L s) - overhead) b) s of (r, s1) \<Rightarrow> (r = rc, s1))"
| "check_step L (WritesCommits key data rc) s = (case st_writeAndCommit L key data s of (r, s1) \<Rightarrow> (r = rc, s1))"
| "check_step L (Commits rc) s = (case st_commit L s of (r, s1) \<Rightarrow> (r = rc, s1))"
| "check_step L (Removes key rc) s = (case st_remove L key s of (r, s1) \<Rightarrow> (r = rc, s1))"
| "check_step L (Exists key b) s = (st_exists L key s = b, s)"
| "check_step L (ReadsAs key rc data) s = (st_read L key [] s = (rc, data), s)"
| "check_step L (Counts n) s = (getEntryCount L s = Inr n, s)"
| "check_step L HasRoom s = (available L s > 0, s)"
| "check_step L (HasLeft n) s = (unat (available L s) = n, s)"
| "check_step L (IsFull b) s = (isFull L s = b, s)"

fun run_script :: "'e eeprom_lib \<Rightarrow> storage_check list \<Rightarrow> 'e storage \<Rightarrow> bool \<times> 'e storage" where
  "run_script L [] s = (True, s)"
| "run_script L (c # cs) s =
     (let (ok, s1) = check_step L c s; (oks, s2) = run_script L cs s1 in (ok \<and> oks, s2))"

section \<open>Scripts on a list of entries\<close>

definition left :: "nat \<Rightarrow> sentry list \<Rightarrow> nat" where
  "left n es = n - (SH_SIZE + length (image_bytes es))"

definition abs_write :: "byte \<Rightarrow> nat \<Rightarrow> string \<Rightarrow> bytes \<Rightarrow> sentry list \<Rightarrow> rc \<times> sentry list" where
  "abs_write pad n key data es =
     (if key = [] \<or> data = [] then (RM_E_INVALID_PARAM, es)
      else if length key > 255 then (RM_E_INVALID_LENGTH, es)
      else if left n es < EH_SIZE + length key + length data then (RM_E_STORAGE_NOT_ENOUGH_SPACE, es)
      else (RM_E_NONE, put_entry (new_entry key data pad) es))"

text \<open>\<open>None\<close>: the list does not decide what this write does to the bytes behind the entry.\<close>

fun abs_step :: "byte \<Rightarrow> nat \<Rightarrow> storage_check \<Rightarrow> sentry list \<Rightarrow> (bool \<times> sentry list) option" where
  "abs_step pad n (Clears rc) es = Some (rc = RM_E_NONE, [])"
| "abs_step pad n (Writes key data rc) es =
     (if keeps_slot key data es \<and> length data < 65536
      then case abs_write pad n key data es of (r, es1) \<Rightarrow> Some (r = rc, es1) else None)"
| "abs_step pad n (Fills key overhead b rc) es =
     (let data = replicate (left n es - overhead) b in
      if keeps_slot key data es then case abs_write pad n key data es of (r, es1) \<Rightarrow> Some (r = rc, es1) else None)"
| "abs_step pad n (WritesCommits key data rc) es =
     (if keeps_slot key data es \<and> length data < 65536
      then case abs_write pad n key data es of (r, es1) \<Rightarrow> Some (r = rc, es1) else None)"
| "abs_step pad n (Commits rc) es = Some (rc = RM_E_NONE, es)"
| "abs_step pad n (Removes key rc) es =
     Some (if key = [] then (rc = RM_E_INVALID_PARAM, es)
           else (rc = (if view es key = None then RM_E_STORAGE_KEY_NOT_FOUND else RM_E_NONE), kill_first key es))"
| "abs_step pad n (Exists key b) es = Some (b = (key \<noteq> [] \<and> view es key \<noteq> None), es)"
| "abs_step pad n (ReadsAs key rc data) es =
     Some ((if key = [] then (RM_E_INVALID_PARAM, [])
            else case view es key of None \<Rightarrow> (RM_E_STORAGE_KEY_NOT_FOUND, []) | Some v \<Rightarrow> (RM_E_NONE, v)) = (rc, data), es)"
| "abs_step pad n (Counts k) es = Some (length es = k, es)"
| "abs_step pad n HasRoom es = Some (left n es > 0, es)"
| "abs_step pad n (HasLeft k) es = Some (left n es = k, es)"
| "abs_step pad n (IsFull b) es = Some ((left n es = 0) = b, es)"

fun abs_script :: "byte \<Rightarrow> nat \<Rightarrow> storage_check list \<Rightarrow> sentry list \<Rightarrow> (bool \<times> sentry list) option" where
  "abs_script pad n [] es = Some (True, es)"
| "abs_script pad n (c # cs) es = do {
     (ok, es1) \<leftarrow> abs_step pad n c es;
     (oks, es2) \<leftarrow> abs_script pad n cs es1;
     Some (ok \<and> oks, es2) }"

section \<open>The bytes and the list agree\<close>

lemma left_repr: "repr L opened s es \<Longrightarrow> unat (available L s) = left (st_size s) es"
  by (simp add: available_repr left_def)

lemma write_agrees:
  assumes laws: "eeprom_laws L opened" and r: "repr L opened s es" and k: "keeps_slot key data es" "length data < 65536"
    and a: "abs_write (ee_pad L) (st_size s) key data es = (rc, es1)"
  shows "\<exists>s1. st_write L key data s = (rc, s1) \<and> repr L opened s1 es1 \<and> st_size s1 = st_size s"
proof -
  have fits: "SH_SIZE + length (image_bytes es) \<le> st_size s" using r by (simp add: repr_def)
  have init: "st_initialized s" using r by (simp add: repr_def)
  consider "key = [] \<or> data = []" | "key \<noteq> []" "data \<noteq> []" "length key > 255"
    | "key \<noteq> []" "data \<noteq> []" "length key \<le> 255" "left (st_size s) es < EH_SIZE + length key + length data"
    | "key \<noteq> []" "data \<noteq> []" "length key \<le> 255" "EH_SIZE + length key + length data \<le> left (st_size s) es" by linarith
  then show ?thesis
  proof cases
    case 1
    then show ?thesis using a r init by (auto simp: abs_write_def st_write_def)
  next
    case 2
    then show ?thesis using a r init by (auto simp: abs_write_def st_write_def)
  next
    case 3
    then have "st_write L key data s = (RM_E_STORAGE_NOT_ENOUGH_SPACE, s)"
      using st_write_short [OF r 3(1-3) _ k(2)] fits by (simp add: left_def)
    then show ?thesis using 3 a r by (auto simp: abs_write_def)
  next
    case 4
    then have "SH_SIZE + length (image_bytes es) + EH_SIZE + length key + length data \<le> st_size s"
      using fits by (simp add: left_def EH_SIZE_def)
    from st_write_repr [OF laws r 4(1-3) this k(1)] show ?thesis using 4 a by (auto simp: abs_write_def)
  qed
qed

lemma step_agrees:
  assumes laws: "eeprom_laws L opened" and commits: "\<And>m. fst (ee_commit L m)" and r: "repr L opened s es"
    and a: "abs_step (ee_pad L) (st_size s) c es = Some (ok, es1)"
  shows "\<exists>s1. check_step L c s = (ok, s1) \<and> repr L opened s1 es1 \<and> st_size s1 = st_size s"
proof -
  have init: "st_initialized s" and small: "st_size s \<le> 1024" using r by (simp_all add: repr_def EEPROM_STORAGE_MAX_SIZE_def)
  have com: "\<exists>s1. st_commit L s = (RM_E_NONE, s1) \<and> repr L opened s1 es \<and> st_size s1 = st_size s"
    if "repr L opened s es" for s es
    using st_commit_cases [of s L] repr_commit [OF laws that] that commits by (auto simp: repr_def)
  note w = write_agrees [OF laws r]
  show ?thesis
  proof (cases c)
    case (Clears rc)
    then show ?thesis using a st_clear_repr [OF laws r] commits by auto
  next
    case (Writes key data rc)
    then obtain rc' where "abs_write (ee_pad L) (st_size s) key data es = (rc', es1)" "ok = (rc' = rc)"
        "keeps_slot key data es" "length data < 65536" using a by (auto split: if_splits prod.splits)
    with w show ?thesis using Writes by fastforce
  next
    case (Fills key overhead b rc)
    let ?d = "replicate (left (st_size s) es - overhead) b"
    obtain rc' where "abs_write (ee_pad L) (st_size s) key ?d es = (rc', es1)" "ok = (rc' = rc)" "keeps_slot key ?d es"
      using a Fills by (auto simp: Let_def split: if_splits prod.splits)
    moreover have "length ?d < 65536" using small by (simp add: left_def)
    ultimately show ?thesis using w Fills left_repr [OF r] by fastforce
  next
    case (WritesCommits key data rc)
    then obtain rc' where w1: "abs_write (ee_pad L) (st_size s) key data es = (rc', es1)" "ok = (rc' = rc)"
        "keeps_slot key data es" "length data < 65536" using a by (auto split: if_splits prod.splits)
    obtain s1 where s1: "st_write L key data s = (rc', s1)" "repr L opened s1 es1" "st_size s1 = st_size s"
      using w [OF w1(3,4,1)] by blast
    show ?thesis using WritesCommits w1(2) s1 com [OF s1(2)] by (auto simp: st_writeAndCommit_def)
  next
    case (Commits rc)
    then show ?thesis using a com [OF r] by auto
  next
    case (Removes key rc)
    show ?thesis
    proof (cases "key = []")
      case True
      then show ?thesis using a r init Removes by (auto simp: st_remove_def)
    next
      case False
      then show ?thesis using a st_remove_repr [OF laws r False] Removes by auto
    qed
  next
    case (Exists key b)
    then show ?thesis using a r st_exists_view [OF r, of key] by (cases "key = []") (auto simp: st_exists_def)
  next
    case (ReadsAs key rc data)
    then show ?thesis using a r init st_read_view [OF r, of key "[]"] by (cases "key = []") (auto simp: st_read_def)
  next
    case (Counts n)
    have "getEntryCount L s = Inr (length es)"
      using readStorageHeader_repr [OF r] repr_count [OF r] init by (simp add: getEntryCount_def good_header_def unat_of_nat)
    then show ?thesis using Counts a r by auto
  next
    case HasRoom
    then show ?thesis using a r left_repr [OF r] by (auto simp: word_less_nat_alt)
  next
    case (HasLeft n)
    then show ?thesis using a r left_repr [OF r] by auto
  next
    case (IsFull b)
    then show ?thesis using a r init left_repr [OF r] by (auto simp: isFull_def unat_eq_0 [symmetric])
  qed
qed

lemma script_agrees:
  assumes "eeprom_laws L opened" and "\<And>m. fst (ee_commit L m)"
  shows "repr L opened s es \<Longrightarrow> abs_script (ee_pad L) (st_size s) cs es = Some (ok, es1) \<Longrightarrow>
    \<exists>s1. run_script L cs s = (ok, s1) \<and> repr L opened s1 es1 \<and> st_size s1 = st_size s"
proof (induction cs arbitrary: s es ok)
  case (Cons c cs)
  obtain ok1 es2 ok2 where 1: "abs_step (ee_pad L) (st_size s) c es = Some (ok1, es2)"
      "abs_script (ee_pad L) (st_size s) cs es2 = Some (ok2, es1)" "ok = (ok1 \<and> ok2)"
    using Cons.prems(2) by (auto simp: bind_eq_Some_conv)
  obtain s2 where 2: "check_step L c s = (ok1, s2)" "repr L opened s2 es2" "st_size s2 = st_size s"
    using step_agrees [OF assms Cons.prems(1) 1(1)] by blast
  show ?case using Cons.IH [OF 2(2), of ok2] 1(2,3) 2 by (auto simp: Let_def)
qed simp

section \<open>The EEPROM suite\<close>

text \<open>\<open>initStorage\<close> after \<open>begin\<close>, the tests in the order of \<open>setup\<close>, and \<open>resetEEPROMStorage\<close> before \<open>end\<close>.\<close>

definition eeprom_suite :: "storage_check list" where
  "eeprom_suite =
     [Clears RM_E_NONE, Counts 0, HasRoom, IsFull False] @
     \<comment> \<open>write, exist and read\<close>
     [Writes ''test1'' [1, 2, 3, 4] RM_E_NONE, Counts 1, Exists ''test1'' True, ReadsAs ''test1'' RM_E_NONE [1, 2, 3, 4]] @
     \<comment> \<open>remove\<close>
     [Clears RM_E_NONE, Writes ''test1'' [1, 2, 3, 4] RM_E_NONE, Exists ''test1'' True, Removes ''test1'' RM_E_NONE,
      Exists ''test1'' False] @
     \<comment> \<open>write multiple\<close>
     [Clears RM_E_NONE, Writes ''key1'' [1, 2] RM_E_NONE, Writes ''key2'' [3, 4] RM_E_NONE,
      ReadsAs ''key1'' RM_E_NONE [1, 2], ReadsAs ''key2'' RM_E_NONE [3, 4]] @
     \<comment> \<open>clear\<close>
     [Clears RM_E_NONE, Counts 0, Writes ''test1'' [1, 2, 3, 4] RM_E_NONE, Counts 1, Exists ''test1'' True,
      Clears RM_E_NONE, Counts 0, Exists ''test1'' False] @
     \<comment> \<open>available\<close>
     [Clears RM_E_NONE, HasRoom] @
     \<comment> \<open>full\<close>
     [Clears RM_E_NONE, HasRoom, IsFull False, Fills ''akey'' 10 97 RM_E_NONE, Counts 1, Exists ''akey'' True, IsFull True,
      HasLeft 0, Clears RM_E_NONE] @
     \<comment> \<open>keys and data that are refused\<close>
     [ReadsAs ''nonexistent'' RM_E_STORAGE_KEY_NOT_FOUND [], ReadsAs [] RM_E_INVALID_PARAM [],
      Writes [] [1, 2, 3, 4] RM_E_INVALID_PARAM, Writes ''test'' [] RM_E_INVALID_PARAM,
      Writes (replicate 256 CHR ''a'') [1] RM_E_INVALID_LENGTH, Removes ''nonexistent'' RM_E_STORAGE_KEY_NOT_FOUND,
      Clears RM_E_NONE, Writes ''test'' (replicate 129 97) RM_E_STORAGE_NOT_ENOUGH_SPACE] @
     \<comment> \<open>commit\<close>
     [Clears RM_E_NONE, Writes ''test'' [1, 2, 3, 4] RM_E_NONE, Commits RM_E_NONE, Exists ''test'' True] @
     [Clears RM_E_NONE, WritesCommits ''test'' [1, 2, 3, 4] RM_E_NONE, Exists ''test'' True] @
     [Clears RM_E_NONE, WritesCommits ''test'' [1, 2, 3, 4] RM_E_NONE, Exists ''test'' True, ReadsAs ''test'' RM_E_NONE [1, 2, 3, 4],
      WritesCommits ''test'' [5, 6, 7, 8] RM_E_NONE, Exists ''test'' True, ReadsAs ''test'' RM_E_NONE [5, 6, 7, 8]] @
     \<comment> \<open>reset\<close>
     [Clears RM_E_NONE, Counts 0]"

lemma length_entry: "length (entry_bytes e) = 6 + length (se_key e) + length (se_data e)"
  by (simp add: entry_bytes_def)

lemma suite_on_the_list: "\<exists>es. abs_script pad 128 eeprom_suite [] = Some (True, es)"
  by (simp add: eeprom_suite_def abs_write_def left_def image_bytes_def length_entry keeps_slot_def put_entry_def new_entry_def
      live_key_def live_def view_def kill_first_def kill_def ENTRY_VALID_FLAG_def EH_SIZE_def SH_SIZE_def Let_def)

text \<open>The EEPROM tests of the repository pass on every board whose EEPROM was formatted before. For any
  EEPROM that keeps bytes and whose commits succeed: if its first bytes are the header of a storage,
  \<open>initStorage\<close> opens it and every assertion of every test holds, whatever entries it had, and
  the suite ends with an empty, closed storage. On any other EEPROM, a blank one first of all, the
  assertion on \<open>begin\<close> in \<open>initStorage\<close> fails, while the tests behind it would pass.\<close>

theorem eeprom_tests_pass:
  assumes laws: "eeprom_laws L opened" "\<And>m. fst (ee_commit L m)"
    and s: "\<not> st_initialized s" "ee_begin L 128 (st_mem s) = (True, m)"
  shows "fst (st_setParams 0 s) = RM_E_STORAGE_INVALID_SIZE \<and> fst (st_setParams 1025 s) = RM_E_STORAGE_INVALID_SIZE \<and>
    (\<exists>s0 s1 s2 s3. st_setParams 128 s = (RM_E_NONE, s0) \<and>
       st_begin L s0 = (if isStorageValid L (s0\<lparr>st_mem := m, st_initialized := True\<rparr>) then RM_E_NONE else RM_E_STORAGE_SETUP, s1) \<and>
       run_script L eeprom_suite s1 = (True, s2) \<and> st_end L s2 = (RM_E_NONE, s3) \<and> \<not> st_initialized s3)"
proof -
  let ?s0 = "s\<lparr>st_size := 128\<rparr>" and ?s1 = "s\<lparr>st_size := 128, st_mem := m, st_initialized := True\<rparr>"
  have op: "opened m 128" using laws(1) s(2) unfolding eeprom_laws_def by blast
  obtain s1 where s1: "st_begin L ?s0 = (if isStorageValid L (?s0\<lparr>st_mem := m, st_initialized := True\<rparr>) then RM_E_NONE else RM_E_STORAGE_SETUP, s1)"
      "st_initialized s1" "opened (st_mem s1) (st_size s1)" "st_size s1 = 128"
  proof (cases "isStorageValid L (?s0\<lparr>st_mem := m, st_initialized := True\<rparr>)")
    case True
    then have "st_begin L ?s0 = (RM_E_NONE, ?s0\<lparr>st_mem := m, st_initialized := True\<rparr>)"
      using s by (simp add: st_begin_def Let_def)
    with True op show thesis by (intro that [of "?s0\<lparr>st_mem := m, st_initialized := True\<rparr>"]) simp_all
  next
    case False
    obtain s1 where "st_begin L ?s0 = (RM_E_STORAGE_SETUP, s1)" "repr L opened s1 []" "st_size s1 = 128"
      using st_begin_fresh [OF laws(1), of ?s0 m] s False laws(2) by (auto simp: SH_SIZE_def EEPROM_STORAGE_MAX_SIZE_def)
    with False show thesis by (intro that [of s1]) (simp_all add: repr_def)
  qed
  obtain sc where sc: "st_clear L s1 = (RM_E_NONE, sc)" "repr L opened sc []" "st_size sc = 128"
    using st_clear_opened [OF laws(1) s1(2,3)] s1(4) laws(2) by (auto simp: SH_SIZE_def)
  have hd: "eeprom_suite = Clears RM_E_NONE # tl eeprom_suite" by (simp add: eeprom_suite_def)
  obtain es where es: "abs_script (ee_pad L) 128 eeprom_suite [] = Some (True, es)" using suite_on_the_list by blast
  then have "abs_script (ee_pad L) 128 (tl eeprom_suite) [] = Some (True, es)"
    by (subst (asm) hd) (simp add: bind_eq_Some_conv)
  then obtain s2 where s2: "run_script L (tl eeprom_suite) sc = (True, s2)" "repr L opened s2 es"
    using script_agrees [OF laws sc(2), of "tl eeprom_suite" True es] sc(3) by auto
  have "run_script L eeprom_suite s1 = (True, s2)" using s2(1) sc(1) by (subst hd) (simp add: Let_def)
  moreover have "st_end L s2 = (RM_E_NONE, s2\<lparr>st_mem := ee_end L (st_mem s2), st_initialized := False\<rparr>)"
    using s2(2) by (simp add: st_end_def repr_def)
  ultimately show ?thesis using s1(1) by (auto simp: st_setParams_def EEPROM_STORAGE_MAX_SIZE_def)
qed

theorem eeprom_tests_pass_witness:
  "\<exists>s1. st_begin ram_eeprom ((EEPROMStorage [])\<lparr>st_size := 128\<rparr>) = (RM_E_STORAGE_SETUP, s1) \<and> fst (run_script ram_eeprom eeprom_suite s1)"
proof -
  let ?s = "EEPROMStorage [] :: bytes storage" and ?m = "replicate 128 0xFF :: bytes"
  have c: "fst (ee_commit ram_eeprom m)" for m by (simp add: ram_eeprom_def)
  have s: "\<not> st_initialized ?s" "ee_begin ram_eeprom 128 (st_mem ?s) = (True, ?m)" by (simp_all add: EEPROMStorage_def ram_eeprom_def)
  have "[0..<8] = [0, 1, 2, 3, 4, 5, 6, 7 :: nat]" by (simp add: upt_rec)
  then have "read_bytes ram_eeprom ?m 0 8 = [0xFF, 0xFF, 0xFF, 0xFF, 0xFF, 0xFF, 0xFF, 0xFF]" by (simp add: read_bytes_def ram_eeprom_def)
  then have v: "\<not> isStorageValid ram_eeprom (?s\<lparr>st_size := 128, st_mem := ?m, st_initialized := True\<rparr>)"
    by (simp add: isStorageValid_def readStorageHeader_def storage_header_of_def SH_SIZE_def STORAGE_MAGIC_def be32_def)
  show ?thesis using eeprom_tests_pass [OF ram_laws c s] v by (auto simp: st_setParams_def EEPROM_STORAGE_MAX_SIZE_def)
qed

section \<open>The packet tracker suite\<close>

text \<open>The results of a sequence of operations, and what the assertions of the suite ask for afterwards.\<close>

lemma tracker_after:
  assumes "0 < cap"
  shows "\<exists>t. tracker_run ops (PacketTracker cap) = Some t \<and> tracker_inv t \<and> entries t = fold (lru_step cap) ops []"
  using tracker_run_core [OF PacketTracker_inv [OF assms], of ops] by (auto simp: PacketTracker_def entries_def)

definition fills :: "nat \<Rightarrow> tracker_op list" where
  "fills n = map (\<lambda>k. Add (word_of_nat k) (word_of_nat (k + 1))) [1..<n + 1]"

lemma packet_tracker_tests_pass:
  "\<exists>t. tracker_run (fills 8) (PacketTracker 50) = Some t \<and> tracker_size t = 8 \<and>
     (\<forall>k \<in> {1, 2, 3, 4, 5, 6, 7, 8}. keyExists k t) \<and> \<not> keyExists 9 t"
  "\<exists>t. tracker_run (fills 3) (PacketTracker 3) = Some t \<and> tracker_size t = 3 \<and> (\<forall>k \<in> {1, 2, 3}. keyExists k t)"
  "\<exists>t. tracker_run (fills 3 @ [Add 4 5]) (PacketTracker 3) = Some t \<and> tracker_size t = 3 \<and> \<not> keyExists 1 t \<and> keyExists 4 t"
  "\<exists>t. tracker_run (fills 3 @ [Remove 2]) (PacketTracker 3) = Some t \<and> tracker_size t = 2 \<and> \<not> keyExists 2 t"
  "\<exists>t. tracker_run (fills 6) (PacketTracker 50) = Some t \<and> tracker_size (clearMap t) = 0 \<and> (\<forall>k. \<not> keyExists k (clearMap t)) \<and>
     (\<forall>k \<in> {1, 2, 3, 4, 5, 6}. keyExists k t) \<and> \<not> keyExists 7 t \<and> \<not> keyExists 8 t"
proof -
  note simps = tracker_size_entries keyExists_entries fills_def upt_rec lru_add_def drop_key_def
  show "\<exists>t. tracker_run (fills 8) (PacketTracker 50) = Some t \<and> tracker_size t = 8 \<and>
      (\<forall>k \<in> {1, 2, 3, 4, 5, 6, 7, 8}. keyExists k t) \<and> \<not> keyExists 9 t"
    using tracker_after [of 50 "fills 8"] by (auto simp: simps)
  show "\<exists>t. tracker_run (fills 3) (PacketTracker 3) = Some t \<and> tracker_size t = 3 \<and> (\<forall>k \<in> {1, 2, 3}. keyExists k t)"
    using tracker_after [of 3 "fills 3"] by (auto simp: simps)
  show "\<exists>t. tracker_run (fills 3 @ [Add 4 5]) (PacketTracker 3) = Some t \<and> tracker_size t = 3 \<and> \<not> keyExists 1 t \<and> keyExists 4 t"
    using tracker_after [of 3 "fills 3 @ [Add 4 5]"] by (auto simp: simps)
  show "\<exists>t. tracker_run (fills 3 @ [Remove 2]) (PacketTracker 3) = Some t \<and> tracker_size t = 2 \<and> \<not> keyExists 2 t"
    using tracker_after [of 3 "fills 3 @ [Remove 2]"] by (auto simp: simps)
  show "\<exists>t. tracker_run (fills 6) (PacketTracker 50) = Some t \<and> tracker_size (clearMap t) = 0 \<and> (\<forall>k. \<not> keyExists k (clearMap t)) \<and>
     (\<forall>k \<in> {1, 2, 3, 4, 5, 6}. keyExists k t) \<and> \<not> keyExists 7 t \<and> \<not> keyExists 8 t"
    using tracker_after [of 50 "fills 6"] by (auto simp: simps) (simp_all add: tracker_size_def clearMap_def keyExists_def)
qed

lemma packet_tracker_find_test_passes:
  "\<exists>t t1 t2 t3. tracker_run (fills 3) (PacketTracker 3) = Some t \<and> findOrDefault 1 0 t = Some (2, t1) \<and>
     findOrDefault 2 0 t1 = Some (3, t2) \<and> findOrDefault 3 0 t2 = Some (4, t3) \<and> findOrDefault 4 0 t3 = Some (0, t3)"
  by (simp add: fills_def upt_rec PacketTracker_def addEntry_def push_front_def findOrDefault_def node_value_def moveToFront_def erase_node_def)

section \<open>Assertions that do not hold\<close>

text \<open>The suite of the builder asserts for a dozen builds, one after the other, that they return a
  device. With a storage that keeps to its contract no run returns two.\<close>

lemma builder_suite_fails:
  fixes es :: "('e, 'd, 'w, 'c) builder_event list"
  assumes "list_all (event_ok L) es" and "1 < length (filter (\<lambda>built. built) asserted)"
  shows "map (\<lambda>r. r \<noteq> None) (builder_life W es b bo) \<noteq> asserted"
proof
  assume "map (\<lambda>r. r \<noteq> None) (builder_life W es b bo) = asserted"
  then have "length (filter (\<lambda>built. built) asserted) = length (filter (\<lambda>r. r \<noteq> None) (builder_life W es b bo))"
    by (auto simp: filter_map comp_def)
  then show False using life_builds_once [OF assms(1), of W b bo] assms(2) by simp
qed

text \<open>The suite of the inclusion protocol makes keys on a curve whose public keys have 64 bytes; the service
  drops them. So a response is not encrypted at all, where the tests assert that it differs from the
  payload; a request is not encrypted whatever the keys.\<close>

lemma inclusion_suite_fails:
  assumes "length devicePub = 64" "length hubPub = 64"
  shows "es_encrypt lib (setDeviceKeys hubPriv hubPub (setTempDevicePublicKey devicePub EncryptionService)) payload
      T_INCLUDE_RESPONSE HUB INCLUDED aes = Some (payload, aes)"
    and "es_encrypt lib (setDeviceKeys devicePriv devicePub (setHubPublicKey hubPub EncryptionService)) payload
      T_INCLUDE_REQUEST STANDARD INCLUSION_PENDING aes = Some (payload, aes)"
  using assms by (auto simp: es_encrypt_def determineCryptoMethod_def getEncryptionKey_def setDeviceKeys_def
      setTempDevicePublicKey_def setHubPublicKey_def EncryptionService_def Let_def)

end
