(* ===== verification/Spec2Isabelle.thy ===== *)
theory Spec2Isabelle
  imports RM_Keystream RM_Restart RM_Examples RM_Console RM_Timer RM_Tests
begin

text \<open>
  RadioMesh, a library for LoRa mesh networks on small boards: a verification of its C++ code under
  \<open>src/src\<close> and of the two example applications under \<open>src/examples\<close>.

  The program. A device (\<open>framework/device/src/Device.cpp\<close>) is put together by a builder
  (\<open>framework/builder\<close>) from components that are singletons. A message that it sends becomes a packet
  (\<open>core/protocol/inc/packet\<close>), which the router (\<open>core/protocol/src/routing\<close>) completes with route,
  encryption, checksum and integrity code (\<open>core/protocol/src/crypto\<close>) and gives to the radio
  (\<open>hardware/src/radio\<close>). The run loop of the device takes received frames through the same stages in
  reverse, hands them to the application or to the inclusion controller, and relays what is not for it.
  The inclusion controller (\<open>framework/device/src/InclusionController.cpp\<close>) brings a new device into a
  hub's network: five messages hand over the network key, which the key manager and the device storage
  keep in EEPROM (\<open>hardware/src/storage\<close>). A hub may run an access point and a web portal, a device a
  display; the examples are the applications of a hub and of a sensor.

  Theories, from the bottom up; each names its source files.
    \<^item> \<open>RM_Prelude\<close>, \<open>RM_Types\<close>, \<open>RM_Utils\<close>: machine types, shared lemmas and lemma collections, the
      definitions and error codes, the helper functions.
    \<^item> \<open>RM_Crc32\<close>, \<open>RM_Packet\<close>: the checksum (a burst within four bytes is always detected) and the wire
      format (locale \<open>codec\<close>, a two-way encoding).
    \<^item> \<open>RM_PacketTracker\<close>: the least recently used cache of packets seen, an index of list iterators over
      a list, refined to an association list (locale \<open>dedup_cache\<close>).
    \<^item> \<open>RM_RoutingTable\<close>: the table of routes with its ageing, across the wrap-around of the clock.
    \<^item> \<open>RM_AesCmac\<close>, \<open>RM_AesCrypto\<close>, \<open>RM_EncryptionService\<close>, \<open>RM_MicService\<close>: CMAC against RFC 4493, the AES
      component (locale \<open>crypto_box\<close>), the choice of method and key, round trips under both kinds of
      key, and the agreement of sender and receiver on the code (locale \<open>mac_alg\<close>).
    \<^item> \<open>RM_Radio\<close>, \<open>RM_PacketRouter\<close>: the driver with its flags and set-up (locale \<open>frame_sink\<close>), and the
      stages of one routing step over the shared singletons \<open>net\<close>.
    \<^item> \<open>RM_Eeprom\<close>, \<open>RM_EepromList\<close>, \<open>RM_DeviceStorage\<close>, \<open>RM_KeyManager\<close>: the storage as bytes, its
      refinement to a list of entries and to a map from keys to values, the typed values (locales
      \<open>key_store\<close>, \<open>device_store\<close>) and the keys.
    \<^item> \<open>RM_DeviceState\<close>, \<open>RM_Inclusion\<close>, \<open>RM_Device\<close>: the device with its controller as one state, sending,
      the handlers of the inclusion messages, reception, run loop, start and reset.
    \<^item> \<open>RM_Protocol\<close>, \<open>RM_Reception\<close>, \<open>RM_Handshake\<close>, \<open>RM_Session\<close>, \<open>RM_Relay\<close>: what these do together. The
      controller refines a small protocol machine under every call of the device that keeps its type, and a
      factory reset starts that machine anew; a message arrives end to end and over relays; the
      handshake completes; a started device keeps its invariants and reaches no undefined behaviour;
      waits end; relaying stops; what is not authentic changes nothing.
    \<^item> \<open>RM_Wifi\<close>, \<open>RM_Display\<close>, \<open>RM_Portal\<close>: WiFi connector and access point, the display, the web portal
      with its messages.
    \<^item> \<open>RM_Builder\<close>: the builder's plan and stages, the device with all its components, and the life of a
      board over several builds.
    \<^item> \<open>RM_MiniHub\<close>, \<open>RM_StandardDevice\<close>: the applications, their state machines and what they show.
    \<^item> \<open>RM_Field\<close>, \<open>RM_Network\<close>: the two applications with each other, over frames only. The first says what
      it is to wait and to hear a frame in the main loop; the second composes the steps: one click on the
      hub's page brings the sensor into the network, and its reports reach the hub's table.
    \<^item> \<open>RM_Keystream\<close>: what the traffic of a network tells somebody without the key. All messages are combined
      with the same keystream, so one known message opens the others.
    \<^item> \<open>RM_PowerOn\<close>, \<open>RM_Restart\<close>: the two applications from power on, with nothing assumed to have
      started well. The hub never follows a null pointer, the sensor does in exactly one case, and a
      network survives a power cut.
    \<^item> \<open>RM_Json\<close>, \<open>RM_Page\<close>, \<open>RM_AdminPanel\<close>: the admin page of the hub. The values and texts of the page's
      language, with a round trip and a proof that the reader's fuel is enough; the script of
      \<open>admin_panel.h\<close> and the one the portal adds to it as handlers on the state of a browser tab; page and
      hub together: the page shows the mode and the devices of the hub, its button reverses the mode and
      the page then shows the new one,
      its first request is dropped, and it does not survive the loss of its connection.
    \<^item> \<open>RM_Examples\<close>: the sample configurations of the two applications; both can be built with them, and
      sensors set up from the sample share one entry of the hub's table.
    \<^item> \<open>RM_Logger\<close>, \<open>RM_Console\<close>: the log, its levels and its formatting, what a log line shows, what a debug
      log gives away, and the status lines of the applications. All other theories leave log lines out.
    \<^item> \<open>RM_Timer\<close>: the timer library under \<open>lib/arduino-timer\<close>, on its own: the firmware does not call it.
    \<^item> \<open>RM_Tests\<close>: suites of the repository's tests run in the model, and the assertions of them that do not
      hold in the code.

  How code becomes definitions. A class is a \<open>record\<close>, its member functions are functions from the
  state to the result and the new state, under the names of the code, with a prefix (\<open>st_\<close>, \<open>km_\<close>,
  \<open>wc_\<close>, \<open>ap_\<close>, \<open>pt_\<close>, \<open>ic_\<close>, \<open>es_\<close>, \<open>hub_\<close>, \<open>std_\<close> and so on) where two classes share one. Error codes are
  values of the type \<open>rc\<close> and every early return is a branch. A result \<open>None\<close> of an operation is
  undefined behaviour of C++: a null pointer that is followed, an index out of bounds. Integers have
  their width. Singletons are one shared state, so an operation that changes a component changes it for
  all. Callbacks of an application are entered in a log of the device, in the order of the calls;
  \<open>RM_MiniHub\<close> runs the hub's callback from that log. Interrupts, and the messages that the web server
  hands to the hub in its own task, are steps between the operations.

  Parameters. The libraries are records of functions with their documented laws as named hypotheses:
  the block cipher, its CTR mode, the curve and the digest (\<open>crypto_lib\<close> with \<open>cipher_laws\<close>, \<open>ctr_laws\<close>,
  \<open>stream_laws\<close>, \<open>ecdh_laws\<close>, \<open>sha_laws\<close>), the radio driver (\<open>radiolib\<close>), the EEPROM (\<open>eeprom_lib\<close>, \<open>eeprom_laws\<close>), WiFi,
  web server, display, the JSON writer, the random sources and the clock. Every driver call may answer
  differently. Each law has an instance (the definitions that begin with \<open>toy_\<close>, \<open>ram_eeprom\<close>,
  \<open>quiet_driver\<close>) on which the witnesses evaluate. The clock has one value within one operation.

  Bounds and termination. All loops of the program are structural recursions or \<open>function\<close>s with a measure.
  Only the reader of JSON texts has fuel, twice the length of the text and two, and \<open>JSON_parse_total\<close>
  shows that more makes no difference. The hop limit of seven bounds relaying, the time-out of 60,000 ms bounds the waits of the
  protocol, and 217 bytes of payload are what a frame holds after encryption and integrity code.

  What was found. Where the code departs from its documentation or from its evident purpose the model
  follows the code, and a theorem states what happens. The larger ones: at most one device is built per
  power cycle and none on a blank EEPROM (\<open>one_device_per_power_cycle\<close>); copies of a frame are delivered
  again at their destination (\<open>copies_are_delivered\<close>); payloads on reserved topics arrive encrypted
  (\<open>reserved_topics_arrive_encrypted\<close>); a device restarted while its inclusion is pending stays so
  until a factory reset (\<open>restart_while_pending_is_stuck\<close>), and a factory reset leaves the keys in memory
  (\<open>reset_keeps_old_keys\<close>); an included sensor whose display does not start crashes after
  ten seconds (\<open>sensor_faults_only_without_radio\<close>); every message is encrypted from the same initialization
  vector, so one known text opens the others (\<open>known_message_opens_others\<close>); private keys have 24 bits (\<open>private_key_24_bits\<close>) and a debug build
  prints them (\<open>debug_log_tells_private_key\<close>); a message of the
  portal for one client reaches all (\<open>private_messages_reach_everyone\<close>); the hub counts a refused
  confirmation as a success (\<open>refused_confirmation_counts_as_joined\<close>); the hub's page is dead once it has lost
  its connection (\<open>page_never_recovers\<close>), and the status it asks for first is never sent
  (\<open>status_request_is_dropped\<close>).

  Not modelled.
    \<^item> Most log statements, \<open>toString\<close> of the radio parameters (it serves one of them) and delays: they change
      no state. The exceptions are in \<open>RM_Logger\<close> and \<open>RM_Console\<close>.
    \<^item> \<open>common/inc/Options.h\<close>, \<open>Callbacks.h\<close>, \<open>ICrypto.h\<close>, \<open>IAesCrypto.h\<close>: switches, function types and pure
      declarations; \<open>main.cpp\<close>: an empty program.
    \<^item> \<open>patches\<close>: third-party board headers; the test suites under \<open>test\<close> that need the hardware; the HTML and
      style text of the hub's page, apart from the elements its script changes.
    \<^item> The memory of C++ beyond null pointers and bounds: the router's pointers to the services of a
      deleted device, concurrent access of the web server's task and the main loop to the hub's variables.
\<close>

end
